(* ===== verification/Prelude.thy ===== *)
theory Prelude
  imports Main "HOL-Library.Char_ord" "HOL-Library.List_Lexorder" "HOL-Library.Product_Lexorder"
begin

text \<open>
  Shared vocabulary of the development.

  \<^item> Problem codes and thrown values. A TypeScript function that may throw is a function into
    \<open>'a res\<close>, the sum of a thrown value \<open>err\<close> and a result. A thrown
    \<open>PlatformProblem\<close> keeps its registered code, its correlation ID and its retry hint; the
    human-readable detail sentence is not modelled.
  \<^item> Strings are lists of UTF-16 code units below 256 (\<open>string\<close>); the predicates here are
    what the source's regular expressions and \<open>String.prototype.trim\<close> decide on them.
  \<^item> Instants are milliseconds since the epoch; a \<open>Date\<close> object is \<open>Some\<close> instant or
    \<open>None\<close> for an invalid date. An ISO-8601 string written by \<open>toISOString\<close> is the instant it
    denotes.
  \<^item> JavaScript values as far as the code inspects them: \<open>js_value\<close>. Finite numbers are
    integers (all numbers this program computes with are versions, counts and minor units).
\<close>

named_theorems res_simps \<open>evaluation of result-valued and transaction-valued code\<close>

section \<open>Thrown values and results\<close>

datatype problem_code =
    invalid_trusted_context | request_validation_failed | resource_not_found | precondition_failed
  | authentication_failed | authentication_assurance_insufficient | workload_scope_denied
  | untrusted_tenant_context | tenant_access_denied | tenant_not_active | invalid_timestamp
  | tenant_display_name_required | tenant_version_conflict | invalid_tenant_transition
  | platform_access_denied | tenant_not_found | tenant_already_exists | tenant_reason_required
  | permission_denied | unknown_permission | role_not_found | role_assignment_exists
  | role_assignment_not_found | separation_of_duties_violation | approval_policy_not_found
  | approval_not_found | approval_not_pending | approval_expired | approval_version_conflict
  | approval_target_mismatch | approval_approver_not_eligible | last_administrator_protected
  | idempotency_key_required | idempotency_key_invalid
  | idempotency_key_reused_with_different_payload | request_in_progress
  | dead_letter_not_resolvable | dead_letter_reason_required | audit_policy_missing
  | audit_event_invalid | tenant_context_missing | tenant_context_mismatch | invalid_decimal
  | calculation_rejected | unsupported_currency | currency_mismatch | internal_error

datatype err =
    Problem (err_code: problem_code) (err_correlation: "string option") (err_retry: "int option")
  | TypeError | RangeError | Error

type_synonym 'a res = "err + 'a"

abbreviation reject :: "problem_code \<Rightarrow> 'a res" where
  "reject c \<equiv> Inl (Problem c None None)"

abbreviation reject_for :: "problem_code \<Rightarrow> string \<Rightarrow> 'a res" where
  "reject_for c corr \<equiv> Inl (Problem c (Some corr) None)"

definition bindR :: "'a res \<Rightarrow> ('a \<Rightarrow> 'b res) \<Rightarrow> 'b res" where
  "bindR m f = (case m of Inl e \<Rightarrow> Inl e | Inr x \<Rightarrow> f x)"

lemma bindR_simps [simp, res_simps]:
  "bindR (Inl e) f = Inl e"
  "bindR (Inr x) f = f x"
  by (simp_all add: bindR_def)

lemma bindR_Inr_iff: "bindR m f = Inr y \<longleftrightarrow> (\<exists>x. m = Inr x \<and> f x = Inr y)"
  by (cases m) simp_all

lemma bindR_InrE [elim]:
  assumes "bindR m f = Inr y" obtains x where "m = Inr x" "f x = Inr y"
  using assms by (auto simp: bindR_Inr_iff)

lemma bindR_Inl_iff: "bindR m f = Inl e \<longleftrightarrow> m = Inl e \<or> (\<exists>x. m = Inr x \<and> f x = Inl e)"
  by (cases m) simp_all

lemma if_Inl_eq_Inr_iff [simp]:
  "(if c then Inl e else m) = Inr y \<longleftrightarrow> \<not> c \<and> m = Inr y"
  by simp

text \<open>\<open>Array.prototype.map\<close> with a callback that may throw: left to right, first throw wins.\<close>

fun mapR :: "('a \<Rightarrow> 'b res) \<Rightarrow> 'a list \<Rightarrow> 'b list res" where
  "mapR f [] = Inr []"
| "mapR f (x # xs) = bindR (f x) (\<lambda>y. bindR (mapR f xs) (\<lambda>ys. Inr (y # ys)))"

lemma mapR_Inr_iff:
  "mapR f xs = Inr ys \<longleftrightarrow> list_all2 (\<lambda>x y. f x = Inr y) xs ys"
proof (induction xs arbitrary: ys)
  case Nil
  show ?case by auto
next
  case (Cons x xs)
  show ?case by (cases ys) (auto simp: bindR_Inr_iff Cons.IH)
qed

lemma mapR_Inr_length: "mapR f xs = Inr ys \<Longrightarrow> length ys = length xs"
  by (auto simp: mapR_Inr_iff dest: list_all2_lengthD)

lemma mapR_InlE:
  assumes "mapR f xs = Inl e" obtains x where "x \<in> set xs" "f x = Inl e"
  using assms by (induction xs) (auto simp: bindR_Inl_iff)

lemma mapR_total: "(\<And>x. x \<in> set xs \<Longrightarrow> f x = Inr (g x)) \<Longrightarrow> mapR f xs = Inr (map g xs)"
  by (induction xs) simp_all

lemma mapR_guarded:
  "(\<And>x. x \<in> set xs \<Longrightarrow> f x = (if P x then Inl e else Inr (g x))) \<Longrightarrow>
   mapR f xs = (if \<exists>x\<in>set xs. P x then Inl e else Inr (map g xs))"
  by (induction xs) simp_all

lemma mapR_cong [fundef_cong]:
  "xs = ys \<Longrightarrow> (\<And>x. x \<in> set ys \<Longrightarrow> f x = g x) \<Longrightarrow> mapR f xs = mapR g ys"
proof (induction xs arbitrary: ys)
  case Nil
  then show ?case by simp
next
  case (Cons x xs)
  then show ?case by (cases ys) auto
qed

section \<open>Transactions\<close>

text \<open>
  Code that reads and writes a database is a function of the database: it returns its outcome
  together with the database it leaves behind, also when it throws. Only \<open>runInTransaction\<close> undoes
  the writes of a failed unit of work (BEGIN, work, COMMIT; on any throw ROLLBACK and rethrow).
\<close>

type_synonym ('s, 'a) tx = "'s \<Rightarrow> 'a res \<times> 's"

definition returnT :: "'a \<Rightarrow> ('s, 'a) tx" where
  "returnT x = (\<lambda>s. (Inr x, s))"

definition throwT :: "err \<Rightarrow> ('s, 'a) tx" where
  "throwT e = (\<lambda>s. (Inl e, s))"

definition bindT :: "('s, 'a) tx \<Rightarrow> ('a \<Rightarrow> ('s, 'b) tx) \<Rightarrow> ('s, 'b) tx" where
  "bindT m f = (\<lambda>s. case m s of (Inl e, s') \<Rightarrow> (Inl e, s') | (Inr x, s') \<Rightarrow> f x s')"

definition liftT :: "'a res \<Rightarrow> ('s, 'a) tx" where
  "liftT r = (\<lambda>s. (r, s))"

definition assertT :: "bool \<Rightarrow> err \<Rightarrow> ('s, unit) tx" where
  "assertT b e = (\<lambda>s. (if b then Inr () else Inl e, s))"

definition runInTransaction :: "('s, 'a) tx \<Rightarrow> ('s, 'a) tx" where
  "runInTransaction work s =
     (case work s of (Inl e, _) \<Rightarrow> (Inl e, s) | (Inr x, s') \<Rightarrow> (Inr x, s'))"

lemmas tx_defs = returnT_def throwT_def bindT_def liftT_def assertT_def

lemma tx_eval [res_simps]:
  "returnT x s = (Inr x, s)"
  "throwT e s = (Inl e, s)"
  "liftT r s = (r, s)"
  "assertT True e s = (Inr (), s)"
  "assertT False e s = (Inl e, s)"
  by (simp_all add: tx_defs)

lemma bindT_eval [res_simps]:
  "m s = (Inr x, s') \<Longrightarrow> bindT m f s = f x s'"
  "m s = (Inl e, s') \<Longrightarrow> bindT m f s = (Inl e, s')"
  by (simp_all add: bindT_def)

lemma bindT_Inr_iff:
  "bindT m f s = (Inr y, t) \<longleftrightarrow> (\<exists>x s'. m s = (Inr x, s') \<and> f x s' = (Inr y, t))"
  by (auto simp: bindT_def split: prod.splits sum.splits)

lemma bindT_InrE [elim]:
  assumes "bindT m f s = (Inr y, t)" obtains x s' where "m s = (Inr x, s')" "f x s' = (Inr y, t)"
  using assms by (auto simp: bindT_Inr_iff)

lemma assertT_Inr_iff [simp]: "assertT b e s = (Inr u, t) \<longleftrightarrow> b \<and> t = s"
  by (auto simp: assertT_def)

lemma liftT_Inr_iff [simp]: "liftT r s = (Inr x, t) \<longleftrightarrow> r = Inr x \<and> t = s"
  by (auto simp: liftT_def)

lemma returnT_Inr_iff [simp]: "returnT x s = (Inr y, t) \<longleftrightarrow> y = x \<and> t = s"
  by (auto simp: returnT_def)

lemma throwT_Inr_iff [simp]: "throwT e s = (Inr y, t) \<longleftrightarrow> False"
  by (auto simp: throwT_def)

lemma runInTransaction_Inr_iff [simp]:
  "runInTransaction w s = (Inr x, t) \<longleftrightarrow> w s = (Inr x, t)"
  by (auto simp: runInTransaction_def split: prod.splits sum.splits)

lemma runInTransaction_Inl_iff:
  "runInTransaction w s = (Inl e, t) \<longleftrightarrow> t = s \<and> (\<exists>s'. w s = (Inl e, s'))"
  by (auto simp: runInTransaction_def split: prod.splits sum.splits)

lemma runInTransaction_rollback: "fst (runInTransaction w s) = Inl e \<Longrightarrow> snd (runInTransaction w s) = s"
  by (auto simp: runInTransaction_def split: prod.splits sum.splits)

section \<open>Characters and strings\<close>

definition is_digit :: "char \<Rightarrow> bool" where
  "is_digit c \<longleftrightarrow> CHR ''0'' \<le> c \<and> c \<le> CHR ''9''"

definition is_lower :: "char \<Rightarrow> bool" where
  "is_lower c \<longleftrightarrow> CHR ''a'' \<le> c \<and> c \<le> CHR ''z''"

definition is_upper :: "char \<Rightarrow> bool" where
  "is_upper c \<longleftrightarrow> CHR ''A'' \<le> c \<and> c \<le> CHR ''Z''"

definition is_lower_hex :: "char \<Rightarrow> bool" where
  "is_lower_hex c \<longleftrightarrow> is_digit c \<or> (CHR ''a'' \<le> c \<and> c \<le> CHR ''f'')"

text \<open>The white space and line terminators that \<open>String.prototype.trim\<close> removes (below 256).\<close>

definition is_space :: "char \<Rightarrow> bool" where
  "is_space c \<longleftrightarrow> (of_char c :: nat) \<in> {9, 10, 11, 12, 13, 32, 160}"

definition trim :: "string \<Rightarrow> string" where
  "trim s = rev (dropWhile is_space (rev (dropWhile is_space s)))"

definition blank :: "string \<Rightarrow> bool" where
  "blank s \<longleftrightarrow> list_all is_space s"

lemma trim_empty_iff: "length (trim s) = 0 \<longleftrightarrow> blank s"
proof -
  have "trim s = [] \<longleftrightarrow> dropWhile is_space (rev (dropWhile is_space s)) = []"
    by (simp only: trim_def rev_is_Nil_conv)
  also have "\<dots> \<longleftrightarrow> (\<forall>c\<in>set (dropWhile is_space s). is_space c)"
    by (simp only: dropWhile_eq_Nil_conv set_rev)
  also have "\<dots> \<longleftrightarrow> dropWhile is_space s = []"
    using hd_dropWhile [of is_space s] by (metis list.set_sel(1) list.set(1) empty_iff)
  also have "\<dots> \<longleftrightarrow> blank s"
    by (simp only: dropWhile_eq_Nil_conv blank_def list_all_iff)
  finally show ?thesis by (simp only: length_0_conv)
qed

lemma blank_Nil [simp]: "blank []"
  by (simp add: blank_def)

text \<open>\<open>/^[first][rest]{0,n}$/\<close> on a string.\<close>

definition matches_head_tail :: "(char \<Rightarrow> bool) \<Rightarrow> (char \<Rightarrow> bool) \<Rightarrow> nat \<Rightarrow> string \<Rightarrow> bool" where
  "matches_head_tail p q n s = (case s of [] \<Rightarrow> False | c # cs \<Rightarrow> p c \<and> list_all q cs \<and> length cs \<le> n)"

text \<open>The shape \<open>/^[a-z][a-z0-9_.-]{0,63}$/\<close> and its variant that also allows a colon.\<close>

definition is_name_char :: "char \<Rightarrow> bool" where
  "is_name_char c \<longleftrightarrow> is_lower c \<or> is_digit c \<or> c = CHR ''_'' \<or> c = CHR ''.'' \<or> c = CHR ''-''"

definition is_scope_char :: "char \<Rightarrow> bool" where
  "is_scope_char c \<longleftrightarrow> is_name_char c \<or> c = CHR '':''"

text \<open>One hexadecimal digit as JavaScript prints it.\<close>

definition lower_hex :: "nat \<Rightarrow> char" where
  "lower_hex d = (if d < 10 then char_of (48 + d) else char_of (87 + d))"

lemma hex_lower: "d < 16 \<Longrightarrow> (of_char (lower_hex d) :: nat) = (if d < 10 then 48 + d else 87 + d)"
  by (simp add: lower_hex_def of_char_of)

lemma lower_hex_inj: "a < 16 \<Longrightarrow> b < 16 \<Longrightarrow> lower_hex a = lower_hex b \<Longrightarrow> a = b"
proof -
  assume a: "a < 16" "b < 16" "lower_hex a = lower_hex b"
  have "(if a < 10 then 48 + a else 87 + a) = (if b < 10 then 48 + b else 87 + b)"
    using hex_lower [OF a(1)] hex_lower [OF a(2)] a(3) by simp
  then show ?thesis using a(1,2) by (simp split: if_splits)
qed

section \<open>Instants\<close>

type_synonym instant = int
type_synonym date = "instant option"

text \<open>\<open>new Date(ms)\<close>: invalid beyond 8.64e15 milliseconds from the epoch.\<close>

definition mkDate :: "int \<Rightarrow> date" where
  "mkDate ms = (if \<bar>ms\<bar> \<le> 8640000000000000 then Some ms else None)"

definition toISOString :: "date \<Rightarrow> instant res" where
  "toISOString d = (case d of None \<Rightarrow> Inl RangeError | Some t \<Rightarrow> Inr t)"

text \<open>
  A stored timestamp arrives from the PostgreSQL driver as a \<open>Date\<close>. Code that reads it as \<open>new Date(String(value))\<close> goes
  through the text of that date, which ends with the seconds: the milliseconds are lost.
\<close>

definition via_date_text :: "instant \<Rightarrow> instant" where
  "via_date_text t = t div 1000 * 1000"

lemma via_date_text_le: "via_date_text t \<le> t"
  unfolding via_date_text_def by presburger

lemma via_date_text_seconds [simp]: "1000 dvd t \<Longrightarrow> via_date_text t = t"
  by (simp add: via_date_text_def)

lemma toISOString_simps [simp]:
  "toISOString None = Inl RangeError" "toISOString (Some t) = Inr t"
  by (simp_all add: toISOString_def)

section \<open>JavaScript values\<close>

datatype js_number = Num int | NegZero | NaN | PosInf | NegInf

datatype js_value =
    JNull | JUndefined | JBool bool | JNumber js_number | JString string
  | JArray "js_value list"
  | JObject "(string \<times> js_value) list"
  | JInstance "(string \<times> js_value) list"
  | JOther

text \<open>
  \<open>JObject\<close> is a plain object with its own enumerable entries in order, \<open>JInstance\<close> an object
  with another prototype (a \<open>Date\<close>, a class instance) and its own enumerable entries, \<open>JOther\<close> a function, symbol or bigint.
\<close>

definition js_finite :: "js_number \<Rightarrow> bool" where
  "js_finite n = (case n of Num _ \<Rightarrow> True | NegZero \<Rightarrow> True | _ \<Rightarrow> False)"

text \<open>\<open>Number.isInteger\<close> with the integer it accepts, and \<open>x > 0\<close> on a number.\<close>

definition js_integer :: "js_number \<Rightarrow> int option" where
  "js_integer n = (case n of Num i \<Rightarrow> Some i | NegZero \<Rightarrow> Some 0 | _ \<Rightarrow> None)"

definition js_positive :: "js_number \<Rightarrow> bool" where
  "js_positive n = (case n of Num i \<Rightarrow> i > 0 | PosInf \<Rightarrow> True | _ \<Rightarrow> False)"

section \<open>Lists\<close>

text \<open>\<open>[...new Set(xs)]\<close>: first occurrences, in order.\<close>

fun uniq :: "'a list \<Rightarrow> 'a list" where
  "uniq [] = []"
| "uniq (x # xs) = x # filter (\<lambda>y. y \<noteq> x) (uniq xs)"

lemma set_uniq [simp]: "set (uniq xs) = set xs"
  by (induction xs) auto

lemma distinct_uniq [simp]: "distinct (uniq xs)"
  by (induction xs) auto

lemma uniq_distinct_id: "distinct xs \<Longrightarrow> uniq xs = xs"
  by (induction xs) (auto simp: filter_id_conv)

lemma length_uniq_eq_iff: "length (uniq xs) = length xs \<longleftrightarrow> distinct xs"
proof
  assume "length (uniq xs) = length xs"
  then show "distinct xs"
    by (metis card_distinct distinct_card distinct_uniq set_uniq)
next
  assume "distinct xs" then show "length (uniq xs) = length xs" by (simp add: uniq_distinct_id)
qed

lemma sum_list_map_add: "(\<Sum>x\<leftarrow>xs. f x + g x) = (\<Sum>x\<leftarrow>xs. f x) + (\<Sum>x\<leftarrow>xs. (g x :: 'a::comm_monoid_add))"
  by (induction xs) (simp_all add: ac_simps)

section \<open>Sorting\<close>

lemma insort_key_map: "insort_key f (h x) (map h xs) = map h (insort_key (f \<circ> h) x xs)"
  by (induction xs) simp_all

lemma sort_key_map: "sort_key f (map h xs) = map h (sort_key (f \<circ> h) xs)"
  by (induction xs) (simp_all add: insort_key_map del: o_apply)

text \<open>Which elements the first \<open>k\<close> places of a list sorted by an injective key hold: those with fewer
  than \<open>k\<close> smaller elements.\<close>

lemma sort_key_take_iff:
  fixes f :: "'a \<Rightarrow> 'b::linorder"
  assumes "inj_on f (set xs)" "distinct xs" "e \<in> set xs"
  shows "e \<in> set (take k (sort_key f xs)) \<longleftrightarrow> card {x \<in> set xs. f x < f e} < k"
proof -
  let ?L = "sort_key f xs"
  have d: "distinct ?L" using assms(2) by simp
  have strict: "sorted_wrt (<) (map f ?L)"
    using assms(1,2) by (simp add: strict_sorted_iff distinct_map)
  obtain p where p: "p < length ?L" "?L ! p = e" using assms(3) by (metis in_set_conv_nth set_sort)
  have "{x \<in> set xs. f x < f e} = set (take p ?L)"
  proof (intro set_eqI iffI)
    fix x assume "x \<in> {x \<in> set xs. f x < f e}"
    then have "x \<in> set ?L" and lt: "f x < f e" by simp_all
    then obtain q where q: "q < length ?L" "?L ! q = x" by (auto simp only: in_set_conv_nth)
    have "\<not> p \<le> q"
    proof
      assume "p \<le> q"
      then have "f e \<le> f x" using p q sorted_wrt_nth_less [OF strict, of p q] by (cases "p = q") auto
      with lt show False by simp
    qed
    then have "q < p" by simp
    then show "x \<in> set (take p ?L)" using q p by (auto simp: in_set_conv_nth)
  next
    fix x assume "x \<in> set (take p ?L)"
    then obtain q where q: "q < p" "?L ! q = x" using p by (auto simp: in_set_conv_nth)
    then have "f x < f e" using p sorted_wrt_nth_less [OF strict, of q p] by simp
    moreover have "x \<in> set xs" using q p by (metis nth_mem order.strict_trans set_sort)
    ultimately show "x \<in> {x \<in> set xs. f x < f e}" by simp
  qed
  then have "card {x \<in> set xs. f x < f e} = p" using p d by (simp add: distinct_card)
  moreover have "e \<in> set (take k ?L) \<longleftrightarrow> p < k"
    using p d by (auto simp: in_set_conv_nth nth_eq_iff_index_eq)
  ultimately show ?thesis by simp
qed

lemma sort_key_cong_list:
  "(\<And>x. x \<in> set xs \<Longrightarrow> f x = g x) \<Longrightarrow> sort_key f xs = sort_key g xs"
proof (induction xs)
  case (Cons x xs)
  have ins: "insort_key f x ys = insort_key g x ys" if "\<And>y. y \<in> insert x (set ys) \<Longrightarrow> f y = g y" for ys
    using that by (induction ys) auto
  have "insort_key f x (sort_key g xs) = insort_key g x (sort_key g xs)"
    by (rule ins) (use Cons.prems in auto)
  with Cons show ?case by simp
qed simp

lemma sum_list_increment: "i < length xs \<Longrightarrow> sum_list (xs[i := xs ! i + d]) = sum_list xs + (d :: int)"
proof (induction xs arbitrary: i)
  case (Cons x xs)
  then show ?case by (cases i) simp_all
qed simp

lemma card_filter_bij: "bij_betw h A B \<Longrightarrow> card {a \<in> A. P (h a)} = card {b \<in> B. P b}"
proof -
  assume h: "bij_betw h A B"
  have "bij_betw h {a \<in> A. P (h a)} {b \<in> B. P b}"
    using h by (auto simp: bij_betw_def inj_on_def)
  then show ?thesis by (rule bij_betw_same_card)
qed

end
