(* ===== verification/Decimal.thy ===== *)
theory Decimal
  imports Prelude Complex_Main "HOL-Library.Signed_Division"
begin

text \<open>
  \<open>platform/money/src/decimal.ts\<close>: exact fixed-point decimals \<open>units * 10^-scale\<close> with at most 38
  significant digits and scale at most 18. The private fields become a record, every operation a
  function into \<open>decimal res\<close>; a scale is an integer by its type; BigInt division is truncating (\<open>sdiv\<close>, \<open>smod\<close>). The abstract
  value is the rational \<open>dval\<close>: the lemmas show that the exact operations compute on it exactly,
  that the rounding operations implement the four rounding modes, that every constructed decimal is
  well formed, and that parsing and printing are inverse.
\<close>

section \<open>Model\<close>

datatype rounding_mode = HALF_UP | HALF_EVEN | DOWN | UP | OTHER_MODE string

definition ROUNDING_MODES :: "rounding_mode list" where
  "ROUNDING_MODES = [HALF_UP, HALF_EVEN, DOWN, UP]"

definition MAX_PRECISION :: nat where "MAX_PRECISION = 38"
definition MAX_SCALE :: nat where "MAX_SCALE = 18"

text \<open>\<open>BigInt.prototype.toString\<close> on a non-negative value.\<close>

definition digit_char :: "nat \<Rightarrow> char" where
  "digit_char d = char_of (48 + d)"

fun nat_str :: "nat \<Rightarrow> string" where
  "nat_str n = (if n < 10 then [digit_char n] else nat_str (n div 10) @ [digit_char (n mod 10)])"

declare nat_str.simps [simp del]

text \<open>\<open>BigInt(text)\<close> on a string of decimal digits.\<close>

definition digit_val :: "char \<Rightarrow> nat" where
  "digit_val c = of_char c - 48"

definition digits_val :: "string \<Rightarrow> nat" where
  "digits_val s = foldl (\<lambda>a c. 10 * a + digit_val c) 0 s"

record decimal =
  units :: int
  dscale :: nat

definition digitCount :: "int \<Rightarrow> nat" where
  "digitCount v = (if v = 0 then 1 else length (nat_str (nat \<bar>v\<bar>)))"

definition roundedQuotient :: "int \<Rightarrow> int \<Rightarrow> rounding_mode \<Rightarrow> int" where
  "roundedQuotient dividend divisor mode =
     (let negative = ((dividend < 0) \<noteq> (divisor < 0));
          numerator = \<bar>dividend\<bar>;
          denominator = \<bar>divisor\<bar>;
          quotient = numerator sdiv denominator;
          remainder = numerator smod denominator;
          twice = remainder * 2;
          roundAway = (mode = UP \<or> (mode = HALF_UP \<and> twice \<ge> denominator) \<or>
            (mode = HALF_EVEN \<and> (twice > denominator \<or> (twice = denominator \<and> quotient smod 2 = 1))));
          quotient' = (if remainder \<noteq> 0 \<and> roundAway then quotient + 1 else quotient)
      in if negative then - quotient' else quotient')"

definition assertScale :: "int \<Rightarrow> unit res" where
  "assertScale s = (if s < 0 \<or> s > int MAX_SCALE then reject calculation_rejected else Inr ())"

definition assertMode :: "rounding_mode \<Rightarrow> unit res" where
  "assertMode m = (if m \<notin> set ROUNDING_MODES then reject calculation_rejected else Inr ())"

definition mkDecimal :: "int \<Rightarrow> nat \<Rightarrow> decimal res" where
  "mkDecimal u s = (if digitCount u > MAX_PRECISION then reject calculation_rejected
                    else Inr \<lparr>units = u, dscale = s\<rparr>)"

text \<open>
  \<open>DECIMAL_PATTERN\<close>: an optional minus, \<open>0\<close> or digits without a leading zero, and optionally a
  point with at least one digit. The captures are (sign, whole, fraction).
\<close>

definition decimal_match :: "string \<Rightarrow> (bool \<times> string \<times> string option) option" where
  "decimal_match text =
     (let neg = (case text of c # _ \<Rightarrow> c = CHR ''-'' | [] \<Rightarrow> False);
          body = (if neg then tl text else text);
          whole = takeWhile is_digit body;
          rest = dropWhile is_digit body
      in if whole = [] \<or> (hd whole = CHR ''0'' \<and> whole \<noteq> ''0'') then None
         else if rest = [] then Some (neg, whole, None)
         else if hd rest = CHR ''.'' \<and> tl rest \<noteq> [] \<and> list_all is_digit (tl rest)
         then Some (neg, whole, Some (tl rest))
         else None)"

text \<open>\<open>replace(/^0+(?=[0-9])/, "")\<close>.\<close>

fun strip_zeros :: "string \<Rightarrow> string" where
  "strip_zeros (c # d # ds) = (if c = CHR ''0'' \<and> is_digit d then strip_zeros (d # ds) else c # d # ds)"
| "strip_zeros s = s"

definition dec_parse :: "string \<Rightarrow> decimal res" where
  "dec_parse text =
     (case decimal_match text of
        None \<Rightarrow> reject invalid_decimal
      | Some (neg, whole, fpart) \<Rightarrow>
          (let fraction = (case fpart of None \<Rightarrow> '''' | Some f \<Rightarrow> f) in
           if length fraction > MAX_SCALE then reject invalid_decimal
           else (let digits = strip_zeros (whole @ fraction) in
             if length digits > MAX_PRECISION then reject invalid_decimal
             else (let u = int (digits_val digits) in
               mkDecimal (if neg then - u else u) (length fraction)))))"

definition fromUnits :: "int \<Rightarrow> int \<Rightarrow> decimal res" where
  "fromUnits u s = bindR (assertScale s) (\<lambda>_. mkDecimal u (nat s))"

text \<open>\<open>fromInteger\<close>: a \<open>number\<close> must be a safe integer, a \<open>bigint\<close> is taken as it is.\<close>

definition fromIntegerNumber :: "js_number \<Rightarrow> decimal res" where
  "fromIntegerNumber v =
     (case v of Num n \<Rightarrow> if \<bar>n\<bar> \<le> 9007199254740991 then mkDecimal n 0 else reject calculation_rejected
      | NegZero \<Rightarrow> mkDecimal 0 0
      | _ \<Rightarrow> reject calculation_rejected)"

definition fromIntegerBigint :: "int \<Rightarrow> decimal res" where
  "fromIntegerBigint n = mkDecimal n 0"

definition unitsAt :: "decimal \<Rightarrow> nat \<Rightarrow> int" where
  "unitsAt d s = units d * 10 ^ (s - dscale d)"

definition dec_add :: "decimal \<Rightarrow> decimal \<Rightarrow> decimal res" where
  "dec_add a b = (let s = max (dscale a) (dscale b) in mkDecimal (unitsAt a s + unitsAt b s) s)"

definition dec_subtract :: "decimal \<Rightarrow> decimal \<Rightarrow> decimal res" where
  "dec_subtract a b = (let s = max (dscale a) (dscale b) in mkDecimal (unitsAt a s - unitsAt b s) s)"

text \<open>The rounding argument \<open>{scale, mode}\<close>.\<close>

type_synonym rounding = "int \<times> rounding_mode"

definition dec_multiply :: "decimal \<Rightarrow> decimal \<Rightarrow> rounding option \<Rightarrow> decimal res" where
  "dec_multiply a b rounding =
     (let exactScale = dscale a + dscale b; product = units a * units b in
      case rounding of
        None \<Rightarrow> if exactScale > MAX_SCALE then reject calculation_rejected else mkDecimal product exactScale
      | Some (rs, mode) \<Rightarrow>
          bindR (assertScale rs) (\<lambda>_. bindR (assertMode mode) (\<lambda>_.
            if nat rs \<ge> exactScale then mkDecimal (product * 10 ^ (nat rs - exactScale)) (nat rs)
            else mkDecimal (roundedQuotient product (10 ^ (exactScale - nat rs)) mode) (nat rs))))"

definition dec_divide :: "decimal \<Rightarrow> decimal \<Rightarrow> rounding \<Rightarrow> decimal res" where
  "dec_divide a b rounding =
     (case rounding of (rs, mode) \<Rightarrow>
        bindR (assertScale rs) (\<lambda>_. bindR (assertMode mode) (\<lambda>_.
          if units b = 0 then reject calculation_rejected
          else (let dividend = units a * 10 ^ (dscale b + nat rs);
                    denominator = units b * 10 ^ dscale a
                in mkDecimal (roundedQuotient dividend denominator mode) (nat rs)))))"

definition dec_round :: "decimal \<Rightarrow> int \<Rightarrow> rounding_mode \<Rightarrow> decimal res" where
  "dec_round d s mode =
     bindR (assertScale s) (\<lambda>_. bindR (assertMode mode) (\<lambda>_.
       if nat s \<ge> dscale d then mkDecimal (unitsAt d (nat s)) (nat s)
       else mkDecimal (roundedQuotient (units d) (10 ^ (dscale d - nat s)) mode) (nat s)))"

definition dec_rescale :: "decimal \<Rightarrow> int \<Rightarrow> decimal res" where
  "dec_rescale d s =
     bindR (assertScale s) (\<lambda>_.
       if nat s \<ge> dscale d then mkDecimal (unitsAt d (nat s)) (nat s)
       else (let divisor = 10 ^ (dscale d - nat s) in
         if units d smod divisor \<noteq> 0 then reject calculation_rejected
         else mkDecimal (units d sdiv divisor) (nat s)))"

definition dec_negate :: "decimal \<Rightarrow> decimal res" where
  "dec_negate d = mkDecimal (- units d) (dscale d)"

definition dec_abs :: "decimal \<Rightarrow> decimal res" where
  "dec_abs d = (if units d < 0 then dec_negate d else Inr d)"

definition dec_sign :: "decimal \<Rightarrow> int" where
  "dec_sign d = (if units d = 0 then 0 else if units d < 0 then -1 else 1)"

definition dec_isZero :: "decimal \<Rightarrow> bool" where
  "dec_isZero d \<longleftrightarrow> units d = 0"

definition dec_isNegative :: "decimal \<Rightarrow> bool" where
  "dec_isNegative d \<longleftrightarrow> units d < 0"

definition dec_compare :: "decimal \<Rightarrow> decimal \<Rightarrow> int" where
  "dec_compare a b =
     (let s = max (dscale a) (dscale b); left = unitsAt a s; right = unitsAt b s
      in if left = right then 0 else if left < right then -1 else 1)"

definition dec_equals :: "decimal \<Rightarrow> decimal \<Rightarrow> bool" where
  "dec_equals a b \<longleftrightarrow> dec_compare a b = 0"

text \<open>\<open>padStart(n, "0")\<close>.\<close>

definition pad_zeros :: "nat \<Rightarrow> string \<Rightarrow> string" where
  "pad_zeros n s = replicate (n - length s) (CHR ''0'') @ s"

definition dec_toString :: "decimal \<Rightarrow> string" where
  "dec_toString d =
     (let digits = pad_zeros (dscale d + 1) (nat_str (nat \<bar>units d\<bar>));
          whole = take (length digits - dscale d) digits;
          fraction = (if dscale d = 0 then '''' else CHR ''.'' # drop (length digits - dscale d) digits)
      in (if units d < 0 then ''-'' else '''') @ whole @ fraction)"

section \<open>Specification: rational values and rounding\<close>

definition dval :: "decimal \<Rightarrow> rat" where
  "dval d = of_int (units d) / 10 ^ dscale d"

definition wf_decimal :: "decimal \<Rightarrow> bool" where
  "wf_decimal d \<longleftrightarrow> \<bar>units d\<bar> < 10 ^ 38 \<and> dscale d \<le> 18"

text \<open>The integer a rounding mode assigns to a rational.\<close>

definition round_spec :: "rounding_mode \<Rightarrow> rat \<Rightarrow> int" where
  "round_spec m x =
     (let a = \<bar>x\<bar>; f = \<lfloor>a\<rfloor>; r = a - of_int f;
          n = (case m of
                 UP \<Rightarrow> \<lceil>a\<rceil>
               | HALF_UP \<Rightarrow> if r \<ge> 1/2 then f + 1 else f
               | HALF_EVEN \<Rightarrow> if r > 1/2 \<or> (r = 1/2 \<and> odd f) then f + 1 else f
               | _ \<Rightarrow> f)
      in if x < 0 then - n else n)"

section \<open>Digits\<close>

lemma is_digit_of_char: "is_digit c \<longleftrightarrow> 48 \<le> (of_char c :: nat) \<and> (of_char c :: nat) \<le> 57"
  by (simp add: is_digit_def less_eq_char_def)

lemma of_char_digit_char: "d < 10 \<Longrightarrow> (of_char (digit_char d) :: nat) = 48 + d"
  by (simp add: digit_char_def of_char_of)

lemma is_digit_digit_char [simp]: "d < 10 \<Longrightarrow> is_digit (digit_char d)"
  by (simp add: is_digit_of_char of_char_digit_char)

lemma digit_val_digit_char [simp]: "d < 10 \<Longrightarrow> digit_val (digit_char d) = d"
  by (simp add: digit_val_def of_char_digit_char)

lemma digit_char_0 [simp]: "digit_char 0 = CHR ''0''"
proof -
  have "(of_char (CHR ''0'') :: nat) = 48" by simp
  then have "char_of (48 :: nat) = CHR ''0''" by (metis char_of_char)
  then show ?thesis by (simp add: digit_char_def)
qed

lemma digit_char_eq_0_iff: "d < 10 \<Longrightarrow> digit_char d = CHR ''0'' \<longleftrightarrow> d = 0"
proof
  assume d: "d < 10" and "digit_char d = CHR ''0''"
  then have "digit_val (digit_char d) = digit_val (digit_char 0)" by (simp only: digit_char_0)
  with d show "d = 0" by (simp del: digit_char_0)
qed simp

lemma nat_str_digits: "c \<in> set (nat_str n) \<Longrightarrow> is_digit c"
proof (induction n rule: nat_str.induct)
  case (1 n)
  then show ?case by (subst (asm) (2) nat_str.simps) (auto split: if_splits)
qed

lemma nat_str_nonempty [simp]: "nat_str n \<noteq> []"
  by (subst nat_str.simps) simp

lemma digits_val_append: "digits_val (s @ [c]) = 10 * digits_val s + digit_val c"
  by (simp add: digits_val_def)

lemma digits_val_Nil [simp]: "digits_val [] = 0"
  by (simp add: digits_val_def)

lemma digits_val_zeros [simp]: "digits_val (replicate n (CHR ''0'') @ s) = digits_val s"
proof -
  have "digit_val (CHR ''0'') = 0" by (simp add: digit_val_def)
  then have "foldl (\<lambda>a c. 10 * a + digit_val c) 0 (replicate n (CHR ''0'')) = 0"
    by (induction n) simp_all
  then show ?thesis by (simp add: digits_val_def)
qed

lemma digits_val_nat_str [simp]: "digits_val (nat_str n) = n"
proof (induction n rule: nat_str.induct)
  case (1 n)
  show ?case
  proof (cases "n < 10")
    case True then show ?thesis by (subst nat_str.simps) (simp add: digits_val_def)
  next
    case False
    with 1 show ?thesis by (subst nat_str.simps) (simp add: digits_val_append)
  qed
qed

lemma length_nat_str_le_iff: "0 < k \<Longrightarrow> length (nat_str n) \<le> k \<longleftrightarrow> n < 10 ^ k"
proof (induction n arbitrary: k rule: nat_str.induct)
  case (1 n)
  show ?case
  proof (cases "n < 10")
    case True
    moreover have "(10::nat) \<le> 10 ^ k" using 1(2) by (cases k) simp_all
    ultimately show ?thesis using 1(2) by (subst nat_str.simps) simp
  next
    case False
    obtain j where j: "k = Suc j" using 1(2) by (cases k) auto
    show ?thesis
    proof (cases j)
      case 0 with False j show ?thesis by (subst nat_str.simps) simp
    next
      case (Suc i)
      have "length (nat_str n) \<le> k \<longleftrightarrow> length (nat_str (n div 10)) \<le> j"
        using False j by (subst nat_str.simps) simp
      also have "\<dots> \<longleftrightarrow> n div 10 < 10 ^ j" using 1(1) [OF False, of j] Suc by simp
      also have "\<dots> \<longleftrightarrow> n < 10 ^ k" using j by (simp add: div_less_iff_less_mult mult.commute)
      finally show ?thesis .
    qed
  qed
qed

lemma nat_str_hd: "n \<noteq> 0 \<Longrightarrow> hd (nat_str n) \<noteq> CHR ''0''"
proof (induction n rule: nat_str.induct)
  case (1 n)
  show ?case
  proof (cases "n < 10")
    case True with 1(2) show ?thesis by (subst nat_str.simps) (simp add: digit_char_eq_0_iff)
  next
    case False
    then have "n div 10 \<noteq> 0" by simp
    with 1(1) False show ?thesis by (subst nat_str.simps) simp
  qed
qed

lemma nat_str_0 [simp]: "nat_str 0 = ''0''"
  by (subst nat_str.simps) simp

lemma digitCount_le_iff: "digitCount u \<le> 38 \<longleftrightarrow> \<bar>u\<bar> < 10 ^ 38"
proof (cases "u = 0")
  case True then show ?thesis by (simp add: digitCount_def)
next
  case False
  have "digitCount u \<le> 38 \<longleftrightarrow> nat \<bar>u\<bar> < 10 ^ 38"
    using False length_nat_str_le_iff [of 38 "nat \<bar>u\<bar>"] by (simp add: digitCount_def)
  also have "\<dots> \<longleftrightarrow> \<bar>u\<bar> < 10 ^ 38" by (simp add: nat_less_iff)
  finally show ?thesis .
qed

lemma mkDecimal_eq:
  "mkDecimal u s = (if \<bar>u\<bar> < 10 ^ 38 then Inr \<lparr>units = u, dscale = s\<rparr> else reject calculation_rejected)"
  using digitCount_le_iff [of u] by (auto simp: mkDecimal_def MAX_PRECISION_def)

lemma mkDecimal_Inr_iff:
  "mkDecimal u s = Inr d \<longleftrightarrow> \<bar>u\<bar> < 10 ^ 38 \<and> d = \<lparr>units = u, dscale = s\<rparr>"
  by (auto simp: mkDecimal_eq)

section \<open>Rounding\<close>

lemma floor_quotient: "(k::int) \<noteq> 0 \<Longrightarrow> \<lfloor>(of_int n / of_int k :: rat)\<rfloor> = n div k"
  by (simp add: floor_divide_of_int_eq)

lemma quotient_remainder: "(k::int) \<noteq> 0 \<Longrightarrow> (of_int n / of_int k :: rat) - of_int (n div k) = of_int (n mod k) / of_int k"
proof -
  assume k: "k \<noteq> 0"
  have "of_int n = (of_int (n div k * k + n mod k) :: rat)" by simp
  also have "\<dots> = of_int (n div k) * of_int k + of_int (n mod k)" by (simp only: of_int_add of_int_mult)
  finally show ?thesis using k by (simp add: field_simps)
qed

lemma ceiling_quotient:
  assumes "0 < (k::int)"
  shows "\<lceil>(of_int n / of_int k :: rat)\<rceil> = (if n mod k = 0 then n div k else n div k + 1)"
proof -
  have rem: "(of_int n / of_int k :: rat) = of_int (n div k) + of_int (n mod k) / of_int k"
    using quotient_remainder [of k n] assms by simp
  have nonneg: "0 \<le> n mod k" and less: "n mod k < k" using assms by simp_all
  show ?thesis
  proof (cases "n mod k = 0")
    case True then show ?thesis by (simp add: rem)
  next
    case False
    then have "0 < (of_int (n mod k) / of_int k :: rat)" and "(of_int (n mod k) / of_int k :: rat) < 1"
      using assms nonneg less by (simp_all add: order_less_le)
    then show ?thesis using False by (auto simp: rem intro!: ceiling_unique)
  qed
qed

lemma nonneg_signed_ops:
  "0 \<le> n \<Longrightarrow> 0 < k \<Longrightarrow> (n::int) sdiv k = n div k"
  "0 \<le> n \<Longrightarrow> 0 < k \<Longrightarrow> (n::int) smod k = n mod k"
  by (auto simp: signed_divide_int_def signed_modulo_int_def sgn_if minus_mult_div_eq_mod)

lemma rounded_nonneg:
  fixes n k :: int
  assumes n: "0 \<le> n" and k: "0 < k" and m: "m \<in> set ROUNDING_MODES"
  defines "q \<equiv> (if n mod k \<noteq> 0 \<and> (m = UP \<or> (m = HALF_UP \<and> n mod k * 2 \<ge> k) \<or>
      (m = HALF_EVEN \<and> (n mod k * 2 > k \<or> (n mod k * 2 = k \<and> (n div k) mod 2 = 1)))) then n div k + 1 else n div k)"
  shows "round_spec m (of_int n / of_int k) = q"
proof -
  define x :: rat where "x = of_int n / of_int k"
  have x0: "0 \<le> x" using n k by (simp add: x_def)
  have fl: "\<lfloor>x\<rfloor> = n div k" using k by (simp add: x_def floor_quotient)
  have rm: "x - of_int (n div k) = of_int (n mod k) / of_int k"
    using k quotient_remainder [of k n] by (simp add: x_def)
  have ce: "\<lceil>x\<rceil> = (if n mod k = 0 then n div k else n div k + 1)"
    using k by (simp add: x_def ceiling_quotient)
  have half: "(1/2 \<le> (of_int (n mod k) / of_int k :: rat)) \<longleftrightarrow> k \<le> n mod k * 2"
    "((of_int (n mod k) / of_int k :: rat) > 1/2) \<longleftrightarrow> k < n mod k * 2"
    "((of_int (n mod k) / of_int k :: rat) = 1/2) \<longleftrightarrow> n mod k * 2 = k"
  proof -
    have "(1/2 \<le> (of_int (n mod k) / of_int k :: rat)) \<longleftrightarrow> (of_int k :: rat) \<le> of_int (n mod k * 2)"
      using k by (simp add: field_simps)
    then show "(1/2 \<le> (of_int (n mod k) / of_int k :: rat)) \<longleftrightarrow> k \<le> n mod k * 2"
      by (simp only: of_int_le_iff)
    have "((of_int (n mod k) / of_int k :: rat) > 1/2) \<longleftrightarrow> (of_int k :: rat) < of_int (n mod k * 2)"
      using k by (simp add: field_simps)
    then show "((of_int (n mod k) / of_int k :: rat) > 1/2) \<longleftrightarrow> k < n mod k * 2"
      by (simp only: of_int_less_iff)
    have "((of_int (n mod k) / of_int k :: rat) = 1/2) \<longleftrightarrow> (of_int (n mod k * 2) :: rat) = of_int k"
      using k by (auto simp: field_simps)
    then show "((of_int (n mod k) / of_int k :: rat) = 1/2) \<longleftrightarrow> n mod k * 2 = k"
      by (simp only: of_int_eq_iff)
  qed
  have odd: "odd (n div k) \<longleftrightarrow> (n div k) mod 2 = 1" by (simp add: odd_iff_mod_2_eq_one)
  have mod0: "n mod k = 0 \<Longrightarrow> \<not> k \<le> n mod k * 2" "n mod k = 0 \<Longrightarrow> n mod k * 2 \<noteq> k"
    using k by auto
  have "\<bar>x\<bar> = x" "\<not> x < 0" using x0 by simp_all
  then have "round_spec m x = (case m of
       UP \<Rightarrow> \<lceil>x\<rceil>
     | HALF_UP \<Rightarrow> if x - of_int \<lfloor>x\<rfloor> \<ge> 1/2 then \<lfloor>x\<rfloor> + 1 else \<lfloor>x\<rfloor>
     | HALF_EVEN \<Rightarrow> if x - of_int \<lfloor>x\<rfloor> > 1/2 \<or> (x - of_int \<lfloor>x\<rfloor> = 1/2 \<and> odd \<lfloor>x\<rfloor>) then \<lfloor>x\<rfloor> + 1 else \<lfloor>x\<rfloor>
     | _ \<Rightarrow> \<lfloor>x\<rfloor>)"
    by (simp only: round_spec_def Let_def if_False)
  also have "\<dots> = q"
    unfolding fl rm half ce odd using m mod0 by (auto simp: q_def ROUNDING_MODES_def)
  finally have "round_spec m x = q" .
  then show ?thesis by (simp add: x_def)
qed

lemma round_spec_minus: "x \<noteq> 0 \<Longrightarrow> round_spec m (- x) = - round_spec m x"
  by (cases "x < 0") (auto simp: round_spec_def Let_def)

lemma round_spec_0: "round_spec m 0 = 0"
  by (cases m) (simp_all add: round_spec_def)

lemma roundedQuotient_abs:
  assumes "k \<noteq> 0" "m \<in> set ROUNDING_MODES"
  shows "roundedQuotient n k m =
    (if (n < 0) \<noteq> (k < 0) then - round_spec m (of_int \<bar>n\<bar> / of_int \<bar>k\<bar>) else round_spec m (of_int \<bar>n\<bar> / of_int \<bar>k\<bar>))"
proof -
  have k0: "0 < \<bar>k\<bar>" using assms(1) by simp
  have d0: "0 \<le> \<bar>n\<bar> div \<bar>k\<bar>" using k0 by (simp add: pos_imp_zdiv_nonneg_iff)
  show ?thesis
    unfolding roundedQuotient_def Let_def rounded_nonneg [OF abs_ge_zero k0 assms(2)]
      nonneg_signed_ops [OF abs_ge_zero k0] nonneg_signed_ops(2) [OF d0, of 2, simplified]
    by simp
qed

text \<open>\<open>roundedQuotient\<close> is the specified rounding of the exact quotient, on every sign combination.\<close>

lemma roundedQuotient_round_spec:
  assumes "k \<noteq> 0" "m \<in> set ROUNDING_MODES"
  shows "roundedQuotient n k m = round_spec m (of_int n / of_int k)"
proof (cases "n = 0")
  case True
  with assms show ?thesis by (simp add: roundedQuotient_abs round_spec_0)
next
  case False
  let ?x = "of_int \<bar>n\<bar> / of_int \<bar>k\<bar> :: rat"
  have x: "?x \<noteq> 0" using False assms(1) by simp
  have "(of_int n / of_int k :: rat) = (if (n < 0) \<noteq> (k < 0) then - ?x else ?x)"
    by (cases "n < 0"; cases "k < 0") simp_all
  then show ?thesis using roundedQuotient_abs [OF assms] round_spec_minus [OF x, of m] by simp
qed

section \<open>Operations on values\<close>

lemma assertScale_Inr_iff [simp]: "assertScale s = Inr u \<longleftrightarrow> 0 \<le> s \<and> s \<le> 18"
  by (auto simp: assertScale_def MAX_SCALE_def)

lemma assertScale_cases: "assertScale s = (if 0 \<le> s \<and> s \<le> 18 then Inr () else reject calculation_rejected)"
  by (auto simp: assertScale_def MAX_SCALE_def)

lemma assertMode_cases: "assertMode m = (if m \<in> set ROUNDING_MODES then Inr () else reject calculation_rejected)"
  by (auto simp: assertMode_def)

lemma unitsAt_dval:
  assumes "dscale d \<le> s" shows "of_int (unitsAt d s) = dval d * 10 ^ s"
proof -
  have "(10::rat) ^ s = 10 ^ (s - dscale d) * 10 ^ dscale d" using assms by (simp flip: power_add)
  then show ?thesis by (simp add: unitsAt_def dval_def)
qed

lemma units_dval: "of_int (units d) = dval d * 10 ^ dscale d"
  by (simp add: dval_def)

lemma dval_record [simp]: "dval \<lparr>units = u, dscale = s\<rparr> = of_int u / 10 ^ s"
  by (simp add: dval_def)

lemmas dec_defs = dec_add_def dec_subtract_def dec_multiply_def dec_divide_def dec_round_def
  dec_rescale_def dec_negate_def dec_abs_def fromUnits_def

text \<open>Addition and subtraction are exact. When they return, the result's value is the exact
  sum (difference) at the larger of the two scales; they reject, with \<open>calculation_rejected\<close>,
  exactly when that result needs more than 38 significant digits.\<close>

theorem add_subtract_exact:
  "(case dec_add a b of
      Inr c \<Rightarrow> dval c = dval a + dval b \<and> dscale c = max (dscale a) (dscale b)
    | Inl e \<Rightarrow> e = Problem calculation_rejected None None \<and>
        \<bar>dval a + dval b\<bar> * 10 ^ max (dscale a) (dscale b) \<ge> 10 ^ 38) \<and>
   (case dec_subtract a b of
      Inr c \<Rightarrow> dval c = dval a - dval b \<and> dscale c = max (dscale a) (dscale b)
    | Inl e \<Rightarrow> e = Problem calculation_rejected None None \<and>
        \<bar>dval a - dval b\<bar> * 10 ^ max (dscale a) (dscale b) \<ge> 10 ^ 38)"
proof -
  let ?s = "max (dscale a) (dscale b)"
  have a: "of_int (unitsAt a ?s) = dval a * 10 ^ ?s" and b: "of_int (unitsAt b ?s) = dval b * 10 ^ ?s"
    by (simp_all add: unitsAt_dval)
  have sum: "of_int (unitsAt a ?s + unitsAt b ?s) = (dval a + dval b) * 10 ^ ?s"
    and dif: "of_int (unitsAt a ?s - unitsAt b ?s) = (dval a - dval b) * 10 ^ ?s"
    by (simp_all only: of_int_add of_int_diff a b distrib_right left_diff_distrib)
  have big: "\<bar>x\<bar> * 10 ^ ?s \<ge> (10::rat) ^ 38" if "of_int u = x * 10 ^ ?s" "\<not> \<bar>u\<bar> < 10 ^ 38" for u x
  proof -
    have "(of_int (10 ^ 38) :: rat) \<le> of_int \<bar>u\<bar>" using that(2) by (simp only: of_int_le_iff not_less)
    then show ?thesis using that(1) by (simp add: abs_mult)
  qed
  have "case dec_add a b of
      Inr c \<Rightarrow> dval c = dval a + dval b \<and> dscale c = ?s
    | Inl e \<Rightarrow> e = Problem calculation_rejected None None \<and> \<bar>dval a + dval b\<bar> * 10 ^ ?s \<ge> 10 ^ 38"
    using sum big [OF sum] by (simp add: dec_add_def Let_def mkDecimal_eq del: of_int_add)
  moreover have "case dec_subtract a b of
      Inr c \<Rightarrow> dval c = dval a - dval b \<and> dscale c = ?s
    | Inl e \<Rightarrow> e = Problem calculation_rejected None None \<and> \<bar>dval a - dval b\<bar> * 10 ^ ?s \<ge> 10 ^ 38"
    using dif big [OF dif] by (simp add: dec_subtract_def Let_def mkDecimal_eq del: of_int_diff)
  ultimately show ?thesis by blast
qed

text \<open>What a successful rounding operation returns: the requested scale, and the specified rounding
  of the exact value in units of that scale.\<close>

lemma dec_divide_value:
  assumes "dec_divide a b (s, m) = Inr c"
  shows "units c = round_spec m (dval a / dval b * 10 ^ dscale c) \<and> int (dscale c) = s"
proof -
  from assms have ok: "0 \<le> s" "s \<le> 18" "m \<in> set ROUNDING_MODES" "units b \<noteq> 0"
    and c: "c = \<lparr>units = roundedQuotient (units a * 10 ^ (dscale b + nat s)) (units b * 10 ^ dscale a) m, dscale = nat s\<rparr>"
    by (auto simp: dec_divide_def Let_def assertMode_cases mkDecimal_Inr_iff bindR_Inr_iff split: if_splits)
  have "(of_int (units a * 10 ^ (dscale b + nat s)) / of_int (units b * 10 ^ dscale a) :: rat)
        = dval a / dval b * 10 ^ nat s"
    by (simp add: dval_def power_add mult_ac)
  then show ?thesis using ok c by (simp add: roundedQuotient_round_spec)
qed

lemma round_spec_int [simp]: "round_spec m (of_int u) = u"
proof -
  have a: "\<bar>of_int u :: rat\<bar> = of_int \<bar>u\<bar>" by simp
  show ?thesis unfolding round_spec_def a Let_def floor_of_int ceiling_of_int by (cases m) simp_all
qed

lemma dec_round_value:
  assumes "dec_round d s m = Inr c"
  shows "units c = round_spec m (dval d * 10 ^ dscale c) \<and> int (dscale c) = s"
proof -
  from assms have ok: "0 \<le> s" "s \<le> 18" "m \<in> set ROUNDING_MODES"
    and c: "c = \<lparr>units = (if nat s \<ge> dscale d then unitsAt d (nat s)
                          else roundedQuotient (units d) (10 ^ (dscale d - nat s)) m), dscale = nat s\<rparr>"
    by (auto simp: dec_round_def Let_def assertMode_cases mkDecimal_Inr_iff bindR_Inr_iff split: if_splits)
  show ?thesis
  proof (cases "nat s \<ge> dscale d")
    case True
    then have "round_spec m (dval d * 10 ^ nat s) = unitsAt d (nat s)"
      using round_spec_int [of m "unitsAt d (nat s)"] by (simp add: unitsAt_dval)
    with True ok c show ?thesis by simp
  next
    case False
    then have "(10::rat) ^ dscale d = 10 ^ (dscale d - nat s) * 10 ^ nat s" by (simp flip: power_add)
    then have "(of_int (units d) / of_int (10 ^ (dscale d - nat s)) :: rat) = dval d * 10 ^ nat s"
      by (simp add: dval_def)
    with False ok c show ?thesis by (simp add: roundedQuotient_round_spec)
  qed
qed

lemma round_spec_error:
  assumes "m \<in> set ROUNDING_MODES"
  shows "\<bar>of_int (round_spec m x) - x\<bar> < 1"
    and "m \<in> {HALF_UP, HALF_EVEN} \<Longrightarrow> \<bar>of_int (round_spec m x) - x\<bar> \<le> 1/2"
proof -
  define a where "a = \<bar>x\<bar>"
  have f: "of_int \<lfloor>a\<rfloor> \<le> a" "a < of_int \<lfloor>a\<rfloor> + 1" by linarith+
  have c: "a \<le> of_int \<lceil>a\<rceil>" "of_int \<lceil>a\<rceil> < a + 1" by linarith+
  define n where "n = (case m of UP \<Rightarrow> \<lceil>a\<rceil> | HALF_UP \<Rightarrow> if a - of_int \<lfloor>a\<rfloor> \<ge> 1/2 then \<lfloor>a\<rfloor> + 1 else \<lfloor>a\<rfloor>
      | HALF_EVEN \<Rightarrow> if a - of_int \<lfloor>a\<rfloor> > 1/2 \<or> (a - of_int \<lfloor>a\<rfloor> = 1/2 \<and> odd \<lfloor>a\<rfloor>) then \<lfloor>a\<rfloor> + 1 else \<lfloor>a\<rfloor>
      | _ \<Rightarrow> \<lfloor>a\<rfloor>)"
  have r: "of_int (round_spec m x) - x = (if x < 0 then - (of_int n - a) else of_int n - a)"
    unfolding round_spec_def Let_def n_def a_def by simp
  have "\<bar>of_int n - a\<bar> < 1" using f c assms by (cases m) (auto simp: n_def ROUNDING_MODES_def)
  then show "\<bar>of_int (round_spec m x) - x\<bar> < 1" using r by auto
  assume "m \<in> {HALF_UP, HALF_EVEN}"
  then have "\<bar>of_int n - a\<bar> \<le> 1/2" using f by (cases m) (auto simp: n_def)
  then show "\<bar>of_int (round_spec m x) - x\<bar> \<le> 1/2" unfolding r by (auto simp: abs_minus_commute)
qed

text \<open>C4: division is correctly rounded. A division that returns has the requested scale, its units
  are the specified rounding of the exact quotient at that scale, and its value differs from the
  exact quotient by less than one unit of that scale, and by at most half a unit in the two
  half-rounding modes.\<close>

theorem divide_correctly_rounded:
  assumes "dec_divide a b (s, m) = Inr c"
  shows "units c = round_spec m (dval a / dval b * 10 ^ nat s) \<and>
    dscale c = nat s \<and> dval b \<noteq> 0 \<and>
    \<bar>dval c - dval a / dval b\<bar> * 10 ^ nat s < 1 \<and>
    (m \<in> {HALF_UP, HALF_EVEN} \<longrightarrow> \<bar>dval c - dval a / dval b\<bar> * 10 ^ nat s \<le> 1/2)"
proof -
  let ?x = "dval a / dval b * 10 ^ nat s"
  have v: "units c = round_spec m ?x" and sc: "dscale c = nat s"
    using dec_divide_value [OF assms] by auto
  have m: "m \<in> set ROUNDING_MODES" and b: "dval b \<noteq> 0"
    using assms by (auto simp: dec_divide_def assertMode_cases bindR_Inr_iff dval_def split: if_splits)
  have "(dval c - dval a / dval b) * 10 ^ nat s = of_int (round_spec m ?x) - ?x"
    using units_dval [of c] v sc by (simp only: left_diff_distrib)
  then have "\<bar>(dval c - dval a / dval b) * 10 ^ nat s\<bar> = \<bar>of_int (round_spec m ?x) - ?x\<bar>" by (rule arg_cong)
  moreover have "\<bar>(10::rat) ^ nat s\<bar> = 10 ^ nat s" by simp
  ultimately have eq: "\<bar>dval c - dval a / dval b\<bar> * 10 ^ nat s = \<bar>of_int (round_spec m ?x) - ?x\<bar>"
    by (simp only: abs_mult)
  show ?thesis
    unfolding eq using round_spec_error [OF m, of ?x] v sc b by (intro conjI impI) assumption+
qed

lemma eval_divide_example:
  "dec_divide \<lparr>units = 2, dscale = 0\<rparr> \<lparr>units = 3, dscale = 0\<rparr> (2, HALF_UP) = Inr \<lparr>units = 67, dscale = 2\<rparr>"
  by (simp add: dec_divide_def mkDecimal_eq roundedQuotient_def ROUNDING_MODES_def assertMode_cases
      assertScale_cases signed_divide_int_def signed_modulo_int_def)

theorem divide_correctly_rounded_witness:
  "(67::int) = round_spec HALF_UP (dval \<lparr>units = 2, dscale = 0\<rparr> / dval \<lparr>units = 3, dscale = 0\<rparr> * 10 ^ nat 2)"
  using divide_correctly_rounded [OF eval_divide_example] by simp

section \<open>Exact comparison, rescaling and multiplication\<close>

lemma unitsAt_compare:
  "dscale a \<le> s \<Longrightarrow> dscale b \<le> s \<Longrightarrow> unitsAt a s < unitsAt b s \<longleftrightarrow> dval a < dval b"
  "dscale a \<le> s \<Longrightarrow> dscale b \<le> s \<Longrightarrow> unitsAt a s = unitsAt b s \<longleftrightarrow> dval a = dval b"
proof -
  assume s: "dscale a \<le> s" "dscale b \<le> s"
  have "unitsAt a s < unitsAt b s \<longleftrightarrow> (of_int (unitsAt a s) :: rat) < of_int (unitsAt b s)"
    by (simp only: of_int_less_iff)
  then show "unitsAt a s < unitsAt b s \<longleftrightarrow> dval a < dval b" by (simp add: unitsAt_dval s)
  have "unitsAt a s = unitsAt b s \<longleftrightarrow> (of_int (unitsAt a s) :: rat) = of_int (unitsAt b s)"
    by (simp only: of_int_eq_iff)
  then show "unitsAt a s = unitsAt b s \<longleftrightarrow> dval a = dval b" by (simp add: unitsAt_dval s)
qed

lemma dec_compare_dval:
  "dec_compare a b = (if dval a = dval b then 0 else if dval a < dval b then -1 else 1)"
  by (simp add: dec_compare_def Let_def unitsAt_compare)

lemma dec_equals_dval: "dec_equals a b \<longleftrightarrow> dval a = dval b"
  by (simp add: dec_equals_def dec_compare_dval)

lemma dec_sign_dval: "dec_sign d = (if dval d = 0 then 0 else if dval d < 0 then -1 else 1)"
  by (auto simp: dec_sign_def dval_def divide_less_0_iff)

lemma smod_eq_0_iff: "(n::int) smod k = 0 \<longleftrightarrow> k dvd n"
proof -
  have "n smod k = sgn n * (\<bar>n\<bar> mod \<bar>k\<bar>)" by (simp add: signed_modulo_int_def signed_divide_int_def sgn_if
        minus_mult_div_eq_mod abs_if algebra_simps)
  then show ?thesis by (cases "n = 0") (auto simp: dvd_eq_mod_eq_0 [symmetric] sgn_eq_0_iff)
qed

lemma sdiv_exact:
  assumes "k \<noteq> 0" shows "(q * k :: int) sdiv k = q"
proof -
  have "sgn k * sgn k = 1" using assms by (simp add: sgn_if)
  then have "sgn (q * k) * sgn k = sgn q" by (simp add: sgn_mult)
  moreover have "\<bar>q * k\<bar> div \<bar>k\<bar> = \<bar>q\<bar>" using assms by (simp add: abs_mult)
  ultimately show ?thesis by (simp add: signed_divide_int_def sgn_mult_abs)
qed

lemma dec_rescale_cases:
  "(\<exists>c. dec_rescale d s = Inr c \<and> dval c = dval d \<and> int (dscale c) = s) \<or>
   (dec_rescale d s = reject calculation_rejected \<and>
    (s < 0 \<or> s > 18 \<or> \<not> (\<exists>u. \<bar>u\<bar> < 10 ^ 38 \<and> of_int u = dval d * 10 ^ nat s)))"
proof (cases "0 \<le> s \<and> s \<le> 18")
  case False
  then show ?thesis by (auto simp: dec_rescale_def assertScale_cases)
next
  case sOK: True
  have result: ?thesis if v: "of_int v = dval d * 10 ^ nat s" and r: "dec_rescale d s = mkDecimal v (nat s)" for v
  proof (cases "\<bar>v\<bar> < 10 ^ 38")
    case True
    then show ?thesis using v r sOK by (simp add: mkDecimal_eq)
  next
    case False
    have "u = v" if "of_int u = dval d * 10 ^ nat s" for u
      using that v by (metis of_int_eq_iff)
    then show ?thesis using r False by (auto simp: mkDecimal_eq)
  qed
  show ?thesis
  proof (cases "dscale d \<le> nat s")
    case True
    then show ?thesis
      using sOK result [of "unitsAt d (nat s)"] by (simp add: dec_rescale_def assertScale_cases unitsAt_dval)
  next
    case False
    define p :: int where "p = 10 ^ (dscale d - nat s)"
    have pw: "(10::rat) ^ dscale d = of_int p * 10 ^ nat s" using False by (simp add: p_def flip: power_add)
    have p0: "p \<noteq> 0" by (simp add: p_def)
    have val: "of_int u = dval d * 10 ^ nat s \<longleftrightarrow> units d = u * p" for u
    proof -
      have "of_int u = dval d * 10 ^ nat s \<longleftrightarrow> (of_int (units d) :: rat) = of_int (u * p)"
        using p0 by (auto simp: dval_def pw field_simps)
      then show ?thesis by (simp only: of_int_eq_iff)
    qed
    have eq: "dec_rescale d s =
        (if p dvd units d then mkDecimal (units d sdiv p) (nat s) else reject calculation_rejected)"
      using False sOK by (simp add: dec_rescale_def assertScale_cases Let_def p_def smod_eq_0_iff)
    show ?thesis
    proof (cases "p dvd units d")
      case True
      then obtain q where q: "units d = q * p" by (metis dvdE mult.commute)
      then show ?thesis using result [of q] eq val [of q] sdiv_exact [OF p0, of q] by simp
    next
      case False
      then show ?thesis using eq val by auto
    qed
  qed
qed

text \<open>Comparison, equality and sign are those of the exact values, whatever the scales; and
  \<open>rescale\<close> never rounds: it returns a decimal of the same value at the requested scale, or rejects
  when the scale is out of range or no 38-digit number of units at that scale has this value.\<close>

theorem compare_and_rescale_exact:
  "dec_compare a b = (if dval a = dval b then 0 else if dval a < dval b then -1 else 1) \<and>
   (dec_equals a b \<longleftrightarrow> dval a = dval b) \<and>
   dec_sign a = dec_compare a \<lparr>units = 0, dscale = 0\<rparr> \<and>
   (case dec_rescale a s of
      Inr c \<Rightarrow> dval c = dval a \<and> int (dscale c) = s
    | Inl e \<Rightarrow> e = Problem calculation_rejected None None \<and>
        (s < 0 \<or> s > 18 \<or> \<not> (\<exists>u. \<bar>u\<bar> < 10 ^ 38 \<and> of_int u = dval a * 10 ^ nat s)))"
  using dec_rescale_cases [of a s] by (auto simp: dec_compare_dval dec_equals_dval dec_sign_dval)

lemma dec_multiply_exact_value:
  assumes "dec_multiply a b None = Inr c"
  shows "dval c = dval a * dval b \<and> dscale c = dscale a + dscale b"
  using assms by (auto simp: dec_multiply_def Let_def mkDecimal_Inr_iff dval_def power_add split: if_splits)

lemma dec_multiply_rounded_value:
  assumes "dec_multiply a b (Some (s, m)) = Inr c"
  shows "units c = round_spec m (dval a * dval b * 10 ^ dscale c) \<and> int (dscale c) = s"
proof -
  let ?p = "\<lparr>units = units a * units b, dscale = dscale a + dscale b\<rparr>"
  have "dec_round ?p s m = Inr c"
    using assms by (auto simp: dec_multiply_def dec_round_def unitsAt_def Let_def bindR_Inr_iff split: if_splits)
  moreover have "dval ?p = dval a * dval b" by (simp add: dval_def power_add)
  ultimately show ?thesis using dec_round_value by fastforce
qed

lemma dec_errors:
  "dec_multiply a b r = Inl e \<Longrightarrow> e = Problem calculation_rejected None None"
  "dec_round a s m = Inl e \<Longrightarrow> e = Problem calculation_rejected None None"
  by (auto simp: dec_multiply_def dec_round_def Let_def mkDecimal_eq assertScale_cases assertMode_cases
      split: if_splits option.splits prod.splits)

text \<open>The value computed by every arithmetic operation that returns: products without a rounding
  argument are exact; products and roundings with one have the units the rounding mode assigns to the
  exact value at the requested scale; negation and absolute value are exact.\<close>

theorem multiply_round_negate_values:
  "(case dec_multiply a b None of Inr c \<Rightarrow> dval c = dval a * dval b | Inl e \<Rightarrow> e = Problem calculation_rejected None None) \<and>
   (case dec_multiply a b (Some (s, m)) of
      Inr c \<Rightarrow> units c = round_spec m (dval a * dval b * 10 ^ nat s) \<and> int (dscale c) = s
    | Inl e \<Rightarrow> e = Problem calculation_rejected None None) \<and>
   (case dec_round a s m of
      Inr c \<Rightarrow> units c = round_spec m (dval a * 10 ^ nat s) \<and> int (dscale c) = s
    | Inl e \<Rightarrow> e = Problem calculation_rejected None None) \<and>
   (case dec_negate a of Inr c \<Rightarrow> dval c = - dval a | Inl e \<Rightarrow> 10 ^ 38 \<le> \<bar>units a\<bar>) \<and>
   (case dec_abs a of Inr c \<Rightarrow> dval c = \<bar>dval a\<bar> | Inl e \<Rightarrow> 10 ^ 38 \<le> \<bar>units a\<bar>)"
proof (intro conjI)
  show "case dec_multiply a b None of Inr c \<Rightarrow> dval c = dval a * dval b | Inl e \<Rightarrow> e = Problem calculation_rejected None None"
    using dec_multiply_exact_value [of a b] dec_errors(1) [of a b None] by (simp split: sum.split)
  show "case dec_multiply a b (Some (s, m)) of
      Inr c \<Rightarrow> units c = round_spec m (dval a * dval b * 10 ^ nat s) \<and> int (dscale c) = s
    | Inl e \<Rightarrow> e = Problem calculation_rejected None None"
    using dec_multiply_rounded_value [of a b s m] dec_errors(1) [of a b "Some (s, m)"] by (auto split: sum.split)
  show "case dec_round a s m of
      Inr c \<Rightarrow> units c = round_spec m (dval a * 10 ^ nat s) \<and> int (dscale c) = s
    | Inl e \<Rightarrow> e = Problem calculation_rejected None None"
    using dec_round_value [of a s m] dec_errors(2) [of a s m] by (auto split: sum.split)
  show "case dec_negate a of Inr c \<Rightarrow> dval c = - dval a | Inl e \<Rightarrow> 10 ^ 38 \<le> \<bar>units a\<bar>"
    by (simp add: dec_negate_def mkDecimal_eq dval_def)
  show "case dec_abs a of Inr c \<Rightarrow> dval c = \<bar>dval a\<bar> | Inl e \<Rightarrow> 10 ^ 38 \<le> \<bar>units a\<bar>"
    by (simp add: dec_abs_def dec_negate_def mkDecimal_eq dval_def)
qed

section \<open>Well-formed results\<close>

lemma mkDecimal_wf: "mkDecimal u s = Inr c \<Longrightarrow> s \<le> 18 \<Longrightarrow> wf_decimal c"
  by (auto simp: mkDecimal_Inr_iff wf_decimal_def)

lemmas wf_op_simps = Let_def bindR_Inr_iff assertMode_cases MAX_SCALE_def

text \<open>The representation invariant (fewer than 39 significant digits, scale at most 18) holds of
  every decimal that parsing, construction or an operation on well-formed decimals returns.\<close>

theorem decimal_invariant:
  assumes "wf_decimal a" "wf_decimal b"
    and "dec_parse t = Inr c \<or> fromUnits u s = Inr c \<or> fromIntegerNumber v = Inr c \<or> fromIntegerBigint u = Inr c \<or>
      dec_add a b = Inr c \<or> dec_subtract a b = Inr c \<or> dec_multiply a b r = Inr c \<or> dec_divide a b (s, m) = Inr c \<or>
      dec_round a s m = Inr c \<or> dec_rescale a s = Inr c \<or> dec_negate a = Inr c \<or> dec_abs a = Inr c"
  shows "wf_decimal c"
proof -
  have ab: "dscale a \<le> 18" "dscale b \<le> 18" using assms by (simp_all add: wf_decimal_def)
  consider "dec_parse t = Inr c" | "fromUnits u s = Inr c" | "fromIntegerNumber v = Inr c" | "fromIntegerBigint u = Inr c"
    | "dec_add a b = Inr c" | "dec_subtract a b = Inr c" | "dec_multiply a b r = Inr c" | "dec_divide a b (s, m) = Inr c"
    | "dec_round a s m = Inr c" | "dec_rescale a s = Inr c" | "dec_negate a = Inr c" | "dec_abs a = Inr c"
    using assms(3) by blast
  then show ?thesis
  proof cases
    case 1 then show ?thesis
      by (auto simp: dec_parse_def wf_op_simps elim!: mkDecimal_wf split: option.splits prod.splits if_splits)
  next
    case 2 then show ?thesis by (auto simp: fromUnits_def wf_op_simps elim!: mkDecimal_wf)
  next
    case 3 then show ?thesis by (auto simp: fromIntegerNumber_def elim!: mkDecimal_wf split: js_number.splits if_splits)
  next
    case 4 then show ?thesis by (auto simp: fromIntegerBigint_def elim!: mkDecimal_wf)
  next
    case 5 then show ?thesis using ab by (auto simp: dec_add_def wf_op_simps elim!: mkDecimal_wf)
  next
    case 6 then show ?thesis using ab by (auto simp: dec_subtract_def wf_op_simps elim!: mkDecimal_wf)
  next
    case 7 then show ?thesis
      by (auto simp: dec_multiply_def wf_op_simps elim!: mkDecimal_wf split: option.splits prod.splits if_splits)
  next
    case 8 then show ?thesis by (auto simp: dec_divide_def wf_op_simps elim!: mkDecimal_wf split: if_splits)
  next
    case 9 then show ?thesis by (auto simp: dec_round_def wf_op_simps elim!: mkDecimal_wf split: if_splits)
  next
    case 10 then show ?thesis by (auto simp: dec_rescale_def wf_op_simps elim!: mkDecimal_wf split: if_splits)
  next
    case 11 then show ?thesis using ab by (auto simp: dec_negate_def elim!: mkDecimal_wf)
  next
    case 12 then show ?thesis using assms(1) ab by (auto simp: dec_abs_def dec_negate_def elim!: mkDecimal_wf split: if_splits)
  qed
qed

theorem decimal_invariant_witness: "wf_decimal \<lparr>units = 67, dscale = 2\<rparr>"
  using decimal_invariant [of "\<lparr>units = 2, dscale = 0\<rparr>" "\<lparr>units = 3, dscale = 0\<rparr>"] eval_divide_example
  by (simp add: wf_decimal_def)

section \<open>Parsing and printing\<close>

lemma nat_str_digits_val:
  "s \<noteq> [] \<Longrightarrow> list_all is_digit s \<Longrightarrow> hd s \<noteq> CHR ''0'' \<or> length s = 1 \<Longrightarrow> nat_str (digits_val s) = s"
proof (induction s rule: rev_induct)
  case (snoc c s)
  have c: "digit_val c < 10" "digit_char (digit_val c) = c"
    using snoc.prems(2) by (auto simp: is_digit_of_char digit_val_def digit_char_def)
  show ?case
  proof (cases "s = []")
    case True then show ?thesis using c by (subst nat_str.simps) (simp add: digits_val_def)
  next
    case False
    then have hd: "hd s \<noteq> CHR ''0''" using snoc.prems(3) by simp
    then have ih: "nat_str (digits_val s) = s" using snoc False by simp
    then have "digits_val s \<noteq> 0" using hd by (metis list.sel(1) nat_str_0)
    then have "nat_str (10 * digits_val s + digit_val c) = nat_str (digits_val s) @ [c]"
      using c by (subst nat_str.simps) simp
    then show ?thesis using ih by (simp add: digits_val_append)
  qed
qed simp

lemma digits_padded:
  "s \<noteq> [] \<Longrightarrow> list_all is_digit s \<Longrightarrow> \<exists>j. s = replicate j (CHR ''0'') @ nat_str (digits_val s)"
proof (induction s)
  case (Cons c cs)
  show ?case
  proof (cases "c = CHR ''0'' \<and> cs \<noteq> []")
    case True
    then obtain j where "cs = replicate j (CHR ''0'') @ nat_str (digits_val cs)" using Cons by auto
    moreover have "digits_val (c # cs) = digits_val cs" using True digits_val_zeros [of 1 cs] by simp
    ultimately show ?thesis using True by (metis append_Cons replicate_Suc)
  next
    case False
    then have "nat_str (digits_val (c # cs)) = c # cs" using Cons.prems by (intro nat_str_digits_val) auto
    then show ?thesis by (intro exI [of _ 0]) simp
  qed
qed simp

lemma strip_zeros_nat_str: "strip_zeros (replicate j (CHR ''0'') @ nat_str n) = nat_str n"
proof (induction j)
  case 0
  show ?case
  proof (cases "n = 0")
    case False
    then show ?thesis using nat_str_hd [OF False] by (cases "nat_str n" rule: strip_zeros.cases) auto
  qed simp
next
  case (Suc j)
  obtain d ds where d: "replicate j (CHR ''0'') @ nat_str n = d # ds"
    by (metis append_is_Nil_conv list.exhaust nat_str_nonempty)
  moreover have "is_digit d"
  proof -
    have "list_all is_digit (replicate j (CHR ''0'') @ nat_str n)"
      using is_digit_digit_char [of 0] by (auto simp: list_all_iff nat_str_digits)
    then show ?thesis using d by simp
  qed
  ultimately show ?case using Suc by simp
qed

lemma takeWhile_digits: "list_all is_digit w \<Longrightarrow> takeWhile is_digit (w @ CHR ''.'' # f) = w"
  "list_all is_digit w \<Longrightarrow> dropWhile is_digit (w @ CHR ''.'' # f) = CHR ''.'' # f"
  "list_all is_digit w \<Longrightarrow> takeWhile is_digit w = w"
  "list_all is_digit w \<Longrightarrow> dropWhile is_digit w = []"
proof -
  have p: "\<not> is_digit (CHR ''.'')" by (simp add: is_digit_of_char)
  assume "list_all is_digit w"
  then show "takeWhile is_digit (w @ CHR ''.'' # f) = w" "dropWhile is_digit (w @ CHR ''.'' # f) = CHR ''.'' # f"
    "takeWhile is_digit w = w" "dropWhile is_digit w = []"
    using p by (induction w) auto
qed

text \<open>The text of a sign, a whole part and a fraction, and that the pattern reads it back.\<close>

definition decimal_text :: "bool \<Rightarrow> string \<Rightarrow> string \<Rightarrow> string" where
  "decimal_text neg w f = (if neg then ''-'' else '''') @ w @ (if f = [] then '''' else CHR ''.'' # f)"

lemma decimal_match_text:
  assumes "w \<noteq> []" "list_all is_digit w" "list_all is_digit f" "hd w \<noteq> CHR ''0'' \<or> w = ''0''"
  shows "decimal_match (decimal_text neg w f) = Some (neg, w, if f = [] then None else Some f)"
proof -
  obtain c cs where w: "w = c # cs" using assms(1) by (cases w) auto
  then have c: "c \<noteq> CHR ''-''" using assms(2) by (auto simp: is_digit_of_char)
  let ?b = "w @ (if f = [] then '''' else CHR ''.'' # f)"
  have t: "decimal_text neg w f = (if neg then CHR ''-'' # ?b else ?b)" by (simp add: decimal_text_def)
  have neg: "(case decimal_text neg w f of c # _ \<Rightarrow> c = CHR ''-'' | [] \<Rightarrow> False) = neg"
    unfolding t by (cases neg) (simp_all add: c w)
  have body: "(if neg then tl (decimal_text neg w f) else decimal_text neg w f) = ?b"
    unfolding t by (cases neg) simp_all
  show ?thesis
    unfolding decimal_match_def Let_def neg body using assms takeWhile_digits(1,2) [OF assms(2), of f]
      takeWhile_digits(3,4) [OF assms(2)] by auto
qed

lemma decimal_match_SomeD:
  assumes "decimal_match t = Some (neg, w, fo)"
  shows "w \<noteq> [] \<and> list_all is_digit w \<and> list_all is_digit (case fo of None \<Rightarrow> [] | Some f \<Rightarrow> f) \<and>
    (hd w \<noteq> CHR ''0'' \<or> w = ''0'') \<and> t = decimal_text neg w (case fo of None \<Rightarrow> [] | Some f \<Rightarrow> f)"
proof -
  define b where "b = (if (case t of c # _ \<Rightarrow> c = CHR ''-'' | [] \<Rightarrow> False) then tl t else t)"
  have tb: "t = (if (case t of c # _ \<Rightarrow> c = CHR ''-'' | [] \<Rightarrow> False) then ''-'' else '''') @ b"
    by (cases t) (auto simp: b_def)
  have split: "takeWhile is_digit b @ dropWhile is_digit b = b" by simp
  from assms have neg: "neg = (case t of c # _ \<Rightarrow> c = CHR ''-'' | [] \<Rightarrow> False)" and w: "w = takeWhile is_digit b"
    and ok: "w \<noteq> []" "hd w \<noteq> CHR ''0'' \<or> w = ''0''"
    and f: "(dropWhile is_digit b = [] \<and> fo = None) \<or>
      (\<exists>f. dropWhile is_digit b = CHR ''.'' # f \<and> f \<noteq> [] \<and> list_all is_digit f \<and> fo = Some f)"
    by (cases "dropWhile is_digit b"; auto simp: decimal_match_def Let_def b_def [symmetric] split: if_splits)+
  have "list_all is_digit w" using w by (auto simp: list_all_iff dest: set_takeWhileD)
  moreover have "b = w @ (case fo of None \<Rightarrow> [] | Some f \<Rightarrow> CHR ''.'' # f)"
    using f split [symmetric] unfolding w by (elim disjE exE conjE) (simp_all only: option.case)
  ultimately show ?thesis using ok f tb neg by (auto simp: decimal_text_def)
qed

lemma dec_toString_text:
  fixes d defines "ds \<equiv> pad_zeros (dscale d + 1) (nat_str (nat \<bar>units d\<bar>))"
  shows "dec_toString d = decimal_text (units d < 0) (take (length ds - dscale d) ds) (drop (length ds - dscale d) ds)"
proof -
  have "dscale d < length ds" by (simp add: ds_def pad_zeros_def)
  then show ?thesis unfolding dec_toString_def Let_def decimal_text_def ds_def [symmetric] by auto
qed

lemma parse_toString:
  assumes "wf_decimal d" shows "dec_parse (dec_toString d) = Inr d"
proof -
  define n where "n = nat \<bar>units d\<bar>"
  define k where "k = dscale d"
  define j where "j = k + 1 - length (nat_str n)"
  define ds where "ds = pad_zeros (k + 1) (nat_str n)"
  define w where "w = take (length ds - k) ds"
  define f where "f = drop (length ds - k) ds"
  have ds: "ds = replicate j (CHR ''0'') @ nat_str n" by (simp add: ds_def j_def pad_zeros_def)
  have len: "k < length ds" by (simp add: ds_def pad_zeros_def)
  have fl: "length f = k" using len by (simp add: f_def)
  have w0: "w \<noteq> []" using len by (auto simp: w_def)
  have dig: "list_all is_digit ds"
    using is_digit_digit_char [of 0] by (auto simp: ds list_all_iff nat_str_digits)
  then have wf: "list_all is_digit w" "list_all is_digit f" "w @ f = ds"
    by (auto simp: w_def f_def list_all_iff dest: in_set_takeD in_set_dropD)
  have lead: "hd w \<noteq> CHR ''0'' \<or> w = ''0''"
  proof (cases "length (nat_str n) \<le> k + 1")
    case True
    then have "length w = 1" by (simp add: w_def ds_def pad_zeros_def)
    then show ?thesis by (cases w) auto
  next
    case False
    then have "n \<noteq> 0" by (intro notI) simp
    moreover have "hd w = hd (nat_str n)" using False len by (simp add: w_def ds j_def hd_take)
    ultimately show ?thesis using nat_str_hd by simp
  qed
  have printed: "dec_toString d = decimal_text (units d < 0) w f"
    unfolding w_def f_def ds_def n_def k_def by (rule dec_toString_text)
  have frac: "(case (if f = [] then None else Some f) of None \<Rightarrow> '''' | Some f \<Rightarrow> f) = f" by simp
  have stripped: "strip_zeros (w @ f) = nat_str n" by (simp add: wf(3) ds strip_zeros_nat_str)
  have "length (nat_str n) \<le> 38"
    using assms length_nat_str_le_iff [of 38 n] by (simp add: n_def wf_decimal_def nat_less_iff)
  moreover have "(if units d < 0 then - int n else int n) = units d" by (simp add: n_def)
  ultimately show ?thesis
    using assms fl
    by (simp add: dec_parse_def printed decimal_match_text [OF w0 wf(1,2) lead] frac stripped Let_def
        MAX_SCALE_def MAX_PRECISION_def mkDecimal_eq wf_decimal_def k_def)
qed

lemma toString_parse:
  assumes "dec_parse t = Inr d"
  shows "dec_toString d = t \<or> (units d = 0 \<and> t = CHR ''-'' # dec_toString d)"
proof -
  from assms obtain neg w fo where m: "decimal_match t = Some (neg, w, fo)"
    by (auto simp: dec_parse_def split: option.splits)
  define f where "f = (case fo of None \<Rightarrow> '''' | Some f \<Rightarrow> f)"
  define v where "v = digits_val (w @ f)"
  from decimal_match_SomeD [OF m] have w: "w \<noteq> []" "list_all is_digit w" "list_all is_digit f"
    "hd w \<noteq> CHR ''0'' \<or> w = ''0''" and t: "t = decimal_text neg w f"
    by (simp_all add: f_def)
  obtain j where j: "w @ f = replicate j (CHR ''0'') @ nat_str v"
    using digits_padded [of "w @ f"] w by (auto simp: v_def)
  have stripped: "strip_zeros (w @ f) = nat_str v" by (simp only: j strip_zeros_nat_str)
  have "d = \<lparr>units = (if neg then - int v else int v), dscale = length f\<rparr>"
    using assms by (auto simp: dec_parse_def m stripped Let_def mkDecimal_eq simp flip: f_def split: if_splits)
  then have d: "units d = (if neg then - int v else int v)" "dscale d = length f" "nat \<bar>units d\<bar> = v" by auto
  have padded: "pad_zeros (length f + 1) (nat_str v) = w @ f"
  proof (cases "hd w = CHR ''0''")
    case True
    then have "w = ''0''" using w by simp
    then have "j = length f + 1 - length (nat_str v)" using arg_cong [OF j, of length] by simp
    then show ?thesis by (simp only: j pad_zeros_def)
  next
    case False
    then have "nat_str v = w @ f" unfolding v_def using w by (intro nat_str_digits_val) auto
    then show ?thesis using w(1) by (cases w) (auto simp: pad_zeros_def)
  qed
  have "dec_toString d = decimal_text (units d < 0) w f"
    unfolding dec_toString_text [of d] d(2,3) padded by simp
  then show ?thesis using d(1) by (cases "v = 0") (auto simp: t decimal_text_def)
qed

text \<open>C37: printing and parsing are inverse. Every well-formed decimal is parsed back, scale included,
  from its canonical text; and every text that parses is the canonical text of its decimal, except
  that a signed zero loses its sign.\<close>

theorem decimal_text_round_trip:
  "(wf_decimal d \<longrightarrow> dec_parse (dec_toString d) = Inr d) \<and>
   (dec_parse t = Inr e \<longrightarrow> dec_toString e = t \<or> (units e = 0 \<and> t = CHR ''-'' # dec_toString e))"
  using parse_toString toString_parse by blast

theorem decimal_text_round_trip_witness:
  "dec_parse (dec_toString \<lparr>units = -1250, dscale = 2\<rparr>) = Inr \<lparr>units = -1250, dscale = 2\<rparr> \<and>
   dec_toString \<lparr>units = 5, dscale = 3\<rparr> = ''0.005''"
proof -
  have p: "dec_parse ''0.005'' = Inr \<lparr>units = 5, dscale = 3\<rparr>"
    by (simp add: dec_parse_def decimal_match_def is_digit_of_char digits_val_def digit_val_def
        MAX_SCALE_def MAX_PRECISION_def mkDecimal_eq)
  show ?thesis
    using decimal_text_round_trip [of "\<lparr>units = -1250, dscale = 2\<rparr>" "''0.005''" "\<lparr>units = 5, dscale = 3\<rparr>"] p
    by (simp add: wf_decimal_def)
qed

end
