(* ===== verification/Money.thy ===== *)
theory Money
  imports Decimal "HOL-Library.Multiset"
begin

text \<open>
  \<open>platform/money/src/currency.ts\<close> and \<open>money.ts\<close>: currencies with their minor-unit exponent,
  settled amounts that always sit exactly at that exponent, sums of one currency, and the
  largest-remainder allocation of a total over weighted shares. The lemmas show that every
  \<open>Money\<close> built from well-formed parts is at its currency's scale, and that an allocation sums
  exactly to its total, respects every share's quota and does not depend on the order of the shares.
\<close>

section \<open>Model\<close>

record currency_unit =
  ccode :: string
  minorUnits :: nat

definition CURRENCIES :: "(string \<times> nat) list" where
  "CURRENCIES =
     [(''USD'', 2), (''EUR'', 2), (''GBP'', 2), (''CAD'', 2), (''AUD'', 2), (''INR'', 2), (''JPY'', 0),
      (''KRW'', 0), (''KWD'', 3), (''BHD'', 3), (''OMR'', 3), (''JOD'', 3), (''TND'', 3)]"

definition currency :: "string \<Rightarrow> currency_unit res" where
  "currency code = (case map_of CURRENCIES code of
       None \<Rightarrow> reject unsupported_currency
     | Some n \<Rightarrow> Inr \<lparr>ccode = code, minorUnits = n\<rparr>)"

definition supportedCurrencies :: "string list" where
  "supportedCurrencies = map fst CURRENCIES"

definition DEFAULT_ROUNDING :: rounding_mode where "DEFAULT_ROUNDING = HALF_UP"

record money =
  amount :: decimal
  mcurrency :: currency_unit

definition money_ofDecimal :: "decimal \<Rightarrow> string \<Rightarrow> money res" where
  "money_ofDecimal value currencyCode =
     bindR (currency currencyCode) (\<lambda>unit.
       if dscale value > minorUnits unit then reject invalid_decimal
       else bindR (dec_rescale value (int (minorUnits unit))) (\<lambda>v. Inr \<lparr>amount = v, mcurrency = unit\<rparr>))"

definition money_of :: "string \<Rightarrow> string \<Rightarrow> money res" where
  "money_of text currencyCode =
     bindR (currency currencyCode) (\<lambda>_. bindR (dec_parse text) (\<lambda>value. money_ofDecimal value currencyCode))"

definition fromDecimal :: "decimal \<Rightarrow> string \<Rightarrow> rounding_mode \<Rightarrow> money res" where
  "fromDecimal value currencyCode mode =
     bindR (currency currencyCode) (\<lambda>unit.
       bindR (dec_round value (int (minorUnits unit)) mode) (\<lambda>v. Inr \<lparr>amount = v, mcurrency = unit\<rparr>))"

definition fromMinorUnits :: "int \<Rightarrow> string \<Rightarrow> money res" where
  "fromMinorUnits u currencyCode =
     bindR (currency currencyCode) (\<lambda>unit.
       bindR (fromUnits u (int (minorUnits unit))) (\<lambda>v. Inr \<lparr>amount = v, mcurrency = unit\<rparr>))"

definition money_zero :: "string \<Rightarrow> money res" where
  "money_zero currencyCode = fromMinorUnits 0 currencyCode"

definition money_minorUnits :: "money \<Rightarrow> int" where
  "money_minorUnits m = units (amount m)"

definition money_same :: "money \<Rightarrow> money \<Rightarrow> unit res" where
  "money_same m other = (if ccode (mcurrency other) \<noteq> ccode (mcurrency m) then reject currency_mismatch else Inr ())"

definition money_add :: "money \<Rightarrow> money \<Rightarrow> money res" where
  "money_add m other = bindR (money_same m other) (\<lambda>_.
     bindR (dec_add (amount m) (amount other)) (\<lambda>v. Inr \<lparr>amount = v, mcurrency = mcurrency m\<rparr>))"

definition money_subtract :: "money \<Rightarrow> money \<Rightarrow> money res" where
  "money_subtract m other = bindR (money_same m other) (\<lambda>_.
     bindR (dec_subtract (amount m) (amount other)) (\<lambda>v. Inr \<lparr>amount = v, mcurrency = mcurrency m\<rparr>))"

definition money_multiply :: "money \<Rightarrow> decimal \<Rightarrow> rounding_mode \<Rightarrow> money res" where
  "money_multiply m factor mode =
     bindR (dec_multiply (amount m) factor (Some (int (minorUnits (mcurrency m)), mode))) (\<lambda>v.
       Inr \<lparr>amount = v, mcurrency = mcurrency m\<rparr>)"

definition money_negate :: "money \<Rightarrow> money res" where
  "money_negate m = bindR (dec_negate (amount m)) (\<lambda>v. Inr \<lparr>amount = v, mcurrency = mcurrency m\<rparr>)"

definition money_isZero :: "money \<Rightarrow> bool" where
  "money_isZero m \<longleftrightarrow> dec_isZero (amount m)"

definition money_isNegative :: "money \<Rightarrow> bool" where
  "money_isNegative m \<longleftrightarrow> dec_isNegative (amount m)"

definition money_compare :: "money \<Rightarrow> money \<Rightarrow> int res" where
  "money_compare m other = bindR (money_same m other) (\<lambda>_. Inr (dec_compare (amount m) (amount other)))"

definition money_equals :: "money \<Rightarrow> money \<Rightarrow> bool" where
  "money_equals m other \<longleftrightarrow> ccode (mcurrency other) = ccode (mcurrency m) \<and> dec_equals (amount m) (amount other)"

definition money_toString :: "money \<Rightarrow> string" where
  "money_toString m = dec_toString (amount m) @ '' '' @ ccode (mcurrency m)"

definition money_toJSON :: "money \<Rightarrow> string \<times> string" where
  "money_toJSON m = (dec_toString (amount m), ccode (mcurrency m))"

definition sumMoney :: "money list \<Rightarrow> string \<Rightarrow> money res" where
  "sumMoney amounts currencyCode =
     foldl (\<lambda>total x. bindR total (\<lambda>t. money_add t x)) (money_zero currencyCode) amounts"

record allocation_share =
  skey :: string
  weight :: decimal

text \<open>The loop that hands the leftover units out, one each, along \<open>order\<close>.\<close>

fun distribute :: "int list \<Rightarrow> nat list \<Rightarrow> int \<Rightarrow> int list" where
  "distribute base [] leftover = base"
| "distribute base (i # order) leftover =
     (if leftover = 0 then base else distribute (base[i := base ! i + 1]) order (leftover - 1))"

definition alloc_order :: "allocation_share list \<Rightarrow> int list \<Rightarrow> nat list" where
  "alloc_order shares remainders =
     map (\<lambda>(k, i, r). i)
       (sort_key (\<lambda>(k, i, r). (- r, k)) (map (\<lambda>i. (skey (shares ! i), i, remainders ! i)) [0..<length shares]))"

definition alloc_units :: "int \<Rightarrow> allocation_share list \<Rightarrow> int list \<Rightarrow> int list" where
  "alloc_units u shares weights =
     (let weightSum = sum_list weights;
          base = map (\<lambda>w. (u * w) sdiv weightSum) weights;
          remainders = map (\<lambda>w. (u * w) smod weightSum) weights;
          leftover = u - sum_list base
      in distribute base (alloc_order shares remainders) leftover)"

definition allocate :: "money \<Rightarrow> allocation_share list \<Rightarrow> (string \<times> money) list res" where
  "allocate tot shares =
     (if shares = [] then reject calculation_rejected
      else if length (uniq (map skey shares)) \<noteq> length shares then reject calculation_rejected
      else if (\<exists>s\<in>set shares. dec_isNegative (weight s)) then reject calculation_rejected
      else (let scale = Max (set (map (\<lambda>s. dscale (weight s)) shares)) in
        bindR (mapR (\<lambda>s. bindR (dec_rescale (weight s) (int scale)) (\<lambda>d. Inr (units d))) shares) (\<lambda>weights.
          if sum_list weights = 0 then reject calculation_rejected
          else (let sign = (if money_minorUnits tot < 0 then -1 else 1);
                    us = alloc_units (money_minorUnits tot * sign) shares weights
                in mapR (\<lambda>i. bindR (fromMinorUnits (us ! i * sign) (ccode (mcurrency tot)))
                               (\<lambda>m. Inr (skey (shares ! i), m)))
                     [0..<length shares]))))"

section \<open>Specification\<close>

definition wf_money :: "money \<Rightarrow> bool" where
  "wf_money m \<longleftrightarrow> wf_decimal (amount m) \<and> currency (ccode (mcurrency m)) = Inr (mcurrency m) \<and>
     dscale (amount m) = minorUnits (mcurrency m)"

text \<open>The reference definition of the largest-remainder part of one share: the floor of its exact
  proportion, and one more unit when fewer shares than there are leftover units precede it in the
  order of descending remainder and ascending key.\<close>

definition largest_remainder :: "int \<Rightarrow> (allocation_share \<Rightarrow> int) \<Rightarrow> allocation_share set \<Rightarrow> allocation_share \<Rightarrow> int" where
  "largest_remainder u w S s =
     (let W = sum w S;
          rank = (\<lambda>t. (- ((u * w t) mod W), skey t));
          leftover = u - (\<Sum>t\<in>S. (u * w t) div W)
      in (u * w s) div W + (if int (card {t \<in> S. rank t < rank s}) < leftover then 1 else 0))"

section \<open>Distribution of the leftover units\<close>

lemma length_distribute [simp]: "length (distribute base order l) = length base"
  by (induction base order l rule: distribute.induct) simp_all

lemma distribute_nth:
  assumes "distinct order" "set order \<subseteq> {..<length base}" "0 \<le> l" "l \<le> int (length order)" "i < length base"
  shows "distribute base order l ! i = base ! i + (if i \<in> set (take (nat l) order) then 1 else 0)"
  using assms
proof (induction base order l rule: distribute.induct)
  case (2 base j order l)
  show ?case
  proof (cases "l = 0")
    case False
    then have "nat l = Suc (nat (l - 1))" using 2 by simp
    with False 2 show ?thesis by (auto simp: nth_list_update dest: in_set_takeD)
  qed simp
qed simp

lemma sum_distribute:
  assumes "set order \<subseteq> {..<length base}" "0 \<le> l" "l \<le> int (length order)"
  shows "sum_list (distribute base order l) = sum_list base + l"
  using assms
proof (induction base order l rule: distribute.induct)
  case (2 base j order l)
  then show ?case by (cases "l = 0") (auto simp: sum_list_increment)
qed simp

text \<open>The arithmetic of one allocation: non-negative weights with a positive sum.\<close>

lemma leftover_bounds:
  fixes u :: int and w :: "'a \<Rightarrow> int"
  assumes "0 \<le> u" "finite S" "\<And>s. s \<in> S \<Longrightarrow> 0 \<le> w s" "0 < sum w S"
  defines "L \<equiv> u - (\<Sum>s\<in>S. (u * w s) div sum w S)"
  shows "0 \<le> L" and "L \<le> int (card {s \<in> S. (u * w s) mod sum w S \<noteq> 0})"
proof -
  let ?W = "sum w S" and ?P = "{s \<in> S. (u * w s) mod sum w S \<noteq> 0}"
  have "u * ?W = (\<Sum>s\<in>S. u * w s)" by (simp add: sum_distrib_left)
  also have "\<dots> = (\<Sum>s\<in>S. (u * w s) div ?W * ?W + (u * w s) mod ?W)" by (simp only: div_mult_mod_eq)
  also have "\<dots> = (\<Sum>s\<in>S. (u * w s) div ?W) * ?W + (\<Sum>s\<in>S. (u * w s) mod ?W)"
    by (simp only: sum.distrib sum_distrib_right)
  finally have eq: "L * ?W = (\<Sum>s\<in>S. (u * w s) mod ?W)" by (simp add: L_def left_diff_distrib)
  have "0 \<le> (\<Sum>s\<in>S. (u * w s) mod ?W)" using assms(4) by (intro sum_nonneg) simp
  then show "0 \<le> L" using eq assms(4) by (metis mult_neg_pos not_less)
  have "(\<Sum>s\<in>S. (u * w s) mod ?W) = (\<Sum>s\<in>?P. (u * w s) mod ?W)"
    using assms(2) by (intro sum.mono_neutral_right) auto
  also have "\<dots> \<le> (\<Sum>s\<in>?P. ?W)" using assms(4) by (intro sum_mono) (simp add: less_imp_le)
  finally have "L * ?W \<le> int (card ?P) * ?W" using eq by simp
  then show "L \<le> int (card ?P)" using assms(4) by simp
qed

lemma alloc_order_eq:
  "alloc_order shares rems = sort_key (\<lambda>i. (- rems ! i, skey (shares ! i))) [0..<length shares]"
  by (simp add: alloc_order_def sort_key_map o_def case_prod_unfold)

lemma alloc_units_reference:
  assumes u: "0 \<le> u" and ne: "shares \<noteq> []" and keys: "distinct (map skey shares)"
    and w: "\<And>s. s \<in> set shares \<Longrightarrow> 0 \<le> w s" and pos: "0 < sum_list (map w shares)"
  shows "alloc_units u shares (map w shares) = map (largest_remainder u w (set shares)) shares"
    and "sum_list (alloc_units u shares (map w shares)) = u"
proof -
  let ?n = "length shares" and ?S = "set shares"
  define W where "W = sum w ?S"
  have dist: "distinct shares" using keys by (simp add: distinct_map)
  have sums: "sum_list (map f shares) = sum f ?S" for f :: "allocation_share \<Rightarrow> int"
    using dist by (simp add: sum_list_distinct_conv_sum_set)
  have W0: "0 < W" using pos sums by (simp add: W_def)
  define rem where "rem s = (u * w s) mod W" for s
  define base where "base = map (\<lambda>s. (u * w s) div W) shares"
  define L where "L = u - sum_list base"
  have L_sum: "L = u - (\<Sum>s\<in>?S. (u * w s) div sum w ?S)" by (simp add: L_def base_def sums W_def)
  define ord where "ord = alloc_order shares (map rem shares)"
  have uw: "0 \<le> u * w s" if "s \<in> ?S" for s using u w that by simp
  have alloc: "alloc_units u shares (map w shares) = distribute base ord L"
    using uw W0 by (simp add: alloc_units_def Let_def sums nonneg_signed_ops W_def base_def rem_def [abs_def] ord_def L_def
        o_def cong: map_cong)
  have L0: "0 \<le> L" and LP: "L \<le> int (card {s \<in> ?S. rem s \<noteq> 0})"
    using leftover_bounds [OF u, of ?S w] w W0 unfolding L_sum rem_def W_def by simp_all
  have "card {s \<in> ?S. rem s \<noteq> 0} \<le> ?n" by (metis (no_types, lifting) card_length card_mono le_trans List.finite_set mem_Collect_eq subsetI)
  then have Ln: "L \<le> int ?n" using LP by linarith
  have ord: "ord = sort_key (\<lambda>i. (- (map rem shares ! i), skey (shares ! i))) [0..<?n]"
    by (simp add: ord_def alloc_order_eq)
  have os: "set ord = {0..<?n}" "distinct ord" "length ord = ?n" by (simp_all add: ord)
  have sub: "set ord \<subseteq> {..<length base}" using os by (auto simp: base_def)
  show "sum_list (alloc_units u shares (map w shares)) = u"
    unfolding alloc using sum_distribute [OF sub L0] Ln os by (simp add: L_def)
  let ?r = "\<lambda>i. (- rem (shares ! i), skey (shares ! i))"
  have inj: "inj_on ?r (set [0..<?n])"
    using nth_eq_iff_index_eq [OF keys] by (auto simp: inj_on_def)
  have bump: "i \<in> set (take (nat L) ord) \<longleftrightarrow> int (card {t \<in> ?S. (- rem t, skey t) < ?r i}) < L" if i: "i < ?n" for i
  proof -
    have o2: "ord = sort_key ?r [0..<?n]" unfolding ord by (rule sort_key_cong_list) simp
    have "bij_betw ((!) shares) {0..<?n} ?S" using dist by (intro bij_betw_nth) auto
    then have "card {t \<in> ?S. (- rem t, skey t) < ?r i} = card {j \<in> {0..<?n}. ?r j < ?r i}"
      by (rule card_filter_bij [symmetric])
    moreover have "i \<in> set (take (nat L) ord) \<longleftrightarrow> card {j \<in> set [0..<?n]. ?r j < ?r i} < nat L"
      unfolding o2 using i by (intro sort_key_take_iff [OF inj]) simp_all
    ultimately show ?thesis using L0 by auto
  qed
  show "alloc_units u shares (map w shares) = map (largest_remainder u w ?S) shares"
  proof (rule nth_equalityI)
    fix i assume "i < length (alloc_units u shares (map w shares))"
    then have i: "i < ?n" by (simp add: alloc base_def)
    have "alloc_units u shares (map w shares) ! i = base ! i + (if i \<in> set (take (nat L) ord) then 1 else 0)"
      unfolding alloc using os Ln L0 i sub by (intro distribute_nth) (simp_all add: base_def)
    then show "alloc_units u shares (map w shares) ! i = map (largest_remainder u w ?S) shares ! i"
      using i bump [OF i] by (simp add: largest_remainder_def Let_def base_def L_sum rem_def W_def)
  qed (simp add: alloc base_def)
qed

lemma abs_sgn_mult_le: "0 \<le> l \<Longrightarrow> \<bar>sgn (U::int) * l\<bar> \<le> l"
  by (simp add: abs_mult sgn_if)

lemma sgn_mult_nonneg: "0 \<le> l \<Longrightarrow> 0 \<le> sgn (U::int) * l * U"
  by (simp add: sgn_if mult_nonpos_nonpos zero_le_mult_iff)

lemma proper_fraction:
  fixes r k :: int
  assumes "0 \<le> r" "r < k"
  shows "0 \<le> (of_int r / of_int k :: rat)" "(of_int r / of_int k :: rat) < 1" "r \<noteq> 0 \<Longrightarrow> 0 < (of_int r / of_int k :: rat)"
  using assms by (simp_all add: order.strict_iff_order)

lemma largest_remainder_bounds:
  fixes u :: int
  assumes u: "0 \<le> u" and S: "finite S" "s \<in> S" and w: "\<And>t. t \<in> S \<Longrightarrow> 0 \<le> w t" and W: "0 < sum w S"
  shows "\<bar>of_int (largest_remainder u w S s) - (of_int (u * w s) / of_int (sum w S) :: rat)\<bar> < 1"
    and "0 \<le> largest_remainder u w S s"
    and "w s = 0 \<Longrightarrow> largest_remainder u w S s = 0"
proof -
  let ?W = "sum w S" and ?q = "(u * w s) div sum w S" and ?r = "\<lambda>t. (u * w t) mod sum w S"
  let ?b = "int (card {t \<in> S. (- ?r t, skey t) < (- ?r s, skey s)}) < u - (\<Sum>t\<in>S. (u * w t) div ?W)"
  have eq: "largest_remainder u w S s = ?q + (if ?b then 1 else 0)"
    by (simp add: largest_remainder_def Let_def)
  have bump: "?r s \<noteq> 0" if ?b
  proof
    assume "?r s = 0"
    then have "{t \<in> S. ?r t \<noteq> 0} \<subseteq> {t \<in> S. (- ?r t, skey t) < (- ?r s, skey s)}"
      using W by (auto simp: less_prod_def order.strict_iff_order)
    then have "card {t \<in> S. ?r t \<noteq> 0} \<le> card {t \<in> S. (- ?r t, skey t) < (- ?r s, skey s)}"
      using S(1) by (intro card_mono) simp_all
    then show False using that leftover_bounds(2) [OF u S(1) w W] by linarith
  qed
  have q0: "0 \<le> ?q" using u w S W by (simp add: pos_imp_zdiv_nonneg_iff)
  then show "0 \<le> largest_remainder u w S s" using eq by simp
  show "largest_remainder u w S s = 0" if "w s = 0"
    using that bump eq by auto
  define \<delta> :: rat where "\<delta> = of_int (?r s) / of_int ?W"
  have ex: "(of_int (u * w s) / of_int ?W :: rat) = of_int ?q + \<delta>"
    using quotient_remainder [of ?W "u * w s"] W by (simp add: \<delta>_def)
  have d: "0 \<le> \<delta>" "\<delta> < 1" "?b \<Longrightarrow> 0 < \<delta>"
    unfolding \<delta>_def using proper_fraction [of "?r s" ?W] W bump by simp_all
  show "\<bar>of_int (largest_remainder u w S s) - (of_int (u * w s) / of_int ?W :: rat)\<bar> < 1"
    unfolding eq ex using d by (cases ?b) auto
qed

section \<open>Amounts at their currency's minor unit\<close>

lemma currency_minorUnits: "currency c = Inr unit \<Longrightarrow> minorUnits unit \<le> 3 \<and> ccode unit = c"
  by (auto simp: currency_def CURRENCIES_def split: option.splits if_splits)

lemma fromMinorUnits_eq:
  assumes "wf_money m"
  shows "fromMinorUnits u (ccode (mcurrency m)) =
    (if \<bar>u\<bar> < 10 ^ 38
     then Inr \<lparr>amount = \<lparr>units = u, dscale = minorUnits (mcurrency m)\<rparr>, mcurrency = mcurrency m\<rparr>
     else reject calculation_rejected)"
  using assms currency_minorUnits [of "ccode (mcurrency m)" "mcurrency m"]
  by (simp add: fromMinorUnits_def fromUnits_def wf_money_def assertScale_cases mkDecimal_eq)

definition alloc_weight :: "allocation_share list \<Rightarrow> allocation_share \<Rightarrow> int" where
  "alloc_weight shares s = unitsAt (weight s) (Max (set (map (\<lambda>s. dscale (weight s)) shares)))"

definition alloc_rejected :: "allocation_share list \<Rightarrow> bool" where
  "alloc_rejected shares \<longleftrightarrow> shares = [] \<or> \<not> distinct (map skey shares) \<or> (\<exists>s\<in>set shares. dval (weight s) < 0) \<or>
     (\<exists>s\<in>set shares. 10 ^ 38 \<le> \<bar>alloc_weight shares s\<bar>) \<or> (\<forall>s\<in>set shares. dval (weight s) = 0)"

definition alloc_part :: "money \<Rightarrow> allocation_share list \<Rightarrow> allocation_share \<Rightarrow> string \<times> money" where
  "alloc_part tot shares s =
     (skey s, \<lparr>amount = \<lparr>units = sgn (money_minorUnits tot) *
                   largest_remainder \<bar>money_minorUnits tot\<bar> (alloc_weight shares) (set shares) s,
                 dscale = minorUnits (mcurrency tot)\<rparr>,
               mcurrency = mcurrency tot\<rparr>)"

lemma alloc_weight_dval:
  assumes "s \<in> set shares"
  shows "of_int (alloc_weight shares s) = dval (weight s) * 10 ^ Max (set (map (\<lambda>s. dscale (weight s)) shares))"
  unfolding alloc_weight_def using assms by (intro unitsAt_dval) simp

lemma alloc_weight_sign:
  assumes "s \<in> set shares"
  shows "0 \<le> alloc_weight shares s \<longleftrightarrow> 0 \<le> dval (weight s)"
    and "alloc_weight shares s = 0 \<longleftrightarrow> dval (weight s) = 0"
proof -
  obtain p :: rat where p: "0 < p" and eq: "of_int (alloc_weight shares s) = dval (weight s) * p"
    using alloc_weight_dval [OF assms] by (metis zero_less_numeral zero_less_power)
  have "0 \<le> alloc_weight shares s \<longleftrightarrow> 0 \<le> (of_int (alloc_weight shares s) :: rat)" by simp
  then show "0 \<le> alloc_weight shares s \<longleftrightarrow> 0 \<le> dval (weight s)"
    unfolding eq using p by (simp add: zero_le_mult_iff)
  have "alloc_weight shares s = 0 \<longleftrightarrow> (of_int (alloc_weight shares s) :: rat) = 0" by simp
  then show "alloc_weight shares s = 0 \<longleftrightarrow> dval (weight s) = 0" unfolding eq using p by simp
qed

lemma alloc_accepted:
  assumes "\<not> alloc_rejected shares"
  shows "shares \<noteq> []" "distinct (map skey shares)" "distinct shares"
    and "\<And>s. s \<in> set shares \<Longrightarrow> 0 \<le> alloc_weight shares s"
    and "0 < sum (alloc_weight shares) (set shares)"
proof -
  show d: "shares \<noteq> []" "distinct (map skey shares)" "distinct shares"
    using assms by (simp_all add: alloc_rejected_def distinct_map)
  show nn: "0 \<le> alloc_weight shares s" if "s \<in> set shares" for s
    using assms that by (auto simp: alloc_rejected_def alloc_weight_sign not_less)
  obtain s where "s \<in> set shares" "alloc_weight shares s \<noteq> 0"
    using assms by (auto simp: alloc_rejected_def alloc_weight_sign)
  then show "0 < sum (alloc_weight shares) (set shares)"
    using nn by (metis List.finite_set antisym_conv2 sum_nonneg sum_nonneg_eq_0_iff)
qed

lemma alloc_parts:
  assumes "\<not> alloc_rejected shares" "0 \<le> u"
  shows "alloc_units u shares (map (alloc_weight shares) shares) =
      map (largest_remainder u (alloc_weight shares) (set shares)) shares"
    and "(\<Sum>s\<in>set shares. largest_remainder u (alloc_weight shares) (set shares) s) = u"
    and "s \<in> set shares \<Longrightarrow> largest_remainder u (alloc_weight shares) (set shares) s \<le> u"
proof -
  note acc = alloc_accepted [OF assms(1)]
  have W: "0 < sum_list (map (alloc_weight shares) shares)"
    using acc(3,5) by (simp add: sum_list_distinct_conv_sum_set)
  note ref = alloc_units_reference [where w = "alloc_weight shares", OF assms(2) acc(1,2) acc(4) W]
  show eq: "alloc_units u shares (map (alloc_weight shares) shares) =
      map (largest_remainder u (alloc_weight shares) (set shares)) shares" by (rule ref(1))
  show sum: "(\<Sum>s\<in>set shares. largest_remainder u (alloc_weight shares) (set shares) s) = u"
    using ref(2) acc(3) unfolding eq by (simp add: sum_list_distinct_conv_sum_set)
  show "largest_remainder u (alloc_weight shares) (set shares) s \<le> u" if "s \<in> set shares"
  proof -
    have "0 \<le> largest_remainder u (alloc_weight shares) (set shares) t" if "t \<in> set shares" for t
      using acc that by (intro largest_remainder_bounds(2) [OF assms(2)]) simp_all
    then have "largest_remainder u (alloc_weight shares) (set shares) s
        \<le> (\<Sum>s\<in>set shares. largest_remainder u (alloc_weight shares) (set shares) s)"
      using that by (intro member_le_sum) simp_all
    then show ?thesis by (simp only: sum)
  qed
qed

lemma mapR_weights:
  assumes "\<And>s. s \<in> set shares \<Longrightarrow> wf_decimal (weight s)" "shares \<noteq> []"
  shows "mapR (\<lambda>s. bindR (dec_rescale (weight s) (int (Max (set (map (\<lambda>s. dscale (weight s)) shares))))) (\<lambda>d. Inr (units d))) shares =
    (if \<exists>s\<in>set shares. 10 ^ 38 \<le> \<bar>alloc_weight shares s\<bar> then reject calculation_rejected
     else Inr (map (alloc_weight shares) shares))"
proof -
  let ?k = "Max (set (map (\<lambda>s. dscale (weight s)) shares))"
  have le: "?k \<le> 18" using assms by (simp add: wf_decimal_def)
  have each: "bindR (dec_rescale (weight s) (int ?k)) (\<lambda>d. Inr (units d)) =
      (if 10 ^ 38 \<le> \<bar>alloc_weight shares s\<bar> then reject calculation_rejected else Inr (alloc_weight shares s))"
    if "s \<in> set shares" for s
  proof -
    have "dscale (weight s) \<le> ?k" using that by simp
    then show ?thesis using le unfolding alloc_weight_def
      by (simp only: dec_rescale_def assertScale_cases nat_int) (simp add: mkDecimal_eq)
  qed
  then show ?thesis by (rule mapR_guarded)
qed

lemma alloc_part_built:
  assumes tot: "wf_money tot" and na: "\<not> alloc_rejected shares" and i: "i < length shares"
    and sign: "sign = (if money_minorUnits tot < 0 then -1 else 1 :: int)" and u: "u = money_minorUnits tot * sign"
  shows "bindR (fromMinorUnits (alloc_units u shares (map (alloc_weight shares) shares) ! i * sign) (ccode (mcurrency tot)))
    (\<lambda>m. Inr (skey (shares ! i), m)) = Inr (alloc_part tot shares (shares ! i))"
proof -
  let ?l = "largest_remainder u (alloc_weight shares) (set shares) (shares ! i)"
  have ua: "u = \<bar>money_minorUnits tot\<bar>" "0 \<le> u" by (auto simp: u sign)
  note parts = alloc_parts [OF na ua(2)]
  have small: "\<bar>money_minorUnits tot\<bar> < 10 ^ 38" using tot by (simp add: wf_money_def wf_decimal_def money_minorUnits_def)
  have s: "shares ! i \<in> set shares" using i by simp
  have "0 \<le> ?l" using alloc_accepted [OF na] s by (intro largest_remainder_bounds(2) [OF ua(2)]) simp_all
  moreover have "?l \<le> u" using parts(3) s by simp
  ultimately have "\<bar>?l\<bar> < 10 ^ 38" using small unfolding ua(1) by linarith
  moreover have "\<bar>?l * sign\<bar> = \<bar>?l\<bar>" by (simp add: abs_mult sign)
  moreover have "?l * sign = sgn (money_minorUnits tot) * ?l"
    using \<open>0 \<le> ?l\<close> \<open>?l \<le> u\<close> ua(1) by (auto simp: sign sgn_if)
  moreover have "alloc_units u shares (map (alloc_weight shares) shares) ! i = ?l"
    unfolding parts(1) using i by simp
  ultimately show ?thesis
    by (simp only: fromMinorUnits_eq [OF tot] alloc_part_def ua(1) [symmetric]) simp
qed

lemma alloc_weights_zero:
  assumes "\<And>s. s \<in> set shares \<Longrightarrow> 0 \<le> dval (weight s)"
  shows "sum_list (map (alloc_weight shares) shares) = 0 \<longleftrightarrow> (\<forall>s\<in>set shares. dval (weight s) = 0)"
  using assms by (subst sum_list_nonneg_eq_0_iff) (auto simp: alloc_weight_sign)

lemma allocate_eq:
  assumes tot: "wf_money tot" and wf: "\<And>s. s \<in> set shares \<Longrightarrow> wf_decimal (weight s)"
  shows "allocate tot shares =
    (if alloc_rejected shares then reject calculation_rejected else Inr (map (alloc_part tot shares) shares))"
proof (cases "shares = [] \<or> \<not> distinct (map skey shares) \<or> (\<exists>s\<in>set shares. dec_isNegative (weight s)) \<or>
    (\<exists>s\<in>set shares. 10 ^ 38 \<le> \<bar>alloc_weight shares s\<bar>)")
  case True
  have neg: "dec_isNegative d \<longleftrightarrow> dval d < 0" for d
    by (simp add: dec_isNegative_def dval_def divide_less_0_iff)
  have "alloc_rejected shares" using True by (auto simp: alloc_rejected_def neg)
  moreover have "allocate tot shares = reject calculation_rejected"
    using True length_uniq_eq_iff [of "map skey shares"] mapR_weights [OF wf]
    by (cases "shares = []") (auto simp: allocate_def Let_def)
  ultimately show ?thesis by simp
next
  case False
  define sign :: int where "sign = (if money_minorUnits tot < 0 then -1 else 1)"
  define u where "u = money_minorUnits tot * sign"
  have nonneg: "0 \<le> dval (weight s)" if "s \<in> set shares" for s
    using False that by (auto simp: dec_isNegative_def dval_def)
  then have "\<not> (\<exists>s\<in>set shares. dval (weight s) < 0)" by (simp add: not_less)
  then have rej: "alloc_rejected shares \<longleftrightarrow> sum_list (map (alloc_weight shares) shares) = 0"
    using False alloc_weights_zero [OF nonneg] by (simp add: alloc_rejected_def)
  have step: "allocate tot shares = (if alloc_rejected shares then reject calculation_rejected
      else mapR (\<lambda>i. bindR (fromMinorUnits (alloc_units u shares (map (alloc_weight shares) shares) ! i * sign) (ccode (mcurrency tot)))
             (\<lambda>m. Inr (skey (shares ! i), m))) [0..<length shares])"
    using False length_uniq_eq_iff [of "map skey shares"] mapR_weights [OF wf]
    by (simp add: allocate_def Let_def u_def sign_def rej)
  have all: "map (\<lambda>i. alloc_part tot shares (shares ! i)) [0..<length shares] = map (alloc_part tot shares) shares"
    by (rule nth_equalityI) simp_all
  have "allocate tot shares = Inr (map (\<lambda>i. alloc_part tot shares (shares ! i)) [0..<length shares])" if na: "\<not> alloc_rejected shares"
    unfolding step if_not_P [OF na] by (rule mapR_total) (simp add: alloc_part_built [OF tot na _ sign_def u_def])
  then show ?thesis using step all by simp
qed

lemma allocate_InrD:
  assumes "wf_money tot" "\<forall>s\<in>set shares. wf_decimal (weight s)" "allocate tot shares = Inr parts"
  shows "\<not> alloc_rejected shares" "parts = map (alloc_part tot shares) shares"
  using assms allocate_eq [of tot shares] by (auto split: if_splits)

text \<open>C1: the allocated parts sum exactly to the total, one part per share under the share's key and
  in input order, all in the total's currency and well formed.\<close>

theorem allocate_sums_exactly:
  assumes "wf_money tot" "\<forall>s\<in>set shares. wf_decimal (weight s)" "allocate tot shares = Inr parts"
  shows "(\<Sum>p\<leftarrow>parts. money_minorUnits (snd p)) = money_minorUnits tot \<and>
    map fst parts = map skey shares \<and>
    (\<forall>p\<in>set parts. wf_money (snd p) \<and> mcurrency (snd p) = mcurrency tot)"
proof -
  note acc = allocate_InrD [OF assms]
  let ?u = "\<bar>money_minorUnits tot\<bar>"
  let ?l = "largest_remainder ?u (alloc_weight shares) (set shares)"
  have sum: "(\<Sum>s\<in>set shares. ?l s) = ?u" using alloc_parts(2) [OF acc(1), of ?u] by simp
  have "(\<Sum>p\<leftarrow>parts. money_minorUnits (snd p)) = (\<Sum>s\<in>set shares. sgn (money_minorUnits tot) * ?l s)"
    using alloc_accepted(3) [OF acc(1)]
    by (simp add: acc(2) alloc_part_def money_minorUnits_def o_def sum_list_distinct_conv_sum_set)
  also have "\<dots> = sgn (money_minorUnits tot) * ?u" by (simp only: sum flip: sum_distrib_left)
  also have "\<dots> = money_minorUnits tot" by (simp add: sgn_mult_abs)
  finally have 1: "(\<Sum>p\<leftarrow>parts. money_minorUnits (snd p)) = money_minorUnits tot" .
  have "wf_money (snd (alloc_part tot shares s))" if s: "s \<in> set shares" for s
  proof -
    have "0 \<le> ?l s" using alloc_accepted [OF acc(1)] s by (intro largest_remainder_bounds(2)) simp_all
    moreover have "?l s \<le> ?u" using alloc_parts(3) [OF acc(1) _ s, of ?u] by simp
    ultimately have "\<bar>sgn (money_minorUnits tot) * ?l s\<bar> \<le> ?u"
      using abs_sgn_mult_le order_trans by blast
    then show ?thesis using assms(1) by (simp add: wf_money_def wf_decimal_def alloc_part_def money_minorUnits_def)
  qed
  then show ?thesis using 1 by (auto simp: acc(2) alloc_part_def)
qed

definition example_shares :: "allocation_share list" where
  "example_shares = [\<lparr>skey = ''b'', weight = \<lparr>units = 1, dscale = 0\<rparr>\<rparr>, \<lparr>skey = ''a'', weight = \<lparr>units = 10, dscale = 1\<rparr>\<rparr>,
     \<lparr>skey = ''c'', weight = \<lparr>units = 100, dscale = 2\<rparr>\<rparr>]"

definition usd :: "int \<Rightarrow> money" where
  "usd n = \<lparr>amount = \<lparr>units = n, dscale = 2\<rparr>, mcurrency = \<lparr>ccode = ''USD'', minorUnits = 2\<rparr>\<rparr>"

lemma wf_usd: "\<bar>n\<bar> < 10 ^ 38 \<Longrightarrow> wf_money (usd n)"
  by (simp add: wf_money_def usd_def wf_decimal_def currency_def CURRENCIES_def)

lemma wf_example_shares: "\<forall>s\<in>set example_shares. wf_decimal (weight s)"
  by (simp add: example_shares_def wf_decimal_def)

lemma eval_allocate_example:
  "allocate (usd (-100)) example_shares = Inr [(''b'', usd (-33)), (''a'', usd (-34)), (''c'', usd (-33))]"
proof -
  have rescaled: "dec_rescale \<lparr>units = 1, dscale = 0\<rparr> 2 = Inr \<lparr>units = 100, dscale = 2\<rparr>"
    "dec_rescale \<lparr>units = 10, dscale = 1\<rparr> 2 = Inr \<lparr>units = 100, dscale = 2\<rparr>"
    "dec_rescale \<lparr>units = 100, dscale = 2\<rparr> 2 = Inr \<lparr>units = 100, dscale = 2\<rparr>"
    by (simp_all add: dec_rescale_def assertScale_cases unitsAt_def mkDecimal_eq)
  have "alloc_order example_shares [100, 100, 100] = [1, 0, 2]"
    by (simp add: alloc_order_def example_shares_def upt_rec less_char_def less_eq_char_def)
  then have units: "alloc_units 100 example_shares [100, 100, 100] = [33, 34, 33]"
    by (simp add: alloc_units_def nonneg_signed_ops)
  show ?thesis
    using rescaled units fromMinorUnits_eq [OF wf_usd [of 0]]
    by (simp add: allocate_def dec_isNegative_def money_minorUnits_def usd_def example_shares_def upt_rec)
qed

theorem allocate_sums_exactly_witness:
  "(-33) + (-34) + (-33) = money_minorUnits (usd (-100))"
  using allocate_sums_exactly [OF wf_usd wf_example_shares eval_allocate_example]
  by (simp add: usd_def money_minorUnits_def)

text \<open>C2: every part respects its quota: it differs from the exact proportional amount by less than
  one minor unit, never has the opposite sign of the total, and is zero for a share of weight zero.\<close>

theorem allocate_quota:
  assumes "wf_money tot" "\<forall>s\<in>set shares. wf_decimal (weight s)" "allocate tot shares = Inr parts"
    and "i < length shares"
  shows "\<bar>of_int (money_minorUnits (snd (parts ! i)))
      - of_int (money_minorUnits tot) * dval (weight (shares ! i)) / (\<Sum>s\<leftarrow>shares. dval (weight s))\<bar> < 1 \<and>
    0 \<le> money_minorUnits (snd (parts ! i)) * money_minorUnits tot \<and>
    (dval (weight (shares ! i)) = 0 \<longrightarrow> money_minorUnits (snd (parts ! i)) = 0)"
proof -
  note acc = allocate_InrD [OF assms(1-3)]
  note ok = alloc_accepted [OF acc(1)]
  define s where "s = shares ! i"
  have s: "s \<in> set shares" using assms(4) by (simp add: s_def)
  define U where "U = money_minorUnits tot"
  let ?w = "alloc_weight shares" and ?l = "largest_remainder \<bar>U\<bar> (alloc_weight shares) (set shares) s"
  have bounds: "\<bar>of_int ?l - (of_int (\<bar>U\<bar> * ?w s) / of_int (sum ?w (set shares)) :: rat)\<bar> < 1" "0 \<le> ?l" "?w s = 0 \<Longrightarrow> ?l = 0"
    using largest_remainder_bounds [OF abs_ge_zero List.finite_set s ok(4,5)] by blast+
  have part: "money_minorUnits (snd (parts ! i)) = sgn U * ?l"
    using assms(4) by (simp add: acc(2) alloc_part_def money_minorUnits_def s_def U_def)
  define p :: rat where "p = 10 ^ Max (set (map (\<lambda>s. dscale (weight s)) shares))"
  have p0: "0 < p" by (simp add: p_def)
  have w: "of_int (?w t) = dval (weight t) * p" if "t \<in> set shares" for t
    using alloc_weight_dval [OF that] by (simp add: p_def)
  have "of_int (sum ?w (set shares)) = (\<Sum>t\<in>set shares. dval (weight t) * p)"
    unfolding of_int_sum using w by (intro sum.cong) simp_all
  also have "\<dots> = (\<Sum>t\<leftarrow>shares. dval (weight t)) * p"
    using ok(3) by (simp add: sum_distrib_right sum_list_distinct_conv_sum_set)
  finally have W: "of_int (sum ?w (set shares)) = (\<Sum>t\<leftarrow>shares. dval (weight t)) * p" .
  have ratio: "(of_int (\<bar>U\<bar> * ?w s) / of_int (sum ?w (set shares)) :: rat)
      = \<bar>of_int U\<bar> * dval (weight s) / (\<Sum>t\<leftarrow>shares. dval (weight t))" (is "?R = \<bar>_\<bar> * ?d / ?D")
    using p0 unfolding of_int_mult w [OF s] W by simp
  have "\<bar>of_int (sgn U * ?l) - of_int U * ?d / ?D\<bar> < (1::rat)"
  proof (cases "U = 0")
    case False
    have "of_int (sgn U * ?l) - of_int U * ?d / ?D = of_int (sgn U) * (of_int ?l - ?R)"
      unfolding ratio by (auto simp: sgn_if)
    then have "\<bar>of_int (sgn U * ?l) - of_int U * ?d / ?D\<bar> = \<bar>of_int (sgn U) :: rat\<bar> * \<bar>of_int ?l - ?R\<bar>"
      by (simp only: abs_mult)
    moreover have "\<bar>of_int (sgn U) :: rat\<bar> = 1" using False by (simp add: sgn_if)
    ultimately show ?thesis using bounds(1) by (simp only: mult_1)
  qed simp
  moreover have "0 \<le> sgn U * ?l * U" using bounds(2) by (rule sgn_mult_nonneg)
  moreover have "?d = 0 \<Longrightarrow> sgn U * ?l = 0" using bounds(3) alloc_weight_sign(2) [OF s] by simp
  ultimately show ?thesis unfolding part by (simp add: s_def U_def)
qed

theorem allocate_quota_witness:
  "\<bar>of_int (money_minorUnits (usd (-34))) - of_int (money_minorUnits (usd (-100))) * dval \<lparr>units = 10, dscale = 1\<rparr> / (3::rat)\<bar> < 1"
  using allocate_quota [OF wf_usd wf_example_shares eval_allocate_example, of 1]
  by (simp add: example_shares_def)

lemma alloc_part_cong:
  assumes "mset shares' = mset shares" "\<not> alloc_rejected shares"
  shows "alloc_rejected shares' \<longleftrightarrow> alloc_rejected shares" "alloc_part tot shares' = alloc_part tot shares"
proof -
  have set: "set shares' = set shares" using assms(1) by (metis set_mset_mset)
  then have w: "alloc_weight shares' = alloc_weight shares" by (simp add: alloc_weight_def fun_eq_iff)
  have "mset (map skey shares') = mset (map skey shares)" using assms(1) by simp
  then have "distinct (map skey shares') \<longleftrightarrow> distinct (map skey shares)" by (rule mset_eq_imp_distinct_iff)
  moreover have "shares' = [] \<longleftrightarrow> shares = []" using set by (metis set_empty)
  ultimately show "alloc_rejected shares' \<longleftrightarrow> alloc_rejected shares" using set w by (simp add: alloc_rejected_def)
  show "alloc_part tot shares' = alloc_part tot shares" by (simp add: alloc_part_def fun_eq_iff set w)
qed

text \<open>C3: the allocation does not depend on the order of the shares: a permutation of the shares is
  accepted as well and gives every key the same part.\<close>

theorem allocate_order_independent:
  assumes "wf_money tot" "\<forall>s\<in>set shares. wf_decimal (weight s)" "allocate tot shares = Inr parts"
    and "mset shares' = mset shares"
  shows "\<exists>parts'. allocate tot shares' = Inr parts' \<and> mset parts' = mset parts"
proof -
  note acc = allocate_InrD [OF assms(1-3)]
  have wf': "wf_decimal (weight s)" if "s \<in> set shares'" for s
    using assms(2,4) that by (metis set_mset_mset)
  have "allocate tot shares' = Inr (map (alloc_part tot shares) shares')"
    using allocate_eq [OF assms(1) wf'] alloc_part_cong [OF assms(4) acc(1)] acc(1) by simp
  then show ?thesis using assms(4) by (auto simp: acc(2))
qed

theorem allocate_order_independent_witness:
  "\<exists>parts'. allocate (usd (-100)) (rev example_shares) = Inr parts' \<and>
     mset parts' = mset [(''b'', usd (-33)), (''a'', usd (-34)), (''c'', usd (-33))]"
  using allocate_order_independent [OF wf_usd wf_example_shares eval_allocate_example, of "rev example_shares"] by simp

text \<open>An allocation is rejected exactly for an empty share list, a repeated key, a negative
  weight, weights that do not fit 38 digits at their common scale, or weights that are all zero; in
  every other case it returns.\<close>

theorem allocate_accepts:
  assumes "wf_money tot" "\<forall>s\<in>set shares. wf_decimal (weight s)"
  shows "(\<exists>parts. allocate tot shares = Inr parts) \<longleftrightarrow>
    shares \<noteq> [] \<and> distinct (map skey shares) \<and> (\<forall>s\<in>set shares. 0 \<le> dval (weight s)) \<and>
    (\<exists>s\<in>set shares. dval (weight s) \<noteq> 0) \<and> (\<forall>s\<in>set shares. \<bar>alloc_weight shares s\<bar> < 10 ^ 38)"
proof -
  have "(\<exists>parts. allocate tot shares = Inr parts) \<longleftrightarrow> \<not> alloc_rejected shares"
    using assms by (simp add: allocate_eq)
  then show ?thesis unfolding alloc_rejected_def by (simp add: not_le not_less) blast
qed

theorem allocate_accepts_witness:
  "\<exists>parts. allocate (usd 1) example_shares = Inr parts"
  using allocate_accepts [OF wf_usd wf_example_shares, of 1]
  by (simp add: example_shares_def alloc_weight_def unitsAt_def)

section \<open>Construction and arithmetic of amounts\<close>

lemma mkMoney_wf:
  assumes "currency c = Inr unit" "wf_decimal d" "dscale d = minorUnits unit"
  shows "wf_money \<lparr>amount = d, mcurrency = unit\<rparr>"
  using assms currency_minorUnits [OF assms(1)] by (simp add: wf_money_def)

lemma wf_money_dval: "wf_money m \<Longrightarrow> dval (amount m) = of_int (money_minorUnits m) / 10 ^ minorUnits (mcurrency m)"
  by (simp add: dval_def money_minorUnits_def wf_money_def)

lemma dec_op_wf:
  "dec_rescale d (int s) = Inr c \<Longrightarrow> wf_decimal c \<and> dscale c = s"
  "dec_round d (int s) m = Inr c \<Longrightarrow> wf_decimal c \<and> dscale c = s"
  "dec_multiply d b (Some (int s, m)) = Inr c \<Longrightarrow> wf_decimal c \<and> dscale c = s"
  "dec_divide d b (int s, m) = Inr c \<Longrightarrow> wf_decimal c \<and> dscale c = s"
  "fromUnits u (int s) = Inr c \<Longrightarrow> wf_decimal c \<and> dscale c = s"
  by (auto simp: dec_defs bindR_Inr_iff assertMode_cases mkDecimal_Inr_iff wf_decimal_def Let_def split: if_splits)

text \<open>C38: every operation on well-formed amounts returns well-formed ones: a known currency, fewer than
  39 digits, and a scale that is exactly the currency's minor unit.\<close>

theorem money_invariant:
  assumes "wf_money a" "wf_money b"
    and "money_of t c = Inr m \<or> money_ofDecimal d c = Inr m \<or> fromDecimal d c mode = Inr m \<or> fromMinorUnits u c = Inr m \<or>
      money_zero c = Inr m \<or> money_add a b = Inr m \<or> money_subtract a b = Inr m \<or> money_multiply a d mode = Inr m \<or>
      money_negate a = Inr m"
  shows "wf_money m"
proof -
  have ab: "dscale (amount a) = minorUnits (mcurrency a)" "currency (ccode (mcurrency a)) = Inr (mcurrency a)"
    "dscale (amount b) = minorUnits (mcurrency b)" "currency (ccode (mcurrency b)) = Inr (mcurrency b)"
    using assms by (simp_all add: wf_money_def)
  have of_dec: "money_ofDecimal x c = Inr m \<Longrightarrow> wf_money m" for x
    by (auto simp: money_ofDecimal_def bindR_Inr_iff dest!: dec_op_wf elim!: mkMoney_wf split: if_splits)
  have minor: "fromMinorUnits v c = Inr m \<Longrightarrow> wf_money m" for v
    by (auto simp: fromMinorUnits_def bindR_Inr_iff dest!: dec_op_wf elim!: mkMoney_wf)
  have same: "money_same a b = Inr () \<Longrightarrow> minorUnits (mcurrency b) = minorUnits (mcurrency a)"
    using ab by (auto simp: money_same_def split: if_splits)
  consider "money_of t c = Inr m" | "money_ofDecimal d c = Inr m" | "fromDecimal d c mode = Inr m"
    | "fromMinorUnits u c = Inr m" | "money_zero c = Inr m" | "money_add a b = Inr m" | "money_subtract a b = Inr m"
    | "money_multiply a d mode = Inr m" | "money_negate a = Inr m"
    using assms(3) by blast
  then show ?thesis
  proof cases
    case 1 then show ?thesis using of_dec by (auto simp: money_of_def bindR_Inr_iff)
  next
    case 2 then show ?thesis by (rule of_dec)
  next
    case 3 then show ?thesis by (auto simp: fromDecimal_def bindR_Inr_iff dest!: dec_op_wf elim!: mkMoney_wf)
  next
    case 4 then show ?thesis by (rule minor)
  next
    case 5 then show ?thesis using minor by (simp add: money_zero_def)
  next
    case 6 then show ?thesis using ab assms same
      by (auto simp: money_add_def bindR_Inr_iff dec_add_def Let_def mkDecimal_Inr_iff wf_money_def wf_decimal_def)
  next
    case 7 then show ?thesis using ab assms same
      by (auto simp: money_subtract_def bindR_Inr_iff dec_subtract_def Let_def mkDecimal_Inr_iff wf_money_def wf_decimal_def)
  next
    case 8 then show ?thesis using ab by (auto simp: money_multiply_def bindR_Inr_iff dest!: dec_op_wf elim!: mkMoney_wf)
  next
    case 9 then show ?thesis using ab assms
      by (auto simp: money_negate_def bindR_Inr_iff dec_negate_def mkDecimal_Inr_iff wf_money_def wf_decimal_def)
  qed
qed

theorem money_invariant_witness: "wf_money (usd 1250)"
proof -
  have "money_of ''12.5'' ''USD'' = Inr (usd 1250)" by code_simp
  moreover have "wf_money (usd 0)" by (rule wf_usd) simp
  ultimately show ?thesis using money_invariant by blast
qed

lemma money_add_units:
  assumes "wf_money a" "wf_money b"
  shows "money_add a b = (if ccode (mcurrency b) \<noteq> ccode (mcurrency a) then reject currency_mismatch
    else fromMinorUnits (money_minorUnits a + money_minorUnits b) (ccode (mcurrency a)))"
proof (cases "ccode (mcurrency b) = ccode (mcurrency a)")
  case True
  then have "mcurrency b = mcurrency a" using assms by (simp add: wf_money_def)
  then show ?thesis
    using assms fromMinorUnits_eq [OF assms(1)]
    by (simp add: money_add_def money_same_def wf_money_def dec_add_def unitsAt_def money_minorUnits_def mkDecimal_eq)
qed (simp add: money_add_def money_same_def)

text \<open>The sum of a list of amounts of one currency is the sum of their minor units whenever it
  returns; an amount of another currency in the list is always rejected.\<close>

lemma sumMoney_units:
  assumes "\<forall>m\<in>set ms. wf_money m" "sumMoney ms c = Inr t"
  shows "wf_money t \<and> ccode (mcurrency t) = c \<and> money_minorUnits t = (\<Sum>m\<leftarrow>ms. money_minorUnits m) \<and>
    (\<forall>m\<in>set ms. ccode (mcurrency m) = c)"
  using assms
proof (induction ms arbitrary: t rule: rev_induct)
  case Nil
  then show ?case
    by (auto simp: sumMoney_def money_zero_def fromMinorUnits_def fromUnits_def mkDecimal_Inr_iff wf_money_def wf_decimal_def
        money_minorUnits_def bindR_Inr_iff dest: currency_minorUnits) (metis currency_minorUnits)
next
  case (snoc m ms)
  from snoc.prems obtain t0 where t0: "sumMoney ms c = Inr t0" "money_add t0 m = Inr t"
    by (auto simp: sumMoney_def)
  then have ih: "wf_money t0" "ccode (mcurrency t0) = c" "money_minorUnits t0 = (\<Sum>m\<leftarrow>ms. money_minorUnits m)"
    "\<forall>m\<in>set ms. ccode (mcurrency m) = c"
    using snoc by simp_all
  have m: "wf_money m" using snoc.prems by simp
  have eq: "ccode (mcurrency m) = c" and f: "fromMinorUnits (money_minorUnits t0 + money_minorUnits m) (ccode (mcurrency t0)) = Inr t"
    using t0(2) money_add_units [OF ih(1) m] ih(2) by (auto split: if_splits)
  have t: "t = \<lparr>amount = \<lparr>units = money_minorUnits t0 + money_minorUnits m, dscale = minorUnits (mcurrency t0)\<rparr>, mcurrency = mcurrency t0\<rparr>"
    and small: "\<bar>money_minorUnits t0 + money_minorUnits m\<bar> < 10 ^ 38"
    using f fromMinorUnits_eq [OF ih(1)] by (auto split: if_splits)
  then have "wf_money t" using ih(1) by (simp add: wf_money_def wf_decimal_def)
  then show ?case using t ih eq by (simp add: money_minorUnits_def)
qed

end
