(* ===== verification/Proration.thy ===== *)
theory Proration
  imports Money
begin

text \<open>
  \<open>platform/money/src/proration.ts\<close>: civil dates as day numbers, and the ACTUAL_DAYS proration.
  \<open>Date.UTC\<close> and the \<open>getUTC...\<close> accessors are written out as the language defines them (in whole
  days: \<open>Date.UTC\<close> of a civil date is a multiple of one day). The lemmas show which dates are
  accepted, and that a prorated amount is the exactly rounded share of the amount and stays within it.
\<close>

section \<open>Model\<close>

definition civil_match :: "string \<Rightarrow> (int \<times> int \<times> int) option" where
  "civil_match s =
     (if length s = 10 \<and> list_all is_digit (take 4 s) \<and> s ! 4 = CHR ''-'' \<and>
         list_all is_digit (take 2 (drop 5 s)) \<and> s ! 7 = CHR ''-'' \<and> list_all is_digit (drop 8 s)
      then Some (int (digits_val (take 4 s)), int (digits_val (take 2 (drop 5 s))), int (digits_val (drop 8 s)))
      else None)"

text \<open>\<open>DayFromYear\<close>, \<open>InLeapYear\<close>, \<open>MakeDay\<close> and \<open>Date.UTC\<close> of ECMA-262.\<close>

definition dayFromYear :: "int \<Rightarrow> int" where
  "dayFromYear y = 365 * (y - 1970) + (y - 1969) div 4 - (y - 1901) div 100 + (y - 1601) div 400"

definition inLeapYear :: "int \<Rightarrow> bool" where
  "inLeapYear y \<longleftrightarrow> y mod 4 = 0 \<and> (y mod 100 \<noteq> 0 \<or> y mod 400 = 0)"

definition monthStarts :: "bool \<Rightarrow> int list" where
  "monthStarts leap = (let l = (if leap then 1 else 0) in
     [0, 31, 59 + l, 90 + l, 120 + l, 151 + l, 181 + l, 212 + l, 243 + l, 273 + l, 304 + l, 334 + l])"

definition makeDay :: "int \<Rightarrow> int \<Rightarrow> int \<Rightarrow> int" where
  "makeDay y m d = (let ym = y + m div 12 in dayFromYear ym + monthStarts (inLeapYear ym) ! nat (m mod 12) + d - 1)"

definition dateUTC :: "int \<Rightarrow> int \<Rightarrow> int \<Rightarrow> int" where
  "dateUTC y m d = makeDay (if 0 \<le> y \<and> y \<le> 99 then 1900 + y else y) m d"

text \<open>\<open>YearFromTime\<close> (the largest year that has begun), \<open>MonthFromTime\<close> and \<open>DateFromTime\<close>.\<close>

definition yearFromDay :: "int \<Rightarrow> int" where
  "yearFromDay n = (let e = 1970 + (400 * n) div 146097 in
     if dayFromYear (e + 1) \<le> n then e + 1 else if dayFromYear e \<le> n then e else e - 1)"

definition dayWithinYear :: "int \<Rightarrow> int" where
  "dayWithinYear n = n - dayFromYear (yearFromDay n)"

definition monthFromDay :: "int \<Rightarrow> int" where
  "monthFromDay n =
     int (length (filter (\<lambda>s. s \<le> dayWithinYear n) (monthStarts (inLeapYear (yearFromDay n))))) - 1"

definition dateFromDay :: "int \<Rightarrow> int" where
  "dateFromDay n = dayWithinYear n - monthStarts (inLeapYear (yearFromDay n)) ! nat (monthFromDay n) + 1"

definition dayNumber :: "string \<Rightarrow> int res" where
  "dayNumber date =
     (case civil_match date of
        None \<Rightarrow> reject invalid_timestamp
      | Some (year, month, day) \<Rightarrow>
          (let epoch = dateUTC year (month - 1) day in
           if yearFromDay epoch \<noteq> year \<or> monthFromDay epoch \<noteq> month - 1 \<or> dateFromDay epoch \<noteq> day
           then reject invalid_timestamp else Inr epoch))"

definition daysBetween :: "string \<Rightarrow> string \<Rightarrow> int res" where
  "daysBetween start end =
     bindR (dayNumber end) (\<lambda>e. bindR (dayNumber start) (\<lambda>s.
       if e - s < 0 then reject calculation_rejected else Inr (e - s)))"

record period =
  pstart :: string
  pend :: string

definition prorateActualDays :: "money \<Rightarrow> period \<Rightarrow> period \<Rightarrow> rounding_mode \<Rightarrow> money res" where
  "prorateActualDays m used period mode =
     bindR (daysBetween (pstart period) (pend period)) (\<lambda>periodDays.
     bindR (daysBetween (pstart used) (pend used)) (\<lambda>usedDays.
       if periodDays = 0 then reject calculation_rejected
       else bindR (dayNumber (pstart used)) (\<lambda>us. bindR (dayNumber (pstart period)) (\<lambda>ps.
         bindR (if us < ps then Inr True
                else bindR (dayNumber (pend used)) (\<lambda>ue. bindR (dayNumber (pend period)) (\<lambda>pe. Inr (ue > pe)))) (\<lambda>outside.
         if outside then reject calculation_rejected
         else bindR (fromIntegerNumber (Num usedDays)) (\<lambda>ud.
           bindR (dec_multiply (amount m) ud None) (\<lambda>exact.
           bindR (fromIntegerNumber (Num periodDays)) (\<lambda>pd.
           bindR (dec_divide exact pd (int (minorUnits (mcurrency m)), mode)) (\<lambda>q.
             money_ofDecimal q (ccode (mcurrency m)))))))))))"

section \<open>Civil dates\<close>

definition daysInMonth :: "int \<Rightarrow> int \<Rightarrow> int" where
  "daysInMonth y m = (if m = 2 then (if inLeapYear y then 29 else 28) else if m \<in> {4, 6, 9, 11} then 30 else 31)"

definition civil_valid :: "int \<times> int \<times> int \<Rightarrow> bool" where
  "civil_valid = (\<lambda>(y, m, d). 1 \<le> m \<and> m \<le> 12 \<and> 1 \<le> d \<and> d \<le> daysInMonth y m)"

lemma div_Suc_int:
  fixes k :: int assumes "0 < k"
  shows "(x + 1) div k = x div k + (if (x + 1) mod k = 0 then 1 else 0)"
proof (cases "x mod k = k - 1")
  case True
  then have "x + 1 = k * (x div k + 1)" by (simp add: distrib_left minus_mod_eq_mult_div [symmetric])
  then show ?thesis using assms by (metis add.commute mod_mult_self1_is_0 nonzero_mult_div_cancel_left order_less_irrefl)
next
  case False
  have r: "0 \<le> x mod k" "x mod k < k - 1" using assms False pos_mod_bound [of k x] by (simp, linarith)
  have eq: "x + 1 = k * (x div k) + (x mod k + 1)" by simp
  have "(x + 1) div k = x div k" using r by (intro int_div_pos_eq [OF eq]) simp_all
  moreover have "(x + 1) mod k = x mod k + 1" using r by (intro int_mod_pos_eq [OF eq]) simp_all
  ultimately show ?thesis using r by simp
qed

lemma year_mods:
  "(y - 1968) mod 4 = y mod (4::int)" "(y - 1900) mod 100 = y mod (100::int)" "(y - 1600) mod 400 = y mod (400::int)"
  using mod_mult_self1 [of y "-492" 4] mod_mult_self1 [of y "-19" 100] mod_mult_self1 [of y "-4" 400] by simp_all

lemma dayFromYear_Suc: "dayFromYear (y + 1) = dayFromYear y + (if inLeapYear y then 366 else 365)"
proof -
  have 4: "(y + 1 - 1969) div 4 = (y - 1969) div 4 + (if y mod 4 = 0 then 1 else 0)"
    using div_Suc_int [of 4 "y - 1969"] by (simp add: year_mods)
  have 100: "(y + 1 - 1901) div 100 = (y - 1901) div 100 + (if y mod 100 = 0 then 1 else 0)"
    using div_Suc_int [of 100 "y - 1901"] by (simp add: year_mods)
  have 400: "(y + 1 - 1601) div 400 = (y - 1601) div 400 + (if y mod 400 = 0 then 1 else 0)"
    using div_Suc_int [of 400 "y - 1601"] by (simp add: year_mods)
  have "y mod 400 = 0 \<Longrightarrow> y mod 100 = 0" "y mod 100 = 0 \<Longrightarrow> y mod 4 = 0"
    using mod_mod_cancel [of 100 400 y] mod_mod_cancel [of 4 100 y] by simp_all
  then show ?thesis unfolding dayFromYear_def 4 100 400 inLeapYear_def
    by (cases "y mod 4 = 0"; cases "y mod 100 = 0"; cases "y mod 400 = 0") simp_all
qed

lemma dayFromYear_mono: "y \<le> z \<Longrightarrow> dayFromYear y \<le> dayFromYear z"
proof (induction rule: int_ge_induct)
  case (step z) then show ?case using dayFromYear_Suc [of z] by (auto split: if_splits)
qed simp

lemma dayFromYear_estimate:
  "400 * dayFromYear (1970 + t) \<le> 146097 * t + 800" "146097 * t - 800 \<le> 400 * dayFromYear (1970 + t)"
proof -
  define a where "a = (t + 1) div 4"
  define b where "b = (t + 69) div 100"
  define c where "c = (t + 369) div 400"
  have D: "dayFromYear (1970 + t) = 365 * t + a - b + c" by (simp add: dayFromYear_def a_def b_def c_def add.commute)
  have "4 * a \<le> t + 1" "t + 1 < 4 * a + 4" unfolding a_def by linarith+
  moreover have "100 * b \<le> t + 69" "t + 69 < 100 * b + 100" unfolding b_def by linarith+
  moreover have "400 * c \<le> t + 369" "t + 369 < 400 * c + 400" unfolding c_def by linarith+
  ultimately show "400 * dayFromYear (1970 + t) \<le> 146097 * t + 800" "146097 * t - 800 \<le> 400 * dayFromYear (1970 + t)"
    using D by linarith+
qed

lemma yearFromDay_bounds: "dayFromYear (yearFromDay n) \<le> n" "n < dayFromYear (yearFromDay n + 1)"
proof -
  define q where "q = (400 * n) div 146097"
  have q: "146097 * q \<le> 400 * n" "400 * n < 146097 * q + 146097" unfolding q_def by linarith+
  have lo: "dayFromYear (1970 + q - 1) \<le> n"
    using q dayFromYear_estimate(1) [of "q - 1"] by (simp add: right_diff_distrib add_diff_eq)
  have hi: "n < dayFromYear (1970 + q + 1 + 1)"
    using q dayFromYear_estimate(2) [of "q + 2"] by (simp add: distrib_left add.assoc)
  show "dayFromYear (yearFromDay n) \<le> n" "n < dayFromYear (yearFromDay n + 1)"
    using lo hi unfolding yearFromDay_def Let_def q_def [symmetric] by (simp_all add: not_le)
qed

lemma yearFromDay_eqI:
  assumes "dayFromYear y \<le> n" "n < dayFromYear (y + 1)" shows "yearFromDay n = y"
proof (rule antisym)
  show "yearFromDay n \<le> y"
    using yearFromDay_bounds(1) [of n] assms(2) dayFromYear_mono [of "y + 1" "yearFromDay n"] by linarith
  show "y \<le> yearFromDay n"
    using yearFromDay_bounds(2) [of n] assms(1) dayFromYear_mono [of "yearFromDay n + 1" y] by linarith
qed

text \<open>Position \<open>d\<close> of month \<open>m\<close> is found again, and lies within the year.\<close>

lemma monthStarts_find:
  assumes m: "1 \<le> m" "m \<le> 12" and d: "1 \<le> d" "d \<le> daysInMonth y m"
  defines "w \<equiv> monthStarts (inLeapYear y) ! nat (m - 1) + d - 1"
  shows "int (length (filter (\<lambda>s. s \<le> w) (monthStarts (inLeapYear y)))) = m"
    and "0 \<le> w" and "w < (if inLeapYear y then 366 else 365)"
proof -
  have "m = 1 \<or> m = 2 \<or> m = 3 \<or> m = 4 \<or> m = 5 \<or> m = 6 \<or> m = 7 \<or> m = 8 \<or> m = 9 \<or> m = 10 \<or> m = 11 \<or> m = 12"
    using m by presburger
  then consider "m = 1" | "m = 2" | "m = 3" | "m = 4" | "m = 5" | "m = 6" | "m = 7" | "m = 8" | "m = 9" | "m = 10"
    | "m = 11" | "m = 12" by blast
  then have "int (length (filter (\<lambda>s. s \<le> w) (monthStarts (inLeapYear y)))) = m \<and>
    0 \<le> w \<and> w < (if inLeapYear y then 366 else 365)"
    using d by cases (cases "inLeapYear y"; simp add: w_def monthStarts_def daysInMonth_def)+
  then show "int (length (filter (\<lambda>s. s \<le> w) (monthStarts (inLeapYear y)))) = m"
    "0 \<le> w" "w < (if inLeapYear y then 366 else 365)" by blast+
qed

text \<open>Every position of a year lies in the month found for it.\<close>

lemma monthStarts_found:
  assumes "0 \<le> w" "w < (if inLeapYear y then 366 else 365)"
  defines "m \<equiv> int (length (filter (\<lambda>s. s \<le> w) (monthStarts (inLeapYear y))))"
  shows "1 \<le> m \<and> m \<le> 12 \<and> monthStarts (inLeapYear y) ! nat (m - 1) \<le> w \<and>
    w - monthStarts (inLeapYear y) ! nat (m - 1) + 1 \<le> daysInMonth y m"
proof -
  define l :: int where "l = (if inLeapYear y then 1 else 0)"
  have l: "l = 0 \<or> l = 1" by (simp add: l_def)
  consider "w < 31" | "31 \<le> w" "w < 59 + l" | "59 + l \<le> w" "w < 90 + l" | "90 + l \<le> w" "w < 120 + l"
    | "120 + l \<le> w" "w < 151 + l" | "151 + l \<le> w" "w < 181 + l" | "181 + l \<le> w" "w < 212 + l"
    | "212 + l \<le> w" "w < 243 + l" | "243 + l \<le> w" "w < 273 + l" | "273 + l \<le> w" "w < 304 + l"
    | "304 + l \<le> w" "w < 334 + l" | "334 + l \<le> w" by linarith
  then show ?thesis
    using assms(1,2) by cases (cases "inLeapYear y"; simp add: m_def monthStarts_def daysInMonth_def Let_def l_def)+
qed

text \<open>The day number of a valid date, and the decomposition of any day number.\<close>

lemma makeDay_valid:
  assumes "civil_valid (y, m, d)"
  shows "yearFromDay (makeDay y (m - 1) d) = y" "monthFromDay (makeDay y (m - 1) d) = m - 1"
    "dateFromDay (makeDay y (m - 1) d) = d"
proof -
  from assms have m: "1 \<le> m" "m \<le> 12" and d: "1 \<le> d" "d \<le> daysInMonth y m" by (simp_all add: civil_valid_def)
  define w where "w = monthStarts (inLeapYear y) ! nat (m - 1) + d - 1"
  note found = monthStarts_find [OF m d, folded w_def]
  have k: "makeDay y (m - 1) d = dayFromYear y + w" using m by (simp add: makeDay_def Let_def w_def)
  show y: "yearFromDay (makeDay y (m - 1) d) = y"
    unfolding k using found dayFromYear_Suc [of y] by (intro yearFromDay_eqI) simp_all
  then have dw: "dayWithinYear (makeDay y (m - 1) d) = w" unfolding dayWithinYear_def by (simp add: k)
  show mo: "monthFromDay (makeDay y (m - 1) d) = m - 1"
    unfolding monthFromDay_def y dw using found(1) by simp
  show "dateFromDay (makeDay y (m - 1) d) = d"
    unfolding dateFromDay_def mo y dw by (simp add: w_def)
qed

lemma decompose_valid: "civil_valid (yearFromDay n, monthFromDay n + 1, dateFromDay n)"
proof -
  have "0 \<le> dayWithinYear n" "dayWithinYear n < (if inLeapYear (yearFromDay n) then 366 else 365)"
    using yearFromDay_bounds [of n] dayFromYear_Suc [of "yearFromDay n"] by (auto simp: dayWithinYear_def split: if_splits)
  from monthStarts_found [OF this] show ?thesis
    by (simp add: civil_valid_def dateFromDay_def monthFromDay_def)
qed

lemma digits_val_less: "list_all is_digit s \<Longrightarrow> digits_val s < 10 ^ length s"
proof (induction s rule: rev_induct)
  case (snoc c s)
  have "digit_val c \<le> 9" using snoc.prems by (auto simp: is_digit_of_char digit_val_def)
  then show ?case using snoc by (simp add: digits_val_append)
qed simp

lemma civil_match_bounds:
  assumes "civil_match s = Some (y, m, d)"
  shows "0 \<le> y" "0 \<le> m" "m < 100" "0 \<le> d" "d < 100"
  using assms digits_val_less [of "take 2 (drop 5 s)"] digits_val_less [of "drop 8 s"]
  by (auto simp: civil_match_def split: if_splits)

lemma monthStarts_nonneg: "i < 12 \<Longrightarrow> 0 \<le> monthStarts leap ! i"
proof -
  assume "i < 12"
  then have "monthStarts leap ! i \<in> set (monthStarts leap)" by (intro nth_mem) (simp add: monthStarts_def)
  then show ?thesis by (auto simp: monthStarts_def Let_def)
qed

text \<open>\<open>dayNumber\<close> accepts exactly the calendar dates of years 100 to 9999.\<close>

lemma dayNumber_Inr_iff:
  "dayNumber s = Inr n \<longleftrightarrow>
     (\<exists>y m d. civil_match s = Some (y, m, d) \<and> civil_valid (y, m, d) \<and> 100 \<le> y \<and> n = makeDay y (m - 1) d)"
proof (cases "civil_match s")
  case None
  then show ?thesis by (simp add: dayNumber_def)
next
  case (Some t)
  obtain y m d where t: "t = (y, m, d)" by (cases t)
  note b = civil_match_bounds [OF Some [unfolded t]]
  define k where "k = dateUTC y (m - 1) d"
  have eq: "dayNumber s = (if yearFromDay k = y \<and> monthFromDay k = m - 1 \<and> dateFromDay k = d then Inr k else reject invalid_timestamp)"
    by (simp add: dayNumber_def Some t k_def)
  have "y \<ge> 100 \<and> civil_valid (y, m, d)" if dec: "yearFromDay k = y" "monthFromDay k = m - 1" "dateFromDay k = d"
  proof
    show valid: "civil_valid (y, m, d)" using decompose_valid [of k] dec by simp
    show "100 \<le> y"
    proof (rule ccontr)
      assume "\<not> 100 \<le> y"
      then have "k = makeDay (1900 + y) (m - 1) d" using b by (simp add: k_def dateUTC_def)
      then show False
      proof -
        define w where "w = monthStarts (inLeapYear (1900 + y)) ! nat (m - 1) + d - 1"
        have m: "1 \<le> m" "m \<le> 12" "1 \<le> d" using valid by (simp_all add: civil_valid_def)
        have k2: "k = dayFromYear (1900 + y) + w"
          using \<open>k = makeDay (1900 + y) (m - 1) d\<close> m by (simp add: makeDay_def Let_def w_def)
        have "0 \<le> w" using m monthStarts_nonneg [of "nat (m - 1)" "inLeapYear (1900 + y)"] unfolding w_def by linarith
        then have "dayFromYear (1900 + y) \<le> k" by (simp add: k2)
        moreover have "k < dayFromYear (y + 1)" using yearFromDay_bounds(2) [of k] dec(1) by simp
        ultimately show False using dayFromYear_mono [of "y + 1" "1900 + y"] by simp
      qed
    qed
  qed
  then have "dayNumber s = Inr n \<longleftrightarrow> civil_valid (y, m, d) \<and> 100 \<le> y \<and> n = k"
    using makeDay_valid [of y m d] by (auto simp: eq k_def dateUTC_def)
  then show ?thesis by (auto simp: Some t k_def dateUTC_def)
qed

text \<open>C40: a civil date is accepted exactly when it has the form YYYY-MM-DD, names a day of the
  Gregorian calendar and lies in year 100 or later; distinct accepted dates have distinct day
  numbers, and the day number determines year, month and day.\<close>

theorem dayNumber_calendar:
  "((\<exists>n. dayNumber s = Inr n) \<longleftrightarrow>
     (\<exists>y m d. civil_match s = Some (y, m, d) \<and> 100 \<le> y \<and> 1 \<le> m \<and> m \<le> 12 \<and> 1 \<le> d \<and> d \<le> daysInMonth y m)) \<and>
   (dayNumber s = Inr n \<longrightarrow> civil_match s = Some (yearFromDay n, monthFromDay n + 1, dateFromDay n))"
  using makeDay_valid by (auto simp: dayNumber_Inr_iff civil_valid_def)

lemma eval_civil_match:
  "civil_match ''2024-02-29'' = Some (2024, 2, 29)" "civil_match ''2024-02-01'' = Some (2024, 2, 1)"
  "civil_match ''2024-03-01'' = Some (2024, 3, 1)" "civil_match ''2024-02-15'' = Some (2024, 2, 15)"
  by (simp_all add: civil_match_def is_digit_of_char digits_val_def digit_val_def)

lemma eval_dayNumber:
  "dayNumber ''2024-02-29'' = Inr 19782" "dayNumber ''2024-02-01'' = Inr 19754"
  "dayNumber ''2024-03-01'' = Inr 19783" "dayNumber ''2024-02-15'' = Inr 19768"
  by (simp_all add: dayNumber_Inr_iff eval_civil_match civil_valid_def daysInMonth_def inLeapYear_def makeDay_def
      dayFromYear_def monthStarts_def)

theorem dayNumber_calendar_witness:
  "dayNumber ''2024-02-29'' = Inr 19782 \<and>
   Some (2024, 2, 29) = Some (yearFromDay 19782, monthFromDay 19782 + 1, dateFromDay 19782)"
  using dayNumber_calendar [of "''2024-02-29''" 19782] by (simp add: eval_dayNumber eval_civil_match)

section \<open>Proration\<close>

lemma round_spec_within:
  assumes "\<bar>x\<bar> \<le> of_int k" "m \<in> set ROUNDING_MODES"
  shows "\<bar>round_spec m x\<bar> \<le> k" and "0 \<le> of_int (round_spec m x) * x"
proof -
  define a where "a = \<bar>x\<bar>"
  define n where "n = (case m of UP \<Rightarrow> \<lceil>a\<rceil> | HALF_UP \<Rightarrow> if a - of_int \<lfloor>a\<rfloor> \<ge> 1/2 then \<lfloor>a\<rfloor> + 1 else \<lfloor>a\<rfloor>
      | HALF_EVEN \<Rightarrow> if a - of_int \<lfloor>a\<rfloor> > 1/2 \<or> (a - of_int \<lfloor>a\<rfloor> = 1/2 \<and> odd \<lfloor>a\<rfloor>) then \<lfloor>a\<rfloor> + 1 else \<lfloor>a\<rfloor>
      | _ \<Rightarrow> \<lfloor>a\<rfloor>)"
  have r: "round_spec m x = (if x < 0 then - n else n)"
    unfolding round_spec_def Let_def n_def a_def by simp
  have a0: "0 \<le> \<lfloor>a\<rfloor>" and ak: "a \<le> of_int k" using assms(1) by (simp_all add: a_def)
  have up: "\<lfloor>a\<rfloor> + 1 \<le> k" if "1/2 \<le> a - of_int \<lfloor>a\<rfloor>"
  proof -
    have "(of_int \<lfloor>a\<rfloor> :: rat) < of_int k" using that ak by linarith
    then show ?thesis by simp
  qed
  have fl: "\<lfloor>a\<rfloor> \<le> k" and ce: "\<lceil>a\<rceil> \<le> k" "0 \<le> \<lceil>a\<rceil>" using ak a0 by (simp_all add: floor_le_iff ceiling_le_iff a_def)
  have n: "0 \<le> n" "n \<le> k"
    using a0 fl ce up assms(2) by (auto simp: n_def ROUNDING_MODES_def)
  show "\<bar>round_spec m x\<bar> \<le> k" using n by (simp add: r)
  show "0 \<le> of_int (round_spec m x) * x" using n by (simp add: r mult_nonneg_nonpos)
qed

lemma abs_mult_fraction_le: "0 \<le> f \<Longrightarrow> f \<le> 1 \<Longrightarrow> \<bar>u * f\<bar> \<le> \<bar>u :: rat\<bar>"
  using mult_left_mono [of f 1 "\<bar>u\<bar>"] by (simp add: abs_mult)

lemma fromInteger_day: "\<bar>n\<bar> \<le> 9007199254740991 \<Longrightarrow> fromIntegerNumber (Num n) = Inr \<lparr>units = n, dscale = 0\<rparr>"
  by (simp add: fromIntegerNumber_def mkDecimal_eq)

lemma money_ofDecimal_settled:
  assumes "wf_money m" "wf_decimal d" "dscale d = minorUnits (mcurrency m)"
  shows "money_ofDecimal d (ccode (mcurrency m)) = Inr \<lparr>amount = d, mcurrency = mcurrency m\<rparr>"
  using assms by (simp add: money_ofDecimal_def wf_money_def dec_rescale_def assertScale_cases unitsAt_def mkDecimal_eq wf_decimal_def)

lemma round_fraction_sign:
  assumes f: "0 \<le> f" and mode: "mode \<in> set ROUNDING_MODES"
  shows "0 \<le> round_spec mode (of_int M * f :: rat) * M"
proof (cases "f = 0")
  case True then show ?thesis by (simp add: round_spec_0)
next
  case False
  obtain K :: int where "\<bar>of_int M * f\<bar> \<le> of_int K" using ex_le_of_int by blast
  from round_spec_within(2) [OF this mode] have "0 \<le> (of_int (round_spec mode (of_int M * f)) :: rat) * of_int M"
    using f False by (metis mult.assoc mult.commute zero_le_mult_iff not_le order_le_less)
  then show ?thesis by (simp only: of_int_0_le_iff flip: of_int_mult)
qed

text \<open>C39: ACTUAL_DAYS proration. For a used interval within a non-empty period of accepted dates, a
  known rounding mode and an amount whose product with the used days has at most 38 digits, the
  proration returns, in the same currency, the exact value amount * used / period rounded once to the
  minor unit; the result has the amount's sign, never exceeds it in magnitude, and is the amount
  itself when the whole period is used.\<close>

theorem prorate_correct:
  assumes "wf_money m" "mode \<in> set ROUNDING_MODES"
    and days: "dayNumber (pstart per) = Inr ps" "dayNumber (pend per) = Inr pe"
      "dayNumber (pstart used) = Inr us" "dayNumber (pend used) = Inr ue"
    and order: "ps \<le> us" "us \<le> ue" "ue \<le> pe" "ps < pe"
    and fits: "\<bar>money_minorUnits m * (ue - us)\<bar> < 10 ^ 38" "pe - ps \<le> 9007199254740991"
  shows "\<exists>r. prorateActualDays m used per mode = Inr r \<and> wf_money r \<and> mcurrency r = mcurrency m \<and>
    money_minorUnits r = round_spec mode (of_int (money_minorUnits m) * of_int (ue - us) / of_int (pe - ps)) \<and>
    \<bar>money_minorUnits r\<bar> \<le> \<bar>money_minorUnits m\<bar> \<and> 0 \<le> money_minorUnits r * money_minorUnits m \<and>
    (us = ps \<and> ue = pe \<longrightarrow> r = m)"
proof -
  define x :: rat where "x = of_int (money_minorUnits m) * of_int (ue - us) / of_int (pe - ps)"
  define n where "n = round_spec mode x"
  define k where "k = minorUnits (mcurrency m)"
  have k: "dscale (amount m) = k" "k \<le> 3" using assms(1) currency_minorUnits by (auto simp: wf_money_def k_def)
  have pos: "0 < (of_int (pe - ps) :: rat)" using order by simp
  have frac: "0 \<le> (of_int (ue - us) / of_int (pe - ps) :: rat)" "(of_int (ue - us) / of_int (pe - ps) :: rat) \<le> 1"
    using order by (simp_all add: divide_le_eq_1_pos)
  have xf: "x = of_int (money_minorUnits m) * (of_int (ue - us) / of_int (pe - ps))" by (simp add: x_def)
  have "\<bar>x\<bar> \<le> of_int \<bar>money_minorUnits m\<bar>"
    unfolding xf of_int_abs using frac by (rule abs_mult_fraction_le)
  note within = round_spec_within [OF this assms(2), folded n_def]
  have small: "\<bar>n\<bar> < 10 ^ 38" using within(1) assms(1) by (simp add: wf_money_def wf_decimal_def money_minorUnits_def)
  let ?e = "\<lparr>units = money_minorUnits m * (ue - us), dscale = k\<rparr>"
  have mult: "dec_multiply (amount m) \<lparr>units = ue - us, dscale = 0\<rparr> None = Inr ?e"
    using fits k by (simp add: dec_multiply_def money_minorUnits_def mkDecimal_eq MAX_SCALE_def)
  have rq: "roundedQuotient (money_minorUnits m * (ue - us) * 10 ^ k) ((pe - ps) * 10 ^ k) mode = n"
  proof -
    have "(of_int (money_minorUnits m * (ue - us) * 10 ^ k) / of_int ((pe - ps) * 10 ^ k) :: rat) = x" by (simp add: x_def)
    then show ?thesis using order roundedQuotient_round_spec [OF _ assms(2)] by (simp add: n_def)
  qed
  have div: "dec_divide ?e \<lparr>units = pe - ps, dscale = 0\<rparr> (int k, mode) = Inr \<lparr>units = n, dscale = k\<rparr>"
    using order assms(2) k small by (simp add: dec_divide_def assertScale_cases assertMode_cases rq mkDecimal_eq)
  let ?r = "\<lparr>amount = \<lparr>units = n, dscale = k\<rparr>, mcurrency = mcurrency m\<rparr>"
  have "money_ofDecimal \<lparr>units = n, dscale = k\<rparr> (ccode (mcurrency m)) = Inr ?r"
    using small k by (intro money_ofDecimal_settled [OF assms(1)]) (simp_all add: wf_decimal_def k_def)
  then have res: "prorateActualDays m used per mode = Inr ?r"
    using days order fits mult div by (simp add: prorateActualDays_def daysBetween_def fromInteger_day k_def)
  have "wf_money ?r" using assms(1) small k by (simp add: wf_money_def wf_decimal_def k_def)
  moreover have "0 \<le> n * money_minorUnits m" unfolding n_def xf using frac(1) assms(2) by (rule round_fraction_sign)
  moreover have "us = ps \<and> ue = pe \<longrightarrow> ?r = m"
  proof
    assume "us = ps \<and> ue = pe"
    then have "n = money_minorUnits m" using pos by (simp add: n_def x_def)
    then show "?r = m" using k(1) by (simp add: money_minorUnits_def)
  qed
  ultimately show ?thesis using res within(1) by (auto simp: money_minorUnits_def n_def x_def)
qed

theorem prorate_correct_witness:
  "\<exists>r. prorateActualDays (usd 2900) \<lparr>pstart = ''2024-02-15'', pend = ''2024-03-01''\<rparr>
        \<lparr>pstart = ''2024-02-01'', pend = ''2024-03-01''\<rparr> HALF_UP = Inr r \<and> money_minorUnits r = 1500"
  using prorate_correct [of "usd 2900" HALF_UP "\<lparr>pstart = ''2024-02-01'', pend = ''2024-03-01''\<rparr>" 19754 19783
      "\<lparr>pstart = ''2024-02-15'', pend = ''2024-03-01''\<rparr>" 19768 19783] wf_usd [of 2900]
    round_spec_int [of HALF_UP 1500]
  by (auto simp: eval_dayNumber ROUNDING_MODES_def money_minorUnits_def usd_def)

end
