(* ===== verification/Iso_Time.thy ===== *)
theory Iso_Time
  imports Proration
begin

text \<open>
  The text \<open>Date.prototype.toISOString\<close> prints for an instant, from the language definition: civil fields
  of the day (with the calendar functions of \<open>Proration\<close>) and of the time within the day, at fixed
  widths. Stored documents, audit evidence and responses carry this text. Different instants have
  different texts.
\<close>

fun decN :: "nat \<Rightarrow> nat \<Rightarrow> string" where
  "decN 0 v = []"
| "decN (Suc n) v = decN n (v div 10) @ [digit_char (v mod 10)]"

definition iso_year :: "int \<Rightarrow> string" where
  "iso_year y = (if 0 \<le> y \<and> y \<le> 9999 then decN 4 (nat y)
                 else (if y < 0 then ''-'' else ''+'') @ decN 6 (nat \<bar>y\<bar>))"

definition msPerDay :: int where "msPerDay = 86400000"

definition iso_text :: "instant \<Rightarrow> string" where
  "iso_text t =
     (let n = t div msPerDay; ms = nat (t mod msPerDay) in
      iso_year (yearFromDay n) @ ''-'' @ decN 2 (nat (monthFromDay n + 1)) @ ''-'' @ decN 2 (nat (dateFromDay n)) @ ''T'' @
      decN 2 (ms div 3600000) @ '':'' @ decN 2 (ms div 60000 mod 60) @ '':'' @ decN 2 (ms div 1000 mod 60) @ ''.'' @
      decN 3 (ms mod 1000) @ ''Z'')"

text \<open>The instants a \<open>Date\<close> can hold.\<close>

definition valid_instant :: "instant \<Rightarrow> bool" where
  "valid_instant t \<longleftrightarrow> \<bar>t\<bar> \<le> 8640000000000000"

lemma length_decN [simp]: "length (decN n v) = n"
  by (induction n arbitrary: v) simp_all

lemma digit_char_inj_mod: "digit_char (a mod 10) = digit_char (b mod 10) \<Longrightarrow> a mod 10 = b mod 10"
  by (metis digit_val_digit_char mod_less_divisor zero_less_numeral)

lemma decN_inj: "decN n v = decN n w \<Longrightarrow> v < 10 ^ n \<Longrightarrow> w < 10 ^ n \<Longrightarrow> v = w"
proof (induction n arbitrary: v w)
  case (Suc n)
  from Suc.prems have "decN n (v div 10) = decN n (w div 10)" "v mod 10 = w mod 10"
    using digit_char_inj_mod by auto
  moreover have "v div 10 < 10 ^ n" "w div 10 < 10 ^ n" using Suc.prems by (simp_all add: less_mult_imp_div_less mult.commute)
  ultimately show ?case using Suc.IH [of "v div 10" "w div 10"] by (metis div_mult_mod_eq)
qed simp

lemma day_decompose: "n = dayFromYear (yearFromDay n) + monthStarts (inLeapYear (yearFromDay n)) ! nat (monthFromDay n) + dateFromDay n - 1"
  by (simp add: dateFromDay_def dayWithinYear_def)

lemma year_bound:
  assumes "\<bar>n\<bar> \<le> 100000001" shows "\<bar>yearFromDay n\<bar> < 1000000"
proof -
  have "\<bar>400 * n div 146097\<bar> \<le> 300000" using assms by linarith
  then show ?thesis by (auto simp: yearFromDay_def Let_def)
qed

lemma iso_year_inj:
  assumes "iso_year y = iso_year z" "\<bar>y\<bar> < 1000000" "\<bar>z\<bar> < 1000000" shows "y = z"
proof -
  have len: "length (iso_year x) = (if 0 \<le> x \<and> x \<le> 9999 then 4 else 7)" for x by (simp add: iso_year_def)
  have same: "(0 \<le> y \<and> y \<le> 9999) = (0 \<le> z \<and> z \<le> 9999)"
    using arg_cong [OF assms(1), of length] unfolding len by (auto split: if_splits)
  show ?thesis
  proof (cases "0 \<le> y \<and> y \<le> 9999")
    case True
    with assms(1) same have "decN 4 (nat y) = decN 4 (nat z)" by (simp add: iso_year_def)
    then have "nat y = nat z" by (rule decN_inj) (use True same in auto)
    then show ?thesis using True same by linarith
  next
    case False
    then have "(y < 0) = (z < 0)" "decN 6 (nat \<bar>y\<bar>) = decN 6 (nat \<bar>z\<bar>)"
      using assms(1) same by (auto simp: iso_year_def split: if_splits)
    moreover have "nat \<bar>y\<bar> < 10 ^ 6" "nat \<bar>z\<bar> < 10 ^ 6" using assms(2,3) by simp_all
    ultimately have "nat \<bar>y\<bar> = nat \<bar>z\<bar>" using decN_inj by blast
    with \<open>(y < 0) = (z < 0)\<close> show ?thesis by linarith
  qed
qed

text \<open>The instant is determined by the fields the text prints.\<close>

lemma ms_fields:
  fixes a b :: nat
  assumes "a div 3600000 = b div 3600000" "a div 60000 mod 60 = b div 60000 mod 60"
    "a div 1000 mod 60 = b div 1000 mod 60" "a mod 1000 = b mod 1000"
  shows "a = b"
proof -
  have h: "x div 60000 div 60 = x div 3600000" "x div 1000 div 60 = x div 60000" for x :: nat
    by (simp_all flip: div_mult2_eq)
  have "a div 60000 = b div 60000" using h(1) [of a] h(1) [of b] assms(1,2) by (metis div_mult_mod_eq)
  then have "a div 1000 = b div 1000" using h(2) [of a] h(2) [of b] assms(3) by (metis div_mult_mod_eq)
  then show ?thesis using assms(4) by (metis div_mult_mod_eq)
qed

lemma iso_text_inj:
  assumes "valid_instant s" "valid_instant t" "iso_text s = iso_text t" shows "s = t"
proof -
  define n m where "n = s div msPerDay" and "m = t div msPerDay"
  define a b where "a = nat (s mod msPerDay)" and "b = nat (t mod msPerDay)"
  have ab: "a < 86400000" "b < 86400000" unfolding a_def b_def msPerDay_def by linarith+
  have nm: "\<bar>n\<bar> \<le> 100000001" "\<bar>m\<bar> \<le> 100000001"
    using assms(1,2) unfolding n_def m_def valid_instant_def msPerDay_def by linarith+
  have texts: "iso_year (yearFromDay n) @ ''-'' @ decN 2 (nat (monthFromDay n + 1)) @ ''-'' @ decN 2 (nat (dateFromDay n)) @ ''T'' @
      decN 2 (a div 3600000) @ '':'' @ decN 2 (a div 60000 mod 60) @ '':'' @ decN 2 (a div 1000 mod 60) @ ''.'' @ decN 3 (a mod 1000) @ ''Z'' =
      iso_year (yearFromDay m) @ ''-'' @ decN 2 (nat (monthFromDay m + 1)) @ ''-'' @ decN 2 (nat (dateFromDay m)) @ ''T'' @
      decN 2 (b div 3600000) @ '':'' @ decN 2 (b div 60000 mod 60) @ '':'' @ decN 2 (b div 1000 mod 60) @ ''.'' @ decN 3 (b mod 1000) @ ''Z''"
    using assms(3) by (simp add: iso_text_def Let_def n_def m_def a_def b_def)
  have len: "length (iso_year (yearFromDay n)) = length (iso_year (yearFromDay m))"
    using arg_cong [OF texts, of length] by simp
  have parts: "iso_year (yearFromDay n) = iso_year (yearFromDay m)" "decN 2 (nat (monthFromDay n + 1)) = decN 2 (nat (monthFromDay m + 1))"
    "decN 2 (nat (dateFromDay n)) = decN 2 (nat (dateFromDay m))" "decN 2 (a div 3600000) = decN 2 (b div 3600000)"
    "decN 2 (a div 60000 mod 60) = decN 2 (b div 60000 mod 60)" "decN 2 (a div 1000 mod 60) = decN 2 (b div 1000 mod 60)"
    "decN 3 (a mod 1000) = decN 3 (b mod 1000)"
    using texts len by simp_all
  have y: "yearFromDay n = yearFromDay m" using iso_year_inj [OF parts(1)] year_bound nm by blast
  have mon: "1 \<le> monthFromDay k + 1" "monthFromDay k + 1 \<le> 12" "1 \<le> dateFromDay k" "dateFromDay k \<le> 31" for k
    using decompose_valid [of k] by (auto simp: civil_valid_def daysInMonth_def split: if_splits)
  have "nat (monthFromDay n + 1) = nat (monthFromDay m + 1)" "nat (dateFromDay n) = nat (dateFromDay m)"
    using mon [of n] mon [of m] by (auto intro!: decN_inj [OF parts(2)] decN_inj [OF parts(3)])
  then have "monthFromDay n = monthFromDay m" "dateFromDay n = dateFromDay m" using mon(1,3) [of n] mon(1,3) [of m] by linarith+
  then have "n = m" using day_decompose [of n] day_decompose [of m] y by simp
  moreover have "a = b"
  proof (rule ms_fields)
    show "a div 3600000 = b div 3600000" by (rule decN_inj [OF parts(4)]) (use ab in \<open>simp_all add: less_mult_imp_div_less\<close>)
    show "a div 60000 mod 60 = b div 60000 mod 60" by (rule decN_inj [OF parts(5)]) (simp_all add: order.strict_trans2 [OF mod_less_divisor])
    show "a div 1000 mod 60 = b div 1000 mod 60" by (rule decN_inj [OF parts(6)]) (simp_all add: order.strict_trans2 [OF mod_less_divisor])
    show "a mod 1000 = b mod 1000" by (rule decN_inj [OF parts(7)]) simp_all
  qed
  then have "s mod msPerDay = t mod msPerDay" unfolding a_def b_def msPerDay_def by (simp add: eq_nat_nat_iff)
  ultimately show ?thesis unfolding n_def m_def by (metis div_mult_mod_eq)
qed

end
