(* ===== verification/Uuid7.thy ===== *)
theory Uuid7
  imports Prelude "HOL-Library.Word"
begin

unbundle bit_operations_syntax

text \<open>
  \<open>platform/id/src/uuid7.ts\<close>: time-ordered identifiers. Bytes are 8-bit words, as in the source's
  \<open>Uint8Array\<close>; the millisecond timestamp is masked to 48 bits. The clock reading and the random bytes
  are arguments. The lemmas show that a generated identifier is well formed, that its timestamp is read
  back exactly (modulo the documented wrap at 48 bits) whatever the random bytes are, and that
  identifiers of different milliseconds sort by time as strings.
\<close>

section \<open>Model\<close>

type_synonym byte = "8 word"

definition hex :: "byte \<Rightarrow> string" where
  "hex b = [lower_hex (unat b div 16), lower_hex (unat b mod 16)]"

definition uuid_bytes :: "nat \<Rightarrow> byte list \<Rightarrow> byte list" where
  "uuid_bytes timestamp random =
     (let bytes = map (\<lambda>k. word_of_nat (drop_bit k timestamp)) [40, 32, 24, 16, 8, 0] @ random
      in bytes[6 := ((bytes ! 6) AND 0x0f) OR 0x70, 8 := ((bytes ! 8) AND 0x3f) OR 0x80])"

definition uuid_text :: "string \<Rightarrow> string" where
  "uuid_text t = take 8 t @ ''-'' @ take 4 (drop 8 t) @ ''-'' @ take 4 (drop 12 t) @ ''-'' @ take 4 (drop 16 t) @ ''-'' @ drop 20 t"

definition generateUuidV7 :: "date \<Rightarrow> byte list \<Rightarrow> string res" where
  "generateUuidV7 clock random =
     (case clock of None \<Rightarrow> Inl RangeError
      | Some ms \<Rightarrow>
          if ms < 0 then reject invalid_timestamp
          else if length random \<noteq> 10 then reject calculation_rejected
          else Inr (uuid_text (concat (map hex (uuid_bytes (take_bit 48 (nat ms)) random)))))"

definition isUuidV7 :: "string \<Rightarrow> bool" where
  "isUuidV7 s \<longleftrightarrow> length s = 36 \<and>
     list_all (\<lambda>i. if i \<in> {8, 13, 18, 23} then s ! i = CHR ''-''
                   else if i = 14 then s ! i = CHR ''7''
                   else if i = 19 then s ! i \<in> set ''89ab''
                   else is_lower_hex (s ! i)) [0..<36]"

text \<open>\<open>BigInt(`0x...`)\<close> on lower-case hexadecimal digits.\<close>

definition hex_digit_value :: "char \<Rightarrow> nat" where
  "hex_digit_value c = (if is_digit c then of_char c - 48 else of_char c - 87)"

definition hex_value :: "string \<Rightarrow> nat" where
  "hex_value s = foldl (\<lambda>a c. 16 * a + hex_digit_value c) 0 s"

definition timestampOfUuidV7 :: "string \<Rightarrow> date res" where
  "timestampOfUuidV7 s =
     (if \<not> isUuidV7 s then reject invalid_decimal
      else Inr (mkDate (int (hex_value (take 12 (filter (\<lambda>c. c \<noteq> CHR ''-'') s))))))"

section \<open>Fixed-width hexadecimal numerals\<close>

fun hexN :: "nat \<Rightarrow> nat \<Rightarrow> string" where
  "hexN 0 v = []"
| "hexN (Suc n) v = hexN n (v div 16) @ [lower_hex (v mod 16)]"

lemma length_hexN [simp]: "length (hexN n v) = n"
  by (induction n arbitrary: v) simp_all

lemma lower_hex_less: "a < b \<Longrightarrow> b < 16 \<Longrightarrow> lower_hex a < lower_hex b"
  by (simp add: less_char_def hex_lower)

lemma is_lower_hex_lower_hex: "d < 16 \<Longrightarrow> is_lower_hex (lower_hex d)"
  by (simp add: is_lower_hex_def is_digit_def less_eq_char_def hex_lower)

lemma lower_hex_not_dash: "d < 16 \<Longrightarrow> lower_hex d \<noteq> CHR ''-''"
  using is_lower_hex_lower_hex [of d] by (auto simp: is_lower_hex_def is_digit_def less_eq_char_def)

lemma hex_digit_value_lower_hex: "d < 16 \<Longrightarrow> hex_digit_value (lower_hex d) = d"
  by (simp add: hex_digit_value_def is_digit_def less_eq_char_def hex_lower)

lemma less_append_same_length:
  fixes xs ys :: "'a::linorder list"
  shows "length xs = length ys \<Longrightarrow> xs < ys \<Longrightarrow> xs @ us < ys @ vs"
  by (induction xs ys rule: list_induct2) auto

lemma append_less_iff:
  fixes xs us vs :: "'a::linorder list"
  shows "xs @ us < xs @ vs \<longleftrightarrow> us < vs"
  by (induction xs) auto

lemma hexN_less: "v < w \<Longrightarrow> w < 16 ^ n \<Longrightarrow> hexN n v < hexN n w"
proof (induction n arbitrary: v w)
  case (Suc n)
  show ?case
  proof (cases "v div 16 < w div 16")
    case True
    have "w div 16 < 16 ^ n" using Suc.prems(2) by (simp add: less_mult_imp_div_less mult.commute)
    from Suc.IH [OF True this] show ?thesis by (simp add: less_append_same_length)
  next
    case False
    then have eq: "v div 16 = w div 16" using Suc.prems(1) div_le_mono [of v w 16] by linarith
    then have "v mod 16 < w mod 16" using Suc.prems(1) by (metis div_mult_mod_eq nat_add_left_cancel_less)
    then show ?thesis using eq by (simp add: append_less_iff lower_hex_less)
  qed
qed simp

lemma hexN_mod: "hexN n (v mod 16 ^ n) = hexN n v"
proof (induction n arbitrary: v)
  case (Suc n)
  have "v mod 16 ^ Suc n div 16 = v div 16 mod 16 ^ n" "v mod 16 ^ Suc n mod 16 = v mod 16"
    by (simp_all add: mod_mult2_eq)
  then show ?case using Suc [of "v div 16"] by simp
qed simp

lemma hexN_add: "hexN (m + n) v = hexN m (v div 16 ^ n) @ hexN n v"
  by (induction n arbitrary: v) (simp_all add: div_mult2_eq)

lemma hex_value_hexN: "hex_value (hexN n v) = v mod 16 ^ n"
  by (induction n arbitrary: v)
    (simp_all add: hex_value_def hex_digit_value_lower_hex mod_mult2_eq)

lemma hexN_no_dash: "filter (\<lambda>c. c \<noteq> CHR ''-'') (hexN n v) = hexN n v"
  by (induction n arbitrary: v) (simp_all add: lower_hex_not_dash)

lemma hex_word: "hex (word_of_nat n) = hexN 2 n"
proof -
  have "hex (word_of_nat n) = hexN 2 (n mod 16 ^ 2)"
    by (simp add: hex_def numeral_2_eq_2 unat_of_nat)
  then show ?thesis by (simp only: hexN_mod)
qed

lemma hexN_8_4:
  "hexN 2 (drop_bit 40 t) @ hexN 2 (drop_bit 32 t) @ hexN 2 (drop_bit 24 t) @ hexN 2 (drop_bit 16 t) = hexN 8 (t div 2 ^ 16)"
  "hexN 2 (drop_bit 8 t) @ hexN 2 t = hexN 4 t"
proof -
  have "hexN 8 u = hexN 2 (u div 16 ^ 6) @ hexN 2 (u div 16 ^ 4) @ hexN 2 (u div 16 ^ 2) @ hexN 2 u" for u
    using hexN_add [of 2 6 u] hexN_add [of 2 4 u] hexN_add [of 2 2 u] by simp
  moreover have "t div 2 ^ 16 div 16 ^ 6 = drop_bit 40 t" "t div 2 ^ 16 div 16 ^ 4 = drop_bit 32 t"
      "t div 2 ^ 16 div 16 ^ 2 = drop_bit 24 t" "t div 2 ^ 16 = drop_bit 16 t"
    unfolding drop_bit_eq_div div_mult2_eq [symmetric] by simp_all
  ultimately show "hexN 2 (drop_bit 40 t) @ hexN 2 (drop_bit 32 t) @ hexN 2 (drop_bit 24 t) @ hexN 2 (drop_bit 16 t) = hexN 8 (t div 2 ^ 16)"
    by metis
  show "hexN 2 (drop_bit 8 t) @ hexN 2 t = hexN 4 t"
    using hexN_add [of 2 2 t] by (simp add: drop_bit_eq_div)
qed

section \<open>Generated identifiers\<close>

lemma uuid_bytes_text:
  assumes "length random = 10"
  shows "uuid_text (concat (map hex (uuid_bytes t random))) =
       hexN 8 (t div 2 ^ 16) @ ''-'' @ hexN 4 t @ ''-'' @ hex ((random ! 0 AND 0x0f) OR 0x70) @ hex (random ! 1) @ ''-'' @
       hex ((random ! 2 AND 0x3f) OR 0x80) @ hex (random ! 3) @ ''-'' @
       hex (random ! 4) @ hex (random ! 5) @ hex (random ! 6) @ hex (random ! 7) @ hex (random ! 8) @ hex (random ! 9)"
proof -
  obtain r0 r1 r2 r3 r4 r5 r6 r7 r8 r9 where r: "random = [r0, r1, r2, r3, r4, r5, r6, r7, r8, r9]"
    using assms by (auto simp: length_Suc_conv eval_nat_numeral)
  have "concat (map hex (uuid_bytes t random)) =
     (hexN 8 (t div 2 ^ 16) @ hexN 4 t) @ hex ((r0 AND 0x0f) OR 0x70) @ hex r1 @ hex ((r2 AND 0x3f) OR 0x80) @ hex r3 @ hex r4 @
     hex r5 @ hex r6 @ hex r7 @ hex r8 @ hex r9"
    unfolding hexN_8_4 [symmetric] by (simp add: r uuid_bytes_def hex_word)
  then show ?thesis by (simp add: uuid_text_def r) (simp add: hex_def)
qed

lemma hex_hi_version: "unat ((b AND 0x0f) OR 0x70 :: byte) div 16 = 7"
proof -
  have "unat ((b AND 0x0f) OR 0x70 :: byte) div 16 = unat (drop_bit 4 ((b AND 0x0f) OR 0x70 :: byte))"
    by (simp add: drop_bit_eq_div unat_div)
  also have "drop_bit 4 ((b AND 0x0f) OR 0x70 :: byte) = 7" by simp
  finally show ?thesis by simp
qed

lemma hex_hi_variant: "unat ((b AND 0x3f) OR 0x80 :: byte) div 16 \<in> {8, 9, 10, 11}"
proof -
  have "unat ((b AND 0x3f) OR 0x80 :: byte) div 16 = unat (drop_bit 4 ((b AND 0x3f) OR 0x80 :: byte))"
    by (simp add: drop_bit_eq_div unat_div)
  also have "drop_bit 4 ((b AND 0x3f) OR 0x80 :: byte) = (drop_bit 4 b AND 3) OR 8" by simp
  also have "\<dots> = take_bit 2 (drop_bit 4 b) OR 8" by (simp add: take_bit_eq_mask mask_eq_exp_minus_1)
  also have "unat \<dots> = take_bit 2 (unat (drop_bit 4 b)) OR 8" by (simp add: unsigned_or_eq unsigned_take_bit_eq)
  finally have "unat ((b AND 0x3f) OR 0x80 :: byte) div 16 = take_bit 2 (unat (drop_bit 4 b)) OR 8" .
  moreover have "take_bit 2 (unat (drop_bit 4 b)) \<in> {0, 1, 2, 3}"
    using take_bit_nat_less_exp [of 2 "unat (drop_bit 4 b)"] by auto
  ultimately show ?thesis by auto
qed

lemma is_hexN: "i < n \<Longrightarrow> is_lower_hex (hexN n v ! i)"
  by (induction n arbitrary: v) (auto simp: nth_append is_lower_hex_lower_hex less_Suc_eq)

lemma is_hex: "i < 2 \<Longrightarrow> is_lower_hex (hex b ! i)"
proof -
  have "unat b < 256" using unsigned_less [of b] by simp
  then show "i < 2 \<Longrightarrow> is_lower_hex (hex b ! i)"
    by (auto simp: hex_def less_Suc_eq numeral_2_eq_2 is_lower_hex_lower_hex less_mult_imp_div_less)
qed

lemma length_hex [simp]: "length (hex b) = 2"
  by (simp add: hex_def)

text \<open>The shape of an identifier, read from its five groups.\<close>

lemma isUuidV7_groups:
  assumes "length a = 8" "length b = 4" "length c = 3" "length d = 3" "length e = 12"
    "list_all is_lower_hex (a @ b @ c @ d @ e)" "x \<in> set ''89ab''"
  shows "isUuidV7 (a @ ''-'' @ b @ ''-7'' @ c @ ''-'' @ [x] @ d @ ''-'' @ e)"
proof -
  let ?s = "a @ ''-'' @ b @ ''-7'' @ c @ ''-'' @ [x] @ d @ ''-'' @ e"
  obtain a0 a1 a2 a3 a4 a5 a6 a7 where a: "a = [a0, a1, a2, a3, a4, a5, a6, a7]"
    using assms(1) by (auto simp: length_Suc_conv eval_nat_numeral)
  obtain b0 b1 b2 b3 where b: "b = [b0, b1, b2, b3]" using assms(2) by (auto simp: length_Suc_conv eval_nat_numeral)
  obtain c0 c1 c2 where c: "c = [c0, c1, c2]" using assms(3) by (auto simp: length_Suc_conv eval_nat_numeral)
  obtain d0 d1 d2 where d: "d = [d0, d1, d2]" using assms(4) by (auto simp: length_Suc_conv eval_nat_numeral)
  obtain e0 e1 e2 e3 e4 e5 e6 e7 e8 e9 e10 e11 where e: "e = [e0, e1, e2, e3, e4, e5, e6, e7, e8, e9, e10, e11]"
    using assms(5) by (auto simp: length_Suc_conv eval_nat_numeral)
  show ?thesis
    using assms(6,7) unfolding a b c d e isUuidV7_def by (simp add: upt_rec)
qed

lemma list_all_hex: "list_all is_lower_hex (hex b)"
  by (simp add: list_all_length is_hex)

lemma list_all_hexN: "list_all is_lower_hex (hexN n v)"
  by (simp add: list_all_length is_hexN)

lemma hex_version: "hex ((b AND 0x0f) OR 0x70) = CHR ''7'' # [hex ((b AND 0x0f) OR 0x70) ! 1]"
  unfolding hex_def hex_hi_version by (simp add: lower_hex_def) (simp add: char_of_eq_iff take_bit_eq_mod)

lemma hex_variant: "\<exists>x\<in>set ''89ab''. hex ((b AND 0x3f) OR 0x80) = x # [hex ((b AND 0x3f) OR 0x80) ! 1]"
proof -
  have "lower_hex (unat ((b AND 0x3f) OR 0x80 :: byte) div 16) \<in> set ''89ab''"
    using hex_hi_variant [of b] by (auto simp: lower_hex_def char_of_eq_iff take_bit_eq_mod)
  then show ?thesis unfolding hex_def by auto
qed

lemma generated_isUuidV7:
  assumes "length random = 10"
  shows "isUuidV7 (uuid_text (concat (map hex (uuid_bytes t random))))"
proof -
  obtain x where x: "x \<in> set ''89ab''" "hex ((random ! 2 AND 0x3f) OR 0x80) = x # [hex ((random ! 2 AND 0x3f) OR 0x80) ! 1]"
    using hex_variant by blast
  let ?v = "hex ((random ! 0 AND 0x0f) OR 0x70) ! 1" and ?w = "hex ((random ! 2 AND 0x3f) OR 0x80) ! 1"
  have "isUuidV7 (hexN 8 (t div 2 ^ 16) @ ''-'' @ hexN 4 t @ ''-7'' @ (?v # hex (random ! 1)) @ ''-'' @ [x] @ (?w # hex (random ! 3)) @ ''-'' @
      (hex (random ! 4) @ hex (random ! 5) @ hex (random ! 6) @ hex (random ! 7) @ hex (random ! 8) @ hex (random ! 9)))"
    by (rule isUuidV7_groups) (simp_all add: list_all_hexN list_all_hex is_hex x(1) [simplified])
  then show ?thesis
    unfolding uuid_bytes_text [OF assms] by (subst hex_version, subst x(2)) simp
qed

lemma generated_timestamp:
  assumes "length random = 10" "t < 2 ^ 48"
  shows "hex_value (take 12 (filter (\<lambda>c. c \<noteq> CHR ''-'') (uuid_text (concat (map hex (uuid_bytes t random)))))) = t"
proof -
  have "take 12 (filter (\<lambda>c. c \<noteq> CHR ''-'') (uuid_text (concat (map hex (uuid_bytes t random))))) = hexN 8 (t div 2 ^ 16) @ hexN 4 t"
    unfolding uuid_bytes_text [OF assms(1)] by (simp add: hexN_no_dash)
  also have "\<dots> = hexN 12 t" using hexN_add [of 8 4 t] by simp
  finally show ?thesis using assms(2) by (simp add: hex_value_hexN)
qed

lemma generated_less:
  assumes "length random = 10" "length random' = 10" "t < t'" "t' < 2 ^ 48"
  shows "uuid_text (concat (map hex (uuid_bytes t random))) < uuid_text (concat (map hex (uuid_bytes t' random')))"
proof (cases "t div 2 ^ 16 = t' div 2 ^ 16")
  case True
  then have "t mod 2 ^ 16 < t' mod 2 ^ 16" using assms(3) by (metis div_mult_mod_eq nat_add_left_cancel_less)
  then have "hexN 4 (t mod 16 ^ 4) < hexN 4 (t' mod 16 ^ 4)" by (intro hexN_less) simp_all
  then have "hexN 4 t < hexN 4 t'" by (simp only: hexN_mod)
  then show ?thesis
    unfolding uuid_bytes_text [OF assms(1)] uuid_bytes_text [OF assms(2)] True
    by (simp add: append_less_iff less_append_same_length)
next
  case False
  then have "t div 2 ^ 16 < t' div 2 ^ 16" using assms(3) div_le_mono [of t t' "2 ^ 16"] by linarith
  moreover have "t' div 2 ^ 16 < 16 ^ 8" using assms(4) by (simp add: less_mult_imp_div_less)
  ultimately have "hexN 8 (t div 2 ^ 16) < hexN 8 (t' div 2 ^ 16)" by (rule hexN_less)
  then show ?thesis
    unfolding uuid_bytes_text [OF assms(1)] uuid_bytes_text [OF assms(2)] by (simp add: less_append_same_length)
qed

section \<open>Properties\<close>

text \<open>Generation succeeds for every instant from the epoch on with ten random bytes, yields a
  well-formed UUIDv7, and the timestamp read back from it is the instant modulo 2^48 milliseconds,
  whatever the random bytes are.\<close>

theorem uuid7_timestamp_round_trip:
  assumes "0 \<le> ms" "length random = 10"
  shows "\<exists>s. generateUuidV7 (Some ms) random = Inr s \<and> isUuidV7 s \<and> timestampOfUuidV7 s = Inr (Some (ms mod 2 ^ 48))"
proof -
  let ?t = "take_bit 48 (nat ms)"
  have t: "?t < 2 ^ 48" by (rule take_bit_nat_less_exp)
  have "int ?t = ms mod 2 ^ 48" using assms(1) by (simp add: take_bit_eq_mod zmod_int)
  moreover have "\<bar>int ?t\<bar> \<le> 8640000000000000" using t by simp
  ultimately show ?thesis
    using assms generated_isUuidV7 [OF assms(2), of ?t] generated_timestamp [OF assms(2) t]
    by (simp add: generateUuidV7_def timestampOfUuidV7_def mkDate_def)
qed

theorem uuid7_timestamp_round_trip_witness:
  "\<exists>s. generateUuidV7 (Some 1700000000000) (replicate 10 255) = Inr s \<and> isUuidV7 s \<and> timestampOfUuidV7 s = Inr (Some 1700000000000)"
  using uuid7_timestamp_round_trip [of 1700000000000 "replicate 10 255"] by simp

text \<open>Identifiers generated in different milliseconds (before the 48-bit field wraps) sort as strings
  in the order of their instants, whatever the random bytes are.\<close>

theorem uuid7_time_ordered:
  assumes "generateUuidV7 (Some ms) random = Inr s" "generateUuidV7 (Some ms') random' = Inr s'" "ms < ms'" "ms' < 2 ^ 48"
  shows "s < s'"
proof -
  have a: "0 \<le> ms" "length random = 10" "length random' = 10"
    and s: "s = uuid_text (concat (map hex (uuid_bytes (take_bit 48 (nat ms)) random)))"
      "s' = uuid_text (concat (map hex (uuid_bytes (take_bit 48 (nat ms')) random')))"
    using assms(1,2) by (auto simp: generateUuidV7_def split: if_splits)
  have "take_bit 48 (nat ms) = nat ms" "take_bit 48 (nat ms') = nat ms'" "nat ms < nat ms'" "nat ms' < 2 ^ 48"
    using assms(3,4) a(1) by (simp_all add: take_bit_eq_mod nat_less_iff)
  then show ?thesis unfolding s by (simp only: generated_less [OF a(2,3)])
qed

theorem uuid7_time_ordered_witness:
  "\<exists>s s'. generateUuidV7 (Some 1) (replicate 10 255) = Inr s \<and> generateUuidV7 (Some 2) (replicate 10 0) = Inr s' \<and> s < s'"
proof -
  obtain s where s: "generateUuidV7 (Some 1) (replicate 10 255) = Inr s" by (simp add: generateUuidV7_def)
  obtain s' where s': "generateUuidV7 (Some 2) (replicate 10 0) = Inr s'" by (simp add: generateUuidV7_def)
  from uuid7_time_ordered [OF s s'] s s' show ?thesis by simp
qed

end
