(* ===== verification/Tenant_Context.thy ===== *)
theory Tenant_Context
  imports Prelude
begin

text \<open>
  \<open>platform/tenant-context/src\<close>: trusted principals and contexts. The module-level \<open>WeakSet\<close>s remember
  which objects the module itself issued, by object identity, so an object is a reference into a heap
  of frozen contents and a forged literal is an allocated reference that was never issued. The state
  record holds these heaps, the issued references and the ambient slot (\<open>AsyncLocalStorage\<close>);
  operations are transactions over it. \<open>Date.now()\<close> is the argument \<open>now\<close>; the text of an expiry enters
  as the \<open>Date\<close> it parses to.

  The lemmas show that whatever code runs, and whatever objects it forges, every issued context is
  bound to an issued principal: same actor, kind, assurance, credential and scopes, and a tenant of that
  principal's memberships; that nesting never replaces the ambient tenant or actor; and that a payload
  accepted by \<open>assertNoTenantIdentity\<close> holds no tenant key at any depth.
\<close>

section \<open>Principals and contexts\<close>

datatype principal_kind = interactive | workload | other_kind string
datatype assurance_level = single_factor | mfa | workload_assurance | other_assurance string
datatype tenant_state = PROVISIONING | ACTIVE | SUSPENDED | CLOSED

record principal =
  p_actorId :: string
  p_kind :: principal_kind
  p_tenantMemberships :: "string list"
  p_assurance :: assurance_level
  p_credentialId :: string
  p_issuer :: string
  p_audiences :: "string list"
  p_scopes :: "string list"
  p_expiresAt :: instant

record principal_input =
  in_actorId :: string
  in_kind :: principal_kind
  in_tenantMemberships :: "string list"
  in_assurance :: assurance_level
  in_credentialId :: string
  in_issuer :: string
  in_audiences :: "string list"
  in_scopes :: "string list"
  in_expiresAt :: date

record tenant_context =
  tc_tenantId :: string
  tc_actorId :: string
  tc_principalKind :: principal_kind
  tc_correlationId :: string
  tc_causationId :: "string option"
  tc_assurance :: assurance_level
  tc_credentialId :: string
  tc_audiences :: "string list"
  tc_scopes :: "string list"

record platform_context =
  pc_actorId :: string
  pc_principalKind :: principal_kind
  pc_correlationId :: string
  pc_causationId :: "string option"
  pc_assurance :: assurance_level
  pc_credentialId :: string
  pc_audiences :: "string list"
  pc_scopes :: "string list"

type_synonym ref = nat

record trust =
  principals :: "principal list"
  issuedPrincipals :: "ref list"
  contexts :: "tenant_context list"
  issuedContexts :: "ref list"
  platformContexts :: "platform_context list"
  issuedPlatformContexts :: "ref list"
  storage :: "ref option"

definition ctx_requireNonBlank :: "string \<Rightarrow> string res" where
  "ctx_requireNonBlank v = (if length (trim v) = 0 then reject invalid_trusted_context else Inr v)"

definition isNonBlankString :: "string \<Rightarrow> bool" where
  "isNonBlankString v \<longleftrightarrow> length (trim v) > 0"

definition tenantId :: "string \<Rightarrow> string res" where
  "tenantId v = ctx_requireNonBlank v"

definition actorId :: "string \<Rightarrow> string res" where
  "actorId v = ctx_requireNonBlank v"

definition issueAuthenticatedPrincipal :: "principal_input \<Rightarrow> (trust, ref) tx" where
  "issueAuthenticatedPrincipal input st =
     (let kindIsValid = (in_kind input = interactive \<or> in_kind input = workload);
          assuranceIsValid = (in_assurance input = single_factor \<or> in_assurance input = mfa \<or> in_assurance input = workload_assurance);
          assuranceMatchesKind = (if in_kind input = workload then in_assurance input = workload_assurance
                                  else in_assurance input \<noteq> workload_assurance)
      in if \<not> kindIsValid \<or> \<not> assuranceIsValid \<or> \<not> assuranceMatchesKind \<or> \<not> isNonBlankString (in_actorId input) \<or>
            \<not> isNonBlankString (in_credentialId input) \<or> \<not> isNonBlankString (in_issuer input) \<or>
            list_ex (\<lambda>v. \<not> isNonBlankString v) (in_tenantMemberships input) \<or> in_audiences input = [] \<or>
            list_ex (\<lambda>v. \<not> isNonBlankString v) (in_audiences input) \<or> list_ex (\<lambda>v. \<not> isNonBlankString v) (in_scopes input)
         then (reject authentication_failed, st)
         else case in_expiresAt input of
           None \<Rightarrow> (reject authentication_failed, st)
         | Some expiry \<Rightarrow>
             let p = \<lparr>p_actorId = in_actorId input, p_kind = in_kind input,
                       p_tenantMemberships = uniq (in_tenantMemberships input), p_assurance = in_assurance input,
                       p_credentialId = in_credentialId input, p_issuer = in_issuer input,
                       p_audiences = uniq (in_audiences input), p_scopes = uniq (in_scopes input), p_expiresAt = expiry\<rparr>;
                 r = length (principals st)
             in (Inr r, st\<lparr>principals := principals st @ [p], issuedPrincipals := r # issuedPrincipals st\<rparr>))"

definition assertIssuedAuthenticatedPrincipal :: "ref \<Rightarrow> string option \<Rightarrow> (trust, unit) tx" where
  "assertIssuedAuthenticatedPrincipal p correlationId = (\<lambda>st.
     assertT (p \<in> set (issuedPrincipals st)) (Problem authentication_failed correlationId None) st)"

definition assertPrincipalCurrent :: "ref \<Rightarrow> string \<Rightarrow> instant \<Rightarrow> (trust, unit) tx" where
  "assertPrincipalCurrent p correlationId now =
     bindT (assertIssuedAuthenticatedPrincipal p (Some correlationId)) (\<lambda>_ st.
       assertT (p_expiresAt (principals st ! p) > now) (Problem authentication_failed (Some correlationId) None) st)"

definition issue_context :: "tenant_context \<Rightarrow> (trust, ref) tx" where
  "issue_context c st =
     (let r = length (contexts st)
      in (Inr r, st\<lparr>contexts := contexts st @ [c], issuedContexts := r # issuedContexts st\<rparr>))"

record resolve_input =
  ri_principal :: ref
  ri_selectedTenantId :: string
  ri_tenantState :: tenant_state
  ri_correlationId :: string
  ri_causationId :: "string option"
  ri_bodyTenantId :: "string option"

definition resolved_context :: "principal \<Rightarrow> resolve_input \<Rightarrow> string \<Rightarrow> tenant_context" where
  "resolved_context p input correlationId =
     \<lparr>tc_tenantId = ri_selectedTenantId input, tc_actorId = p_actorId p, tc_principalKind = p_kind p,
      tc_correlationId = correlationId, tc_causationId = ri_causationId input, tc_assurance = p_assurance p,
      tc_credentialId = p_credentialId p, tc_audiences = p_audiences p, tc_scopes = p_scopes p\<rparr>"

definition resolveTenantContext :: "resolve_input \<Rightarrow> instant \<Rightarrow> (trust, ref) tx" where
  "resolveTenantContext input now =
     bindT (assertPrincipalCurrent (ri_principal input) (ri_correlationId input) now) (\<lambda>_ st.
       let p = principals st ! ri_principal input; corr = ri_correlationId input in
       if ri_bodyTenantId input \<noteq> None then (reject_for untrusted_tenant_context corr, st)
       else if ri_selectedTenantId input \<notin> set (p_tenantMemberships p) then (reject_for tenant_access_denied corr, st)
       else if ri_tenantState input \<noteq> ACTIVE then (reject_for tenant_not_active corr, st)
       else bindT (liftT (ctx_requireNonBlank corr)) (\<lambda>correlationId.
         issue_context (resolved_context p input correlationId)) st)"

definition assertIssued :: "ref \<Rightarrow> (trust, unit) tx" where
  "assertIssued c = (\<lambda>st. assertT (c \<in> set (issuedContexts st)) (Problem tenant_context_mismatch None None) st)"

definition withCausation :: "ref \<Rightarrow> string \<Rightarrow> (trust, ref) tx" where
  "withCausation c causationId =
     bindT (assertIssued c) (\<lambda>_.
     bindT (liftT (ctx_requireNonBlank causationId)) (\<lambda>cause st.
       issue_context ((contexts st ! c)\<lparr>tc_causationId := Some cause\<rparr>) st))"

text \<open>\<open>Array.prototype.join\<close>.\<close>

fun join :: "string \<Rightarrow> string list \<Rightarrow> string" where
  "join sep [] = ''''"
| "join sep [x] = x"
| "join sep (x # y # ys) = x @ sep @ join sep (y # ys)"

definition NUL :: string where "NUL = [char_of (0::nat)]"

text \<open>\<open>storage.run\<close>: the operation runs with the new ambient context, and the previous one is back
  afterwards, also when it throws.\<close>

definition runWithTenantContext :: "ref \<Rightarrow> (trust, 'a) tx \<Rightarrow> (trust, 'a) tx" where
  "runWithTenantContext c operation =
     bindT (assertIssued c) (\<lambda>_ st.
       let new = contexts st ! c in
       if (case storage st of None \<Rightarrow> False
           | Some a \<Rightarrow> (let active = contexts st ! a in
               tc_tenantId active \<noteq> tc_tenantId new \<or> tc_actorId active \<noteq> tc_actorId new \<or>
               tc_principalKind active \<noteq> tc_principalKind new \<or> tc_assurance active \<noteq> tc_assurance new \<or>
               tc_correlationId active \<noteq> tc_correlationId new \<or> tc_credentialId active \<noteq> tc_credentialId new \<or>
               join NUL (tc_audiences active) \<noteq> join NUL (tc_audiences new) \<or>
               join NUL (tc_scopes active) \<noteq> join NUL (tc_scopes new)))
       then (reject tenant_context_mismatch, st)
       else (let (result, st') = operation (st\<lparr>storage := Some c\<rparr>) in (result, st'\<lparr>storage := storage st\<rparr>)))"

text \<open>The ambient context as command code reads it.\<close>

definition activeTenantContext :: "trust \<Rightarrow> tenant_context option" where
  "activeTenantContext st = map_option (\<lambda>c. contexts st ! c) (storage st)"

definition currentTenantContext :: "tenant_context option \<Rightarrow> tenant_context res" where
  "currentTenantContext ambient = (case ambient of None \<Rightarrow> reject tenant_context_missing | Some c \<Rightarrow> Inr c)"

section \<open>Platform contexts\<close>

definition resolved_platform :: "principal \<Rightarrow> string \<Rightarrow> string \<Rightarrow> string option \<Rightarrow> platform_context" where
  "resolved_platform pr actor correlationId causationId =
     \<lparr>pc_actorId = actor, pc_principalKind = p_kind pr, pc_correlationId = correlationId, pc_causationId = causationId,
      pc_assurance = p_assurance pr, pc_credentialId = p_credentialId pr, pc_audiences = p_audiences pr,
      pc_scopes = p_scopes pr\<rparr>"

definition resolvePlatformCommandContext :: "ref \<Rightarrow> string \<Rightarrow> string option \<Rightarrow> instant \<Rightarrow> (trust, ref) tx" where
  "resolvePlatformCommandContext p correlationId causationId now =
     bindT (assertIssuedAuthenticatedPrincipal p (Some correlationId)) (\<lambda>_ st.
       if length (trim correlationId) = 0 then (reject invalid_trusted_context, st)
       else if (case causationId of None \<Rightarrow> False | Some c \<Rightarrow> length (trim c) = 0) then (reject invalid_trusted_context, st)
       else if p_expiresAt (principals st ! p) \<le> now then (reject_for authentication_failed correlationId, st)
       else bindT (liftT (actorId (p_actorId (principals st ! p)))) (\<lambda>actor st.
         let pr = principals st ! p; r = length (platformContexts st) in
         (Inr r, st\<lparr>platformContexts := platformContexts st @ [resolved_platform pr actor correlationId causationId],
           issuedPlatformContexts := r # issuedPlatformContexts st\<rparr>)) st)"

definition assertIssuedPlatformContext :: "ref \<Rightarrow> (trust, unit) tx" where
  "assertIssuedPlatformContext c = (\<lambda>st.
     assertT (c \<in> set (issuedPlatformContexts st)) (Problem tenant_context_mismatch None None) st)"

text \<open>The same check as command code makes it, with the content of the reference it was handed.\<close>

definition issued_platform :: "trust \<Rightarrow> ref \<Rightarrow> platform_context res" where
  "issued_platform st c =
     bindR (fst (assertIssuedPlatformContext c st)) (\<lambda>_. Inr (platformContexts st ! c))"

section \<open>Tenant jobs\<close>

text \<open>\<open>TRACE_ID_PATTERN\<close> of \<open>problem-model/src/trace.ts\<close>.\<close>

definition is_trace_head :: "char \<Rightarrow> bool" where
  "is_trace_head c \<longleftrightarrow> is_upper c \<or> is_lower c \<or> is_digit c"

definition is_trace_char :: "char \<Rightarrow> bool" where
  "is_trace_char c \<longleftrightarrow> is_trace_head c \<or> c = CHR ''.'' \<or> c = CHR ''_'' \<or> c = CHR '':'' \<or> c = CHR ''-''"

definition isValidTraceId :: "string \<Rightarrow> bool" where
  "isValidTraceId s = matches_head_tail is_trace_head is_trace_char 127 s"

record tenant_job =
  job_name :: string
  job_runId :: string
  job_principal :: ref
  job_tenantId :: string
  job_tenantState :: tenant_state
  job_causationId :: "string option"

definition job_correlation :: "tenant_job \<Rightarrow> string" where
  "job_correlation run = ''job:'' @ job_name run @ '':'' @ job_runId run"

definition runTenantJob :: "tenant_job \<Rightarrow> instant \<Rightarrow> (trust, 'a) tx \<Rightarrow> (trust, 'a) tx" where
  "runTenantJob run now operation st =
     (let corr = job_correlation run; p = principals st ! job_principal run in
      if storage st \<noteq> None then (reject tenant_context_mismatch, st)
      else if \<not> matches_head_tail is_lower is_name_char 63 (job_name run) then (reject invalid_trusted_context, st)
      else if \<not> isValidTraceId corr then (reject invalid_trusted_context, st)
      else if p_kind p \<noteq> workload then (reject_for workload_scope_denied corr, st)
      else if length (p_tenantMemberships p) \<noteq> 1 then (reject_for workload_scope_denied corr, st)
      else bindT (resolveTenantContext
               \<lparr>ri_principal = job_principal run, ri_selectedTenantId = job_tenantId run, ri_tenantState = job_tenantState run,
                ri_correlationId = corr, ri_causationId = job_causationId run, ri_bodyTenantId = None\<rparr> now)
             (\<lambda>c. runWithTenantContext c operation) st)"

section \<open>Tenant commands\<close>

definition MAX_SCAN_DEPTH :: nat where "MAX_SCAN_DEPTH = 16"

text \<open>\<open>toLowerCase\<close> below 256.\<close>

definition lower_char :: "char \<Rightarrow> char" where
  "lower_char c = (let n = (of_char c :: nat) in
     if (65 \<le> n \<and> n \<le> 90) \<or> (192 \<le> n \<and> n \<le> 222 \<and> n \<noteq> 215) then char_of (n + 32) else c)"

definition normalizeKey :: "string \<Rightarrow> string" where
  "normalizeKey key = filter (\<lambda>c. c \<noteq> CHR ''_'' \<and> c \<noteq> CHR ''-'') (map lower_char key)"

text \<open>The scan of a value graph. Command inputs are trees, so the set of visited objects never hits.\<close>

function visit :: "js_value \<Rightarrow> nat \<Rightarrow> bool" where
  "visit v depth =
     (case v of
        JArray items \<Rightarrow> depth > MAX_SCAN_DEPTH \<or> list_ex (\<lambda>item. visit item (depth + 1)) items
      | JObject entries \<Rightarrow> depth > MAX_SCAN_DEPTH \<or>
          list_ex (\<lambda>(key, child). normalizeKey key = ''tenantid'' \<or> visit child (depth + 1)) entries
      | JInstance entries \<Rightarrow> depth > MAX_SCAN_DEPTH \<or>
          list_ex (\<lambda>(key, child). normalizeKey key = ''tenantid'' \<or> visit child (depth + 1)) entries
      | _ \<Rightarrow> False)"
  by pat_completeness auto
termination
proof (relation "measure (\<lambda>(v, _). size v)", goal_cases)
  case (2 v depth items x) then show ?case by (simp add: size_list_estimation' less_Suc_eq_le)
next
  case (3 v depth entries p key child)
  then show ?case using size_list_estimation' [of "(key, child)" entries "size child" "size_prod (\<lambda>_. 0) size"] by auto
next
  case (4 v depth entries p key child)
  then show ?case using size_list_estimation' [of "(key, child)" entries "size child" "size_prod (\<lambda>_. 0) size"] by auto
qed simp

declare visit.simps [simp del]

definition containsTenantIdentity :: "js_value \<Rightarrow> bool" where
  "containsTenantIdentity v = visit v 0"

definition assertNoTenantIdentity :: "js_value \<Rightarrow> string option \<Rightarrow> unit res" where
  "assertNoTenantIdentity v correlationId =
     (if containsTenantIdentity v then Inl (Problem untrusted_tenant_context correlationId None) else Inr ())"

definition defineTenantCommand ::
  "(tenant_context \<Rightarrow> js_value \<Rightarrow> ('s, 'a) tx) \<Rightarrow> tenant_context option \<Rightarrow> js_value \<Rightarrow> ('s, 'a) tx" where
  "defineTenantCommand handler ambient input =
     bindT (liftT (currentTenantContext ambient)) (\<lambda>context.
     bindT (liftT (assertNoTenantIdentity input (Some (tc_correlationId context)))) (\<lambda>_.
       handler context input))"

section \<open>Tenant transactions\<close>

text \<open>The persistence adapter is a parameter: \<open>begin\<close> opens a session and says which tenant it was bound
  to, \<open>commit\<close> and \<open>rollback\<close> end it.\<close>

record 's tenant_adapter =
  begin_tx :: "string \<Rightarrow> string \<Rightarrow> string option \<Rightarrow> ('s, string) tx"
  commit_tx :: "('s, unit) tx"
  rollback_tx :: "('s, unit) tx"

definition inTenantTransaction :: "'s tenant_adapter \<Rightarrow> tenant_context option \<Rightarrow> (string \<Rightarrow> ('s, 'a) tx) \<Rightarrow> ('s, 'a) tx" where
  "inTenantTransaction adapter ambient work =
     bindT (liftT (currentTenantContext ambient)) (\<lambda>context.
     bindT (begin_tx adapter (tc_tenantId context) (tc_correlationId context) (tc_causationId context)) (\<lambda>bound.
       if bound \<noteq> tc_tenantId context
       then bindT (rollback_tx adapter) (\<lambda>_. throwT (Problem tenant_context_mismatch None None))
       else (\<lambda>st. case bindT (work bound) (\<lambda>result. bindT (commit_tx adapter) (\<lambda>_. returnT result)) st of
               (Inr result, st') \<Rightarrow> (Inr result, st')
             | (Inl e, st') \<Rightarrow> bindT (rollback_tx adapter) (\<lambda>_. throwT e) st')))"

section \<open>Authority: every issued context is bound to an issued principal\<close>

definition bound_to :: "principal \<Rightarrow> tenant_context \<Rightarrow> bool" where
  "bound_to p c \<longleftrightarrow> tc_tenantId c \<in> set (p_tenantMemberships p) \<and> tc_actorId c = p_actorId p \<and>
     tc_principalKind c = p_kind p \<and> tc_assurance c = p_assurance p \<and> tc_credentialId c = p_credentialId p \<and>
     tc_audiences c = p_audiences p \<and> tc_scopes c = p_scopes p"

definition platform_bound_to :: "principal \<Rightarrow> platform_context \<Rightarrow> bool" where
  "platform_bound_to p c \<longleftrightarrow> pc_actorId c = p_actorId p \<and> pc_principalKind c = p_kind p \<and> pc_assurance c = p_assurance p \<and>
     pc_credentialId c = p_credentialId p \<and> pc_audiences c = p_audiences p \<and> pc_scopes c = p_scopes p"

definition trust_inv :: "trust \<Rightarrow> bool" where
  "trust_inv st \<longleftrightarrow>
     (\<forall>p\<in>set (issuedPrincipals st). p < length (principals st)) \<and>
     (\<forall>c\<in>set (issuedContexts st). c < length (contexts st) \<and>
        (\<exists>p\<in>set (issuedPrincipals st). bound_to (principals st ! p) (contexts st ! c))) \<and>
     (\<forall>c\<in>set (issuedPlatformContexts st). c < length (platformContexts st) \<and>
        (\<exists>p\<in>set (issuedPrincipals st). platform_bound_to (principals st ! p) (platformContexts st ! c))) \<and>
     (\<forall>c. storage st = Some c \<longrightarrow> c \<in> set (issuedContexts st))"

text \<open>Anything that code can do to this state: allocate objects of any contents without issuing them,
  call the module's operations with any arguments, and run further code under a context.\<close>

inductive trust_step :: "trust \<Rightarrow> trust \<Rightarrow> bool" where
  forge_principal: "trust_step st (st\<lparr>principals := principals st @ [p]\<rparr>)"
| forge_context: "trust_step st (st\<lparr>contexts := contexts st @ [c]\<rparr>)"
| forge_platform: "trust_step st (st\<lparr>platformContexts := platformContexts st @ [pc]\<rparr>)"
| issue_p: "issueAuthenticatedPrincipal i st = (r, st') \<Longrightarrow> trust_step st st'"
| resolve: "resolveTenantContext ri now st = (r, st') \<Longrightarrow> trust_step st st'"
| causation: "withCausation c cause st = (r, st') \<Longrightarrow> trust_step st st'"
| platform: "resolvePlatformCommandContext p corr cause now st = (r, st') \<Longrightarrow> trust_step st st'"
| run: "runWithTenantContext c op st = (r :: unit res, st') \<Longrightarrow>
    rtranclp trust_step (st\<lparr>storage := Some c\<rparr>) (snd (op (st\<lparr>storage := Some c\<rparr>))) \<Longrightarrow> trust_step st st'"

definition trust_init :: trust where
  "trust_init = \<lparr>principals = [], issuedPrincipals = [], contexts = [], issuedContexts = [], platformContexts = [],
     issuedPlatformContexts = [], storage = None\<rparr>"

text \<open>Heaps only grow and nothing issued is forgotten.\<close>

definition grows :: "trust \<Rightarrow> trust \<Rightarrow> bool" where
  "grows st st' \<longleftrightarrow> (\<exists>ps cs pcs. principals st' = principals st @ ps \<and> contexts st' = contexts st @ cs \<and>
       platformContexts st' = platformContexts st @ pcs) \<and>
     set (issuedPrincipals st) \<subseteq> set (issuedPrincipals st') \<and> set (issuedContexts st) \<subseteq> set (issuedContexts st') \<and>
     set (issuedPlatformContexts st) \<subseteq> set (issuedPlatformContexts st')"

lemma grows_refl [simp]: "grows st st"
  by (simp add: grows_def)

lemma grows_trans: "grows a b \<Longrightarrow> grows b c \<Longrightarrow> grows a c"
  by (auto simp: grows_def)

lemma grows_storage [simp]: "grows (st\<lparr>storage := s\<rparr>) st' \<longleftrightarrow> grows st st'" "grows st (st'\<lparr>storage := s\<rparr>) \<longleftrightarrow> grows st st'"
  by (simp_all add: grows_def)

lemma nth_heap [simp]: "r < length xs \<Longrightarrow> (xs @ ys) ! r = xs ! r"
  by (simp add: nth_append)

lemma trust_inv_forge:
  assumes "trust_inv st"
  shows "trust_inv (st\<lparr>principals := principals st @ [p]\<rparr>)" "trust_inv (st\<lparr>contexts := contexts st @ [c]\<rparr>)"
    "trust_inv (st\<lparr>platformContexts := platformContexts st @ [pc]\<rparr>)"
  using assms by (fastforce simp: trust_inv_def)+

lemma trust_inv_issue_p:
  assumes "trust_inv st" "issueAuthenticatedPrincipal i st = (r, st')"
  shows "trust_inv st' \<and> grows st st' \<and> storage st' = storage st"
proof -
  from assms(2) consider "st' = st" | p where "st' = st\<lparr>principals := principals st @ [p], issuedPrincipals := length (principals st) # issuedPrincipals st\<rparr>"
    by (auto simp: issueAuthenticatedPrincipal_def Let_def split: if_splits option.splits)
  then show ?thesis
  proof cases
    case 2
    then have "trust_inv st'" using assms(1) by (fastforce simp: trust_inv_def)
    then show ?thesis using 2 by (auto simp: grows_def)
  qed (simp add: assms(1))
qed

lemma trust_inv_issue_context:
  assumes "trust_inv st" "p \<in> set (issuedPrincipals st)" "bound_to (principals st ! p) c" "issue_context c st = (r, st')"
  shows "trust_inv st' \<and> grows st st' \<and> storage st' = storage st"
  using assms by (fastforce simp: issue_context_def Let_def trust_inv_def grows_def nth_append)

lemmas trust_op_defs = assertPrincipalCurrent_def assertIssuedAuthenticatedPrincipal_def assertIssued_def bindT_def assertT_def
  liftT_def ctx_requireNonBlank_def Let_def

lemma resolveTenantContext_Inr_iff:
  "resolveTenantContext ri now st = (Inr r, st') \<longleftrightarrow>
     ri_principal ri \<in> set (issuedPrincipals st) \<and> now < p_expiresAt (principals st ! ri_principal ri) \<and>
     ri_bodyTenantId ri = None \<and> ri_selectedTenantId ri \<in> set (p_tenantMemberships (principals st ! ri_principal ri)) \<and>
     ri_tenantState ri = ACTIVE \<and> \<not> blank (ri_correlationId ri) \<and>
     issue_context (resolved_context (principals st ! ri_principal ri) ri (ri_correlationId ri)) st = (Inr r, st')"
  by (auto simp: resolveTenantContext_def trust_op_defs trim_empty_iff simp del: length_0_conv)

lemma issue_context_Inr [simp]: "issue_context c st \<noteq> (Inl e, st')"
  by (simp add: issue_context_def Let_def)

lemma resolveTenantContext_Inl: "resolveTenantContext ri now st = (Inl e, st') \<Longrightarrow> st' = st"
  by (auto simp: resolveTenantContext_def trust_op_defs split: if_splits)

lemma bound_resolved:
  "ri_selectedTenantId ri \<in> set (p_tenantMemberships p) \<Longrightarrow> bound_to p (resolved_context p ri corr)"
  by (simp add: bound_to_def resolved_context_def)

lemma trust_inv_resolve:
  assumes "trust_inv st" "resolveTenantContext ri now st = (r, st')"
  shows "trust_inv st' \<and> grows st st' \<and> storage st' = storage st"
proof (cases r)
  case (Inl e)
  then show ?thesis using assms resolveTenantContext_Inl [of ri now st e st'] by simp
next
  case (Inr x)
  then have "resolveTenantContext ri now st = (Inr x, st')" using assms(2) by simp
  from this [unfolded resolveTenantContext_Inr_iff] show ?thesis
    using trust_inv_issue_context [OF assms(1)] bound_resolved by blast
qed

lemma withCausation_cases:
  "(\<exists>e. withCausation c cause st = (Inl e, st)) \<or>
   (c \<in> set (issuedContexts st) \<and> \<not> blank cause \<and>
    withCausation c cause st = issue_context ((contexts st ! c)\<lparr>tc_causationId := Some cause\<rparr>) st)"
  by (auto simp: withCausation_def trust_op_defs trim_empty_iff simp del: length_0_conv)

lemma trust_inv_causation:
  assumes "trust_inv st" "withCausation c cause st = (r, st')"
  shows "trust_inv st' \<and> grows st st' \<and> storage st' = storage st"
  using withCausation_cases [of c cause st]
proof (elim disjE exE conjE)
  fix e assume "withCausation c cause st = (Inl e, st)"
  then show ?thesis using assms by simp
next
  assume c: "c \<in> set (issuedContexts st)"
    and eq: "withCausation c cause st = issue_context ((contexts st ! c)\<lparr>tc_causationId := Some cause\<rparr>) st"
  obtain p where p: "p \<in> set (issuedPrincipals st)" "bound_to (principals st ! p) (contexts st ! c)"
    using assms(1) c by (auto simp: trust_inv_def)
  then have "bound_to (principals st ! p) ((contexts st ! c)\<lparr>tc_causationId := Some cause\<rparr>)" by (simp add: bound_to_def)
  then show ?thesis using assms p(1) eq by (intro trust_inv_issue_context) auto
qed

lemma trust_inv_platform:
  assumes "trust_inv st" "resolvePlatformCommandContext p corr cause now st = (r, st')"
  shows "trust_inv st' \<and> grows st st' \<and> storage st' = storage st"
proof -
  have "st' = st \<or> (p \<in> set (issuedPrincipals st) \<and> (\<exists>pc. platform_bound_to (principals st ! p) pc \<and>
      st' = st\<lparr>platformContexts := platformContexts st @ [pc], issuedPlatformContexts := length (platformContexts st) # issuedPlatformContexts st\<rparr>))"
  proof -
    have "platform_bound_to pr (resolved_platform pr (p_actorId pr) corr cause)" for pr
      by (simp add: platform_bound_to_def resolved_platform_def)
    then show ?thesis
      using assms(2) by (auto simp: resolvePlatformCommandContext_def actorId_def trust_op_defs split: if_splits)
  qed
  then show ?thesis
  proof (elim disjE conjE exE)
    fix pc assume p: "p \<in> set (issuedPrincipals st)" "platform_bound_to (principals st ! p) pc"
      and st': "st' = st\<lparr>platformContexts := platformContexts st @ [pc], issuedPlatformContexts := length (platformContexts st) # issuedPlatformContexts st\<rparr>"
    have "trust_inv st'" using assms(1) p by (fastforce simp: trust_inv_def st' nth_append)
    then show ?thesis by (auto simp: grows_def st')
  qed (simp add: assms(1))
qed

text \<open>The operation of \<open>runWithTenantContext\<close> runs exactly when the context is issued and agrees with the
  ambient one; afterwards the ambient slot is what it was.\<close>

definition same_authority :: "tenant_context \<Rightarrow> tenant_context \<Rightarrow> bool" where
  "same_authority a c \<longleftrightarrow> tc_tenantId a = tc_tenantId c \<and> tc_actorId a = tc_actorId c \<and>
     tc_principalKind a = tc_principalKind c \<and> tc_assurance a = tc_assurance c \<and>
     tc_correlationId a = tc_correlationId c \<and> tc_credentialId a = tc_credentialId c \<and>
     join NUL (tc_audiences a) = join NUL (tc_audiences c) \<and> join NUL (tc_scopes a) = join NUL (tc_scopes c)"

lemma runWithTenantContext_eq:
  "runWithTenantContext c op st =
     (if c \<in> set (issuedContexts st) \<and> (\<forall>a. storage st = Some a \<longrightarrow> same_authority (contexts st ! a) (contexts st ! c))
      then (let (r, st') = op (st\<lparr>storage := Some c\<rparr>) in (r, st'\<lparr>storage := storage st\<rparr>))
      else (reject tenant_context_mismatch, st))"
  by (auto simp: runWithTenantContext_def trust_op_defs same_authority_def split: option.splits)

lemma trust_step_inv: "trust_step st st' \<Longrightarrow> trust_inv st \<Longrightarrow> trust_inv st' \<and> grows st st' \<and> storage st' = storage st"
proof (induction rule: trust_step.induct)
  case (run c op st r st')
  show ?case
  proof (cases "c \<in> set (issuedContexts st) \<and> (\<forall>a. storage st = Some a \<longrightarrow> same_authority (contexts st ! a) (contexts st ! c))")
    case True
    define st0 where "st0 = st\<lparr>storage := Some c\<rparr>"
    have inv0: "trust_inv st0" using run.prems True by (auto simp: trust_inv_def st0_def)
    have "rtranclp (\<lambda>a b. trust_step a b \<and> (trust_inv a \<longrightarrow> trust_inv b \<and> grows a b \<and> storage b = storage a)) st0 (snd (op st0))"
      using run.IH by (simp add: st0_def)
    then have "trust_inv (snd (op st0)) \<and> grows st0 (snd (op st0))"
      using inv0 by (induction rule: rtranclp_induct) (auto intro: grows_trans)
    moreover have "st' = (snd (op st0))\<lparr>storage := storage st\<rparr>"
      using run.hyps(1) unfolding runWithTenantContext_eq if_P [OF True] st0_def by (auto simp: Let_def split: prod.splits)
    ultimately show ?thesis
      using run.prems by (auto simp: trust_inv_def grows_def st0_def)
  next
    case False
    then show ?thesis using run.hyps(1) run.prems unfolding runWithTenantContext_eq if_not_P [OF False] by simp
  qed
next
  case (forge_principal st p) then show ?case using trust_inv_forge by (simp add: grows_def)
next
  case (forge_context st c) then show ?case using trust_inv_forge by (simp add: grows_def)
next
  case (forge_platform st pc) then show ?case using trust_inv_forge by (simp add: grows_def)
next
  case (issue_p i st r st') then show ?case using trust_inv_issue_p by blast
next
  case (resolve ri now st r st') then show ?case using trust_inv_resolve by blast
next
  case (causation c cause st r st') then show ?case using trust_inv_causation by blast
next
  case (platform p corr cause now st r st') then show ?case using trust_inv_platform by blast
qed

lemma trust_reachable_inv: "rtranclp trust_step trust_init st \<Longrightarrow> trust_inv st"
proof (induction rule: rtranclp_induct)
  case base
  then show ?case by (simp add: trust_inv_def trust_init_def)
qed (use trust_step_inv in blast)

section \<open>Properties\<close>

text \<open>C16: no authority without a verified principal. Whatever code runs and whatever principal- or
  context-shaped objects it forges, every context that can be activated (and the ambient one) names a
  tenant of some issued principal's memberships and carries exactly that principal's actor, kind,
  assurance, credential, audiences and scopes.\<close>

theorem context_authority:
  assumes "rtranclp trust_step trust_init st"
    and "c \<in> set (issuedContexts st) \<or> storage st = Some c"
  shows "\<exists>p\<in>set (issuedPrincipals st). tc_tenantId (contexts st ! c) \<in> set (p_tenantMemberships (principals st ! p)) \<and>
    tc_actorId (contexts st ! c) = p_actorId (principals st ! p) \<and>
    tc_principalKind (contexts st ! c) = p_kind (principals st ! p) \<and>
    tc_assurance (contexts st ! c) = p_assurance (principals st ! p) \<and>
    tc_credentialId (contexts st ! c) = p_credentialId (principals st ! p) \<and>
    tc_scopes (contexts st ! c) = p_scopes (principals st ! p)"
  using trust_reachable_inv [OF assms(1)] assms(2) unfolding trust_inv_def bound_to_def by blast

definition example_principal_input :: principal_input where
  "example_principal_input = \<lparr>in_actorId = ''alice'', in_kind = interactive, in_tenantMemberships = [''t1''], in_assurance = mfa,
     in_credentialId = ''c1'', in_issuer = ''iss'', in_audiences = [''api''], in_scopes = [], in_expiresAt = Some 100\<rparr>"

definition example_resolve :: resolve_input where
  "example_resolve = \<lparr>ri_principal = 0, ri_selectedTenantId = ''t1'', ri_tenantState = ACTIVE, ri_correlationId = ''r1'',
     ri_causationId = None, ri_bodyTenantId = None\<rparr>"

definition example_trust :: trust where
  "example_trust = snd (issueAuthenticatedPrincipal example_principal_input trust_init)"

lemma example_trust_simps:
  "issuedPrincipals example_trust = [0]" "contexts example_trust = []" "issuedContexts example_trust = []" "storage example_trust = None"
  "principals example_trust = [\<lparr>p_actorId = ''alice'', p_kind = interactive, p_tenantMemberships = [''t1''], p_assurance = mfa,
     p_credentialId = ''c1'', p_issuer = ''iss'', p_audiences = [''api''], p_scopes = [], p_expiresAt = 100\<rparr>]"
  by (simp_all add: example_trust_def issueAuthenticatedPrincipal_def example_principal_input_def trust_init_def isNonBlankString_def
      trim_def is_space_def Let_def)

lemma example_trust_reachable: "rtranclp trust_step trust_init example_trust"
  by (rule r_into_rtranclp, rule trust_step.issue_p) (simp add: example_trust_def prod_eq_iff)

lemma example_resolve_issued:
  "resolveTenantContext example_resolve 0 example_trust = (Inr 0, snd (resolveTenantContext example_resolve 0 example_trust))"
  "issuedContexts (snd (resolveTenantContext example_resolve 0 example_trust)) = [0]"
  by (simp_all add: resolveTenantContext_def trust_op_defs example_resolve_def example_trust_simps issue_context_def trim_def is_space_def)

theorem context_authority_witness:
  "\<exists>p\<in>set (issuedPrincipals (snd (resolveTenantContext example_resolve 0 example_trust))).
     tc_actorId (contexts (snd (resolveTenantContext example_resolve 0 example_trust)) ! 0)
     = p_actorId (principals (snd (resolveTenantContext example_resolve 0 example_trust)) ! p)"
proof -
  have "trust_step example_trust (snd (resolveTenantContext example_resolve 0 example_trust))"
    using example_resolve_issued(1) by (rule trust_step.resolve)
  then have "rtranclp trust_step trust_init (snd (resolveTenantContext example_resolve 0 example_trust))"
    using example_trust_reachable by (rule rtranclp.rtrancl_into_rtrancl [rotated])
  then show ?thesis using context_authority [of _ 0] example_resolve_issued(2) by fastforce
qed

text \<open>A context is resolved exactly for an issued principal that has not expired, a request body
  without a tenant, a tenant among the principal's memberships that is active, and a non-blank
  correlation ID; the new context then carries the selected tenant, the principal's identity and the
  given correlation and causation.\<close>

theorem resolve_tenant_context_exact:
  "(\<exists>c st'. resolveTenantContext ri now st = (Inr c, st')) \<longleftrightarrow>
     ri_principal ri \<in> set (issuedPrincipals st) \<and> now < p_expiresAt (principals st ! ri_principal ri) \<and>
     ri_bodyTenantId ri = None \<and> ri_selectedTenantId ri \<in> set (p_tenantMemberships (principals st ! ri_principal ri)) \<and>
     ri_tenantState ri = ACTIVE \<and> \<not> blank (ri_correlationId ri)"
  by (auto simp: resolveTenantContext_Inr_iff issue_context_def Let_def)

text \<open>Nesting keeps authority. When code runs under a context while another is ambient, both name
  the same tenant, actor, principal kind, assurance, correlation and credential, and the ambient
  context is unchanged afterwards; otherwise the operation does not run at all.\<close>

theorem nested_context_same_authority:
  assumes "storage st = Some a"
  shows "(runWithTenantContext c op st = (fst (op (st\<lparr>storage := Some c\<rparr>)), (snd (op (st\<lparr>storage := Some c\<rparr>)))\<lparr>storage := Some a\<rparr>) \<and>
      c \<in> set (issuedContexts st) \<and>
      tc_tenantId (contexts st ! c) = tc_tenantId (contexts st ! a) \<and> tc_actorId (contexts st ! c) = tc_actorId (contexts st ! a) \<and>
      tc_principalKind (contexts st ! c) = tc_principalKind (contexts st ! a) \<and>
      tc_assurance (contexts st ! c) = tc_assurance (contexts st ! a) \<and>
      tc_correlationId (contexts st ! c) = tc_correlationId (contexts st ! a) \<and>
      tc_credentialId (contexts st ! c) = tc_credentialId (contexts st ! a))
    \<or> runWithTenantContext c op st = (reject tenant_context_mismatch, st)"
  using assms by (auto simp: runWithTenantContext_eq same_authority_def Let_def split: prod.splits)

theorem nested_context_same_authority_witness:
  "runWithTenantContext 1 (returnT ()) (trust_init\<lparr>storage := Some 0\<rparr>) = (reject tenant_context_mismatch, trust_init\<lparr>storage := Some 0\<rparr>)"
  using nested_context_same_authority [of "trust_init\<lparr>storage := Some 0\<rparr>" 0 1 "returnT ()"] by (simp add: trust_init_def)

text \<open>Keys that occur anywhere in a value.\<close>

inductive key_occurs :: "string \<Rightarrow> js_value \<Rightarrow> bool" where
  here: "(k, v) \<in> set es \<Longrightarrow> key_occurs k (JObject es)"
| under: "(k', v) \<in> set es \<Longrightarrow> key_occurs k v \<Longrightarrow> key_occurs k (JObject es)"
| here_instance: "(k, v) \<in> set es \<Longrightarrow> key_occurs k (JInstance es)"
| under_instance: "(k', v) \<in> set es \<Longrightarrow> key_occurs k v \<Longrightarrow> key_occurs k (JInstance es)"
| item: "v \<in> set vs \<Longrightarrow> key_occurs k v \<Longrightarrow> key_occurs k (JArray vs)"

lemma visit_finds: "key_occurs k v \<Longrightarrow> normalizeKey k = ''tenantid'' \<Longrightarrow> visit v depth"
  by (induction arbitrary: depth rule: key_occurs.induct; subst visit.simps) (auto simp: list_ex_iff)

text \<open>A payload that the command wrapper accepts holds no key that normalises to a tenant
  identity, at any depth.\<close>

theorem accepted_payload_has_no_tenant_key:
  assumes "assertNoTenantIdentity v corr = Inr ()" "key_occurs k v"
  shows "normalizeKey k \<noteq> ''tenantid''"
  using assms visit_finds [of k v 0] by (auto simp: assertNoTenantIdentity_def containsTenantIdentity_def split: if_splits)

theorem accepted_payload_has_no_tenant_key_witness: "normalizeKey ''tenant_name'' \<noteq> ''tenantid''"
proof (rule accepted_payload_has_no_tenant_key)
  show "assertNoTenantIdentity (JObject [(''tenant_name'', JNull)]) None = Inr ()"
    by (simp add: assertNoTenantIdentity_def containsTenantIdentity_def visit.simps MAX_SCAN_DEPTH_def normalizeKey_def
        lower_char_def)
  show "key_occurs ''tenant_name'' (JObject [(''tenant_name'', JNull)])" by (rule key_occurs.here [of _ JNull]) simp
qed

text \<open>A tenant job runs only at the root, as a current workload principal bound to exactly that
  tenant, while the tenant is active; its context names that tenant and a correlation ID derived from
  the run.\<close>

theorem job_runs_as_bound_workload:
  assumes "runTenantJob run now op st = (Inr x, st')"
  shows "storage st = None \<and> job_principal run \<in> set (issuedPrincipals st) \<and>
    p_kind (principals st ! job_principal run) = workload \<and>
    p_tenantMemberships (principals st ! job_principal run) = [job_tenantId run] \<and>
    now < p_expiresAt (principals st ! job_principal run) \<and> job_tenantState run = ACTIVE \<and> storage st' = None \<and>
    (\<exists>c st1. storage st1 = Some c \<and> tc_tenantId (contexts st1 ! c) = job_tenantId run \<and>
       tc_correlationId (contexts st1 ! c) = ''job:'' @ job_name run @ '':'' @ job_runId run \<and> fst (op st1) = Inr x)"
proof -
  let ?p = "principals st ! job_principal run"
  from assms obtain c st0 where root: "storage st = None" and kind: "p_kind ?p = workload" "length (p_tenantMemberships ?p) = 1"
    and res: "resolveTenantContext \<lparr>ri_principal = job_principal run, ri_selectedTenantId = job_tenantId run,
        ri_tenantState = job_tenantState run, ri_correlationId = job_correlation run, ri_causationId = job_causationId run,
        ri_bodyTenantId = None\<rparr> now st = (Inr c, st0)"
    and runs: "runWithTenantContext c op st0 = (Inr x, st')"
    by (auto simp: runTenantJob_def Let_def bindT_Inr_iff split: if_splits)
  from res [unfolded resolveTenantContext_Inr_iff]
  have ok: "job_principal run \<in> set (issuedPrincipals st)" "now < p_expiresAt ?p" "job_tenantId run \<in> set (p_tenantMemberships ?p)"
    "job_tenantState run = ACTIVE" by simp_all
  from res [unfolded resolveTenantContext_Inr_iff] root
  have st0: "storage st0 = None" "tc_tenantId (contexts st0 ! c) = job_tenantId run" "tc_correlationId (contexts st0 ! c) = job_correlation run"
    by (auto simp: issue_context_def Let_def resolved_context_def)
  have "storage st' = None \<and> fst (op (st0\<lparr>storage := Some c\<rparr>)) = Inr x"
    using runs st0(1) by (auto simp: runWithTenantContext_eq Let_def split: if_splits prod.splits)
  moreover have "p_tenantMemberships ?p = [job_tenantId run]" using kind(2) ok(3) by (cases "p_tenantMemberships ?p") auto
  moreover have "tc_tenantId (contexts (st0\<lparr>storage := Some c\<rparr>) ! c) = job_tenantId run"
    "tc_correlationId (contexts (st0\<lparr>storage := Some c\<rparr>) ! c) = ''job:'' @ job_name run @ '':'' @ job_runId run"
    using st0 by (simp_all add: job_correlation_def)
  moreover have "storage (st0\<lparr>storage := Some c\<rparr>) = Some c" by simp
  ultimately show ?thesis using root kind ok by blast
qed

definition example_workload_input :: principal_input where
  "example_workload_input = example_principal_input\<lparr>in_kind := workload, in_assurance := workload_assurance\<rparr>"

definition example_job :: tenant_job where
  "example_job = \<lparr>job_name = ''idempotency.purge'', job_runId = ''7'', job_principal = 0, job_tenantId = ''t1'',
     job_tenantState = ACTIVE, job_causationId = None\<rparr>"

definition example_job_trust :: trust where
  "example_job_trust = trust_init\<lparr>issuedPrincipals := [0], principals := [\<lparr>p_actorId = ''alice'', p_kind = workload,
     p_tenantMemberships = [''t1''], p_assurance = workload_assurance, p_credentialId = ''c1'', p_issuer = ''iss'',
     p_audiences = [''api''], p_scopes = [], p_expiresAt = 100\<rparr>]\<rparr>"

lemma example_job_trust_issued: "example_job_trust = snd (issueAuthenticatedPrincipal example_workload_input trust_init)"
  by (simp add: example_job_trust_def issueAuthenticatedPrincipal_def example_workload_input_def example_principal_input_def
      trust_init_def isNonBlankString_def trim_def is_space_def Let_def)

lemma eval_job: "fst (runTenantJob example_job 0 (returnT ()) example_job_trust) = Inr ()"
  by (simp add: runTenantJob_def Let_def example_job_def example_job_trust_def trust_init_def job_correlation_def matches_head_tail_def
      is_lower_def is_name_char_def is_digit_def isValidTraceId_def is_trace_head_def is_trace_char_def is_upper_def
      less_eq_char_def bindT_def resolveTenantContext_def trust_op_defs issue_context_def trim_def is_space_def
      runWithTenantContext_def resolved_context_def returnT_def)

theorem job_runs_as_bound_workload_witness:
  "p_tenantMemberships (principals example_job_trust ! 0) = [''t1'']"
  using job_runs_as_bound_workload [of example_job 0 "returnT ()" example_job_trust "()"] eval_job
  by (auto simp: prod_eq_iff example_job_def)

end
