(* ===== verification/Tenant_Cache.thy ===== *)
theory Tenant_Cache
  imports Tenant_Context
begin

text \<open>
  \<open>platform/tenant-context/src/cache.ts\<close> and \<open>memory-store.ts\<close>: tenant-scoped cache keys, the cache facade
  over a raw key/value port, and the in-process store with LRU eviction and expiry. The port is the
  locale \<open>key_value_store\<close>; the facade's guarantee (a read returns only what the same tenant wrote under
  the same namespace and key parts) is proved once inside it and obtained for the in-memory store by
  interpretation. Values are immutable here, which is what the structured clones ensure.
\<close>

section \<open>Keys\<close>

text \<open>\<open>encodeURIComponent\<close>: the UTF-8 bytes of each code unit, percent-encoded unless unreserved.\<close>

definition utf8 :: "char \<Rightarrow> nat list" where
  "utf8 c = (let n = of_char c in if n < 128 then [n] else [192 + n div 64, 128 + n mod 64])"

definition unreserved :: "nat \<Rightarrow> bool" where
  "unreserved b \<longleftrightarrow> (65 \<le> b \<and> b \<le> 90) \<or> (97 \<le> b \<and> b \<le> 122) \<or> (48 \<le> b \<and> b \<le> 57) \<or>
     b \<in> {45, 95, 46, 33, 126, 42, 39, 40, 41}"

definition upper_hex :: "nat \<Rightarrow> char" where
  "upper_hex d = (if d < 10 then char_of (48 + d) else char_of (55 + d))"

definition percent_byte :: "nat \<Rightarrow> string" where
  "percent_byte b = (if unreserved b then [char_of b] else [CHR ''%'', upper_hex (b div 16), upper_hex (b mod 16)])"

definition encodeURIComponent :: "string \<Rightarrow> string" where
  "encodeURIComponent s = concat (map percent_byte (concat (map utf8 s)))"

definition encodeSegment :: "string \<Rightarrow> string res" where
  "encodeSegment v =
     (if length v = 0 \<or> length v > 256 then reject invalid_trusted_context else Inr (encodeURIComponent v))"

definition tenantScopedKey :: "tenant_context option \<Rightarrow> string \<Rightarrow> string list \<Rightarrow> string res" where
  "tenantScopedKey ambient namespace parts =
     bindR (currentTenantContext ambient) (\<lambda>context.
       if \<not> matches_head_tail is_lower is_name_char 63 namespace then reject invalid_trusted_context
       else if parts = [] then reject invalid_trusted_context
       else bindR (encodeSegment (tc_tenantId context)) (\<lambda>t.
         bindR (mapR encodeSegment parts) (\<lambda>ps. Inr (join '':'' (''tenant'' # t # namespace # ps)))))"

section \<open>The cache facade over a store\<close>

record ('st, 'v) kv_port =
  kv_get :: "string \<Rightarrow> instant \<Rightarrow> 'st \<Rightarrow> 'v option \<times> 'st"
  kv_set :: "string \<Rightarrow> 'v \<Rightarrow> js_number option \<Rightarrow> instant \<Rightarrow> ('st, unit) tx"
  kv_delete :: "string \<Rightarrow> 'st \<Rightarrow> 'st"

definition cache_get :: "('st, 'v) kv_port \<Rightarrow> tenant_context option \<Rightarrow> string \<Rightarrow> string list \<Rightarrow> instant \<Rightarrow> ('st, 'v option) tx" where
  "cache_get port ambient namespace parts now st =
     (case tenantScopedKey ambient namespace parts of
        Inl e \<Rightarrow> (Inl e, st)
      | Inr key \<Rightarrow> (let (v, st') = kv_get port key now st in (Inr v, st')))"

definition cache_set :: "('st, 'v) kv_port \<Rightarrow> tenant_context option \<Rightarrow> string \<Rightarrow> string list \<Rightarrow> 'v \<Rightarrow> js_number option \<Rightarrow> instant \<Rightarrow> ('st, unit) tx" where
  "cache_set port ambient namespace parts v ttl now =
     bindT (liftT (tenantScopedKey ambient namespace parts)) (\<lambda>key. kv_set port key v ttl now)"

definition cache_delete :: "('st, 'v) kv_port \<Rightarrow> tenant_context option \<Rightarrow> string \<Rightarrow> string list \<Rightarrow> ('st, unit) tx" where
  "cache_delete port ambient namespace parts =
     bindT (liftT (tenantScopedKey ambient namespace parts)) (\<lambda>key st. (Inr (), kv_delete port key st))"

section \<open>The in-memory store\<close>

record 'v cache_entry =
  ce_value :: 'v
  ce_expiresAt :: "instant option"

text \<open>A JavaScript \<open>Map\<close>: its entries in insertion order.\<close>

record 'v memory_store =
  ms_entries :: "(string \<times> 'v cache_entry) list"
  ms_maxEntries :: nat
  ms_defaultTtl :: "js_number option"

definition map_delete :: "string \<Rightarrow> (string \<times> 'e) list \<Rightarrow> (string \<times> 'e) list" where
  "map_delete k es = filter (\<lambda>(k', _). k' \<noteq> k) es"

definition new_memory_store :: "js_number \<Rightarrow> js_number option \<Rightarrow> 'v memory_store res" where
  "new_memory_store maxEntries defaultTtl =
     (case js_integer maxEntries of
        None \<Rightarrow> Inl RangeError
      | Some n \<Rightarrow> if n < 1 then Inl RangeError
                  else Inr \<lparr>ms_entries = [], ms_maxEntries = nat n, ms_defaultTtl = defaultTtl\<rparr>)"

definition mem_get :: "string \<Rightarrow> instant \<Rightarrow> 'v memory_store \<Rightarrow> 'v option \<times> 'v memory_store" where
  "mem_get key now st =
     (case map_of (ms_entries st) key of
        None \<Rightarrow> (None, st)
      | Some entry \<Rightarrow>
          if (case ce_expiresAt entry of None \<Rightarrow> False | Some t \<Rightarrow> t \<le> now)
          then (None, st\<lparr>ms_entries := map_delete key (ms_entries st)\<rparr>)
          else (Some (ce_value entry), st\<lparr>ms_entries := map_delete key (ms_entries st) @ [(key, entry)]\<rparr>))"

text \<open>The eviction loop: drop the oldest entry while there are too many.\<close>

fun evict :: "nat \<Rightarrow> 'e list \<Rightarrow> 'e list" where
  "evict n [] = []"
| "evict n (e # es) = (if length (e # es) > n then evict n es else e # es)"

definition mem_set :: "string \<Rightarrow> 'v \<Rightarrow> js_number option \<Rightarrow> instant \<Rightarrow> ('v memory_store, unit) tx" where
  "mem_set key v ttlSeconds now st =
     (let ttl = (case ttlSeconds of None \<Rightarrow> ms_defaultTtl st | Some t \<Rightarrow> Some t) in
      if (case ttl of None \<Rightarrow> False | Some t \<Rightarrow> \<not> (js_finite t \<and> js_positive t)) then (Inl RangeError, st)
      else (let expiresAt = (case ttl of None \<Rightarrow> None | Some t \<Rightarrow> map_option (\<lambda>s. now + s * 1000) (js_integer t));
                es = map_delete key (ms_entries st) @ [(key, \<lparr>ce_value = v, ce_expiresAt = expiresAt\<rparr>)]
            in (Inr (), st\<lparr>ms_entries := evict (ms_maxEntries st) es\<rparr>)))"

definition mem_delete :: "string \<Rightarrow> 'v memory_store \<Rightarrow> 'v memory_store" where
  "mem_delete key st = st\<lparr>ms_entries := map_delete key (ms_entries st)\<rparr>"

definition memory_port :: "('v memory_store, 'v) kv_port" where
  "memory_port = \<lparr>kv_get = mem_get, kv_set = mem_set, kv_delete = mem_delete\<rparr>"

section \<open>Keys are injective\<close>

lemma upper_hex_inj: "a < 16 \<Longrightarrow> b < 16 \<Longrightarrow> upper_hex a = upper_hex b \<Longrightarrow> a = b"
proof -
  assume "a < 16" "b < 16" "upper_hex a = upper_hex b"
  then have "(of_char (upper_hex a) :: nat) = of_char (upper_hex b)" by simp
  with \<open>a < 16\<close> \<open>b < 16\<close> show "a = b" by (auto simp: upper_hex_def of_char_of split: if_splits)
qed

lemma percent_unreserved: "\<not> unreserved 37"
  by (simp add: unreserved_def)

lemma percent_byte_prefix:
  assumes "percent_byte a @ xs = percent_byte b @ ys" "a < 256" "b < 256"
  shows "a = b \<and> xs = ys"
proof -
  have pc: "unreserved n \<Longrightarrow> n < 256 \<Longrightarrow> char_of n \<noteq> CHR ''%''" for n
  proof
    assume "unreserved n" "n < 256" "char_of n = CHR ''%''"
    then have "(of_char (char_of n :: char) :: nat) = 37" by simp
    with \<open>n < 256\<close> have "n = 37" by (simp add: of_char_of)
    with \<open>unreserved n\<close> percent_unreserved show False by simp
  qed
  show ?thesis
  proof (cases "unreserved a"; cases "unreserved b")
    assume u: "unreserved a" "unreserved b"
    then have "char_of a = (char_of b :: char)" and r: "xs = ys" using assms(1) by (simp_all add: percent_byte_def)
    then have "(of_char (char_of a :: char) :: nat) = of_char (char_of b :: char)" by simp
    then show ?thesis using assms r by (simp add: of_char_of)
  next
    assume u: "\<not> unreserved a" "\<not> unreserved b"
    then have "upper_hex (a div 16) = upper_hex (b div 16)" "upper_hex (a mod 16) = upper_hex (b mod 16)" "xs = ys"
      using assms(1) by (simp_all add: percent_byte_def)
    then have "a div 16 = b div 16" "a mod 16 = b mod 16" using assms(2,3) by (auto intro!: upper_hex_inj)
    then show ?thesis using \<open>xs = ys\<close> by (metis div_mult_mod_eq)
  next
    assume "unreserved a" "\<not> unreserved b"
    then show ?thesis using assms pc [of a] by (simp add: percent_byte_def)
  next
    assume "\<not> unreserved a" "unreserved b"
    then show ?thesis using assms pc [of b] by (simp add: percent_byte_def)
  qed
qed

lemma percent_byte_nonempty [simp]: "percent_byte b \<noteq> []"
  by (simp add: percent_byte_def)

lemma percent_bytes_inj:
  "(\<And>x. x \<in> set xs \<union> set ys \<Longrightarrow> x < 256) \<Longrightarrow> concat (map percent_byte xs) = concat (map percent_byte ys) \<Longrightarrow> xs = ys"
proof (induction xs arbitrary: ys)
  case Nil then show ?case by (cases ys) auto
next
  case (Cons x xs)
  then obtain y ys' where ys: "ys = y # ys'" by (cases ys) auto
  then have "percent_byte x @ concat (map percent_byte xs) = percent_byte y @ concat (map percent_byte ys')" using Cons.prems(2) by simp
  then have "x = y \<and> concat (map percent_byte xs) = concat (map percent_byte ys')"
    using Cons.prems(1) ys by (intro percent_byte_prefix) auto
  then show ?case using Cons.IH [of ys'] Cons.prems(1) ys by auto
qed

lemma of_char_less [simp]: "(of_char c :: nat) < 256"
  by (metis char_of_char of_char_of mod_less_divisor zero_less_numeral)

lemma utf8_bytes: "b \<in> set (utf8 c) \<Longrightarrow> b < 256"
proof -
  assume "b \<in> set (utf8 c)"
  moreover have "(of_char c :: nat) div 64 < 4" using of_char_less [of c] by (simp add: div_less_iff_less_mult)
  moreover have "(of_char c :: nat) mod 64 < 64" by simp
  ultimately show ?thesis by (auto simp: utf8_def Let_def split: if_splits)
qed

lemma utf8_inj: "concat (map utf8 s) = concat (map utf8 t) \<Longrightarrow> s = t"
proof (induction s arbitrary: t)
  case Nil then show ?case by (cases t) (auto simp: utf8_def Let_def split: if_splits)
next
  case (Cons c s)
  then obtain d t' where t: "t = d # t'" by (cases t) (auto simp: utf8_def Let_def split: if_splits)
  have "(of_char c :: nat) = of_char d \<and> concat (map utf8 s) = concat (map utf8 t')"
  proof -
    let ?m = "of_char c :: nat" and ?n = "of_char d :: nat"
    have eq: "utf8 c @ concat (map utf8 s) = utf8 d @ concat (map utf8 t')" using Cons.prems t by simp
    have "192 + ?m div 64 = 192 + ?n div 64 \<Longrightarrow> 128 + ?m mod 64 = 128 + ?n mod 64 \<Longrightarrow> ?m = ?n"
      by (metis add_left_cancel div_mult_mod_eq)
    then show ?thesis using eq by (auto simp: utf8_def Let_def split: if_splits)
  qed
  then show ?case using Cons.IH t by simp
qed

lemma encodeURIComponent_inj: "encodeURIComponent s = encodeURIComponent t \<Longrightarrow> s = t"
  unfolding encodeURIComponent_def by (rule utf8_inj, rule percent_bytes_inj) (auto dest: utf8_bytes)

lemma hex_no_colon: "d < 16 \<Longrightarrow> upper_hex d \<noteq> CHR '':''"
proof
  assume "d < 16" "upper_hex d = CHR '':''"
  then have "(of_char (upper_hex d) :: nat) = 58" by simp
  then show False using \<open>d < 16\<close> by (auto simp: upper_hex_def of_char_of split: if_splits)
qed

lemma percent_no_colon: "b < 256 \<Longrightarrow> CHR '':'' \<notin> set (percent_byte b)"
proof (cases "unreserved b")
  case True
  assume "b < 256"
  have "char_of b \<noteq> CHR '':''"
  proof
    assume "char_of b = CHR '':''"
    then have "(of_char (char_of b :: char) :: nat) = 58" by simp
    then show False using \<open>b < 256\<close> True by (simp add: of_char_of unreserved_def)
  qed
  then show ?thesis using True by (simp add: percent_byte_def)
next
  case False
  assume "b < 256"
  then have "b div 16 < 16" "b mod 16 < 16" by (simp_all add: div_less_iff_less_mult)
  then show ?thesis using False hex_no_colon [of "b div 16"] hex_no_colon [of "b mod 16"]
    by (simp add: percent_byte_def eq_commute [of "CHR '':''"])
qed

lemma encode_no_colon: "CHR '':'' \<notin> set (encodeURIComponent s)"
  using percent_no_colon by (auto simp: encodeURIComponent_def dest!: utf8_bytes)

lemma split_at_separator:
  assumes "c \<notin> set x" "c \<notin> set y" shows "x @ c # xs = y @ c # ys \<longleftrightarrow> x = y \<and> xs = ys"
proof
  assume eq: "x @ c # xs = y @ c # ys"
  have "takeWhile (\<lambda>d. d \<noteq> c) (x @ c # xs) = x" "takeWhile (\<lambda>d. d \<noteq> c) (y @ c # ys) = y"
    using assms by (auto intro!: takeWhile_tail simp: takeWhile_append)
  then show "x = y \<and> xs = ys" using eq by simp
qed simp

lemma join_inj:
  assumes "xs \<noteq> []" "ys \<noteq> []" "\<And>x. x \<in> set xs \<union> set ys \<Longrightarrow> c \<notin> set x" "join [c] xs = join [c] ys"
  shows "xs = ys"
  using assms
proof (induction xs arbitrary: ys rule: induct_list012)
  case (2 x)
  then obtain y ys' where ys: "ys = y # ys'" by (cases ys) auto
  show ?case
  proof (cases ys')
    case Nil then show ?thesis using 2 ys by simp
  next
    case (Cons z zs)
    then have "x = y @ c # join [c] (z # zs)" using 2(4) ys by simp
    then show ?thesis using 2(3) [of x] by simp
  qed
next
  case (3 x x' xs)
  then obtain y ys' where ys: "ys = y # ys'" by (cases ys) auto
  show ?case
  proof (cases ys')
    case Nil
    then have "y = x @ c # join [c] (x' # xs)" using 3(6) ys by simp
    then show ?thesis using 3(5) [of y] ys by simp
  next
    case (Cons z zs)
    then have "x @ c # join [c] (x' # xs) = y @ c # join [c] (z # zs)" using 3(6) ys by simp
    then have "x = y" "join [c] (x' # xs) = join [c] (z # zs)"
      using 3(5) [of x] 3(5) [of y] ys split_at_separator [of c x y] by auto
    then show ?thesis using 3(2) [of "z # zs"] 3(5) ys Cons by auto
  qed
qed simp

lemma key_injective:
  assumes "tenantScopedKey (Some c) ns ps = Inr k" "tenantScopedKey (Some c') ns' ps' = Inr k"
  shows "tc_tenantId c = tc_tenantId c' \<and> ns = ns' \<and> ps = ps'"
proof -
  have key: "\<exists>es. k = join '':'' (''tenant'' # encodeURIComponent (tc_tenantId c) # ns # es) \<and> es = map encodeURIComponent ps \<and> CHR '':'' \<notin> set ns"
    if "tenantScopedKey (Some c) ns ps = Inr k" for c ns ps
  proof -
    have seg: "encodeSegment v = Inr e \<Longrightarrow> e = encodeURIComponent v" for v e by (auto simp: encodeSegment_def split: if_splits)
    from that obtain es where es: "mapR encodeSegment ps = Inr es" and k: "k = join '':'' (''tenant'' # encodeURIComponent (tc_tenantId c) # ns # es)"
      and ns: "matches_head_tail is_lower is_name_char 63 ns"
      by (auto simp: tenantScopedKey_def currentTenantContext_def bindR_Inr_iff dest!: seg split: if_splits)
    have "es = map encodeURIComponent ps"
      using es unfolding mapR_Inr_iff by (auto simp: list_all2_conv_all_nth intro!: nth_equalityI dest!: seg)
    moreover have "CHR '':'' \<notin> set ns"
      using ns by (cases ns) (auto simp: matches_head_tail_def list_all_iff is_name_char_def is_lower_def is_digit_def less_eq_char_def)
    ultimately show ?thesis using k by blast
  qed
  from key [OF assms(1)] key [OF assms(2)]
  have "''tenant'' # encodeURIComponent (tc_tenantId c) # ns # map encodeURIComponent ps =
      ''tenant'' # encodeURIComponent (tc_tenantId c') # ns' # map encodeURIComponent ps'"
    using encode_no_colon by (intro join_inj [of _ _ "CHR '':''"]) auto
  then have eq: "encodeURIComponent (tc_tenantId c) = encodeURIComponent (tc_tenantId c')" "ns = ns'"
    "map encodeURIComponent ps = map encodeURIComponent ps'" by simp_all
  have "ps = ps'" using eq(3) by (rule map_injective) (auto intro: injI encodeURIComponent_inj)
  then show ?thesis using eq encodeURIComponent_inj by blast
qed

text \<open>Cache keys are injective: two accepted calls that produce the same key have the same tenant,
  the same namespace and the same key parts.\<close>

theorem tenant_scoped_key_injective:
  assumes "tenantScopedKey (Some c) ns ps = Inr k" "tenantScopedKey (Some c') ns' ps' = Inr k"
  shows "tc_tenantId c = tc_tenantId c' \<and> ns = ns' \<and> ps = ps'"
  using assms by (rule key_injective)

definition example_context :: "string \<Rightarrow> tenant_context" where
  "example_context t = \<lparr>tc_tenantId = t, tc_actorId = ''a'', tc_principalKind = interactive, tc_correlationId = ''r'',
     tc_causationId = None, tc_assurance = mfa, tc_credentialId = ''c'', tc_audiences = [''api''], tc_scopes = []\<rparr>"

lemma eval_key: "tenantScopedKey (Some (example_context ''t:1'')) ''rates'' [''p''] = Inr ''tenant:t%3A1:rates:p''"
  by (simp add: tenantScopedKey_def currentTenantContext_def example_context_def matches_head_tail_def is_lower_def is_name_char_def
      less_eq_char_def encodeSegment_def encodeURIComponent_def utf8_def percent_byte_def unreserved_def upper_hex_def char_of_def bit_numeral_rec bit_0)

theorem tenant_scoped_key_injective_witness: "tc_tenantId (example_context ''t:1'') = ''t:1''"
  using tenant_scoped_key_injective [OF eval_key eval_key] by (simp add: example_context_def)

section \<open>What a store promises the facade\<close>

lemma cache_get_cases:
  "snd (cache_get port ctx ns ps now st) = st \<or> (\<exists>k. snd (cache_get port ctx ns ps now st) = snd (kv_get port k now st))"
proof (cases "tenantScopedKey ctx ns ps")
  case (Inr k)
  then have "snd (cache_get port ctx ns ps now st) = snd (kv_get port k now st)"
    by (simp add: cache_get_def Let_def split: prod.splits)
  then show ?thesis by blast
qed (simp add: cache_get_def)

lemma cache_set_cases:
  "(\<exists>e. cache_set port ctx ns ps v ttl now st = (Inl e, st)) \<or>
   (\<exists>k. tenantScopedKey ctx ns ps = Inr k \<and> cache_set port ctx ns ps v ttl now st = kv_set port k v ttl now st)"
  by (cases "tenantScopedKey ctx ns ps") (auto simp: cache_set_def bindT_def liftT_def)

locale key_value_store =
  fixes port :: "('st, 'v) kv_port"
    and init :: "'st \<Rightarrow> bool"
    and inv :: "'st \<Rightarrow> bool"
    and holds :: "'st \<Rightarrow> string \<Rightarrow> 'v \<Rightarrow> bool"
  assumes init_inv: "init st \<Longrightarrow> inv st"
    and init_holds: "init st \<Longrightarrow> \<not> holds st k v"
    and get_inv: "inv st \<Longrightarrow> inv (snd (kv_get port k now st))"
    and get_holds: "holds (snd (kv_get port k now st)) k' v \<Longrightarrow> holds st k' v"
    and get_value: "inv st \<Longrightarrow> fst (kv_get port k now st) = Some v \<Longrightarrow> holds st k v"
    and set_inv: "inv st \<Longrightarrow> inv (snd (kv_set port k v ttl now st))"
    and set_holds: "inv st \<Longrightarrow> holds (snd (kv_set port k v ttl now st)) k' v' \<Longrightarrow>
      (k' = k \<and> v' = v \<and> fst (kv_set port k v ttl now st) = Inr ()) \<or> holds st k' v'"
    and set_get: "inv st \<Longrightarrow> kv_set port k v ttl now st = (Inr (), st') \<Longrightarrow> fst (kv_get port k now st') = Some v"
    and delete_inv: "inv st \<Longrightarrow> inv (kv_delete port k st)"
    and delete_holds: "holds (kv_delete port k st) k' v \<Longrightarrow> k' \<noteq> k \<and> holds st k' v"
begin

text \<open>Runs of the facade, with the writes so far (tenant, namespace, key parts, value).\<close>

inductive cache_run :: "(string \<times> string \<times> string list \<times> 'v) list \<Rightarrow> 'st \<Rightarrow> bool" where
  start: "init st \<Longrightarrow> cache_run [] st"
| get: "cache_run h st \<Longrightarrow> cache_run h (snd (cache_get port ctx ns ps now st))"
| set_ok: "cache_run h st \<Longrightarrow> cache_set port (Some c) ns ps v ttl now st = (Inr (), st') \<Longrightarrow>
    cache_run ((tc_tenantId c, ns, ps, v) # h) st'"
| set_fail: "cache_run h st \<Longrightarrow> cache_set port ctx ns ps v ttl now st = (Inl e, st') \<Longrightarrow> cache_run h st'"
| delete: "cache_run h st \<Longrightarrow> cache_run h (snd (cache_delete port ctx ns ps st))"

lemma run_inv: "cache_run h st \<Longrightarrow> inv st"
proof (induction rule: cache_run.induct)
  case (get h st ctx ns ps now)
  then show ?case using cache_get_cases [of port ctx ns ps now st] get_inv by metis
next
  case (set_ok h st c ns ps v ttl now st')
  then show ?case using cache_set_cases [of port _ ns ps v ttl now st] set_inv by (metis snd_conv)
next
  case (set_fail h st ctx ns ps v ttl now e st')
  then show ?case using cache_set_cases [of port _ ns ps v ttl now st] set_inv by (metis snd_conv)
next
  case (delete h st ctx ns ps)
  then show ?case using delete_inv by (auto simp: cache_delete_def bindT_def liftT_def split: sum.splits)
qed (rule init_inv)

lemma run_holds:
  "cache_run h st \<Longrightarrow> holds st k v \<Longrightarrow> \<exists>t ns ps c. (t, ns, ps, v) \<in> set h \<and> tc_tenantId c = t \<and> tenantScopedKey (Some c) ns ps = Inr k"
proof (induction arbitrary: k v rule: cache_run.induct)
  case (start st)
  then show ?case using init_holds by blast
next
  case (get h st ctx ns ps now)
  then show ?case using cache_get_cases [of port ctx ns ps now st] get_holds by metis
next
  case (set_ok h st c ns ps w ttl now st')
  then obtain key where key: "tenantScopedKey (Some c) ns ps = Inr key" "kv_set port key w ttl now st = (Inr (), st')"
    by (auto simp: cache_set_def bindT_Inr_iff)
  then have "(k = key \<and> v = w) \<or> holds st k v"
    using set_holds [OF run_inv [OF set_ok.hyps(1)], of key w ttl now k v] set_ok.prems by auto
  then show ?case
  proof
    assume "k = key \<and> v = w"
    then show ?thesis using key(1) by (intro exI [of _ "tc_tenantId c"] exI [of _ ns] exI [of _ ps] exI [of _ c]) simp
  next
    assume "holds st k v"
    from set_ok.IH [OF this] obtain t ns' ps' c' where
      "(t, ns', ps', v) \<in> set h" "tc_tenantId c' = t" "tenantScopedKey (Some c') ns' ps' = Inr k" by blast
    then show ?thesis by (intro exI [of _ t] exI [of _ ns'] exI [of _ ps'] exI [of _ c']) simp
  qed
next
  case (set_fail h st ctx ns ps w ttl now e st')
  have "holds st k v"
    using cache_set_cases [of port ctx ns ps w ttl now st]
  proof (elim disjE exE conjE)
    fix key assume "cache_set port ctx ns ps w ttl now st = kv_set port key w ttl now st"
    then have "kv_set port key w ttl now st = (Inl e, st')" using set_fail.hyps(2) by simp
    then show ?thesis using set_holds [OF run_inv [OF set_fail.hyps(1)], of key w ttl now k v] set_fail.prems by auto
  qed (use set_fail in auto)
  then show ?case using set_fail.IH by blast
next
  case (delete h st ctx ns ps)
  then show ?case using delete_holds by (fastforce simp: cache_delete_def bindT_def liftT_def split: sum.splits)
qed

lemma reads_own_writes_only:
  assumes "cache_run h st" "cache_get port (Some c) ns ps now st = (Inr (Some v), st')"
  shows "(tc_tenantId c, ns, ps, v) \<in> set h"
proof -
  from assms(2) obtain key where key: "tenantScopedKey (Some c) ns ps = Inr key" "fst (kv_get port key now st) = Some v"
    by (auto simp: cache_get_def Let_def split: sum.splits prod.splits)
  then have "holds st key v" using get_value run_inv [OF assms(1)] by blast
  from run_holds [OF assms(1) this] obtain t ns' ps' c' where
    w: "(t, ns', ps', v) \<in> set h" "tc_tenantId c' = t" "tenantScopedKey (Some c') ns' ps' = Inr key" by blast
  have "tc_tenantId c = tc_tenantId c' \<and> ns = ns' \<and> ps = ps'" using key(1) w(3) by (rule key_injective)
  then show ?thesis using w by simp
qed

lemma reads_last_write:
  assumes "cache_run h st" "cache_set port (Some c) ns ps v ttl now st = (Inr (), st')"
  shows "fst (cache_get port (Some c) ns ps now st') = Inr (Some v)"
proof -
  from assms(2) obtain key where key: "tenantScopedKey (Some c) ns ps = Inr key" "kv_set port key v ttl now st = (Inr (), st')"
    by (auto simp: cache_set_def bindT_Inr_iff)
  then show ?thesis using set_get [OF run_inv [OF assms(1)] key(2)] by (auto simp: cache_get_def Let_def split: prod.splits)
qed

end

section \<open>The in-memory store implements the port\<close>

definition mem_inv :: "'v memory_store \<Rightarrow> bool" where
  "mem_inv st \<longleftrightarrow> distinct (map fst (ms_entries st)) \<and> length (ms_entries st) \<le> ms_maxEntries st \<and> 1 \<le> ms_maxEntries st"

definition mem_holds :: "'v memory_store \<Rightarrow> string \<Rightarrow> 'v \<Rightarrow> bool" where
  "mem_holds st k v \<longleftrightarrow> (\<exists>e. (k, e) \<in> set (ms_entries st) \<and> ce_value e = v)"

definition mem_init :: "'v memory_store \<Rightarrow> bool" where
  "mem_init st \<longleftrightarrow> ms_entries st = [] \<and> 1 \<le> ms_maxEntries st"

lemma set_map_delete [simp]: "set (map_delete k es) = {p \<in> set es. fst p \<noteq> k}"
  by (auto simp: map_delete_def)

lemma distinct_map_delete: "distinct (map fst es) \<Longrightarrow> distinct (map fst (map_delete k es)) \<and> k \<notin> fst ` set (map_delete k es)"
  by (induction es) (auto simp: map_delete_def)

lemma length_map_delete: "length (map_delete k es) \<le> length es"
  by (simp add: map_delete_def)

lemma length_map_delete_present: "(k, e) \<in> set es \<Longrightarrow> length (map_delete k es) < length es"
  unfolding map_delete_def by (rule length_filter_less [of "(k, e)"]) auto

lemma evict_eq_drop: "evict n es = drop (length es - n) es"
proof (induction es)
  case (Cons e es)
  then show ?case by (cases "length (e # es) > n") (auto simp: Suc_diff_le not_less)
qed simp

lemma distinct_evict: "distinct (map fst es) \<Longrightarrow> distinct (map fst (evict n es))"
  by (simp add: evict_eq_drop flip: drop_map)

lemma evict_snoc: "1 \<le> n \<Longrightarrow> \<exists>ys. evict n (xs @ [x]) = ys @ [x] \<and> set ys \<subseteq> set xs \<and> length (ys @ [x]) \<le> n"
proof -
  assume "1 \<le> n"
  then have "length (xs @ [x]) - n \<le> length xs" by simp
  then have "evict n (xs @ [x]) = drop (length (xs @ [x]) - n) xs @ [x]" by (simp only: evict_eq_drop drop_append) simp
  then show ?thesis using \<open>1 \<le> n\<close> by (auto dest: in_set_dropD)
qed

lemma mem_set_Inr:
  assumes "mem_inv st" "mem_set k v ttl now st = (Inr (), st')"
  obtains ys t where "ms_entries st' = ys @ [(k, \<lparr>ce_value = v, ce_expiresAt = t\<rparr>)]" "set ys \<subseteq> set (map_delete k (ms_entries st))"
    "mem_inv st'" "\<And>x. t = Some x \<Longrightarrow> now < x"
proof -
  let ?ttl = "case ttl of None \<Rightarrow> ms_defaultTtl st | Some t \<Rightarrow> Some t"
  define t where "t = (case ?ttl of None \<Rightarrow> None | Some t \<Rightarrow> map_option (\<lambda>s. now + s * 1000) (js_integer t))"
  have ok: "\<not> (case ?ttl of None \<Rightarrow> False | Some t \<Rightarrow> \<not> (js_finite t \<and> js_positive t))"
    and st': "st' = st\<lparr>ms_entries := evict (ms_maxEntries st) (map_delete k (ms_entries st) @ [(k, \<lparr>ce_value = v, ce_expiresAt = t\<rparr>)])\<rparr>"
    using assms(2) by (simp_all add: mem_set_def Let_def t_def split: if_splits)
  have t: "now < x" if "t = Some x" for x
    using ok that by (cases ?ttl) (auto simp: t_def js_integer_def js_positive_def split: js_number.splits)
  have max: "1 \<le> ms_maxEntries st" using assms(1) by (simp add: mem_inv_def)
  obtain ys where ys: "ms_entries st' = ys @ [(k, \<lparr>ce_value = v, ce_expiresAt = t\<rparr>)]" "set ys \<subseteq> set (map_delete k (ms_entries st))"
    "length (ms_entries st') \<le> ms_maxEntries st"
    using evict_snoc [OF max, of "map_delete k (ms_entries st)" "(k, \<lparr>ce_value = v, ce_expiresAt = t\<rparr>)"] by (auto simp: st')
  have "distinct (map fst (map_delete k (ms_entries st) @ [(k, \<lparr>ce_value = v, ce_expiresAt = t\<rparr>)]))"
    using assms(1) distinct_map_delete [of "ms_entries st" k] by (auto simp: mem_inv_def)
  then have "distinct (map fst (ms_entries st'))" by (simp add: st' distinct_evict del: map_append)
  then have "mem_inv st'" using ys(3) max by (simp add: mem_inv_def st')
  then show thesis using that ys t by blast
qed

interpretation memory: key_value_store memory_port mem_init mem_inv mem_holds
proof
  fix st :: "'v memory_store" and k k' :: string and v v' :: 'v and now :: instant and ttl :: "js_number option" and st' :: "'v memory_store"
  show "mem_init st \<Longrightarrow> mem_inv st" "mem_init st \<Longrightarrow> \<not> mem_holds st k v"
    by (simp_all add: mem_init_def mem_inv_def mem_holds_def)
  show "mem_inv st \<Longrightarrow> mem_inv (snd (kv_get memory_port k now st))"
    using distinct_map_delete [of "ms_entries st" k] length_map_delete [of k "ms_entries st"] length_map_delete_present [of k _ "ms_entries st"]
    by (fastforce simp: memory_port_def mem_get_def mem_inv_def Suc_le_eq split: option.splits dest!: map_of_SomeD)
  show "mem_holds (snd (kv_get memory_port k now st)) k' v \<Longrightarrow> mem_holds st k' v"
    by (auto simp: memory_port_def mem_get_def mem_holds_def split: option.splits if_splits dest: map_of_SomeD)
  show "mem_inv st \<Longrightarrow> fst (kv_get memory_port k now st) = Some v \<Longrightarrow> mem_holds st k v"
    by (auto simp: memory_port_def mem_get_def mem_holds_def split: option.splits if_splits dest: map_of_SomeD)
  have set_cases: "(\<exists>e. mem_set k v ttl now st = (Inl e, st)) \<or> mem_set k v ttl now st = (Inr (), snd (mem_set k v ttl now st))"
    by (auto simp: mem_set_def Let_def split: if_splits)
  show "mem_inv st \<Longrightarrow> mem_inv (snd (kv_set memory_port k v ttl now st))"
    using set_cases by (auto simp: memory_port_def elim: mem_set_Inr)
  show "(k' = k \<and> v' = v \<and> fst (kv_set memory_port k v ttl now st) = Inr ()) \<or> mem_holds st k' v'"
    if inv: "mem_inv st" and h: "mem_holds (snd (kv_set memory_port k v ttl now st)) k' v'"
    using set_cases
  proof (elim disjE exE)
    fix e assume "mem_set k v ttl now st = (Inl e, st)"
    then show ?thesis using h by (simp add: memory_port_def)
  next
    assume ok: "mem_set k v ttl now st = (Inr (), snd (mem_set k v ttl now st))"
    then have "fst (kv_set memory_port k v ttl now st) = Inr ()" by (metis fst_conv kv_port.select_convs(2) memory_port_def)
    moreover obtain ys t where "ms_entries (snd (mem_set k v ttl now st)) = ys @ [(k, \<lparr>ce_value = v, ce_expiresAt = t\<rparr>)]"
      "set ys \<subseteq> set (map_delete k (ms_entries st))" by (rule mem_set_Inr [OF inv ok])
    then have "k' = k \<and> v' = v \<or> mem_holds st k' v'"
      using h by (auto simp: memory_port_def mem_holds_def)
    ultimately show ?thesis by blast
  qed
  show "mem_inv st \<Longrightarrow> kv_set memory_port k v ttl now st = (Inr (), st') \<Longrightarrow> fst (kv_get memory_port k now st') = Some v"
  proof -
    assume "mem_inv st" "kv_set memory_port k v ttl now st = (Inr (), st')"
    then obtain ys t where "ms_entries st' = ys @ [(k, \<lparr>ce_value = v, ce_expiresAt = t\<rparr>)]" "set ys \<subseteq> set (map_delete k (ms_entries st))"
      "\<And>x. t = Some x \<Longrightarrow> now < x" by (auto simp: memory_port_def elim: mem_set_Inr)
    moreover from this(2) have "map_of ys k = None" by (auto simp: map_of_eq_None_iff)
    ultimately show ?thesis by (auto simp: memory_port_def mem_get_def map_add_def split: option.splits)
  qed
  show "mem_inv st \<Longrightarrow> mem_inv (kv_delete memory_port k st)"
    using distinct_map_delete [of "ms_entries st" k] length_map_delete [of k "ms_entries st"]
    by (auto simp: memory_port_def mem_delete_def mem_inv_def)
  show "mem_holds (kv_delete memory_port k st) k' v \<Longrightarrow> k' \<noteq> k \<and> mem_holds st k' v"
    by (auto simp: memory_port_def mem_delete_def mem_holds_def)
qed

text \<open>C21: tenant isolation of the cache. In every run of the cache facade over the in-memory store, a
  read by a tenant returns only a value that the same tenant wrote before under the same namespace and
  key parts, whatever other tenants read, write or delete in between.\<close>

theorem cache_tenant_isolation:
  assumes "memory.cache_run h st" "cache_get memory_port (Some c) ns ps now st = (Inr (Some v), st')"
  shows "(tc_tenantId c, ns, ps, v) \<in> set h"
  using assms by (rule memory.reads_own_writes_only)

text \<open>The store keeps its bound and is coherent: in every run of the facade it holds at most the
  configured number of entries with distinct keys, and a write that returns is what the writer reads
  at the same instant.\<close>

theorem cache_bounded_and_coherent:
  assumes "memory.cache_run h st"
  shows "length (ms_entries st) \<le> ms_maxEntries st \<and> distinct (map fst (ms_entries st)) \<and>
    (cache_set memory_port (Some c) ns ps v ttl now st = (Inr (), st') \<longrightarrow>
     fst (cache_get memory_port (Some c) ns ps now st') = Inr (Some v))"
  using memory.run_inv [OF assms] memory.reads_last_write [OF assms] by (auto simp: mem_inv_def)

definition example_store :: "int memory_store" where
  "example_store = \<lparr>ms_entries = [], ms_maxEntries = 2, ms_defaultTtl = None\<rparr>"

lemma eval_cache:
  "cache_set memory_port (Some (example_context ''t:1'')) ''rates'' [''p''] 7 None 0 example_store =
     (Inr (), example_store\<lparr>ms_entries := [(''tenant:t%3A1:rates:p'', \<lparr>ce_value = 7, ce_expiresAt = None\<rparr>)]\<rparr>)"
  by (simp add: cache_set_def bindT_def liftT_def eval_key memory_port_def mem_set_def example_store_def map_delete_def)

lemma example_run:
  "memory.cache_run [(''t:1'', ''rates'', [''p''], 7)] (example_store\<lparr>ms_entries := [(''tenant:t%3A1:rates:p'', \<lparr>ce_value = 7, ce_expiresAt = None\<rparr>)]\<rparr>)"
proof -
  have "memory.cache_run [] example_store" by (rule memory.cache_run.start) (simp add: mem_init_def example_store_def)
  from memory.cache_run.set_ok [OF this eval_cache] show ?thesis by (simp add: example_context_def)
qed

theorem cache_tenant_isolation_witness: "(''t:1'', ''rates'', [''p''], 7) \<in> set [(''t:1'', ''rates'', [''p''], 7 :: int)]"
proof -
  have "fst (cache_get memory_port (Some (example_context ''t:1'')) ''rates'' [''p''] 0
      (example_store\<lparr>ms_entries := [(''tenant:t%3A1:rates:p'', \<lparr>ce_value = 7, ce_expiresAt = None\<rparr>)]\<rparr>)) = Inr (Some 7)"
    by (simp add: cache_get_def eval_key memory_port_def mem_get_def example_store_def)
  from cache_tenant_isolation [OF example_run, of "example_context ''t:1''" "''rates''" "[''p'']" 0 7] this
  show ?thesis by (simp add: prod_eq_iff example_context_def)
qed

theorem cache_bounded_and_coherent_witness: "distinct (map fst [(''tenant:t%3A1:rates:p'', \<lparr>ce_value = 7 :: int, ce_expiresAt = None\<rparr>)])"
  using cache_bounded_and_coherent [OF example_run] by simp

end
