(* ===== verification/Canonical_Json.thy ===== *)
theory Canonical_Json
  imports Decimal
begin

text \<open>
  \<open>platform/idempotency/src/canonical.ts\<close>: the canonical JSON text of a request payload. A payload is a
  \<open>js_value\<close>; numbers are the integers JavaScript prints exactly, without fractions and exponents. The lemmas show that canonicalisation
  accepts exactly plain JSON of bounded depth, that its result depends only on the payload's normal form
  (sorted keys, no undefined properties, no negative zero), and that distinct normal forms have distinct
  texts, so equal canonical texts mean equal requests. SHA-256 is a parameter.
\<close>

section \<open>Model\<close>

definition MAX_DEPTH :: nat where "MAX_DEPTH = 32"

text \<open>\<open>JSON.stringify\<close> on a string.\<close>

definition short_escapes :: "(nat \<times> char) list" where
  "short_escapes = [(34, CHR 0x22), (92, CHR 0x5C), (8, CHR ''b''), (12, CHR ''f''), (10, CHR ''n''), (13, CHR ''r''), (9, CHR ''t'')]"

definition json_char :: "char \<Rightarrow> string" where
  "json_char c = (case map_of short_escapes (of_char c) of
       Some e \<Rightarrow> [CHR 0x5C, e]
     | None \<Rightarrow> if (of_char c :: nat) < 32
               then [CHR 0x5C, CHR ''u'', CHR ''0'', CHR ''0'', lower_hex (of_char c div 16), lower_hex (of_char c mod 16)]
               else [c])"

definition json_string :: "string \<Rightarrow> string" where
  "json_string s = CHR 0x22 # concat (map json_char s) @ [CHR 0x22]"

definition json_int :: "int \<Rightarrow> string" where
  "json_int n = (if n < 0 then ''-'' else '''') @ nat_str (nat \<bar>n\<bar>)"

fun join_comma :: "string list \<Rightarrow> string" where
  "join_comma [] = ''''"
| "join_comma [x] = x"
| "join_comma (x # y # ys) = x @ '','' @ join_comma (y # ys)"

definition json_entries :: "(string \<times> js_value) list \<Rightarrow> (string \<times> js_value) list" where
  "json_entries es = sort_key fst (filter (\<lambda>(_, child). child \<noteq> JUndefined) es)"

lemma json_entries_size: "(k, v) \<in> set (json_entries es) \<Longrightarrow> size v < Suc (size_list (size_prod (\<lambda>_. 0) size) es)"
proof -
  assume "(k, v) \<in> set (json_entries es)"
  then have "(k, v) \<in> set es" by (auto simp: json_entries_def)
  from size_list_estimation' [OF this, of "size v" "size_prod (\<lambda>_. 0) size"] show ?thesis by simp
qed

function canonicalJson :: "js_value \<Rightarrow> nat \<Rightarrow> string res" where
  "canonicalJson val depth =
     (if depth > MAX_DEPTH then reject invalid_trusted_context
      else (case val of
          JNull \<Rightarrow> Inr ''null''
        | JBool b \<Rightarrow> Inr (if b then ''true'' else ''false'')
        | JString s \<Rightarrow> Inr (json_string s)
        | JNumber n \<Rightarrow> (case n of Num i \<Rightarrow> Inr (json_int i) | NegZero \<Rightarrow> Inr ''0'' | _ \<Rightarrow> reject invalid_trusted_context)
        | JArray items \<Rightarrow>
            bindR (mapR (\<lambda>item. if item = JUndefined then canonicalJson JNull (depth + 1) else canonicalJson item (depth + 1)) items)
              (\<lambda>texts. Inr (''['' @ join_comma texts @ '']''))
        | JObject entries \<Rightarrow>
            bindR (mapR (\<lambda>(key, child). bindR (canonicalJson child (depth + 1)) (\<lambda>t. Inr (json_string key @ '':'' @ t))) (json_entries entries))
              (\<lambda>texts. Inr (''{'' @ join_comma texts @ ''}''))
        | _ \<Rightarrow> reject invalid_trusted_context))"
  by pat_completeness auto
termination
proof (relation "measure (\<lambda>(v, _). size v)", goal_cases)
  case (2 v depth items x)
  then show ?case by (cases items) (auto simp: neq_Nil_conv)
next
  case (3 v depth items x)
  then show ?case by (simp add: size_list_estimation' less_Suc_eq_le)
next
  case (4 v depth entries p key child)
  then show ?case using json_entries_size [of key child entries] by auto
qed simp

declare canonicalJson.simps [simp del]

definition canonicalRequestHash :: "(string \<Rightarrow> string) \<Rightarrow> string \<Rightarrow> js_value \<Rightarrow> string res" where
  "canonicalRequestHash sha256 scope payload =
     bindR (canonicalJson (JObject [(''scope'', JString scope), (''payload'', payload)]) 0) (\<lambda>t. Inr (sha256 t))"

definition hashesEqual :: "string \<Rightarrow> string \<Rightarrow> bool" where
  "hashesEqual left right \<longleftrightarrow> left = right"

section \<open>Normal forms and their text\<close>

function normal :: "js_value \<Rightarrow> js_value" where
  "normal v = (case v of
      JNumber NegZero \<Rightarrow> JNumber (Num 0)
    | JArray items \<Rightarrow> JArray (map (\<lambda>item. if item = JUndefined then JNull else normal item) items)
    | JObject es \<Rightarrow> JObject (map (\<lambda>(k, child). (k, normal child)) (json_entries es))
    | _ \<Rightarrow> v)"
  by pat_completeness auto
termination
proof (relation "measure size", goal_cases)
  case (2 v items x)
  then show ?case by (simp add: size_list_estimation' less_Suc_eq_le)
next
  case (3 v es p k child)
  then show ?case using json_entries_size [of k child es] by auto
qed simp

declare normal.simps [simp del]

text \<open>The text of plain JSON, and which values are plain JSON.\<close>

fun ser :: "js_value \<Rightarrow> string" where
  "ser JNull = ''null''"
| "ser (JBool b) = (if b then ''true'' else ''false'')"
| "ser (JString s) = json_string s"
| "ser (JNumber (Num i)) = json_int i"
| "ser (JArray vs) = ''['' @ join_comma (map ser vs) @ '']''"
| "ser (JObject es) = ''{'' @ join_comma (map (\<lambda>(k, v). json_string k @ '':'' @ ser v) es) @ ''}''"
| "ser _ = ''''"

fun plain :: "js_value \<Rightarrow> bool" where
  "plain JNull = True"
| "plain (JBool b) = True"
| "plain (JString s) = True"
| "plain (JNumber (Num i)) = True"
| "plain (JArray vs) = list_all plain vs"
| "plain (JObject es) = list_all (\<lambda>(k, v). plain v) es"
| "plain _ = False"

lemma mapR_texts:
  assumes "mapR f xs = Inr ts" "\<And>x t. x \<in> set xs \<Longrightarrow> f x = Inr t \<Longrightarrow> t = g x \<and> P x"
  shows "ts = map g xs \<and> list_all P xs"
  using assms by (induction xs arbitrary: ts) (auto simp: bindR_Inr_iff)

lemma canonicalJson_ser: "canonicalJson v d = Inr s \<Longrightarrow> s = ser (normal v) \<and> plain (normal v)"
proof (induction v d arbitrary: s rule: canonicalJson.induct)
  case (1 v d)
  have d: "\<not> MAX_DEPTH < d" using 1(4) by (subst (asm) canonicalJson.simps) (simp split: if_splits)
  show ?case
  proof (cases v)
    case (JArray items)
    let ?f = "\<lambda>item. if item = JUndefined then canonicalJson JNull (d + 1) else canonicalJson item (d + 1)"
    let ?n = "\<lambda>item. if item = JUndefined then JNull else normal item"
    obtain ts where ts: "mapR ?f items = Inr ts" "s = ''['' @ join_comma ts @ '']''"
      using 1(4) JArray d by (subst (asm) canonicalJson.simps) (auto simp: bindR_Inr_iff)
    have "t = ser (?n i) \<and> plain (?n i)" if "i \<in> set items" "?f i = Inr t" for i t
    proof (cases "i = JUndefined")
      case True then show ?thesis using that(2) by (subst (asm) canonicalJson.simps) (auto split: if_splits)
    next
      case False then show ?thesis using 1(2) [OF d JArray that(1) False] that(2) by simp
    qed
    from mapR_texts [OF ts(1), of "\<lambda>i. ser (?n i)" "\<lambda>i. plain (?n i)", OF this]
    have "ts = map (\<lambda>i. ser (?n i)) items \<and> list_all (\<lambda>i. plain (?n i)) items" .
    then show ?thesis using ts(2) by (subst (1 2) normal.simps) (auto simp: JArray o_def list_all_iff)
  next
    case (JObject es)
    let ?f = "\<lambda>(key, child). bindR (canonicalJson child (d + 1)) (\<lambda>t. Inr (json_string key @ '':'' @ t))"
    obtain ts where ts: "mapR ?f (json_entries es) = Inr ts" "s = ''{'' @ join_comma ts @ ''}''"
      using 1(4) JObject d by (subst (asm) canonicalJson.simps) (auto simp: bindR_Inr_iff)
    have "t = (\<lambda>(k, c). json_string k @ '':'' @ ser (normal c)) p \<and> (\<lambda>(k, c). plain (normal c)) p"
      if "p \<in> set (json_entries es)" "?f p = Inr t" for p t
      using 1(3) [OF d JObject that(1)] that(2) by (cases p) (auto simp: bindR_Inr_iff)
    from mapR_texts [OF ts(1), of "\<lambda>(k, c). json_string k @ '':'' @ ser (normal c)" "\<lambda>(k, c). plain (normal c)", OF this]
    have "ts = map (\<lambda>(k, c). json_string k @ '':'' @ ser (normal c)) (json_entries es) \<and> list_all (\<lambda>(k, c). plain (normal c)) (json_entries es)" .
    then show ?thesis using ts(2) by (subst (1 2) normal.simps) (simp add: JObject o_def case_prod_unfold list_all_iff)
  next
    case (JNumber n)
    then show ?thesis using 1(4) d
      by (cases n; subst (1 2) normal.simps; subst (asm) canonicalJson.simps) (auto simp: json_int_def)
  qed (use 1(4) d in \<open>(subst (1 2) normal.simps; subst (asm) canonicalJson.simps; auto)+\<close>)
qed

section \<open>The text determines the value\<close>

lemma short_escapes_inj: "map_of short_escapes m = Some e \<Longrightarrow> map_of short_escapes n = Some e \<Longrightarrow> m = n"
  by (auto simp: short_escapes_def split: if_splits)

lemma short_escapes_not_u: "map_of short_escapes m \<noteq> Some (CHR ''u'')"
  by (simp add: short_escapes_def)

lemma backslash_escaped: "map_of short_escapes (of_char c) = None \<Longrightarrow> c \<noteq> CHR 0x5C \<and> c \<noteq> CHR 0x22"
  by (auto simp: short_escapes_def split: if_splits)

lemma json_char_cases:
  obtains (short) e where "map_of short_escapes (of_char c) = Some e" "json_char c = [CHR 0x5C, e]"
  | (long) "(of_char c :: nat) < 32"
      "json_char c = [CHR 0x5C, CHR ''u'', CHR ''0'', CHR ''0'', lower_hex (of_char c div 16), lower_hex (of_char c mod 16)]"
  | (plain) "c \<noteq> CHR 0x5C" "c \<noteq> CHR 0x22" "json_char c = [c]"
  using backslash_escaped [of c] by (cases "map_of short_escapes (of_char c)"; cases "(of_char c :: nat) < 32") (auto simp: json_char_def)

lemma long_escape_inj:
  assumes "lower_hex (m div 16) = lower_hex (n div 16)" "lower_hex (m mod 16) = lower_hex (n mod 16)" "m < 32" "n < 32"
  shows "m = n"
proof -
  have "m div 16 = n div 16" "m mod 16 = n mod 16" using assms by (auto intro!: lower_hex_inj)
  then show ?thesis by (metis div_mult_mod_eq)
qed

lemma json_char_prefix:
  assumes "json_char c @ xs = json_char d @ ys" shows "c = d \<and> xs = ys"
proof (cases rule: json_char_cases [of c])
  case (short e)
  then show ?thesis
  proof (cases rule: json_char_cases [of d])
    case (short e')
    then have "e = e'" "xs = ys" using assms \<open>json_char c = [CHR 0x5C, e]\<close> by simp_all
    then have "(of_char c :: nat) = of_char d" using short_escapes_inj short \<open>map_of short_escapes (of_char c) = Some e\<close> by blast
    then show ?thesis using \<open>xs = ys\<close> by simp
  qed (use assms short short_escapes_not_u in auto)
next
  case long
  then show ?thesis
  proof (cases rule: json_char_cases [of d])
    case long2: long
    then have "(of_char c :: nat) = of_char d" using assms long by (intro long_escape_inj) simp_all
    moreover have "xs = ys" using assms long long2 by simp
    ultimately show ?thesis by simp
  qed (use assms long short_escapes_not_u in auto)
next
  case plain
  then show ?thesis using assms by (cases rule: json_char_cases [of d]) auto
qed

lemma json_char_no_quote: "json_char c @ xs \<noteq> CHR 0x22 # ys"
  by (cases rule: json_char_cases [of c]) auto

lemma json_chars_prefix:
  "concat (map json_char s) @ CHR 0x22 # xs = concat (map json_char t) @ CHR 0x22 # ys \<Longrightarrow> s = t \<and> xs = ys"
proof (induction s arbitrary: t)
  case Nil
  show ?case
  proof (cases t)
    case (Cons d t')
    then have "json_char d @ (concat (map json_char t') @ CHR 0x22 # ys) = CHR 0x22 # xs" using Nil by simp
    then show ?thesis using json_char_no_quote by blast
  qed (use Nil in simp)
next
  case (Cons c s)
  show ?case
  proof (cases t)
    case Nil
    then have "json_char c @ (concat (map json_char s) @ CHR 0x22 # xs) = CHR 0x22 # ys" using Cons.prems by simp
    then show ?thesis using json_char_no_quote by blast
  next
    case (Cons d t')
    then have "json_char c @ (concat (map json_char s) @ CHR 0x22 # xs) = json_char d @ (concat (map json_char t') @ CHR 0x22 # ys)"
      using Cons.prems by simp
    from json_char_prefix [OF this] show ?thesis using Cons.IH [of t'] Cons by simp
  qed
qed

lemma json_string_prefix: "json_string s @ xs = json_string t @ ys \<Longrightarrow> s = t \<and> xs = ys"
  using json_chars_prefix [of s xs t ys] by (simp add: json_string_def)

definition delimited :: "string \<Rightarrow> bool" where
  "delimited r \<longleftrightarrow> r = [] \<or> hd r \<in> {CHR '','', CHR '']'', CHR 0x7D}"

lemma delimited_not_digit: "delimited r \<Longrightarrow> takeWhile is_digit (nat_str n @ r) = nat_str n"
  using nat_str_digits [of _ n] by (cases r) (auto simp: takeWhile_append delimited_def is_digit_of_char)

lemma json_int_prefix:
  assumes "json_int a @ xs = json_int b @ ys" "delimited xs" "delimited ys"
  shows "a = b \<and> xs = ys"
proof -
  have hd: "hd (nat_str n) \<noteq> CHR ''-''" for n
    using nat_str_digits [of "hd (nat_str n)" n] by (auto simp: is_digit_of_char)
  have neg: "(a < 0) = (b < 0)"
    using arg_cong [OF assms(1), of hd] hd [of "nat \<bar>a\<bar>"] hd [of "nat \<bar>b\<bar>"] by (auto simp: json_int_def split: if_splits)
  then have eq: "nat_str (nat \<bar>a\<bar>) @ xs = nat_str (nat \<bar>b\<bar>) @ ys" using assms(1) by (auto simp: json_int_def split: if_splits)
  then have n: "nat_str (nat \<bar>a\<bar>) = nat_str (nat \<bar>b\<bar>)" using delimited_not_digit assms(2,3) by metis
  then have "nat \<bar>a\<bar> = nat \<bar>b\<bar>" by (metis digits_val_nat_str)
  then show ?thesis using neg eq n by auto
qed

text \<open>Lists of texts: after the first one, each is preceded by a comma.\<close>

lemma join_comma_Cons: "join_comma (x # xs) = x @ concat (map (\<lambda>y. '','' @ y) xs)"
  by (induction xs arbitrary: x) simp_all

lemma commas_prefix:
  assumes "\<And>a b r r'. a \<in> set as \<Longrightarrow> b \<in> set bs \<Longrightarrow> f a @ r = f b @ r' \<Longrightarrow> delimited r \<Longrightarrow> delimited r' \<Longrightarrow> a = b \<and> r = r'"
    and "concat (map (\<lambda>a. '','' @ f a) as) @ c # xs = concat (map (\<lambda>a. '','' @ f a) bs) @ c # ys" "c \<in> {CHR '']'', CHR 0x7D}"
  shows "as = bs \<and> xs = ys"
  using assms(1,2)
proof (induction as arbitrary: bs)
  case Nil
  then show ?case using assms(3) by (cases bs) auto
next
  case (Cons a as)
  obtain b bs' where bs: "bs = b # bs'" using Cons.prems(2) assms(3) by (cases bs) auto
  have del: "delimited (concat (map (\<lambda>a. '','' @ f a) zs) @ c # zz)" for zs zz
    using assms(3) by (cases zs) (auto simp: delimited_def)
  have "f a @ (concat (map (\<lambda>a. '','' @ f a) as) @ c # xs) = f b @ (concat (map (\<lambda>a. '','' @ f a) bs') @ c # ys)"
    using Cons.prems(2) bs by simp
  from Cons.prems(1) [OF _ _ this] del bs
  have "a = b" "concat (map (\<lambda>a. '','' @ f a) as) @ c # xs = concat (map (\<lambda>a. '','' @ f a) bs') @ c # ys" by simp_all
  then show ?case using Cons.IH [of bs'] Cons.prems(1) bs by auto
qed

lemma join_prefix:
  assumes "\<And>a b r r'. a \<in> set as \<Longrightarrow> b \<in> set bs \<Longrightarrow> f a @ r = f b @ r' \<Longrightarrow> delimited r \<Longrightarrow> delimited r' \<Longrightarrow> a = b \<and> r = r'"
    and "\<And>a r. a \<in> set as \<union> set bs \<Longrightarrow> \<not> delimited (f a @ r)"
    and "join_comma (map f as) @ c # xs = join_comma (map f bs) @ c # ys" "c \<in> {CHR '']'', CHR 0x7D}"
  shows "as = bs \<and> xs = ys"
proof (cases as)
  case Nil
  show ?thesis
  proof (cases bs)
    case (Cons b bs')
    then have "f b @ (concat (map (\<lambda>y. '','' @ y) (map f bs')) @ c # ys) = c # xs" using assms(3) Nil by (simp add: join_comma_Cons)
    moreover have "delimited (c # xs)" using assms(4) by (auto simp: delimited_def)
    moreover have "b \<in> set as \<union> set bs" using Cons by simp
    ultimately show ?thesis using assms(2) by metis
  qed (use Nil assms in auto)
next
  case (Cons a as')
  show ?thesis
  proof (cases bs)
    case Nil
    then have "f a @ (concat (map (\<lambda>y. '','' @ y) (map f as')) @ c # xs) = c # ys" using assms(3) Cons by (simp add: join_comma_Cons)
    moreover have "delimited (c # ys)" using assms(4) by (auto simp: delimited_def)
    moreover have "a \<in> set as \<union> set bs" using Cons by simp
    ultimately show ?thesis using assms(2) by metis
  next
    case (Cons b bs')
    have "concat (map (\<lambda>a. '','' @ f a) as) @ c # xs = concat (map (\<lambda>a. '','' @ f a) bs) @ c # ys"
      using assms(3) \<open>as = a # as'\<close> Cons by (simp add: join_comma_Cons o_def)
    from commas_prefix [OF assms(1) this assms(4)] show ?thesis by blast
  qed
qed

lemma nat_str_head: "\<exists>c cs. nat_str n = c # cs \<and> is_digit c"
  using nat_str_digits [of _ n] by (cases "nat_str n") auto

text \<open>The first character tells the kind of a plain value.\<close>

fun kind :: "js_value \<Rightarrow> nat" where
  "kind JNull = 0" | "kind (JBool b) = (if b then 1 else 2)" | "kind (JString _) = 3" | "kind (JNumber _) = 4"
| "kind (JArray _) = 5" | "kind (JObject _) = 6" | "kind _ = 7"

definition char_kind :: "char \<Rightarrow> nat" where
  "char_kind c = (if c = CHR ''n'' then 0 else if c = CHR ''t'' then 1 else if c = CHR ''f'' then 2 else if c = CHR 0x22 then 3
     else if is_digit c \<or> c = CHR ''-'' then 4 else if c = CHR ''['' then 5 else if c = CHR ''{'' then 6 else 8)"

lemma ser_head: "plain v \<Longrightarrow> \<exists>c cs. ser v = c # cs \<and> char_kind c = kind v"
proof (induction v rule: ser.induct)
  case (4 i)
  obtain c cs where "nat_str (nat \<bar>i\<bar>) = c # cs" "is_digit c" using nat_str_head by blast
  then show ?case by (auto simp: json_int_def char_kind_def is_digit_of_char)
qed (auto simp: char_kind_def json_string_def is_digit_of_char)

lemma ser_not_delimited: "plain v \<Longrightarrow> \<not> delimited (ser v @ r)"
proof
  assume "plain v" "delimited (ser v @ r)"
  then obtain c cs where "ser v = c # cs" "char_kind c = kind v" "c \<in> {CHR '','', CHR '']'', CHR 0x7D}"
    using ser_head [of v] by (auto simp: delimited_def)
  then have "kind v = 8" by (auto simp: char_kind_def is_digit_of_char)
  then show False by (cases v) (auto split: if_splits)
qed

lemma same_kind: "plain v \<Longrightarrow> plain w \<Longrightarrow> ser v @ r = ser w @ r' \<Longrightarrow> kind v = kind w"
  using ser_head [of v] ser_head [of w] by auto

lemma ser_prefix:
  "plain v \<Longrightarrow> plain w \<Longrightarrow> ser v @ r = ser w @ r' \<Longrightarrow> delimited r \<Longrightarrow> delimited r' \<Longrightarrow> v = w \<and> r = r'"
proof (induction v arbitrary: w r r' rule: ser.induct)
  case (1 w)
  have "kind JNull = kind w" using same_kind [OF 1(1) 1(2) 1(3)] .
  then show ?case using 1 by (cases w) (auto split: if_splits)
next
  case (2 b)
  have "kind (JBool b) = kind w" using same_kind [OF 2(1) 2(2) 2(3)] .
  then show ?case using 2 by (cases w) (auto split: if_splits)
next
  case (3 s)
  have "kind (JString s) = kind w" using same_kind [OF 3(1) 3(2) 3(3)] .
  then obtain t where "w = JString t" by (cases w) (simp_all split: if_splits)
  then show ?case using 3(3) json_string_prefix [of s r t r'] by simp
next
  case (4 i)
  have "kind (JNumber (Num i)) = kind w" using same_kind [OF 4(1) 4(2) 4(3)] .
  then obtain n where "w = JNumber n" by (cases w) (simp_all split: if_splits)
  then obtain j where "w = JNumber (Num j)" using 4(2) by (cases n) simp_all
  then show ?case using 4(3-5) json_int_prefix [of i r j r'] by simp
next
  case (5 vs)
  have "kind (JArray vs) = kind w" using same_kind [OF 5(2) 5(3) 5(4)] .
  then obtain ws where w: "w = JArray ws" by (cases w) (auto split: if_splits)
  have "vs = ws \<and> r = r'"
  proof (rule join_prefix [where f = ser and c = "CHR '']''"])
    show "join_comma (map ser vs) @ CHR '']'' # r = join_comma (map ser ws) @ CHR '']'' # r'" using 5(4) w by simp
    show "a = b \<and> x = y" if "a \<in> set vs" "b \<in> set ws" "ser a @ x = ser b @ y" "delimited x" "delimited y" for a b x y
      using 5(1) [OF that(1) _ _ that(3-5)] that(1,2) 5(2,3) w by (simp add: list_all_iff)
  qed (use 5(2,3) w ser_not_delimited in \<open>auto simp: list_all_iff\<close>)
  then show ?case using w by simp
next
  case (6 es)
  have "kind (JObject es) = kind w" using same_kind [OF 6(2) 6(3) 6(4)] .
  then obtain fs where w: "w = JObject fs" by (cases w) (auto split: if_splits)
  let ?f = "\<lambda>(k, v). json_string k @ '':'' @ ser v"
  have "es = fs \<and> r = r'"
  proof (rule join_prefix [where f = ?f and c = "CHR 0x7D"])
    show "join_comma (map ?f es) @ CHR 0x7D # r = join_comma (map ?f fs) @ CHR 0x7D # r'" using 6(4) w by simp
    show "a = b \<and> x = y" if ab: "a \<in> set es" "b \<in> set fs" "?f a @ x = ?f b @ y" "delimited x" "delimited y" for a b x y
    proof -
      obtain k v l u where kv: "a = (k, v)" "b = (l, u)" by (cases a, cases b)
      then have "json_string k @ (CHR '':'' # ser v @ x) = json_string l @ (CHR '':'' # ser u @ y)" using ab(3) by simp
      then have "k = l" "ser v @ x = ser u @ y" using json_string_prefix by blast+
      then show ?thesis using 6(1) [OF ab(1) kv(1) [symmetric], of u x y] ab kv 6(2,3) w by (auto simp: list_all_iff)
    qed
    show "\<not> delimited (?f a @ x)" for a x by (cases a) (auto simp: json_string_def delimited_def)
  qed simp
  then show ?case using w by simp
qed simp_all

lemma canonicalJson_text_inj:
  "canonicalJson v d = Inr s \<Longrightarrow> canonicalJson w d' = Inr s \<Longrightarrow> normal v = normal w"
  using canonicalJson_ser ser_prefix [of "normal v" "normal w" "[]" "[]"] by (fastforce simp: delimited_def)

section \<open>Properties\<close>

text \<open>C25: canonicalisation is injective on requests: two payloads with the same canonical text have the
  same normal form (equal after sorting keys, dropping undefined properties, reading undefined array
  items as null and normalising negative zero), so different requests never share a text.\<close>

theorem canonical_json_injective:
  assumes "canonicalJson v d = Inr s" "canonicalJson w d' = Inr s"
  shows "normal v = normal w"
  using assms by (rule canonicalJson_text_inj)

lemma eval_canonical:
  "canonicalJson (JObject [(''b'', JNumber NegZero), (''a'', JArray [JUndefined]), (''c'', JUndefined)]) 0 =
   Inr (''{'' @ json_string ''a'' @ '':[null],'' @ json_string ''b'' @ '':0}'')"
proof -
  have "json_entries [(''b'', JNumber NegZero), (''a'', JArray [JUndefined]), (''c'', JUndefined)]
      = [(''a'', JArray [JUndefined]), (''b'', JNumber NegZero)]"
    by (simp add: json_entries_def less_eq_char_def less_char_def)
  then show ?thesis by (subst canonicalJson.simps) (simp add: canonicalJson.simps MAX_DEPTH_def)
qed

lemma eval_canonical_plain:
  "canonicalJson (JObject [(''a'', JArray [JNull]), (''b'', JNumber (Num 0))]) 0 =
   Inr (''{'' @ json_string ''a'' @ '':[null],'' @ json_string ''b'' @ '':0}'')"
proof -
  have "json_entries [(''a'', JArray [JNull]), (''b'', JNumber (Num 0))] = [(''a'', JArray [JNull]), (''b'', JNumber (Num 0))]"
    by (simp add: json_entries_def less_eq_char_def less_char_def)
  then show ?thesis by (subst canonicalJson.simps) (simp add: canonicalJson.simps MAX_DEPTH_def json_int_def)
qed

theorem canonical_json_injective_witness:
  "normal (JObject [(''b'', JNumber NegZero), (''a'', JArray [JUndefined]), (''c'', JUndefined)]) =
   normal (JObject [(''a'', JArray [JNull]), (''b'', JNumber (Num 0))])"
  using canonical_json_injective [OF eval_canonical eval_canonical_plain] .

text \<open>Conversely the text depends only on the normal form.\<close>

lemma canonicalJson_normal_eq:
  "canonicalJson v d = Inr s \<Longrightarrow> canonicalJson w d' = Inr s' \<Longrightarrow> normal v = normal w \<Longrightarrow> s = s'"
  using canonicalJson_ser [of v d s] canonicalJson_ser [of w d' s'] by simp

end
