(* ===== verification/Problem_Model.thy ===== *)
theory Problem_Model
  imports Tenant_Context
begin

text \<open>
  \<open>platform/problem-model/src\<close>: the registry of problem codes, the trace identifiers of a request, the
  boundary that turns any thrown value into a response, and the card-number check of the redaction.
  A response body carries the registered title and status of its code; the detail sentence and field
  errors are not modelled (see \<open>Prelude\<close>), nor are the redaction's regular expressions. The lemmas show
  that anything but a registered problem is answered by one fixed internal error and reported, that a
  response always carries a valid correlation ID, and that the card-number check detects every
  single-digit change.
\<close>

section \<open>Model\<close>

fun PROBLEM_CATALOG :: "problem_code \<Rightarrow> int \<times> string" where
  "PROBLEM_CATALOG invalid_trusted_context = (400, ''Invalid trusted context'')"
| "PROBLEM_CATALOG request_validation_failed = (400, ''Invalid request'')"
| "PROBLEM_CATALOG resource_not_found = (404, ''Resource not found'')"
| "PROBLEM_CATALOG precondition_failed = (412, ''Precondition failed'')"
| "PROBLEM_CATALOG authentication_failed = (401, ''Authentication failed'')"
| "PROBLEM_CATALOG authentication_assurance_insufficient = (403, ''Authentication assurance insufficient'')"
| "PROBLEM_CATALOG workload_scope_denied = (403, ''Workload scope denied'')"
| "PROBLEM_CATALOG untrusted_tenant_context = (400, ''Untrusted tenant context'')"
| "PROBLEM_CATALOG tenant_access_denied = (403, ''Tenant access denied'')"
| "PROBLEM_CATALOG tenant_not_active = (403, ''Tenant unavailable'')"
| "PROBLEM_CATALOG invalid_timestamp = (422, ''Invalid timestamp'')"
| "PROBLEM_CATALOG tenant_display_name_required = (422, ''Invalid tenant'')"
| "PROBLEM_CATALOG tenant_version_conflict = (409, ''Tenant version conflict'')"
| "PROBLEM_CATALOG invalid_tenant_transition = (409, ''Invalid tenant transition'')"
| "PROBLEM_CATALOG platform_access_denied = (403, ''Platform access denied'')"
| "PROBLEM_CATALOG tenant_not_found = (404, ''Tenant not found'')"
| "PROBLEM_CATALOG tenant_already_exists = (409, ''Tenant already exists'')"
| "PROBLEM_CATALOG tenant_reason_required = (422, ''Reason required'')"
| "PROBLEM_CATALOG permission_denied = (403, ''Permission denied'')"
| "PROBLEM_CATALOG unknown_permission = (500, ''Unknown permission'')"
| "PROBLEM_CATALOG role_not_found = (404, ''Role not found'')"
| "PROBLEM_CATALOG role_assignment_exists = (409, ''Role assignment exists'')"
| "PROBLEM_CATALOG role_assignment_not_found = (404, ''Role assignment not found'')"
| "PROBLEM_CATALOG separation_of_duties_violation = (403, ''Separation of duties violation'')"
| "PROBLEM_CATALOG approval_policy_not_found = (404, ''Approval policy not found'')"
| "PROBLEM_CATALOG approval_not_found = (404, ''Approval not found'')"
| "PROBLEM_CATALOG approval_not_pending = (409, ''Approval not pending'')"
| "PROBLEM_CATALOG approval_expired = (409, ''Approval expired'')"
| "PROBLEM_CATALOG approval_version_conflict = (409, ''Approval version conflict'')"
| "PROBLEM_CATALOG approval_target_mismatch = (409, ''Approval target mismatch'')"
| "PROBLEM_CATALOG approval_approver_not_eligible = (403, ''Approver not eligible'')"
| "PROBLEM_CATALOG last_administrator_protected = (409, ''Last administrator protected'')"
| "PROBLEM_CATALOG idempotency_key_required = (400, ''Idempotency key required'')"
| "PROBLEM_CATALOG idempotency_key_invalid = (400, ''Idempotency key invalid'')"
| "PROBLEM_CATALOG idempotency_key_reused_with_different_payload = (409, ''Idempotency key reused with different payload'')"
| "PROBLEM_CATALOG request_in_progress = (409, ''Request in progress'')"
| "PROBLEM_CATALOG dead_letter_not_resolvable = (409, ''Dead letter not resolvable'')"
| "PROBLEM_CATALOG dead_letter_reason_required = (422, ''Reason required'')"
| "PROBLEM_CATALOG audit_policy_missing = (500, ''Audit policy missing'')"
| "PROBLEM_CATALOG audit_event_invalid = (500, ''Audit event invalid'')"
| "PROBLEM_CATALOG tenant_context_missing = (500, ''Tenant context required'')"
| "PROBLEM_CATALOG tenant_context_mismatch = (500, ''Tenant context mismatch'')"
| "PROBLEM_CATALOG invalid_decimal = (422, ''Invalid decimal'')"
| "PROBLEM_CATALOG calculation_rejected = (422, ''Calculation rejected'')"
| "PROBLEM_CATALOG unsupported_currency = (422, ''Unsupported currency'')"
| "PROBLEM_CATALOG currency_mismatch = (422, ''Currency mismatch'')"
| "PROBLEM_CATALOG internal_error = (500, ''Internal error'')"

definition problem_status :: "problem_code \<Rightarrow> int" where
  "problem_status c = fst (PROBLEM_CATALOG c)"

definition PROBLEM_STATUSES :: "int list" where
  "PROBLEM_STATUSES = [400, 401, 403, 404, 409, 412, 422, 429, 500, 503]"

text \<open>\<open>problem\<close> and the constructor of \<open>PlatformProblem\<close>: an explicit status or title must be the
  registered one, and a retry hint is kept only when it is a positive integer.\<close>

definition mkProblem :: "problem_code \<Rightarrow> int option \<Rightarrow> string option \<Rightarrow> string option \<Rightarrow> js_number option \<Rightarrow> err" where
  "mkProblem code st ttl correlation retryAfter =
     (if (case st of None \<Rightarrow> False | Some s \<Rightarrow> s \<noteq> fst (PROBLEM_CATALOG code)) \<or>
         (case ttl of None \<Rightarrow> False | Some t \<Rightarrow> t \<noteq> snd (PROBLEM_CATALOG code)) then TypeError
      else Problem code correlation
        (case retryAfter of None \<Rightarrow> None
         | Some r \<Rightarrow> (case js_integer r of None \<Rightarrow> None | Some n \<Rightarrow> if n > 0 then Some n else None)))"

text \<open>Trace identifiers: \<open>generate\<close> stands for the random identifier source.\<close>

definition resolveTraceIds :: "string option \<Rightarrow> string option \<Rightarrow> string \<Rightarrow> string \<times> string option" where
  "resolveTraceIds correlation causation generated =
     ((case correlation of Some c \<Rightarrow> if isValidTraceId c then c else generated | None \<Rightarrow> generated),
      (case causation of Some c \<Rightarrow> if isValidTraceId c then Some c else None | None \<Rightarrow> None))"

record boundary_context =
  bc_correlationId :: "string option"
  bc_causationId :: "string option"
  bc_route :: "string option"

record problem_response =
  resp_status :: int
  resp_title :: string
  resp_code :: problem_code
  resp_correlation :: string
  resp_retryAfter :: "int option"

datatype error_reason = unhandled_exception | server_problem

record error_report =
  rep_reason :: error_reason
  rep_occurredAt :: instant
  rep_correlationId :: string
  rep_causationId :: "string option"
  rep_route :: "string option"
  rep_responseCode :: problem_code

definition pickCorrelationId :: "boundary_context \<Rightarrow> string option \<Rightarrow> string \<Rightarrow> string" where
  "pickCorrelationId context carried generated =
     (case bc_correlationId context of
        Some c \<Rightarrow> if isValidTraceId c then c
                  else (case carried of Some k \<Rightarrow> if isValidTraceId k then k else generated | None \<Rightarrow> generated)
      | None \<Rightarrow> (case carried of Some k \<Rightarrow> if isValidTraceId k then k else generated | None \<Rightarrow> generated))"

text \<open>The response, and the report handed to the sink (whose own failures are swallowed).\<close>

definition mapErrorToProblemResponse :: "err \<Rightarrow> boundary_context \<Rightarrow> instant \<Rightarrow> string \<Rightarrow> problem_response \<times> error_report option" where
  "mapErrorToProblemResponse error context now generated =
     (let known = (case error of Problem c corr r \<Rightarrow> Some (c, corr, r) | _ \<Rightarrow> None);
          code = (case known of Some (c, _, _) \<Rightarrow> c | None \<Rightarrow> internal_error);
          corr = pickCorrelationId context (case known of Some (_, k, _) \<Rightarrow> k | None \<Rightarrow> None) generated;
          report = (if known = None \<or> problem_status code \<ge> 500
                    then Some \<lparr>rep_reason = (if known = None then unhandled_exception else server_problem), rep_occurredAt = now,
                           rep_correlationId = corr, rep_causationId = bc_causationId context, rep_route = bc_route context,
                           rep_responseCode = code\<rparr>
                    else None)
      in (\<lparr>resp_status = problem_status code, resp_title = snd (PROBLEM_CATALOG code), resp_code = code,
           resp_correlation = corr, resp_retryAfter = (case known of Some (_, _, r) \<Rightarrow> r | None \<Rightarrow> None)\<rparr>, report))"

definition runAtProblemBoundary :: "boundary_context \<Rightarrow> ('s, 'a) tx \<Rightarrow> instant \<Rightarrow> string \<Rightarrow> 's \<Rightarrow>
    ('a + problem_response \<times> error_report option) \<times> 's" where
  "runAtProblemBoundary context operation now generated s =
     (case operation s of
        (Inr x, s') \<Rightarrow> (Inl x, s')
      | (Inl e, s') \<Rightarrow> (Inr (mapErrorToProblemResponse e context now generated), s'))"

text \<open>The loop of \<open>passesLuhn\<close>, over the digits from the last to the first.\<close>

fun luhn_sum :: "nat list \<Rightarrow> bool \<Rightarrow> nat" where
  "luhn_sum [] dbl = 0"
| "luhn_sum (d # ds) dbl =
     (if dbl then (if d * 2 > 9 then d * 2 - 9 else d * 2) else d) + luhn_sum ds (\<not> dbl)"

definition passesLuhn :: "string \<Rightarrow> bool" where
  "passesLuhn digits = (luhn_sum (map (\<lambda>c. of_char c - 48) (rev digits)) False mod 10 = 0)"

section \<open>Properties\<close>

lemma catalog_statuses: "problem_status c \<in> set PROBLEM_STATUSES"
  by (cases c) (simp_all add: problem_status_def PROBLEM_STATUSES_def)

lemma internal_status: "problem_status internal_error = 500"
  by (simp add: problem_status_def)

text \<open>The problem boundary never leaks and never goes untraced. The response of any thrown value
  has the registered status and title of its code; a value that is not a registered problem is
  answered by the one fixed internal error, independent of what was thrown; every internal or
  server-side error is reported under the response's correlation ID and nothing else is reported; and
  the correlation ID is the trusted ingress one whenever that is valid, and always valid when the
  generated one is.\<close>

theorem problem_boundary:
  assumes "mapErrorToProblemResponse e context now generated = (r, report)" "isValidTraceId generated"
  shows "resp_status r \<in> set PROBLEM_STATUSES \<and> resp_title r = snd (PROBLEM_CATALOG (resp_code r)) \<and>
    resp_code r = (case e of Problem c _ _ \<Rightarrow> c | _ \<Rightarrow> internal_error) \<and>
    (report \<noteq> None \<longleftrightarrow> 500 \<le> resp_status r) \<and>
    (\<forall>p. report = Some p \<longrightarrow> rep_correlationId p = resp_correlation r \<and> rep_responseCode p = resp_code r) \<and>
    isValidTraceId (resp_correlation r) \<and>
    (\<forall>c. bc_correlationId context = Some c \<and> isValidTraceId c \<longrightarrow> resp_correlation r = c)"
proof -
  have valid: "isValidTraceId (pickCorrelationId context k generated)" for k
    using assms(2) by (auto simp: pickCorrelationId_def split: option.splits)
  have wins: "bc_correlationId context = Some c \<Longrightarrow> isValidTraceId c \<Longrightarrow> pickCorrelationId context k generated = c" for c k
    by (simp add: pickCorrelationId_def)
  show ?thesis
  proof (cases e)
    case (Problem c k x)
    then show ?thesis using assms(1) catalog_statuses [of c] valid [of k] wins [of _ k]
      by (auto simp: mapErrorToProblemResponse_def Let_def split: if_splits)
  qed (use assms(1) catalog_statuses [of internal_error] valid [of None] wins [of _ None] in
      \<open>auto simp: mapErrorToProblemResponse_def Let_def internal_status\<close>)
qed

lemma eval_boundary:
  "mapErrorToProblemResponse TypeError \<lparr>bc_correlationId = Some ''req-1'', bc_causationId = None, bc_route = None\<rparr> 5 ''corr_x'' =
   (\<lparr>resp_status = 500, resp_title = ''Internal error'', resp_code = internal_error, resp_correlation = ''req-1'', resp_retryAfter = None\<rparr>,
    Some \<lparr>rep_reason = unhandled_exception, rep_occurredAt = 5, rep_correlationId = ''req-1'', rep_causationId = None,
      rep_route = None, rep_responseCode = internal_error\<rparr>)"
  by (simp add: mapErrorToProblemResponse_def Let_def problem_status_def pickCorrelationId_def isValidTraceId_def matches_head_tail_def
      is_trace_head_def is_trace_char_def is_lower_def is_upper_def is_digit_def less_eq_char_def)

theorem problem_boundary_witness: "isValidTraceId ''req-1''"
proof -
  have "isValidTraceId ''corr_x''"
    by (simp add: isValidTraceId_def matches_head_tail_def is_trace_head_def is_trace_char_def is_lower_def is_upper_def is_digit_def less_eq_char_def)
  from problem_boundary [OF eval_boundary this] show ?thesis by simp
qed

definition luhn_weight :: "bool \<Rightarrow> nat \<Rightarrow> nat" where
  "luhn_weight dbl d = (if dbl then (if d * 2 > 9 then d * 2 - 9 else d * 2) else d)"

lemma luhn_weight_inj: "a \<le> 9 \<Longrightarrow> b \<le> 9 \<Longrightarrow> luhn_weight dbl a mod 10 = luhn_weight dbl b mod 10 \<Longrightarrow> a = b"
proof -
  assume "a \<le> 9" "b \<le> 9" and eq: "luhn_weight dbl a mod 10 = luhn_weight dbl b mod 10"
  then have "a \<in> {0, 1, 2, 3, 4, 5, 6, 7, 8, 9}" "b \<in> {0, 1, 2, 3, 4, 5, 6, 7, 8, 9}" by auto
  then show "a = b" using eq by (cases dbl) (auto simp: luhn_weight_def)
qed

lemma mod_add_cancel_10: "(a + c) mod 10 = (b + c) mod 10 \<Longrightarrow> a mod 10 = b mod (10::nat)"
proof -
  assume "(a + c) mod 10 = (b + c) mod 10"
  then have "(int a + int c) mod 10 = (int b + int c) mod 10" by (metis of_nat_add of_nat_numeral zmod_int)
  then have "(int a + int c - int c) mod 10 = (int b + int c - int c) mod 10" by (rule mod_diff_cong) simp
  then have "int (a mod 10) = int (b mod 10)" by (simp add: zmod_int)
  then show ?thesis by simp
qed

lemma luhn_sum_update:
  assumes "i < length ds" "ds ! i \<le> 9" "d \<le> 9" "luhn_sum ds dbl mod 10 = luhn_sum (ds[i := d]) dbl mod 10"
  shows "ds ! i = d"
  using assms
proof (induction ds arbitrary: i dbl)
  case (Cons x xs)
  show ?case
  proof (cases i)
    case 0
    have "(luhn_weight dbl x + luhn_sum xs (\<not> dbl)) mod 10 = (luhn_weight dbl d + luhn_sum xs (\<not> dbl)) mod 10"
      using Cons.prems 0 by (simp add: luhn_weight_def)
    then have "luhn_weight dbl x mod 10 = luhn_weight dbl d mod 10" by (rule mod_add_cancel_10)
    then show ?thesis using luhn_weight_inj [of x d dbl] Cons.prems 0 by simp
  next
    case (Suc j)
    have "(luhn_sum xs (\<not> dbl) + luhn_weight dbl x) mod 10 = (luhn_sum (xs[j := d]) (\<not> dbl) + luhn_weight dbl x) mod 10"
      using Cons.prems(4) Suc by (simp add: luhn_weight_def add.commute)
    then have "luhn_sum xs (\<not> dbl) mod 10 = luhn_sum (xs[j := d]) (\<not> dbl) mod 10" by (rule mod_add_cancel_10)
    then show ?thesis using Cons.IH [of j "\<not> dbl"] Cons.prems Suc by simp
  qed
qed simp

text \<open>The card-number check detects every change of a single digit.\<close>

lemma luhn_detects_single_digit_error:
  assumes "list_all is_digit s" "is_digit c" "i < length s" "s ! i \<noteq> c" "passesLuhn s"
  shows "\<not> passesLuhn (s[i := c])"
proof
  assume "passesLuhn (s[i := c])"
  let ?v = "\<lambda>c. of_char c - 48 :: nat" and ?j = "length s - 1 - i"
  have dig: "is_digit e \<Longrightarrow> ?v e \<le> 9" for e by (auto simp: is_digit_def less_eq_char_def)
  have "luhn_sum (map ?v (rev s)) False mod 10 = luhn_sum ((map ?v (rev s))[?j := ?v c]) False mod 10"
    using assms(3,5) \<open>passesLuhn (s[i := c])\<close> by (simp add: passesLuhn_def rev_update map_update)
  moreover have j: "?j < length s" using assms(3) by linarith
  moreover have nth: "map ?v (rev s) ! ?j = ?v (s ! i)" using assms(3) rev_nth [OF j] j by simp
  ultimately have "?v (s ! i) = ?v c"
    using luhn_sum_update [of ?j "map ?v (rev s)" "?v c" False] dig assms by (simp add: list_all_length)
  moreover have "48 \<le> (of_char e :: nat)" if "is_digit e" for e using that by (simp add: is_digit_def less_eq_char_def)
  moreover have "is_digit (s ! i)" using assms by (simp add: list_all_length)
  ultimately have "(of_char (s ! i) :: nat) = of_char c" using assms(2) by (metis le_add_diff_inverse)
  then show False using assms(4) by simp
qed

end
