(* ===== verification/Idempotency.thy ===== *)
theory Idempotency
  imports Canonical_Json Problem_Model
begin

text \<open>
  \<open>platform/idempotency\<close>: the idempotent executor (\<open>src/executor.ts\<close>) and its PostgreSQL store
  (\<open>infrastructure/postgres/store.ts\<close>). The store is an interface (the locale \<open>idempotency_store\<close>); the
  executor's guarantees are proved once inside it and obtained for the PostgreSQL table by
  interpretation. The table maps (tenant, scope, key) to a record; the rest of the database is the
  second component of the state, where the protected command writes. A \<open>jsonb\<close> body is a JSON value up
  to the order of object keys, so it is kept in normal form. SHA-256 is the parameter \<open>sha256\<close>.
  Concurrent claims of one key are serialised by the table's unique index, so transactions are taken
  one at a time.
\<close>

section \<open>Model: records and the PostgreSQL store\<close>

datatype idem_status = processing | completed

record stored_response =
  sr_status :: js_number
  sr_body :: js_value

record idem_record =
  ir_tenantId :: string
  ir_scope :: string
  ir_key :: string
  ir_requestHash :: string
  ir_status :: idem_status
  ir_response :: "stored_response option"
  ir_createdAt :: instant
  ir_expiresAt :: instant

record claim_input =
  ci_tenantId :: string
  ci_scope :: string
  ci_key :: string
  ci_requestHash :: string
  ci_now :: instant
  ci_expiresAt :: instant

datatype claim_result = claimed | existing idem_record | in_progress int

record 's idem_store =
  claim :: "claim_input \<Rightarrow> ('s, claim_result) tx"
  complete :: "string \<Rightarrow> string \<Rightarrow> string \<Rightarrow> stored_response \<Rightarrow> ('s, unit) tx"

type_synonym idem_key = "string \<times> string \<times> string"
type_synonym idem_table = "idem_key \<rightharpoonup> idem_record"

definition assertTenant :: "string \<Rightarrow> string \<Rightarrow> unit res" where
  "assertTenant actual expected = (if actual \<noteq> expected then reject tenant_context_mismatch else Inr ())"

text \<open>A record as it is read: \<open>iso\<close> keeps the seconds of its instants.\<close>

definition recordFrom :: "idem_record \<Rightarrow> idem_record" where
  "recordFrom row = row\<lparr>ir_createdAt := via_date_text (ir_createdAt row), ir_expiresAt := via_date_text (ir_expiresAt row)\<rparr>"

definition pg_claim :: "string \<Rightarrow> claim_input \<Rightarrow> (idem_table \<times> 'r, claim_result) tx" where
  "pg_claim boundTenant i =
     bindT (liftT (assertTenant (ci_tenantId i) boundTenant)) (\<lambda>_ (table, rest).
       let k = (ci_tenantId i, ci_scope i, ci_key i);
           fresh = \<lparr>ir_tenantId = ci_tenantId i, ir_scope = ci_scope i, ir_key = ci_key i, ir_requestHash = ci_requestHash i,
                     ir_status = processing, ir_response = None, ir_createdAt = ci_now i, ir_expiresAt = ci_expiresAt i\<rparr>
       in case table k of
            None \<Rightarrow> (Inr claimed, (table(k \<mapsto> fresh), rest))
          | Some r \<Rightarrow>
              if ir_expiresAt r \<le> ci_now i then (Inr claimed, (table(k \<mapsto> fresh), rest))
              else (bindR (assertTenant (ir_tenantId r) boundTenant) (\<lambda>_. Inr (existing (recordFrom r))), (table, rest)))"

definition pg_complete :: "string \<Rightarrow> string \<Rightarrow> string \<Rightarrow> string \<Rightarrow> stored_response \<Rightarrow> (idem_table \<times> 'r, unit) tx" where
  "pg_complete boundTenant tenant scope key response =
     bindT (liftT (assertTenant tenant boundTenant)) (\<lambda>_ (table, rest).
       case table (tenant, scope, key) of
         None \<Rightarrow> (Inl Error, (table, rest))
       | Some r \<Rightarrow>
           if ir_status r \<noteq> processing then (Inl Error, (table, rest))
           else (Inr (), (table((tenant, scope, key) \<mapsto>
                   r\<lparr>ir_status := completed, ir_response := Some (response\<lparr>sr_body := normal (sr_body response)\<rparr>)\<rparr>), rest)))"

definition pg_store :: "string \<Rightarrow> (idem_table \<times> 'r) idem_store" where
  "pg_store boundTenant = \<lparr>claim = pg_claim boundTenant, complete = pg_complete boundTenant\<rparr>"

section \<open>Model: the executor\<close>

definition DEFAULT_RETENTION_SECONDS :: int where "DEFAULT_RETENTION_SECONDS = 7 * 24 * 3600"

definition is_hex_ci :: "char \<Rightarrow> bool" where
  "is_hex_ci c \<longleftrightarrow> is_lower_hex (lower_char c)"

text \<open>\<open>KEY_PATTERN\<close>: a UUID of version 1 to 8, in either case.\<close>

definition matches_key :: "string \<Rightarrow> bool" where
  "matches_key s \<longleftrightarrow> length s = 36 \<and>
     list_all (\<lambda>i. if i \<in> {8, 13, 18, 23} then s ! i = CHR ''-''
                   else if i = 14 then CHR ''1'' \<le> s ! i \<and> s ! i \<le> CHR ''8''
                   else if i = 19 then lower_char (s ! i) \<in> set ''89ab''
                   else is_hex_ci (s ! i)) [0..<36]"

definition matches_scope :: "string \<Rightarrow> bool" where
  "matches_scope s = matches_head_tail is_lower is_scope_char 63 s"

record idem_request =
  rq_scope :: string
  rq_key :: "string option"
  rq_payload :: js_value

record exec_scope =
  ex_tenantId :: string
  ex_correlationId :: string
  ex_causationId :: "string option"

text \<open>What the executor settles before it opens the transaction: the lower-case key, the request hash
  and the claim's instants.\<close>

definition prepare_request :: "(string \<Rightarrow> string) \<Rightarrow> exec_scope \<Rightarrow> idem_request \<Rightarrow> (string \<times> string) res" where
  "prepare_request sha256 context request =
     (let corr = ex_correlationId context in
      if \<not> matches_scope (rq_scope request) then reject_for invalid_trusted_context corr
      else case rq_key request of None \<Rightarrow> reject_for idempotency_key_required corr
      | Some k \<Rightarrow>
      if length k = 0 then reject_for idempotency_key_required corr
      else if \<not> matches_key k then reject_for idempotency_key_invalid corr
      else bindR (assertNoTenantIdentity (rq_payload request) (Some corr)) (\<lambda>_.
        bindR (canonicalRequestHash sha256 (rq_scope request) (rq_payload request)) (\<lambda>h. Inr (map lower_char k, h))))"

definition claim_instants :: "date \<Rightarrow> int \<Rightarrow> (instant \<times> instant) res" where
  "claim_instants now retentionSeconds =
     (case now of None \<Rightarrow> Inl RangeError
      | Some t \<Rightarrow> bindR (toISOString (mkDate (t + retentionSeconds * 1000))) (\<lambda>e. Inr (t, e)))"

text \<open>The unit of work: claim, then replay or run the protected command and record its response.\<close>

definition settle :: "'s idem_store \<Rightarrow> exec_scope \<Rightarrow> string \<Rightarrow> string \<Rightarrow> string \<Rightarrow> claim_result \<Rightarrow>
    ('s, stored_response) tx \<Rightarrow> ('s, stored_response \<times> bool) tx" where
  "settle store context scope key requestHash result work =
     (let corr = ex_correlationId context in
      case result of
        in_progress secs \<Rightarrow> throwT (Problem request_in_progress (Some corr) (if secs > 0 then Some secs else None))
      | existing r \<Rightarrow>
          if ir_tenantId r \<noteq> ex_tenantId context then throwT (Problem tenant_context_mismatch (Some corr) None)
          else if \<not> hashesEqual (ir_requestHash r) requestHash
          then throwT (Problem idempotency_key_reused_with_different_payload (Some corr) None)
          else if ir_status r \<noteq> completed then throwT (Problem request_in_progress (Some corr) (Some 1))
          else (case ir_response r of
                  None \<Rightarrow> throwT (Problem request_in_progress (Some corr) (Some 1))
                | Some resp \<Rightarrow> returnT (resp, True))
      | claimed \<Rightarrow>
          bindT work (\<lambda>response.
          bindT (assertT (case js_integer (sr_status response) of None \<Rightarrow> False | Some n \<Rightarrow> 100 \<le> n \<and> n \<le> 599)
                   (Problem invalid_trusted_context (Some corr) None)) (\<lambda>_.
          bindT (liftT (canonicalJson (sr_body response) 0)) (\<lambda>_.
          bindT (complete store (ex_tenantId context) scope key response) (\<lambda>_.
            returnT (response, False))))))"

text \<open>The claim the executor makes for a prepared request.\<close>

definition claim_of :: "exec_scope \<Rightarrow> idem_request \<Rightarrow> string \<Rightarrow> string \<Rightarrow> instant \<Rightarrow> instant \<Rightarrow> claim_input" where
  "claim_of context request key requestHash t expires =
     \<lparr>ci_tenantId = ex_tenantId context, ci_scope = rq_scope request, ci_key = key,
      ci_requestHash = requestHash, ci_now = t, ci_expiresAt = expires\<rparr>"

definition executeUntraced :: "'s idem_store \<Rightarrow> (string \<Rightarrow> string) \<Rightarrow> date \<Rightarrow> int \<Rightarrow> exec_scope \<Rightarrow> idem_request \<Rightarrow>
    ('s, unit) tx \<Rightarrow> ('s, stored_response) tx \<Rightarrow> ('s, stored_response \<times> bool) tx" where
  "executeUntraced store sha256 now retentionSeconds context request authorize work =
     bindT (liftT (prepare_request sha256 context request)) (\<lambda>(key, requestHash).
     bindT authorize (\<lambda>_.
     bindT (liftT (claim_instants now retentionSeconds)) (\<lambda>(t, expires).
       runInTransaction
         (bindT (claim store (claim_of context request key requestHash t expires)) (\<lambda>result.
            settle store context (rq_scope request) key requestHash result work)))))"

definition createIdempotentExecutor :: "'s idem_store \<Rightarrow> (string \<Rightarrow> string) \<Rightarrow> date \<Rightarrow> int \<Rightarrow> tenant_context option \<Rightarrow>
    idem_request \<Rightarrow> ('s, unit) tx \<Rightarrow> ('s, stored_response) tx \<Rightarrow> ('s, stored_response \<times> bool) tx" where
  "createIdempotentExecutor store sha256 now retentionSeconds ambient request authorize work =
     bindT (liftT (currentTenantContext ambient)) (\<lambda>c.
       executeUntraced store sha256 now retentionSeconds
         \<lparr>ex_tenantId = tc_tenantId c, ex_correlationId = tc_correlationId c, ex_causationId = tc_causationId c\<rparr>
         request authorize work)"

definition platform_exec_scope :: "platform_context \<Rightarrow> string \<Rightarrow> exec_scope" where
  "platform_exec_scope c targetTenantId =
     \<lparr>ex_tenantId = targetTenantId, ex_correlationId = pc_correlationId c, ex_causationId = pc_causationId c\<rparr>"

definition createPlatformIdempotentExecutor :: "'s idem_store \<Rightarrow> (string \<Rightarrow> string) \<Rightarrow> date \<Rightarrow> int \<Rightarrow> trust \<Rightarrow> ref \<Rightarrow> string \<Rightarrow>
    idem_request \<Rightarrow> ('s, unit) tx \<Rightarrow> ('s, stored_response) tx \<Rightarrow> ('s, stored_response \<times> bool) tx" where
  "createPlatformIdempotentExecutor store sha256 now retentionSeconds trusted c targetTenantId request authorize work =
     bindT (liftT (issued_platform trusted c)) (\<lambda>pc.
       executeUntraced store sha256 now retentionSeconds (platform_exec_scope pc targetTenantId) request authorize work)"

datatype idempotency_outcome = out_executed | out_replayed | out_conflict | out_in_progress | out_rejected | out_failed

definition outcomeOf :: "err \<Rightarrow> idempotency_outcome" where
  "outcomeOf e =
     (case e of
        Problem c _ _ \<Rightarrow>
          if c = idempotency_key_reused_with_different_payload then out_conflict
          else if c = request_in_progress then out_in_progress
          else if problem_status c < 500 then out_rejected else out_failed
      | _ \<Rightarrow> out_failed)"

section \<open>What the executor relies on\<close>

text \<open>\<open>rec\<close> reads the record under a key; the laws are the contract documented with the port.\<close>

abbreviation claim_key :: "claim_input \<Rightarrow> idem_key" where
  "claim_key i \<equiv> (ci_tenantId i, ci_scope i, ci_key i)"

definition fresh_claim :: "claim_input \<Rightarrow> idem_record \<Rightarrow> bool" where
  "fresh_claim i r \<longleftrightarrow> ir_tenantId r = ci_tenantId i \<and> ir_requestHash r = ci_requestHash i \<and>
     ir_status r = processing \<and> ir_expiresAt r = ci_expiresAt i"

definition completed_with :: "stored_response \<Rightarrow> idem_record \<Rightarrow> idem_record" where
  "completed_with resp r =
     r\<lparr>ir_status := completed, ir_response := Some (resp\<lparr>sr_body := normal (sr_body resp)\<rparr>)\<rparr>"

lemma completed_with_sel [simp]:
  "ir_status (completed_with resp r) = completed"
  "ir_response (completed_with resp r) = Some (resp\<lparr>sr_body := normal (sr_body resp)\<rparr>)"
  "ir_tenantId (completed_with resp r) = ir_tenantId r"
  "ir_requestHash (completed_with resp r) = ir_requestHash r"
  "ir_expiresAt (completed_with resp r) = ir_expiresAt r"
  by (simp_all add: completed_with_def)

text \<open>What the executor may rely on in a record it is given: everything but its instants.\<close>

definition reads_as :: "idem_record \<Rightarrow> idem_record \<Rightarrow> bool" where
  "reads_as r r' \<longleftrightarrow> ir_tenantId r' = ir_tenantId r \<and> ir_scope r' = ir_scope r \<and> ir_key r' = ir_key r \<and>
     ir_requestHash r' = ir_requestHash r \<and> ir_status r' = ir_status r \<and> ir_response r' = ir_response r"

lemma recordFrom_reads: "reads_as r (recordFrom r)"
  by (simp add: reads_as_def recordFrom_def)

locale idempotency_store =
  fixes store :: "'s idem_store"
    and rec :: "'s \<Rightarrow> idem_key \<Rightarrow> idem_record option"
    and tenant :: string
  assumes claim_live: "ci_tenantId i = tenant \<Longrightarrow> rec s (claim_key i) = Some r \<Longrightarrow> ir_tenantId r = tenant \<Longrightarrow>
      ci_now i < ir_expiresAt r \<Longrightarrow> \<exists>r'. reads_as r r' \<and> claim store i s = (Inr (existing r'), s)"
    and claim_free: "ci_tenantId i = tenant \<Longrightarrow> \<forall>r. rec s (claim_key i) = Some r \<longrightarrow> ir_expiresAt r \<le> ci_now i \<Longrightarrow>
      \<exists>s'. claim store i s = (Inr claimed, s')"
    and claim_existing: "claim store i s = (Inr (existing r'), s') \<Longrightarrow> s' = s \<and> (\<exists>r. rec s (claim_key i) = Some r \<and> reads_as r r')"
    and claim_claimed: "claim store i s = (Inr claimed, s') \<Longrightarrow>
      (\<forall>r. rec s (claim_key i) = Some r \<longrightarrow> ir_expiresAt r \<le> ci_now i) \<and>
      (\<exists>r. rec s' = (rec s)(claim_key i \<mapsto> r) \<and> fresh_claim i r)"
    and complete_ok: "rec s (tenant, scope, key) = Some r \<Longrightarrow> ir_status r = processing \<Longrightarrow>
      \<exists>s'. complete store tenant scope key resp s = (Inr (), s')"
    and complete_rec: "complete store t scope key resp s = (Inr (), s') \<Longrightarrow>
      \<exists>r. rec s (t, scope, key) = Some r \<and> ir_status r = processing \<and>
          rec s' = (rec s)((t, scope, key) \<mapsto> completed_with resp r)"
begin

text \<open>A protected command that leaves the idempotency records alone.\<close>

definition keeps :: "('s, 'a) tx \<Rightarrow> bool" where
  "keeps f \<longleftrightarrow> (\<forall>s. rec (snd (f s)) = rec s)"

lemma keepsD: "keeps f \<Longrightarrow> f s = (x, s') \<Longrightarrow> rec s' = rec s"
  unfolding keeps_def by (metis snd_conv)

end

context idempotency_store
begin

lemma executor_opens:
  assumes "prepare_request sha context request = Inr (key, h)" "authorize s = (Inr (), s0)"
    "claim_instants now ret = Inr (t, expires)"
  shows "executeUntraced store sha now ret context request authorize work s =
    runInTransaction (bindT (claim store (claim_of context request key h t expires))
      (\<lambda>result. settle store context (rq_scope request) key h result work)) s0"
  using assms by (simp add: executeUntraced_def bindT_def liftT_def)

lemma settle_claimedE:
  assumes "settle store context scope key h claimed work s = (Inr (resp, replayed), s')"
  obtains s1 where "work s = (Inr resp, s1)" "\<not> replayed"
    "complete store (ex_tenantId context) scope key resp s1 = (Inr (), s')"
  using assms by (auto simp: settle_def Let_def bindT_Inr_iff)

text \<open>The four ways a request that passed validation and authorization can go.\<close>

lemma executor_executes:
  assumes run: "executeUntraced store sha now ret context request authorize work s = (Inr (resp, False), s')"
    and tenant: "ex_tenantId context = tenant" and work: "keeps work"
  obtains key h s0 t expires r where
    "prepare_request sha context request = Inr (key, h)" "authorize s = (Inr (), s0)"
    "claim_instants now ret = Inr (t, expires)"
    "\<forall>r0. rec s0 (tenant, rq_scope request, key) = Some r0 \<longrightarrow> ir_expiresAt r0 \<le> t"
    "rec s' = (rec s0)((tenant, rq_scope request, key) \<mapsto> completed_with resp r)"
    "ir_tenantId r = tenant" "ir_requestHash r = h" "ir_expiresAt r = expires"
proof -
  obtain key h s0 t expires result s1 where prep: "prepare_request sha context request = Inr (key, h)"
    and auth: "authorize s = (Inr (), s0)" and inst: "claim_instants now ret = Inr (t, expires)"
    and cl: "claim store (claim_of context request key h t expires) s0 = (Inr result, s1)"
    and st: "settle store context (rq_scope request) key h result work s1 = (Inr (resp, False), s')"
    using run by (auto simp: executeUntraced_def bindT_Inr_iff split: prod.splits)
  have "result = claimed"
    using st by (cases result) (auto simp: settle_def Let_def split: if_splits option.splits)
  with st obtain s2 where w: "work s1 = (Inr resp, s2)"
    and c: "complete store tenant (rq_scope request) key resp s2 = (Inr (), s')"
    using tenant by (auto elim: settle_claimedE)
  let ?i = "claim_of context request key h t expires"
  from claim_claimed [of ?i s0 s1] cl \<open>result = claimed\<close> obtain r where
    r: "\<forall>r. rec s0 (claim_key ?i) = Some r \<longrightarrow> ir_expiresAt r \<le> ci_now ?i"
      "rec s1 = (rec s0)(claim_key ?i \<mapsto> r)" "fresh_claim ?i r"
    by blast
  from complete_rec [OF c] keepsD [OF work w] r(2) tenant
  have "rec s' = (rec s0)((tenant, rq_scope request, key) \<mapsto> completed_with resp r)"
    by (auto simp: claim_of_def)
  with prep auth inst r tenant show ?thesis
    by (intro that) (auto simp: claim_of_def fresh_claim_def)
qed

lemma executor_replays:
  assumes "prepare_request sha context request = Inr (key, h)" "authorize s = (Inr (), s0)"
    "claim_instants now ret = Inr (t, expires)" "ex_tenantId context = tenant"
    "rec s0 (tenant, rq_scope request, key) = Some r" "ir_tenantId r = tenant" "t < ir_expiresAt r"
    "ir_requestHash r = h" "ir_status r = completed" "ir_response r = Some resp"
  shows "executeUntraced store sha now ret context request authorize work s = (Inr (resp, True), s0)"
proof -
  obtain r' where "reads_as r r'" "claim store (claim_of context request key h t expires) s0 = (Inr (existing r'), s0)"
    using claim_live [of "claim_of context request key h t expires" s0 r] assms by (auto simp: claim_of_def)
  then show ?thesis
    using assms by (simp add: executor_opens runInTransaction_def bindT_def settle_def
        hashesEqual_def returnT_def reads_as_def)
qed

lemma executor_rejects_reuse:
  assumes "prepare_request sha context request = Inr (key, h)" "authorize s = (Inr (), s0)"
    "claim_instants now ret = Inr (t, expires)" "ex_tenantId context = tenant"
    "rec s0 (tenant, rq_scope request, key) = Some r" "ir_tenantId r = tenant" "t < ir_expiresAt r"
    "ir_requestHash r \<noteq> h"
  shows "executeUntraced store sha now ret context request authorize work s =
    (reject_for idempotency_key_reused_with_different_payload (ex_correlationId context), s0)"
proof -
  obtain r' where "reads_as r r'" "claim store (claim_of context request key h t expires) s0 = (Inr (existing r'), s0)"
    using claim_live [of "claim_of context request key h t expires" s0 r] assms by (auto simp: claim_of_def)
  then show ?thesis
    using assms by (simp add: executor_opens runInTransaction_def bindT_def settle_def
        hashesEqual_def throwT_def reads_as_def)
qed

lemma executor_failure_keeps:
  assumes "executeUntraced store sha now ret context request authorize work s = (Inl e, s')"
    "keeps authorize"
  shows "rec s' = rec s"
  using assms
  by (auto simp: executeUntraced_def bindT_def liftT_def runInTransaction_def split: prod.splits sum.splits
      dest: keepsD)

text \<open>A live completed record survives every execution.\<close>

lemma live_record_survives:
  assumes run: "executeUntraced store sha (Some t) ret context request authorize work s = (result, s')"
    and keep: "keeps authorize" "keeps work" and tenant: "ex_tenantId context = tenant"
    and r: "rec s k = Some r" "t < ir_expiresAt r"
  shows "rec s' k = Some r"
proof (cases result)
  case (Inl e)
  then show ?thesis using executor_failure_keeps [OF _ keep(1)] run r by metis
next
  case (Inr p)
  obtain resp replayed where p: "p = (resp, replayed)" by (cases p)
  show ?thesis
  proof (cases replayed)
    case False
    with run Inr p have "executeUntraced store sha (Some t) ret context request authorize work s = (Inr (resp, False), s')" by simp
    from this tenant keep(2) show ?thesis
    proof (rule executor_executes)
      fix key h s0 t' ex r0
      assume a: "authorize s = (Inr (), s0)" "claim_instants (Some t) ret = Inr (t', ex)"
        "\<forall>r0. rec s0 (tenant, rq_scope request, key) = Some r0 \<longrightarrow> ir_expiresAt r0 \<le> t'"
        "rec s' = (rec s0)((tenant, rq_scope request, key) \<mapsto> completed_with resp r0)"
      have "rec s0 = rec s" using keepsD [OF keep(1)] a(1) by simp
      moreover have "t' = t" using a(2) by (auto simp: claim_instants_def bindR_Inr_iff)
      ultimately show ?thesis using a(3) a(4) r by (cases "k = (tenant, rq_scope request, key)") auto
    qed
  next
    case True
    obtain key h s0 t' expires result' s1 where auth: "authorize s = (Inr (), s0)"
      and cl: "claim store (claim_of context request key h t' expires) s0 = (Inr result', s1)"
      and st: "settle store context (rq_scope request) key h result' work s1 = (Inr (resp, True), s')"
      using run Inr p True by (auto simp: executeUntraced_def bindT_Inr_iff split: prod.splits)
    have "\<exists>r. result' = existing r \<and> s' = s1"
      using st by (cases result') (auto simp: settle_def Let_def bindT_Inr_iff split: if_splits option.splits)
    then have "s' = s0" using cl claim_existing by blast
    then show ?thesis using keepsD [OF keep(1)] auth r by simp
  qed
qed

end


section \<open>The PostgreSQL store meets the contract\<close>

lemma pg_claim_cases:
  "pg_claim T i s =
     (if ci_tenantId i \<noteq> T then (reject tenant_context_mismatch, s)
      else let k = claim_key i;
               fresh = \<lparr>ir_tenantId = T, ir_scope = ci_scope i, ir_key = ci_key i, ir_requestHash = ci_requestHash i,
                        ir_status = processing, ir_response = None, ir_createdAt = ci_now i, ir_expiresAt = ci_expiresAt i\<rparr>
           in case fst s k of
                Some r \<Rightarrow> if ir_expiresAt r \<le> ci_now i then (Inr claimed, ((fst s)(k \<mapsto> fresh), snd s))
                           else (if ir_tenantId r = T then Inr (existing (recordFrom r)) else reject tenant_context_mismatch, s)
              | None \<Rightarrow> (Inr claimed, ((fst s)(k \<mapsto> fresh), snd s)))"
  by (cases s) (auto simp: pg_claim_def assertTenant_def bindT_def liftT_def Let_def split: option.splits)

lemma pg_complete_cases:
  "pg_complete T t scope key resp s =
     (if t \<noteq> T then (reject tenant_context_mismatch, s)
      else case fst s (t, scope, key) of
             Some r \<Rightarrow> if ir_status r = processing
                then (Inr (), ((fst s)((t, scope, key) \<mapsto> completed_with resp r), snd s)) else (Inl Error, s)
           | None \<Rightarrow> (Inl Error, s))"
  by (cases s) (auto simp: pg_complete_def assertTenant_def bindT_def liftT_def completed_with_def split: option.splits)

interpretation pg: idempotency_store "pg_store T" fst T for T :: string
proof
  fix i :: claim_input and s :: "idem_table \<times> 'r" and r
  show "\<exists>r'. reads_as r r' \<and> claim (pg_store T) i s = (Inr (existing r'), s)"
    if "ci_tenantId i = T" "fst s (claim_key i) = Some r" "ir_tenantId r = T" "ci_now i < ir_expiresAt r"
    using that recordFrom_reads by (auto simp: pg_store_def pg_claim_cases)
  show "\<exists>s'. claim (pg_store T) i s = (Inr claimed, s')"
    if "ci_tenantId i = T" "\<forall>r. fst s (claim_key i) = Some r \<longrightarrow> ir_expiresAt r \<le> ci_now i"
    using that by (auto simp: pg_store_def pg_claim_cases Let_def split: option.splits)
next
  fix i :: claim_input and s s' :: "idem_table \<times> 'r" and r
  show "s' = s \<and> (\<exists>r0. fst s (claim_key i) = Some r0 \<and> reads_as r0 r)" if "claim (pg_store T) i s = (Inr (existing r), s')"
    using that recordFrom_reads by (auto simp: pg_store_def pg_claim_cases Let_def split: option.splits if_splits)
  show "(\<forall>r. fst s (claim_key i) = Some r \<longrightarrow> ir_expiresAt r \<le> ci_now i) \<and>
      (\<exists>r. fst s' = (fst s)(claim_key i \<mapsto> r) \<and> fresh_claim i r)"
    if "claim (pg_store T) i s = (Inr claimed, s')"
    using that by (auto simp: pg_store_def pg_claim_cases Let_def fresh_claim_def split: option.splits if_splits)
next
  fix s s' :: "idem_table \<times> 'r" and scope key t resp r
  show "\<exists>s'. complete (pg_store T) T scope key resp s = (Inr (), s')"
    if "fst s (T, scope, key) = Some r" "ir_status r = processing"
    using that by (simp add: pg_store_def pg_complete_cases)
  show "\<exists>r. fst s (t, scope, key) = Some r \<and> ir_status r = processing \<and> fst s' = (fst s)((t, scope, key) \<mapsto> completed_with resp r)"
    if "complete (pg_store T) t scope key resp s = (Inr (), s')"
    using that by (auto simp: pg_store_def pg_complete_cases split: option.splits if_splits)
qed

section \<open>Runs of the executor\<close>

text \<open>Code that may read and write anything but the idempotency table: what the protected commands and
  the authorization checks of the program do.\<close>

definition spares_table :: "(idem_table \<times> 'r, 'a) tx \<Rightarrow> bool" where
  "spares_table f \<longleftrightarrow> (\<forall>s. fst (snd (f s)) = fst s)"

lemma spares_keeps: "pg.keeps f \<longleftrightarrow> spares_table f"
  by (simp add: pg.keeps_def spares_table_def)

lemma spares_tableD: "spares_table f \<Longrightarrow> f s = (x, s') \<Longrightarrow> fst s' = fst s"
  unfolding spares_table_def by (metis snd_conv)

text \<open>Any number of executions, by any tenant and under any keys, before the instant \<open>limit\<close>.\<close>

inductive idem_runs :: "(string \<Rightarrow> string) \<Rightarrow> instant \<Rightarrow> idem_table \<times> 'r \<Rightarrow> idem_table \<times> 'r \<Rightarrow> bool"
  for sha256 limit where
  runs_none: "idem_runs sha256 limit s s"
| runs_execution: "idem_runs sha256 limit s s' \<Longrightarrow> t < limit \<Longrightarrow> spares_table authorize \<Longrightarrow> spares_table work \<Longrightarrow>
    executeUntraced (pg_store (ex_tenantId context)) sha256 (Some t) ret context request authorize work s' = (result, s'') \<Longrightarrow>
    idem_runs sha256 limit s s''"

lemma idem_runs_keep_live:
  "idem_runs sha256 limit s s' \<Longrightarrow> fst s k = Some r \<Longrightarrow> limit \<le> ir_expiresAt r \<Longrightarrow> fst s' k = Some r"
proof (induction rule: idem_runs.induct)
  case (runs_execution s s' t authorize work "context" ret request result s'')
  then show ?case
    using pg.live_record_survives [of "ex_tenantId context" sha256 t ret "context" request authorize work s' result s'' k r]
    by (simp add: spares_keeps)
qed simp

lemma claim_instants_Inr: "claim_instants now ret = Inr (t, e) \<longleftrightarrow> now = Some t \<and> e = t + ret * 1000 \<and> \<bar>e\<bar> \<le> 8640000000000000"
  by (auto simp: claim_instants_def mkDate_def bindR_Inr_iff toISOString_def split: option.splits if_splits)

lemma prepare_request_Inr:
  "prepare_request sha context request = Inr (key, h) \<longleftrightarrow> matches_scope (rq_scope request) \<and>
     (\<exists>k. rq_key request = Some k \<and> matches_key k \<and> key = map lower_char k) \<and>
     \<not> containsTenantIdentity (rq_payload request) \<and>
     canonicalRequestHash sha (rq_scope request) (rq_payload request) = Inr h"
  by (auto simp: prepare_request_def Let_def assertNoTenantIdentity_def bindR_Inr_iff matches_key_def
      split: option.splits if_splits)

lemma normal_JUndefined: "normal q = JUndefined \<longleftrightarrow> q = JUndefined"
  by (cases q) (subst normal.simps; simp split: js_number.splits)+

lemma request_entries:
  "json_entries [(''scope'', JString s), (''payload'', p)] =
     (if p = JUndefined then [(''scope'', JString s)] else [(''payload'', p), (''scope'', JString s)])"
  by (simp add: json_entries_def less_eq_char_def less_char_def)

lemma normal_request:
  "normal (JObject [(''scope'', JString s), (''payload'', p)]) = normal (JObject [(''scope'', JString s), (''payload'', p')]) \<longleftrightarrow>
   normal p = normal p'"
  using normal_JUndefined [of p] normal_JUndefined [of p']
  by (subst (1 2) normal.simps) (auto simp: request_entries)

lemma same_request_same_hash:
  assumes "canonicalRequestHash sha scope p = Inr h" "canonicalRequestHash sha scope p' = Inr h'" "normal p' = normal p"
  shows "h' = h"
proof -
  let ?o = "\<lambda>p. JObject [(''scope'', JString scope), (''payload'', p)]"
  obtain t t' where t: "canonicalJson (?o p) 0 = Inr t" "h = sha t" "canonicalJson (?o p') 0 = Inr t'" "h' = sha t'"
    using assms(1,2) by (auto simp: canonicalRequestHash_def bindR_Inr_iff)
  have "normal (?o p) = normal (?o p')" using assms(3) by (simp only: normal_request)
  from canonicalJson_normal_eq [OF t(1,3) this] t show ?thesis by simp
qed

text \<open>The text that is hashed for a request.\<close>

definition request_text :: "string \<Rightarrow> js_value \<Rightarrow> string res" where
  "request_text scope payload = canonicalJson (JObject [(''scope'', JString scope), (''payload'', payload)]) 0"

lemma different_request_different_text:
  assumes "canonicalRequestHash sha scope p = Inr h" "canonicalRequestHash sha scope p' = Inr h" "normal p \<noteq> normal p'"
  shows "\<exists>t t'. request_text scope p = Inr t \<and> request_text scope p' = Inr t' \<and> t \<noteq> t' \<and> sha t = sha t'"
proof -
  let ?o = "\<lambda>p. JObject [(''scope'', JString scope), (''payload'', p)]"
  obtain t t' where t: "canonicalJson (?o p) 0 = Inr t" "canonicalJson (?o p') 0 = Inr t'" "sha t = sha t'"
    using assms(1,2) by (auto simp: canonicalRequestHash_def bindR_Inr_iff)
  have "normal (?o p) \<noteq> normal (?o p')" using assms(3) by (simp add: normal_request)
  then have "t \<noteq> t'" using canonicalJson_text_inj t(1,2) by blast
  with t show ?thesis by (auto simp: request_text_def)
qed

text \<open>The executor has executed a request under a key, and later runs left its record live.\<close>

lemma executed_record_live:
  assumes first: "executeUntraced (pg_store (ex_tenantId context)) sha256 (Some t0) ret context request authorize work s = (Inr (resp, False), s1)"
    and work: "spares_table work" and runs: "idem_runs sha256 (t0 + ret * 1000) s1 s2"
  obtains k h r where "rq_key request = Some k" "canonicalRequestHash sha256 (rq_scope request) (rq_payload request) = Inr h"
    "fst s2 (ex_tenantId context, rq_scope request, map lower_char k) = Some r" "ir_tenantId r = ex_tenantId context"
    "ir_requestHash r = h" "ir_expiresAt r = t0 + ret * 1000" "ir_status r = completed"
    "ir_response r = Some (resp\<lparr>sr_body := normal (sr_body resp)\<rparr>)"
proof -
  obtain key h t expires r where a: "prepare_request sha256 context request = Inr (key, h)"
    "claim_instants (Some t0) ret = Inr (t, expires)"
    "fst s1 (ex_tenantId context, rq_scope request, key) = Some (completed_with resp r)"
    "ir_tenantId r = ex_tenantId context" "ir_requestHash r = h" "ir_expiresAt r = expires"
    by (rule pg.executor_executes [OF first refl work [folded spares_keeps]]) simp
  obtain k where k: "rq_key request = Some k" "key = map lower_char k"
    and h: "canonicalRequestHash sha256 (rq_scope request) (rq_payload request) = Inr h"
    using a(1) by (auto simp: prepare_request_Inr)
  have e: "expires = t0 + ret * 1000" using a(2) by (simp add: claim_instants_Inr)
  have "fst s2 (ex_tenantId context, rq_scope request, key) = Some (completed_with resp r)"
    by (rule idem_runs_keep_live [OF runs]) (use a e in simp_all)
  with k h a e show ?thesis by (intro that [of k h "completed_with resp r"]) simp_all
qed

section \<open>Properties\<close>

text \<open>C12: a request that was executed is never executed again within the retention period. Whatever
  executions ran in between, by whichever tenants and under whichever keys, a retry by the same tenant
  under the same key (in either case) with the same content, once authorized, returns the recorded
  response marked as replayed, with the database exactly as the authorization left it; the retry's own
  unit of work, an arbitrary \<open>work'\<close>, is not run.\<close>

theorem idempotent_replay:
  assumes first: "executeUntraced (pg_store (ex_tenantId context)) sha256 (Some t0) ret context request authorize work s = (Inr (resp, False), s1)"
    and work: "spares_table work" and runs: "idem_runs sha256 (t0 + ret * 1000) s1 s2"
    and same: "ex_tenantId context' = ex_tenantId context" "rq_scope request' = rq_scope request"
      "map_option (map lower_char) (rq_key request') = map_option (map lower_char) (rq_key request)"
      "normal (rq_payload request') = normal (rq_payload request)"
    and retry: "prepare_request sha256 context' request' = Inr p" "authorize' s2 = (Inr (), s3)" "spares_table authorize'"
    and time: "t1 < t0 + ret * 1000" "claim_instants (Some t1) ret = Inr q"
  shows "executeUntraced (pg_store (ex_tenantId context')) sha256 (Some t1) ret context' request' authorize' work' s2 =
    (Inr (resp\<lparr>sr_body := normal (sr_body resp)\<rparr>, True), s3)"
proof -
  obtain k h r where r: "rq_key request = Some k" "canonicalRequestHash sha256 (rq_scope request) (rq_payload request) = Inr h"
    "fst s2 (ex_tenantId context, rq_scope request, map lower_char k) = Some r" "ir_tenantId r = ex_tenantId context"
    "ir_requestHash r = h" "ir_expiresAt r = t0 + ret * 1000" "ir_status r = completed"
    "ir_response r = Some (resp\<lparr>sr_body := normal (sr_body resp)\<rparr>)"
    by (rule executed_record_live [OF first work runs])
  obtain key' h' t e where p: "p = (key', h')" "q = (t, e)" by (metis surj_pair)
  have "key' = map lower_char k \<and> h' = h"
    using retry(1) same r(1) same_request_same_hash [OF r(2)] unfolding p prepare_request_Inr by auto
  moreover have "fst s3 = fst s2" using spares_tableD retry(2,3) by blast
  moreover have "t = t1" using time(2) unfolding p claim_instants_Inr by simp
  ultimately have "fst s3 (ex_tenantId context', rq_scope request', key') = Some r" "h' = h" "t < ir_expiresAt r"
    using r(3,6) same(1,2) time(1) by simp_all
  then show ?thesis
    using pg.executor_replays [where authorize = authorize' and s = s2, OF retry(1) [unfolded p] retry(2) time(2) [unfolded p] refl]
      r(4,5,7,8) same(1) by metis
qed

text \<open>C32: a key stands for one request. While a record is live, a request under its key with different
  content is rejected as a reuse of the key and changes nothing, unless the canonical texts of the two
  requests, which differ, have the same SHA-256 digest.\<close>

theorem idempotency_key_binds_request:
  assumes first: "executeUntraced (pg_store (ex_tenantId context)) sha256 (Some t0) ret context request authorize work s = (Inr (resp, False), s1)"
    and work: "spares_table work" and runs: "idem_runs sha256 (t0 + ret * 1000) s1 s2"
    and other: "ex_tenantId context' = ex_tenantId context" "rq_scope request' = rq_scope request"
      "map_option (map lower_char) (rq_key request') = map_option (map lower_char) (rq_key request)"
      "normal (rq_payload request') \<noteq> normal (rq_payload request)"
    and retry: "prepare_request sha256 context' request' = Inr p" "authorize' s2 = (Inr (), s3)" "spares_table authorize'"
    and time: "t1 < t0 + ret * 1000" "claim_instants (Some t1) ret = Inr q"
  shows "executeUntraced (pg_store (ex_tenantId context')) sha256 (Some t1) ret context' request' authorize' work' s2 =
      (reject_for idempotency_key_reused_with_different_payload (ex_correlationId context'), s3) \<or>
    (\<exists>text text'. request_text (rq_scope request) (rq_payload request) = Inr text \<and>
       request_text (rq_scope request') (rq_payload request') = Inr text' \<and> text \<noteq> text' \<and> sha256 text = sha256 text')"
proof -
  obtain k h r where r: "rq_key request = Some k" "canonicalRequestHash sha256 (rq_scope request) (rq_payload request) = Inr h"
    "fst s2 (ex_tenantId context, rq_scope request, map lower_char k) = Some r" "ir_tenantId r = ex_tenantId context"
    "ir_requestHash r = h" "ir_expiresAt r = t0 + ret * 1000" "ir_status r = completed"
    "ir_response r = Some (resp\<lparr>sr_body := normal (sr_body resp)\<rparr>)"
    by (rule executed_record_live [OF first work runs])
  obtain key' h' t e where p: "p = (key', h')" "q = (t, e)" by (metis surj_pair)
  have k: "key' = map lower_char k" and h': "canonicalRequestHash sha256 (rq_scope request) (rq_payload request') = Inr h'"
    using retry(1) other r(1) unfolding p prepare_request_Inr by auto
  have s3: "fst s3 = fst s2" using spares_tableD retry(2,3) by blast
  have t: "t = t1" using time(2) unfolding p claim_instants_Inr by simp
  show ?thesis
  proof (cases "h' = h")
    case True
    then show ?thesis using different_request_different_text [OF r(2) _ other(4) [symmetric]] h' other(2) by auto
  next
    case False
    have "fst s3 (ex_tenantId context', rq_scope request', key') = Some r" "t < ir_expiresAt r"
      using r(3,6) other(1,2) time(1) k s3 t by simp_all
    with False show ?thesis
      using pg.executor_rejects_reuse [where authorize = authorize' and s = s2, OF retry(1) [unfolded p] retry(2) time(2) [unfolded p] refl]
        r(4,5) other(1) by metis
  qed
qed

text \<open>A failed attempt leaves no trace. When the executor fails for any reason (an invalid request, a
  refused authorization, a failing command, a response that cannot be stored), the database is what the
  authorization check left, in particular no key is claimed; and a refused authorization fails the
  request whatever is recorded under its key.\<close>

theorem idempotent_failure:
  assumes "snd (authorize s) = s"
  shows "(\<forall>e. fst (executeUntraced store sha256 now ret context request authorize work s) = Inl e \<longrightarrow>
      snd (executeUntraced store sha256 now ret context request authorize work s) = s) \<and>
    (\<forall>e p. prepare_request sha256 context request = Inr p \<longrightarrow> fst (authorize s) = Inl e \<longrightarrow>
      executeUntraced store sha256 now ret context request authorize work s = (Inl e, s))"
  using assms
  by (auto simp: executeUntraced_def bindT_def liftT_def runInTransaction_def split: prod.splits sum.splits)

section \<open>A concrete run\<close>

definition sample_scope :: exec_scope where
  "sample_scope = \<lparr>ex_tenantId = ''t'', ex_correlationId = ''c'', ex_causationId = None\<rparr>"

definition sample_request :: "string \<Rightarrow> js_value \<Rightarrow> idem_request" where
  "sample_request key payload = \<lparr>rq_scope = ''tenant.provision'', rq_key = Some key, rq_payload = payload\<rparr>"

definition sample_key :: string where "sample_key = ''8f14e45f-ceea-467f-a0e6-1c2d3e4f5a6b''"
definition sample_key_upper :: string where "sample_key_upper = ''8F14E45F-CEEA-467F-A0E6-1C2D3E4F5A6B''"

definition sample_response :: stored_response where
  "sample_response = \<lparr>sr_status = Num 201, sr_body = JNull\<rparr>"

text \<open>A protected command that counts how often it ran.\<close>

definition count_run :: "(idem_table \<times> nat, stored_response) tx" where
  "count_run s = (Inr sample_response, (fst s, Suc (snd s)))"

lemma sample_key_ok: "matches_key sample_key" "matches_key sample_key_upper"
    "map lower_char sample_key_upper = map lower_char sample_key"
  by (simp_all add: matches_key_def sample_key_def sample_key_upper_def upt_rec is_hex_ci_def is_lower_hex_def is_digit_def
      lower_char_def less_eq_char_def Let_def char_of_eq_iff take_bit_eq_mod)

lemma sample_hash:
  "canonicalRequestHash id ''tenant.provision'' JNull = Inr (''{'' @ json_string ''payload'' @ '':null,'' @ json_string ''scope'' @ '':'' @ json_string ''tenant.provision'' @ ''}'')"
  "canonicalRequestHash id ''tenant.provision'' (JBool True) = Inr (''{'' @ json_string ''payload'' @ '':true,'' @ json_string ''scope'' @ '':'' @ json_string ''tenant.provision'' @ ''}'')"
  by (simp_all add: canonicalRequestHash_def canonicalJson.simps [of "JObject _"] request_entries canonicalJson.simps [of JNull]
      canonicalJson.simps [of "JBool _"] canonicalJson.simps [of "JString _"] MAX_DEPTH_def)

lemma sample_prepare:
  assumes "matches_key k" "p = JNull \<or> p = JBool True"
  shows "prepare_request id sample_scope (sample_request k p) = Inr (map lower_char k, projr (canonicalRequestHash id ''tenant.provision'' p))"
proof -
  have "matches_scope ''tenant.provision''"
    by (simp add: matches_scope_def matches_head_tail_def is_scope_char_def is_name_char_def is_lower_def is_digit_def less_eq_char_def)
  moreover have "\<not> containsTenantIdentity p" using assms(2) by (auto simp: containsTenantIdentity_def visit.simps)
  ultimately show ?thesis
    using assms sample_hash by (auto simp: prepare_request_Inr sample_request_def)
qed

definition sample_record :: idem_record where
  "sample_record = \<lparr>ir_tenantId = ''t'', ir_scope = ''tenant.provision'', ir_key = map lower_char sample_key,
     ir_requestHash = projr (canonicalRequestHash id ''tenant.provision'' JNull), ir_status = completed,
     ir_response = Some sample_response, ir_createdAt = 0, ir_expiresAt = 604800000\<rparr>"

lemma sample_first_run:
  "executeUntraced (pg_store (ex_tenantId sample_scope)) id (Some 0) DEFAULT_RETENTION_SECONDS sample_scope (sample_request sample_key JNull)
     (returnT ()) count_run (Map.empty, 0) =
   (Inr (sample_response, False), ([(''t'', ''tenant.provision'', map lower_char sample_key) \<mapsto> sample_record], 1))"
proof -
  have "canonicalJson JNull 0 = Inr ''null''" "normal JNull = JNull" by (simp_all add: canonicalJson.simps normal.simps MAX_DEPTH_def)
  then show ?thesis
    using sample_prepare [OF sample_key_ok(1), of JNull]
    by (simp add: executeUntraced_def bindT_def liftT_def returnT_def assertT_def claim_instants_def mkDate_def
        DEFAULT_RETENTION_SECONDS_def runInTransaction_def pg_store_def pg_claim_cases pg_complete_cases claim_of_def
        sample_scope_def sample_request_def count_run_def settle_def sample_response_def completed_with_def sample_record_def
        js_integer_def)
qed

lemma count_run_spares: "spares_table count_run"
  by (simp add: spares_table_def count_run_def)

lemma sample_sel [simp]:
  "ex_tenantId sample_scope = ''t''" "ex_correlationId sample_scope = ''c''"
  "rq_scope (sample_request k p) = ''tenant.provision''" "rq_key (sample_request k p) = Some k" "rq_payload (sample_request k p) = p"
  by (simp_all add: sample_scope_def sample_request_def)

lemma sample_instants: "claim_instants (Some 1000) DEFAULT_RETENTION_SECONDS = Inr (1000, 604801000)"
    "1000 < 0 + DEFAULT_RETENTION_SECONDS * 1000"
  by (simp_all add: claim_instants_def mkDate_def DEFAULT_RETENTION_SECONDS_def)

lemma return_spares: "spares_table (returnT ())"
  by (simp add: spares_table_def returnT_def)

theorem idempotent_replay_witness:
  "executeUntraced (pg_store ''t'') id (Some 1000) DEFAULT_RETENTION_SECONDS sample_scope (sample_request sample_key_upper JNull)
     (returnT ()) count_run ([(''t'', ''tenant.provision'', map lower_char sample_key) \<mapsto> sample_record], 1) =
   (Inr (sample_response, True), ([(''t'', ''tenant.provision'', map lower_char sample_key) \<mapsto> sample_record], 1))"
proof -
  have n: "sample_response\<lparr>sr_body := normal (sr_body sample_response)\<rparr> = sample_response"
    by (simp add: sample_response_def normal.simps)
  show ?thesis
    using idempotent_replay [where authorize' = "returnT ()" and work' = count_run, OF sample_first_run count_run_spares runs_none refl
        _ _ _ sample_prepare [OF sample_key_ok(2), of JNull] tx_eval(1) return_spares sample_instants(2,1)]
    by (simp add: n sample_key_ok)
qed

theorem idempotency_key_binds_request_witness:
  "executeUntraced (pg_store ''t'') id (Some 1000) DEFAULT_RETENTION_SECONDS sample_scope (sample_request sample_key (JBool True))
     (returnT ()) count_run ([(''t'', ''tenant.provision'', map lower_char sample_key) \<mapsto> sample_record], 1) =
   (reject_for idempotency_key_reused_with_different_payload ''c'', ([(''t'', ''tenant.provision'', map lower_char sample_key) \<mapsto> sample_record], 1))"
proof -
  have n: "normal (JBool True) \<noteq> normal JNull" by (simp add: normal.simps)
  show ?thesis
    using idempotency_key_binds_request [where authorize' = "returnT ()" and work' = count_run, OF sample_first_run count_run_spares runs_none refl
        _ _ _ sample_prepare [OF sample_key_ok(1), of "JBool True"] tx_eval(1) return_spares sample_instants(2,1)]
    by (simp add: n)
qed

theorem idempotent_failure_witness:
  "snd (executeUntraced (pg_store ''t'') id (Some 0) 60 sample_scope (sample_request ''not-a-uuid'' JNull) (returnT ()) count_run (Map.empty, 0)) = (Map.empty, 0)"
proof -
  have "fst (executeUntraced (pg_store ''t'') id (Some 0) 60 sample_scope (sample_request ''not-a-uuid'' JNull) (returnT ()) count_run (Map.empty, 0)) =
      reject_for idempotency_key_invalid ''c''"
    by (simp add: executeUntraced_def prepare_request_def sample_request_def sample_scope_def matches_key_def matches_scope_def
        matches_head_tail_def is_scope_char_def is_name_char_def is_lower_def is_digit_def less_eq_char_def bindT_def liftT_def)
  then show ?thesis by (intro idempotent_failure [THEN conjunct1, rule_format]) (simp_all add: returnT_def)
qed

end
