(* ===== verification/Approval.thy ===== *)
theory Approval
  imports Prelude
begin

text \<open>
  \<open>modules/audit-governance/domain/approval.ts\<close>: approval requests and their transitions. A request is
  a record, each transition a function from a request to a new request or a rejection; the requests
  the domain can produce are the inductive set \<open>approval_reachable\<close>. The lemmas show the invariant of
  reachable requests: versions count transitions, no actor decides twice, a maker under separation of
  duties never decides, every credit belongs to a requirement and no requirement is over-credited, so
  an approved request carries exactly the approvals its policy asks for.
\<close>

section \<open>Model\<close>

datatype approval_status = PENDING | APPROVED | REJECTED | EXPIRED | CANCELLED
datatype decision_kind = Approve | Reject

text \<open>A requirement as the policy carries it, and its frozen copy in a request.\<close>

record policy_requirement =
  preq_permission :: string
  preq_count :: js_number

record approver_requirement =
  req_permission :: string
  req_count :: int

record approval_policy =
  pol_tenantId :: string
  pol_actionType :: string
  pol_requiredApprovals :: js_number
  pol_separationOfDuties :: bool
  pol_expiresAfterSeconds :: js_number
  pol_approverRequirements :: "policy_requirement list option"

record approval_decision =
  dec_actorId :: string
  dec_kind :: decision_kind
  dec_decidedAt :: instant
  dec_reason :: "string option"
  dec_creditedPermission :: "string option"

record approval_request =
  ar_id :: string
  ar_tenantId :: string
  ar_actionType :: string
  ar_targetType :: string
  ar_targetId :: string
  ar_targetVersion :: int
  ar_makerId :: string
  ar_requiredApprovals :: int
  ar_separationOfDuties :: bool
  ar_approverRequirements :: "approver_requirement list"
  ar_status :: approval_status
  ar_decisions :: "approval_decision list"
  ar_version :: int
  ar_createdAt :: instant
  ar_expiresAt :: instant

record approval_target =
  tg_actionType :: string
  tg_targetType :: string
  tg_targetId :: string
  tg_targetVersion :: js_number

record propose_input =
  pi_id :: string
  pi_policy :: approval_policy
  pi_makerId :: string
  pi_target :: approval_target

record decide_input =
  di_approverId :: string
  di_decision :: decision_kind
  di_expectedVersion :: int
  di_target :: approval_target
  di_reason :: "string option"
  di_approverPermissions :: "string list option"

definition requireNonBlank :: "string \<Rightarrow> unit res" where
  "requireNonBlank v = (if length (trim v) = 0 then reject invalid_trusted_context else Inr ())"

definition valid_instant :: "date \<Rightarrow> instant res" where
  "valid_instant d = (case d of None \<Rightarrow> reject invalid_timestamp | Some t \<Rightarrow> Inr t)"

definition assertPending :: "approval_request \<Rightarrow> int \<Rightarrow> unit res" where
  "assertPending r expectedVersion =
     (if ar_version r \<noteq> expectedVersion then reject approval_version_conflict
      else if ar_status r \<noteq> PENDING then reject approval_not_pending
      else Inr ())"

text \<open>\<open>new Date(created + seconds * 1000)\<close>; an infinite number of seconds gives an invalid date.\<close>

definition date_after :: "instant \<Rightarrow> js_number \<Rightarrow> date" where
  "date_after t secs = (case js_integer secs of Some n \<Rightarrow> mkDate (t + n * 1000) | None \<Rightarrow> None)"

definition freeze_requirement :: "policy_requirement \<Rightarrow> approver_requirement option" where
  "freeze_requirement q =
     (if length (trim (preq_permission q)) = 0 then None
      else (case js_integer (preq_count q) of
              None \<Rightarrow> None
            | Some c \<Rightarrow> if c < 1 then None else Some \<lparr>req_permission = preq_permission q, req_count = c\<rparr>))"

definition proposeApproval :: "propose_input \<Rightarrow> date \<Rightarrow> approval_request res" where
  "proposeApproval input now =
     (let policy = pi_policy input; target = pi_target input in
      bindR (requireNonBlank (pi_id input)) (\<lambda>_.
      bindR (requireNonBlank (tg_actionType target)) (\<lambda>_.
      bindR (requireNonBlank (tg_targetType target)) (\<lambda>_.
      bindR (requireNonBlank (tg_targetId target)) (\<lambda>_.
      if tg_actionType target \<noteq> pol_actionType policy then reject approval_target_mismatch
      else case js_integer (tg_targetVersion target) of None \<Rightarrow> reject invalid_trusted_context
      | Some tv \<Rightarrow>
      if tv < 1 then reject invalid_trusted_context
      else case js_integer (pol_requiredApprovals policy) of None \<Rightarrow> reject invalid_trusted_context
      | Some required \<Rightarrow>
      if required < 1 \<or> \<not> js_positive (pol_expiresAfterSeconds policy) then reject invalid_trusted_context
      else (let requirements = (case pol_approverRequirements policy of None \<Rightarrow> [] | Some qs \<Rightarrow> qs) in
        if length (uniq (map preq_permission requirements)) \<noteq> length requirements \<or>
           list_ex (\<lambda>q. freeze_requirement q = None) requirements
        then reject invalid_trusted_context
        else bindR (valid_instant now) (\<lambda>created.
          bindR (toISOString (date_after created (pol_expiresAfterSeconds policy))) (\<lambda>expires.
            let frozen = map (the \<circ> freeze_requirement) requirements in
            Inr \<lparr>ar_id = pi_id input, ar_tenantId = pol_tenantId policy,
              ar_actionType = tg_actionType target, ar_targetType = tg_targetType target,
              ar_targetId = tg_targetId target, ar_targetVersion = tv, ar_makerId = pi_makerId input,
              ar_requiredApprovals = (if requirements = [] then required else sum_list (map req_count frozen)),
              ar_separationOfDuties = pol_separationOfDuties policy,
              ar_approverRequirements = frozen, ar_status = PENDING, ar_decisions = [], ar_version = 1,
              ar_createdAt = created, ar_expiresAt = expires\<rparr>))))))))"

definition creditedCount :: "approval_decision list \<Rightarrow> string \<Rightarrow> int" where
  "creditedCount ds p = int (length (filter (\<lambda>d. dec_kind d = Approve \<and> dec_creditedPermission d = Some p) ds))"

definition creditFor :: "approval_request \<Rightarrow> decision_kind \<Rightarrow> string list \<Rightarrow> string option res" where
  "creditFor r kind permissions =
     (if ar_approverRequirements r = [] then Inr None
      else (let eligible = filter (\<lambda>q. req_permission q \<in> set permissions) (ar_approverRequirements r) in
        case eligible of
          [] \<Rightarrow> reject approval_approver_not_eligible
        | first # _ \<Rightarrow>
            if kind = Reject then Inr (Some (req_permission first))
            else (case find (\<lambda>q. creditedCount (ar_decisions r) (req_permission q) < req_count q) eligible of
                    None \<Rightarrow> reject approval_approver_not_eligible
                  | Some unmet \<Rightarrow> Inr (Some (req_permission unmet)))))"

definition isSatisfied :: "approval_request \<Rightarrow> approval_decision list \<Rightarrow> bool" where
  "isSatisfied r ds =
     (if ar_approverRequirements r = []
      then int (length (filter (\<lambda>d. dec_kind d = Approve) ds)) \<ge> ar_requiredApprovals r
      else list_all (\<lambda>q. creditedCount ds (req_permission q) \<ge> req_count q) (ar_approverRequirements r))"

definition decision_entry :: "decide_input \<Rightarrow> instant \<Rightarrow> string option \<Rightarrow> approval_decision" where
  "decision_entry input decidedAt credited =
     \<lparr>dec_actorId = di_approverId input, dec_kind = di_decision input, dec_decidedAt = decidedAt,
      dec_reason = (case map_option trim (di_reason input) of
                      None \<Rightarrow> None | Some reason \<Rightarrow> if length reason = 0 then None else Some reason),
      dec_creditedPermission = credited\<rparr>"

definition decision_status :: "approval_request \<Rightarrow> approval_decision \<Rightarrow> approval_status" where
  "decision_status r entry =
     (if dec_kind entry = Reject then REJECTED
      else if isSatisfied r (ar_decisions r @ [entry]) then APPROVED else PENDING)"

definition decideApproval :: "approval_request \<Rightarrow> decide_input \<Rightarrow> date \<Rightarrow> approval_request res" where
  "decideApproval r input now =
     bindR (assertPending r (di_expectedVersion input)) (\<lambda>_.
     bindR (valid_instant now) (\<lambda>decidedAt.
     if decidedAt \<ge> ar_expiresAt r then reject approval_expired
     else if tg_actionType (di_target input) \<noteq> ar_actionType r \<or> tg_targetType (di_target input) \<noteq> ar_targetType r \<or>
             tg_targetId (di_target input) \<noteq> ar_targetId r \<or>
             js_integer (tg_targetVersion (di_target input)) \<noteq> Some (ar_targetVersion r)
     then reject approval_target_mismatch
     else if ar_separationOfDuties r \<and> di_approverId input = ar_makerId r then reject separation_of_duties_violation
     else if list_ex (\<lambda>d. dec_actorId d = di_approverId input) (ar_decisions r) then reject separation_of_duties_violation
     else bindR (creditFor r (di_decision input) (case di_approverPermissions input of None \<Rightarrow> [] | Some ps \<Rightarrow> ps)) (\<lambda>credited.
       let entry = decision_entry input decidedAt credited in
       Inr (r\<lparr>ar_decisions := ar_decisions r @ [entry], ar_status := decision_status r entry,
              ar_version := ar_version r + 1\<rparr>))))"

definition cancelApproval :: "approval_request \<Rightarrow> string \<Rightarrow> int \<Rightarrow> approval_request res" where
  "cancelApproval r actorId expectedVersion =
     bindR (assertPending r expectedVersion) (\<lambda>_.
       if actorId \<noteq> ar_makerId r then reject permission_denied
       else Inr (r\<lparr>ar_status := CANCELLED, ar_version := ar_version r + 1\<rparr>))"

definition expireApproval :: "approval_request \<Rightarrow> int \<Rightarrow> date \<Rightarrow> approval_request res" where
  "expireApproval r expectedVersion now =
     bindR (assertPending r expectedVersion) (\<lambda>_.
     bindR (valid_instant now) (\<lambda>t.
       if t < ar_expiresAt r then reject approval_not_pending
       else Inr (r\<lparr>ar_status := EXPIRED, ar_version := ar_version r + 1\<rparr>)))"

section \<open>The transition system\<close>

inductive approval_step :: "approval_request \<Rightarrow> approval_request \<Rightarrow> bool" where
  decide: "decideApproval r input now = Inr r' \<Longrightarrow> approval_step r r'"
| cancel: "cancelApproval r actor v = Inr r' \<Longrightarrow> approval_step r r'"
| expire: "expireApproval r v now = Inr r' \<Longrightarrow> approval_step r r'"

inductive approval_reachable :: "approval_request \<Rightarrow> bool" where
  propose: "proposeApproval input now = Inr r \<Longrightarrow> approval_reachable r"
| step: "approval_reachable r \<Longrightarrow> approval_step r r' \<Longrightarrow> approval_reachable r'"

inductive_cases approval_stepE: "approval_step r r'"

section \<open>What each transition does\<close>

lemma assertPending_Inr_iff [simp]:
  "assertPending r v = Inr u \<longleftrightarrow> ar_version r = v \<and> ar_status r = PENDING"
  by (auto simp: assertPending_def)

lemma valid_instant_Inr_iff [simp]: "valid_instant d = Inr t \<longleftrightarrow> d = Some t"
  by (auto simp: valid_instant_def split: option.splits)

lemma cancelApproval_Inr_iff:
  "cancelApproval r a v = Inr r' \<longleftrightarrow> ar_version r = v \<and> ar_status r = PENDING \<and> a = ar_makerId r \<and>
     r' = r\<lparr>ar_status := CANCELLED, ar_version := ar_version r + 1\<rparr>"
  by (auto simp: cancelApproval_def bindR_Inr_iff)

lemma expireApproval_Inr_iff:
  "expireApproval r v now = Inr r' \<longleftrightarrow> ar_version r = v \<and> ar_status r = PENDING \<and>
     (\<exists>t. now = Some t \<and> ar_expiresAt r \<le> t) \<and>
     r' = r\<lparr>ar_status := EXPIRED, ar_version := ar_version r + 1\<rparr>"
  by (auto simp: expireApproval_def bindR_Inr_iff)

lemma list_ex_actor: "list_ex (\<lambda>d. dec_actorId d = a) ds \<longleftrightarrow> a \<in> dec_actorId ` set ds"
  by (auto simp: list_ex_iff image_iff)

lemma decideApproval_Inr_iff:
  "decideApproval r input now = Inr r' \<longleftrightarrow>
     ar_version r = di_expectedVersion input \<and> ar_status r = PENDING \<and>
     (\<exists>t c. now = Some t \<and> t < ar_expiresAt r \<and>
        tg_actionType (di_target input) = ar_actionType r \<and> tg_targetType (di_target input) = ar_targetType r \<and>
        tg_targetId (di_target input) = ar_targetId r \<and> js_integer (tg_targetVersion (di_target input)) = Some (ar_targetVersion r) \<and>
        (ar_separationOfDuties r \<longrightarrow> di_approverId input \<noteq> ar_makerId r) \<and>
        di_approverId input \<notin> dec_actorId ` set (ar_decisions r) \<and>
        creditFor r (di_decision input) (case di_approverPermissions input of None \<Rightarrow> [] | Some ps \<Rightarrow> ps) = Inr c \<and>
        r' = r\<lparr>ar_decisions := ar_decisions r @ [decision_entry input t c],
               ar_status := decision_status r (decision_entry input t c), ar_version := ar_version r + 1\<rparr>)"
  by (auto simp: decideApproval_def bindR_Inr_iff Let_def list_ex_actor)

lemma decision_entry_simps [simp]:
  "dec_actorId (decision_entry i t c) = di_approverId i" "dec_kind (decision_entry i t c) = di_decision i"
  "dec_decidedAt (decision_entry i t c) = t" "dec_creditedPermission (decision_entry i t c) = c"
  by (simp_all add: decision_entry_def)

lemma creditedCount_snoc:
  "creditedCount (ds @ [d]) p = creditedCount ds p +
     (if dec_kind d = Approve \<and> dec_creditedPermission d = Some p then 1 else 0)"
  by (simp add: creditedCount_def)

lemma creditFor_Inr:
  assumes "creditFor r k ps = Inr c"
  shows "(ar_approverRequirements r = [] \<and> c = None) \<or>
    (\<exists>q \<in> set (ar_approverRequirements r). c = Some (req_permission q) \<and> req_permission q \<in> set ps \<and>
       (k = Approve \<longrightarrow> creditedCount (ar_decisions r) (req_permission q) < req_count q))"
proof (cases "ar_approverRequirements r = []")
  case False
  let ?el = "filter (\<lambda>q. req_permission q \<in> set ps) (ar_approverRequirements r)"
  obtain f fs where el: "?el = f # fs" using assms False by (auto simp: creditFor_def Let_def split: list.splits)
  have "f \<in> set ?el" unfolding el by simp
  then have f: "f \<in> set (ar_approverRequirements r)" "req_permission f \<in> set ps" by simp_all
  show ?thesis
  proof (cases k)
    case Reject
    then show ?thesis using assms False el f by (auto simp: creditFor_def Let_def)
  next
    case Approve
    then obtain q where q: "find (\<lambda>q. creditedCount (ar_decisions r) (req_permission q) < req_count q) ?el = Some q" "c = Some (req_permission q)"
      using assms False el by (auto simp: creditFor_def Let_def split: option.splits)
    then have "q \<in> set ?el" "creditedCount (ar_decisions r) (req_permission q) < req_count q"
      by (auto simp: find_Some_iff simp del: set_filter)
    then show ?thesis using q by auto
  qed
qed (use assms in \<open>simp add: creditFor_def\<close>)

section \<open>The invariant of reachable requests\<close>

text \<open>Who decided, what was credited, and how status and version follow from the decisions.\<close>

definition wf_actors :: "approval_request \<Rightarrow> bool" where
  "wf_actors r \<longleftrightarrow>
     distinct (map dec_actorId (ar_decisions r)) \<and>
     (ar_separationOfDuties r \<longrightarrow> ar_makerId r \<notin> dec_actorId ` set (ar_decisions r)) \<and>
     (\<forall>d\<in>set (ar_decisions r). dec_decidedAt d < ar_expiresAt r)"

definition wf_credits :: "approval_request \<Rightarrow> bool" where
  "wf_credits r \<longleftrightarrow>
     distinct (map req_permission (ar_approverRequirements r)) \<and>
     (\<forall>q\<in>set (ar_approverRequirements r). 1 \<le> req_count q \<and> creditedCount (ar_decisions r) (req_permission q) \<le> req_count q) \<and>
     1 \<le> ar_requiredApprovals r \<and>
     (ar_approverRequirements r \<noteq> [] \<longrightarrow> ar_requiredApprovals r = sum_list (map req_count (ar_approverRequirements r)) \<and>
        (\<forall>d\<in>set (ar_decisions r). \<exists>q\<in>set (ar_approverRequirements r). dec_creditedPermission d = Some (req_permission q)))"

definition wf_status :: "approval_request \<Rightarrow> bool" where
  "wf_status r \<longleftrightarrow>
     ar_version r = 1 + int (length (ar_decisions r)) + (if ar_status r \<in> {EXPIRED, CANCELLED} then 1 else 0) \<and>
     (if ar_status r = REJECTED
      then ar_decisions r \<noteq> [] \<and> dec_kind (last (ar_decisions r)) = Reject \<and>
        (\<forall>d\<in>set (butlast (ar_decisions r)). dec_kind d = Approve)
      else (\<forall>d\<in>set (ar_decisions r). dec_kind d = Approve) \<and>
        (isSatisfied r (ar_decisions r) \<longleftrightarrow> ar_status r = APPROVED))"

definition wf_request :: "approval_request \<Rightarrow> bool" where
  "wf_request r \<longleftrightarrow> wf_actors r \<and> wf_credits r \<and> wf_status r"

lemmas wf_request_defs = wf_request_def wf_actors_def wf_credits_def wf_status_def

lemma isSatisfied_update [simp]:
  "isSatisfied (r\<lparr>ar_status := s\<rparr>) = isSatisfied r" "isSatisfied (r\<lparr>ar_version := v\<rparr>) = isSatisfied r"
  "isSatisfied (r\<lparr>ar_decisions := ds\<rparr>) = isSatisfied r"
  by (simp_all add: isSatisfied_def fun_eq_iff)

lemma wf_decide:
  assumes "wf_request r" "decideApproval r input now = Inr r'"
  shows "wf_request r'"
proof -
  obtain t c where pend: "ar_status r = PENDING" and t: "t < ar_expiresAt r"
    and sod: "ar_separationOfDuties r \<longrightarrow> di_approverId input \<noteq> ar_makerId r"
    and new: "di_approverId input \<notin> dec_actorId ` set (ar_decisions r)"
    and credit: "creditFor r (di_decision input) (case di_approverPermissions input of None \<Rightarrow> [] | Some ps \<Rightarrow> ps) = Inr c"
    and r': "r' = r\<lparr>ar_decisions := ar_decisions r @ [decision_entry input t c],
               ar_status := decision_status r (decision_entry input t c), ar_version := ar_version r + 1\<rparr>"
    using assms(2) unfolding decideApproval_Inr_iff by blast
  let ?e = "decision_entry input t c"
  have perms: "distinct (map req_permission (ar_approverRequirements r))" using assms(1) by (simp add: wf_request_defs)
  have cnt: "creditedCount (ar_decisions r @ [?e]) (req_permission q) \<le> req_count q" if "q \<in> set (ar_approverRequirements r)" for q
  proof -
    have "creditedCount (ar_decisions r) (req_permission q) < req_count q" if "di_decision input = Approve" "c = Some (req_permission q)"
      using creditFor_Inr [OF credit] that perms \<open>q \<in> _\<close> by (auto simp: distinct_map inj_on_def)
    then show ?thesis using assms(1) that by (auto simp: creditedCount_snoc wf_request_defs)
  qed
  have cred: "\<exists>q\<in>set (ar_approverRequirements r). c = Some (req_permission q)" if "ar_approverRequirements r \<noteq> []"
    using creditFor_Inr [OF credit] that by auto
  have wf: "wf_actors r" "wf_credits r" "wf_status r" using assms(1) by (simp_all add: wf_request_def)
  have "wf_actors r'" using wf(1) t sod new by (simp add: wf_actors_def r') metis
  moreover have "wf_credits r'" using wf(2) cnt cred by (simp add: wf_credits_def r')
  moreover have "wf_status r'"
    using wf(3) pend by (cases "di_decision input") (simp_all add: wf_status_def r' decision_status_def)
  ultimately show ?thesis by (simp add: wf_request_def)
qed

lemma wf_settle:
  assumes "wf_request r" "ar_status r = PENDING" "s \<in> {EXPIRED, CANCELLED}"
  shows "wf_request (r\<lparr>ar_status := s, ar_version := ar_version r + 1\<rparr>)"
  using assms by (auto simp: wf_request_defs)

lemma freeze_requirement_Some:
  "freeze_requirement q = Some f \<Longrightarrow> req_permission f = preq_permission q \<and> 1 \<le> req_count f"
  by (auto simp: freeze_requirement_def split: if_splits option.splits)

lemma sum_list_ge_1: "xs \<noteq> [] \<Longrightarrow> (\<And>x. x \<in> set xs \<Longrightarrow> 1 \<le> x) \<Longrightarrow> (1::int) \<le> sum_list xs"
proof (induction xs)
  case (Cons x xs)
  then show ?case by (cases "xs = []") fastforce+
qed simp

lemma wf_propose:
  assumes "proposeApproval input now = Inr r"
  shows "wf_request r"
proof -
  define qs where "qs = (case pol_approverRequirements (pi_policy input) of None \<Rightarrow> [] | Some qs \<Rightarrow> qs)"
  define fs where "fs = map (the \<circ> freeze_requirement) qs"
  from assms obtain required where required: "1 \<le> required"
    and uniq: "length (uniq (map preq_permission qs)) = length qs"
    and frozen: "\<forall>q\<in>set qs. freeze_requirement q \<noteq> None"
    and r: "ar_status r = PENDING" "ar_decisions r = []" "ar_version r = 1" "ar_approverRequirements r = fs"
      "ar_requiredApprovals r = (if qs = [] then required else sum_list (map req_count fs))"
    by (auto simp: proposeApproval_def Let_def bindR_Inr_iff list_ex_iff not_less simp flip: qs_def fs_def split: option.splits if_splits)
  have f: "\<forall>q\<in>set qs. req_permission ((the \<circ> freeze_requirement) q) = preq_permission q \<and> 1 \<le> req_count ((the \<circ> freeze_requirement) q)"
    using frozen freeze_requirement_Some by (auto simp: option.the_def split: option.splits)
  then have perm: "map req_permission fs = map preq_permission qs" by (simp add: fs_def)
  have counts: "\<forall>f\<in>set fs. 1 \<le> req_count f" using f by (auto simp: fs_def)
  have pos: "1 \<le> ar_requiredApprovals r"
    using required r(5) counts by (auto simp: fs_def intro!: sum_list_ge_1)
  have sat: "\<not> isSatisfied r []"
    using pos counts r(4) by (cases fs) (auto simp: isSatisfied_def creditedCount_def)
  have "distinct (map req_permission fs)"
    unfolding perm using uniq length_uniq_eq_iff [of "map preq_permission qs"] by simp
  then show ?thesis
    using pos counts sat r by (auto simp: wf_request_defs creditedCount_def fs_def)
qed

lemma reachable_wf: "approval_reachable r \<Longrightarrow> wf_request r"
proof (induction rule: approval_reachable.induct)
  case (propose input now r)
  then show ?case by (rule wf_propose)
next
  case (step r r')
  from step.hyps(2) step.IH show ?case
    by (cases rule: approval_step.cases)
      (auto simp: cancelApproval_Inr_iff expireApproval_Inr_iff intro: wf_decide wf_settle)
qed

section \<open>Properties\<close>

lemma approve_credit_count:
  assumes "\<forall>d\<in>set ds. dec_kind d = Approve" "\<forall>d\<in>set ds. \<exists>q\<in>set qs. dec_creditedPermission d = Some (req_permission q)"
    and "distinct (map req_permission qs)"
  shows "(\<Sum>q\<leftarrow>qs. creditedCount ds (req_permission q)) = int (length ds)"
  using assms(1,2)
proof (induction ds rule: rev_induct)
  case Nil
  show ?case by (simp add: creditedCount_def)
next
  case (snoc d ds)
  obtain q where q: "q \<in> set qs" "dec_creditedPermission d = Some (req_permission q)" using snoc.prems by auto
  have "(\<Sum>q\<leftarrow>qs. creditedCount (ds @ [d]) (req_permission q))
      = (\<Sum>q\<leftarrow>qs. creditedCount ds (req_permission q)) + (\<Sum>p\<leftarrow>map req_permission qs. if p = req_permission q then 1 else 0)"
    using snoc.prems q(2) by (simp add: creditedCount_snoc sum_list_map_add o_def eq_commute)
  also have "(\<Sum>p\<leftarrow>map req_permission qs. if p = req_permission q then 1 else 0) = (1::int)"
    using assms(3) q(1) by (simp only: sum_list_distinct_conv_sum_set) simp
  finally show ?case using snoc by simp
qed

text \<open>What dual control asks of an approved request.\<close>

definition dual_control :: "approval_request \<Rightarrow> bool" where
  "dual_control r \<longleftrightarrow>
    (\<forall>d\<in>set (ar_decisions r). dec_kind d = Approve \<and> dec_decidedAt d < ar_expiresAt r) \<and>
    distinct (map dec_actorId (ar_decisions r)) \<and>
    (ar_separationOfDuties r \<longrightarrow> ar_makerId r \<notin> dec_actorId ` set (ar_decisions r)) \<and>
    (if ar_approverRequirements r = [] then ar_requiredApprovals r \<le> int (length (ar_decisions r))
     else (\<forall>q\<in>set (ar_approverRequirements r). creditedCount (ar_decisions r) (req_permission q) = req_count q) \<and>
       int (length (ar_decisions r)) = ar_requiredApprovals r)"

lemma wf_approved_dual_control:
  assumes "wf_request r" "ar_status r = APPROVED"
  shows "dual_control r"
proof -
  have wf: "wf_actors r" "wf_credits r" "wf_status r" using assms(1) by (simp_all add: wf_request_def)
  have app: "\<forall>d\<in>set (ar_decisions r). dec_kind d = Approve" and sat: "isSatisfied r (ar_decisions r)"
    using wf(3) assms(2) by (simp_all add: wf_status_def)
  have "ar_requiredApprovals r \<le> int (length (ar_decisions r))" if "ar_approverRequirements r = []"
  proof -
    have "filter (\<lambda>d. dec_kind d = Approve) (ar_decisions r) = ar_decisions r" using app by (simp add: filter_id_conv)
    then show ?thesis using sat that by (simp add: isSatisfied_def)
  qed
  moreover have "(\<forall>q\<in>set (ar_approverRequirements r). creditedCount (ar_decisions r) (req_permission q) = req_count q) \<and>
      int (length (ar_decisions r)) = ar_requiredApprovals r" if ne: "ar_approverRequirements r \<noteq> []"
  proof -
    have eq: "\<forall>q\<in>set (ar_approverRequirements r). creditedCount (ar_decisions r) (req_permission q) = req_count q"
      using sat ne wf(2) by (fastforce simp: isSatisfied_def wf_credits_def list_all_iff)
    then have "(\<Sum>q\<leftarrow>ar_approverRequirements r. creditedCount (ar_decisions r) (req_permission q)) = ar_requiredApprovals r"
      using wf(2) ne by (simp add: wf_credits_def cong: map_cong)
    moreover have "(\<Sum>q\<leftarrow>ar_approverRequirements r. creditedCount (ar_decisions r) (req_permission q)) = int (length (ar_decisions r))"
      using app wf(2) ne by (intro approve_credit_count) (simp_all add: wf_credits_def)
    ultimately show ?thesis using eq by simp
  qed
  ultimately show ?thesis using wf(1) app by (simp add: dual_control_def wf_actors_def)
qed

text \<open>Dual control. A reachable approved request carries only approvals, each by a different
  actor, none by the maker when the policy separates duties, all before the expiry. Without named
  requirements there are at least the required number of them; with named requirements every
  requirement is credited exactly its count, each approval counts toward exactly one requirement, and
  so their number is the total required.\<close>

theorem approved_request_dual_control:
  assumes "approval_reachable r" "ar_status r = APPROVED"
  shows "(\<forall>d\<in>set (ar_decisions r). dec_kind d = Approve \<and> dec_decidedAt d < ar_expiresAt r) \<and>
    distinct (map dec_actorId (ar_decisions r)) \<and>
    (ar_separationOfDuties r \<longrightarrow> ar_makerId r \<notin> dec_actorId ` set (ar_decisions r)) \<and>
    (if ar_approverRequirements r = [] then ar_requiredApprovals r \<le> int (length (ar_decisions r))
     else (\<forall>q\<in>set (ar_approverRequirements r). creditedCount (ar_decisions r) (req_permission q) = req_count q) \<and>
       int (length (ar_decisions r)) = ar_requiredApprovals r)"
  using wf_approved_dual_control [OF reachable_wf [OF assms(1)] assms(2)] by (simp add: dual_control_def)

text \<open>An approval request is an append-only record. Only a pending request with the caller's
  version changes; a transition raises the version by one, keeps identity, target, policy terms and
  expiry, and appends at most one decision; a settled request never changes again.\<close>

theorem approval_step_append_only:
  assumes "approval_step r r'"
  shows "ar_status r = PENDING \<and> ar_version r' = ar_version r + 1 \<and>
    (\<exists>new. length new \<le> 1 \<and> ar_decisions r' = ar_decisions r @ new) \<and>
    r' = r\<lparr>ar_status := ar_status r', ar_decisions := ar_decisions r', ar_version := ar_version r'\<rparr>"
  using assms
  by (cases rule: approval_step.cases)
    (auto simp: cancelApproval_Inr_iff expireApproval_Inr_iff decideApproval_Inr_iff)

definition example_policy :: approval_policy where
  "example_policy = \<lparr>pol_tenantId = ''t1'', pol_actionType = ''pricing:rate_card:activate'', pol_requiredApprovals = Num 2,
     pol_separationOfDuties = True, pol_expiresAfterSeconds = Num 604800,
     pol_approverRequirements = Some [\<lparr>preq_permission = ''pricing:rate_card:activate'', preq_count = Num 1\<rparr>,
       \<lparr>preq_permission = ''billing:invoice:finalize'', preq_count = Num 1\<rparr>]\<rparr>"

definition example_target :: approval_target where
  "example_target = \<lparr>tg_actionType = ''pricing:rate_card:activate'', tg_targetType = ''RateCard'', tg_targetId = ''rc1'', tg_targetVersion = Num 1\<rparr>"

definition example_decide :: "string \<Rightarrow> int \<Rightarrow> string list \<Rightarrow> decide_input" where
  "example_decide a v ps = \<lparr>di_approverId = a, di_decision = Approve, di_expectedVersion = v, di_target = example_target,
     di_reason = None, di_approverPermissions = Some ps\<rparr>"

definition example_request :: approval_request where
  "example_request = \<lparr>ar_id = ''a1'', ar_tenantId = ''t1'', ar_actionType = ''pricing:rate_card:activate'',
     ar_targetType = ''RateCard'', ar_targetId = ''rc1'', ar_targetVersion = 1, ar_makerId = ''maker'',
     ar_requiredApprovals = 2, ar_separationOfDuties = True,
     ar_approverRequirements = [\<lparr>req_permission = ''pricing:rate_card:activate'', req_count = 1\<rparr>,
       \<lparr>req_permission = ''billing:invoice:finalize'', req_count = 1\<rparr>],
     ar_status = PENDING, ar_decisions = [], ar_version = 1, ar_createdAt = 0, ar_expiresAt = 604800000\<rparr>"

definition example_approved :: approval_request where
  "example_approved = example_request\<lparr>ar_status := APPROVED, ar_version := 3, ar_decisions :=
     [\<lparr>dec_actorId = ''pm'', dec_kind = Approve, dec_decidedAt = 1, dec_reason = None, dec_creditedPermission = Some ''pricing:rate_card:activate''\<rparr>,
      \<lparr>dec_actorId = ''fc'', dec_kind = Approve, dec_decidedAt = 2, dec_reason = None, dec_creditedPermission = Some ''billing:invoice:finalize''\<rparr>]\<rparr>"

lemma eval_propose:
  "proposeApproval \<lparr>pi_id = ''a1'', pi_policy = example_policy, pi_makerId = ''maker'', pi_target = example_target\<rparr> (Some 0) = Inr example_request"
  by (simp add: proposeApproval_def example_policy_def example_target_def example_request_def requireNonBlank_def trim_def
      is_space_def js_integer_def js_positive_def freeze_requirement_def valid_instant_def date_after_def mkDate_def)

definition example_mid :: approval_request where
  "example_mid = example_request\<lparr>ar_version := 2, ar_decisions :=
     [\<lparr>dec_actorId = ''pm'', dec_kind = Approve, dec_decidedAt = 1, dec_reason = None, dec_creditedPermission = Some ''pricing:rate_card:activate''\<rparr>]\<rparr>"

lemma eval_decide:
  "decideApproval example_request (example_decide ''pm'' 1 [''pricing:rate_card:activate'', ''billing:invoice:finalize'']) (Some 1) = Inr example_mid"
  "decideApproval example_mid (example_decide ''fc'' 2 [''billing:invoice:finalize'']) (Some 2) = Inr example_approved"
  by (simp_all add: decideApproval_def example_mid_def example_request_def example_decide_def example_target_def example_approved_def
      assertPending_def valid_instant_def js_integer_def creditFor_def creditedCount_def decision_entry_def decision_status_def isSatisfied_def)

lemma reachable_example: "approval_reachable example_approved"
  using eval_propose eval_decide by (meson approval_reachable.intros approval_step.decide)

theorem approved_request_dual_control_witness:
  "distinct (map dec_actorId (ar_decisions example_approved)) \<and>
   creditedCount (ar_decisions example_approved) ''billing:invoice:finalize'' = 1"
  using approved_request_dual_control [OF reachable_example] by (simp add: example_approved_def example_request_def)

theorem approval_step_append_only_witness:
  "ar_version example_mid = ar_version example_request + 1"
  using approval_step_append_only [OF approval_step.decide [OF eval_decide(1)]] by blast

end
