(* ===== verification/Tenant_Domain.thy ===== *)
theory Tenant_Domain
  imports Tenant_Context
begin

text \<open>
  \<open>modules/identity-tenant/domain/tenant.ts\<close>: the tenant aggregate. Its two operations return the new
  snapshot with the event to publish. A tenant's history is the list of events its accepted commands
  produced; the abstract specification is the lifecycle automaton over event types, and the lemmas show
  that the aggregate refines it: the snapshot is determined by the events, their versions are 1, 2, 3,
  \<open>\<dots>\<close> without gaps, and a closed tenant accepts nothing more.
\<close>

section \<open>Model\<close>

datatype tenant_event_type = tenant_provisioned_v1 | tenant_activated_v1 | tenant_suspended_v1 | tenant_closed_v1

record tenant_snapshot =
  t_id :: string
  t_displayName :: string
  t_state :: tenant_state
  t_version :: int
  t_createdAt :: instant
  t_updatedAt :: instant

record tenant_event =
  te_type :: tenant_event_type
  te_tenantId :: string
  te_aggregateVersion :: int
  te_occurredAt :: instant

type_synonym tenant_change = "tenant_snapshot \<times> tenant_event"

fun transitions :: "tenant_state \<Rightarrow> tenant_state list" where
  "transitions PROVISIONING = [ACTIVE]"
| "transitions ACTIVE = [SUSPENDED, CLOSED]"
| "transitions SUSPENDED = [ACTIVE, CLOSED]"
| "transitions CLOSED = []"

text \<open>\<open>transitionEvents\<close> has no entry for \<open>PROVISIONING\<close>, which the argument type excludes.\<close>

fun transitionEvents :: "tenant_state \<Rightarrow> tenant_event_type" where
  "transitionEvents ACTIVE = tenant_activated_v1"
| "transitionEvents SUSPENDED = tenant_suspended_v1"
| "transitionEvents CLOSED = tenant_closed_v1"
| "transitionEvents PROVISIONING = tenant_provisioned_v1"

definition tenant_isoInstant :: "date \<Rightarrow> instant res" where
  "tenant_isoInstant d = (case d of None \<Rightarrow> reject invalid_timestamp | Some t \<Rightarrow> Inr t)"

definition provisionTenant :: "string \<Rightarrow> string \<Rightarrow> date \<Rightarrow> tenant_change res" where
  "provisionTenant i displayName now =
     (let normalizedName = trim displayName in
      if length normalizedName = 0 then reject tenant_display_name_required
      else bindR (tenant_isoInstant now) (\<lambda>occurredAt. Inr
        (\<lparr>t_id = i, t_displayName = normalizedName, t_state = PROVISIONING, t_version = 1,
          t_createdAt = occurredAt, t_updatedAt = occurredAt\<rparr>,
         \<lparr>te_type = tenant_provisioned_v1, te_tenantId = i, te_aggregateVersion = 1, te_occurredAt = occurredAt\<rparr>)))"

definition transitionTenant :: "tenant_snapshot \<Rightarrow> tenant_state \<Rightarrow> int \<Rightarrow> date \<Rightarrow> tenant_change res" where
  "transitionTenant current target expectedVersion now =
     (if t_version current \<noteq> expectedVersion then reject tenant_version_conflict
      else if target \<notin> set (transitions (t_state current)) then reject invalid_tenant_transition
      else bindR (tenant_isoInstant now) (\<lambda>occurredAt. Inr
        (current\<lparr>t_state := target, t_version := t_version current + 1, t_updatedAt := occurredAt\<rparr>,
         \<lparr>te_type = transitionEvents target, te_tenantId = t_id current,
          te_aggregateVersion = t_version current + 1, te_occurredAt = occurredAt\<rparr>)))"

lemma transitionTenant_Inr_iff:
  "transitionTenant current target v now = Inr (t, e) \<longleftrightarrow>
     t_version current = v \<and> target \<in> set (transitions (t_state current)) \<and>
     (\<exists>at. now = Some at \<and> t = current\<lparr>t_state := target, t_version := v + 1, t_updatedAt := at\<rparr> \<and>
       e = \<lparr>te_type = transitionEvents target, te_tenantId = t_id current, te_aggregateVersion = v + 1, te_occurredAt = at\<rparr>)"
  by (auto simp: transitionTenant_def tenant_isoInstant_def split: option.splits)

lemma provisionTenant_Inr_iff:
  "provisionTenant i name now = Inr (t, e) \<longleftrightarrow> \<not> blank name \<and>
     (\<exists>at. now = Some at \<and>
       t = \<lparr>t_id = i, t_displayName = trim name, t_state = PROVISIONING, t_version = 1, t_createdAt = at, t_updatedAt = at\<rparr> \<and>
       e = \<lparr>te_type = tenant_provisioned_v1, te_tenantId = i, te_aggregateVersion = 1, te_occurredAt = at\<rparr>)"
  by (auto simp: provisionTenant_def tenant_isoInstant_def Let_def trim_empty_iff simp flip: length_0_conv split: option.splits)

lemma trim_last_not_space: "trim s \<noteq> [] \<Longrightarrow> \<not> is_space (last (trim s))"
  unfolding trim_def by (simp only: last_rev rev_is_Nil_conv) (rule hd_dropWhile)

lemma blank_trim: "blank (trim s) \<longleftrightarrow> blank s"
proof
  assume "blank (trim s)"
  then have "trim s = []" using trim_last_not_space [of s] last_in_set unfolding blank_def list_all_iff by blast
  then show "blank s" using trim_empty_iff [of s] by simp
next
  assume "blank s"
  then have "trim s = []" using trim_empty_iff [of s] by simp
  then show "blank (trim s)" by simp
qed

section \<open>The abstract lifecycle\<close>

text \<open>The automaton the aggregate promises: which state each event leads to, and where each may occur.\<close>

fun lifecycle :: "tenant_state option \<Rightarrow> tenant_event_type \<Rightarrow> tenant_state option" where
  "lifecycle None tenant_provisioned_v1 = Some PROVISIONING"
| "lifecycle (Some PROVISIONING) tenant_activated_v1 = Some ACTIVE"
| "lifecycle (Some ACTIVE) tenant_suspended_v1 = Some SUSPENDED"
| "lifecycle (Some SUSPENDED) tenant_activated_v1 = Some ACTIVE"
| "lifecycle (Some ACTIVE) tenant_closed_v1 = Some CLOSED"
| "lifecycle (Some SUSPENDED) tenant_closed_v1 = Some CLOSED"
| "lifecycle _ _ = None"

fun lifecycle_run :: "tenant_state option \<Rightarrow> tenant_event_type list \<Rightarrow> tenant_state option" where
  "lifecycle_run s [] = s"
| "lifecycle_run s (e # es) = (case lifecycle s e of None \<Rightarrow> None | Some s' \<Rightarrow> lifecycle_run (Some s') es)"

lemma lifecycle_run_snoc:
  "lifecycle_run s es = Some s' \<Longrightarrow> lifecycle (Some s') e = Some s'' \<Longrightarrow> lifecycle_run s (es @ [e]) = Some s''"
  by (induction s es rule: lifecycle_run.induct) (auto split: option.splits)

text \<open>Every snapshot the two operations can produce, with the events published on the way.\<close>

inductive tenant_history :: "tenant_snapshot \<Rightarrow> tenant_event list \<Rightarrow> bool" where
  history_provision: "provisionTenant i name now = Inr (t, e) \<Longrightarrow> tenant_history t [e]"
| history_transition: "tenant_history t es \<Longrightarrow> transitionTenant t target v now = Inr (t', e) \<Longrightarrow> tenant_history t' (es @ [e])"

inductive_cases history_snocE: "tenant_history t es"

lemma transition_refines: "target \<in> set (transitions s) \<Longrightarrow> lifecycle (Some s) (transitionEvents target) = Some target"
  by (cases s) auto

definition history_inv :: "tenant_snapshot \<Rightarrow> tenant_event list \<Rightarrow> bool" where
  "history_inv t es \<longleftrightarrow>
     lifecycle_run None (map te_type es) = Some (t_state t) \<and>
     map te_aggregateVersion es = map int [1..<Suc (length es)] \<and> t_version t = int (length es) \<and>
     (\<forall>e\<in>set es. te_tenantId e = t_id t) \<and> es \<noteq> [] \<and>
     t_createdAt t = te_occurredAt (hd es) \<and> t_updatedAt t = te_occurredAt (last es) \<and> \<not> blank (t_displayName t)"

lemma history_invariant: "tenant_history t es \<Longrightarrow> history_inv t es"
proof (induction rule: tenant_history.induct)
  case (history_provision i name now t e)
  then show ?case by (auto simp: provisionTenant_Inr_iff history_inv_def blank_trim)
next
  case (history_transition t es target v now t' e)
  from history_transition.hyps(2) have a: "v = t_version t" "target \<in> set (transitions (t_state t))"
    and "\<exists>at. t' = t\<lparr>t_state := target, t_version := t_version t + 1, t_updatedAt := at\<rparr> \<and>
       e = \<lparr>te_type = transitionEvents target, te_tenantId = t_id t, te_aggregateVersion = t_version t + 1, te_occurredAt = at\<rparr>"
    by (auto simp: transitionTenant_Inr_iff)
  then obtain at where t': "t' = t\<lparr>t_state := target, t_version := t_version t + 1, t_updatedAt := at\<rparr>"
    and e: "e = \<lparr>te_type = transitionEvents target, te_tenantId = t_id t, te_aggregateVersion = t_version t + 1, te_occurredAt = at\<rparr>"
    by blast
  from history_transition.IH lifecycle_run_snoc [OF _ transition_refines [OF a(2)]]
  show ?case by (auto simp: history_inv_def t' e hd_append)
qed

section \<open>Properties\<close>

text \<open>C24: the aggregate refines the lifecycle automaton. For every tenant produced by provisioning and any
  sequence of accepted transitions, the published events are a path of the automaton ending in the
  tenant's state; their versions are exactly 1 to n in order, n being the tenant's version; all carry the
  tenant's id; and the creation and update instants are those of the first and the last event.\<close>

theorem tenant_refines_lifecycle:
  assumes "tenant_history t es"
  shows "lifecycle_run None (map te_type es) = Some (t_state t) \<and>
    map te_aggregateVersion es = map int [1..<Suc (length es)] \<and> t_version t = int (length es) \<and>
    (\<forall>e\<in>set es. te_tenantId e = t_id t) \<and> t_createdAt t = te_occurredAt (hd es) \<and> t_updatedAt t = te_occurredAt (last es)"
  using history_invariant [OF assms] by (simp add: history_inv_def)

definition sample_tenant :: tenant_snapshot where
  "sample_tenant = \<lparr>t_id = ''t'', t_displayName = ''Acme'', t_state = PROVISIONING, t_version = 1, t_createdAt = 5, t_updatedAt = 5\<rparr>"

definition sample_event :: tenant_event where
  "sample_event = \<lparr>te_type = tenant_provisioned_v1, te_tenantId = ''t'', te_aggregateVersion = 1, te_occurredAt = 5\<rparr>"

lemma sample_provisioned: "provisionTenant ''t'' ''  Acme '' (Some 5) = Inr (sample_tenant, sample_event)"
  by (simp add: provisionTenant_def tenant_isoInstant_def trim_def is_space_def sample_tenant_def sample_event_def)

theorem tenant_refines_lifecycle_witness:
  "\<exists>t e. transitionTenant sample_tenant ACTIVE 1 (Some 9) = Inr (t, e) \<and>
     lifecycle_run None [te_type sample_event, te_type e] = Some (t_state t) \<and> t_version t = 2"
proof -
  obtain t e where r: "transitionTenant sample_tenant ACTIVE 1 (Some 9) = Inr (t, e)"
    by (simp add: transitionTenant_def tenant_isoInstant_def sample_tenant_def)
  from tenant_refines_lifecycle [OF history_transition [OF history_provision [OF sample_provisioned] r]] r
  show ?thesis by auto
qed

text \<open>A transition is accepted exactly when the caller saw the current version, the automaton allows
  the target and the clock is valid; each failing condition gives its own problem, the version check
  first. In particular a closed tenant never changes again and no tenant returns to provisioning.\<close>

theorem transition_accepted_iff:
  "transitionTenant current target expectedVersion now =
     (if t_version current \<noteq> expectedVersion then reject tenant_version_conflict
      else if lifecycle (Some (t_state current)) (transitionEvents target) \<noteq> Some target \<or> target = PROVISIONING
      then reject invalid_tenant_transition
      else case now of None \<Rightarrow> reject invalid_timestamp
           | Some at \<Rightarrow> Inr (current\<lparr>t_state := target, t_version := expectedVersion + 1, t_updatedAt := at\<rparr>,
               \<lparr>te_type = transitionEvents target, te_tenantId = t_id current, te_aggregateVersion = expectedVersion + 1, te_occurredAt = at\<rparr>)) \<and>
   (t_state current = CLOSED \<longrightarrow> isl (transitionTenant current target expectedVersion now)) \<and>
   isl (transitionTenant current PROVISIONING expectedVersion now)"
proof -
  have "target \<in> set (transitions (t_state current)) \<longleftrightarrow>
      lifecycle (Some (t_state current)) (transitionEvents target) = Some target \<and> target \<noteq> PROVISIONING"
    by (cases "t_state current"; cases target) simp_all
  moreover have "PROVISIONING \<notin> set (transitions (t_state current))" by (cases "t_state current") simp_all
  ultimately show ?thesis
    by (auto simp: transitionTenant_def tenant_isoInstant_def split: option.splits)
qed

theorem transition_accepted_iff_witness:
  "isl (transitionTenant (sample_tenant\<lparr>t_state := CLOSED\<rparr>) ACTIVE 1 (Some 9))"
  using transition_accepted_iff [of "sample_tenant\<lparr>t_state := CLOSED\<rparr>" ACTIVE 1 "Some 9"] by simp

end
