(* ===== verification/Authorization.thy ===== *)
theory Authorization
  imports Tenant_Context
begin

text \<open>
  Authorization of the identity-tenant module: the permission catalog, roles with limits and attribute
  constraints (\<open>domain/authorization.ts\<close>), the persona matrix and its role templates
  (\<open>domain/persona-matrix.ts\<close>), platform roles (\<open>domain/platform-access.ts\<close>), the default approval
  policies (\<open>domain/approval-defaults.ts\<close>) and the two authorizers (\<open>createTenantAuthorizer\<close> of
  \<open>application/authorization.ts\<close>, \<open>createPlatformAuthorizer\<close> of \<open>application/platform-authorization.ts\<close>).
  The grant and constraint stores are arguments. The lemmas characterise exactly when a permission check
  passes, show that limits and constraints only narrow, and evaluate the shipped role templates: nobody
  both proposes and decides, and the default pricing policy needs a Product and a Finance approver.
\<close>

section \<open>Model: permissions, roles and constraints\<close>

definition PERMISSION_CATALOG :: "string list" where
  "PERMISSION_CATALOG =
     [''tenant:role:manage'', ''tenant:role:assign'', ''approval:request:propose'', ''approval:request:decide'',
      ''billing:invoice:preview'', ''billing:invoice:finalize'', ''pricing:rate_card:activate'',
      ''payments:payment:refund'', ''subscription:change:backdate'', ''collections:case:approve_exception'',
      ''portal:subscription:change'', ''audit:read'', ''outbox:dead_letter:resolve'', ''foundation:proof:execute'']"

definition isKnownPermission :: "string \<Rightarrow> bool" where
  "isKnownPermission v \<longleftrightarrow> v \<in> set PERMISSION_CATALOG"

definition DEFAULT_TENANT_ADMINISTRATOR_PERMISSIONS :: "string list" where
  "DEFAULT_TENANT_ADMINISTRATOR_PERMISSIONS = [''tenant:role:manage'', ''tenant:role:assign'']"

datatype role_status = role_draft | role_active | role_retired

datatype constraint_value = CStr string | CNum js_number
datatype constraint_operator = op_eq | op_lt | op_lte | op_gt | op_gte | op_in | op_unknown
datatype expected_value = Single constraint_value | Many "constraint_value list"

record permission_constraint =
  pcn_permission :: string
  pcn_attribute :: string
  pcn_operator :: constraint_operator
  pcn_value :: expected_value

record role_snapshot =
  role_code :: string
  role_permissions :: "string list"
  role_status :: role_status
  role_limits :: "permission_constraint list option"

type_synonym attributes = "(string \<times> constraint_value) list"

fun effectivePermissions :: "role_snapshot list \<Rightarrow> string list" where
  "effectivePermissions [] = []"
| "effectivePermissions (role # roles) =
     uniq ((if role_status role \<noteq> role_active then [] else filter isKnownPermission (role_permissions role)) @ effectivePermissions roles)"

definition assertKnownPermission :: "string \<Rightarrow> unit res" where
  "assertKnownPermission permission = (if \<not> isKnownPermission permission then reject unknown_permission else Inr ())"

text \<open>JavaScript \<open>===\<close> and the \<open>SameValueZero\<close> equality of \<open>includes\<close> on strings and numbers.\<close>

definition num_eq :: "js_number \<Rightarrow> js_number \<Rightarrow> bool" where
  "num_eq a b \<longleftrightarrow> (case (js_integer a, js_integer b) of (Some i, Some j) \<Rightarrow> i = j | (None, None) \<Rightarrow> a = b \<and> a \<noteq> NaN | _ \<Rightarrow> False)"

fun strict_eq :: "constraint_value \<Rightarrow> constraint_value \<Rightarrow> bool" where
  "strict_eq (CStr a) (CStr b) \<longleftrightarrow> a = b"
| "strict_eq (CNum a) (CNum b) \<longleftrightarrow> num_eq a b"
| "strict_eq _ _ \<longleftrightarrow> False"

definition same_value_zero :: "constraint_value \<Rightarrow> constraint_value \<Rightarrow> bool" where
  "same_value_zero a b \<longleftrightarrow> strict_eq a b \<or> (a = CNum NaN \<and> b = CNum NaN)"

definition compare_finite :: "(int \<Rightarrow> int \<Rightarrow> bool) \<Rightarrow> constraint_value \<Rightarrow> expected_value \<Rightarrow> bool" where
  "compare_finite cmp actual expected =
     (case (actual, expected) of
        (CNum a, Single (CNum e)) \<Rightarrow> (case (js_integer a, js_integer e) of (Some i, Some j) \<Rightarrow> cmp i j | _ \<Rightarrow> False)
      | _ \<Rightarrow> False)"

definition constraint_holds :: "attributes \<Rightarrow> permission_constraint \<Rightarrow> bool" where
  "constraint_holds attrs con =
     (case map_of attrs (pcn_attribute con) of None \<Rightarrow> False
      | Some actual \<Rightarrow> (let expected = pcn_value con in
          case pcn_operator con of
            op_eq \<Rightarrow> (case expected of Single e \<Rightarrow> strict_eq actual e | Many _ \<Rightarrow> False)
          | op_in \<Rightarrow> (case expected of Many es \<Rightarrow> list_ex (same_value_zero actual) es | Single _ \<Rightarrow> False)
          | op_lt \<Rightarrow> compare_finite (<) actual expected
          | op_lte \<Rightarrow> compare_finite (\<le>) actual expected
          | op_gt \<Rightarrow> compare_finite (>) actual expected
          | op_gte \<Rightarrow> compare_finite (\<ge>) actual expected
          | op_unknown \<Rightarrow> False))"

definition constraintsSatisfied :: "permission_constraint list \<Rightarrow> attributes \<Rightarrow> bool" where
  "constraintsSatisfied constraints attrs = list_all (constraint_holds attrs) constraints"

definition role_grants :: "string \<Rightarrow> attributes \<Rightarrow> role_snapshot \<Rightarrow> bool" where
  "role_grants permission attrs role \<longleftrightarrow>
     role_status role = role_active \<and> permission \<in> set (role_permissions role) \<and>
     constraintsSatisfied (filter (\<lambda>limit. pcn_permission limit = permission)
       (case role_limits role of None \<Rightarrow> [] | Some ls \<Rightarrow> ls)) attrs"

definition grantedByRoles :: "role_snapshot list \<Rightarrow> string \<Rightarrow> attributes \<Rightarrow> bool" where
  "grantedByRoles roles permission attrs = list_ex (role_grants permission attrs) roles"

section \<open>Model: the tenant authorizer\<close>

type_synonym grant_store = "string \<Rightarrow> string \<Rightarrow> role_snapshot list res"
type_synonym constraint_store = "string \<Rightarrow> string \<Rightarrow> permission_constraint list res"

definition hasPermission :: "grant_store \<Rightarrow> constraint_store option \<Rightarrow> tenant_context option \<Rightarrow> string \<Rightarrow> attributes \<Rightarrow> bool res" where
  "hasPermission grants constraints ambient permission attrs =
     bindR (assertKnownPermission permission) (\<lambda>_.
     bindR (currentTenantContext ambient) (\<lambda>context.
     bindR (if tc_principalKind context = workload then Inr (permission \<in> set (tc_scopes context))
            else bindR (grants (tc_tenantId context) (tc_actorId context)) (\<lambda>roles. Inr (grantedByRoles roles permission attrs))) (\<lambda>granted.
       case constraints of
         None \<Rightarrow> Inr granted
       | Some constraintsFor \<Rightarrow>
           if \<not> granted then Inr granted
           else (case constraintsFor (tc_tenantId context) permission of
                   Inl _ \<Rightarrow> Inr False
                 | Inr cs \<Rightarrow> Inr (constraintsSatisfied cs attrs)))))"

definition assertPermission :: "grant_store \<Rightarrow> constraint_store option \<Rightarrow> tenant_context option \<Rightarrow> string \<Rightarrow> attributes \<Rightarrow> unit res" where
  "assertPermission grants constraints ambient permission attrs =
     bindR (hasPermission grants constraints ambient permission attrs) (\<lambda>granted.
       if \<not> granted then bindR (currentTenantContext ambient) (\<lambda>context. reject_for permission_denied (tc_correlationId context))
       else Inr ())"

section \<open>Model: platform access\<close>

definition PLATFORM_AUDIENCE :: string where "PLATFORM_AUDIENCE = ''sintius-platform''"

definition PLATFORM_PERMISSION_CATALOG :: "string list" where
  "PLATFORM_PERMISSION_CATALOG = [''platform:tenant:provision'', ''platform:tenant:lifecycle'']"

definition PLATFORM_ROLES :: "(string \<times> string list) list" where
  "PLATFORM_ROLES = [(''platform_tenant_provisioner'', [''platform:tenant:provision'']),
     (''platform_tenant_lifecycle_operator'', [''platform:tenant:lifecycle''])]"

definition isPlatformPermission :: "string \<Rightarrow> bool" where
  "isPlatformPermission v \<longleftrightarrow> v \<in> set PLATFORM_PERMISSION_CATALOG"

definition platformPermissionsFor :: "string list \<Rightarrow> string list" where
  "platformPermissionsFor roles =
     sort (uniq (concat (map (\<lambda>role. case map_of PLATFORM_ROLES role of None \<Rightarrow> [] | Some ps \<Rightarrow> ps) roles)))"

definition platform_assertAllowed :: "trust \<Rightarrow> ref \<Rightarrow> string \<Rightarrow> unit res" where
  "platform_assertAllowed st c permission =
     bindR (issued_platform st c) (\<lambda>context.
       if \<not> (isPlatformPermission permission \<and> pc_principalKind context = interactive \<and> pc_assurance context = mfa \<and>
             PLATFORM_AUDIENCE \<in> set (pc_audiences context) \<and> permission \<in> set (pc_scopes context))
       then reject_for platform_access_denied (pc_correlationId context) else Inr ())"

section \<open>Model: the persona matrix\<close>

datatype persona =
    billing_administrator | pricing_manager | collections_agent | customer_support | finance_controller
  | revenue_accountant | sales | product_manager | operations | developer | auditor | executive

definition PERSONAS :: "persona list" where
  "PERSONAS = [billing_administrator, pricing_manager, collections_agent, customer_support, finance_controller,
     revenue_accountant, sales, product_manager, operations, developer, auditor, executive]"

datatype grant_basis = spec | inferred | proposed
datatype grant_decision = approved_grant | declined_grant
datatype enforcement = role_limit string constraint_operator expected_value | approval_policy_enforced

text \<open>The prose of a condition and the source references do not matter to the code: only whether a
  condition is present.\<close>

record persona_grant =
  pg_persona :: persona
  pg_permission :: string
  pg_basis :: grant_basis
  pg_condition :: bool
  pg_enforcement :: "enforcement option"
  pg_decision :: "grant_decision option"

definition USD_10000 :: enforcement where
  "USD_10000 = role_limit ''amount_minor'' op_lte (Single (CNum (Num 1000000)))"

definition mk_grant :: "persona \<Rightarrow> string \<Rightarrow> grant_basis \<Rightarrow> bool \<Rightarrow> enforcement option \<Rightarrow> grant_decision option \<Rightarrow> persona_grant" where
  "mk_grant p perm basis cond enf dec =
     \<lparr>pg_persona = p, pg_permission = perm, pg_basis = basis, pg_condition = cond, pg_enforcement = enf, pg_decision = dec\<rparr>"

definition PERSONA_GRANTS :: "persona_grant list" where
  "PERSONA_GRANTS =
     [mk_grant billing_administrator ''billing:invoice:preview'' spec False None None,
      mk_grant billing_administrator ''billing:invoice:finalize'' spec True (Some USD_10000) None,
      mk_grant billing_administrator ''payments:payment:refund'' spec True (Some USD_10000) None,
      mk_grant billing_administrator ''approval:request:propose'' inferred True None (Some approved_grant),
      mk_grant pricing_manager ''pricing:rate_card:activate'' spec True (Some approval_policy_enforced) None,
      mk_grant pricing_manager ''approval:request:propose'' spec False None None,
      mk_grant finance_controller ''billing:invoice:preview'' spec False None None,
      mk_grant finance_controller ''billing:invoice:finalize'' spec False None None,
      mk_grant finance_controller ''payments:payment:refund'' spec False None None,
      mk_grant finance_controller ''subscription:change:backdate'' spec False None None,
      mk_grant finance_controller ''approval:request:decide'' spec False None None,
      mk_grant finance_controller ''audit:read'' spec False None None,
      mk_grant finance_controller ''collections:case:approve_exception'' proposed True None (Some approved_grant),
      mk_grant product_manager ''approval:request:decide'' spec False None None,
      mk_grant product_manager ''pricing:rate_card:activate'' inferred True None (Some approved_grant),
      mk_grant auditor ''audit:read'' spec False None None,
      mk_grant operations ''outbox:dead_letter:resolve'' proposed False None (Some declined_grant)]"

definition isDefaultGrant :: "persona_grant \<Rightarrow> bool" where
  "isDefaultGrant v =
     (if pg_decision v = Some declined_grant then False
      else (pg_basis v = spec \<or> pg_decision v = Some approved_grant) \<and>
           (\<not> pg_condition v \<or> pg_enforcement v \<noteq> None \<or> pg_decision v = Some approved_grant))"

definition pendingGrants :: "persona_grant list" where
  "pendingGrants = filter (\<lambda>v. \<not> isDefaultGrant v \<and> pg_decision v \<noteq> Some declined_grant) PERSONA_GRANTS"

record role_template =
  rt_roleCode :: persona
  rt_permissions :: "string list"
  rt_limits :: "permission_constraint list"

definition persona_template :: "persona \<Rightarrow> role_template" where
  "persona_template p =
     \<lparr>rt_roleCode = p,
      rt_permissions = filter (\<lambda>perm. list_ex (\<lambda>v. pg_persona v = p \<and> pg_permission v = perm \<and> isDefaultGrant v) PERSONA_GRANTS) PERMISSION_CATALOG,
      rt_limits = concat (map (\<lambda>v. case pg_enforcement v of
          Some (role_limit attr operator val) \<Rightarrow>
            if pg_persona v = p \<and> isDefaultGrant v
            then [\<lparr>pcn_permission = pg_permission v, pcn_attribute = attr, pcn_operator = operator, pcn_value = val\<rparr>] else []
        | _ \<Rightarrow> []) PERSONA_GRANTS)\<rparr>"

definition defaultPersonaRoleTemplates :: "role_template list" where
  "defaultPersonaRoleTemplates = map persona_template PERSONAS"

section \<open>Model: the default approval policies\<close>

record default_policy =
  dp_actionType :: string
  dp_requiredApprovals :: int
  dp_separationOfDuties :: bool
  dp_expiresAfterSeconds :: int
  dp_approverRequirements :: "(string \<times> int) list"

definition DEFAULT_APPROVAL_POLICIES :: "default_policy list" where
  "DEFAULT_APPROVAL_POLICIES =
     [\<lparr>dp_actionType = ''pricing:rate_card:activate'', dp_requiredApprovals = 2, dp_separationOfDuties = True,
       dp_expiresAfterSeconds = 7 * 24 * 60 * 60,
       dp_approverRequirements = [(''pricing:rate_card:activate'', 1), (''billing:invoice:finalize'', 1)]\<rparr>]"

section \<open>Permission checks\<close>

lemma set_effectivePermissions:
  "p \<in> set (effectivePermissions roles) \<longleftrightarrow>
     isKnownPermission p \<and> (\<exists>role\<in>set roles. role_status role = role_active \<and> p \<in> set (role_permissions role))"
  by (induction roles) auto

lemma grantedByRoles_effective:
  "grantedByRoles roles p attrs \<Longrightarrow> isKnownPermission p \<Longrightarrow> p \<in> set (effectivePermissions roles)"
  by (auto simp: grantedByRoles_def role_grants_def list_ex_iff set_effectivePermissions)

text \<open>Who holds a permission before attribute constraints, and when the tenant's constraints allow it.\<close>

definition base_grant :: "grant_store \<Rightarrow> tenant_context \<Rightarrow> string \<Rightarrow> attributes \<Rightarrow> bool" where
  "base_grant grants c p attrs \<longleftrightarrow>
     (if tc_principalKind c = workload then p \<in> set (tc_scopes c)
      else \<exists>roles. grants (tc_tenantId c) (tc_actorId c) = Inr roles \<and> (\<exists>role\<in>set roles. role_grants p attrs role))"

definition constraints_allow :: "constraint_store option \<Rightarrow> tenant_context \<Rightarrow> string \<Rightarrow> attributes \<Rightarrow> bool" where
  "constraints_allow constraints c p attrs \<longleftrightarrow>
     (case constraints of None \<Rightarrow> True
      | Some f \<Rightarrow> \<exists>cs. f (tc_tenantId c) p = Inr cs \<and> (\<forall>k\<in>set cs. constraint_holds attrs k))"

lemma hasPermission_unfold:
  assumes "isKnownPermission p"
  shows "hasPermission grants constraints (Some c) p attrs =
    bindR (if tc_principalKind c = workload then Inr (p \<in> set (tc_scopes c))
           else bindR (grants (tc_tenantId c) (tc_actorId c)) (\<lambda>roles. Inr (grantedByRoles roles p attrs)))
      (\<lambda>granted. Inr (granted \<and> constraints_allow constraints c p attrs))"
proof -
  have "(case constraints of None \<Rightarrow> Inr granted
       | Some f \<Rightarrow> if \<not> granted then Inr granted
           else (case f (tc_tenantId c) p of Inl _ \<Rightarrow> Inr False | Inr cs \<Rightarrow> Inr (constraintsSatisfied cs attrs))) =
      (Inr (granted \<and> constraints_allow constraints c p attrs) :: bool res)" for granted
    by (auto simp: constraints_allow_def constraintsSatisfied_def list_all_iff split: option.splits sum.splits)
  then show ?thesis
    using assms by (simp add: hasPermission_def assertKnownPermission_def currentTenantContext_def)
qed

lemma hasPermission_True_iff:
  "hasPermission grants constraints ambient p attrs = Inr True \<longleftrightarrow>
     isKnownPermission p \<and> (\<exists>c. ambient = Some c \<and> base_grant grants c p attrs \<and> constraints_allow constraints c p attrs)"
proof (cases ambient)
  case None
  then show ?thesis by (auto simp: hasPermission_def currentTenantContext_def bindR_Inr_iff)
next
  case (Some c)
  show ?thesis
  proof (cases "isKnownPermission p")
    case True
    then show ?thesis
      unfolding Some hasPermission_unfold [OF True]
      by (auto simp: base_grant_def bindR_Inr_iff grantedByRoles_def list_ex_iff)
  qed (simp add: hasPermission_def assertKnownPermission_def)
qed

lemma assertPermission_Inr_iff:
  "assertPermission grants constraints ambient p attrs = Inr () \<longleftrightarrow> hasPermission grants constraints ambient p attrs = Inr True"
  by (auto simp: assertPermission_def bindR_Inr_iff)

lemma role_grants_iff:
  "role_grants p attrs role \<longleftrightarrow> role_status role = role_active \<and> p \<in> set (role_permissions role) \<and>
     (\<forall>limits k. role_limits role = Some limits \<and> k \<in> set limits \<and> pcn_permission k = p \<longrightarrow> constraint_holds attrs k)"
  by (cases "role_limits role") (auto simp: role_grants_def constraintsSatisfied_def list_all_iff)

text \<open>C22: authorization is deny by default and exact. A permission check passes if and only if the
  permission is in the catalog, a trusted context is active, and either the principal is a workload whose
  credential names the permission, or an active role currently assigned to the actor in the tenant holds
  it with every limit that role puts on it satisfied; and, when the tenant has attribute constraints, all
  of them could be read and hold.\<close>

theorem permission_check_exact:
  "assertPermission grants constraints ambient p attrs = Inr () \<longleftrightarrow>
     p \<in> set PERMISSION_CATALOG \<and>
     (\<exists>c. ambient = Some c \<and>
       (if tc_principalKind c = workload then p \<in> set (tc_scopes c)
        else \<exists>roles role. grants (tc_tenantId c) (tc_actorId c) = Inr roles \<and> role \<in> set roles \<and>
               role_status role = role_active \<and> p \<in> set (role_permissions role) \<and>
               (\<forall>limits k. role_limits role = Some limits \<and> k \<in> set limits \<and> pcn_permission k = p \<longrightarrow> constraint_holds attrs k)) \<and>
       (constraints = None \<or>
        (\<exists>f cs. constraints = Some f \<and> f (tc_tenantId c) p = Inr cs \<and> (\<forall>k\<in>set cs. constraint_holds attrs k))))"
  unfolding assertPermission_Inr_iff hasPermission_True_iff isKnownPermission_def base_grant_def constraints_allow_def
    role_grants_iff
  by (cases constraints) (simp_all, metis+)

definition sample_ctx :: tenant_context where
  "sample_ctx = \<lparr>tc_tenantId = ''t'', tc_actorId = ''a'', tc_principalKind = interactive, tc_correlationId = ''c'', tc_causationId = None,
     tc_assurance = mfa, tc_credentialId = ''k'', tc_audiences = [''x''], tc_scopes = []\<rparr>"

definition sample_billing_role :: role_snapshot where
  "sample_billing_role = \<lparr>role_code = ''billing'', role_permissions = [''payments:payment:refund''], role_status = role_active,
     role_limits = Some [\<lparr>pcn_permission = ''payments:payment:refund'', pcn_attribute = ''amount_minor'', pcn_operator = op_lte,
       pcn_value = Single (CNum (Num 1000000))\<rparr>]\<rparr>"

theorem permission_check_exact_witness:
  "assertPermission (\<lambda>_ _. Inr [sample_billing_role]) None (Some sample_ctx) ''payments:payment:refund'' [(''amount_minor'', CNum (Num 999))] = Inr () \<and>
   assertPermission (\<lambda>_ _. Inr [sample_billing_role]) None (Some sample_ctx) ''payments:payment:refund'' [(''amount_minor'', CNum (Num 1000001))] \<noteq> Inr () \<and>
   assertPermission (\<lambda>_ _. Inr [sample_billing_role]) None (Some sample_ctx) ''payments:payment:refund'' [] \<noteq> Inr ()"
  unfolding permission_check_exact
  by (simp add: sample_billing_role_def sample_ctx_def PERMISSION_CATALOG_def constraint_holds_def compare_finite_def js_integer_def)

text \<open>Limits and attribute constraints only narrow. Whatever is granted with a tenant's constraints is
  granted without them; whatever a role grants with a limit it also grants without that limit; and
  granting nothing more, retiring or removing roles never opens a permission.\<close>

theorem constraints_only_narrow:
  "(hasPermission grants constraints ambient p attrs = Inr True \<longrightarrow> hasPermission grants None ambient p attrs = Inr True) \<and>
   (role_grants p attrs (r\<lparr>role_limits := Some (l # ls)\<rparr>) \<longrightarrow> role_grants p attrs (r\<lparr>role_limits := Some ls\<rparr>)) \<and>
   (set roles \<subseteq> set roles' \<longrightarrow> grantedByRoles roles p attrs \<longrightarrow> grantedByRoles roles' p attrs) \<and>
   \<not> grantedByRoles (map (\<lambda>r. r\<lparr>role_status := role_retired\<rparr>) roles) p attrs"
proof -
  have "hasPermission grants constraints ambient p attrs = Inr True \<Longrightarrow> hasPermission grants None ambient p attrs = Inr True"
    unfolding hasPermission_True_iff by (auto simp: constraints_allow_def)
  moreover have "role_grants p attrs (r\<lparr>role_limits := Some (l # ls)\<rparr>) \<Longrightarrow> role_grants p attrs (r\<lparr>role_limits := Some ls\<rparr>)"
    by (auto simp: role_grants_def constraintsSatisfied_def split: if_splits)
  moreover have "set roles \<subseteq> set roles' \<Longrightarrow> grantedByRoles roles p attrs \<Longrightarrow> grantedByRoles roles' p attrs"
    by (auto simp: grantedByRoles_def list_ex_iff)
  moreover have "\<not> grantedByRoles (map (\<lambda>r. r\<lparr>role_status := role_retired\<rparr>) roles) p attrs"
    by (auto simp: grantedByRoles_def list_ex_iff role_grants_def)
  ultimately show ?thesis by blast
qed

theorem constraints_only_narrow_witness:
  "role_grants ''payments:payment:refund'' [] (sample_billing_role\<lparr>role_limits := Some []\<rparr>) \<and>
   \<not> grantedByRoles [sample_billing_role\<lparr>role_status := role_retired\<rparr>] ''payments:payment:refund'' []"
proof -
  let ?l = "\<lparr>pcn_permission = ''other'', pcn_attribute = ''x'', pcn_operator = op_eq, pcn_value = Many []\<rparr>"
  have "role_grants ''payments:payment:refund'' [] (sample_billing_role\<lparr>role_limits := Some [?l]\<rparr>)"
    by (simp add: role_grants_def sample_billing_role_def constraintsSatisfied_def)
  then show ?thesis
    using constraints_only_narrow [where p = "''payments:payment:refund''" and attrs = "[]" and r = sample_billing_role and l = ?l and ls = "[]"
        and roles = "[sample_billing_role]"] by simp
qed

section \<open>Platform access\<close>

lemma two_way_lookup:
  "a \<noteq> b \<Longrightarrow> (\<exists>r\<in>S. p \<in> set (if r = a then [x] else if r = b then [y] else [])) \<longleftrightarrow> p = x \<and> a \<in> S \<or> p = y \<and> b \<in> S"
  by auto

lemma platformPermissionsFor_iff:
  "p \<in> set (platformPermissionsFor roles) \<longleftrightarrow>
     (p = ''platform:tenant:provision'' \<and> ''platform_tenant_provisioner'' \<in> set roles) \<or>
     (p = ''platform:tenant:lifecycle'' \<and> ''platform_tenant_lifecycle_operator'' \<in> set roles)"
proof -
  let ?f = "\<lambda>role. case map_of PLATFORM_ROLES role of None \<Rightarrow> [] | Some ps \<Rightarrow> ps"
  have f: "?f role = (if role = ''platform_tenant_provisioner'' then [''platform:tenant:provision'']
      else if role = ''platform_tenant_lifecycle_operator'' then [''platform:tenant:lifecycle''] else [])" for role
    by (simp add: PLATFORM_ROLES_def)
  have "p \<in> set (platformPermissionsFor roles) \<longleftrightarrow> (\<exists>role\<in>set roles. p \<in> set (?f role))"
    by (simp add: platformPermissionsFor_def)
  also have "\<dots> \<longleftrightarrow> (p = ''platform:tenant:provision'' \<and> ''platform_tenant_provisioner'' \<in> set roles) \<or>
     (p = ''platform:tenant:lifecycle'' \<and> ''platform_tenant_lifecycle_operator'' \<in> set roles)"
    unfolding f by (rule two_way_lookup) simp
  finally show ?thesis .
qed

text \<open>A platform command is allowed only for a context the platform resolver itself issued, whose
  principal is an interactive user authenticated with MFA for the platform audience and whose scopes name
  one of the two platform permissions; no tenant permission and no unknown role name ever yields one.\<close>

theorem platform_access_exact:
  "(platform_assertAllowed st c permission = Inr () \<longleftrightarrow>
      c \<in> set (issuedPlatformContexts st) \<and> permission \<in> {''platform:tenant:provision'', ''platform:tenant:lifecycle''} \<and>
      pc_principalKind (platformContexts st ! c) = interactive \<and> pc_assurance (platformContexts st ! c) = mfa \<and>
      ''sintius-platform'' \<in> set (pc_audiences (platformContexts st ! c)) \<and> permission \<in> set (pc_scopes (platformContexts st ! c))) \<and>
   (permission \<in> set (platformPermissionsFor roles) \<longleftrightarrow>
      permission = ''platform:tenant:provision'' \<and> ''platform_tenant_provisioner'' \<in> set roles \<or>
      permission = ''platform:tenant:lifecycle'' \<and> ''platform_tenant_lifecycle_operator'' \<in> set roles) \<and>
   set PLATFORM_PERMISSION_CATALOG \<inter> set PERMISSION_CATALOG = {}"
proof -
  have "set PLATFORM_PERMISSION_CATALOG \<inter> set PERMISSION_CATALOG = {}"
    by (auto simp: PLATFORM_PERMISSION_CATALOG_def PERMISSION_CATALOG_def)
  moreover have "platform_assertAllowed st c permission = Inr () \<longleftrightarrow>
      c \<in> set (issuedPlatformContexts st) \<and> permission \<in> {''platform:tenant:provision'', ''platform:tenant:lifecycle''} \<and>
      pc_principalKind (platformContexts st ! c) = interactive \<and> pc_assurance (platformContexts st ! c) = mfa \<and>
      ''sintius-platform'' \<in> set (pc_audiences (platformContexts st ! c)) \<and> permission \<in> set (pc_scopes (platformContexts st ! c))"
    by (simp add: platform_assertAllowed_def issued_platform_def assertIssuedPlatformContext_def assertT_def isPlatformPermission_def
        PLATFORM_PERMISSION_CATALOG_def PLATFORM_AUDIENCE_def bindR_Inr_iff) blast
  ultimately show ?thesis by (simp add: platformPermissionsFor_iff)
qed

section \<open>The shipped role templates\<close>

definition template_role :: "role_template \<Rightarrow> role_snapshot" where
  "template_role t = \<lparr>role_code = '''', role_permissions = rt_permissions t, role_status = role_active, role_limits = Some (rt_limits t)\<rparr>"

lemmas persona_defs = PERSONA_GRANTS_def PERMISSION_CATALOG_def mk_grant_def isDefaultGrant_def USD_10000_def

lemma template_permissions [simp]:
  "rt_permissions (persona_template billing_administrator) = [''approval:request:propose'', ''billing:invoice:preview'', ''billing:invoice:finalize'', ''payments:payment:refund'']"
  "rt_permissions (persona_template pricing_manager) = [''approval:request:propose'', ''pricing:rate_card:activate'']"
  "rt_permissions (persona_template finance_controller) = [''approval:request:decide'', ''billing:invoice:preview'', ''billing:invoice:finalize'',
     ''payments:payment:refund'', ''subscription:change:backdate'', ''collections:case:approve_exception'', ''audit:read'']"
  "rt_permissions (persona_template product_manager) = [''approval:request:decide'', ''pricing:rate_card:activate'']"
  "rt_permissions (persona_template auditor) = [''audit:read'']"
  "rt_permissions (persona_template collections_agent) = []" "rt_permissions (persona_template customer_support) = []"
  "rt_permissions (persona_template revenue_accountant) = []" "rt_permissions (persona_template sales) = []"
  "rt_permissions (persona_template operations) = []" "rt_permissions (persona_template developer) = []"
  "rt_permissions (persona_template executive) = []"
  by (simp_all add: persona_template_def persona_defs)

lemma template_limits [simp]:
  "rt_limits (persona_template billing_administrator) =
     [\<lparr>pcn_permission = ''billing:invoice:finalize'', pcn_attribute = ''amount_minor'', pcn_operator = op_lte, pcn_value = Single (CNum (Num 1000000))\<rparr>,
      \<lparr>pcn_permission = ''payments:payment:refund'', pcn_attribute = ''amount_minor'', pcn_operator = op_lte, pcn_value = Single (CNum (Num 1000000))\<rparr>]"
  "p \<noteq> billing_administrator \<Longrightarrow> rt_limits (persona_template p) = []"
  by (simp_all add: persona_template_def persona_defs)

lemma template_grants:
  "grantedByRoles [template_role (persona_template p)] perm attrs \<longleftrightarrow>
     perm \<in> set (rt_permissions (persona_template p)) \<and>
     (\<forall>k\<in>set (rt_limits (persona_template p)). pcn_permission k = perm \<longrightarrow> constraint_holds attrs k)"
  by (auto simp: grantedByRoles_def role_grants_def template_role_def constraintsSatisfied_def list_all_iff)

text \<open>The shipped role templates separate duties. No persona can both propose and decide an approval,
  or manage roles; the billing administrator's refunds and finalizations stop at 1,000,000 minor units (and
  are denied when the amount is not given); under the default policy for activating a rate card, the
  Product approval can come only from a Product Manager and the Finance approval only from a Finance
  Controller; and no grant is left pending.\<close>

theorem persona_templates_separate_duties:
  "(\<forall>p. \<not> (grantedByRoles [template_role (persona_template p)] ''approval:request:propose'' attrs \<and>
            grantedByRoles [template_role (persona_template p)] ''approval:request:decide'' attrs')) \<and>
   (\<forall>p. \<not> grantedByRoles [template_role (persona_template p)] ''tenant:role:manage'' attrs \<and>
         \<not> grantedByRoles [template_role (persona_template p)] ''tenant:role:assign'' attrs) \<and>
   (\<forall>perm\<in>{''payments:payment:refund'', ''billing:invoice:finalize''}.
      grantedByRoles [template_role (persona_template billing_administrator)] perm attrs \<longleftrightarrow>
        (\<exists>n i. map_of attrs ''amount_minor'' = Some (CNum n) \<and> js_integer n = Some i \<and> i \<le> 1000000)) \<and>
   map (\<lambda>(requirement, _). filter (\<lambda>p. grantedByRoles [template_role (persona_template p)] ''approval:request:decide'' [] \<and>
            grantedByRoles [template_role (persona_template p)] requirement []) PERSONAS)
     (dp_approverRequirements (hd DEFAULT_APPROVAL_POLICIES)) = [[product_manager], [finance_controller]] \<and>
   pendingGrants = []"
proof -
  have "\<not> (grantedByRoles [template_role (persona_template p)] ''approval:request:propose'' attrs \<and>
            grantedByRoles [template_role (persona_template p)] ''approval:request:decide'' attrs')" for p
    unfolding template_grants by (cases p) simp_all
  moreover have "\<not> grantedByRoles [template_role (persona_template p)] ''tenant:role:manage'' attrs \<and>
         \<not> grantedByRoles [template_role (persona_template p)] ''tenant:role:assign'' attrs" for p
    unfolding template_grants by (cases p) simp_all
  moreover have "grantedByRoles [template_role (persona_template billing_administrator)] perm attrs \<longleftrightarrow>
        (\<exists>n i. map_of attrs ''amount_minor'' = Some (CNum n) \<and> js_integer n = Some i \<and> i \<le> 1000000)"
    if "perm \<in> {''payments:payment:refund'', ''billing:invoice:finalize''}" for perm
    unfolding template_grants using that
    by (auto simp: constraint_holds_def compare_finite_def js_integer_def split: option.splits constraint_value.splits js_number.splits)
  moreover have "map (\<lambda>(requirement, _). filter (\<lambda>p. grantedByRoles [template_role (persona_template p)] ''approval:request:decide'' [] \<and>
            grantedByRoles [template_role (persona_template p)] requirement []) PERSONAS)
     (dp_approverRequirements (hd DEFAULT_APPROVAL_POLICIES)) = [[product_manager], [finance_controller]]"
    by (simp add: DEFAULT_APPROVAL_POLICIES_def PERSONAS_def template_grants)
  moreover have "pendingGrants = []" by (simp add: pendingGrants_def persona_defs)
  ultimately show ?thesis by blast
qed

theorem persona_templates_separate_duties_witness:
  "grantedByRoles [template_role (persona_template billing_administrator)] ''payments:payment:refund'' [(''amount_minor'', CNum (Num 1000000))] \<and>
   \<not> grantedByRoles [template_role (persona_template billing_administrator)] ''payments:payment:refund'' [(''amount_minor'', CNum (Num 1000001))]"
  using persona_templates_separate_duties [where attrs = "[(''amount_minor'', CNum (Num 1000000))]"]
    persona_templates_separate_duties [where attrs = "[(''amount_minor'', CNum (Num 1000001))]"]
  by (simp add: js_integer_def)

end
