(* ===== verification/Event_Envelope.thy ===== *)
theory Event_Envelope
  imports Tenant_Cache
begin

text \<open>
  \<open>platform/event-envelope/src/index.ts\<close>: building an event envelope. The trusted identity comes from the
  ambient tenant context or from an issued platform context, never from the producer's input; the new
  event id and the clock reading are arguments. The lemmas show what every built envelope carries and
  that its source names exactly one tenant and bounded context.
\<close>

section \<open>Model\<close>

datatype event_classification =
    RESTRICTED_FINANCIAL | CONFIDENTIAL_BUSINESS | INTERNAL_OPERATIONAL | PUBLIC | other_classification string

datatype event_actor_type = USER | SERVICE | SYSTEM

record event_envelope =
  ev_id :: string
  ev_source :: string
  ev_type :: string
  ev_time :: instant
  ev_dataschema :: "string option"
  ev_subject :: "string option"
  ev_tenant_id :: string
  ev_aggregate_type :: string
  ev_aggregate_id :: string
  ev_aggregate_version :: int
  ev_correlation_id :: string
  ev_causation_id :: "string option"
  ev_actor_type :: event_actor_type
  ev_actor_id :: string
  ev_occurred_at :: instant
  ev_recorded_at :: instant
  ev_classification :: event_classification
  ev_data :: js_value

record build_event_input =
  be_eventType :: string
  be_sourceContext :: string
  be_aggregateType :: string
  be_aggregateId :: string
  be_aggregateVersion :: js_number
  be_occurredAt :: date
  be_classification :: event_classification
  be_data :: js_value
  be_dataschema :: "string option"
  be_subject :: "string option"

record event_scope =
  es_tenantId :: string
  es_actorId :: string
  es_principalKind :: principal_kind
  es_correlationId :: string
  es_causationId :: "string option"

definition scope_of_context :: "tenant_context \<Rightarrow> event_scope" where
  "scope_of_context c = \<lparr>es_tenantId = tc_tenantId c, es_actorId = tc_actorId c, es_principalKind = tc_principalKind c,
     es_correlationId = tc_correlationId c, es_causationId = tc_causationId c\<rparr>"

definition eventScopeFromCurrentContext :: "tenant_context option \<Rightarrow> event_scope res" where
  "eventScopeFromCurrentContext ambient = bindR (currentTenantContext ambient) (\<lambda>c. Inr (scope_of_context c))"

definition eventScopeForPlatformCommand :: "trust \<Rightarrow> ref \<Rightarrow> string \<Rightarrow> event_scope res" where
  "eventScopeForPlatformCommand st c targetTenantId =
     bindR (issued_platform st c) (\<lambda>pc. Inr
       \<lparr>es_tenantId = targetTenantId, es_actorId = pc_actorId pc, es_principalKind = pc_principalKind pc,
        es_correlationId = pc_correlationId pc, es_causationId = pc_causationId pc\<rparr>)"

text \<open>\<open>EVENT_TYPE_PATTERN\<close> and \<open>SOURCE_CONTEXT_PATTERN\<close>; a dot cannot occur in a name, so the greedy
  match is the only one.\<close>

definition is_fact_char :: "char \<Rightarrow> bool" where
  "is_fact_char c \<longleftrightarrow> is_lower c \<or> c = CHR ''_''"

definition matches_event_type :: "string \<Rightarrow> bool" where
  "matches_event_type s \<longleftrightarrow> takeWhile is_fact_char s \<noteq> [] \<and>
     (case dropWhile is_fact_char s of
        [] \<Rightarrow> False
      | c # r \<Rightarrow> c = CHR ''.'' \<and> takeWhile is_fact_char r \<noteq> [] \<and>
          (case dropWhile is_fact_char r of
             d # v # ds \<Rightarrow> d = CHR ''.'' \<and> v = CHR ''v'' \<and> ds \<noteq> [] \<and> list_all is_digit ds
           | _ \<Rightarrow> False))"

definition matches_source_context :: "string \<Rightarrow> bool" where
  "matches_source_context s = matches_head_tail is_lower (\<lambda>c. is_lower c \<or> is_digit c \<or> c = CHR ''-'') 63 s"

definition ev_requireNonBlank :: "string \<Rightarrow> string res" where
  "ev_requireNonBlank v = (if length (trim v) = 0 then reject invalid_trusted_context else Inr v)"

function assertJsonCompatible :: "js_value \<Rightarrow> nat \<Rightarrow> unit res" where
  "assertJsonCompatible v depth =
     (if depth > 16 then reject invalid_trusted_context
      else (case v of
          JNull \<Rightarrow> Inr () | JString _ \<Rightarrow> Inr () | JBool _ \<Rightarrow> Inr ()
        | JNumber n \<Rightarrow> if js_finite n then Inr () else reject invalid_trusted_context
        | JArray items \<Rightarrow> bindR (mapR (\<lambda>item. assertJsonCompatible item (depth + 1)) items) (\<lambda>_. Inr ())
        | JObject entries \<Rightarrow> bindR (mapR (\<lambda>(_, child). assertJsonCompatible child (depth + 1)) entries) (\<lambda>_. Inr ())
        | _ \<Rightarrow> reject invalid_trusted_context))"
  by pat_completeness auto
termination
proof (relation "measure (\<lambda>(v, _). size v)", goal_cases)
  case (2 v depth items x)
  then show ?case by (simp add: size_list_estimation' less_Suc_eq_le)
next
  case (3 v depth entries p k child)
  then show ?case using size_list_estimation' [of "(k, child)" entries "size child" "size_prod (\<lambda>_. 0) size"] by auto
qed simp

declare assertJsonCompatible.simps [simp del]

definition event_source :: "string \<Rightarrow> string \<Rightarrow> string" where
  "event_source tenant sourceContext = ''urn:sub-rev-os:tenant:'' @ encodeURIComponent tenant @ '':context:'' @ sourceContext"

definition envelope_of :: "event_scope \<Rightarrow> build_event_input \<Rightarrow> string \<Rightarrow> int \<Rightarrow> instant \<Rightarrow> instant \<Rightarrow> event_envelope" where
  "envelope_of context input i version occurred recorded =
     \<lparr>ev_id = i, ev_source = event_source (es_tenantId context) (be_sourceContext input),
      ev_type = ''com.subrevos.'' @ be_eventType input, ev_time = recorded,
      ev_dataschema = be_dataschema input, ev_subject = be_subject input, ev_tenant_id = es_tenantId context,
      ev_aggregate_type = be_aggregateType input, ev_aggregate_id = be_aggregateId input, ev_aggregate_version = version,
      ev_correlation_id = es_correlationId context, ev_causation_id = es_causationId context,
      ev_actor_type = (if es_principalKind context = workload then SERVICE else USER), ev_actor_id = es_actorId context,
      ev_occurred_at = occurred, ev_recorded_at = recorded, ev_classification = be_classification input, ev_data = be_data input\<rparr>"

definition buildEventEnvelopeFor :: "event_scope \<Rightarrow> build_event_input \<Rightarrow> date \<Rightarrow> string \<Rightarrow> event_envelope res" where
  "buildEventEnvelopeFor context input clock newEventId =
     (if \<not> matches_event_type (be_eventType input) then reject invalid_trusted_context
      else if \<not> matches_source_context (be_sourceContext input) then reject invalid_trusted_context
      else if be_classification input \<notin> {RESTRICTED_FINANCIAL, CONFIDENTIAL_BUSINESS, INTERNAL_OPERATIONAL, PUBLIC} then reject invalid_trusted_context
      else case js_integer (be_aggregateVersion input) of None \<Rightarrow> reject invalid_trusted_context
      | Some version \<Rightarrow>
        if version < 1 then reject invalid_trusted_context
        else bindR (ev_requireNonBlank (be_aggregateType input)) (\<lambda>_.
          bindR (ev_requireNonBlank (be_aggregateId input)) (\<lambda>_.
          bindR (case be_data input of JObject _ \<Rightarrow> Inr () | JInstance _ \<Rightarrow> Inr () | _ \<Rightarrow> reject invalid_trusted_context) (\<lambda>_.
          bindR (assertJsonCompatible (be_data input) 0) (\<lambda>_.
            if containsTenantIdentity (be_data input) then reject_for tenant_context_mismatch (es_correlationId context)
            else case (be_occurredAt input, clock) of
                (Some occurred, Some recorded) \<Rightarrow>
                  if occurred > recorded then reject invalid_timestamp
                  else bindR (ev_requireNonBlank newEventId) (\<lambda>i. Inr (envelope_of context input i version occurred recorded))
              | _ \<Rightarrow> reject invalid_timestamp)))))"

definition buildEventEnvelope :: "tenant_context option \<Rightarrow> build_event_input \<Rightarrow> date \<Rightarrow> string \<Rightarrow> event_envelope res" where
  "buildEventEnvelope ambient input clock newEventId =
     bindR (eventScopeFromCurrentContext ambient) (\<lambda>context. buildEventEnvelopeFor context input clock newEventId)"

section \<open>What a built envelope carries\<close>

definition buildable :: "event_scope \<Rightarrow> build_event_input \<Rightarrow> date \<Rightarrow> string \<Rightarrow> int \<Rightarrow> instant \<Rightarrow> instant \<Rightarrow> bool" where
  "buildable context input clock newEventId version occurred recorded \<longleftrightarrow>
     matches_event_type (be_eventType input) \<and> matches_source_context (be_sourceContext input) \<and>
     be_classification input \<in> {RESTRICTED_FINANCIAL, CONFIDENTIAL_BUSINESS, INTERNAL_OPERATIONAL, PUBLIC} \<and>
     js_integer (be_aggregateVersion input) = Some version \<and> 1 \<le> version \<and>
     \<not> blank (be_aggregateType input) \<and> \<not> blank (be_aggregateId input) \<and>
     (\<exists>es. be_data input = JObject es) \<and> assertJsonCompatible (be_data input) 0 = Inr () \<and>
     \<not> containsTenantIdentity (be_data input) \<and> be_occurredAt input = Some occurred \<and> clock = Some recorded \<and>
     occurred \<le> recorded \<and> \<not> blank newEventId"

lemma ev_requireNonBlank_Inr [simp]: "ev_requireNonBlank v = Inr w \<longleftrightarrow> w = v \<and> \<not> blank v"
  by (auto simp: ev_requireNonBlank_def trim_empty_iff simp flip: length_0_conv)

lemma assertJsonCompatible_instance: "assertJsonCompatible (JInstance es) 0 = reject invalid_trusted_context"
  by (simp add: assertJsonCompatible.simps)

lemma buildEventEnvelopeFor_Inr_iff:
  "buildEventEnvelopeFor context input clock newEventId = Inr e \<longleftrightarrow>
     (\<exists>version occurred recorded. buildable context input clock newEventId version occurred recorded \<and>
       e = envelope_of context input newEventId version occurred recorded)"
proof -
  have data: "(case be_data input of JObject _ \<Rightarrow> Inr () | JInstance _ \<Rightarrow> Inr () | _ \<Rightarrow> reject invalid_trusted_context) = (Inr () :: unit res) \<and>
      assertJsonCompatible (be_data input) 0 = Inr () \<longleftrightarrow>
      (\<exists>es. be_data input = JObject es) \<and> assertJsonCompatible (be_data input) 0 = Inr ()"
    by (cases "be_data input") (simp_all add: assertJsonCompatible_instance)
  show ?thesis
    unfolding buildEventEnvelopeFor_def buildable_def bindR_Inr_iff
    using data
    by (auto simp: bindR_Inr_iff not_less split: option.splits if_splits)
qed

lemma source_context_no_colon: "matches_source_context s \<Longrightarrow> CHR '':'' \<notin> set s"
  by (auto simp: matches_source_context_def matches_head_tail_def is_lower_def is_digit_def less_eq_char_def list_all_iff split: list.splits)

lemma event_source_inj: "event_source t c = event_source t' c' \<Longrightarrow> t = t' \<and> c = c'"
proof -
  assume "event_source t c = event_source t' c'"
  then have "encodeURIComponent t @ CHR '':'' # ''context:'' @ c = encodeURIComponent t' @ CHR '':'' # ''context:'' @ c'"
    by (simp add: event_source_def)
  then have "encodeURIComponent t = encodeURIComponent t'" "c = c'"
    unfolding split_at_separator [OF encode_no_colon encode_no_colon] by simp_all
  then show ?thesis using encodeURIComponent_inj by blast
qed

text \<open>An event is stamped only with trusted identity. Every envelope built for the ambient context
  carries that context's tenant, actor, correlation and causation, is marked as a service's exactly for
  workloads, names a catalogued classification, a version of at least 1 and a known source; its data is a
  plain object that nowhere restates a tenant identity; and it was not recorded before it occurred.\<close>

theorem envelope_trusted_identity:
  assumes "buildEventEnvelope ambient input clock newEventId = Inr e"
  shows "\<exists>c. ambient = Some c \<and> ev_tenant_id e = tc_tenantId c \<and> ev_actor_id e = tc_actorId c \<and>
    ev_correlation_id e = tc_correlationId c \<and> ev_causation_id e = tc_causationId c \<and>
    (ev_actor_type e = SERVICE \<longleftrightarrow> tc_principalKind c = workload) \<and>
    ev_source e = event_source (tc_tenantId c) (be_sourceContext input) \<and>
    1 \<le> ev_aggregate_version e \<and> ev_occurred_at e \<le> ev_recorded_at e \<and> \<not> blank (ev_id e) \<and>
    (\<forall>s. ev_classification e \<noteq> other_classification s) \<and>
    (\<exists>es. ev_data e = JObject es) \<and> \<not> containsTenantIdentity (ev_data e)"
proof -
  obtain c where c: "ambient = Some c" and e: "buildEventEnvelopeFor (scope_of_context c) input clock newEventId = Inr e"
    using assms by (auto simp: buildEventEnvelope_def eventScopeFromCurrentContext_def currentTenantContext_def bindR_Inr_iff split: option.splits)
  show ?thesis
    using e c by (auto simp: buildEventEnvelopeFor_Inr_iff buildable_def envelope_of_def scope_of_context_def split: if_splits)
qed

definition sample_build_input :: build_event_input where
  "sample_build_input = \<lparr>be_eventType = ''role.assigned.v1'', be_sourceContext = ''identity-tenant'', be_aggregateType = ''RoleAssignment'',
     be_aggregateId = ''a:b'', be_aggregateVersion = Num 1, be_occurredAt = Some 5, be_classification = CONFIDENTIAL_BUSINESS,
     be_data = JObject [(''role_code'', JString ''b'')], be_dataschema = None, be_subject = None\<rparr>"

lemma sample_buildable:
  "buildEventEnvelope (Some (example_context ''t:1'')) sample_build_input (Some 5) ''evt_1'' =
     Inr (envelope_of (scope_of_context (example_context ''t:1'')) sample_build_input ''evt_1'' 1 5 5)"
proof -
  have "assertJsonCompatible (JObject [(''role_code'', JString ''b'')]) 0 = Inr ()"
    by (simp add: assertJsonCompatible.simps)
  moreover have "\<not> containsTenantIdentity (JObject [(''role_code'', JString ''b'')])"
    by (simp add: containsTenantIdentity_def visit.simps MAX_SCAN_DEPTH_def normalizeKey_def lower_char_def)
  moreover have "matches_event_type ''role.assigned.v1''" "matches_source_context ''identity-tenant''"
    by (simp_all add: matches_event_type_def is_fact_char_def matches_source_context_def matches_head_tail_def is_lower_def is_digit_def less_eq_char_def)
  ultimately show ?thesis
    by (simp add: buildEventEnvelope_def eventScopeFromCurrentContext_def currentTenantContext_def buildEventEnvelopeFor_def sample_build_input_def
        js_integer_def ev_requireNonBlank_def trim_def is_space_def)
qed

theorem envelope_trusted_identity_witness:
  "ev_tenant_id (envelope_of (scope_of_context (example_context ''t:1'')) sample_build_input ''evt_1'' 1 5 5) = ''t:1''"
  using envelope_trusted_identity [OF sample_buildable] by (auto simp: example_context_def)

text \<open>The source of an envelope names exactly one tenant and one bounded context, whatever characters
  the tenant identifier contains: equal sources mean the same tenant and the same context.\<close>

theorem envelope_source_unambiguous:
  assumes "buildEventEnvelopeFor s input clock i = Inr e" "buildEventEnvelopeFor s' input' clock' i' = Inr e'" "ev_source e = ev_source e'"
  shows "ev_tenant_id e = ev_tenant_id e' \<and> be_sourceContext input = be_sourceContext input'"
  using assms by (auto simp: buildEventEnvelopeFor_Inr_iff envelope_of_def dest: event_source_inj)

theorem envelope_source_unambiguous_witness:
  "\<exists>e. buildEventEnvelopeFor (scope_of_context (example_context ''t:1'')) sample_build_input (Some 5) ''evt_1'' = Inr e \<and>
     ev_source e = ''urn:sub-rev-os:tenant:t%3A1:context:identity-tenant'' \<and>
     (\<forall>s' i' e'. buildEventEnvelopeFor s' sample_build_input (Some 5) i' = Inr e' \<longrightarrow> ev_source e' = ev_source e \<longrightarrow> ev_tenant_id e' = ''t:1'')"
proof -
  let ?e = "envelope_of (scope_of_context (example_context ''t:1'')) sample_build_input ''evt_1'' 1 5 5"
  have b: "buildEventEnvelopeFor (scope_of_context (example_context ''t:1'')) sample_build_input (Some 5) ''evt_1'' = Inr ?e"
    using sample_buildable by (simp add: buildEventEnvelope_def eventScopeFromCurrentContext_def currentTenantContext_def)
  have "ev_source ?e = ''urn:sub-rev-os:tenant:t%3A1:context:identity-tenant''" "ev_tenant_id ?e = ''t:1''"
    by (simp_all add: envelope_of_def scope_of_context_def example_context_def event_source_def sample_build_input_def encodeURIComponent_def
        utf8_def percent_byte_def unreserved_def upper_hex_def)
       (simp add: char_of_eq_iff take_bit_eq_mod)
  then show ?thesis using b envelope_source_unambiguous [OF b] by metis
qed

end
