(* ===== verification/Audit_Trail.thy ===== *)
theory Audit_Trail
  imports Event_Envelope Canonical_Json Iso_Time
begin

text \<open>
  \<open>platform/audit\<close>: the evidence policy (\<open>src/policy.ts\<close>), the event model with its evidence hash
  (\<open>src/model.ts\<close>), the recorder (\<open>src/recorder.ts\<close>), the audited reader (\<open>src/reader.ts\<close>) and the
  PostgreSQL insert (\<open>infrastructure/postgres/writer.ts\<close>). The audit table is append-only: a list of
  events, the newest last. SHA-256, the text redactor and the id generator are arguments; a writer and a
  read store are transactions over an arbitrary state.

  The lemmas show what every recorded event contains and omits, that the evidence hash determines the
  whole content up to a hash collision, and that audit reads are themselves recorded or do not happen.
\<close>

section \<open>Model: the policy\<close>

definition is_field_char :: "char \<Rightarrow> bool" where
  "is_field_char c \<longleftrightarrow> is_lower c \<or> is_digit c \<or> c = CHR ''_''"

definition matches_field :: "string \<Rightarrow> bool" where
  "matches_field s = matches_head_tail is_lower is_field_char 63 s"

definition contains_text :: "string \<Rightarrow> string \<Rightarrow> bool" where
  "contains_text pat s \<longleftrightarrow> list_ex (\<lambda>i. take (length pat) (drop i s) = pat) [0..<Suc (length s)]"

definition forbidden_fragment :: "string \<Rightarrow> bool" where
  "forbidden_fragment s = list_ex (\<lambda>pat. contains_text pat s)
     [''password'', ''passwd'', ''secret'', ''token'', ''api_key'', ''apikey'', ''credential'', ''private_key'', ''privatekey'', ''cvv'', ''ssn'']"

text \<open>The maximal parts of a name between underscores.\<close>

fun split_words :: "string \<Rightarrow> string list" where
  "split_words [] = [[]]"
| "split_words (c # cs) = (if c = CHR ''_'' then [] # split_words cs
     else (case split_words cs of [] \<Rightarrow> [[c]] | w # ws \<Rightarrow> (c # w) # ws))"

definition forbidden_word :: "string \<Rightarrow> bool" where
  "forbidden_word s \<longleftrightarrow> ''pan'' \<in> set (split_words s) \<or> ''card'' \<in> set (split_words s)"

definition allowlistable :: "string \<Rightarrow> bool" where
  "allowlistable field \<longleftrightarrow> matches_field field \<and> \<not> forbidden_fragment field \<and> \<not> forbidden_word field"

type_synonym audit_policy = "(string \<times> string list) list"

definition BUILT_IN :: audit_policy where
  "BUILT_IN = [(''AuditQuery'', [''action'', ''target_type'', ''target_id'', ''actor_id'', ''correlation_id'', ''result_count''])]"

fun obj_set :: "string \<Rightarrow> 'a \<Rightarrow> (string \<times> 'a) list \<Rightarrow> (string \<times> 'a) list" where
  "obj_set k v [] = [(k, v)]"
| "obj_set k v ((k', v') # es) = (if k' = k then (k, v) # es else (k', v') # obj_set k v es)"

definition createAuditPolicy :: "(string \<times> string list) list \<Rightarrow> audit_policy res" where
  "createAuditPolicy declared =
     mapR (\<lambda>(targetType, allowed).
         if list_ex (\<lambda>field. \<not> allowlistable field) allowed then reject audit_policy_missing
         else Inr (targetType, sort (uniq allowed)))
       (foldl (\<lambda>es (k, v). obj_set k v es) BUILT_IN declared)"

definition allowedFields :: "audit_policy \<Rightarrow> string \<Rightarrow> string list option" where
  "allowedFields policy targetType = map_of policy targetType"

type_synonym audit_snapshot = "(string \<times> js_value) list"

definition safe_field :: "(string \<Rightarrow> string) \<Rightarrow> (string \<times> js_value) list \<Rightarrow> string \<Rightarrow> audit_snapshot" where
  "safe_field redact val field =
     (case map_of val field of
        Some JNull \<Rightarrow> [(field, JNull)]
      | Some (JBool b) \<Rightarrow> [(field, JBool b)]
      | Some (JString s) \<Rightarrow> [(field, JString (redact s))]
      | Some (JNumber n) \<Rightarrow> if js_finite n then [(field, JNumber n)] else []
      | _ \<Rightarrow> [])"

definition toSafeSnapshot :: "audit_policy \<Rightarrow> (string \<Rightarrow> string) \<Rightarrow> string \<Rightarrow> (string \<times> js_value) list option \<Rightarrow> audit_snapshot option res" where
  "toSafeSnapshot policy redact targetType v =
     (case v of None \<Rightarrow> Inr None
      | Some val \<Rightarrow> (case allowedFields policy targetType of
            None \<Rightarrow> reject audit_policy_missing
          | Some allowed \<Rightarrow> Inr (Some (concat (map (safe_field redact val) allowed)))))"

section \<open>Model: events and evidence\<close>

record audit_event =
  au_id :: string
  au_tenantId :: string
  au_occurredAt :: instant
  au_recordedAt :: instant
  au_actorId :: string
  au_actorKind :: principal_kind
  au_action :: string
  au_targetType :: string
  au_targetId :: string
  au_reason :: "string option"
  au_correlationId :: string
  au_causationId :: "string option"
  au_approvalId :: "string option"
  au_before :: "audit_snapshot option"
  au_after :: "audit_snapshot option"
  au_evidenceHash :: string

definition kind_text :: "principal_kind \<Rightarrow> string" where
  "kind_text k = (case k of interactive \<Rightarrow> ''interactive'' | workload \<Rightarrow> ''workload'' | other_kind s \<Rightarrow> s)"

definition opt_field :: "string \<Rightarrow> js_value option \<Rightarrow> (string \<times> js_value) list" where
  "opt_field k v = (case v of None \<Rightarrow> [] | Some x \<Rightarrow> [(k, x)])"

text \<open>The unsealed event as the JSON value that is hashed: every field but the hash.\<close>

definition audit_json :: "audit_event \<Rightarrow> js_value" where
  "audit_json e = JObject
     ([(''auditEventId'', JString (au_id e)), (''tenantId'', JString (au_tenantId e)),
       (''occurredAt'', JString (iso_text (au_occurredAt e))), (''recordedAt'', JString (iso_text (au_recordedAt e))),
       (''actor'', JObject [(''id'', JString (au_actorId e)), (''kind'', JString (kind_text (au_actorKind e)))]),
       (''action'', JString (au_action e)),
       (''target'', JObject [(''type'', JString (au_targetType e)), (''id'', JString (au_targetId e))])] @
      opt_field ''reason'' (map_option JString (au_reason e)) @
      [(''correlationId'', JString (au_correlationId e))] @
      opt_field ''causationId'' (map_option JString (au_causationId e)) @
      opt_field ''approvalId'' (map_option JString (au_approvalId e)) @
      opt_field ''before'' (map_option JObject (au_before e)) @
      opt_field ''after'' (map_option JObject (au_after e)))"

definition computeEvidenceHash :: "(string \<Rightarrow> string) \<Rightarrow> audit_event \<Rightarrow> string res" where
  "computeEvidenceHash sha256 e = bindR (canonicalJson (audit_json e) 0) (\<lambda>t. Inr (sha256 t))"

definition verifyAuditEvent :: "(string \<Rightarrow> string) \<Rightarrow> audit_event \<Rightarrow> bool res" where
  "verifyAuditEvent sha256 e = bindR (computeEvidenceHash sha256 e) (\<lambda>expected. Inr (expected = au_evidenceHash e))"

section \<open>Model: the recorder\<close>

text \<open>\<open>ACTION_PATTERN\<close>: dotted lower-case names with at least one dot.\<close>

fun split_dots :: "string \<Rightarrow> string list" where
  "split_dots [] = [[]]"
| "split_dots (c # cs) = (if c = CHR ''.'' then [] # split_dots cs
     else (case split_dots cs of [] \<Rightarrow> [[c]] | w # ws \<Rightarrow> (c # w) # ws))"

definition matches_action :: "string \<Rightarrow> bool" where
  "matches_action s \<longleftrightarrow> length (split_dots s) \<ge> 2 \<and>
     list_all (\<lambda>w. case w of [] \<Rightarrow> False | c # cs \<Rightarrow> is_lower c \<and> list_all is_field_char cs) (split_dots s)"

definition MAX_REASON_LENGTH :: nat where "MAX_REASON_LENGTH = 500"

record audit_input =
  ai_action :: string
  ai_targetType :: string
  ai_targetId :: string
  ai_reason :: "string option"
  ai_approvalId :: "string option"
  ai_before :: "(string \<times> js_value) list option"
  ai_after :: "(string \<times> js_value) list option"
  ai_occurredAt :: "date option"

text \<open>The dependencies of the recorder.\<close>

record audit_deps =
  ad_policy :: audit_policy
  ad_redact :: "string \<Rightarrow> string"
  ad_sha256 :: "string \<Rightarrow> string"

definition safe_reason :: "(string \<Rightarrow> string) \<Rightarrow> string option \<Rightarrow> string option" where
  "safe_reason redact reason =
     (case reason of None \<Rightarrow> None
      | Some r \<Rightarrow> if length (trim r) = 0 then None else Some (take MAX_REASON_LENGTH (redact (trim r))))"

definition unsealed_event :: "audit_deps \<Rightarrow> event_scope \<Rightarrow> audit_input \<Rightarrow> string \<Rightarrow> instant \<Rightarrow> instant \<Rightarrow>
    audit_snapshot option \<Rightarrow> audit_snapshot option \<Rightarrow> audit_event" where
  "unsealed_event d sc input i occurred recorded before after =
     \<lparr>au_id = i, au_tenantId = es_tenantId sc, au_occurredAt = occurred, au_recordedAt = recorded,
      au_actorId = es_actorId sc, au_actorKind = es_principalKind sc, au_action = ai_action input,
      au_targetType = ai_targetType input, au_targetId = ai_targetId input,
      au_reason = safe_reason (ad_redact d) (ai_reason input), au_correlationId = es_correlationId sc,
      au_causationId = es_causationId sc, au_approvalId = ai_approvalId input, au_before = before, au_after = after,
      au_evidenceHash = ''''\<rparr>"

definition build_audit_event :: "audit_deps \<Rightarrow> event_scope \<Rightarrow> audit_input \<Rightarrow> date \<Rightarrow> string \<Rightarrow> audit_event res" where
  "build_audit_event d sc input clock newId =
     (if \<not> matches_action (ai_action input) then reject_for audit_event_invalid (es_correlationId sc)
      else if \<not> (length (trim (ai_targetType input)) > 0 \<and> length (trim (ai_targetId input)) > 0)
      then reject_for audit_event_invalid (es_correlationId sc)
      else case ((case ai_occurredAt input of None \<Rightarrow> clock | Some t \<Rightarrow> t), clock) of
        (Some occurred, Some recorded) \<Rightarrow>
          if occurred > recorded then reject invalid_timestamp
          else bindR (toSafeSnapshot (ad_policy d) (ad_redact d) (ai_targetType input) (ai_before input)) (\<lambda>before.
            bindR (toSafeSnapshot (ad_policy d) (ad_redact d) (ai_targetType input) (ai_after input)) (\<lambda>after.
            let unsealed = unsealed_event d sc input newId occurred recorded before after in
            bindR (computeEvidenceHash (ad_sha256 d) unsealed) (\<lambda>h. Inr (unsealed\<lparr>au_evidenceHash := h\<rparr>))))
      | _ \<Rightarrow> reject invalid_timestamp)"

definition recordForScope :: "audit_deps \<Rightarrow> (audit_event \<Rightarrow> ('s, unit) tx) \<Rightarrow> event_scope \<Rightarrow> audit_input \<Rightarrow> date \<Rightarrow> string \<Rightarrow> ('s, audit_event) tx" where
  "recordForScope d writer sc input clock newId =
     bindT (liftT (build_audit_event d sc input clock newId)) (\<lambda>event.
     bindT (writer event) (\<lambda>_. returnT event))"

definition recordForCurrentContext :: "audit_deps \<Rightarrow> (audit_event \<Rightarrow> ('s, unit) tx) \<Rightarrow> tenant_context option \<Rightarrow> audit_input \<Rightarrow> date \<Rightarrow> string \<Rightarrow> ('s, audit_event) tx" where
  "recordForCurrentContext d writer ambient input clock newId =
     bindT (liftT (eventScopeFromCurrentContext ambient)) (\<lambda>sc. recordForScope d writer sc input clock newId)"

definition recordForPlatformCommand :: "audit_deps \<Rightarrow> (audit_event \<Rightarrow> ('s, unit) tx) \<Rightarrow> trust \<Rightarrow> ref \<Rightarrow> string \<Rightarrow> audit_input \<Rightarrow> date \<Rightarrow> string \<Rightarrow> ('s, audit_event) tx" where
  "recordForPlatformCommand d writer st c targetTenantId input clock newId =
     bindT (liftT (eventScopeForPlatformCommand st c targetTenantId)) (\<lambda>sc. recordForScope d writer sc input clock newId)"

section \<open>Model: the PostgreSQL insert\<close>

text \<open>\<open>audit_event\<close> has (tenant, event id) as its key; a second insert of the same key is an error.\<close>

definition appendAuditEvent :: "audit_event \<Rightarrow> (audit_event list, unit) tx" where
  "appendAuditEvent event table =
     (if list_ex (\<lambda>e. au_tenantId e = au_tenantId event \<and> au_id e = au_id event) table then (Inl Error, table)
      else (Inr (), table @ [event]))"

section \<open>Model: the reader\<close>

definition MAX_LIMIT :: int where "MAX_LIMIT = 500"
definition DEFAULT_LIMIT :: int where "DEFAULT_LIMIT = 100"

record audit_query =
  aq_action :: "string option"
  aq_targetType :: "string option"
  aq_targetId :: "string option"
  aq_actorId :: "string option"
  aq_correlationId :: "string option"
  aq_from :: "date option"
  aq_to :: "date option"
  aq_cursor :: "js_number option"
  aq_limit :: "js_number option"

record audit_page =
  ap_events :: "audit_event list"
  ap_nextCursor :: "int option"

definition normalize_query :: "audit_query \<Rightarrow> string \<Rightarrow> int res" where
  "normalize_query query corr =
     (case js_integer (case aq_limit query of None \<Rightarrow> Num DEFAULT_LIMIT | Some l \<Rightarrow> l) of
        None \<Rightarrow> reject_for invalid_trusted_context corr
      | Some limit \<Rightarrow>
          if limit < 1 \<or> limit > MAX_LIMIT then reject_for invalid_trusted_context corr
          else if (case aq_cursor query of None \<Rightarrow> False
                   | Some n \<Rightarrow> (case js_integer n of None \<Rightarrow> True | Some k \<Rightarrow> k < 0)) then reject_for invalid_trusted_context corr
          else if aq_from query = Some None \<or> aq_to query = Some None then reject_for invalid_trusted_context corr
          else Inr limit)"

definition read_audit_input :: "audit_query \<Rightarrow> string \<Rightarrow> nat \<Rightarrow> audit_input" where
  "read_audit_input query corr n =
     \<lparr>ai_action = ''audit.read'', ai_targetType = ''AuditQuery'', ai_targetId = corr, ai_reason = None, ai_approvalId = None, ai_before = None,
      ai_after = Some (opt_field ''action'' (map_option JString (aq_action query)) @
        opt_field ''target_type'' (map_option JString (aq_targetType query)) @
        opt_field ''target_id'' (map_option JString (aq_targetId query)) @
        opt_field ''actor_id'' (map_option JString (aq_actorId query)) @
        opt_field ''correlation_id'' (map_option JString (aq_correlationId query)) @
        [(''result_count'', JNumber (Num (int n)))]),
      ai_occurredAt = None\<rparr>"

definition queryAudit :: "audit_deps \<Rightarrow> (audit_event \<Rightarrow> ('s, unit) tx) \<Rightarrow> (string \<Rightarrow> audit_query \<Rightarrow> int \<Rightarrow> ('s, audit_page) tx) \<Rightarrow>
    ('s, unit) tx \<Rightarrow> tenant_context option \<Rightarrow> audit_query \<Rightarrow> date \<Rightarrow> string \<Rightarrow> ('s, audit_page) tx" where
  "queryAudit d writer reads authorize ambient query clock newId =
     bindT (liftT (currentTenantContext ambient)) (\<lambda>context.
     bindT authorize (\<lambda>_.
     bindT (liftT (normalize_query query (tc_correlationId context))) (\<lambda>limit.
       runInTransaction
         (bindT (reads (tc_tenantId context) query limit) (\<lambda>page.
          bindT (assertT (list_all (\<lambda>e. au_tenantId e = tc_tenantId context) (ap_events page))
                   (Problem tenant_context_mismatch (Some (tc_correlationId context)) None)) (\<lambda>_.
          bindT (recordForCurrentContext d writer ambient (read_audit_input query (tc_correlationId context) (length (ap_events page))) clock newId)
            (\<lambda>_. returnT page)))))))"

section \<open>Snapshots\<close>

definition scalar :: "js_value \<Rightarrow> bool" where
  "scalar v \<longleftrightarrow> v = JNull \<or> (\<exists>b. v = JBool b) \<or> (\<exists>s. v = JString s) \<or> (\<exists>n. v = JNumber n \<and> js_finite n)"

lemma safe_field_entries:
  "(k, v) \<in> set (safe_field redact val field) \<Longrightarrow>
     k = field \<and> scalar v \<and> (\<forall>s. v = JString s \<longrightarrow> (\<exists>s0. map_of val field = Some (JString s0) \<and> s = redact s0))"
  by (cases "map_of val field"; cases "the (map_of val field)")
    (auto simp: safe_field_def scalar_def split: if_splits)

lemma toSafeSnapshot_entries:
  assumes "toSafeSnapshot policy redact t v = Inr (Some snap)"
  obtains allowed val where "v = Some val" "allowedFields policy t = Some allowed"
    "\<And>k x. (k, x) \<in> set snap \<Longrightarrow> k \<in> set allowed \<and> scalar x \<and>
       (\<forall>s. x = JString s \<longrightarrow> (\<exists>s0. map_of val k = Some (JString s0) \<and> s = redact s0))"
proof -
  obtain val allowed where a: "v = Some val" "allowedFields policy t = Some allowed"
      "snap = concat (map (safe_field redact val) allowed)"
    using assms by (auto simp: toSafeSnapshot_def split: option.splits)
  show ?thesis by (rule that [OF a(1,2)]) (auto simp: a(3) dest: safe_field_entries)
qed

lemma createAuditPolicy_allowlistable:
  assumes "createAuditPolicy declared = Inr policy" "allowedFields policy t = Some allowed" "f \<in> set allowed"
  shows "allowlistable f"
proof -
  let ?g = "\<lambda>(targetType, allowed). if list_ex (\<lambda>field. \<not> allowlistable field) allowed then reject audit_policy_missing
         else Inr (targetType, sort (uniq allowed))"
  have l: "list_all2 (\<lambda>x y. ?g x = Inr y) (foldl (\<lambda>es (k, v). obj_set k v es) BUILT_IN declared) policy"
    using assms(1) unfolding createAuditPolicy_def mapR_Inr_iff .
  have "(t, allowed) \<in> set policy" using assms(2) by (auto simp: allowedFields_def dest: map_of_SomeD)
  then obtain i where i: "i < length policy" "policy ! i = (t, allowed)" by (auto simp: in_set_conv_nth)
  obtain u as where "foldl (\<lambda>es (k, v). obj_set k v es) BUILT_IN declared ! i = (u, as)" by (meson surj_pair)
  with list_all2_nthD2 [OF l i(1)] i(2) have "?g (u, as) = Inr (t, allowed)" by simp
  then have "\<not> list_ex (\<lambda>field. \<not> allowlistable field) as" "allowed = sort (uniq as)" by (auto split: if_splits)
  then show ?thesis using assms(3) by (auto simp: list_ex_iff)
qed

section \<open>Evidence\<close>

lemma map_of_opt_field: "map_of (opt_field k v @ r) k' = (if k' = k \<and> v \<noteq> None then v else map_of r k')"
  by (cases v) (simp_all add: opt_field_def)

lemma map_of_opt_field_single: "map_of (opt_field k v) k' = (if k' = k then v else None)"
  by (cases v) (simp_all add: opt_field_def)

lemma map_of_json_entries:
  assumes "distinct (map fst es)"
  shows "map_of (json_entries es) k = (if map_of es k = Some JUndefined then None else map_of es k)"
proof -
  let ?f = "filter (\<lambda>(_, child). child \<noteq> JUndefined) es"
  have d: "distinct (map fst ?f)" using assms by (simp add: distinct_map_filter)
  have "mset (json_entries es) = mset ?f" by (simp add: json_entries_def)
  then have s: "set (json_entries es) = set ?f" "distinct (map fst (json_entries es))"
    using d by (metis set_mset_mset) (metis \<open>mset (json_entries es) = mset ?f\<close> d mset_eq_imp_distinct_iff mset_map)
  have "map_of (json_entries es) = map_of ?f" using s d by (metis map_of_eqI map_of_inject_set)
  moreover have "map_of ?f k = (if map_of es k = Some JUndefined then None else map_of es k)"
    using assms by (induction es) (auto simp: map_of_eq_None_iff image_iff)
  ultimately show ?thesis by simp
qed

lemma normal_JObject: "normal (JObject es) = JObject (map (\<lambda>(k, c). (k, normal c)) (json_entries es))"
  by (subst normal.simps) simp

lemma normal_JObject_lookup:
  assumes "normal (JObject es) = normal (JObject es')" "distinct (map fst es)" "distinct (map fst es')"
    "map_of es k \<noteq> Some JUndefined" "map_of es' k \<noteq> Some JUndefined"
  shows "map_option normal (map_of es k) = map_option normal (map_of es' k)"
proof -
  have "map (\<lambda>(k, c). (k, normal c)) (json_entries es) = map (\<lambda>(k, c). (k, normal c)) (json_entries es')"
    using assms(1) by (simp add: normal_JObject)
  then have "map_of (map (\<lambda>(k, c). (k, normal c)) (json_entries es)) k = map_of (map (\<lambda>(k, c). (k, normal c)) (json_entries es')) k" by simp
  then show ?thesis using assms by (simp add: map_of_map map_of_json_entries)
qed

definition audit_entries :: "audit_event \<Rightarrow> (string \<times> js_value) list" where
  "audit_entries e = (case audit_json e of JObject es \<Rightarrow> es | _ \<Rightarrow> [])"

lemma audit_json_entries: "audit_json e = JObject (audit_entries e)"
  by (simp add: audit_entries_def audit_json_def)

lemma audit_entries_distinct: "distinct (map fst (audit_entries e))"
  unfolding audit_entries_def audit_json_def
  by (cases "au_reason e"; cases "au_causationId e"; cases "au_approvalId e"; cases "au_before e"; cases "au_after e")
    (simp_all add: opt_field_def)

lemmas audit_lookup_defs = audit_entries_def audit_json_def map_of_opt_field map_of_opt_field_single

lemma audit_lookup:
  "map_of (audit_entries e) ''auditEventId'' = Some (JString (au_id e))"
  "map_of (audit_entries e) ''tenantId'' = Some (JString (au_tenantId e))"
  "map_of (audit_entries e) ''occurredAt'' = Some (JString (iso_text (au_occurredAt e)))"
  "map_of (audit_entries e) ''recordedAt'' = Some (JString (iso_text (au_recordedAt e)))"
  "map_of (audit_entries e) ''actor'' = Some (JObject [(''id'', JString (au_actorId e)), (''kind'', JString (kind_text (au_actorKind e)))])"
  "map_of (audit_entries e) ''action'' = Some (JString (au_action e))"
  "map_of (audit_entries e) ''target'' = Some (JObject [(''type'', JString (au_targetType e)), (''id'', JString (au_targetId e))])"
  "map_of (audit_entries e) ''correlationId'' = Some (JString (au_correlationId e))"
  "map_of (audit_entries e) ''reason'' = map_option JString (au_reason e)"
  "map_of (audit_entries e) ''causationId'' = map_option JString (au_causationId e)"
  "map_of (audit_entries e) ''approvalId'' = map_option JString (au_approvalId e)"
  "map_of (audit_entries e) ''before'' = map_option JObject (au_before e)"
  "map_of (audit_entries e) ''after'' = map_option JObject (au_after e)"
  by (simp_all add: audit_lookup_defs del: map_of_append)

lemma normal_JString [simp]: "normal (JString s) = JString s"
  by (subst normal.simps) simp

lemma two_entries_normal:
  "normal (JObject [(''id'', JString a), (''kind'', JString b)]) = normal (JObject [(''id'', JString a'), (''kind'', JString b')]) \<longleftrightarrow> a = a' \<and> b = b'"
  "normal (JObject [(''type'', JString a), (''id'', JString b)]) = normal (JObject [(''type'', JString a'), (''id'', JString b')]) \<longleftrightarrow> a = a' \<and> b = b'"
  by (auto simp: normal_JObject json_entries_def less_eq_char_def less_char_def)

definition same_evidence :: "audit_event \<Rightarrow> audit_event \<Rightarrow> bool" where
  "same_evidence e e' \<longleftrightarrow>
     au_id e = au_id e' \<and> au_tenantId e = au_tenantId e' \<and> au_occurredAt e = au_occurredAt e' \<and> au_recordedAt e = au_recordedAt e' \<and>
     au_actorId e = au_actorId e' \<and> kind_text (au_actorKind e) = kind_text (au_actorKind e') \<and> au_action e = au_action e' \<and>
     au_targetType e = au_targetType e' \<and> au_targetId e = au_targetId e' \<and> au_reason e = au_reason e' \<and>
     au_correlationId e = au_correlationId e' \<and> au_causationId e = au_causationId e' \<and> au_approvalId e = au_approvalId e' \<and>
     map_option (normal \<circ> JObject) (au_before e) = map_option (normal \<circ> JObject) (au_before e') \<and>
     map_option (normal \<circ> JObject) (au_after e) = map_option (normal \<circ> JObject) (au_after e')"

lemma normal_audit_json_same:
  assumes "normal (audit_json e) = normal (audit_json e')"
    and "valid_instant (au_occurredAt e)" "valid_instant (au_recordedAt e)" "valid_instant (au_occurredAt e')" "valid_instant (au_recordedAt e')"
  shows "same_evidence e e'"
proof -
  have l: "map_option normal (map_of (audit_entries e) k) = map_option normal (map_of (audit_entries e') k)"
    if "map_of (audit_entries e) k \<noteq> Some JUndefined" "map_of (audit_entries e') k \<noteq> Some JUndefined" for k
    using normal_JObject_lookup [OF _ audit_entries_distinct audit_entries_distinct that] assms(1) by (simp add: audit_json_entries)
  have s: "map_option normal (map_option JString x) = map_option normal (map_option JString y) \<Longrightarrow> x = y" for x y :: "string option"
    by (cases x; cases y) simp_all
  have u: "map_option JString x \<noteq> Some JUndefined" "map_option JObject y \<noteq> Some JUndefined" for x y
    by (cases x; simp) (cases y; simp)
  have "au_reason e = au_reason e'" "au_causationId e = au_causationId e'" "au_approvalId e = au_approvalId e'"
    using s l [of "''reason''"] l [of "''causationId''"] l [of "''approvalId''"] u by (simp_all add: audit_lookup)
  moreover have "map_option (normal \<circ> JObject) (au_before e) = map_option (normal \<circ> JObject) (au_before e')"
      "map_option (normal \<circ> JObject) (au_after e) = map_option (normal \<circ> JObject) (au_after e')"
    using l [of "''before''"] l [of "''after''"] u by (simp_all add: audit_lookup option.map_comp)
  moreover have "au_occurredAt e = au_occurredAt e'" "au_recordedAt e = au_recordedAt e'"
    using l [of "''occurredAt''"] l [of "''recordedAt''"] iso_text_inj assms(2-5) by (simp_all add: audit_lookup)
  moreover have "au_id e = au_id e'" "au_tenantId e = au_tenantId e'" "au_action e = au_action e'" "au_correlationId e = au_correlationId e'"
    using l [of "''auditEventId''"] l [of "''tenantId''"] l [of "''action''"] l [of "''correlationId''"] by (simp_all add: audit_lookup)
  moreover have "au_actorId e = au_actorId e'" "kind_text (au_actorKind e) = kind_text (au_actorKind e')"
      "au_targetType e = au_targetType e'" "au_targetId e = au_targetId e'"
    using l [of "''actor''"] l [of "''target''"] by (simp_all add: audit_lookup two_entries_normal)
  ultimately show ?thesis by (simp add: same_evidence_def)
qed

section \<open>Recorded events\<close>

lemma audit_json_ignores_hash [simp]: "audit_json (e\<lparr>au_evidenceHash := h\<rparr>) = audit_json e"
  by (simp add: audit_json_def)

lemma build_audit_event_Inr:
  assumes "build_audit_event d sc input clock newId = Inr e"
  obtains occurred recorded before after h where
    "clock = Some recorded" "(case ai_occurredAt input of None \<Rightarrow> clock | Some t \<Rightarrow> t) = Some occurred" "occurred \<le> recorded"
    "toSafeSnapshot (ad_policy d) (ad_redact d) (ai_targetType input) (ai_before input) = Inr before"
    "toSafeSnapshot (ad_policy d) (ad_redact d) (ai_targetType input) (ai_after input) = Inr after"
    "computeEvidenceHash (ad_sha256 d) (unsealed_event d sc input newId occurred recorded before after) = Inr h"
    "e = (unsealed_event d sc input newId occurred recorded before after)\<lparr>au_evidenceHash := h\<rparr>"
    "matches_action (ai_action input)" "\<not> blank (ai_targetType input)" "\<not> blank (ai_targetId input)"
  using assms
  by (auto simp: build_audit_event_def Let_def bindR_Inr_iff not_less trim_empty_iff simp flip: length_0_conv
      split: if_splits option.splits)

lemma built_event_verifies:
  "build_audit_event d sc input clock newId = Inr e \<Longrightarrow> verifyAuditEvent (ad_sha256 d) e = Inr True"
  by (erule build_audit_event_Inr) (simp add: verifyAuditEvent_def computeEvidenceHash_def)

lemma snapshot_allowlisted:
  assumes "createAuditPolicy declared = Inr policy" "toSafeSnapshot policy redact t v = Inr snap" "snap = Some kvs" "(k, x) \<in> set kvs"
  shows "allowlistable k \<and> scalar x"
  using assms createAuditPolicy_allowlistable [OF assms(1)] by (metis toSafeSnapshot_entries)

lemma length_safe_reason: "safe_reason redact r = Some s \<Longrightarrow> length s \<le> 500"
  by (auto simp: safe_reason_def MAX_REASON_LENGTH_def split: option.splits if_splits)

lemma recordForScope_Inr_iff:
  "recordForScope d writer sc input clock newId s = (Inr e, s') \<longleftrightarrow>
     build_audit_event d sc input clock newId = Inr e \<and> writer e s = (Inr (), s')"
  by (auto simp: recordForScope_def bindT_Inr_iff)

text \<open>Hashing never fails: the hashed value is an object of texts and of objects of scalars.\<close>

lemma scalar_string: "scalar (JString s)"
  by (simp add: scalar_def)

lemma canonicalJson_scalar: "scalar v \<Longrightarrow> d \<le> MAX_DEPTH \<Longrightarrow> \<exists>t. canonicalJson v d = Inr t"
proof -
  assume v: "scalar v" and d: "d \<le> MAX_DEPTH"
  from v consider "v = JNull" | b where "v = JBool b" | s where "v = JString s" | n where "v = JNumber n" "js_finite n"
    by (auto simp: scalar_def)
  then show ?thesis
  proof cases
    case 4
    then show ?thesis using d by (cases n) (simp_all add: canonicalJson.simps [of "JNumber _"] js_finite_def)
  qed (use d in \<open>simp_all add: canonicalJson.simps [of JNull] canonicalJson.simps [of "JBool _"] canonicalJson.simps [of "JString _"]\<close>)
qed

lemma canonicalJson_object:
  assumes "d \<le> MAX_DEPTH" "\<And>k v. (k, v) \<in> set es \<Longrightarrow> \<exists>t. canonicalJson v (d + 1) = Inr t"
  shows "\<exists>t. canonicalJson (JObject es) d = Inr t"
proof -
  have "mapR (\<lambda>(key, child). bindR (canonicalJson child (d + 1)) (\<lambda>t. Inr (json_string key @ '':'' @ t))) (json_entries es) =
      Inr (map (\<lambda>(key, child). json_string key @ '':'' @ projr (canonicalJson child (d + 1))) (json_entries es))"
  proof (rule mapR_total, clarify)
    fix k v assume "(k, v) \<in> set (json_entries es)"
    then have "(k, v) \<in> set es" by (simp add: json_entries_def)
    from assms(2) [OF this] show "bindR (canonicalJson v (d + 1)) (\<lambda>t. Inr (json_string k @ '':'' @ t)) = Inr (json_string k @ '':'' @ projr (canonicalJson v (d + 1)))"
      by auto
  qed
  then show ?thesis using assms(1) by (subst canonicalJson.simps) simp
qed

lemma canonicalJson_flat_object:
  "d + 1 \<le> MAX_DEPTH \<Longrightarrow> (\<And>k v. (k, v) \<in> set es \<Longrightarrow> scalar v) \<Longrightarrow> \<exists>t. canonicalJson (JObject es) d = Inr t"
  by (rule canonicalJson_object) (auto intro: canonicalJson_scalar)

lemma audit_hash_total:
  assumes "\<And>kvs k x. au_before e = Some kvs \<or> au_after e = Some kvs \<Longrightarrow> (k, x) \<in> set kvs \<Longrightarrow> scalar x"
  shows "\<exists>t. canonicalJson (audit_json e) 0 = Inr t"
  unfolding audit_json_entries
proof (rule canonicalJson_object)
  fix k v assume "(k, v) \<in> set (audit_entries e)"
  then have "(\<exists>s. v = JString s) \<or> (\<exists>kvs. v = JObject kvs \<and> (\<forall>(k, x)\<in>set kvs. scalar x))"
    using assms [OF disjI1] assms [OF disjI2] scalar_string
    by (auto simp: audit_entries_def audit_json_def opt_field_def split: option.splits dest!: sym [of "Some _"])
  then show "\<exists>t. canonicalJson v (0 + 1) = Inr t"
  proof
    assume "\<exists>s. v = JString s"
    then have "scalar v" using scalar_string by blast
    then show ?thesis by (rule canonicalJson_scalar) (simp add: MAX_DEPTH_def)
  next
    assume "\<exists>kvs. v = JObject kvs \<and> (\<forall>(k, x)\<in>set kvs. scalar x)"
    then obtain kvs where kvs: "v = JObject kvs" "\<And>k x. (k, x) \<in> set kvs \<Longrightarrow> scalar x" by blast
    show ?thesis unfolding kvs(1) by (rule canonicalJson_flat_object) (use kvs(2) in \<open>simp_all add: MAX_DEPTH_def\<close>)
  qed
qed (simp add: MAX_DEPTH_def)

lemma snapshot_total:
  "(\<exists>snap. toSafeSnapshot policy redact ty v = Inr snap) \<longleftrightarrow> v = None \<or> (\<exists>allowed. allowedFields policy ty = Some allowed)"
  by (auto simp: toSafeSnapshot_def split: option.splits)

lemma snapshot_scalar: "toSafeSnapshot policy redact ty v = Inr (Some kvs) \<Longrightarrow> (k, x) \<in> set kvs \<Longrightarrow> scalar x"
  by (auto simp: toSafeSnapshot_def dest: safe_field_entries split: option.splits)

lemma unsealed_hash_total:
  assumes "toSafeSnapshot (ad_policy d) (ad_redact d) ty b = Inr before" "toSafeSnapshot (ad_policy d) (ad_redact d) ty a = Inr after"
  shows "\<exists>h. computeEvidenceHash (ad_sha256 d) (unsealed_event d sc input newId occurred recorded before after) = Inr h"
proof -
  have "\<exists>t. canonicalJson (audit_json (unsealed_event d sc input newId occurred recorded before after)) 0 = Inr t"
    by (rule audit_hash_total) (use assms snapshot_scalar in \<open>auto simp: unsealed_event_def\<close>)
  then show ?thesis by (auto simp: computeEvidenceHash_def)
qed

lemma build_audit_event_ok:
  assumes "matches_action (ai_action input)" "\<not> blank (ai_targetType input)" "\<not> blank (ai_targetId input)"
    "clock = Some recorded" "(case ai_occurredAt input of None \<Rightarrow> clock | Some t \<Rightarrow> t) = Some occurred" "occurred \<le> recorded"
    "(ai_before input = None \<and> ai_after input = None) \<or> (\<exists>fields. allowedFields (ad_policy d) (ai_targetType input) = Some fields)"
  shows "\<exists>e. build_audit_event d sc input clock newId = Inr e"
proof -
  obtain before after where s: "toSafeSnapshot (ad_policy d) (ad_redact d) (ai_targetType input) (ai_before input) = Inr before"
    "toSafeSnapshot (ad_policy d) (ad_redact d) (ai_targetType input) (ai_after input) = Inr after"
    using assms(7) snapshot_total by metis
  then show ?thesis
    using assms unsealed_hash_total [OF s, of sc input newId]
    by (auto simp: build_audit_event_def Let_def bindR_Inr_iff trim_empty_iff not_le simp flip: length_0_conv)
qed

section \<open>Properties\<close>

text \<open>Recording an audit event fails only for a stated reason. An event is built exactly when the action is
  a dotted name, the target type and id are not blank, the clock is valid, the event did not occur after it
  is recorded, and the policy covers the target type of every given snapshot; hashing never fails.\<close>

theorem audit_record_accepted_iff:
  "(\<exists>e. build_audit_event d sc input clock newId = Inr e) \<longleftrightarrow>
     matches_action (ai_action input) \<and> \<not> blank (ai_targetType input) \<and> \<not> blank (ai_targetId input) \<and>
     (\<exists>recorded occurred. clock = Some recorded \<and> (case ai_occurredAt input of None \<Rightarrow> clock | Some t \<Rightarrow> t) = Some occurred \<and> occurred \<le> recorded) \<and>
     ((ai_before input = None \<and> ai_after input = None) \<or> (\<exists>fields. allowedFields (ad_policy d) (ai_targetType input) = Some fields))"
  (is "?built \<longleftrightarrow> ?ok")
proof
  assume ?built
  then obtain e where "build_audit_event d sc input clock newId = Inr e" by blast
  then show ?ok
    by (rule build_audit_event_Inr)
       (use snapshot_total [of "ad_policy d" "ad_redact d" "ai_targetType input" "ai_before input"]
          snapshot_total [of "ad_policy d" "ad_redact d" "ai_targetType input" "ai_after input"] in auto)
next
  assume ?ok
  then show ?built by (auto intro: build_audit_event_ok)
qed

text \<open>C23: the evidence hash seals the whole event. If two audit events both verify and carry the same
  hash, they agree in every field (the snapshots up to key order), or their own canonical texts are two
  different texts with the same digest. So altering any field of a stored event changes the text that is
  hashed, and unless exactly those two texts collide under SHA-256 its verification fails.\<close>

theorem audit_evidence_tamper_evident:
  assumes "verifyAuditEvent sha256 e = Inr True" "verifyAuditEvent sha256 e' = Inr True" "au_evidenceHash e = au_evidenceHash e'"
    and "valid_instant (au_occurredAt e)" "valid_instant (au_recordedAt e)" "valid_instant (au_occurredAt e')" "valid_instant (au_recordedAt e')"
  shows "same_evidence e e' \<or>
    (\<exists>text text'. canonicalJson (audit_json e) 0 = Inr text \<and> canonicalJson (audit_json e') 0 = Inr text' \<and>
       text \<noteq> text' \<and> sha256 text = sha256 text')"
proof -
  obtain t t' where t: "canonicalJson (audit_json e) 0 = Inr t" "canonicalJson (audit_json e') 0 = Inr t'" "sha256 t = sha256 t'"
    using assms(1-3) by (auto simp: verifyAuditEvent_def computeEvidenceHash_def bindR_Inr_iff)
  show ?thesis
  proof (cases "t = t'")
    case True
    then have "normal (audit_json e) = normal (audit_json e')" using t canonicalJson_text_inj by blast
    then show ?thesis using normal_audit_json_same assms(4-7) by blast
  qed (use t in blast)
qed

text \<open>C33: what is recorded is trusted and minimal. Every event the recorder appends carries the scope's
  tenant, actor, correlation and causation, the requested action and target, and verifies against its own
  hash; it occurred no later than it was recorded; its reason has at most 500 characters; and its
  snapshots hold only scalar values of fields the policy could allow-list, so never a name that looks like
  a secret or card data. A failed append fails the record.\<close>

theorem audit_record_trusted_and_minimal:
  assumes policy: "createAuditPolicy declared = Inr (ad_policy d)"
    and rec: "recordForScope d writer sc input clock newId s = (Inr e, s')"
  shows "writer e s = (Inr (), s') \<and> au_tenantId e = es_tenantId sc \<and> au_actorId e = es_actorId sc \<and>
    au_actorKind e = es_principalKind sc \<and> au_correlationId e = es_correlationId sc \<and> au_causationId e = es_causationId sc \<and>
    au_action e = ai_action input \<and> au_targetType e = ai_targetType input \<and> au_targetId e = ai_targetId input \<and>
    verifyAuditEvent (ad_sha256 d) e = Inr True \<and> au_occurredAt e \<le> au_recordedAt e \<and> clock = Some (au_recordedAt e) \<and>
    (\<forall>r. au_reason e = Some r \<longrightarrow> length r \<le> 500) \<and>
    (\<forall>kvs k x. (au_before e = Some kvs \<or> au_after e = Some kvs) \<and> (k, x) \<in> set kvs \<longrightarrow>
       scalar x \<and> matches_field k \<and> \<not> forbidden_fragment k \<and> \<not> forbidden_word k)"
proof -
  have b: "build_audit_event d sc input clock newId = Inr e" and w: "writer e s = (Inr (), s')"
    using rec by (simp_all add: recordForScope_Inr_iff)
  from b obtain occurred recorded before after h where e: "clock = Some recorded" "occurred \<le> recorded"
    "toSafeSnapshot (ad_policy d) (ad_redact d) (ai_targetType input) (ai_before input) = Inr before"
    "toSafeSnapshot (ad_policy d) (ad_redact d) (ai_targetType input) (ai_after input) = Inr after"
    "e = (unsealed_event d sc input newId occurred recorded before after)\<lparr>au_evidenceHash := h\<rparr>"
    by (rule build_audit_event_Inr)
  have "allowlistable k \<and> scalar x" if "au_before e = Some kvs \<or> au_after e = Some kvs" "(k, x) \<in> set kvs" for kvs k x
    using that e snapshot_allowlisted [OF policy] by (auto simp: unsealed_event_def)
  then show ?thesis
    using e w built_event_verifies [OF b] by (auto simp: unsealed_event_def allowlistable_def intro: length_safe_reason)
qed

text \<open>Audit history cannot be read silently or across tenants. A successful audit query returns only
  events of the ambient tenant, was authorized first, asks the store for between 1 and 500 events, and
  appended an \<open>audit.read\<close> event for that tenant and actor in the same transaction; a query that fails
  leaves the database as the authorization check left it.\<close>

theorem audit_reads_are_audited:
  "(queryAudit d writer reads authorize ambient query clock newId s = (Inr page, s') \<longrightarrow>
     (\<exists>c s0 s1 limit e. ambient = Some c \<and> authorize s = (Inr (), s0) \<and> 1 \<le> limit \<and> limit \<le> 500 \<and>
        reads (tc_tenantId c) query limit s0 = (Inr page, s1) \<and> (\<forall>x\<in>set (ap_events page). au_tenantId x = tc_tenantId c) \<and>
        writer e s1 = (Inr (), s') \<and> au_action e = ''audit.read'' \<and> au_tenantId e = tc_tenantId c \<and> au_actorId e = tc_actorId c)) \<and>
   (queryAudit d writer reads authorize ambient query clock newId s = (Inl err, s') \<longrightarrow> s' = s \<or> s' = snd (authorize s))"
proof (intro conjI impI)
  assume "queryAudit d writer reads authorize ambient query clock newId s = (Inr page, s')"
  then obtain c s0 limit s1 e where c: "ambient = Some c" "authorize s = (Inr (), s0)"
    and l: "normalize_query query (tc_correlationId c) = Inr limit"
    and r: "reads (tc_tenantId c) query limit s0 = (Inr page, s1)" "list_all (\<lambda>e. au_tenantId e = tc_tenantId c) (ap_events page)"
    and w: "recordForCurrentContext d writer ambient (read_audit_input query (tc_correlationId c) (length (ap_events page))) clock newId s1 = (Inr e, s')"
    by (auto simp: queryAudit_def bindT_Inr_iff currentTenantContext_def split: option.splits)
  have "1 \<le> limit \<and> limit \<le> 500"
    using l by (auto simp: normalize_query_def MAX_LIMIT_def split: option.splits if_splits)
  moreover have b: "build_audit_event d (scope_of_context c) (read_audit_input query (tc_correlationId c) (length (ap_events page))) clock newId = Inr e"
    and "writer e s1 = (Inr (), s')"
    using w c(1) by (auto simp: recordForCurrentContext_def eventScopeFromCurrentContext_def currentTenantContext_def recordForScope_Inr_iff bindT_Inr_iff)
  moreover from b have "au_action e = ''audit.read'' \<and> au_tenantId e = tc_tenantId c \<and> au_actorId e = tc_actorId c"
    by (rule build_audit_event_Inr) (simp add: unsealed_event_def scope_of_context_def read_audit_input_def)
  ultimately show "\<exists>c s0 s1 limit e. ambient = Some c \<and> authorize s = (Inr (), s0) \<and> 1 \<le> limit \<and> limit \<le> 500 \<and>
        reads (tc_tenantId c) query limit s0 = (Inr page, s1) \<and> (\<forall>x\<in>set (ap_events page). au_tenantId x = tc_tenantId c) \<and>
        writer e s1 = (Inr (), s') \<and> au_action e = ''audit.read'' \<and> au_tenantId e = tc_tenantId c \<and> au_actorId e = tc_actorId c"
    using c r by (auto simp: list_all_iff)
next
  assume "queryAudit d writer reads authorize ambient query clock newId s = (Inl err, s')"
  then show "s' = s \<or> s' = snd (authorize s)"
    by (auto simp: queryAudit_def bindT_def liftT_def runInTransaction_def split: prod.splits sum.splits)
qed

section \<open>A concrete record\<close>

definition sample_deps :: audit_deps where
  "sample_deps = \<lparr>ad_policy = [(''Tenant'', [''state'', ''version''])], ad_redact = id, ad_sha256 = id\<rparr>"

definition sample_audit_input :: audit_input where
  "sample_audit_input = \<lparr>ai_action = ''tenant.suspended'', ai_targetType = ''Tenant'', ai_targetId = ''t'', ai_reason = Some '' fraud '',
     ai_approvalId = None, ai_before = None, ai_after = Some [(''state'', JString ''SUSPENDED''), (''secret'', JString ''s''), (''version'', JNumber (Num 3))],
     ai_occurredAt = None\<rparr>"

definition sample_event_scope :: event_scope where
  "sample_event_scope = \<lparr>es_tenantId = ''t'', es_actorId = ''a'', es_principalKind = interactive, es_correlationId = ''c'', es_causationId = None\<rparr>"

definition sample_unsealed :: audit_event where
  "sample_unsealed = \<lparr>au_id = ''aud_1'', au_tenantId = ''t'', au_occurredAt = 5, au_recordedAt = 5, au_actorId = ''a'', au_actorKind = interactive,
     au_action = ''tenant.suspended'', au_targetType = ''Tenant'', au_targetId = ''t'', au_reason = Some ''fraud'', au_correlationId = ''c'',
     au_causationId = None, au_approvalId = None, au_before = None,
     au_after = Some [(''state'', JString ''SUSPENDED''), (''version'', JNumber (Num 3))], au_evidenceHash = ''''\<rparr>"

lemma sample_hash_defined: "\<exists>t. canonicalJson (audit_json sample_unsealed) 0 = Inr t"
  by (rule audit_hash_total) (auto simp: sample_unsealed_def scalar_def js_finite_def)

definition sample_sealed :: audit_event where
  "sample_sealed = sample_unsealed\<lparr>au_evidenceHash := projr (canonicalJson (audit_json sample_unsealed) 0)\<rparr>"

lemma sample_verifies: "verifyAuditEvent id sample_sealed = Inr True"
  using sample_hash_defined by (auto simp: verifyAuditEvent_def computeEvidenceHash_def sample_sealed_def)

theorem audit_evidence_tamper_evident_witness:
  "verifyAuditEvent id sample_sealed = Inr True \<and> verifyAuditEvent id (sample_sealed\<lparr>au_reason := Some ''other''\<rparr>) \<noteq> Inr True"
proof -
  have "valid_instant (au_occurredAt sample_sealed)" "valid_instant (au_recordedAt sample_sealed)"
    by (simp_all add: valid_instant_def sample_sealed_def sample_unsealed_def)
  then have "\<not> verifyAuditEvent id (sample_sealed\<lparr>au_reason := Some ''other''\<rparr>) = Inr True"
    using audit_evidence_tamper_evident [OF sample_verifies, of "sample_sealed\<lparr>au_reason := Some ''other''\<rparr>"]
    by (auto simp: same_evidence_def sample_sealed_def sample_unsealed_def)
  then show ?thesis using sample_verifies by blast
qed

lemma sample_policy: "createAuditPolicy [(''Tenant'', [''version'', ''state''])] =
    Inr [(''AuditQuery'', [''action'', ''actor_id'', ''correlation_id'', ''result_count'', ''target_id'', ''target_type'']), (''Tenant'', [''state'', ''version''])]"
  by (simp add: createAuditPolicy_def BUILT_IN_def allowlistable_def matches_field_def matches_head_tail_def is_lower_def is_field_char_def is_digit_def
      forbidden_fragment_def forbidden_word_def contains_text_def upt_rec less_eq_char_def less_char_def)

definition sample_full_deps :: audit_deps where
  "sample_full_deps = sample_deps\<lparr>ad_policy :=
     [(''AuditQuery'', [''action'', ''actor_id'', ''correlation_id'', ''result_count'', ''target_id'', ''target_type'']), (''Tenant'', [''state'', ''version''])]\<rparr>"

lemma sample_recorded:
  "recordForScope sample_full_deps appendAuditEvent sample_event_scope sample_audit_input (Some 5) ''aud_1'' [] = (Inr sample_sealed, [sample_sealed])"
proof -
  obtain t where t: "canonicalJson (audit_json sample_unsealed) 0 = Inr t" using sample_hash_defined by blast
  have "unsealed_event sample_full_deps sample_event_scope sample_audit_input ''aud_1'' 5 5 None
      (Some [(''state'', JString ''SUSPENDED''), (''version'', JNumber (Num 3))]) = sample_unsealed"
    by (simp add: unsealed_event_def sample_unsealed_def sample_event_scope_def sample_audit_input_def safe_reason_def trim_def is_space_def
        MAX_REASON_LENGTH_def sample_full_deps_def sample_deps_def)
  moreover have "toSafeSnapshot (ad_policy sample_full_deps) id ''Tenant'' (ai_after sample_audit_input) =
      Inr (Some [(''state'', JString ''SUSPENDED''), (''version'', JNumber (Num 3))])"
    by (simp add: toSafeSnapshot_def allowedFields_def sample_full_deps_def sample_audit_input_def safe_field_def js_finite_def)
  moreover have "matches_action ''tenant.suspended''"
    by (simp add: matches_action_def is_lower_def is_field_char_def is_digit_def less_eq_char_def)
  moreover have "ad_redact sample_full_deps = id" "ad_sha256 sample_full_deps = id" by (simp_all add: sample_full_deps_def sample_deps_def)
  moreover have "ai_targetType sample_audit_input = ''Tenant''" "ai_action sample_audit_input = ''tenant.suspended''" "ai_targetId sample_audit_input = ''t''"
      "ai_before sample_audit_input = None" "ai_occurredAt sample_audit_input = None"
    by (simp_all add: sample_audit_input_def)
  ultimately have "build_audit_event sample_full_deps sample_event_scope sample_audit_input (Some 5) ''aud_1'' = Inr sample_sealed"
    using t by (simp add: build_audit_event_def trim_def is_space_def computeEvidenceHash_def sample_sealed_def toSafeSnapshot_def [of _ _ _ None])
  then show ?thesis by (simp add: recordForScope_Inr_iff appendAuditEvent_def)
qed

theorem audit_record_trusted_and_minimal_witness:
  "recordForScope sample_full_deps appendAuditEvent sample_event_scope sample_audit_input (Some 5) ''aud_1'' [] = (Inr sample_sealed, [sample_sealed]) \<and>
   au_tenantId sample_sealed = ''t'' \<and> verifyAuditEvent id sample_sealed = Inr True"
proof -
  have "createAuditPolicy [(''Tenant'', [''version'', ''state''])] = Inr (ad_policy sample_full_deps)"
    using sample_policy by (simp add: sample_full_deps_def)
  from audit_record_trusted_and_minimal [OF this sample_recorded] sample_recorded show ?thesis
    by (simp add: sample_event_scope_def sample_full_deps_def sample_deps_def)
qed

theorem audit_reads_are_audited_witness:
  "fst (queryAudit sample_full_deps appendAuditEvent (\<lambda>_ _ _. returnT \<lparr>ap_events = [sample_sealed\<lparr>au_tenantId := ''other''\<rparr>], ap_nextCursor = None\<rparr>)
     (returnT ()) (Some (example_context ''t:1'')) \<lparr>aq_action = None, aq_targetType = None, aq_targetId = None, aq_actorId = None, aq_correlationId = None,
       aq_from = None, aq_to = None, aq_cursor = None, aq_limit = None\<rparr> (Some 5) ''aud_2'' []) \<noteq>
   Inr \<lparr>ap_events = [sample_sealed\<lparr>au_tenantId := ''other''\<rparr>], ap_nextCursor = None\<rparr>"
proof
  let ?q = "queryAudit sample_full_deps appendAuditEvent (\<lambda>_ _ _. returnT \<lparr>ap_events = [sample_sealed\<lparr>au_tenantId := ''other''\<rparr>], ap_nextCursor = None\<rparr>)
     (returnT ()) (Some (example_context ''t:1'')) \<lparr>aq_action = None, aq_targetType = None, aq_targetId = None, aq_actorId = None, aq_correlationId = None,
       aq_from = None, aq_to = None, aq_cursor = None, aq_limit = None\<rparr> (Some 5) ''aud_2'' []"
  assume "fst ?q = Inr \<lparr>ap_events = [sample_sealed\<lparr>au_tenantId := ''other''\<rparr>], ap_nextCursor = None\<rparr>"
  then obtain s' where "?q = (Inr \<lparr>ap_events = [sample_sealed\<lparr>au_tenantId := ''other''\<rparr>], ap_nextCursor = None\<rparr>, s')" by (metis prod.collapse)
  from audit_reads_are_audited [THEN conjunct1, rule_format, OF this] show False by (auto simp: example_context_def)
qed

end
