(* ===== verification/Outbox_Store.thy ===== *)
theory Outbox_Store
  imports Event_Envelope
begin

text \<open>
  \<open>platform/outbox\<close>: the queue store (\<open>infrastructure/postgres/store.ts\<close>, \<open>append.ts\<close>). A queue table is the
  list of its rows in \<open>entry_id\<close> order with the next identity value; the same store serves the outbox and,
  restricted to one consumer, the delivery table, whose finished status \<open>delivered\<close> is written
  \<open>published\<close> here. Each operation is one SQL statement and therefore atomic. Rows that concurrent
  statements hold locked are the argument \<open>locked\<close> of a lease (\<open>FOR UPDATE SKIP LOCKED\<close>). Trace contexts are
  not modelled.

  The lemmas give what each statement changes: ids stay strictly increasing, envelopes never change,
  finished entries stay finished, a lease is granted only to the head of a stream and to at most one
  entry of each stream.
\<close>

section \<open>Model\<close>

datatype outbox_status = pending | leased | published | dead | skipped

datatype dead_letter_action = requeue | skip

record dead_letter_resolution =
  dl_action :: dead_letter_action
  dl_operatorId :: string
  dl_reason :: string
  dl_resolvedAt :: instant

record outbox_entry =
  oe_id :: nat
  oe_consumer :: "string option"
  oe_envelope :: event_envelope
  oe_status :: outbox_status
  oe_attempts :: nat
  oe_nextAttemptAt :: instant
  oe_appendedAt :: instant
  oe_leasedBy :: "string option"
  oe_leaseExpiresAt :: "instant option"
  oe_lastError :: "string option"
  oe_publishedAt :: "instant option"
  oe_resolution :: "dead_letter_resolution option"

record queue_table =
  q_entries :: "outbox_entry list"
  q_next :: nat

type_synonym queue_selector = "string option"

definition in_queue :: "queue_selector \<Rightarrow> outbox_entry \<Rightarrow> bool" where
  "in_queue queue e \<longleftrightarrow> (case queue of None \<Rightarrow> True | Some consumer \<Rightarrow> oe_consumer e = Some consumer)"

type_synonym stream_key = "string option \<times> string \<times> string \<times> string"

definition stream_of :: "outbox_entry \<Rightarrow> stream_key" where
  "stream_of e = (oe_consumer e, ev_tenant_id (oe_envelope e), ev_aggregate_type (oe_envelope e), ev_aggregate_id (oe_envelope e))"

definition new_entry :: "nat \<Rightarrow> string option \<Rightarrow> event_envelope \<Rightarrow> instant \<Rightarrow> outbox_entry" where
  "new_entry i consumer env now =
     \<lparr>oe_id = i, oe_consumer = consumer, oe_envelope = env, oe_status = pending, oe_attempts = 0, oe_nextAttemptAt = now,
      oe_appendedAt = now, oe_leasedBy = None, oe_leaseExpiresAt = None, oe_lastError = None, oe_publishedAt = None,
      oe_resolution = None\<rparr>"

text \<open>The insert: (tenant, event id) is unique.\<close>

definition appendOutboxEvent :: "event_envelope \<Rightarrow> (queue_table, unit) tx" where
  "appendOutboxEvent env t =
     (if list_ex (\<lambda>e. ev_tenant_id (oe_envelope e) = ev_tenant_id env \<and> ev_id (oe_envelope e) = ev_id env) (q_entries t)
      then (Inl Error, t)
      else (Inr (), t\<lparr>q_entries := q_entries t @ [new_entry (q_next t) None env (ev_recorded_at env)], q_next := q_next t + 1\<rparr>))"

definition finished :: "outbox_entry \<Rightarrow> bool" where
  "finished e \<longleftrightarrow> oe_status e = published \<or> oe_status e = skipped"

definition due :: "instant \<Rightarrow> outbox_entry \<Rightarrow> bool" where
  "due now e \<longleftrightarrow> (oe_status e = pending \<and> oe_nextAttemptAt e \<le> now) \<or>
     (oe_status e = leased \<and> (case oe_leaseExpiresAt e of None \<Rightarrow> False | Some t \<Rightarrow> t \<le> now))"

definition is_head :: "outbox_entry list \<Rightarrow> outbox_entry \<Rightarrow> bool" where
  "is_head es e \<longleftrightarrow> \<not> list_ex (\<lambda>earlier. stream_of earlier = stream_of e \<and> oe_id earlier < oe_id e \<and> \<not> finished earlier) es"

definition candidates :: "queue_selector \<Rightarrow> instant \<Rightarrow> nat set \<Rightarrow> outbox_entry list \<Rightarrow> outbox_entry list" where
  "candidates queue now locked es =
     sort_key oe_id (filter (\<lambda>e. due now e \<and> in_queue queue e \<and> is_head es e \<and> oe_id e \<notin> locked) es)"

record lease_request =
  lr_workerId :: string
  lr_now :: instant
  lr_leaseSeconds :: int
  lr_limit :: int

definition lease_entry :: "lease_request \<Rightarrow> outbox_entry \<Rightarrow> outbox_entry" where
  "lease_entry request e = e\<lparr>oe_status := leased, oe_attempts := oe_attempts e + 1, oe_leasedBy := Some (lr_workerId request),
     oe_leaseExpiresAt := Some (lr_now request + lr_leaseSeconds request * 1000)\<rparr>"

definition leaseBatch :: "queue_selector \<Rightarrow> lease_request \<Rightarrow> nat set \<Rightarrow> queue_table \<Rightarrow> outbox_entry list \<times> queue_table" where
  "leaseBatch queue request locked t =
     (if lr_limit request < 1 then ([], t)
      else let ids = set (map oe_id (take (nat (lr_limit request)) (candidates queue (lr_now request) locked (q_entries t))));
               es = map (\<lambda>e. if oe_id e \<in> ids then lease_entry request e else e) (q_entries t)
           in (sort_key oe_id (filter (\<lambda>e. oe_id e \<in> ids) es), t\<lparr>q_entries := es\<rparr>))"

text \<open>\<open>ENTRY_ID_PATTERN\<close>, and an UPDATE with the number of rows it changed.\<close>

definition entry_id_ok :: "nat \<Rightarrow> bool" where
  "entry_id_ok i \<longleftrightarrow> 1 \<le> i \<and> i < 10 ^ 19"

definition update_rows :: "(outbox_entry \<Rightarrow> bool) \<Rightarrow> (outbox_entry \<Rightarrow> outbox_entry) \<Rightarrow> queue_table \<Rightarrow> nat \<times> queue_table" where
  "update_rows p f t = (length (filter p (q_entries t)), t\<lparr>q_entries := map (\<lambda>e. if p e then f e else e) (q_entries t)\<rparr>)"

definition holds_lease :: "queue_selector \<Rightarrow> nat \<Rightarrow> string \<Rightarrow> outbox_entry \<Rightarrow> bool" where
  "holds_lease queue entryId workerId e \<longleftrightarrow>
     oe_id e = entryId \<and> oe_status e = leased \<and> oe_leasedBy e = Some workerId \<and> in_queue queue e"

definition markPublished :: "queue_selector \<Rightarrow> nat \<Rightarrow> string \<Rightarrow> instant \<Rightarrow> queue_table \<Rightarrow> bool \<times> queue_table" where
  "markPublished queue entryId workerId now t =
     (if \<not> entry_id_ok entryId then (False, t)
      else let (rowCount, t') = update_rows (holds_lease queue entryId workerId)
             (\<lambda>e. e\<lparr>oe_status := published, oe_publishedAt := Some now, oe_leasedBy := None, oe_leaseExpiresAt := None\<rparr>) t
           in (rowCount = 1, t'))"

definition MAX_ERROR_LENGTH :: nat where "MAX_ERROR_LENGTH = 2000"

definition fail_entry :: "string \<Rightarrow> instant option \<Rightarrow> outbox_entry \<Rightarrow> outbox_entry" where
  "fail_entry error retryAt e =
     e\<lparr>oe_status := (if retryAt = None then dead else pending),
       oe_nextAttemptAt := (case retryAt of None \<Rightarrow> oe_nextAttemptAt e | Some t \<Rightarrow> t),
       oe_lastError := Some (take MAX_ERROR_LENGTH error), oe_leasedBy := None, oe_leaseExpiresAt := None\<rparr>"

definition recordFailure :: "queue_selector \<Rightarrow> nat \<Rightarrow> string \<Rightarrow> string \<Rightarrow> instant option \<Rightarrow> queue_table \<Rightarrow> bool \<times> queue_table" where
  "recordFailure queue entryId workerId error retryAt t =
     (if \<not> entry_id_ok entryId then (False, t)
      else let (rowCount, t') = update_rows (holds_lease queue entryId workerId) (fail_entry error retryAt) t
           in (rowCount = 1, t'))"

record dead_letter_info =
  di_entryId :: nat
  di_tenantId :: string
  di_eventId :: string
  di_eventType :: string
  di_aggregateType :: string
  di_aggregateId :: string

definition resolve_entry :: "dead_letter_action \<Rightarrow> dead_letter_resolution \<Rightarrow> instant \<Rightarrow> outbox_entry \<Rightarrow> outbox_entry" where
  "resolve_entry action resolution now e =
     e\<lparr>oe_status := (if action = skip then skipped else pending),
       oe_attempts := (if action = skip then oe_attempts e else 0),
       oe_nextAttemptAt := (if action = skip then oe_nextAttemptAt e else now),
       oe_resolution := Some resolution\<rparr>"

definition info_of :: "outbox_entry \<Rightarrow> dead_letter_info res" where
  "info_of e = bindR (tenantId (ev_tenant_id (oe_envelope e))) (\<lambda>t. Inr
     \<lparr>di_entryId = oe_id e, di_tenantId = t, di_eventId = ev_id (oe_envelope e), di_eventType = ev_type (oe_envelope e),
      di_aggregateType = ev_aggregate_type (oe_envelope e), di_aggregateId = ev_aggregate_id (oe_envelope e)\<rparr>)"

definition resolveDeadLetterWith :: "queue_selector \<Rightarrow> nat \<Rightarrow> dead_letter_action \<Rightarrow> string \<Rightarrow> string \<Rightarrow> instant \<Rightarrow> (queue_table, dead_letter_info option) tx" where
  "resolveDeadLetterWith queue entryId action operatorId reason now t =
     (if \<not> entry_id_ok entryId then (Inr None, t)
      else let p = (\<lambda>e. oe_id e = entryId \<and> oe_status e = dead \<and> in_queue queue e);
               resolution = \<lparr>dl_action = action, dl_operatorId = operatorId, dl_reason = reason, dl_resolvedAt = now\<rparr>;
               (rowCount, t') = update_rows p (resolve_entry action resolution now) t
           in if rowCount \<noteq> 1 then (Inr None, t')
              else bindT (liftT (info_of (hd (filter p (q_entries t))))) (\<lambda>info. returnT (Some info)) t')"

record outbox_stats =
  os_pending :: nat
  os_leased :: nat
  os_deadLetter :: nat
  os_blockedStreams :: nat
  os_oldestDead :: "instant option"
  os_oldestUnpublished :: "instant option"

text \<open>Ages are reported as the instant of the oldest entry; the store subtracts it from \<open>now\<close>.\<close>

definition oldest :: "outbox_entry list \<Rightarrow> instant option" where
  "oldest es = (if es = [] then None else Some (Min (set (map oe_appendedAt es))))"

definition stats :: "queue_selector \<Rightarrow> queue_table \<Rightarrow> outbox_stats" where
  "stats queue t =
     (let open_entries = filter (\<lambda>e. \<not> finished e \<and> in_queue queue e) (q_entries t);
          deads = filter (\<lambda>e. oe_status e = dead) open_entries
      in \<lparr>os_pending = length (filter (\<lambda>e. oe_status e = pending) open_entries),
          os_leased = length (filter (\<lambda>e. oe_status e = leased) open_entries),
          os_deadLetter = length deads,
          os_blockedStreams = card (set (map (\<lambda>e. (ev_tenant_id (oe_envelope e), ev_aggregate_type (oe_envelope e), ev_aggregate_id (oe_envelope e))) deads)),
          os_oldestDead = oldest deads, os_oldestUnpublished = oldest open_entries\<rparr>)"

section \<open>What the statements preserve\<close>

text \<open>Every statement changes rows in place; ids, envelopes and consumers stay, and what is finished
  stays so.\<close>

definition same_row :: "outbox_entry \<Rightarrow> outbox_entry \<Rightarrow> bool" where
  "same_row e e' \<longleftrightarrow> oe_id e' = oe_id e \<and> oe_envelope e' = oe_envelope e \<and> oe_consumer e' = oe_consumer e \<and>
     (finished e \<longrightarrow> oe_status e' = oe_status e)"

definition evolves :: "queue_table \<Rightarrow> queue_table \<Rightarrow> bool" where
  "evolves t t' \<longleftrightarrow> list_all2 same_row (q_entries t) (q_entries t') \<and> q_next t' = q_next t"

definition wf_queue :: "queue_table \<Rightarrow> bool" where
  "wf_queue t \<longleftrightarrow> sorted_wrt (<) (map oe_id (q_entries t)) \<and> (\<forall>e\<in>set (q_entries t). 1 \<le> oe_id e \<and> oe_id e < q_next t) \<and> 1 \<le> q_next t"

lemma same_row_refl [simp]: "same_row e e"
  by (simp add: same_row_def)

lemma evolves_refl [simp]: "evolves t t"
  by (simp add: evolves_def list_all2_refl)

lemma evolves_update_rows:
  "(\<And>e. p e \<Longrightarrow> same_row e (f e)) \<Longrightarrow> evolves t (snd (update_rows p f t))"
  by (auto simp: evolves_def update_rows_def list_all2_map2 list_all2_same)

lemma evolves_markPublished: "evolves t (snd (markPublished queue i w now t))"
  unfolding markPublished_def
  by (simp add: split_beta) (auto intro: evolves_update_rows simp: same_row_def holds_lease_def finished_def)

lemma evolves_recordFailure: "evolves t (snd (recordFailure queue i w err retryAt t))"
  unfolding recordFailure_def
  by (simp add: split_beta) (auto intro: evolves_update_rows simp: same_row_def holds_lease_def finished_def fail_entry_def)

lemma evolves_resolve: "evolves t (snd (resolveDeadLetterWith queue i action operator reason now t))"
proof -
  have "evolves t (snd (update_rows (\<lambda>e. oe_id e = i \<and> oe_status e = dead \<and> in_queue queue e) (resolve_entry action r now) t))" for r
    by (rule evolves_update_rows) (auto simp: same_row_def finished_def resolve_entry_def)
  then show ?thesis
    by (simp add: resolveDeadLetterWith_def Let_def split_beta bindT_def liftT_def returnT_def split: sum.splits)
qed

lemma due_not_finished: "due now e \<Longrightarrow> \<not> finished e"
  by (auto simp: due_def finished_def)

lemma set_candidates: "set (candidates queue now locked es) = {e \<in> set es. due now e \<and> in_queue queue e \<and> is_head es e \<and> oe_id e \<notin> locked}"
  by (auto simp: candidates_def)

lemma sorted_ids_distinct: "sorted_wrt (<) (map oe_id es) \<Longrightarrow> distinct (map oe_id es)"
  by (simp add: strict_sorted_iff)

lemma same_id_same_entry:
  "wf_queue t \<Longrightarrow> e \<in> set (q_entries t) \<Longrightarrow> e' \<in> set (q_entries t) \<Longrightarrow> oe_id e = oe_id e' \<Longrightarrow> e = e'"
  using sorted_ids_distinct [of "q_entries t"] by (auto simp: wf_queue_def distinct_map inj_on_def)

definition leased_ids :: "queue_selector \<Rightarrow> lease_request \<Rightarrow> nat set \<Rightarrow> queue_table \<Rightarrow> nat set" where
  "leased_ids queue request locked t =
     set (map oe_id (take (nat (lr_limit request)) (candidates queue (lr_now request) locked (q_entries t))))"

lemma leased_ids_candidate:
  assumes "wf_queue t" "e \<in> set (q_entries t)" "oe_id e \<in> leased_ids queue request locked t"
  shows "e \<in> set (candidates queue (lr_now request) locked (q_entries t))"
proof -
  obtain c where "c \<in> set (candidates queue (lr_now request) locked (q_entries t))" "oe_id c = oe_id e"
    using assms(3) by (auto simp: leased_ids_def dest: in_set_takeD)
  moreover from this have "c \<in> set (q_entries t)" by (simp add: set_candidates)
  ultimately show ?thesis using same_id_same_entry [OF assms(1,2)] by metis
qed

lemma leaseBatch_eq:
  "leaseBatch queue request locked t =
     (if lr_limit request < 1 then ([], t)
      else let es = map (\<lambda>e. if oe_id e \<in> leased_ids queue request locked t then lease_entry request e else e) (q_entries t)
           in (sort_key oe_id (filter (\<lambda>e. oe_id e \<in> leased_ids queue request locked t) es), t\<lparr>q_entries := es\<rparr>))"
  by (simp add: leaseBatch_def leased_ids_def Let_def)

lemma evolves_leaseBatch:
  assumes "wf_queue t" shows "evolves t (snd (leaseBatch queue request locked t))"
proof -
  have "same_row e (lease_entry request e)" if "e \<in> set (q_entries t)" "oe_id e \<in> leased_ids queue request locked t" for e
    using leased_ids_candidate [OF assms that] by (auto simp: set_candidates same_row_def lease_entry_def dest: due_not_finished)
  then show ?thesis
    by (auto simp: leaseBatch_eq Let_def evolves_def list_all2_map2 list_all2_same)
qed

text \<open>The granted entries are rows of the new table, leased to the worker, each the head of its stream;
  no two of them belong to the same stream.\<close>

lemma leaseBatch_granted:
  assumes "wf_queue t" "e \<in> set (fst (leaseBatch queue request locked t))"
  obtains e0 where "e0 \<in> set (q_entries t)" "e = lease_entry request e0" "due (lr_now request) e0" "in_queue queue e0"
    "is_head (q_entries t) e0" "oe_id e0 \<notin> locked" "e \<in> set (q_entries (snd (leaseBatch queue request locked t)))"
proof -
  have pos: "\<not> lr_limit request < 1" using assms(2) by (auto simp: leaseBatch_eq)
  then obtain e0 where e0: "e0 \<in> set (q_entries t)" "oe_id e0 \<in> leased_ids queue request locked t" "e = lease_entry request e0"
    using assms(2) by (auto simp: leaseBatch_eq Let_def lease_entry_def split: if_splits)
  have "e \<in> set (q_entries (snd (leaseBatch queue request locked t)))" using pos e0 by (auto simp: leaseBatch_eq Let_def)
  then show ?thesis
    using that [of e0] leased_ids_candidate [OF assms(1) e0(1,2)] e0 by (auto simp: set_candidates)
qed

lemma lease_entry_sel [simp]:
  "oe_id (lease_entry request e) = oe_id e" "oe_envelope (lease_entry request e) = oe_envelope e" "oe_consumer (lease_entry request e) = oe_consumer e"
  "oe_attempts (lease_entry request e) = oe_attempts e + 1" "oe_status (lease_entry request e) = leased"
  "stream_of (lease_entry request e) = stream_of e" "oe_leasedBy (lease_entry request e) = Some (lr_workerId request)"
  by (simp_all add: lease_entry_def stream_of_def)

lemma leaseBatch_one_per_stream:
  assumes wf: "wf_queue t" and e: "e \<in> set (fst (leaseBatch queue request locked t))" "e' \<in> set (fst (leaseBatch queue request locked t))"
    and "stream_of e = stream_of e'"
  shows "oe_id e = oe_id e'"
proof -
  obtain a where a: "a \<in> set (q_entries t)" "e = lease_entry request a" "due (lr_now request) a" "is_head (q_entries t) a"
    using leaseBatch_granted [OF wf e(1)] by metis
  obtain b where b: "b \<in> set (q_entries t)" "e' = lease_entry request b" "due (lr_now request) b" "is_head (q_entries t) b"
    using leaseBatch_granted [OF wf e(2)] by metis
  have "\<not> oe_id a < oe_id b" "\<not> oe_id b < oe_id a"
    using a b assms(4) due_not_finished by (auto simp: is_head_def list_ex_iff)
  then show ?thesis using a(2) b(2) by simp
qed

lemma evolves_row:
  assumes "evolves t t'" "e' \<in> set (q_entries t')"
  obtains e where "e \<in> set (q_entries t)" "same_row e e'"
  using assms unfolding evolves_def by (metis in_set_conv_nth list_all2_conv_all_nth)

lemma evolves_row':
  assumes "evolves t t'" "e \<in> set (q_entries t)"
  obtains e' where "e' \<in> set (q_entries t')" "same_row e e'"
  using assms unfolding evolves_def by (metis in_set_conv_nth list_all2_conv_all_nth)

lemma evolves_ids: "evolves t t' \<Longrightarrow> map oe_id (q_entries t') = map oe_id (q_entries t)"
  unfolding evolves_def by (auto simp: list_all2_conv_all_nth same_row_def intro!: nth_equalityI)

lemma wf_evolves: "wf_queue t \<Longrightarrow> evolves t t' \<Longrightarrow> wf_queue t'"
proof -
  assume wf: "wf_queue t" and ev: "evolves t t'"
  have "set (map oe_id (q_entries t')) = set (map oe_id (q_entries t))" using evolves_ids [OF ev] by metis
  then have "\<forall>e\<in>set (q_entries t'). 1 \<le> oe_id e \<and> oe_id e < q_next t'"
    using wf ev unfolding wf_queue_def evolves_def by (metis (no_types, lifting) image_iff list.set_map)
  then show ?thesis using wf ev evolves_ids [OF ev] by (simp add: wf_queue_def evolves_def)
qed

lemma wf_append: "wf_queue t \<Longrightarrow> wf_queue (snd (appendOutboxEvent env t))"
  by (auto simp: appendOutboxEvent_def wf_queue_def new_entry_def sorted_wrt_append)

lemma stream_same_row: "same_row e e' \<Longrightarrow> stream_of e' = stream_of e"
  by (simp add: same_row_def stream_of_def)

end
