(* ===== verification/Outbox_Relay.thy ===== *)
theory Outbox_Relay
  imports Outbox_Store
begin

text \<open>
  \<open>platform/outbox/src/dispatcher.ts\<close> and \<open>delivery.ts\<close>: dispatch passes. A pass leases a batch, hands each
  entry over and records the outcome. The publisher is an argument; a pass reads the clock once to lease
  and once per entry, so its readings are a function of the position in the batch.

  Workers run concurrently: the relay is a step relation in which producers append, workers lease, hand
  over, record outcomes or crash at any point, and operators resolve dead letters, in any interleaving.
  Its worker steps are the functions of the dispatcher between two awaits, \<open>leaseBatch\<close>, \<open>hand_over\<close> and
  \<open>record_outcome\<close>, and the calls of the publisher are recorded around the publisher itself. The lemmas show
  that \<open>runOnce\<close> is a run of this relation, that the calls respect the order of each stream, and that
  an entry is published only if a call of the publisher for it has returned.
\<close>

section \<open>Model: the dispatcher\<close>

record dispatch_report =
  rp_leased :: nat
  rp_published :: nat
  rp_retried :: nat
  rp_deadLettered :: nat
  rp_leaseLost :: nat

record dispatcher =
  dp_workerId :: string
  dp_queue :: queue_selector
  dp_leaseSeconds :: int
  dp_batchSize :: int
  dp_maxAttempts :: nat
  dp_retryDelaySeconds :: "nat \<Rightarrow> int"

definition defaultRetryDelaySeconds :: "nat \<Rightarrow> int" where
  "defaultRetryDelaySeconds failedAttempt = min (5 * 2 ^ (failedAttempt - 1)) 900"

definition default_dispatcher :: "string \<Rightarrow> queue_selector \<Rightarrow> dispatcher" where
  "default_dispatcher workerId queue =
     \<lparr>dp_workerId = workerId, dp_queue = queue, dp_leaseSeconds = 60, dp_batchSize = 50, dp_maxAttempts = 8,
      dp_retryDelaySeconds = defaultRetryDelaySeconds\<rparr>"

text \<open>\<open>safeError\<close>; the redaction of messages is an argument.\<close>

definition safeError :: "(string \<Rightarrow> string) \<Rightarrow> (err \<Rightarrow> string option) \<Rightarrow> err \<Rightarrow> string" where
  "safeError redact messageOf e = redact (case messageOf e of Some m \<Rightarrow> m | None \<Rightarrow> ''non-error failure'')"

definition retry_at :: "dispatcher \<Rightarrow> nat \<Rightarrow> instant \<Rightarrow> instant option" where
  "retry_at d attempts now =
     (if attempts \<ge> dp_maxAttempts d then None else Some (now + dp_retryDelaySeconds d attempts * 1000))"

definition lease_request_of :: "dispatcher \<Rightarrow> instant \<Rightarrow> lease_request" where
  "lease_request_of d now = \<lparr>lr_workerId = dp_workerId d, lr_now = now, lr_leaseSeconds = dp_leaseSeconds d, lr_limit = dp_batchSize d\<rparr>"

text \<open>
  One entry of the batch, in the two parts the loop awaits: the hand-over, unless the entry was leased too often, with what came
  of it; then the record of the outcome in the store, with the new counters.
\<close>

datatype verdict = hand_exceeded | hand_refused err | hand_accepted

definition hand_over :: "dispatcher \<Rightarrow> (event_envelope \<Rightarrow> ('p, unit) tx) \<Rightarrow> outbox_entry \<Rightarrow> 'p \<Rightarrow> verdict \<times> 'p" where
  "hand_over d publish entry w =
     (if oe_attempts entry > dp_maxAttempts d then (hand_exceeded, w)
      else case publish (oe_envelope entry) w of (Inl e, w') \<Rightarrow> (hand_refused e, w') | (Inr _, w') \<Rightarrow> (hand_accepted, w'))"

definition record_outcome :: "dispatcher \<Rightarrow> (err \<Rightarrow> string) \<Rightarrow> instant \<Rightarrow> outbox_entry \<Rightarrow> verdict \<Rightarrow>
    dispatch_report \<times> queue_table \<Rightarrow> dispatch_report \<times> queue_table" where
  "record_outcome d errorText now entry v = (\<lambda>(report, t). case v of
     hand_exceeded \<Rightarrow>
       (let (ok, t') = recordFailure (dp_queue d) (oe_id entry) (dp_workerId d) ''Exceeded maximum delivery attempts.'' None t in
        (if ok then report\<lparr>rp_deadLettered := rp_deadLettered report + 1\<rparr> else report\<lparr>rp_leaseLost := rp_leaseLost report + 1\<rparr>, t'))
   | hand_refused e \<Rightarrow>
       (let exhausted = oe_attempts entry \<ge> dp_maxAttempts d;
            (ok, t') = recordFailure (dp_queue d) (oe_id entry) (dp_workerId d) (errorText e) (retry_at d (oe_attempts entry) now) t in
        (if \<not> ok then report\<lparr>rp_leaseLost := rp_leaseLost report + 1\<rparr>
         else if exhausted then report\<lparr>rp_deadLettered := rp_deadLettered report + 1\<rparr>
         else report\<lparr>rp_retried := rp_retried report + 1\<rparr>, t'))
   | hand_accepted \<Rightarrow>
       (let (ok, t') = markPublished (dp_queue d) (oe_id entry) (dp_workerId d) now t in
        (if ok then report\<lparr>rp_published := rp_published report + 1\<rparr> else report\<lparr>rp_leaseLost := rp_leaseLost report + 1\<rparr>, t')))"

definition dispatch_entry :: "dispatcher \<Rightarrow> (err \<Rightarrow> string) \<Rightarrow> (event_envelope \<Rightarrow> ('p, unit) tx) \<Rightarrow> instant \<Rightarrow> outbox_entry \<Rightarrow>
    dispatch_report \<times> queue_table \<times> 'p \<Rightarrow> dispatch_report \<times> queue_table \<times> 'p" where
  "dispatch_entry d errorText publish now entry = (\<lambda>(report, t, w).
     let (v, w') = hand_over d publish entry w; (report', t') = record_outcome d errorText now entry v (report, t) in (report', t', w'))"

fun dispatch_loop :: "dispatcher \<Rightarrow> (err \<Rightarrow> string) \<Rightarrow> (event_envelope \<Rightarrow> ('p, unit) tx) \<Rightarrow> (nat \<Rightarrow> instant) \<Rightarrow> nat \<Rightarrow> outbox_entry list \<Rightarrow>
    dispatch_report \<times> queue_table \<times> 'p \<Rightarrow> dispatch_report \<times> queue_table \<times> 'p" where
  "dispatch_loop d errorText publish clock i [] s = s"
| "dispatch_loop d errorText publish clock i (entry # entries) s =
     dispatch_loop d errorText publish clock (Suc i) entries (dispatch_entry d errorText publish (clock i) entry s)"

definition runOnce :: "dispatcher \<Rightarrow> (err \<Rightarrow> string) \<Rightarrow> (event_envelope \<Rightarrow> ('p, unit) tx) \<Rightarrow> instant \<Rightarrow> (nat \<Rightarrow> instant) \<Rightarrow> nat set \<Rightarrow>
    queue_table \<times> 'p \<Rightarrow> dispatch_report \<times> queue_table \<times> 'p" where
  "runOnce d errorText publish leaseNow clock locked = (\<lambda>(t, w).
     let (entries, t') = leaseBatch (dp_queue d) (lease_request_of d leaseNow) locked t in
     dispatch_loop d errorText publish clock 0 entries
       (\<lparr>rp_leased = length entries, rp_published = 0, rp_retried = 0, rp_deadLettered = 0, rp_leaseLost = 0\<rparr>, t', w))"

text \<open>A consumer's delivery worker is the dispatcher on its queue with the consumer as the publisher.\<close>

definition createDeliveryWorker :: "string \<Rightarrow> string \<Rightarrow> (err \<Rightarrow> string) \<Rightarrow> (event_envelope \<Rightarrow> ('p, 'r) tx) \<Rightarrow> instant \<Rightarrow> (nat \<Rightarrow> instant) \<Rightarrow> nat set \<Rightarrow>
    queue_table \<times> 'p \<Rightarrow> dispatch_report \<times> queue_table \<times> 'p" where
  "createDeliveryWorker workerId consumer errorText consume =
     runOnce (default_dispatcher workerId (Some consumer)) errorText (\<lambda>env. bindT (consume env) (\<lambda>_. returnT ()))"

section \<open>The relay as a step relation\<close>

text \<open>
  A publisher that keeps a record of its calls: for each, the entry it was made for, the envelope, and whether it returned.
  \<open>observed_publish\<close> is the record without the entries, which a publisher does not see.
\<close>

type_synonym calls = "(nat \<times> event_envelope \<times> bool) list"

definition recorded_publish :: "nat \<Rightarrow> (event_envelope \<Rightarrow> ('p, unit) tx) \<Rightarrow> event_envelope \<Rightarrow> (calls \<times> 'p, unit) tx" where
  "recorded_publish i publish env = (\<lambda>(calls, p). case publish env p of (r, p') \<Rightarrow> (r, (calls @ [(i, env, r = Inr ())], p')))"

definition observed_publish :: "(event_envelope \<Rightarrow> ('p, unit) tx) \<Rightarrow> event_envelope \<Rightarrow> ((event_envelope \<times> bool) list \<times> 'p, unit) tx" where
  "observed_publish publish env = (\<lambda>(calls, p). case publish env p of (r, p') \<Rightarrow> (r, (calls @ [(env, r = Inr ())], p')))"

text \<open>\<open>r_calls\<close> lists the calls of the publisher, oldest first, and \<open>r_pub\<close> is its own state; \<open>r_held\<close> is the rest of the batch in
  each worker's hands, and \<open>r_verdict\<close> what came of a hand-over whose outcome is not yet recorded. A call that fails may
  have changed the publisher's state.\<close>

record 'p relay =
  r_table :: queue_table
  r_calls :: calls
  r_pub :: 'p
  r_held :: "string \<Rightarrow> outbox_entry list"
  r_verdict :: "string \<Rightarrow> verdict option"

inductive relay_step :: "queue_selector \<Rightarrow> (event_envelope \<Rightarrow> ('p, unit) tx) \<Rightarrow> 'p relay \<Rightarrow> 'p relay \<Rightarrow> bool" for queue publish where
  relay_append: "appendOutboxEvent env (r_table s) = (Inr (), t) \<Longrightarrow> relay_step queue publish s (s\<lparr>r_table := t\<rparr>)"
| relay_lease: "dp_queue d = queue \<Longrightarrow> r_held s (dp_workerId d) = [] \<Longrightarrow> r_verdict s (dp_workerId d) = None \<Longrightarrow>
    leaseBatch queue (lease_request_of d now) locked (r_table s) = (entries, t) \<Longrightarrow>
    relay_step queue publish s (s\<lparr>r_table := t, r_held := (r_held s)(dp_workerId d := entries)\<rparr>)"
| relay_hand_over: "r_held s (dp_workerId d) = e # rest \<Longrightarrow> r_verdict s (dp_workerId d) = None \<Longrightarrow>
    hand_over d (recorded_publish (oe_id e) publish) e (r_calls s, r_pub s) = (v, (calls, p)) \<Longrightarrow>
    relay_step queue publish s (s\<lparr>r_calls := calls, r_pub := p, r_verdict := (r_verdict s)(dp_workerId d \<mapsto> v)\<rparr>)"
| relay_record: "dp_queue d = queue \<Longrightarrow> r_held s (dp_workerId d) = e # rest \<Longrightarrow> r_verdict s (dp_workerId d) = Some v \<Longrightarrow>
    record_outcome d errorText now e v (rep, r_table s) = (rep', t) \<Longrightarrow>
    relay_step queue publish s (s\<lparr>r_table := t, r_held := (r_held s)(dp_workerId d := rest), r_verdict := (r_verdict s)(dp_workerId d := None)\<rparr>)"
| relay_crash: "relay_step queue publish s (s\<lparr>r_held := (r_held s)(w := []), r_verdict := (r_verdict s)(w := None)\<rparr>)"
| relay_resolve: "resolveDeadLetterWith queue i action operator reason now (r_table s) = (r, t) \<Longrightarrow>
    relay_step queue publish s (s\<lparr>r_table := t\<rparr>)"

definition relay_start :: "queue_table \<Rightarrow> 'p \<Rightarrow> 'p relay" where
  "relay_start t p = \<lparr>r_table = t, r_calls = [], r_pub = p, r_held = (\<lambda>_. []), r_verdict = (\<lambda>_. None)\<rparr>"

text \<open>The invariant: a call for each published row has returned; whatever a worker holds is the event of a row, and everything
  before it in its stream is finished; an accepted hand-over is a call that returned; and every call came after
  successful calls for the earlier entries of its stream, unless an operator skipped them.\<close>

definition was_sent :: "calls \<Rightarrow> outbox_entry \<Rightarrow> bool" where
  "was_sent calls e \<longleftrightarrow> (oe_id e, oe_envelope e, True) \<in> set calls"

definition behind_finished :: "queue_table \<Rightarrow> nat \<Rightarrow> event_envelope \<Rightarrow> bool" where
  "behind_finished t i env \<longleftrightarrow> (\<exists>e\<in>set (q_entries t). oe_id e = i \<and> oe_envelope e = env \<and>
     (\<forall>e'\<in>set (q_entries t). stream_of e' = stream_of e \<longrightarrow> oe_id e' < i \<longrightarrow> finished e'))"

definition call_ordered :: "queue_table \<Rightarrow> calls \<Rightarrow> nat \<Rightarrow> event_envelope \<Rightarrow> bool" where
  "call_ordered t before i env \<longleftrightarrow> (\<exists>e\<in>set (q_entries t). oe_id e = i \<and> oe_envelope e = env \<and>
     (\<forall>e'\<in>set (q_entries t). stream_of e' = stream_of e \<longrightarrow> oe_id e' < i \<longrightarrow> was_sent before e' \<or> oe_status e' = skipped))"

definition log_ordered :: "queue_table \<Rightarrow> calls \<Rightarrow> bool" where
  "log_ordered t calls \<longleftrightarrow> (\<forall>n<length calls. call_ordered t (take n calls) (fst (calls ! n)) (fst (snd (calls ! n))))"

definition relay_inv :: "'p relay \<Rightarrow> bool" where
  "relay_inv s \<longleftrightarrow> wf_queue (r_table s) \<and>
     (\<forall>e\<in>set (q_entries (r_table s)). oe_status e = published \<longrightarrow> was_sent (r_calls s) e) \<and>
     (\<forall>w. \<forall>e\<in>set (r_held s w). behind_finished (r_table s) (oe_id e) (oe_envelope e)) \<and>
     (\<forall>w. r_verdict s w = Some hand_accepted \<longrightarrow> r_held s w \<noteq> [] \<and> was_sent (r_calls s) (hd (r_held s w))) \<and>
     log_ordered (r_table s) (r_calls s)"

section \<open>Every step keeps the invariant\<close>

lemma earlier_row_evolves:
  assumes "evolves t t'" "same_row e e'" "x' \<in> set (q_entries t')" "stream_of x' = stream_of e'" "oe_id x' < oe_id e'"
  obtains x where "x \<in> set (q_entries t)" "same_row x x'" "stream_of x = stream_of e" "oe_id x < oe_id e"
proof -
  obtain x where x: "x \<in> set (q_entries t)" "same_row x x'" using evolves_row [OF assms(1,3)] .
  moreover have "stream_of x = stream_of e" using stream_same_row [OF x(2)] stream_same_row [OF assms(2)] assms(4) by simp
  moreover have "oe_id x < oe_id e" using x(2) assms(2,5) by (simp add: same_row_def)
  ultimately show thesis by (rule that)
qed

lemma same_row_keeps:
  "same_row x x' \<Longrightarrow> finished x \<Longrightarrow> finished x'"
  "same_row x x' \<Longrightarrow> was_sent calls x \<Longrightarrow> was_sent calls x'"
  "same_row x x' \<Longrightarrow> oe_status x = skipped \<Longrightarrow> oe_status x' = skipped"
  by (auto simp: same_row_def finished_def was_sent_def)

lemma behind_finished_evolves:
  assumes "evolves t t'" "behind_finished t i env" shows "behind_finished t' i env"
proof -
  obtain e where e: "e \<in> set (q_entries t)" "oe_id e = i" "oe_envelope e = env"
    "\<And>x. x \<in> set (q_entries t) \<Longrightarrow> stream_of x = stream_of e \<Longrightarrow> oe_id x < i \<Longrightarrow> finished x"
    using assms(2) by (auto simp: behind_finished_def)
  obtain e' where e': "e' \<in> set (q_entries t')" "same_row e e'" using evolves_row' [OF assms(1) e(1)] .
  then have i: "oe_id e' = i" "oe_envelope e' = env" using e(2,3) by (simp_all add: same_row_def)
  have "finished x'" if "x' \<in> set (q_entries t')" "stream_of x' = stream_of e'" "oe_id x' < i" for x'
    using earlier_row_evolves [OF assms(1) e'(2) that(1,2)] that(3) i(1) e(2,4) same_row_keeps(1) by metis
  then show ?thesis using e'(1) i by (auto simp: behind_finished_def)
qed

lemma call_ordered_evolves:
  assumes "evolves t t'" "call_ordered t before i env" shows "call_ordered t' before i env"
proof -
  obtain e where e: "e \<in> set (q_entries t)" "oe_id e = i" "oe_envelope e = env"
    "\<And>x. x \<in> set (q_entries t) \<Longrightarrow> stream_of x = stream_of e \<Longrightarrow> oe_id x < i \<Longrightarrow> was_sent before x \<or> oe_status x = skipped"
    using assms(2) by (auto simp: call_ordered_def)
  obtain e' where e': "e' \<in> set (q_entries t')" "same_row e e'" using evolves_row' [OF assms(1) e(1)] .
  then have i: "oe_id e' = i" "oe_envelope e' = env" using e(2,3) by (simp_all add: same_row_def)
  have "was_sent before x' \<or> oe_status x' = skipped" if "x' \<in> set (q_entries t')" "stream_of x' = stream_of e'" "oe_id x' < i" for x'
    using earlier_row_evolves [OF assms(1) e'(2) that(1,2)] that(3) i(1) e(2,4) same_row_keeps(2,3) by metis
  then show ?thesis using e'(1) i by (auto simp: call_ordered_def)
qed

lemma log_ordered_evolves: "evolves t t' \<Longrightarrow> log_ordered t calls \<Longrightarrow> log_ordered t' calls"
  using call_ordered_evolves by (auto simp: log_ordered_def)

text \<open>An append adds a row behind all others.\<close>

lemma append_rows:
  assumes "appendOutboxEvent env t = (Inr (), t')"
  shows "q_entries t' = q_entries t @ [new_entry (q_next t) None env (ev_recorded_at env)]"
  using assms by (auto simp: appendOutboxEvent_def split: if_splits)

lemma append_id_less: "wf_queue t \<Longrightarrow> e \<in> set (q_entries t) \<Longrightarrow> oe_id e < q_next t"
  by (auto simp: wf_queue_def)

lemma behind_finished_append:
  assumes "wf_queue t" "appendOutboxEvent env t = (Inr (), t')" "behind_finished t i v" shows "behind_finished t' i v"
proof -
  obtain e where e: "e \<in> set (q_entries t)" "oe_id e = i" "oe_envelope e = v"
    "\<forall>x\<in>set (q_entries t). stream_of x = stream_of e \<longrightarrow> oe_id x < i \<longrightarrow> finished x"
    using assms(3) unfolding behind_finished_def by blast
  then have "\<not> q_next t < i" using append_id_less [OF assms(1) e(1)] by simp
  then show ?thesis unfolding behind_finished_def append_rows [OF assms(2)] using e by (intro bexI [of _ e]) (simp_all add: new_entry_def)
qed

lemma call_ordered_append:
  assumes "wf_queue t" "appendOutboxEvent env t = (Inr (), t')" "call_ordered t before i v" shows "call_ordered t' before i v"
proof -
  obtain e where e: "e \<in> set (q_entries t)" "oe_id e = i" "oe_envelope e = v"
    "\<forall>x\<in>set (q_entries t). stream_of x = stream_of e \<longrightarrow> oe_id x < i \<longrightarrow> was_sent before x \<or> oe_status x = skipped"
    using assms(3) unfolding call_ordered_def by blast
  then have "\<not> q_next t < i" using append_id_less [OF assms(1) e(1)] by simp
  then show ?thesis unfolding call_ordered_def append_rows [OF assms(2)] using e by (intro bexI [of _ e]) (simp_all add: new_entry_def)
qed

lemma log_ordered_append:
  "wf_queue t \<Longrightarrow> appendOutboxEvent env t = (Inr (), t') \<Longrightarrow> log_ordered t calls \<Longrightarrow> log_ordered t' calls"
  using call_ordered_append by (auto simp: log_ordered_def)

lemma log_ordered_snoc:
  assumes "log_ordered t calls" "behind_finished t i env" "\<forall>e\<in>set (q_entries t). oe_status e = published \<longrightarrow> was_sent calls e"
  shows "log_ordered t (calls @ [(i, env, ok)])"
proof -
  have "call_ordered t calls i env" using assms(2,3) by (fastforce simp: behind_finished_def call_ordered_def finished_def)
  then show ?thesis using assms(1) by (auto simp: log_ordered_def nth_append less_Suc_eq)
qed

text \<open>Only marking publishes a row.\<close>

lemma published_mark:
  "e' \<in> set (q_entries (snd (markPublished queue i w now t))) \<Longrightarrow> oe_status e' = published \<Longrightarrow> oe_id e' = i \<or> e' \<in> set (q_entries t)"
  by (auto simp: markPublished_def update_rows_def holds_lease_def split_beta Let_def split: if_splits)

lemma published_fail:
  "e' \<in> set (q_entries (snd (recordFailure queue i w err retryAt t))) \<Longrightarrow> oe_status e' = published \<Longrightarrow> e' \<in> set (q_entries t)"
  by (auto simp: recordFailure_def update_rows_def fail_entry_def split_beta Let_def split: if_splits)

lemma published_lease:
  "e' \<in> set (q_entries (snd (leaseBatch queue request locked t))) \<Longrightarrow> oe_status e' = published \<Longrightarrow> e' \<in> set (q_entries t)"
  by (auto simp: leaseBatch_eq Let_def split: if_splits)

lemma resolve_rows:
  "q_entries (snd (resolveDeadLetterWith queue i action operator reason now t)) = q_entries t \<or>
   q_entries (snd (resolveDeadLetterWith queue i action operator reason now t)) =
     map (\<lambda>e. if oe_id e = i \<and> oe_status e = dead \<and> in_queue queue e
              then resolve_entry action \<lparr>dl_action = action, dl_operatorId = operator, dl_reason = reason, dl_resolvedAt = now\<rparr> now e else e) (q_entries t)"
  by (auto simp: resolveDeadLetterWith_def update_rows_def Let_def bindT_def liftT_def returnT_def split: sum.splits)

lemma published_resolve:
  "e' \<in> set (q_entries (snd (resolveDeadLetterWith queue i action operator reason now t))) \<Longrightarrow> oe_status e' = published \<Longrightarrow> e' \<in> set (q_entries t)"
  using resolve_rows [of queue i action operator reason now t] by (auto simp: resolve_entry_def split: if_splits)

text \<open>What the relay relies on in a statement of the queue: it changes rows in place, and the rows it publishes are among
  the given ones. Four statements keep this contract.\<close>

locale queue_statement =
  fixes statement :: "queue_table \<Rightarrow> queue_table"
    and handed :: "nat set"
  assumes in_place: "wf_queue t \<Longrightarrow> evolves t (statement t)"
    and publishes: "e \<in> set (q_entries (statement t)) \<Longrightarrow> oe_status e = published \<Longrightarrow> oe_id e \<in> handed \<or> e \<in> set (q_entries t)"
begin

lemma keeps_wf: "wf_queue t \<Longrightarrow> wf_queue (statement t)"
  using wf_evolves in_place by blast

lemma keeps_next: "wf_queue t \<Longrightarrow> q_next (statement t) = q_next t"
  using in_place by (auto simp: evolves_def)

lemma keeps_behind_finished: "wf_queue t \<Longrightarrow> behind_finished t i env \<Longrightarrow> behind_finished (statement t) i env"
  using behind_finished_evolves in_place by blast

lemma keeps_published:
  assumes "wf_queue t" "\<forall>e\<in>set (q_entries t). oe_status e = published \<or> oe_id e \<in> handed \<longrightarrow> was_sent calls e"
    "e \<in> set (q_entries (statement t))" "oe_status e = published"
  shows "was_sent calls e"
proof -
  obtain x where x: "x \<in> set (q_entries t)" "same_row x e" using evolves_row [OF in_place [OF assms(1)] assms(3)] .
  then have "oe_id x = oe_id e" by (simp add: same_row_def)
  then have "was_sent calls x \<or> was_sent calls e" using publishes [OF assms(3,4)] assms(2,4) x(1) by auto
  then show ?thesis using same_row_keeps(2) [OF x(2)] by blast
qed

lemma keeps_relay_inv:
  assumes inv: "relay_inv s" and sub: "\<And>x. x \<in> set (q_entries (r_table s)) \<Longrightarrow> oe_id x \<in> handed \<Longrightarrow> was_sent (r_calls s) x"
  shows "relay_inv (s\<lparr>r_table := statement (r_table s)\<rparr>)"
proof -
  have wf: "wf_queue (r_table s)" using inv by (simp add: relay_inv_def)
  have "\<forall>e\<in>set (q_entries (r_table s)). oe_status e = published \<or> oe_id e \<in> handed \<longrightarrow> was_sent (r_calls s) e"
    using inv sub by (auto simp: relay_inv_def)
  note keeps = keeps_published [OF wf this] keeps_wf [OF wf] keeps_behind_finished [OF wf] log_ordered_evolves [OF in_place [OF wf]]
  then show ?thesis using inv unfolding relay_inv_def by simp
qed

end

interpretation lease: queue_statement "\<lambda>t. snd (leaseBatch queue request locked t)" "{}" for queue request locked
  by unfold_locales (auto simp: evolves_leaseBatch dest: published_lease)

interpretation mark: queue_statement "\<lambda>t. snd (markPublished queue i w now t)" "{i}" for queue i w now
  by unfold_locales (auto simp: evolves_markPublished dest: published_mark)

interpretation failure: queue_statement "\<lambda>t. snd (recordFailure queue i w err retryAt t)" "{}" for queue i w err retryAt
  by unfold_locales (auto simp: evolves_recordFailure dest: published_fail)

interpretation resolution: queue_statement "\<lambda>t. snd (resolveDeadLetterWith queue i action operator reason now t)" "{}"
  for queue i action operator reason now
  by unfold_locales (auto simp: evolves_resolve dest: published_resolve)

lemma granted_behind_finished:
  assumes wf: "wf_queue t" and e: "e \<in> set (fst (leaseBatch queue request locked t))"
  shows "behind_finished (snd (leaseBatch queue request locked t)) (oe_id e) (oe_envelope e)"
proof -
  obtain e0 where e0: "e0 \<in> set (q_entries t)" "e = lease_entry request e0" "is_head (q_entries t) e0"
    using leaseBatch_granted [OF wf e] by metis
  have "behind_finished t (oe_id e0) (oe_envelope e0)" using e0(1,3) by (auto simp: behind_finished_def is_head_def list_ex_iff)
  then show ?thesis using lease.keeps_behind_finished [OF wf] e0(2) by simp
qed

lemma relay_inv_held:
  "relay_inv s \<Longrightarrow> (\<And>w e. e \<in> set (h w) \<Longrightarrow> behind_finished (r_table s) (oe_id e) (oe_envelope e)) \<Longrightarrow>
   (\<And>w. m w = Some hand_accepted \<Longrightarrow> h w \<noteq> [] \<and> was_sent (r_calls s) (hd (h w))) \<Longrightarrow> relay_inv (s\<lparr>r_held := h, r_verdict := m\<rparr>)"
  unfolding relay_inv_def by auto

lemma relay_inv_pop:
  assumes "relay_inv s" "r_held s w = e # rest"
  shows "relay_inv (s\<lparr>r_held := (r_held s)(w := rest), r_verdict := (r_verdict s)(w := None)\<rparr>)"
proof (rule relay_inv_held [OF assms(1)])
  fix v x assume "x \<in> set (((r_held s)(w := rest)) v)"
  then have "x \<in> set (r_held s v)" using assms(2) by (auto split: if_splits)
  then show "behind_finished (r_table s) (oe_id x) (oe_envelope x)" using assms(1) by (simp add: relay_inv_def)
next
  fix v assume "((r_verdict s)(w := None)) v = Some hand_accepted"
  then show "((r_held s)(w := rest)) v \<noteq> [] \<and> was_sent (r_calls s) (hd (((r_held s)(w := rest)) v))"
    using assms(1) by (auto simp: relay_inv_def split: if_splits)
qed

lemma relay_inv_start: "wf_queue t \<Longrightarrow> \<forall>e\<in>set (q_entries t). oe_status e \<noteq> published \<Longrightarrow> relay_inv (relay_start t p)"
  by (simp add: relay_inv_def relay_start_def log_ordered_def)

lemma relay_inv_lease:
  assumes inv: "relay_inv s" and idle: "r_verdict s w = None" and l: "leaseBatch queue request locked (r_table s) = (entries, t)"
  shows "relay_inv (s\<lparr>r_table := t, r_held := (r_held s)(w := entries)\<rparr>)"
proof -
  have wf: "wf_queue (r_table s)" using inv by (simp add: relay_inv_def)
  have "relay_inv (s\<lparr>r_table := t\<rparr>)" using lease.keeps_relay_inv [OF inv, of queue request locked] l by simp
  then have "relay_inv (s\<lparr>r_table := t, r_held := (r_held s)(w := entries), r_verdict := r_verdict s\<rparr>)"
    using granted_behind_finished [OF wf, of _ queue request locked] l idle by (intro relay_inv_held) (auto simp: relay_inv_def split: if_splits)
  then show ?thesis by simp
qed

text \<open>What a hand-over adds to the record of calls.\<close>

lemma hand_over_recorded:
  assumes "hand_over d (recorded_publish i publish) e (calls, p) = (v, (calls', p'))"
  shows "(v = hand_exceeded \<and> calls' = calls \<and> p' = p) \<or> (\<exists>ok. calls' = calls @ [(i, oe_envelope e, ok)] \<and> (v = hand_accepted \<longrightarrow> ok))"
  using assms by (auto simp: hand_over_def recorded_publish_def split: if_splits prod.splits sum.splits)

lemma sent_mono: "was_sent calls e \<Longrightarrow> was_sent (calls @ later) e"
  by (auto simp: was_sent_def)

lemma relay_inv_call:
  assumes "relay_inv s" "behind_finished (r_table s) i env"
  shows "relay_inv (s\<lparr>r_calls := r_calls s @ [(i, env, ok)]\<rparr>)"
  using assms log_ordered_snoc [of "r_table s" "r_calls s" i env ok] sent_mono unfolding relay_inv_def by auto

lemma relay_inv_hand_over:
  assumes inv: "relay_inv s" and held: "r_held s (dp_workerId d) = e # rest" "r_verdict s (dp_workerId d) = None"
    and run: "hand_over d (recorded_publish (oe_id e) publish) e (r_calls s, r_pub s) = (v, (calls, p))"
  shows "relay_inv (s\<lparr>r_calls := calls, r_pub := p, r_verdict := (r_verdict s)(dp_workerId d \<mapsto> v)\<rparr>)"
proof -
  have "behind_finished (r_table s) (oe_id e) (oe_envelope e)" using inv held(1) unfolding relay_inv_def by (metis list.set_intros(1))
  then have calls: "relay_inv (s\<lparr>r_calls := calls\<rparr>)" and sent: "v = hand_accepted \<Longrightarrow> was_sent calls e"
    using hand_over_recorded [OF run] relay_inv_call [OF inv] inv by (auto simp: was_sent_def)
  have "relay_inv (s\<lparr>r_calls := calls, r_held := r_held s, r_verdict := (r_verdict s)(dp_workerId d \<mapsto> v)\<rparr>)"
    using calls sent held by (intro relay_inv_held) (auto simp: relay_inv_def split: if_splits)
  then show ?thesis by (simp add: relay_inv_def)
qed

text \<open>Recording an outcome is one statement of the queue; the row is marked only after an accepted hand-over.\<close>

lemma record_outcome_cases:
  assumes "record_outcome d errorText now e v (rep, t) = (rep', t')"
  shows "(\<exists>err retryAt. t' = snd (recordFailure (dp_queue d) (oe_id e) (dp_workerId d) err retryAt t)) \<or>
    v = hand_accepted \<and> t' = snd (markPublished (dp_queue d) (oe_id e) (dp_workerId d) now t)"
  using assms by (cases v) (auto simp: record_outcome_def Let_def split_beta)

lemma held_row:
  assumes "relay_inv s" "e \<in> set (r_held s w)" "x \<in> set (q_entries (r_table s))" "oe_id x = oe_id e"
  shows "oe_envelope x = oe_envelope e"
proof -
  have wf: "wf_queue (r_table s)" and "behind_finished (r_table s) (oe_id e) (oe_envelope e)" using assms(1,2) unfolding relay_inv_def by blast+
  then obtain y where "y \<in> set (q_entries (r_table s))" "oe_id y = oe_id e" "oe_envelope y = oe_envelope e" unfolding behind_finished_def by blast
  then show ?thesis using same_id_same_entry [OF wf assms(3)] assms(4) by metis
qed

lemma relay_inv_record:
  assumes inv: "relay_inv s" and held: "r_held s (dp_workerId d) = e # rest" "r_verdict s (dp_workerId d) = Some v"
    and run: "record_outcome d errorText now e v (rep, r_table s) = (rep', t)"
  shows "relay_inv (s\<lparr>r_table := t, r_held := (r_held s)(dp_workerId d := rest), r_verdict := (r_verdict s)(dp_workerId d := None)\<rparr>)"
proof -
  have "relay_inv (s\<lparr>r_table := t\<rparr>)"
    using record_outcome_cases [OF run]
  proof (elim disjE exE conjE)
    fix err retryAt assume "t = snd (recordFailure (dp_queue d) (oe_id e) (dp_workerId d) err retryAt (r_table s))"
    then show ?thesis using failure.keeps_relay_inv [OF inv] by simp
  next
    assume v: "v = hand_accepted" and t: "t = snd (markPublished (dp_queue d) (oe_id e) (dp_workerId d) now (r_table s))"
    have "was_sent (r_calls s) e" using inv held v by (auto simp: relay_inv_def)
    then have "was_sent (r_calls s) x" if "x \<in> set (q_entries (r_table s))" "oe_id x = oe_id e" for x
      using held_row [OF inv, of e "dp_workerId d" x] that held(1) by (simp add: was_sent_def)
    then show ?thesis unfolding t by (intro mark.keeps_relay_inv [OF inv]) simp
  qed
  from relay_inv_pop [OF this, of "dp_workerId d" e rest] show ?thesis using held(1) by simp
qed

lemma relay_step_inv: "relay_step queue publish s s' \<Longrightarrow> relay_inv s \<Longrightarrow> relay_inv s'"
proof (induction rule: relay_step.induct)
  case (relay_append env s t)
  then show ?case
    using wf_append [of "r_table s" env] behind_finished_append [OF _ relay_append(1)] log_ordered_append [OF _ relay_append(1)]
      append_rows [OF relay_append(1)] unfolding relay_inv_def by (auto simp: new_entry_def)
next
  case (relay_lease d s now locked entries t)
  then show ?case using relay_inv_lease by blast
next
  case (relay_hand_over s d e rest v calls p)
  show ?case by (rule relay_inv_hand_over [OF relay_hand_over.prems relay_hand_over.hyps])
next
  case (relay_record d s e rest v errorText now rep rep' t)
  then show ?case using relay_inv_record by blast
next
  case (relay_crash s w)
  then show ?case by (intro relay_inv_held) (auto simp: relay_inv_def split: if_splits)
next
  case (relay_resolve i action operator reason now s r t)
  then show ?case using resolution.keeps_relay_inv [OF relay_resolve.prems, of queue i action operator reason now] by simp
qed

lemma relay_run_inv: "(relay_step queue publish)\<^sup>*\<^sup>* s s' \<Longrightarrow> relay_inv s \<Longrightarrow> relay_inv s'"
  by (induction rule: rtranclp_induct) (auto intro: relay_step_inv)

section \<open>A dispatch pass is a run of the relay\<close>

text \<open>The relay has made the calls a publisher has seen, in the same state, and the worker has nothing in its hands.\<close>

definition agrees :: "'p relay \<Rightarrow> string \<Rightarrow> queue_table \<Rightarrow> (event_envelope \<times> bool) list \<times> 'p \<Rightarrow> outbox_entry list \<Rightarrow> bool" where
  "agrees s w t p held \<longleftrightarrow> r_table s = t \<and> map snd (r_calls s) = fst p \<and> r_pub s = snd p \<and> r_held s w = held \<and> r_verdict s w = None"

lemma dispatch_entry_cases:
  assumes "dispatch_entry d errorText publish now e (rep, t, p) = (rep', t', p')"
  shows "(\<exists>err retryAt. t' = snd (recordFailure (dp_queue d) (oe_id e) (dp_workerId d) err retryAt t)) \<or>
    t' = snd (markPublished (dp_queue d) (oe_id e) (dp_workerId d) now t)"
proof -
  obtain v w where "record_outcome d errorText now e v (rep, t) = (rep', t')"
    using assms by (auto simp: dispatch_entry_def Let_def split: prod.splits)
  from record_outcome_cases [OF this] show ?thesis by blast
qed

lemma hand_over_observed:
  assumes "hand_over d (observed_publish publish) e (map snd calls, p) = (v, p')"
  shows "\<exists>calls'. hand_over d (recorded_publish i publish) e (calls, p) = (v, (calls', snd p')) \<and> map snd calls' = fst p'"
  using assms by (auto simp: hand_over_def observed_publish_def recorded_publish_def split: if_splits prod.splits sum.splits)

lemma dispatch_entry_steps:
  assumes agree: "agrees s (dp_workerId d) t p (e # rest)"
    and run: "dispatch_entry d errorText (observed_publish publish) now e (rep, t, p) = (rep', t', p')"
  shows "\<exists>s'. (relay_step (dp_queue d) publish)\<^sup>*\<^sup>* s s' \<and> agrees s' (dp_workerId d) t' p' rest"
proof -
  obtain v where v: "hand_over d (observed_publish publish) e p = (v, p')" "record_outcome d errorText now e v (rep, t) = (rep', t')"
    using run by (auto simp: dispatch_entry_def Let_def split: prod.splits)
  have p: "p = (map snd (r_calls s), r_pub s)" using agree by (simp add: agrees_def prod_eq_iff)
  obtain calls where c: "hand_over d (recorded_publish (oe_id e) publish) e (r_calls s, r_pub s) = (v, (calls, snd p'))" "map snd calls = fst p'"
    using hand_over_observed [OF v(1) [unfolded p]] by blast
  let ?w = "dp_workerId d"
  let ?s = "s\<lparr>r_calls := calls, r_pub := snd p', r_verdict := (r_verdict s)(?w \<mapsto> v)\<rparr>"
  let ?s' = "?s\<lparr>r_table := t', r_held := (r_held ?s)(?w := rest), r_verdict := (r_verdict ?s)(?w := None)\<rparr>"
  have "relay_step (dp_queue d) publish s ?s" by (rule relay_hand_over [where rest = rest]) (use agree c(1) in \<open>simp_all add: agrees_def\<close>)
  moreover have "relay_step (dp_queue d) publish ?s ?s'"
    by (rule relay_record [OF refl, where v = v and e = e and rest = rest and rep = rep]) (use agree v(2) in \<open>simp_all add: agrees_def\<close>)
  ultimately have "(relay_step (dp_queue d) publish)\<^sup>*\<^sup>* s ?s'" by (meson converse_rtranclp_into_rtranclp r_into_rtranclp)
  moreover have "agrees ?s' ?w t' p' rest" using c(2) by (simp add: agrees_def)
  ultimately show ?thesis by blast
qed

lemma dispatch_loop_steps:
  assumes "agrees s (dp_workerId d) t p entries" "dispatch_loop d errorText (observed_publish publish) clock i entries (rep, t, p) = (rep', t', p')"
  shows "\<exists>s'. (relay_step (dp_queue d) publish)\<^sup>*\<^sup>* s s' \<and> agrees s' (dp_workerId d) t' p' []"
  using assms
proof (induction entries arbitrary: s t i rep p)
  case Nil
  then show ?case by auto
next
  case (Cons e rest)
  obtain rep1 t1 p1 where one: "dispatch_entry d errorText (observed_publish publish) (clock i) e (rep, t, p) = (rep1, t1, p1)" by (metis surj_pair)
  obtain s1 where s1: "(relay_step (dp_queue d) publish)\<^sup>*\<^sup>* s s1" "agrees s1 (dp_workerId d) t1 p1 rest"
    using dispatch_entry_steps [OF Cons.prems(1) one] by blast
  have "dispatch_loop d errorText (observed_publish publish) clock (Suc i) rest (rep1, t1, p1) = (rep', t', p')" using Cons.prems(2) one by simp
  from Cons.IH [OF s1(2) this] show ?case using rtranclp_trans [OF s1(1)] by blast
qed

lemma runOnce_steps:
  assumes agree: "agrees s (dp_workerId d) t p []"
    and run: "runOnce d errorText (observed_publish publish) leaseNow clock locked (t, p) = (rep, t', p')"
  shows "\<exists>s'. (relay_step (dp_queue d) publish)\<^sup>*\<^sup>* s s' \<and> agrees s' (dp_workerId d) t' p' []"
proof -
  obtain entries t1 where l: "leaseBatch (dp_queue d) (lease_request_of d leaseNow) locked t = (entries, t1)" by (metis surj_pair)
  let ?s = "s\<lparr>r_table := t1, r_held := (r_held s)(dp_workerId d := entries)\<rparr>"
  have "relay_step (dp_queue d) publish s ?s" by (rule relay_lease [OF refl]) (use agree l in \<open>simp_all add: agrees_def\<close>)
  moreover have "agrees ?s (dp_workerId d) t1 p entries" using agree by (simp add: agrees_def)
  then have "\<exists>s'. (relay_step (dp_queue d) publish)\<^sup>*\<^sup>* ?s s' \<and> agrees s' (dp_workerId d) t' p' []"
    by (rule dispatch_loop_steps) (use run l in \<open>simp add: runOnce_def\<close>)
  ultimately show ?thesis by (meson converse_rtranclp_into_rtranclp)
qed

section \<open>Ordering\<close>

text \<open>C13: events of one aggregate are published in order, and nothing is marked published unsent. Start from a queue without
  published entries and let any number of workers, producers and operators take any interleaving of steps, with crashes, lost
  leases, failed and repeated hand-overs; a worker's steps are those of the dispatcher, and the calls of the publisher are
  recorded as they are made. Then every call is made for a row with the envelope it was given, after successful calls
  for each earlier entry of its stream, except those an operator skipped; and for every entry marked published, a call
  with its envelope has returned without an error. A whole dispatch pass \<open>runOnce\<close> of an idle worker is again such an
  interleaving, with exactly the calls its publisher saw; so after it, too, whatever is published was accepted by the publisher.\<close>

theorem relay_stream_order:
  assumes start: "wf_queue t" "\<forall>e\<in>set (q_entries t). oe_status e \<noteq> published"
    and run: "(relay_step queue publish)\<^sup>*\<^sup>* (relay_start t p) s"
  shows "(\<forall>n i env ok. n < length (r_calls s) \<and> r_calls s ! n = (i, env, ok) \<longrightarrow>
      (\<exists>e\<in>set (q_entries (r_table s)). oe_id e = i \<and> oe_envelope e = env \<and>
        (\<forall>e'\<in>set (q_entries (r_table s)). stream_of e' = stream_of e \<and> oe_id e' < i \<longrightarrow>
           (oe_id e', oe_envelope e', True) \<in> set (take n (r_calls s)) \<or> oe_status e' = skipped))) \<and>
    (\<forall>e\<in>set (q_entries (r_table s)). oe_status e = published \<longrightarrow> (oe_id e, oe_envelope e, True) \<in> set (r_calls s)) \<and>
    (\<forall>d errorText leaseNow clock locked rep t' calls p'. dp_queue d = queue \<and> r_held s (dp_workerId d) = [] \<and> r_verdict s (dp_workerId d) = None \<and>
       runOnce d errorText (observed_publish publish) leaseNow clock locked (r_table s, (map snd (r_calls s), r_pub s)) = (rep, t', (calls, p')) \<longrightarrow>
       (\<exists>s'. (relay_step queue publish)\<^sup>*\<^sup>* (relay_start t p) s' \<and> r_table s' = t' \<and> map snd (r_calls s') = calls) \<and>
       (\<forall>e\<in>set (q_entries t'). oe_status e = published \<longrightarrow> (oe_envelope e, True) \<in> set calls))"
    (is "?ordered \<and> ?sent \<and> ?passes")
proof -
  have inv: "relay_inv s'" if "(relay_step queue publish)\<^sup>*\<^sup>* (relay_start t p) s'" for s'
    using relay_run_inv [OF that relay_inv_start [OF start]] .
  have pass: "\<exists>s'. (relay_step queue publish)\<^sup>*\<^sup>* (relay_start t p) s' \<and> r_table s' = t' \<and> map snd (r_calls s') = calls"
    if "dp_queue d = queue" "r_held s (dp_workerId d) = []" "r_verdict s (dp_workerId d) = None"
      "runOnce d errorText (observed_publish publish) leaseNow clock locked (r_table s, (map snd (r_calls s), r_pub s)) = (rep, t', (calls, p'))"
    for d errorText leaseNow clock locked rep t' calls p'
    using runOnce_steps [OF _ that(4), of s] that(1-3) rtranclp_trans [OF run] by (fastforce simp: agrees_def)
  have accepted: "(oe_envelope e, True) \<in> set (map snd (r_calls s'))"
    if "(relay_step queue publish)\<^sup>*\<^sup>* (relay_start t p) s'" "e \<in> set (q_entries (r_table s'))" "oe_status e = published" for s' e
    using inv [OF that(1)] that(2,3) unfolding relay_inv_def was_sent_def by force
  have "?ordered \<and> ?sent"
    using inv [OF run] unfolding relay_inv_def log_ordered_def call_ordered_def was_sent_def by (metis fst_conv snd_conv)
  moreover have ?passes
  proof (intro allI impI, elim conjE)
    fix d errorText leaseNow clock locked rep t' calls p'
    assume "dp_queue d = queue" "r_held s (dp_workerId d) = []" "r_verdict s (dp_workerId d) = None"
      "runOnce d errorText (observed_publish publish) leaseNow clock locked (r_table s, (map snd (r_calls s), r_pub s)) = (rep, t', (calls, p'))"
    from pass [OF this] obtain s' where s': "(relay_step queue publish)\<^sup>*\<^sup>* (relay_start t p) s'" "r_table s' = t'" "map snd (r_calls s') = calls" by blast
    then show "(\<exists>s'. (relay_step queue publish)\<^sup>*\<^sup>* (relay_start t p) s' \<and> r_table s' = t' \<and> map snd (r_calls s') = calls) \<and>
        (\<forall>e\<in>set (q_entries t'). oe_status e = published \<longrightarrow> (oe_envelope e, True) \<in> set calls)"
      using accepted [OF s'(1)] by auto
  qed
  ultimately show ?thesis by blast
qed

text \<open>The dispatcher is such a worker. Every dispatch pass, with any publisher, clock and concurrently
  locked rows, is a run of relay steps of its worker that makes exactly the calls the publisher sees, so everything
  shown of relay runs holds for it.\<close>

theorem runOnce_refines_relay:
  assumes "agrees s (dp_workerId d) t p []"
    "runOnce d errorText (observed_publish publish) leaseNow clock locked (t, p) = (rep, t', p')"
  shows "\<exists>s'. (relay_step (dp_queue d) publish)\<^sup>*\<^sup>* s s' \<and> agrees s' (dp_workerId d) t' p' []"
  using runOnce_steps [OF assms] .

definition sample_envelope :: "string \<Rightarrow> int \<Rightarrow> event_envelope" where
  "sample_envelope i version = envelope_of (scope_of_context (example_context ''t:1'')) sample_build_input i version 5 5"

definition sample_queue :: queue_table where
  "sample_queue = \<lparr>q_entries = [new_entry 1 None (sample_envelope ''evt_1'' 1) 5, new_entry 2 None (sample_envelope ''evt_2'' 2) 5], q_next = 3\<rparr>"

definition sample_published :: queue_table where
  "sample_published = sample_queue\<lparr>q_entries :=
     [(new_entry 1 None (sample_envelope ''evt_1'' 1) 5)\<lparr>oe_status := published, oe_attempts := 1, oe_publishedAt := Some 6\<rparr>,
      new_entry 2 None (sample_envelope ''evt_2'' 2) 5]\<rparr>"

lemma sample_queue_rows:
  "wf_queue sample_queue" "\<forall>e\<in>set (q_entries sample_queue). oe_status e \<noteq> published"
  by (simp_all add: wf_queue_def sample_queue_def new_entry_def)

lemma sample_pass:
  "runOnce (default_dispatcher ''w'' None) errorText (observed_publish (\<lambda>_. returnT ())) 5 (\<lambda>_. 6) {} (sample_queue, ([], ())) =
     (\<lparr>rp_leased = 1, rp_published = 1, rp_retried = 0, rp_deadLettered = 0, rp_leaseLost = 0\<rparr>, sample_published, ([(sample_envelope ''evt_1'' 1, True)], ()))"
  by (simp add: runOnce_def leaseBatch_def lease_request_of_def default_dispatcher_def sample_queue_def candidates_def due_def in_queue_def
      is_head_def stream_of_def finished_def new_entry_def sample_envelope_def envelope_of_def scope_of_context_def lease_entry_def
      dispatch_entry_def hand_over_def record_outcome_def observed_publish_def returnT_def markPublished_def entry_id_ok_def update_rows_def holds_lease_def sample_published_def)

lemma sample_agrees: "agrees (relay_start sample_queue ()) w sample_queue ([], ()) []"
  by (simp add: agrees_def relay_start_def)

lemma sample_run:
  "\<exists>s. (relay_step None (\<lambda>_. returnT ()))\<^sup>*\<^sup>* (relay_start sample_queue ()) s \<and> r_table s = sample_published"
  using runOnce_steps [OF sample_agrees, of "default_dispatcher ''w'' None", OF sample_pass]
  by (auto simp: default_dispatcher_def agrees_def)

theorem relay_stream_order_witness:
  "\<exists>s. (relay_step None (\<lambda>_. returnT ()))\<^sup>*\<^sup>* (relay_start sample_queue ()) s \<and> r_table s = sample_published \<and>
     (1, sample_envelope ''evt_1'' 1, True) \<in> set (r_calls s)"
proof -
  obtain s where s: "(relay_step None (\<lambda>_. returnT ()))\<^sup>*\<^sup>* (relay_start sample_queue ()) s" "r_table s = sample_published" using sample_run by blast
  have "(1, sample_envelope ''evt_1'' 1, True) \<in> set (r_calls s)"
    using relay_stream_order [OF sample_queue_rows s(1)] s(2) by (simp add: sample_published_def sample_queue_def new_entry_def)
  then show ?thesis using s by blast
qed

theorem runOnce_refines_relay_witness:
  "\<exists>s'. (relay_step None (\<lambda>_. returnT ()))\<^sup>*\<^sup>* (relay_start sample_queue ()) s' \<and> map snd (r_calls s') = [(sample_envelope ''evt_1'' 1, True)]"
  using runOnce_refines_relay [OF sample_agrees, of "default_dispatcher ''w'' None", OF sample_pass]
  by (auto simp: default_dispatcher_def agrees_def)

end
