(* ===== verification/Outbox_Progress.thy ===== *)
theory Outbox_Progress
  imports Outbox_Relay
begin

text \<open>
  Progress of the dispatcher (\<open>platform/outbox/src/dispatcher.ts\<close>, \<open>infrastructure/postgres/store.ts\<close>): what one pass does to
  every row, and why repeated passes drain the queue. A row is open while it is pending or leased. A pass
  settles each row it leased: the row is published, dead, or pending again with one more attempt.
  The remaining attempts of the open rows bound the number of passes that can still find work, whatever
  the publisher does.
\<close>

section \<open>One pass, row by row\<close>

definition row_open :: "queue_selector \<Rightarrow> outbox_entry \<Rightarrow> bool" where
  "row_open queue e \<longleftrightarrow> (oe_status e = pending \<or> oe_status e = leased) \<and> in_queue queue e"

definition settles :: "dispatcher \<Rightarrow> instant \<Rightarrow> outbox_entry \<Rightarrow> outbox_entry \<Rightarrow> bool" where
  "settles d latest x y \<longleftrightarrow> oe_id y = oe_id x \<and> oe_envelope y = oe_envelope x \<and> oe_consumer y = oe_consumer x \<and>
     (oe_status y = published \<or> oe_status y = dead \<or>
      oe_status y = pending \<and> oe_attempts y = oe_attempts x \<and> oe_attempts x < dp_maxAttempts d \<and> oe_nextAttemptAt y \<le> latest)"

lemma update_one_row:
  assumes "wf_queue t" "e \<in> set (q_entries t)" "holds_lease queue (oe_id e) w e"
  shows "q_entries (snd (update_rows (holds_lease queue (oe_id e) w) f t)) = map (\<lambda>x. if x = e then f x else x) (q_entries t)"
  using same_id_same_entry [OF assms(1) _ assms(2)] assms(3) by (auto simp: update_rows_def holds_lease_def)

lemma update_one_count:
  assumes "wf_queue t" "e \<in> set (q_entries t)" "holds_lease queue (oe_id e) w e"
  shows "fst (update_rows (holds_lease queue (oe_id e) w) f t) = 1"
proof -
  have "distinct (q_entries t)" using assms(1) sorted_ids_distinct by (auto simp: wf_queue_def distinct_map)
  moreover have "filter (holds_lease queue (oe_id e) w) (q_entries t) = filter (\<lambda>x. x = e) (q_entries t)"
    using same_id_same_entry [OF assms(1) _ assms(2)] assms(3) by (intro filter_cong) (auto simp: holds_lease_def)
  ultimately show ?thesis using assms(2) by (simp add: update_rows_def distinct_length_filter Int_absorb2 Collect_conv_if)
qed

definition id_space :: "queue_table \<Rightarrow> bool" where
  "id_space t \<longleftrightarrow> wf_queue t \<and> q_next t \<le> 10 ^ 19"

lemma id_space_entry: "id_space t \<Longrightarrow> e \<in> set (q_entries t) \<Longrightarrow> entry_id_ok (oe_id e)"
  by (auto simp: id_space_def wf_queue_def entry_id_ok_def)

context queue_statement
begin

lemma keeps_id_space: "id_space t \<Longrightarrow> id_space (statement t)"
  using keeps_wf keeps_next by (simp add: id_space_def)

end

lemma dispatch_entry_settles:
  assumes t: "id_space t" "e \<in> set (q_entries t)" "holds_lease (dp_queue d) (oe_id e) (dp_workerId d) e"
    and late: "\<And>a. now + dp_retryDelaySeconds d a * 1000 \<le> latest"
    and run: "dispatch_entry d errorText publish now e (rep, t, p) = (rep', t', p')"
  obtains f where "settles d latest e (f e)" "q_entries t' = map (\<lambda>x. if x = e then f x else x) (q_entries t)"
proof -
  have ok: "entry_id_ok (oe_id e)" using id_space_entry t by blast
  have wf: "wf_queue t" using t(1) by (simp add: id_space_def)
  have fail: "q_entries (snd (recordFailure (dp_queue d) (oe_id e) (dp_workerId d) err r t)) = map (\<lambda>x. if x = e then fail_entry err r x else x) (q_entries t)" for err r
    using update_one_row [OF wf t(2,3)] ok by (simp add: recordFailure_def split_beta)
  have mark: "q_entries (snd (markPublished (dp_queue d) (oe_id e) (dp_workerId d) now t)) =
      map (\<lambda>x. if x = e then x\<lparr>oe_status := published, oe_publishedAt := Some now, oe_leasedBy := None, oe_leaseExpiresAt := None\<rparr> else x) (q_entries t)"
    using update_one_row [OF wf t(2,3)] ok by (simp add: markPublished_def split_beta)
  consider (over) "t' = snd (recordFailure (dp_queue d) (oe_id e) (dp_workerId d) ''Exceeded maximum delivery attempts.'' None t)"
    | (failed) err where "t' = snd (recordFailure (dp_queue d) (oe_id e) (dp_workerId d) err (retry_at d (oe_attempts e) now) t)"
    | (sent) "t' = snd (markPublished (dp_queue d) (oe_id e) (dp_workerId d) now t)"
    using run by (auto simp: dispatch_entry_def hand_over_def record_outcome_def Let_def split_beta split: if_splits prod.splits sum.splits)
  then show ?thesis
  proof cases
    case over
    then show ?thesis using that [of "fail_entry ''Exceeded maximum delivery attempts.'' None"] fail by (simp add: settles_def fail_entry_def)
  next
    case failed
    have "settles d latest e (fail_entry err (retry_at d (oe_attempts e) now) e)"
      using late by (auto simp: settles_def fail_entry_def retry_at_def)
    then show ?thesis using that [of "fail_entry err (retry_at d (oe_attempts e) now)"] fail failed by simp
  next
    case sent
    then show ?thesis using that [of "\<lambda>x. x\<lparr>oe_status := published, oe_publishedAt := Some now, oe_leasedBy := None, oe_leaseExpiresAt := None\<rparr>"] mark
      by (simp add: settles_def)
  qed
qed

definition settled_rows :: "dispatcher \<Rightarrow> instant \<Rightarrow> nat set \<Rightarrow> outbox_entry list \<Rightarrow> outbox_entry list \<Rightarrow> bool" where
  "settled_rows d latest ids = list_all2 (\<lambda>x y. if oe_id x \<in> ids then settles d latest x y else y = x)"

lemma settled_rows_refl: "settled_rows d latest {} xs xs"
  by (simp add: settled_rows_def list_all2_refl)

lemma settled_rows_trans:
  assumes "settled_rows d latest I xs ys" "settled_rows d latest J ys zs" "I \<inter> J = {}"
  shows "settled_rows d latest (I \<union> J) xs zs"
  unfolding settled_rows_def
proof (rule list_all2_trans [OF _ assms(1) [unfolded settled_rows_def] assms(2) [unfolded settled_rows_def]])
  fix x y z
  assume "if oe_id x \<in> I then settles d latest x y else y = x" "if oe_id y \<in> J then settles d latest y z else z = y"
  moreover have "oe_id y = oe_id x" using calculation(1) by (auto simp: settles_def split: if_splits)
  ultimately show "if oe_id x \<in> I \<union> J then settles d latest x z else z = x" using assms(3) by (auto split: if_splits)
qed

lemma dispatch_entry_settled_rows:
  assumes t: "id_space t" "e \<in> set (q_entries t)" "holds_lease (dp_queue d) (oe_id e) (dp_workerId d) e"
    and late: "\<And>a. now + dp_retryDelaySeconds d a * 1000 \<le> latest"
    and run: "dispatch_entry d errorText publish now e (rep, t, p) = (rep', t', p')"
  shows "settled_rows d latest {oe_id e} (q_entries t) (q_entries t')"
proof -
  obtain f where f: "settles d latest e (f e)" "q_entries t' = map (\<lambda>x. if x = e then f x else x) (q_entries t)"
    using dispatch_entry_settles [OF assms] .
  show ?thesis unfolding settled_rows_def f(2) list_all2_map2
    by (rule list.rel_refl_strong) (use same_id_same_entry [OF _ _ t(2)] t(1) f(1) in \<open>auto simp: id_space_def\<close>)
qed

lemma dispatch_loop_settled_rows:
  assumes "id_space t" "distinct (map oe_id entries)"
    "\<forall>e\<in>set entries. e \<in> set (q_entries t) \<and> holds_lease (dp_queue d) (oe_id e) (dp_workerId d) e"
    "\<And>i a. clock i + dp_retryDelaySeconds d a * 1000 \<le> latest"
    "dispatch_loop d errorText publish clock i entries (rep, t, p) = (rep', t', p')"
  shows "settled_rows d latest (set (map oe_id entries)) (q_entries t) (q_entries t') \<and> id_space t'"
  using assms
proof (induction entries arbitrary: t i rep p)
  case Nil
  then show ?case by (simp add: settled_rows_refl)
next
  case (Cons e rest)
  obtain rep1 t1 p1 where one: "dispatch_entry d errorText publish (clock i) e (rep, t, p) = (rep1, t1, p1)" by (metis surj_pair)
  have s: "settled_rows d latest {oe_id e} (q_entries t) (q_entries t1)"
    using dispatch_entry_settled_rows [OF Cons.prems(1) _ _ Cons.prems(4) one] Cons.prems(3) by simp
  have sp: "id_space t1"
    using dispatch_entry_cases [OF one] failure.keeps_id_space mark.keeps_id_space Cons.prems(1) by metis
  have "x \<in> set (q_entries t1)" if x: "x \<in> set rest" for x
  proof -
    have "oe_id e \<notin> oe_id ` set rest" "x \<in> set (q_entries t)" using x Cons.prems(2,3) by simp_all
    moreover from this x have "oe_id x \<noteq> oe_id e" by (metis imageI)
    ultimately show ?thesis using s unfolding settled_rows_def list_all2_conv_all_nth by (metis in_set_conv_nth singletonD)
  qed
  then have "settled_rows d latest (set (map oe_id rest)) (q_entries t1) (q_entries t') \<and> id_space t'"
    using Cons.IH [OF sp _ _ Cons.prems(4), of "Suc i" rep1 p1] Cons.prems(2,3,5) one by simp
  then show ?case using settled_rows_trans [OF s] Cons.prems(2) by fastforce
qed

text \<open>A pass: rows outside the batch stay, rows of the batch are settled after one more attempt.\<close>

lemma runOnce_rows:
  assumes t: "id_space t" and late: "\<And>i a. clock i + dp_retryDelaySeconds d a * 1000 \<le> latest"
    and batch: "1 \<le> dp_batchSize d"
    and run: "runOnce d errorText publish now clock locked (t, p) = (rep, t', p')"
  shows "list_all2 (\<lambda>x z. if oe_id x \<in> leased_ids (dp_queue d) (lease_request_of d now) locked t
      then settles d latest (lease_entry (lease_request_of d now) x) z else z = x) (q_entries t) (q_entries t') \<and> id_space t'"
proof -
  let ?r = "lease_request_of d now" and ?ids = "leased_ids (dp_queue d) (lease_request_of d now) locked t"
  obtain entries t1 where l: "leaseBatch (dp_queue d) ?r locked t = (entries, t1)" by (metis surj_pair)
  have wf: "wf_queue t" using t by (simp add: id_space_def)
  have lim: "\<not> lr_limit ?r < 1" using batch by (simp add: lease_request_of_def)
  have t1: "q_entries t1 = map (\<lambda>e. if oe_id e \<in> ?ids then lease_entry ?r e else e) (q_entries t)"
    and en: "entries = sort_key oe_id (filter (\<lambda>e. oe_id e \<in> ?ids) (q_entries t1))"
    using l lim by (auto simp: leaseBatch_eq Let_def)
  have sp: "id_space t1" using lease.keeps_id_space [OF t] l by (metis snd_conv)
  have dist: "distinct (map oe_id entries)"
    unfolding en using sorted_ids_distinct [of "q_entries t1"] sp by (auto simp: id_space_def wf_queue_def distinct_map inj_on_def)
  have held: "\<forall>e\<in>set entries. e \<in> set (q_entries t1) \<and> holds_lease (dp_queue d) (oe_id e) (dp_workerId d) e"
  proof
    fix e assume e: "e \<in> set entries"
    then have "e \<in> set (fst (leaseBatch (dp_queue d) ?r locked t))" using l by simp
    then obtain e0 where "e = lease_entry ?r e0" "in_queue (dp_queue d) e0" using leaseBatch_granted [OF wf] by metis
    then have "holds_lease (dp_queue d) (oe_id e) (dp_workerId d) e"
      by (simp add: holds_lease_def lease_request_of_def in_queue_def split: option.splits)
    then show "e \<in> set (q_entries t1) \<and> holds_lease (dp_queue d) (oe_id e) (dp_workerId d) e" using e by (simp add: en)
  qed
  have "settled_rows d latest (set (map oe_id entries)) (q_entries t1) (q_entries t') \<and> id_space t'"
    using dispatch_loop_settled_rows [OF sp dist held late] run l by (simp add: runOnce_def)
  moreover have "oe_id x \<in> set (map oe_id entries) \<longleftrightarrow> oe_id x \<in> ?ids" if "x \<in> set (q_entries t)" for x
    using that by (auto simp: en t1 image_iff)
  ultimately show ?thesis
    unfolding settled_rows_def t1 list_all2_map1 by (auto elim!: list_all2_mono [THEN list.rel_mono_strong] simp: list_all2_conv_all_nth)
qed

section \<open>Repeated passes\<close>

fun passes :: "dispatcher \<Rightarrow> (err \<Rightarrow> string) \<Rightarrow> (event_envelope \<Rightarrow> ('p, unit) tx) \<Rightarrow> (nat \<Rightarrow> instant) \<Rightarrow> (nat \<Rightarrow> nat \<Rightarrow> instant) \<Rightarrow> nat \<Rightarrow>
    queue_table \<times> 'p \<Rightarrow> queue_table \<times> 'p" where
  "passes d errorText publish start clock 0 s = s"
| "passes d errorText publish start clock (Suc n) s =
     snd (runOnce d errorText publish (start n) (clock n) {} (passes d errorText publish start clock n s))"

definition remaining :: "dispatcher \<Rightarrow> outbox_entry \<Rightarrow> nat" where
  "remaining d e = (if row_open (dp_queue d) e then Suc (Suc (dp_maxAttempts d) - oe_attempts e) else 0)"

definition effort :: "dispatcher \<Rightarrow> queue_table \<Rightarrow> nat" where
  "effort d t = sum_list (map (remaining d) (q_entries t))"

definition all_due :: "queue_selector \<Rightarrow> instant \<Rightarrow> queue_table \<Rightarrow> bool" where
  "all_due queue now t \<longleftrightarrow> (\<forall>e\<in>set (q_entries t). row_open queue e \<longrightarrow> due now e)"

text \<open>Nothing is left to do: every open row waits behind a dead letter of its own stream.\<close>

definition drained :: "queue_selector \<Rightarrow> queue_table \<Rightarrow> bool" where
  "drained queue t \<longleftrightarrow> (\<forall>e\<in>set (q_entries t). row_open queue e \<longrightarrow>
     (\<exists>e'\<in>set (q_entries t). oe_status e' = dead \<and> stream_of e' = stream_of e \<and> oe_id e' < oe_id e))"

lemma in_queue_stream: "stream_of x = stream_of y \<Longrightarrow> in_queue queue x = in_queue queue y"
  by (simp add: in_queue_def stream_of_def split: option.splits)

lemma not_finished_cases: "\<not> finished e \<Longrightarrow> in_queue queue e \<Longrightarrow> oe_status e = dead \<or> row_open queue e"
  by (cases "oe_status e") (simp_all add: finished_def row_open_def)

text \<open>The earliest unfinished row of a stream.\<close>

lemma stream_head:
  assumes "e \<in> set es" "\<not> finished e"
  obtains h where "h \<in> set es" "stream_of h = stream_of e" "\<not> finished h" "oe_id h \<le> oe_id e" "is_head es h"
proof -
  let ?P = "\<lambda>n. \<exists>x\<in>set es. stream_of x = stream_of e \<and> \<not> finished x \<and> oe_id x = n"
  have ex: "?P (oe_id e)" using assms by blast
  obtain h where h: "h \<in> set es" "stream_of h = stream_of e" "\<not> finished h" "oe_id h = (LEAST n. ?P n)"
    using LeastI [of ?P, OF ex] by blast
  have "is_head es h" using not_less_Least [of _ ?P] h by (auto simp: is_head_def list_ex_iff)
  then show ?thesis using that [OF h(1,2,3)] Least_le [of ?P, OF ex] h(4) by simp
qed

lemma no_candidates_drained:
  assumes wf: "wf_queue t" and "all_due queue now t" "candidates queue now {} (q_entries t) = []"
  shows "drained queue t"
  unfolding drained_def
proof (intro ballI impI)
  fix e assume e: "e \<in> set (q_entries t)" "row_open queue e"
  then have "\<not> finished e" by (auto simp: row_open_def finished_def)
  then obtain h where h: "h \<in> set (q_entries t)" "stream_of h = stream_of e" "\<not> finished h" "oe_id h \<le> oe_id e" "is_head (q_entries t) h"
    using stream_head [OF e(1)] by blast
  have q: "in_queue queue h" using e(2) in_queue_stream [OF h(2)] by (simp add: row_open_def)
  have "\<not> row_open queue h"
    using assms(2,3) h(1,5) q unfolding all_due_def by (metis (mono_tags, lifting) empty_iff empty_set mem_Collect_eq set_candidates)
  then have "oe_status h = dead" using not_finished_cases [OF h(3) q] by simp
  moreover from this have "oe_id h \<noteq> oe_id e" using e(2) same_id_same_entry [OF wf h(1) e(1)] by (auto simp: row_open_def)
  ultimately show "\<exists>e'\<in>set (q_entries t). oe_status e' = dead \<and> stream_of e' = stream_of e \<and> oe_id e' < oe_id e"
    using h(1,2,4) by (intro bexI [of _ h]) auto
qed

lemma drained_no_candidates:
  assumes "drained queue t" shows "candidates queue now {} (q_entries t) = []"
proof -
  have "\<not> (due now e \<and> in_queue queue e \<and> is_head (q_entries t) e)" if e: "e \<in> set (q_entries t)" for e
  proof
    assume a: "due now e \<and> in_queue queue e \<and> is_head (q_entries t) e"
    then have "row_open queue e" by (auto simp: due_def row_open_def)
    then obtain e' where "e' \<in> set (q_entries t)" "oe_status e' = dead" "stream_of e' = stream_of e" "oe_id e' < oe_id e"
      using assms e unfolding drained_def by blast
    then show False using a by (auto simp: is_head_def list_ex_iff finished_def)
  qed
  then have "set (candidates queue now {} (q_entries t)) = {}" by (auto simp: set_candidates)
  then show ?thesis by simp
qed

lemma due_mono: "due now e \<Longrightarrow> now \<le> later \<Longrightarrow> due later e"
  by (auto simp: due_def split: option.splits)

lemma settles_remaining:
  "row_open (dp_queue d) x \<Longrightarrow> settles d latest (lease_entry r x) z \<Longrightarrow> remaining d z < remaining d x"
  by (auto simp: settles_def remaining_def row_open_def)

lemma settles_due: "settles d latest x z \<Longrightarrow> row_open queue z \<Longrightarrow> due latest z"
  by (auto simp: settles_def row_open_def due_def)

lemma sum_list_less:
  fixes f g :: "'a \<Rightarrow> nat"
  assumes "list_all2 (\<lambda>x z. f z \<le> g x) xs zs" "n < length xs" "f (zs ! n) < g (xs ! n)"
  shows "sum_list (map f zs) < sum_list (map g xs)"
proof -
  have len: "length zs = length xs" using assms(1) by (simp add: list_all2_lengthD)
  have "(\<Sum>i = 0..<length xs. f (zs ! i)) < (\<Sum>i = 0..<length xs. g (xs ! i))"
    using assms by (intro sum_strict_mono_ex1) (auto simp: list_all2_conv_all_nth)
  then show ?thesis by (simp add: sum_list_sum_nth len)
qed

text \<open>A pass either finds nothing and changes nothing, or uses up some of the remaining effort.\<close>

lemma pass_progress:
  assumes t: "id_space t" "all_due (dp_queue d) now t" "1 \<le> dp_batchSize d"
    and late: "\<And>i a. clock i + dp_retryDelaySeconds d a * 1000 \<le> latest" "now \<le> latest"
    and run: "runOnce d errorText publish now clock {} (t, p) = (rep, t', p')"
  shows "id_space t' \<and> all_due (dp_queue d) latest t' \<and>
    (if candidates (dp_queue d) now {} (q_entries t) = [] then q_entries t' = q_entries t else effort d t' < effort d t)"
proof -
  let ?r = "lease_request_of d now" and ?ids = "leased_ids (dp_queue d) (lease_request_of d now) {} t"
  have rows: "list_all2 (\<lambda>x z. if oe_id x \<in> ?ids then settles d latest (lease_entry ?r x) z else z = x) (q_entries t) (q_entries t')"
    and sp: "id_space t'" using runOnce_rows [OF t(1) late(1) t(3) run] by simp_all
  have row: "row_open (dp_queue d) x" if "x \<in> set (q_entries t)" "oe_id x \<in> ?ids" for x
    using leased_ids_candidate [OF _ that] t(1) by (auto simp: set_candidates id_space_def due_def row_open_def)
  have "due latest z" if "x \<in> set (q_entries t)" "if oe_id x \<in> ?ids then settles d latest (lease_entry ?r x) z else z = x"
    "row_open (dp_queue d) z" for x z
    using that t(2) settles_due due_mono [OF _ late(2)] unfolding all_due_def by (metis (full_types))
  then have due: "all_due (dp_queue d) latest t'"
    using rows unfolding all_due_def list_all2_conv_all_nth by (metis in_set_conv_nth)
  have le: "list_all2 (\<lambda>x z. remaining d z \<le> remaining d x) (q_entries t) (q_entries t')"
    using rows row settles_remaining by (auto elim!: list.rel_mono_strong split: if_splits simp: less_imp_le)
  have ids: "?ids = set (map oe_id (take (nat (dp_batchSize d)) (candidates (dp_queue d) now {} (q_entries t))))"
    by (simp add: leased_ids_def lease_request_of_def)
  show ?thesis
  proof (cases "candidates (dp_queue d) now {} (q_entries t)")
    case Nil
    then have "q_entries t' = q_entries t" using rows ids by (simp add: list_all2_eq [symmetric] eq_commute)
    then show ?thesis using Nil sp due by simp
  next
    case (Cons c cs)
    then have "oe_id c \<in> ?ids" using t(3) ids by (cases "nat (dp_batchSize d)") simp_all
    moreover have "c \<in> set (q_entries t)" using Cons set_candidates [of "dp_queue d" now "{}" "q_entries t"] by auto
    ultimately obtain n where n: "n < length (q_entries t)" "q_entries t ! n = c" "oe_id (q_entries t ! n) \<in> ?ids"
      by (metis in_set_conv_nth)
    then have "settles d latest (lease_entry ?r c) (q_entries t' ! n)" using list_all2_nthD [OF rows n(1)] by simp
    then have "remaining d (q_entries t' ! n) < remaining d (q_entries t ! n)" using settles_remaining row n by (metis nth_mem)
    from sum_list_less [OF le n(1) this] show ?thesis using Cons sp due by (simp add: effort_def)
  qed
qed

lemma effort_0_drained: "effort d t = 0 \<Longrightarrow> drained (dp_queue d) t"
  by (auto simp: effort_def drained_def remaining_def split: if_splits)

text \<open>The argument behind every loop of passes: a pass that finds work uses up effort, and one that finds none leaves the
  queue at rest. As many passes as there is effort bring the queue to rest.\<close>

locale draining =
  fixes pass :: "nat \<Rightarrow> 's \<Rightarrow> 's"
    and ready :: "nat \<Rightarrow> 's \<Rightarrow> bool"
    and at_rest :: "'s \<Rightarrow> bool"
    and work :: "'s \<Rightarrow> nat"
  assumes pass_ready: "ready k s \<Longrightarrow> ready (Suc k) (pass k s)"
    and pass_rest: "ready k s \<Longrightarrow> at_rest s \<Longrightarrow> at_rest (pass k s)"
    and pass_work: "ready k s \<Longrightarrow> \<not> at_rest s \<Longrightarrow> work (pass k s) < work s"
begin

lemma state_after: "ready 0 s \<Longrightarrow> ready n (rec_nat s pass n) \<and> (at_rest (rec_nat s pass n) \<or> work (rec_nat s pass n) + n \<le> work s)"
proof (induction n)
  case (Suc n)
  then have r: "ready n (rec_nat s pass n)" and "at_rest (rec_nat s pass n) \<or> work (rec_nat s pass n) + n \<le> work s" by simp_all
  then show ?case using pass_ready [OF r] pass_rest [OF r] pass_work [OF r] by (cases "at_rest (rec_nat s pass n)") auto
qed simp

lemma comes_to_rest: "ready 0 s \<Longrightarrow> work s \<le> n \<Longrightarrow> at_rest (rec_nat s pass n) \<or> work (rec_nat s pass n) = 0"
  using state_after [of s n] by auto

end

text \<open>A dispatcher whose passes start late enough after each other, at a queue whose open rows are due.\<close>

definition dispatch_ready :: "dispatcher \<Rightarrow> (nat \<Rightarrow> instant) \<Rightarrow> (nat \<Rightarrow> nat \<Rightarrow> instant) \<Rightarrow> nat \<Rightarrow> queue_table \<times> 'p \<Rightarrow> bool" where
  "dispatch_ready d start clock k s \<longleftrightarrow> 1 \<le> dp_batchSize d \<and> (\<forall>k. start k \<le> start (Suc k)) \<and>
     (\<forall>k i a. clock k i + dp_retryDelaySeconds d a * 1000 \<le> start (Suc k)) \<and> id_space (fst s) \<and> all_due (dp_queue d) (start k) (fst s)"

lemma dispatch_ready_pass:
  assumes "dispatch_ready d start clock k s"
  shows "dispatch_ready d start clock (Suc k) (snd (runOnce d errorText publish (start k) (clock k) {} s)) \<and>
    (if drained (dp_queue d) (fst s) then drained (dp_queue d) (fst (snd (runOnce d errorText publish (start k) (clock k) {} s)))
     else effort d (fst (snd (runOnce d errorText publish (start k) (clock k) {} s))) < effort d (fst s))"
proof -
  obtain t p rep t' p' where s: "s = (t, p)" "runOnce d errorText publish (start k) (clock k) {} (t, p) = (rep, t', p')" by (metis surj_pair)
  have r: "id_space t" "all_due (dp_queue d) (start k) t" "1 \<le> dp_batchSize d" "\<And>i a. clock k i + dp_retryDelaySeconds d a * 1000 \<le> start (Suc k)"
    "start k \<le> start (Suc k)" using assms s(1) by (simp_all add: dispatch_ready_def)
  note pass = pass_progress [OF r s(2)]
  have "drained (dp_queue d) t \<longleftrightarrow> candidates (dp_queue d) (start k) {} (q_entries t) = []"
    using no_candidates_drained [OF _ r(2)] drained_no_candidates r(1) by (auto simp: id_space_def)
  then show ?thesis using pass assms s by (auto simp: dispatch_ready_def drained_def)
qed

interpretation dispatching: draining "\<lambda>k s. snd (runOnce d errorText publish (start k) (clock k) {} s)" "dispatch_ready d start clock"
    "\<lambda>s. drained (dp_queue d) (fst s)" "\<lambda>s. effort d (fst s)"
  for d :: dispatcher and errorText :: "err \<Rightarrow> string" and publish :: "event_envelope \<Rightarrow> ('p, unit) tx" and start clock
  by unfold_locales (use dispatch_ready_pass [of d start clock _ _ errorText publish] in \<open>auto split: if_splits\<close>)

lemma passes_rec: "passes d errorText publish start clock n s = rec_nat s (\<lambda>k s. snd (runOnce d errorText publish (start k) (clock k) {} s)) n"
  by (induction n) simp_all

section \<open>The queue drains\<close>

text \<open>C15: dispatch passes drain the queue, whatever the publisher does. Let passes start late enough after
  each other for the back-off of the previous pass to be over, with nothing else touching the queue, and let
  leases of crashed workers have expired at the first pass. After at most as many passes as there are
  attempts left to the open entries, every entry still pending or leased waits behind a dead letter of its
  own stream; each other entry is published, dead or skipped.\<close>

theorem dispatcher_drains_queue:
  assumes "wf_queue t" "q_next t \<le> 10 ^ 19" "1 \<le> dp_batchSize d"
    "\<forall>k. start k \<le> start (Suc k)" "\<forall>k i a. clock k i + dp_retryDelaySeconds d a * 1000 \<le> start (Suc k)"
    "\<forall>e\<in>set (q_entries t). row_open (dp_queue d) e \<longrightarrow> due (start 0) e"
    "effort d t \<le> n"
  shows "drained (dp_queue d) (fst (passes d errorText publish start clock n (t, p)))"
proof -
  have "dispatch_ready d start clock 0 (t, p)" using assms(1-6) by (simp add: dispatch_ready_def id_space_def all_due_def)
  from dispatching.comes_to_rest [OF this, of n errorText publish] show ?thesis
    using assms(7) effort_0_drained by (auto simp: passes_rec)
qed

lemma default_retry_le: "dp_retryDelaySeconds (default_dispatcher w queue) a \<le> 900"
  by (simp add: default_dispatcher_def defaultRetryDelaySeconds_def)

theorem dispatcher_drains_queue_witness:
  "drained None (fst (passes (default_dispatcher ''w'' None) (\<lambda>_. ''down'') (\<lambda>_. throwT Error) (\<lambda>k. 5 + 1000000 * int k)
     (\<lambda>k _. 5 + 1000000 * int k) 20 (sample_queue, ())))"
proof -
  have "\<forall>k (i::nat) a. 5 + 1000000 * int k + dp_retryDelaySeconds (default_dispatcher ''w'' None) a * 1000 \<le> 5 + 1000000 * int (Suc k)"
  proof (intro allI)
    fix k i :: nat and a
    show "5 + 1000000 * int k + dp_retryDelaySeconds (default_dispatcher ''w'' None) a * 1000 \<le> 5 + 1000000 * int (Suc k)"
      using default_retry_le [of "''w''" None a] by simp
  qed
  moreover have "effort (default_dispatcher ''w'' None) sample_queue \<le> 20" "\<forall>e\<in>set (q_entries sample_queue). due 5 e" "q_next sample_queue \<le> 10 ^ 19"
    by (simp_all add: effort_def remaining_def row_open_def in_queue_def sample_queue_def new_entry_def default_dispatcher_def due_def)
  ultimately show ?thesis
    using dispatcher_drains_queue [of sample_queue "default_dispatcher ''w'' None" "\<lambda>k. 5 + 1000000 * int k" "\<lambda>k _. 5 + 1000000 * int k" 20] sample_queue_rows(1)
    by (simp add: default_dispatcher_def)
qed

end
