(* ===== verification/Outbox_Delivery.thy ===== *)
theory Outbox_Delivery
  imports Outbox_Store Audit_Trail
begin

text \<open>
  \<open>platform/outbox\<close> around the queues: the transport that fans events out to consumers
  (\<open>infrastructure/postgres/transport.ts\<close>), the idempotent consumer with its inbox (\<open>src/inbox.ts\<close> and the inbox part
  of \<open>infrastructure/postgres/store.ts\<close>) and the operators' dead-letter decisions (\<open>src/operations.ts\<close> and
  \<open>PostgresDeadLetterPersistence\<close>).

  The lemmas show that an event reaches each subscribed consumer as exactly one delivery however often it is
  published, that a consumer's effects happen once per event, and that a dead letter is resolved only
  together with its audit record.
\<close>

section \<open>Model: routes and the publisher\<close>

definition matches_consumer :: "string \<Rightarrow> bool" where
  "matches_consumer s = matches_head_tail is_lower is_scope_char 63 s"

record event_route =
  er_consumer :: string
  er_eventTypes :: "string list"

type_synonym route_map = "(string \<times> string list) list"

definition routed :: "route_map \<Rightarrow> string \<Rightarrow> string list" where
  "routed m ty = (case map_of m ty of None \<Rightarrow> [] | Some cs \<Rightarrow> cs)"

fun route_set :: "route_map \<Rightarrow> string \<Rightarrow> string list \<Rightarrow> route_map" where
  "route_set [] ty cs = [(ty, cs)]"
| "route_set ((k, v) # m) ty cs = (if k = ty then (k, cs) # m else (k, v) # route_set m ty cs)"

definition valid_event_type :: "string \<Rightarrow> bool" where
  "valid_event_type ty \<longleftrightarrow> trim ty \<noteq> [] \<and> CHR ''*'' \<notin> set ty"

fun route_types :: "string \<Rightarrow> string list \<Rightarrow> route_map \<Rightarrow> route_map res" where
  "route_types consumer [] m = Inr m"
| "route_types consumer (ty # tys) m =
     (if \<not> valid_event_type ty then Inl TypeError
      else route_types consumer tys (route_set m ty (routed m ty @ [consumer])))"

fun route_loop :: "event_route list \<Rightarrow> string list \<Rightarrow> route_map \<Rightarrow> route_map res" where
  "route_loop [] consumers m = Inr m"
| "route_loop (route # routes) consumers m =
     (if \<not> matches_consumer (er_consumer route) then Inl TypeError
      else if er_consumer route \<in> set consumers then Inl TypeError
      else if er_eventTypes route = [] then Inl TypeError
      else bindR (route_types (er_consumer route) (er_eventTypes route) m) (route_loop routes (er_consumer route # consumers)))"

definition validatedRoutes :: "event_route list \<Rightarrow> route_map res" where
  "validatedRoutes routes = route_loop routes [] []"

text \<open>The insert: (consumer, tenant, event id) is unique, a conflicting row is skipped. The identity column
  takes a value for skipped rows too. The statement notifies the consumers of the inserted rows.\<close>

definition delivery_key :: "outbox_entry \<Rightarrow> string option \<times> string \<times> string" where
  "delivery_key e = (oe_consumer e, ev_tenant_id (oe_envelope e), ev_id (oe_envelope e))"

definition insert_delivery :: "event_envelope \<Rightarrow> instant \<Rightarrow> string \<Rightarrow> queue_table \<times> string list \<Rightarrow> queue_table \<times> string list" where
  "insert_delivery env now consumer = (\<lambda>(t, notified).
     if list_ex (\<lambda>e. delivery_key e = (Some consumer, ev_tenant_id env, ev_id env)) (q_entries t)
     then (t\<lparr>q_next := q_next t + 1\<rparr>, notified)
     else (t\<lparr>q_entries := q_entries t @ [new_entry (q_next t) (Some consumer) env now], q_next := q_next t + 1\<rparr>, notified @ [consumer]))"

definition publish :: "route_map \<Rightarrow> instant \<Rightarrow> event_envelope \<Rightarrow> queue_table \<Rightarrow> queue_table \<times> string list" where
  "publish m now env t = (if routed m (ev_type env) = [] then (t, []) else fold (insert_delivery env now) (routed m (ev_type env)) (t, []))"

section \<open>Model: the idempotent consumer\<close>

text \<open>The consumer's database: the inbox and the tables of its own repositories. The handler is an argument;
  the number tells the deliveries of one event apart, so that a handler may fail and later succeed.\<close>

record 'a consumer_db =
  ib_records :: "(string \<times> string \<times> string) list"
  ib_own :: 'a

datatype inbox_outcome = recorded | duplicate

definition tryRecord :: "string \<Rightarrow> string \<Rightarrow> string \<Rightarrow> string \<Rightarrow> ('a consumer_db, inbox_outcome) tx" where
  "tryRecord boundTenantId consumer recordTenant eventId =
     bindT (assertT (recordTenant = boundTenantId) (Problem tenant_context_mismatch None None)) (\<lambda>_ s.
       if (recordTenant, consumer, eventId) \<in> set (ib_records s) then (Inr duplicate, s)
       else (Inr recorded, s\<lparr>ib_records := ib_records s @ [(recordTenant, consumer, eventId)]\<rparr>))"

definition inbox_runInTransaction :: "string \<Rightarrow> (string \<Rightarrow> ('a consumer_db, 'b) tx) \<Rightarrow> ('a consumer_db, 'b) tx" where
  "inbox_runInTransaction tenant work =
     bindT (liftT (tenantId tenant)) (\<lambda>boundTenantId. runInTransaction (work boundTenantId))"

definition on_own :: "('a, 'b) tx \<Rightarrow> ('a consumer_db, 'b) tx" where
  "on_own m s = (case m (ib_own s) of (r, x) \<Rightarrow> (r, s\<lparr>ib_own := x\<rparr>))"

definition createIdempotentConsumer :: "string \<Rightarrow> unit res" where
  "createIdempotentConsumer consumer = (if \<not> matches_consumer consumer then reject invalid_trusted_context else Inr ())"

definition consume :: "string \<Rightarrow> (event_envelope \<Rightarrow> ('a, unit) tx) \<Rightarrow> event_envelope \<Rightarrow> ('a consumer_db, bool) tx" where
  "consume consumer handle env =
     (if \<not> (isNonBlankString (ev_id env) \<and> isNonBlankString (ev_tenant_id env) \<and> isNonBlankString (ev_type env))
      then throwT (Problem invalid_trusted_context None None)
      else inbox_runInTransaction (ev_tenant_id env) (\<lambda>bound.
        bindT (tryRecord bound consumer (ev_tenant_id env) (ev_id env)) (\<lambda>outcome.
        case outcome of duplicate \<Rightarrow> returnT False
        | recorded \<Rightarrow> bindT (on_own (handle env)) (\<lambda>_. returnT True))))"

section \<open>Model: dead-letter operations\<close>

record dead_letter_input =
  dli_entryId :: nat
  dli_action :: string
  dli_reason :: string

definition OUTBOX_AUDIT_FIELDS :: "string list" where
  "OUTBOX_AUDIT_FIELDS = [''event_id'', ''event_type'', ''aggregate_type'', ''aggregate_id'', ''resolution'', ''previous_status'']"

definition action_of :: "string \<Rightarrow> dead_letter_action option" where
  "action_of s = (if s = ''requeue'' then Some requeue else if s = ''skip'' then Some skip else None)"

text \<open>The database of the dispatcher role, and the tenant the transaction is bound to.\<close>

record dead_letter_db =
  dd_queue :: queue_table
  dd_audit :: "audit_event list"
  dd_bound :: "string option"

definition on_queue :: "(queue_table, 'b) tx \<Rightarrow> (dead_letter_db, 'b) tx" where
  "on_queue m s = (case m (dd_queue s) of (r, x) \<Rightarrow> (r, s\<lparr>dd_queue := x\<rparr>))"

text \<open>\<open>resolveDeadLetter\<close> of the unit of work: the transaction is bound to the tenant of the resolved entry.\<close>

definition uow_resolveDeadLetter :: "queue_selector \<Rightarrow> nat \<Rightarrow> dead_letter_action \<Rightarrow> string \<Rightarrow> string \<Rightarrow> instant \<Rightarrow>
    (dead_letter_db, dead_letter_info option) tx" where
  "uow_resolveDeadLetter queue entryId action operatorId reason now =
     bindT (on_queue (resolveDeadLetterWith queue entryId action operatorId reason now)) (\<lambda>info s.
       case info of None \<Rightarrow> (Inr None, s) | Some i \<Rightarrow> (Inr (Some i), s\<lparr>dd_bound := Some (di_tenantId i)\<rparr>))"

definition boundAuditWriter :: "audit_event \<Rightarrow> (dead_letter_db, unit) tx" where
  "boundAuditWriter event s =
     (if dd_bound s \<noteq> Some (au_tenantId event) then (reject tenant_context_mismatch, s)
      else case appendAuditEvent event (dd_audit s) of (r, a) \<Rightarrow> (r, s\<lparr>dd_audit := a\<rparr>))"

definition dead_letter_audit :: "dead_letter_input \<Rightarrow> dead_letter_action \<Rightarrow> string \<Rightarrow> dead_letter_info \<Rightarrow> audit_input" where
  "dead_letter_audit input action reason resolved =
     \<lparr>ai_action = (if action = skip then ''outbox.dead_letter_skipped'' else ''outbox.dead_letter_requeued''),
      ai_targetType = ''OutboxEntry'', ai_targetId = nat_str (dli_entryId input), ai_reason = Some reason, ai_approvalId = None,
      ai_before = Some [(''previous_status'', JString ''dead'')],
      ai_after = Some [(''event_id'', JString (di_eventId resolved)), (''event_type'', JString (di_eventType resolved)),
        (''aggregate_type'', JString (di_aggregateType resolved)), (''aggregate_id'', JString (di_aggregateId resolved)),
        (''resolution'', JString (dli_action input))],
      ai_occurredAt = None\<rparr>"

text \<open>\<open>now\<close> and \<open>auditClock\<close> are the readings of the clock for the resolution and for the audit event.\<close>

definition resolveDeadLetter :: "audit_deps \<Rightarrow> queue_selector \<Rightarrow> (string \<Rightarrow> (dead_letter_db, unit) tx) \<Rightarrow> trust \<Rightarrow> ref \<Rightarrow> dead_letter_input \<Rightarrow>
    instant \<Rightarrow> date \<Rightarrow> string \<Rightarrow> (dead_letter_db, dead_letter_info) tx" where
  "resolveDeadLetter d queue authorize st c input now auditClock newId =
     bindT (authorize (dli_action input)) (\<lambda>_.
     let ctx = platformContexts st ! c; reason = trim (dli_reason input) in
     if reason = [] then throwT (Problem dead_letter_reason_required (Some (pc_correlationId ctx)) None)
     else case action_of (dli_action input) of
       None \<Rightarrow> throwT (Problem invalid_trusted_context (Some (pc_correlationId ctx)) None)
     | Some action \<Rightarrow> runInTransaction (
         bindT (\<lambda>s. (Inr (), s\<lparr>dd_bound := None\<rparr>)) (\<lambda>_.
         bindT (uow_resolveDeadLetter queue (dli_entryId input) action (pc_actorId ctx) reason now) (\<lambda>resolved.
         case resolved of
           None \<Rightarrow> throwT (Problem dead_letter_not_resolvable (Some (pc_correlationId ctx)) None)
         | Some info \<Rightarrow>
             bindT (recordForPlatformCommand d boundAuditWriter st c (di_tenantId info) (dead_letter_audit input action reason info) auditClock newId)
               (\<lambda>_. returnT info)))))"

section \<open>Routes and publishing\<close>

lemma routed_route_set [simp]: "routed (route_set m ty cs) ty' = (if ty' = ty then cs else routed m ty')"
  by (induction m ty cs rule: route_set.induct) (auto simp: routed_def)

lemma route_types_routed:
  "route_types consumer tys m = Inr m' \<Longrightarrow> set (routed m' ty) = set (routed m ty) \<union> (if ty \<in> set tys then {consumer} else {})"
  by (induction consumer tys m rule: route_types.induct) (auto split: if_splits)

lemma route_loop_routed:
  "route_loop routes consumers m = Inr m' \<Longrightarrow>
     set (routed m' ty) = set (routed m ty) \<union> {er_consumer r | r. r \<in> set routes \<and> ty \<in> set (er_eventTypes r)}"
proof (induction routes consumers m rule: route_loop.induct)
  case (2 route routes consumers m)
  then obtain m1 where m1: "route_types (er_consumer route) (er_eventTypes route) m = Inr m1"
    "route_loop routes (er_consumer route # consumers) m1 = Inr m'" by (auto simp: bindR_Inr_iff split: if_splits)
  have "set (routed m' ty) = set (routed m1 ty) \<union> {er_consumer r | r. r \<in> set routes \<and> ty \<in> set (er_eventTypes r)}"
    using 2 m1(2) by (auto split: if_splits)
  then show ?case using route_types_routed [OF m1(1), of ty] by auto
qed simp

lemma validatedRoutes_routed:
  "validatedRoutes routes = Inr m \<Longrightarrow> c \<in> set (routed m ty) \<longleftrightarrow> (\<exists>r\<in>set routes. er_consumer r = c \<and> ty \<in> set (er_eventTypes r))"
  using route_loop_routed [of routes "[]" "[]" m ty] by (auto simp: validatedRoutes_def routed_def)

definition has_delivery :: "queue_table \<Rightarrow> event_envelope \<Rightarrow> string \<Rightarrow> bool" where
  "has_delivery t env c \<longleftrightarrow> (\<exists>e\<in>set (q_entries t). delivery_key e = (Some c, ev_tenant_id env, ev_id env))"

definition one_per_key :: "queue_table \<Rightarrow> bool" where
  "one_per_key t \<longleftrightarrow> wf_queue t \<and> distinct (map delivery_key (q_entries t))"

lemma insert_delivery_effect:
  assumes "insert_delivery env now c (t, ns) = (t', ns')" "one_per_key t"
  shows "one_per_key t' \<and> (\<forall>c'. has_delivery t' env c' \<longleftrightarrow> has_delivery t env c' \<or> c' = c) \<and>
    (q_entries t' = q_entries t \<and> ns' = ns \<and> has_delivery t env c \<or>
     (\<exists>i. q_entries t' = q_entries t @ [new_entry i (Some c) env now] \<and> ns' = ns @ [c]))"
proof (cases "has_delivery t env c")
  case True
  then have "t' = t\<lparr>q_next := q_next t + 1\<rparr>" "ns' = ns" using assms(1) by (auto simp: insert_delivery_def has_delivery_def list_ex_iff)
  then show ?thesis using True assms(2) by (auto simp: one_per_key_def has_delivery_def wf_queue_def)
next
  case False
  then have t': "t' = t\<lparr>q_entries := q_entries t @ [new_entry (q_next t) (Some c) env now], q_next := q_next t + 1\<rparr>" "ns' = ns @ [c]"
    using assms(1) by (auto simp: insert_delivery_def has_delivery_def list_ex_iff split: if_splits)
  have key: "delivery_key (new_entry (q_next t) (Some c) env now) = (Some c, ev_tenant_id env, ev_id env)" "oe_id (new_entry (q_next t) (Some c) env now) = q_next t"
    by (simp_all add: delivery_key_def new_entry_def)
  have "(Some c, ev_tenant_id env, ev_id env) \<notin> delivery_key ` set (q_entries t)" using False by (auto simp: has_delivery_def)
  then have "one_per_key t'" using assms(2) key by (auto simp: t' one_per_key_def wf_queue_def sorted_wrt_append less_Suc_eq)
  then show ?thesis using key by (auto simp: t' has_delivery_def)
qed

lemma fold_insert_delivery:
  assumes "fold (insert_delivery env now) cs (t, ns) = (t', ns')" "one_per_key t"
  shows "one_per_key t' \<and> (\<forall>c. has_delivery t' env c \<longleftrightarrow> has_delivery t env c \<or> c \<in> set cs) \<and>
    (\<exists>is cs'. q_entries t' = q_entries t @ map2 (\<lambda>i c. new_entry i (Some c) env now) is cs' \<and> length is = length cs' \<and> ns' = ns @ cs')"
  using assms
proof (induction cs arbitrary: t ns)
  case Nil
  then show ?case by auto
next
  case (Cons c cs)
  obtain t1 ns1 where one: "insert_delivery env now c (t, ns) = (t1, ns1)" by fastforce
  have e: "one_per_key t1" "\<And>c'. has_delivery t1 env c' \<longleftrightarrow> has_delivery t env c' \<or> c' = c"
    and rows: "q_entries t1 = q_entries t \<and> ns1 = ns \<or> (\<exists>i. q_entries t1 = q_entries t @ [new_entry i (Some c) env now] \<and> ns1 = ns @ [c])"
    using insert_delivery_effect [OF one Cons.prems(2)] by blast+
  have "fold (insert_delivery env now) cs (t1, ns1) = (t', ns')" using Cons.prems(1) one by simp
  from Cons.IH [OF this e(1)] obtain "is" cs' where ih: "one_per_key t'" "\<And>c'. has_delivery t' env c' \<longleftrightarrow> has_delivery t1 env c' \<or> c' \<in> set cs"
    and r: "q_entries t' = q_entries t1 @ map2 (\<lambda>i c. new_entry i (Some c) env now) is cs'" "length is = length cs'" "ns' = ns1 @ cs'" by blast
  have "\<exists>is cs'. q_entries t' = q_entries t @ map2 (\<lambda>i c. new_entry i (Some c) env now) is cs' \<and> length is = length cs' \<and> ns' = ns @ cs'"
    using rows
  proof
    assume "q_entries t1 = q_entries t \<and> ns1 = ns"
    then show ?thesis using r by auto
  next
    assume "\<exists>i. q_entries t1 = q_entries t @ [new_entry i (Some c) env now] \<and> ns1 = ns @ [c]"
    then obtain i where "q_entries t1 = q_entries t @ [new_entry i (Some c) env now]" "ns1 = ns @ [c]" by blast
    then show ?thesis using r by (intro exI [of _ "i # is"] exI [of _ "c # cs'"]) simp
  qed
  then show ?case using ih e by auto
qed

lemma publish_rows:
  assumes "publish m now env t = (t', notified)" "one_per_key t"
  shows "one_per_key t' \<and> (\<forall>c. has_delivery t' env c \<longleftrightarrow> has_delivery t env c \<or> c \<in> set (routed m (ev_type env))) \<and>
    (\<exists>is. q_entries t' = q_entries t @ map2 (\<lambda>i c. new_entry i (Some c) env now) is notified \<and> length is = length notified)"
proof (cases "routed m (ev_type env) = []")
  case True
  then show ?thesis using assms by (auto simp: publish_def)
next
  case False
  then show ?thesis using fold_insert_delivery [of env now "routed m (ev_type env)" t "[]" t' notified] assms by (auto simp: publish_def)
qed

lemma fold_insert_none:
  "\<forall>c\<in>set cs. has_delivery t env c \<Longrightarrow> q_entries (fst (fold (insert_delivery env now) cs (t, ns))) = q_entries t \<and>
     snd (fold (insert_delivery env now) cs (t, ns)) = ns"
proof (induction cs arbitrary: t)
  case (Cons c cs)
  then have "insert_delivery env now c (t, ns) = (t\<lparr>q_next := q_next t + 1\<rparr>, ns)"
    by (auto simp: insert_delivery_def has_delivery_def list_ex_iff)
  then show ?case using Cons by (simp add: has_delivery_def)
qed simp

text \<open>The transport delivers to exactly the subscribers, once each. Publishing an event leaves the
  existing rows as they are and appends pending deliveries, one for each consumer it notifies; afterwards a
  consumer has a delivery of the event exactly when it had one before or a route subscribes it to the
  event's type. No (consumer, tenant, event) ever has two deliveries, and publishing the same event again
  adds nothing and notifies nobody.\<close>

theorem publish_reaches_subscribers_once:
  assumes "validatedRoutes routes = Inr m" "wf_queue t" "distinct (map delivery_key (q_entries t))" "publish m now env t = (t', notified)"
  shows "wf_queue t' \<and> distinct (map delivery_key (q_entries t')) \<and>
    (\<exists>is. length is = length notified \<and> q_entries t' = q_entries t @ map2 (\<lambda>i c. new_entry i (Some c) env now) is notified) \<and>
    (\<forall>c. has_delivery t' env c \<longleftrightarrow> has_delivery t env c \<or> (\<exists>r\<in>set routes. er_consumer r = c \<and> ev_type env \<in> set (er_eventTypes r))) \<and>
    q_entries (fst (publish m later env t')) = q_entries t' \<and> snd (publish m later env t') = []"
proof -
  have p: "one_per_key t'" "\<And>c. has_delivery t' env c \<longleftrightarrow> has_delivery t env c \<or> c \<in> set (routed m (ev_type env))"
    and r: "\<exists>is. q_entries t' = q_entries t @ map2 (\<lambda>i c. new_entry i (Some c) env now) is notified \<and> length is = length notified"
    using publish_rows [OF assms(4)] assms(2,3) by (auto simp: one_per_key_def)
  have "q_entries (fst (publish m later env t')) = q_entries t' \<and> snd (publish m later env t') = []"
    using fold_insert_none [of "routed m (ev_type env)" t' env later "[]"] p(2) by (simp add: publish_def)
  then show ?thesis using p r validatedRoutes_routed [OF assms(1)] by (auto simp: one_per_key_def)
qed

section \<open>The consumer's effects\<close>

definition inbox_key :: "string \<Rightarrow> event_envelope \<Rightarrow> string \<times> string \<times> string" where
  "inbox_key consumer env = (ev_tenant_id env, consumer, ev_id env)"

definition well_named :: "event_envelope \<Rightarrow> bool" where
  "well_named env \<longleftrightarrow> isNonBlankString (ev_id env) \<and> isNonBlankString (ev_tenant_id env) \<and> isNonBlankString (ev_type env)"

lemma consume_eq:
  "consume consumer handle env s =
     (if \<not> well_named env then (reject invalid_trusted_context, s)
      else if inbox_key consumer env \<in> set (ib_records s) then (Inr False, s)
      else case handle env (ib_own s) of
        (Inl e, _) \<Rightarrow> (Inl e, s)
      | (Inr _, x) \<Rightarrow> (Inr True, \<lparr>ib_records = ib_records s @ [inbox_key consumer env], ib_own = x\<rparr>))"
proof -
  have "tenantId (ev_tenant_id env) = Inr (ev_tenant_id env)" if "well_named env"
    using that by (simp add: tenantId_def ctx_requireNonBlank_def well_named_def isNonBlankString_def)
  then show ?thesis
    by (cases s) (simp add: consume_def well_named_def inbox_key_def inbox_runInTransaction_def runInTransaction_def tryRecord_def on_own_def tx_defs
      split: prod.splits sum.splits)
qed

fun deliveries :: "string \<Rightarrow> (nat \<Rightarrow> event_envelope \<Rightarrow> ('a, unit) tx) \<Rightarrow> nat \<Rightarrow> event_envelope list \<Rightarrow> 'a consumer_db \<Rightarrow> bool res list \<times> 'a consumer_db" where
  "deliveries consumer handle n [] s = ([], s)"
| "deliveries consumer handle n (env # envs) s =
     (let (r, s1) = consume consumer (handle n) env s; (rs, s2) = deliveries consumer handle (Suc n) envs s1 in (r # rs, s2))"

text \<open>What the handler does to the consumer's own tables on the processed deliveries alone.\<close>

fun handled :: "(nat \<Rightarrow> event_envelope \<Rightarrow> ('a, unit) tx) \<Rightarrow> nat \<Rightarrow> event_envelope list \<Rightarrow> bool res list \<Rightarrow> 'a \<Rightarrow> 'a" where
  "handled handle n (env # envs) (r # rs) x = handled handle (Suc n) envs rs (if r = Inr True then snd (handle n env x) else x)"
| "handled handle n _ _ x = x"

definition processed_keys :: "string \<Rightarrow> event_envelope list \<Rightarrow> bool res list \<Rightarrow> (string \<times> string \<times> string) list" where
  "processed_keys consumer envs rs = map (inbox_key consumer \<circ> fst) (filter (\<lambda>(env, r). r = Inr True) (zip envs rs))"

lemma processed_keys_Cons:
  "processed_keys consumer (env # envs) (r # rs) = (if r = Inr True then [inbox_key consumer env] else []) @ processed_keys consumer envs rs"
  by (simp add: processed_keys_def)

lemma consume_records:
  assumes "consume consumer handle env s = (r, s')"
  shows "ib_records s' = ib_records s @ (if r = Inr True then [inbox_key consumer env] else [])"
    and "ib_own s' = (if r = Inr True then snd (handle env (ib_own s)) else ib_own s)"
    and "r = Inr True \<Longrightarrow> inbox_key consumer env \<notin> set (ib_records s)"
    and "r = Inr False \<Longrightarrow> inbox_key consumer env \<in> set (ib_records s)"
  using assms by (auto simp: consume_eq split: if_splits prod.splits sum.splits)

lemma deliveries_effect:
  assumes "deliveries consumer handle n envs s = (rs, s')" "distinct (ib_records s)"
  shows "length rs = length envs \<and> ib_records s' = ib_records s @ processed_keys consumer envs rs \<and> distinct (ib_records s') \<and>
    ib_own s' = handled handle n envs rs (ib_own s)"
  using assms
proof (induction envs arbitrary: n s rs s')
  case Nil
  then show ?case by (simp add: processed_keys_def)
next
  case (Cons env envs)
  obtain r s1 where one: "consume consumer (handle n) env s = (r, s1)" by fastforce
  obtain rs' s2 where rest: "deliveries consumer handle (Suc n) envs s1 = (rs', s2)" by fastforce
  have rs: "rs = r # rs'" "s' = s2" using Cons.prems(1) one rest by simp_all
  have "distinct (ib_records s1)" using consume_records [OF one] Cons.prems(2) by (auto split: if_splits)
  from Cons.IH [OF rest this] show ?case
    using consume_records(1,2) [OF one] rs by (cases "r = Inr True") (auto simp: processed_keys_Cons)
qed

lemma deliveries_duplicate:
  assumes "deliveries consumer handle n envs s = (rs, s')" "i < length envs" "rs ! i = Inr False"
  shows "inbox_key consumer (envs ! i) \<in> set (ib_records s) \<or>
    (\<exists>j<i. rs ! j = Inr True \<and> inbox_key consumer (envs ! j) = inbox_key consumer (envs ! i))"
  using assms
proof (induction envs arbitrary: n s rs i)
  case (Cons env envs)
  obtain r s1 where one: "consume consumer (handle n) env s = (r, s1)" by fastforce
  obtain rs' s2 where rest: "deliveries consumer handle (Suc n) envs s1 = (rs', s2)" by fastforce
  have rs: "rs = r # rs'" "s' = s2" using Cons.prems(1) one rest by simp_all
  show ?case
  proof (cases i)
    case 0
    then show ?thesis using consume_records(4) [OF one] Cons.prems(3) rs(1) by simp
  next
    case (Suc k)
    then consider (old) "inbox_key consumer (envs ! k) \<in> set (ib_records s1)"
      | (new) j where "j < k" "rs' ! j = Inr True" "inbox_key consumer (envs ! j) = inbox_key consumer (envs ! k)"
      using Cons.IH [OF rest [folded rs(2)], of k] Cons.prems(2,3) rs(1) by auto
    then show ?thesis
    proof cases
      case old
      then show ?thesis using consume_records(1) [OF one] Suc rs(1) by (auto split: if_splits)
    next
      case new
      then show ?thesis using Suc rs(1) by (intro disjI2 exI [of _ "Suc j"]) simp
    qed
  qed
qed simp

text \<open>C14: a consumer's effects happen exactly once per event. Deliver any sequence of events, with any
  redeliveries, to a handler that may fail at some attempts. The consumer's own tables end as if the
  handler had run on the processed deliveries alone, in their order; no event is processed twice; a
  delivery that reports a duplicate follows a processed delivery of the same event (or one from before the
  run); and a delivery that failed left no trace, so a later one can still be processed.\<close>

theorem consumer_effects_exactly_once:
  assumes "distinct (ib_records s)" "deliveries consumer handle n envs s = (rs, s')"
  shows "length rs = length envs \<and> ib_own s' = handled handle n envs rs (ib_own s) \<and>
    distinct (processed_keys consumer envs rs) \<and> ib_records s' = ib_records s @ processed_keys consumer envs rs \<and>
    (\<forall>i<length envs. rs ! i = Inr False \<longrightarrow> inbox_key consumer (envs ! i) \<in> set (ib_records s) \<or>
       (\<exists>j<i. rs ! j = Inr True \<and> inbox_key consumer (envs ! j) = inbox_key consumer (envs ! i)))"
  using deliveries_effect [OF assms(2,1)] deliveries_duplicate [OF assms(2)] by auto

section \<open>Dead letters\<close>

lemma resolveDeadLetterWith_Some:
  assumes "resolveDeadLetterWith queue i action operator reason now t = (Inr (Some info), t')"
  obtains e where "e \<in> set (q_entries t)" "oe_id e = i" "oe_status e = dead" "in_queue queue e" "info_of e = Inr info"
    "q_entries t' = map (\<lambda>x. if oe_id x = i \<and> oe_status x = dead \<and> in_queue queue x
       then resolve_entry action \<lparr>dl_action = action, dl_operatorId = operator, dl_reason = reason, dl_resolvedAt = now\<rparr> now x else x) (q_entries t)"
proof -
  let ?p = "\<lambda>e. oe_id e = i \<and> oe_status e = dead \<and> in_queue queue e"
  have n: "length (filter ?p (q_entries t)) = 1" and info: "info_of (hd (filter ?p (q_entries t))) = Inr info"
    and t': "q_entries t' = map (\<lambda>x. if ?p x
       then resolve_entry action \<lparr>dl_action = action, dl_operatorId = operator, dl_reason = reason, dl_resolvedAt = now\<rparr> now x else x) (q_entries t)"
    using assms by (auto simp: resolveDeadLetterWith_def update_rows_def Let_def bindT_Inr_iff split: if_splits)
  have "hd (filter ?p (q_entries t)) \<in> set (filter ?p (q_entries t))" using n by (intro hd_in_set) auto
  then show ?thesis using that [of "hd (filter ?p (q_entries t))"] info t' by simp
qed

text \<open>What a resolution committed: the entry was dead and carries the decision now, and one audit event of
  the entry's tenant names the operator.\<close>

definition dead_letter_decided :: "queue_selector \<Rightarrow> dead_letter_input \<Rightarrow> platform_context \<Rightarrow> instant \<Rightarrow> (string \<Rightarrow> string) \<Rightarrow>
    dead_letter_db \<Rightarrow> dead_letter_db \<Rightarrow> bool" where
  "dead_letter_decided queue input ctx now redact s s' \<longleftrightarrow>
     (\<exists>e a action. action_of (dli_action input) = Some action \<and> trim (dli_reason input) \<noteq> [] \<and>
        e \<in> set (q_entries (dd_queue s)) \<and> oe_id e = dli_entryId input \<and> oe_status e = dead \<and> in_queue queue e \<and>
        q_entries (dd_queue s') = map (\<lambda>x. if oe_id x = dli_entryId input \<and> oe_status x = dead \<and> in_queue queue x
          then resolve_entry action \<lparr>dl_action = action, dl_operatorId = pc_actorId ctx, dl_reason = trim (dli_reason input), dl_resolvedAt = now\<rparr> now x
          else x) (q_entries (dd_queue s)) \<and>
        dd_audit s' = dd_audit s @ [a] \<and> au_tenantId a = ev_tenant_id (oe_envelope e) \<and> au_actorId a = pc_actorId ctx \<and>
        au_action a = (if action = skip then ''outbox.dead_letter_skipped'' else ''outbox.dead_letter_requeued'') \<and>
        au_targetId a = nat_str (oe_id e) \<and> au_reason a = safe_reason redact (Some (trim (dli_reason input))))"

lemma appendAuditEvent_Inr_iff:
  "appendAuditEvent e table = (Inr (), table') \<Longrightarrow> table' = table @ [e]"
  by (auto simp: appendAuditEvent_def split: if_splits)

lemma resolveDeadLetter_success:
  assumes "resolveDeadLetter d queue authorize st c input now auditClock newId s = (Inr info, s')"
  obtains s0 where "authorize (dli_action input) s = (Inr (), s0)" "c \<in> set (issuedPlatformContexts st)"
    "dead_letter_decided queue input (platformContexts st ! c) now (ad_redact d) s0 s'"
proof -
  let ?ctx = "platformContexts st ! c"
  obtain s0 action t' ev where a: "authorize (dli_action input) s = (Inr (), s0)" "trim (dli_reason input) \<noteq> []" "action_of (dli_action input) = Some action"
    and r: "resolveDeadLetterWith queue (dli_entryId input) action (pc_actorId ?ctx) (trim (dli_reason input)) now (dd_queue s0) = (Inr (Some info), t')"
    and w: "recordForPlatformCommand d boundAuditWriter st c (di_tenantId info) (dead_letter_audit input action (trim (dli_reason input)) info) auditClock newId
        (s0\<lparr>dd_queue := t', dd_bound := Some (di_tenantId info)\<rparr>) = (Inr ev, s')"
    using assms by (auto simp: resolveDeadLetter_def Let_def bindT_Inr_iff uow_resolveDeadLetter_def on_queue_def split: if_splits option.splits prod.splits)
  from r obtain e where e: "e \<in> set (q_entries (dd_queue s0))" "oe_id e = dli_entryId input" "oe_status e = dead" "in_queue queue e" "info_of e = Inr info"
    and rows: "q_entries t' = map (\<lambda>x. if oe_id x = dli_entryId input \<and> oe_status x = dead \<and> in_queue queue x
       then resolve_entry action \<lparr>dl_action = action, dl_operatorId = pc_actorId ?ctx, dl_reason = trim (dli_reason input), dl_resolvedAt = now\<rparr> now x else x)
       (q_entries (dd_queue s0))"
    by (rule resolveDeadLetterWith_Some)
  have ten: "di_tenantId info = ev_tenant_id (oe_envelope e)"
    using e(5) by (auto simp: info_of_def bindR_Inr_iff tenantId_def ctx_requireNonBlank_def split: if_splits)
  from w have iss: "c \<in> set (issuedPlatformContexts st)"
    and b: "build_audit_event d \<lparr>es_tenantId = di_tenantId info, es_actorId = pc_actorId ?ctx, es_principalKind = pc_principalKind ?ctx,
        es_correlationId = pc_correlationId ?ctx, es_causationId = pc_causationId ?ctx\<rparr>
        (dead_letter_audit input action (trim (dli_reason input)) info) auditClock newId = Inr ev"
    and wr: "boundAuditWriter ev (s0\<lparr>dd_queue := t', dd_bound := Some (di_tenantId info)\<rparr>) = (Inr (), s')"
    by (auto simp: recordForPlatformCommand_def bindT_Inr_iff eventScopeForPlatformCommand_def bindR_Inr_iff issued_platform_def
        assertIssuedPlatformContext_def assertT_def recordForScope_Inr_iff split: if_splits)
  have ev: "au_tenantId ev = di_tenantId info" "au_actorId ev = pc_actorId ?ctx" "au_action ev = (if action = skip then ''outbox.dead_letter_skipped'' else ''outbox.dead_letter_requeued'')"
    "au_targetId ev = nat_str (dli_entryId input)" "au_reason ev = safe_reason (ad_redact d) (Some (trim (dli_reason input)))"
    using b by (auto simp: unsealed_event_def dead_letter_audit_def elim!: build_audit_event_Inr)
  have s': "dd_queue s' = t'" "dd_audit s' = dd_audit s0 @ [ev]"
    using wr by (auto simp: boundAuditWriter_def dest!: appendAuditEvent_Inr_iff split: if_splits prod.splits)
  have "dead_letter_decided queue input ?ctx now (ad_redact d) s0 s'"
    unfolding dead_letter_decided_def
    by (intro exI [of _ e] exI [of _ ev] exI [of _ action] conjI) (simp_all add: a e rows ev ten s')
  then show ?thesis using that [OF a(1) iss] by blast
qed

text \<open>C31: a dead letter is decided by an authorized operator, with a reason, and never without its audit
  record. A successful resolution was authorized, came with an issued platform context and a reason, found
  the entry dead, stored the decision on it and appended an audit event of the entry's own tenant that names
  the operator and the reason; a resolution that fails leaves queue and audit trail as authorization left
  them.\<close>

theorem dead_letter_resolved_with_audit:
  "(resolveDeadLetter d queue authorize st c input now auditClock newId s = (Inr info, s') \<longrightarrow>
     (\<exists>s0. authorize (dli_action input) s = (Inr (), s0) \<and> c \<in> set (issuedPlatformContexts st) \<and>
        dead_letter_decided queue input (platformContexts st ! c) now (ad_redact d) s0 s')) \<and>
   (resolveDeadLetter d queue authorize st c input now auditClock newId s = (Inl err, s') \<longrightarrow> s' = snd (authorize (dli_action input) s))"
proof (intro conjI impI)
  assume "resolveDeadLetter d queue authorize st c input now auditClock newId s = (Inr info, s')"
  then show "\<exists>s0. authorize (dli_action input) s = (Inr (), s0) \<and> c \<in> set (issuedPlatformContexts st) \<and>
      dead_letter_decided queue input (platformContexts st ! c) now (ad_redact d) s0 s'"
    by (rule resolveDeadLetter_success) blast
next
  assume "resolveDeadLetter d queue authorize st c input now auditClock newId s = (Inl err, s')"
  then show "s' = snd (authorize (dli_action input) s)"
    by (auto simp: resolveDeadLetter_def Let_def bindT_def [of "authorize _"] throwT_def runInTransaction_def
        split: prod.splits sum.splits if_splits option.splits)
qed

section \<open>Concrete deliveries\<close>

definition example_envelope :: event_envelope where
  "example_envelope = envelope_of (scope_of_context (example_context ''t:1'')) sample_build_input ''evt_1'' 1 5 5"

definition example_routes :: "event_route list" where
  "example_routes = [\<lparr>er_consumer = ''billing'', er_eventTypes = [''com.subrevos.role.assigned.v1'']\<rparr>]"

lemma example_fields:
  "ev_id example_envelope = ''evt_1''" "ev_tenant_id example_envelope = ''t:1''" "ev_type example_envelope = ''com.subrevos.role.assigned.v1''"
  by (simp_all add: example_envelope_def envelope_of_def scope_of_context_def example_context_def sample_build_input_def)

lemma example_validated: "validatedRoutes example_routes = Inr [(''com.subrevos.role.assigned.v1'', [''billing''])]"
  by (simp add: validatedRoutes_def example_routes_def matches_consumer_def matches_head_tail_def is_lower_def is_scope_char_def is_name_char_def
      is_digit_def less_eq_char_def valid_event_type_def trim_def is_space_def routed_def)

theorem publish_reaches_subscribers_once_witness:
  "has_delivery (fst (publish [(''com.subrevos.role.assigned.v1'', [''billing''])] 6 example_envelope \<lparr>q_entries = [], q_next = 1\<rparr>)) example_envelope ''billing'' \<and>
   snd (publish [(''com.subrevos.role.assigned.v1'', [''billing''])] 7 example_envelope
     (fst (publish [(''com.subrevos.role.assigned.v1'', [''billing''])] 6 example_envelope \<lparr>q_entries = [], q_next = 1\<rparr>))) = []"
  using publish_reaches_subscribers_once [OF example_validated, of "\<lparr>q_entries = [], q_next = 1\<rparr>" 6 example_envelope _ _ 7]
  by (auto simp: wf_queue_def example_routes_def example_fields has_delivery_def prod_eq_iff)

theorem consumer_effects_exactly_once_witness:
  "fst (deliveries ''billing'' (\<lambda>n _ x. if n = 0 then (Inl Error, x) else (Inr (), Suc x)) 0 [example_envelope, example_envelope, example_envelope]
     \<lparr>ib_records = [], ib_own = 0\<rparr>) = [Inl Error, Inr True, Inr False] \<and>
   ib_own (snd (deliveries ''billing'' (\<lambda>n _ x. if n = 0 then (Inl Error, x) else (Inr (), Suc x)) 0 [example_envelope, example_envelope, example_envelope]
     \<lparr>ib_records = [], ib_own = 0\<rparr>)) = 1"
proof -
  let ?h = "\<lambda>n (_ :: event_envelope) x. if n = (0::nat) then (Inl Error, x) else (Inr (), Suc x)"
  have wn: "well_named example_envelope"
    by (simp add: well_named_def isNonBlankString_def trim_def is_space_def example_fields)
  have r: "fst (deliveries ''billing'' ?h 0 [example_envelope, example_envelope, example_envelope] \<lparr>ib_records = [], ib_own = 0\<rparr>) =
      [Inl Error, Inr True, Inr False]"
    by (simp add: consume_eq wn)
  have "ib_own (snd (deliveries ''billing'' ?h 0 [example_envelope, example_envelope, example_envelope] \<lparr>ib_records = [], ib_own = 0\<rparr>)) =
      handled ?h 0 [example_envelope, example_envelope, example_envelope]
        (fst (deliveries ''billing'' ?h 0 [example_envelope, example_envelope, example_envelope] \<lparr>ib_records = [], ib_own = 0\<rparr>)) 0"
    using consumer_effects_exactly_once [of "\<lparr>ib_records = [], ib_own = 0\<rparr>" "''billing''" ?h 0
      "[example_envelope, example_envelope, example_envelope]"] by (simp add: prod_eq_iff)
  then show ?thesis using r by simp
qed

definition example_platform_trust :: trust where
  "example_platform_trust = \<lparr>principals = [], issuedPrincipals = [], contexts = [], issuedContexts = [],
     platformContexts = [\<lparr>pc_actorId = ''op'', pc_principalKind = interactive, pc_correlationId = ''r'', pc_causationId = None, pc_assurance = mfa,
       pc_credentialId = ''c'', pc_audiences = [''platform''], pc_scopes = []\<rparr>],
     issuedPlatformContexts = [0], storage = None\<rparr>"

definition example_dead_db :: dead_letter_db where
  "example_dead_db = \<lparr>dd_queue = \<lparr>q_entries = [(new_entry 1 None example_envelope 5)\<lparr>oe_status := dead\<rparr>], q_next = 2\<rparr>, dd_audit = [], dd_bound = None\<rparr>"

definition example_decision :: dead_letter_input where
  "example_decision = \<lparr>dli_entryId = 1, dli_action = ''skip'', dli_reason = '' accepted ''\<rparr>"

definition example_audit_deps :: audit_deps where
  "example_audit_deps = \<lparr>ad_policy = [(''OutboxEntry'', OUTBOX_AUDIT_FIELDS)], ad_redact = id, ad_sha256 = id\<rparr>"

lemma example_decision_built:
  "\<exists>e. build_audit_event example_audit_deps sc (dead_letter_audit example_decision skip ''accepted'' info) (Some 9) ''aud'' = Inr e"
  by (rule build_audit_event_ok [where recorded = 9 and occurred = 9])
     (simp_all add: dead_letter_audit_def matches_action_def is_lower_def is_field_char_def is_digit_def less_eq_char_def blank_def is_space_def
       example_decision_def allowedFields_def example_audit_deps_def nat_str.simps digit_char_def)

theorem dead_letter_resolved_with_audit_witness:
  "\<exists>info s'. resolveDeadLetter example_audit_deps None (\<lambda>_. returnT ()) example_platform_trust 0 example_decision 8 (Some 9) ''aud'' example_dead_db = (Inr info, s') \<and>
     dead_letter_decided None example_decision (platformContexts example_platform_trust ! 0) 8 id example_dead_db s'"
proof -
  let ?run = "resolveDeadLetter example_audit_deps None (\<lambda>_. returnT ()) example_platform_trust 0 example_decision 8 (Some 9) ''aud'' example_dead_db"
  have t: "tenantId ''t:1'' = Inr ''t:1''" by (simp add: tenantId_def ctx_requireNonBlank_def trim_def is_space_def)
  obtain info s' where run: "?run = (Inr info, s')"
  proof -
    let ?sc = "\<lparr>es_tenantId = ''t:1'', es_actorId = ''op'', es_principalKind = interactive, es_correlationId = ''r'', es_causationId = None\<rparr>"
    let ?info = "\<lparr>di_entryId = 1, di_tenantId = ''t:1'', di_eventId = ''evt_1'', di_eventType = ''com.subrevos.role.assigned.v1'',
        di_aggregateType = ev_aggregate_type example_envelope, di_aggregateId = ev_aggregate_id example_envelope\<rparr>"
    obtain e where e: "build_audit_event example_audit_deps ?sc (dead_letter_audit example_decision skip ''accepted'' ?info) (Some 9) ''aud'' = Inr e"
      using example_decision_built by blast
    have "au_tenantId e = ''t:1''" using e by (auto simp: unsealed_event_def elim!: build_audit_event_Inr)
    then have "fst ?run = Inr ?info" using e t
      by (simp add: resolveDeadLetter_def Let_def example_decision_def trim_def is_space_def action_of_def runInTransaction_def uow_resolveDeadLetter_def
          on_queue_def resolveDeadLetterWith_def entry_id_ok_def update_rows_def in_queue_def example_dead_db_def new_entry_def info_of_def example_fields
          recordForPlatformCommand_def eventScopeForPlatformCommand_def issued_platform_def assertIssuedPlatformContext_def example_platform_trust_def
          recordForScope_def boundAuditWriter_def appendAuditEvent_def tx_defs)
    then show ?thesis using that by (metis prod.collapse)
  qed
  from dead_letter_resolved_with_audit [THEN conjunct1, rule_format, OF run] show ?thesis
    using run by (auto simp: returnT_def example_audit_deps_def)
qed

end
