(* ===== verification/Identity_Store.thy ===== *)
theory Identity_Store
  imports Idempotency Tenant_Domain Authorization Approval Audit_Trail Outbox_Store
begin

text \<open>
  The identity-tenant module's PostgreSQL tables and repositories
  (\<open>modules/identity-tenant/infrastructure/postgres\<close>: \<open>tenant-persistence.ts\<close>, \<open>security-persistence.ts\<close>, \<open>grant-store.ts\<close>,
  \<open>approval-policy-reader.ts\<close>, \<open>credential-status.ts\<close>). The database is a record of its tables; a repository call
  is a transaction step that first checks that it acts on the tenant the transaction is bound to. The
  constraints of the schema that the code relies on are part of the steps: keys are unique, and a tenant
  row is never updated before it was created. Row locks serialise role changes, so transactions are taken
  one at a time. A tenant read back has its instants cut to the second.

  The lemmas give the effect of each successful call, what each repository leaves alone, and how stored role
  limits are read back: a limit that names its permission but is otherwise malformed is never satisfied.
\<close>

section \<open>Model: the database\<close>

text \<open>A role row keeps its permissions and limits as the JSON the table holds.\<close>

record role_row =
  rr_permissions :: js_value
  rr_status :: role_status
  rr_limits :: js_value

record assignment_row =
  as_tenantId :: string
  as_actorId :: string
  as_roleCode :: string
  as_active :: bool

record identity_db =
  db_tenants :: "string \<rightharpoonup> tenant_snapshot"
  db_roles :: "string \<times> string \<rightharpoonup> role_row"
  db_assignments :: "assignment_row list"
  db_policies :: "string \<times> string \<rightharpoonup> default_policy"
  db_audit :: "audit_event list"
  db_outbox :: queue_table

definition empty_db :: identity_db where
  "empty_db = \<lparr>db_tenants = Map.empty, db_roles = Map.empty, db_assignments = [], db_policies = Map.empty, db_audit = [],
     db_outbox = \<lparr>q_entries = [], q_next = 1\<rparr>\<rparr>"

section \<open>Model: the tenant unit of work\<close>

definition assertTenantMatch :: "string \<Rightarrow> string \<Rightarrow> unit res" where
  "assertTenantMatch actual expected = (if actual \<noteq> expected then reject tenant_context_mismatch else Inr ())"

definition guarded :: "string \<Rightarrow> string \<Rightarrow> ('s, 'a) tx \<Rightarrow> ('s, 'a) tx" where
  "guarded actual bound m = bindT (liftT (assertTenantMatch actual bound)) (\<lambda>_. m)"

definition tenants_insert :: "string \<Rightarrow> tenant_snapshot \<Rightarrow> (identity_db, unit) tx" where
  "tenants_insert bound tenant = guarded (t_id tenant) bound (\<lambda>s.
     if t_id tenant \<in> dom (db_tenants s) then (reject tenant_already_exists, s)
     else (Inr (), s\<lparr>db_tenants := (db_tenants s)(t_id tenant \<mapsto> tenant)\<rparr>))"

text \<open>A row as it is read: its instants lose their milliseconds.\<close>

definition snapshot :: "tenant_snapshot \<Rightarrow> tenant_snapshot res" where
  "snapshot row = bindR (tenantId (t_id row)) (\<lambda>i. Inr (row\<lparr>t_id := i, t_createdAt := via_date_text (t_createdAt row), t_updatedAt := via_date_text (t_updatedAt row)\<rparr>))"

definition tenants_findById :: "string \<Rightarrow> string \<Rightarrow> (identity_db, tenant_snapshot option) tx" where
  "tenants_findById bound i = guarded i bound (\<lambda>s.
     (case db_tenants s i of None \<Rightarrow> Inr None | Some row \<Rightarrow> bindR (snapshot row) (\<lambda>t. Inr (Some t)), s))"

text \<open>Compare and set: the creation instant stays, and the table refuses an update before it.\<close>

definition tenants_update :: "string \<Rightarrow> tenant_snapshot \<Rightarrow> int \<Rightarrow> (identity_db, unit) tx" where
  "tenants_update bound tenant expectedVersion = guarded (t_id tenant) bound (\<lambda>s.
     case db_tenants s (t_id tenant) of
       None \<Rightarrow> (reject tenant_version_conflict, s)
     | Some row \<Rightarrow>
         if t_version row \<noteq> expectedVersion then (reject tenant_version_conflict, s)
         else if t_updatedAt tenant < t_createdAt row then (Inl Error, s)
         else (Inr (), s\<lparr>db_tenants := (db_tenants s)(t_id tenant \<mapsto>
           row\<lparr>t_displayName := t_displayName tenant, t_state := t_state tenant, t_version := t_version tenant, t_updatedAt := t_updatedAt tenant\<rparr>)\<rparr>))"

definition default_administrator_role :: role_row where
  "default_administrator_role =
     \<lparr>rr_permissions = JArray [JString ''tenant:role:manage'', JString ''tenant:role:assign''], rr_status = role_active, rr_limits = JArray []\<rparr>"

definition insertDefaultAdministratorRole :: "string \<Rightarrow> string \<Rightarrow> string \<Rightarrow> (identity_db, unit) tx" where
  "insertDefaultAdministratorRole bound tenant roleCode = guarded tenant bound (\<lambda>s.
     if (tenant, roleCode) \<in> dom (db_roles s) then (Inl Error, s)
     else (Inr (), s\<lparr>db_roles := (db_roles s)((tenant, roleCode) \<mapsto> default_administrator_role)\<rparr>))"

definition assignment_key :: "assignment_row \<Rightarrow> string \<times> string \<times> string" where
  "assignment_key a = (as_tenantId a, as_actorId a, as_roleCode a)"

definition active_assignment :: "string \<Rightarrow> string \<Rightarrow> string \<Rightarrow> assignment_row" where
  "active_assignment tenant actor roleCode = \<lparr>as_tenantId = tenant, as_actorId = actor, as_roleCode = roleCode, as_active = True\<rparr>"

definition insertInitialAdministrator :: "string \<Rightarrow> string \<Rightarrow> string \<Rightarrow> string \<Rightarrow> (identity_db, unit) tx" where
  "insertInitialAdministrator bound tenant actor roleCode = guarded tenant bound (\<lambda>s.
     if list_ex (\<lambda>a. assignment_key a = (tenant, actor, roleCode)) (db_assignments s) then (Inl Error, s)
     else (Inr (), s\<lparr>db_assignments := db_assignments s @ [active_assignment tenant actor roleCode]\<rparr>))"

definition policies_insert :: "string \<Rightarrow> string \<Rightarrow> default_policy \<Rightarrow> (identity_db, unit) tx" where
  "policies_insert bound tenant policy = guarded tenant bound (\<lambda>s.
     if (tenant, dp_actionType policy) \<in> dom (db_policies s) then (Inl Error, s)
     else (Inr (), s\<lparr>db_policies := (db_policies s)((tenant, dp_actionType policy) \<mapsto> policy)\<rparr>))"

fun policies_insert_all :: "string \<Rightarrow> string \<Rightarrow> default_policy list \<Rightarrow> (identity_db, unit) tx" where
  "policies_insert_all bound tenant [] = returnT ()"
| "policies_insert_all bound tenant (p # ps) = bindT (policies_insert bound tenant p) (\<lambda>_. policies_insert_all bound tenant ps)"

definition audit_append :: "string \<Rightarrow> audit_event \<Rightarrow> (identity_db, unit) tx" where
  "audit_append bound event = guarded (au_tenantId event) bound (\<lambda>s.
     case appendAuditEvent event (db_audit s) of (r, a) \<Rightarrow> (r, s\<lparr>db_audit := a\<rparr>))"

definition outbox_append :: "string \<Rightarrow> event_envelope \<Rightarrow> (identity_db, unit) tx" where
  "outbox_append bound env = guarded (ev_tenant_id env) bound (\<lambda>s.
     case appendOutboxEvent env (db_outbox s) of (r, q) \<Rightarrow> (r, s\<lparr>db_outbox := q\<rparr>))"

section \<open>Model: role assignments\<close>

definition string_items :: "js_value \<Rightarrow> string list" where
  "string_items v = (case v of JArray items \<Rightarrow> List.map_filter (\<lambda>i. case i of JString s \<Rightarrow> Some s | _ \<Rightarrow> None) items | _ \<Rightarrow> [])"

definition roles_findByCode :: "string \<Rightarrow> string \<Rightarrow> string \<Rightarrow> (identity_db, role_snapshot option) tx" where
  "roles_findByCode bound tenant roleCode = guarded tenant bound (\<lambda>s.
     (Inr (map_option (\<lambda>row. \<lparr>role_code = roleCode, role_permissions = string_items (rr_permissions row), role_status = rr_status row, role_limits = None\<rparr>)
        (db_roles s (tenant, roleCode))), s))"

text \<open>A revoked assignment is reactivated; an active one is a conflict.\<close>

definition assignments_insert :: "string \<Rightarrow> string \<Rightarrow> string \<Rightarrow> string \<Rightarrow> (identity_db, unit) tx" where
  "assignments_insert bound tenant actor roleCode = guarded tenant bound (\<lambda>s.
     let same = (\<lambda>a. assignment_key a = (tenant, actor, roleCode)) in
     if \<not> list_ex same (db_assignments s)
     then (Inr (), s\<lparr>db_assignments := db_assignments s @ [active_assignment tenant actor roleCode]\<rparr>)
     else if length (filter (\<lambda>a. same a \<and> \<not> as_active a) (db_assignments s)) \<noteq> 1 then (reject role_assignment_exists, s)
     else (Inr (), s\<lparr>db_assignments := map (\<lambda>a. if same a \<and> \<not> as_active a then a\<lparr>as_active := True\<rparr> else a) (db_assignments s)\<rparr>))"

definition assignments_remove :: "string \<Rightarrow> string \<Rightarrow> string \<Rightarrow> string \<Rightarrow> (identity_db, unit) tx" where
  "assignments_remove bound tenant actor roleCode = guarded tenant bound (\<lambda>s.
     let held = (\<lambda>a. assignment_key a = (tenant, actor, roleCode) \<and> as_active a) in
     if length (filter held (db_assignments s)) \<noteq> 1 then (reject role_assignment_not_found, s)
     else (Inr (), s\<lparr>db_assignments := map (\<lambda>a. if held a then a\<lparr>as_active := False\<rparr> else a) (db_assignments s)\<rparr>))"

definition holders :: "string \<Rightarrow> string \<Rightarrow> assignment_row list \<Rightarrow> assignment_row list" where
  "holders tenant roleCode rows = filter (\<lambda>a. as_tenantId a = tenant \<and> as_roleCode a = roleCode \<and> as_active a) rows"

definition countActiveHolders :: "string \<Rightarrow> string \<Rightarrow> string \<Rightarrow> (identity_db, nat) tx" where
  "countActiveHolders bound tenant roleCode = guarded tenant bound (\<lambda>s. (Inr (length (holders tenant roleCode (db_assignments s))), s))"

section \<open>Model: the grant store\<close>

text \<open>
  \<open>String(v)\<close>. An object is asked for its \<open>toString\<close>; data that has a property of that name has no method there, nor a primitive
  value, and the conversion throws. A list converts its items. \<open>js_text\<close> is the text of a field that validation has accepted as a
  string.
\<close>

fun js_String :: "js_value \<Rightarrow> string res" where
  "js_String JNull = Inr ''null''"
| "js_String JUndefined = Inr ''undefined''"
| "js_String (JBool b) = Inr (if b then ''true'' else ''false'')"
| "js_String (JNumber n) = Inr (case n of Num i \<Rightarrow> json_int i | NegZero \<Rightarrow> ''0'' | NaN \<Rightarrow> ''NaN'' | PosInf \<Rightarrow> ''Infinity'' | NegInf \<Rightarrow> ''-Infinity'')"
| "js_String (JString s) = Inr s"
| "js_String (JArray items) = bindR (mapR (\<lambda>i. if i = JNull \<or> i = JUndefined then Inr '''' else js_String i) items) (\<lambda>texts. Inr (join_comma texts))"
| "js_String (JObject es) = (if ''toString'' \<in> fst ` set es then Inl TypeError else Inr ''[object Object]'')"
| "js_String (JInstance es) = (if ''toString'' \<in> fst ` set es then Inl TypeError else Inr ''[object Object]'')"
| "js_String JOther = Inr ''[object Object]''"

definition js_text :: "js_value \<Rightarrow> string" where
  "js_text v = (case js_String v of Inr t \<Rightarrow> t | Inl e \<Rightarrow> '''')"

lemma js_text_JString [simp]: "js_text (JString s) = s"
  by (simp add: js_text_def)

definition js_prop :: "js_value \<Rightarrow> string \<Rightarrow> js_value" where
  "js_prop v k = (case v of JObject es \<Rightarrow> (case map_of es k of None \<Rightarrow> JUndefined | Some x \<Rightarrow> x) | _ \<Rightarrow> JUndefined)"

definition constraint_scalar :: "js_value \<Rightarrow> constraint_value option" where
  "constraint_scalar v = (case v of JString s \<Rightarrow> Some (CStr s) | JNumber n \<Rightarrow> Some (CNum n) | _ \<Rightarrow> None)"

definition operator_of :: "js_value \<Rightarrow> constraint_operator" where
  "operator_of v = (case v of
     JString s \<Rightarrow> if s = ''eq'' then op_eq else if s = ''lt'' then op_lt else if s = ''lte'' then op_lte
       else if s = ''gt'' then op_gt else if s = ''gte'' then op_gte else if s = ''in'' then op_in else op_unknown
   | _ \<Rightarrow> op_unknown)"

definition limitFrom :: "js_value \<Rightarrow> permission_constraint res" where
  "limitFrom v = bindR (js_String (js_prop v ''permission'')) (\<lambda>permission. Inr
     \<lparr>pcn_permission = permission,
      pcn_attribute = (case js_prop v ''attribute'' of JString s \<Rightarrow> s | _ \<Rightarrow> ''''),
      pcn_operator = operator_of (js_prop v ''operator''),
      pcn_value = (case js_prop v ''value'' of
          JArray items \<Rightarrow> Many (List.map_filter constraint_scalar items)
        | x \<Rightarrow> (case constraint_scalar x of Some c \<Rightarrow> Single c | None \<Rightarrow> Single (CStr ''''))) \<rparr>)"

definition limits_from :: "js_value \<Rightarrow> permission_constraint list res" where
  "limits_from v = (case v of JArray items \<Rightarrow> mapR limitFrom items | _ \<Rightarrow> Inr [])"

definition role_from :: "string \<times> role_row \<Rightarrow> role_snapshot res" where
  "role_from = (\<lambda>(roleCode, row). bindR (limits_from (rr_limits row)) (\<lambda>limits. Inr
     \<lparr>role_code = roleCode, role_permissions = string_items (rr_permissions row), role_status = rr_status row, role_limits = Some limits\<rparr>))"

definition loadAssignedRoles :: "identity_db \<Rightarrow> grant_store" where
  "loadAssignedRoles db tenant actor =
     mapR role_from (List.map_filter (\<lambda>code. map_option (Pair code) (db_roles db (tenant, code)))
       (sort (map as_roleCode (filter (\<lambda>a. as_tenantId a = tenant \<and> as_actorId a = actor \<and> as_active a) (db_assignments db)))))"

section \<open>Model: policies and revocations\<close>

definition findByActionType :: "identity_db \<Rightarrow> string \<Rightarrow> string \<Rightarrow> approval_policy option res" where
  "findByActionType db tenant actionType =
     (case db_policies db (tenant, actionType) of
        None \<Rightarrow> Inr None
      | Some p \<Rightarrow> bindR (tenantId tenant) (\<lambda>t. Inr (Some
          \<lparr>pol_tenantId = t, pol_actionType = actionType, pol_requiredApprovals = Num (dp_requiredApprovals p),
           pol_separationOfDuties = dp_separationOfDuties p, pol_expiresAfterSeconds = Num (dp_expiresAfterSeconds p),
           pol_approverRequirements = Some (map (\<lambda>(permission, count). \<lparr>preq_permission = permission, preq_count = Num count\<rparr>) (dp_approverRequirements p))\<rparr>)))"

definition isRevoked :: "(string \<times> string) set \<Rightarrow> string \<Rightarrow> string \<Rightarrow> bool" where
  "isRevoked revocations issuer credentialId \<longleftrightarrow> (issuer, credentialId) \<in> revocations"

section \<open>Repository effects\<close>

lemma guarded_Inr_iff: "guarded actual bound m s = (Inr x, s') \<longleftrightarrow> actual = bound \<and> m s = (Inr x, s')"
  by (auto simp: guarded_def assertTenantMatch_def bindT_Inr_iff split: if_splits)

lemma tenants_insert_Inr:
  "tenants_insert bound t s = (Inr (), s') \<longleftrightarrow> t_id t = bound \<and> db_tenants s (t_id t) = None \<and> s' = s\<lparr>db_tenants := (db_tenants s)(t_id t \<mapsto> t)\<rparr>"
  by (auto simp: tenants_insert_def guarded_Inr_iff split: if_splits)

definition as_read :: "tenant_snapshot \<Rightarrow> tenant_snapshot" where
  "as_read row = row\<lparr>t_createdAt := via_date_text (t_createdAt row), t_updatedAt := via_date_text (t_updatedAt row)\<rparr>"

lemma as_read_sel [simp]:
  "t_id (as_read row) = t_id row" "t_displayName (as_read row) = t_displayName row" "t_state (as_read row) = t_state row" "t_version (as_read row) = t_version row"
  by (simp_all add: as_read_def)

lemma tenants_findById_Inr:
  "tenants_findById bound i s = (Inr r, s') \<Longrightarrow> i = bound \<and> s' = s \<and> r = map_option as_read (db_tenants s i)"
  by (auto simp: tenants_findById_def guarded_Inr_iff snapshot_def as_read_def tenantId_def ctx_requireNonBlank_def bindR_Inr_iff split: option.splits if_splits)

lemma tenants_update_Inr:
  assumes "tenants_update bound t v s = (Inr (), s')"
  obtains row where "t_id t = bound" "db_tenants s (t_id t) = Some row" "t_version row = v" "t_createdAt row \<le> t_updatedAt t"
    "s' = s\<lparr>db_tenants := (db_tenants s)(t_id t \<mapsto>
      row\<lparr>t_displayName := t_displayName t, t_state := t_state t, t_version := t_version t, t_updatedAt := t_updatedAt t\<rparr>)\<rparr>"
  using assms by (auto simp: tenants_update_def guarded_Inr_iff not_less split: option.splits if_splits)

lemma insertDefaultAdministratorRole_Inr:
  "insertDefaultAdministratorRole bound t r s = (Inr (), s') \<Longrightarrow> s' = s\<lparr>db_roles := (db_roles s)((t, r) \<mapsto> default_administrator_role)\<rparr>"
  by (auto simp: insertDefaultAdministratorRole_def guarded_Inr_iff split: if_splits)

lemma insertInitialAdministrator_Inr:
  "insertInitialAdministrator bound t actor r s = (Inr (), s') \<Longrightarrow> s' = s\<lparr>db_assignments := db_assignments s @ [active_assignment t actor r]\<rparr>"
  by (auto simp: insertInitialAdministrator_def guarded_Inr_iff split: if_splits)

text \<open>The policies table with the given policies of a tenant added.\<close>

fun with_policies :: "string \<Rightarrow> default_policy list \<Rightarrow> (string \<times> string \<rightharpoonup> default_policy) \<Rightarrow> string \<times> string \<rightharpoonup> default_policy" where
  "with_policies t [] m = m"
| "with_policies t (p # ps) m = with_policies t ps (m((t, dp_actionType p) \<mapsto> p))"

lemma with_policies_other: "t' \<noteq> t \<Longrightarrow> with_policies t ps m (t', a) = m (t', a)"
  by (induction ps arbitrary: m) auto

lemma policies_insert_all_Inr:
  "policies_insert_all bound t ps s = (Inr (), s') \<Longrightarrow> s' = s\<lparr>db_policies := with_policies t ps (db_policies s)\<rparr>"
proof (induction ps arbitrary: s)
  case (Cons p ps)
  then obtain s1 where one: "policies_insert bound t p s = (Inr (), s1)" and rest: "policies_insert_all bound t ps s1 = (Inr (), s')"
    by (auto simp: bindT_Inr_iff)
  have s1: "s1 = s\<lparr>db_policies := (db_policies s)((t, dp_actionType p) \<mapsto> p)\<rparr>" using one by (auto simp: policies_insert_def guarded_Inr_iff split: if_splits)
  from Cons.IH [OF rest] show ?case unfolding s1 with_policies.simps by (simp del: fun_upd_apply)
qed simp

lemma audit_append_Inr:
  "audit_append bound e s = (Inr (), s') \<longleftrightarrow> au_tenantId e = bound \<and>
     \<not> list_ex (\<lambda>x. au_tenantId x = au_tenantId e \<and> au_id x = au_id e) (db_audit s) \<and> s' = s\<lparr>db_audit := db_audit s @ [e]\<rparr>"
  by (auto simp: audit_append_def guarded_Inr_iff appendAuditEvent_def split: if_splits)

lemma outbox_append_Inr:
  "outbox_append bound env s = (Inr (), s') \<Longrightarrow> ev_tenant_id env = bound \<and>
     (\<exists>q. s' = s\<lparr>db_outbox := q\<rparr> \<and> q_entries q = q_entries (db_outbox s) @ [new_entry (q_next (db_outbox s)) None env (ev_recorded_at env)] \<and>
        q_next q = q_next (db_outbox s) + 1)"
  by (auto simp: outbox_append_def guarded_Inr_iff appendOutboxEvent_def split: if_splits)

text \<open>Assigning only adds holders; revoking takes exactly one away.\<close>

lemma holders_append: "holders t r (xs @ ys) = holders t r xs @ holders t r ys"
  by (simp add: holders_def)

lemma holders_reactivate:
  assumes "length (filter p xs) = n" "\<And>a. p a \<Longrightarrow> \<not> as_active a"
  shows "length (holders t r xs) \<le> length (holders t r (map (\<lambda>a. if p a then a\<lparr>as_active := True\<rparr> else a) xs))"
  by (induction xs) (use assms(2) in \<open>auto simp: holders_def\<close>)

lemma holders_revoke:
  "length (holders t r xs) \<le> length (holders t r (map (\<lambda>a. if p a then a\<lparr>as_active := False\<rparr> else a) xs)) + length (filter p xs)"
  by (induction xs) (auto simp: holders_def)

lemma holders_revoke_other:
  "(\<And>a. p a \<Longrightarrow> as_tenantId a \<noteq> t \<or> as_roleCode a \<noteq> r) \<Longrightarrow>
   length (holders t r (map (\<lambda>a. if p a then a\<lparr>as_active := False\<rparr> else a) xs)) = length (holders t r xs)"
  by (induction xs) (auto simp: holders_def)

lemma assignments_insert_Inr:
  assumes "assignments_insert bound t actor r s = (Inr (), s')"
  obtains rows where "t = bound" "s' = s\<lparr>db_assignments := rows\<rparr>" "\<And>t' r'. length (holders t' r' (db_assignments s)) \<le> length (holders t' r' rows)"
proof -
  let ?same = "\<lambda>a. assignment_key a = (t, actor, r)"
  consider (new) "t = bound" "s' = s\<lparr>db_assignments := db_assignments s @ [active_assignment t actor r]\<rparr>"
    | (again) "t = bound" "s' = s\<lparr>db_assignments := map (\<lambda>a. if ?same a \<and> \<not> as_active a then a\<lparr>as_active := True\<rparr> else a) (db_assignments s)\<rparr>"
    using assms by (auto simp: assignments_insert_def guarded_Inr_iff Let_def split: if_splits)
  then show ?thesis
  proof cases
    case new
    then show ?thesis using that by (simp add: holders_append)
  next
    case again
    then show ?thesis using that holders_reactivate [OF refl, of "\<lambda>a. ?same a \<and> \<not> as_active a" _ _ "db_assignments s"] by auto
  qed
qed

lemma assignments_remove_Inr:
  assumes "assignments_remove bound t actor r s = (Inr (), s')"
  obtains rows where "t = bound" "s' = s\<lparr>db_assignments := rows\<rparr>"
    "length (holders t r (db_assignments s)) \<le> length (holders t r rows) + 1"
    "\<And>t' r'. (t', r') \<noteq> (t, r) \<Longrightarrow> length (holders t' r' rows) = length (holders t' r' (db_assignments s))"
proof -
  let ?held = "\<lambda>a. assignment_key a = (t, actor, r) \<and> as_active a"
  have s': "t = bound" "length (filter ?held (db_assignments s)) = 1"
    "s' = s\<lparr>db_assignments := map (\<lambda>a. if ?held a then a\<lparr>as_active := False\<rparr> else a) (db_assignments s)\<rparr>"
    using assms by (auto simp: assignments_remove_def guarded_Inr_iff Let_def split: if_splits)
  have "length (holders t' r' (map (\<lambda>a. if ?held a then a\<lparr>as_active := False\<rparr> else a) (db_assignments s))) = length (holders t' r' (db_assignments s))"
    if "(t', r') \<noteq> (t, r)" for t' r'
    by (rule holders_revoke_other) (use that in \<open>auto simp: assignment_key_def\<close>)
  then show ?thesis using that [OF s'(1,3)] holders_revoke [of t r "db_assignments s" ?held] s'(2) by simp
qed

section \<open>Stored limits\<close>

lemma role_grants_limit:
  "role_from (code, row) = Inr role \<Longrightarrow> role_grants p attrs role \<Longrightarrow> limits_from (rr_limits row) = Inr ls \<Longrightarrow> l \<in> set ls \<Longrightarrow>
   pcn_permission l = p \<Longrightarrow> constraint_holds attrs l"
  by (auto simp: role_grants_def role_from_def constraintsSatisfied_def list_all_iff)

text \<open>A stored limit that names the permission but lacks an attribute name, a known operator or a scalar or
  list value.\<close>

definition malformed_limit :: "js_value \<Rightarrow> bool" where
  "malformed_limit v \<longleftrightarrow> (\<forall>s. js_prop v ''attribute'' \<noteq> JString s) \<or> operator_of (js_prop v ''operator'') = op_unknown \<or>
     (constraint_scalar (js_prop v ''value'') = None \<and> (\<forall>items. js_prop v ''value'' \<noteq> JArray items))"

lemma malformed_limit_fails:
  assumes "malformed_limit v" "map_of attrs '''' = None" "\<And>k. map_of attrs k \<noteq> Some (CStr '''')" and l: "limitFrom v = Inr l"
  shows "\<not> constraint_holds attrs l"
proof -
  consider (attribute) "\<forall>s. js_prop v ''attribute'' \<noteq> JString s" | (operator) "operator_of (js_prop v ''operator'') = op_unknown"
    | (val) "constraint_scalar (js_prop v ''value'') = None" "\<forall>items. js_prop v ''value'' \<noteq> JArray items"
    using assms(1) by (auto simp: malformed_limit_def)
  then show ?thesis
  proof cases
    case attribute
    then have "pcn_attribute l = ''''" using l by (auto simp: limitFrom_def bindR_Inr_iff split: js_value.splits)
    then show ?thesis using assms(2) by (simp add: constraint_holds_def)
  next
    case operator
    then have "pcn_operator l = op_unknown" using l by (auto simp: limitFrom_def bindR_Inr_iff)
    then show ?thesis by (simp add: constraint_holds_def split: option.splits)
  next
    case val
    then have e: "pcn_value l = Single (CStr '''')" using l by (auto simp: limitFrom_def bindR_Inr_iff constraint_scalar_def split: js_value.splits)
    have ne: "\<not> strict_eq actual (CStr '''')" if "map_of attrs k = Some actual" for k actual
      using assms(3) [of k] that by (cases actual) auto
    have cmp: "\<not> compare_finite f actual (Single (CStr ''''))" for f actual
      by (simp add: compare_finite_def split: constraint_value.splits)
    show ?thesis
      by (cases "map_of attrs (pcn_attribute l)"; cases "pcn_operator l") (simp_all add: constraint_holds_def e ne cmp)
  qed
qed

text \<open>Stored role limits fail closed as long as they name their permission. If a role row carries a limit
  for a permission whose attribute, operator or value is malformed, the role, if it can be read at all, grants that
  permission to no request (whose attribute names and values are not empty strings).\<close>

theorem stored_limit_fails_closed:
  assumes "rr_limits row = JArray items" "v \<in> set items" "js_prop v ''permission'' = JString p" "malformed_limit v"
    "map_of attrs '''' = None" "\<forall>k. map_of attrs k \<noteq> Some (CStr '''')" "role_from (code, row) = Inr role"
  shows "\<not> role_grants p attrs role"
proof
  assume grants: "role_grants p attrs role"
  obtain ls where ls: "limits_from (rr_limits row) = Inr ls" "list_all2 (\<lambda>x y. limitFrom x = Inr y) items ls"
    using assms(1,7) by (auto simp: role_from_def limits_from_def bindR_Inr_iff mapR_Inr_iff)
  obtain n where n: "n < length items" "items ! n = v" using assms(2) by (auto simp: in_set_conv_nth)
  obtain l where l: "l \<in> set ls" "limitFrom v = Inr l"
    using list_all2_nthD [OF ls(2) n(1)] n list_all2_lengthD [OF ls(2)] that [of "ls ! n"] by simp
  then have "pcn_permission l = p" using assms(3) by (auto simp: limitFrom_def bindR_Inr_iff)
  with role_grants_limit [OF assms(7) grants ls(1) l(1)] malformed_limit_fails [OF assms(4,5) _ l(2)] assms(6) show False by blast
qed

theorem stored_limit_fails_closed_witness:
  "\<exists>role. role_from (''r'', \<lparr>rr_permissions = JArray [JString ''payments:payment:refund''], rr_status = role_active,
       rr_limits = JArray [JObject [(''permission'', JString ''payments:payment:refund''), (''attribute'', JString ''amount_minor''), (''value'', JNumber (Num 5))]]\<rparr>) = Inr role \<and>
     \<not> role_grants ''payments:payment:refund'' [(''amount_minor'', CNum (Num 1))] role"
proof -
  let ?limit = "JObject [(''permission'', JString ''payments:payment:refund''), (''attribute'', JString ''amount_minor''), (''value'', JNumber (Num 5))]"
  let ?row = "\<lparr>rr_permissions = JArray [JString ''payments:payment:refund''], rr_status = role_active, rr_limits = JArray [?limit]\<rparr>"
  obtain role where role: "role_from (''r'', ?row) = Inr role" by (simp add: role_from_def limits_from_def limitFrom_def js_prop_def)
  have "\<not> role_grants ''payments:payment:refund'' [(''amount_minor'', CNum (Num 1))] role"
    by (rule stored_limit_fails_closed [where v = ?limit and items = "[?limit]", OF _ _ _ _ _ _ role])
       (simp_all add: js_prop_def malformed_limit_def operator_of_def)
  then show ?thesis using role by blast
qed

text \<open>A limit that does not name its permission is read as a limit on the permission \<open>undefined\<close> and limits
  nothing.\<close>

lemma limit_without_permission_ignored:
  assumes "js_prop v ''permission'' = JUndefined" "isKnownPermission p"
    "role_from (code, row\<lparr>rr_limits := JArray (v # items)\<rparr>) = Inr role" "role_from (code, row\<lparr>rr_limits := JArray items\<rparr>) = Inr role'"
  shows "role_grants p attrs role \<longleftrightarrow> role_grants p attrs role'"
proof -
  obtain l ls where l: "limitFrom v = Inr l" "mapR limitFrom items = Inr ls"
    "role = role'\<lparr>role_limits := Some (l # ls)\<rparr>" "role_limits role' = Some ls"
    using assms(3,4) by (auto simp: role_from_def limits_from_def bindR_Inr_iff)
  then have "pcn_permission l \<noteq> p" using assms(1,2) by (auto simp: limitFrom_def isKnownPermission_def PERMISSION_CATALOG_def)
  then show ?thesis using l by (simp add: role_grants_def)
qed

text \<open>A limit whose permission is an object with a \<open>toString\<close> of its own makes the roles of every holder unreadable.\<close>

lemma unreadable_limit:
  assumes "js_prop v ''permission'' = JObject es" "''toString'' \<in> fst ` set es"
  shows "role_from (code, row\<lparr>rr_limits := JArray (v # items)\<rparr>) = Inl TypeError"
  using assms by (simp add: role_from_def limits_from_def limitFrom_def)

end
