(* ===== verification/Tenant_Commands.thy ===== *)
theory Tenant_Commands
  imports Identity_Store
begin

text \<open>
  \<open>modules/identity-tenant/application/tenant-commands.ts\<close>: provisioning and lifecycle commands. Each command runs the
  idempotent executor on a unit of work that changes the tenant, records the audit event and appends the
  outbox event. The platform authorizer is an argument (the composition root passes the one of
  \<open>Authorization\<close>); the readings of the clock and the generated identifiers are in \<open>command_env\<close>. The database is
  the idempotency table with the identity tables.

  The lemmas give the exact effect of a command on the identity tables: nothing, or one consistent change.
\<close>

section \<open>Model\<close>

record command_env =
  ce_trust :: trust
  ce_audit :: audit_deps
  ce_sha256 :: "string \<Rightarrow> string"
  ce_now :: date
  ce_executorNow :: date
  ce_auditNow :: date
  ce_eventId :: string
  ce_auditId :: string

type_synonym platform_authorizer = "trust \<Rightarrow> ref \<Rightarrow> string \<Rightarrow> unit res"
type_synonym command_db = "idem_table \<times> identity_db"

definition outside_table :: "('r, 'a) tx \<Rightarrow> (idem_table \<times> 'r, 'a) tx" where
  "outside_table m = (\<lambda>(table, db). case m db of (r, db') \<Rightarrow> (r, (table, db')))"

record provision_tenant_input =
  pv_tenantId :: string
  pv_displayName :: string
  pv_initialAdministratorActorId :: string

record tenant_lifecycle_input =
  tl_tenantId :: string
  tl_expectedVersion :: int
  tl_reason :: "string option"

fun state_text :: "tenant_state \<Rightarrow> string" where
  "state_text PROVISIONING = ''PROVISIONING''"
| "state_text ACTIVE = ''ACTIVE''"
| "state_text SUSPENDED = ''SUSPENDED''"
| "state_text CLOSED = ''CLOSED''"

fun event_type_text :: "tenant_event_type \<Rightarrow> string" where
  "event_type_text tenant_provisioned_v1 = ''tenant.provisioned.v1''"
| "event_type_text tenant_activated_v1 = ''tenant.activated.v1''"
| "event_type_text tenant_suspended_v1 = ''tenant.suspended.v1''"
| "event_type_text tenant_closed_v1 = ''tenant.closed.v1''"

text \<open>\<open>type.replace(/\.v[0-9]+$/, "")\<close>: drop the digits at the end and a \<open>.v\<close> before them.\<close>

definition strip_version :: "string \<Rightarrow> string" where
  "strip_version s =
     (case dropWhile is_digit (rev s) of
        v # d # r \<Rightarrow> if v = CHR ''v'' \<and> d = CHR ''.'' \<and> takeWhile is_digit (rev s) \<noteq> [] then rev r else s
      | _ \<Rightarrow> s)"

definition auditActionFor :: "tenant_change \<Rightarrow> string" where
  "auditActionFor change = strip_version (event_type_text (te_type (snd change)))"

definition REASON_REQUIRED :: "tenant_state set" where
  "REASON_REQUIRED = {SUSPENDED, CLOSED}"

definition TENANT_AUDIT_FIELDS :: "string list" where
  "TENANT_AUDIT_FIELDS = [''state'', ''version'', ''display_name'']"

definition eventInputFor :: "tenant_change \<Rightarrow> js_value \<Rightarrow> build_event_input" where
  "eventInputFor change dat =
     \<lparr>be_eventType = event_type_text (te_type (snd change)), be_sourceContext = ''identity-tenant'', be_aggregateType = ''Tenant'',
      be_aggregateId = t_id (fst change), be_aggregateVersion = Num (te_aggregateVersion (snd change)),
      be_occurredAt = Some (te_occurredAt (snd change)), be_classification = CONFIDENTIAL_BUSINESS, be_data = dat,
      be_dataschema = None, be_subject = None\<rparr>"

definition storedTenant :: "tenant_snapshot \<Rightarrow> int \<Rightarrow> stored_response" where
  "storedTenant tenant status = \<lparr>sr_status = Num status, sr_body = JObject
     [(''id'', JString (t_id tenant)), (''display_name'', JString (t_displayName tenant)), (''state'', JString (state_text (t_state tenant))),
      (''version'', JNumber (Num (t_version tenant))), (''created_at'', JString (iso_text (t_createdAt tenant))),
      (''updated_at'', JString (iso_text (t_updatedAt tenant)))]\<rparr>"

text \<open>The snapshot read back from a stored response; its instants are the stored texts.\<close>

record tenant_view =
  tv_id :: string
  tv_displayName :: string
  tv_state :: tenant_state
  tv_version :: int
  tv_createdAt :: string
  tv_updatedAt :: string

definition state_of_text :: "string \<Rightarrow> tenant_state option" where
  "state_of_text s = (if s = ''PROVISIONING'' then Some PROVISIONING else if s = ''ACTIVE'' then Some ACTIVE
     else if s = ''SUSPENDED'' then Some SUSPENDED else if s = ''CLOSED'' then Some CLOSED else None)"

definition tenantFromStored :: "stored_response \<Rightarrow> string \<Rightarrow> string \<Rightarrow> tenant_view res" where
  "tenantFromStored response expectedTenantId corr =
     (case sr_body response of
        JObject fs \<Rightarrow>
          (case (map_of fs ''id'', map_of fs ''display_name'', map_of fs ''state'', map_of fs ''version'', map_of fs ''created_at'', map_of fs ''updated_at'') of
             (Some (JString i), Some (JString name), Some (JString st), Some (JNumber n), Some (JString created), Some (JString updated)) \<Rightarrow>
               (case (state_of_text st, js_integer n) of
                  (Some state, Some version) \<Rightarrow>
                    if i \<noteq> expectedTenantId then reject_for invalid_trusted_context corr
                    else bindR (tenantId i) (\<lambda>t. Inr
                      \<lparr>tv_id = t, tv_displayName = name, tv_state = state, tv_version = version, tv_createdAt = created, tv_updatedAt = updated\<rparr>)
                | _ \<Rightarrow> reject_for invalid_trusted_context corr)
           | _ \<Rightarrow> reject_for invalid_trusted_context corr)
      | _ \<Rightarrow> reject_for invalid_trusted_context corr)"

definition authorize :: "command_env \<Rightarrow> platform_authorizer \<Rightarrow> ref \<Rightarrow> string \<Rightarrow> unit res" where
  "authorize env authorizer c permission =
     bindR (issued_platform (ce_trust env) c) (\<lambda>_. authorizer (ce_trust env) c permission)"

definition tenant_audit :: "tenant_change \<Rightarrow> string \<Rightarrow> (string \<times> js_value) list option \<Rightarrow> (string \<times> js_value) list \<Rightarrow> string option \<Rightarrow> audit_input" where
  "tenant_audit change i before after reason =
     \<lparr>ai_action = auditActionFor change, ai_targetType = ''Tenant'', ai_targetId = i, ai_reason = reason, ai_approvalId = None,
      ai_before = before, ai_after = Some after, ai_occurredAt = Some (Some (te_occurredAt (snd change)))\<rparr>"

definition record_audit :: "command_env \<Rightarrow> ref \<Rightarrow> string \<Rightarrow> audit_input \<Rightarrow> (identity_db, audit_event) tx" where
  "record_audit env c i input =
     recordForPlatformCommand (ce_audit env) (audit_append i) (ce_trust env) c i input (ce_auditNow env) (ce_auditId env)"

definition provision_work :: "command_env \<Rightarrow> ref \<Rightarrow> string \<Rightarrow> string \<Rightarrow> tenant_change \<Rightarrow> event_envelope \<Rightarrow> (identity_db, stored_response) tx" where
  "provision_work env c i administrator change envelope =
     bindT (tenants_insert i (fst change)) (\<lambda>_.
     bindT (insertDefaultAdministratorRole i i ''tenant_administrator'') (\<lambda>_.
     bindT (insertInitialAdministrator i i administrator ''tenant_administrator'') (\<lambda>_.
     bindT (policies_insert_all i i DEFAULT_APPROVAL_POLICIES) (\<lambda>_.
     bindT (record_audit env c i (tenant_audit change i None
       [(''state'', JString (state_text (t_state (fst change)))), (''version'', JNumber (Num (t_version (fst change)))),
        (''display_name'', JString (t_displayName (fst change)))] None)) (\<lambda>_.
     bindT (outbox_append i envelope) (\<lambda>_.
       returnT (storedTenant (fst change) 201)))))))"

definition provision :: "command_env \<Rightarrow> platform_authorizer \<Rightarrow> ref \<Rightarrow> provision_tenant_input \<Rightarrow> string option \<Rightarrow> (command_db, tenant_view) tx" where
  "provision env authorizer c input key =
     bindT (liftT (tenantId (pv_tenantId input))) (\<lambda>i.
     bindT (liftT (actorId (pv_initialAdministratorActorId input))) (\<lambda>administrator.
     bindT (liftT (provisionTenant i (pv_displayName input) (ce_now env))) (\<lambda>change.
     bindT (liftT (eventScopeForPlatformCommand (ce_trust env) c i)) (\<lambda>scope.
     bindT (liftT (buildEventEnvelopeFor scope (eventInputFor change (JObject
       [(''display_name'', JString (t_displayName (fst change))), (''new_state'', JString (state_text (t_state (fst change))))]))
       (ce_now env) (ce_eventId env))) (\<lambda>envelope.
     bindT (createPlatformIdempotentExecutor (pg_store i) (ce_sha256 env) (ce_executorNow env) DEFAULT_RETENTION_SECONDS (ce_trust env) c i
       \<lparr>rq_scope = ''tenant.provision'', rq_key = key, rq_payload = JObject
         [(''display_name'', JString (t_displayName (fst change))), (''initial_administrator_actor_id'', JString administrator)]\<rparr>
       (liftT (authorize env authorizer c ''platform:tenant:provision''))
       (outside_table (provision_work env c i administrator change envelope))) (\<lambda>result.
     liftT (tenantFromStored (fst result) i (pc_correlationId (platformContexts (ce_trust env) ! c)))))))))"

definition present_reason :: "string option \<Rightarrow> string option" where
  "present_reason reason = (case reason of None \<Rightarrow> None | Some r \<Rightarrow> if length r = 0 then None else Some r)"

definition transition_work :: "command_env \<Rightarrow> ref \<Rightarrow> string \<Rightarrow> tenant_state \<Rightarrow> int \<Rightarrow> string option \<Rightarrow> (identity_db, stored_response) tx" where
  "transition_work env c i target expectedVersion reason =
     bindT (tenants_findById i i) (\<lambda>found.
     case found of
       None \<Rightarrow> throwT (Problem tenant_not_found (Some (pc_correlationId (platformContexts (ce_trust env) ! c))) None)
     | Some current \<Rightarrow>
         bindT (liftT (transitionTenant current target expectedVersion (ce_now env))) (\<lambda>change.
         bindT (tenants_update i (fst change) (t_version current)) (\<lambda>_.
         bindT (record_audit env c i (tenant_audit change i
           (Some [(''state'', JString (state_text (t_state current))), (''version'', JNumber (Num (t_version current)))])
           [(''state'', JString (state_text (t_state (fst change)))), (''version'', JNumber (Num (t_version (fst change))))] (present_reason reason))) (\<lambda>_.
         bindT (liftT (eventScopeForPlatformCommand (ce_trust env) c i)) (\<lambda>scope.
         bindT (liftT (buildEventEnvelopeFor scope (eventInputFor change (JObject
           [(''previous_state'', JString (state_text (t_state current))), (''new_state'', JString (state_text (t_state (fst change))))]))
           (ce_now env) (ce_eventId env))) (\<lambda>envelope.
         bindT (outbox_append i envelope) (\<lambda>_.
           returnT (storedTenant (fst change) 200))))))))"

definition transition :: "command_env \<Rightarrow> platform_authorizer \<Rightarrow> ref \<Rightarrow> tenant_lifecycle_input \<Rightarrow> tenant_state \<Rightarrow> string \<Rightarrow> string option \<Rightarrow>
    (command_db, tenant_view) tx" where
  "transition env authorizer c input target scope key =
     (let reason = map_option trim (tl_reason input); corr = pc_correlationId (platformContexts (ce_trust env) ! c) in
      if target \<in> REASON_REQUIRED \<and> present_reason reason = None then throwT (Problem tenant_reason_required (Some corr) None)
      else bindT (liftT (tenantId (tl_tenantId input))) (\<lambda>i.
        bindT (createPlatformIdempotentExecutor (pg_store i) (ce_sha256 env) (ce_executorNow env) DEFAULT_RETENTION_SECONDS (ce_trust env) c i
          \<lparr>rq_scope = scope, rq_key = key, rq_payload = JObject
            ([(''expected_version'', JNumber (Num (tl_expectedVersion input)))] @ opt_field ''reason'' (map_option JString (present_reason reason)))\<rparr>
          (liftT (authorize env authorizer c ''platform:tenant:lifecycle''))
          (outside_table (transition_work env c i target (tl_expectedVersion input) reason))) (\<lambda>result.
        liftT (tenantFromStored (fst result) i corr))))"

definition activateTenant where "activateTenant env authorizer c input key = transition env authorizer c input ACTIVE ''tenant.activate'' key"
definition suspendTenant where "suspendTenant env authorizer c input key = transition env authorizer c input SUSPENDED ''tenant.suspend'' key"
definition reactivateTenant where "reactivateTenant env authorizer c input key = transition env authorizer c input ACTIVE ''tenant.reactivate'' key"
definition closeTenant where "closeTenant env authorizer c input key = transition env authorizer c input CLOSED ''tenant.close'' key"

section \<open>What a command does to the identity tables\<close>

lemma pg_claim_rest:
  "claim (pg_store T) i s = (Inr r, s1) \<Longrightarrow> snd s1 = snd s \<and> (r \<noteq> claimed \<longrightarrow> s1 = s) \<and> (\<forall>n. r \<noteq> in_progress n)"
  by (auto simp: pg_store_def pg_claim_cases Let_def split: option.splits if_splits)

lemma pg_complete_rest: "complete (pg_store T) t scope key resp s = (Inr (), s1) \<Longrightarrow> snd s1 = snd s"
  by (auto simp: pg_store_def pg_complete_cases split: option.splits if_splits)

text \<open>The change of the idempotency table: one completed record of the tenant and scope.\<close>

definition recorded_once :: "string \<Rightarrow> string \<Rightarrow> idem_table \<Rightarrow> idem_table \<Rightarrow> bool" where
  "recorded_once T scope table table' \<longleftrightarrow>
     (\<exists>key r. table' = table((T, scope, key) \<mapsto> r) \<and> ir_tenantId r = T \<and> ir_status r = completed)"

lemma pg_recorded_once:
  assumes cl: "claim (pg_store T) i s = (Inr claimed, s1)" and w: "outside_table work s1 = (Inr resp, s2)"
    and c: "complete (pg_store T) (ci_tenantId i) (ci_scope i) (ci_key i) resp s2 = (Inr (), s')"
  shows "recorded_once T (ci_scope i) (fst s) (fst s')"
proof -
  have t: "ci_tenantId i = T" using cl by (auto simp: pg_store_def pg_claim_cases split: if_splits)
  obtain r where r: "fst s1 = (fst s)(claim_key i \<mapsto> r)" "fresh_claim i r" using pg.claim_claimed [OF cl] by blast
  have "fst s2 = fst s1" using w by (auto simp: outside_table_def split: prod.splits)
  then have "fst s' = (fst s)(claim_key i \<mapsto> completed_with resp r)" using pg.complete_rec [OF c] r(1) by auto
  then show ?thesis using r(2) t unfolding recorded_once_def
    by (intro exI [of _ "ci_key i"] exI [of _ "completed_with resp r"]) (simp add: fresh_claim_def)
qed

text \<open>The executor either leaves the database alone, or the work ran once, successfully, and its effect and one
  record of it are the whole change.\<close>

lemma executor_effect:
  assumes "executeUntraced (pg_store T) sha now ret scope request (liftT a) (outside_table work) s = (res, s')"
  shows "s' = s \<or> (\<exists>resp. work (snd s) = (Inr resp, snd s') \<and> res = Inr (resp, False) \<and> a = Inr () \<and>
    recorded_once T (rq_scope request) (fst s) (fst s'))"
proof (cases res)
  case (Inl e)
  then show ?thesis
    using assms by (auto simp: executeUntraced_def bindT_def liftT_def runInTransaction_def split: prod.splits sum.splits)
next
  case (Inr p)
  then obtain key h t expires r s1 where a: "a = Inr ()"
    and cl: "claim (pg_store T) (claim_of scope request key h t expires) s = (Inr r, s1)"
    and st: "settle (pg_store T) scope (rq_scope request) key h r (outside_table work) s1 = (Inr p, s')"
    using assms by (auto simp: executeUntraced_def bindT_Inr_iff split: prod.splits)
  show ?thesis
  proof (cases "r = claimed")
    case True
    obtain resp replayed where p: "p = (resp, replayed)" by (cases p)
    obtain s2 where w: "outside_table work s1 = (Inr resp, s2)" "\<not> replayed"
      "complete (pg_store T) (ex_tenantId scope) (rq_scope request) key resp s2 = (Inr (), s')"
      using pg.settle_claimedE st p True by metis
    have "work (snd s) = (Inr resp, snd s')"
      using w(1) pg_complete_rest [OF w(3)] pg_claim_rest [OF cl] by (auto simp: outside_table_def split: prod.splits)
    moreover have "recorded_once T (rq_scope request) (fst s) (fst s')"
      using pg_recorded_once [OF cl [unfolded True] w(1)] w(3) by (simp add: claim_of_def)
    ultimately show ?thesis using Inr p w(2) a by simp
  next
    case False
    then have "s1 = s" "\<exists>x. r = existing x" using pg_claim_rest [OF cl] by (cases r; simp)+
    then show ?thesis using st by (auto simp: settle_def Let_def split: if_splits option.splits)
  qed
qed

lemma platform_executor_effect:
  assumes "createPlatformIdempotentExecutor (pg_store T) sha now ret st c i request (liftT a) (outside_table work) s = (res, s')"
  shows "s' = s \<or> (\<exists>resp. work (snd s) = (Inr resp, snd s') \<and> res = Inr (resp, False) \<and> a = Inr () \<and>
    recorded_once T (rq_scope request) (fst s) (fst s'))"
proof (cases "issued_platform st c")
  case (Inl e)
  then show ?thesis using assms by (simp add: createPlatformIdempotentExecutor_def bindT_def tx_eval)
next
  case (Inr pc)
  then have "executeUntraced (pg_store T) sha now ret (platform_exec_scope pc i) request (liftT a) (outside_table work) s = (res, s')"
    using assms by (simp add: createPlatformIdempotentExecutor_def bindT_def [of "liftT _"] tx_eval)
  then show ?thesis by (rule executor_effect)
qed

text \<open>The effects of the commands name every table of the identity database: what they do not list stays as it was.\<close>

definition tenant_facts :: "string \<Rightarrow> tenant_event_type \<Rightarrow> int \<Rightarrow> identity_db \<Rightarrow> identity_db \<Rightarrow> bool" where
  "tenant_facts i ty v db db' \<longleftrightarrow> (\<exists>a row. db_audit db' = db_audit db @ [a] \<and> au_tenantId a = i \<and> au_targetType a = ''Tenant'' \<and> au_targetId a = i \<and>
     au_action a = strip_version (event_type_text ty) \<and>
     q_entries (db_outbox db') = q_entries (db_outbox db) @ [row] \<and> q_next (db_outbox db') = q_next (db_outbox db) + 1 \<and> ev_tenant_id (oe_envelope row) = i \<and>
     ev_aggregate_type (oe_envelope row) = ''Tenant'' \<and> ev_aggregate_id (oe_envelope row) = i \<and> ev_aggregate_version (oe_envelope row) = v \<and>
     ev_type (oe_envelope row) = ''com.subrevos.'' @ event_type_text ty)"

definition provision_effect :: "string \<Rightarrow> string \<Rightarrow> identity_db \<Rightarrow> identity_db \<Rightarrow> bool" where
  "provision_effect i administrator db db' \<longleftrightarrow> db_tenants db i = None \<and>
     (\<exists>t. t_id t = i \<and> t_state t = PROVISIONING \<and> t_version t = 1 \<and> db_tenants db' = (db_tenants db)(i \<mapsto> t)) \<and>
     db_roles db' = (db_roles db)((i, ''tenant_administrator'') \<mapsto> default_administrator_role) \<and>
     db_policies db' = with_policies i DEFAULT_APPROVAL_POLICIES (db_policies db) \<and>
     db_assignments db' = db_assignments db @ [active_assignment i administrator ''tenant_administrator''] \<and>
     tenant_facts i tenant_provisioned_v1 1 db db'"

definition transition_effect :: "string \<Rightarrow> tenant_state \<Rightarrow> identity_db \<Rightarrow> identity_db \<Rightarrow> bool" where
  "transition_effect i target db db' \<longleftrightarrow>
     (\<exists>t updated. db_tenants db i = Some t \<and> target \<in> set (transitions (t_state t)) \<and>
        db_tenants db' = (db_tenants db)(i \<mapsto> t\<lparr>t_state := target, t_version := t_version t + 1, t_updatedAt := updated\<rparr>) \<and>
        db_roles db' = db_roles db \<and> db_policies db' = db_policies db \<and> db_assignments db' = db_assignments db \<and> tenant_facts i (transitionEvents target) (t_version t + 1) db db')"

lemma record_audit_Inr:
  assumes "record_audit env c i input s = (Inr ev, s')"
  shows "s' = s\<lparr>db_audit := db_audit s @ [ev]\<rparr> \<and> au_tenantId ev = i \<and> au_action ev = ai_action input \<and> au_targetType ev = ai_targetType input \<and>
    au_targetId ev = ai_targetId input \<and> c \<in> set (issuedPlatformContexts (ce_trust env))"
  using assms
  by (auto simp: record_audit_def recordForPlatformCommand_def bindT_Inr_iff eventScopeForPlatformCommand_def bindR_Inr_iff issued_platform_def
      assertIssuedPlatformContext_def assertT_def recordForScope_Inr_iff audit_append_Inr unsealed_event_def elim!: build_audit_event_Inr split: if_splits)

lemma envelope_fields:
  assumes "buildEventEnvelopeFor scope (eventInputFor change dat) now newId = Inr env"
  shows "ev_tenant_id env = es_tenantId scope \<and> ev_aggregate_type env = ''Tenant'' \<and> ev_aggregate_id env = t_id (fst change) \<and>
    ev_aggregate_version env = te_aggregateVersion (snd change) \<and> ev_type env = ''com.subrevos.'' @ event_type_text (te_type (snd change))"
  using assms by (auto simp: buildEventEnvelopeFor_Inr_iff buildable_def envelope_of_def eventInputFor_def js_integer_def)

lemma scope_tenant: "eventScopeForPlatformCommand st c i = Inr scope \<Longrightarrow> es_tenantId scope = i"
  by (auto simp: eventScopeForPlatformCommand_def bindR_Inr_iff)

lemma provision_work_effect:
  assumes run: "provision_work env c i administrator change envelope db = (Inr resp, db')"
    and change: "provisionTenant i name now = Inr change"
    and scope: "eventScopeForPlatformCommand (ce_trust env) c i = Inr scope"
    and envelope: "buildEventEnvelopeFor scope (eventInputFor change dat) now' newId = Inr envelope"
  shows "provision_effect i administrator db db'"
proof -
  obtain t e where ch: "change = (t, e)" by fastforce
  have t: "t_id t = i" "t_state t = PROVISIONING" "t_version t = 1" "te_type e = tenant_provisioned_v1" "te_aggregateVersion e = 1"
    using change by (auto simp: ch provisionTenant_Inr_iff)
  obtain db1 db2 db3 db4 db5 ev where s: "tenants_insert i t db = (Inr (), db1)"
    "insertDefaultAdministratorRole i i ''tenant_administrator'' db1 = (Inr (), db2)"
    "insertInitialAdministrator i i administrator ''tenant_administrator'' db2 = (Inr (), db3)"
    "policies_insert_all i i DEFAULT_APPROVAL_POLICIES db3 = (Inr (), db4)"
    "record_audit env c i (tenant_audit change i None
       [(''state'', JString (state_text (t_state t))), (''version'', JNumber (Num (t_version t))), (''display_name'', JString (t_displayName t))] None) db4 = (Inr ev, db5)"
    "outbox_append i envelope db5 = (Inr (), db')"
    using run by (auto simp: provision_work_def ch bindT_Inr_iff)
  have s1: "db_tenants db i = None" "db1 = db\<lparr>db_tenants := (db_tenants db)(i \<mapsto> t)\<rparr>" using s(1) t(1) by (simp_all add: tenants_insert_Inr)
  have s2: "db2 = db1\<lparr>db_roles := (db_roles db1)((i, ''tenant_administrator'') \<mapsto> default_administrator_role)\<rparr>"
    using insertDefaultAdministratorRole_Inr [OF s(2)] .
  have s3: "db3 = db2\<lparr>db_assignments := db_assignments db2 @ [active_assignment i administrator ''tenant_administrator'']\<rparr>"
    using insertInitialAdministrator_Inr [OF s(3)] .
  have s4: "db4 = db3\<lparr>db_policies := with_policies i DEFAULT_APPROVAL_POLICIES (db_policies db3)\<rparr>" using policies_insert_all_Inr [OF s(4)] .
  have s5: "db5 = db4\<lparr>db_audit := db_audit db4 @ [ev]\<rparr>" "au_tenantId ev = i" "au_targetType ev = ''Tenant''" "au_targetId ev = i"
    "au_action ev = strip_version (event_type_text tenant_provisioned_v1)"
    using record_audit_Inr [OF s(5)] t(4) by (simp_all add: tenant_audit_def auditActionFor_def ch)
  obtain q where s6: "db' = db5\<lparr>db_outbox := q\<rparr>" "q_next q = q_next (db_outbox db5) + 1"
    "q_entries q = q_entries (db_outbox db5) @ [new_entry (q_next (db_outbox db5)) None envelope (ev_recorded_at envelope)]"
    using outbox_append_Inr [OF s(6)] by blast
  have e: "ev_tenant_id envelope = i" "ev_aggregate_type envelope = ''Tenant''" "ev_aggregate_id envelope = i" "ev_aggregate_version envelope = 1"
    "ev_type envelope = ''com.subrevos.'' @ event_type_text tenant_provisioned_v1"
    using envelope_fields [OF envelope] scope_tenant [OF scope] t by (simp_all add: ch)
  show ?thesis
    using s1(1) t(1-3) s5(2-5) e by (auto simp: provision_effect_def tenant_facts_def s6 s5(1) s4 s3 s2 s1(2) new_entry_def)
qed

lemma transition_work_effect:
  assumes run: "transition_work env c i target v reason db = (Inr resp, db')"
  shows "transition_effect i target db db'"
proof -
  obtain found where found: "tenants_findById i i db = (Inr found, db)" "found \<noteq> None"
    using run by (auto simp: transition_work_def bindT_Inr_iff dest: tenants_findById_Inr split: option.splits)
  then obtain row t where f: "db_tenants db i = Some row" "t = as_read row" and t: "tenants_findById i i db = (Inr (Some t), db)"
    using tenants_findById_Inr [OF found(1)] by auto
  obtain t' e scope envelope db1 db2 ev where tr: "transitionTenant t target v (ce_now env) = Inr (t', e)"
    and u: "tenants_update i t' (t_version t) db = (Inr (), db1)"
    and a: "record_audit env c i (tenant_audit (t', e) i
           (Some [(''state'', JString (state_text (t_state t))), (''version'', JNumber (Num (t_version t)))])
           [(''state'', JString (state_text (t_state t'))), (''version'', JNumber (Num (t_version t')))] (present_reason reason)) db1 = (Inr ev, db2)"
    and sc: "eventScopeForPlatformCommand (ce_trust env) c i = Inr scope"
    and b: "buildEventEnvelopeFor scope (eventInputFor (t', e) (JObject
           [(''previous_state'', JString (state_text (t_state t))), (''new_state'', JString (state_text (t_state t')))])) (ce_now env) (ce_eventId env) = Inr envelope"
    and o: "outbox_append i envelope db2 = (Inr (), db')"
    using run t by (auto simp: transition_work_def bindT_Inr_iff)
  obtain updated where tr': "t_version t = v" "target \<in> set (transitions (t_state t))" "t' = t\<lparr>t_state := target, t_version := v + 1, t_updatedAt := updated\<rparr>"
    "te_type e = transitionEvents target" "te_aggregateVersion e = v + 1"
    using tr by (auto simp: transitionTenant_Inr_iff)
  have id: "t_id row = i" and u': "db1 = db\<lparr>db_tenants := (db_tenants db)(i \<mapsto> row\<lparr>t_state := target, t_version := v + 1, t_updatedAt := updated\<rparr>)\<rparr>"
    using u f by (auto simp: tr'(3) elim!: tenants_update_Inr)
  have a': "db2 = db1\<lparr>db_audit := db_audit db1 @ [ev]\<rparr>" "au_tenantId ev = i" "au_targetType ev = ''Tenant''" "au_targetId ev = i"
    "au_action ev = strip_version (event_type_text (transitionEvents target))"
    using record_audit_Inr [OF a] tr'(4) by (simp_all add: tenant_audit_def auditActionFor_def)
  obtain q where o': "db' = db2\<lparr>db_outbox := q\<rparr>" "q_next q = q_next (db_outbox db2) + 1"
    "q_entries q = q_entries (db_outbox db2) @ [new_entry (q_next (db_outbox db2)) None envelope (ev_recorded_at envelope)]"
    using outbox_append_Inr [OF o] by blast
  have e: "ev_tenant_id envelope = i" "ev_aggregate_type envelope = ''Tenant''" "ev_aggregate_id envelope = i" "ev_aggregate_version envelope = t_version row + 1"
    "ev_type envelope = ''com.subrevos.'' @ event_type_text (transitionEvents target)"
    using envelope_fields [OF b] scope_tenant [OF sc] tr' id f(2) by simp_all
  show ?thesis
    unfolding transition_effect_def tenant_facts_def
    by (intro exI [of _ row] exI [of _ updated] conjI exI [of _ ev] exI [of _ "new_entry (q_next (db_outbox db2)) None envelope (ev_recorded_at envelope)"])
       (use f tr' a' e in \<open>simp_all add: o' u' new_entry_def\<close>)
qed

text \<open>A command changes the database only when the authorizer allowed it, and then by exactly its effect.\<close>

lemma provision_run:
  assumes "provision env authorizer c input key s = (r, s')"
  shows "s' = s \<or> (\<exists>i. tenantId (pv_tenantId input) = Inr i \<and> authorize env authorizer c ''platform:tenant:provision'' = Inr () \<and>
    provision_effect i (pv_initialAdministratorActorId input) (snd s) (snd s') \<and> recorded_once i ''tenant.provision'' (fst s) (fst s'))"
proof (rule ccontr)
  assume contra: "\<not> ?thesis"
  then obtain i adm change scope envelope res s1 where p: "tenantId (pv_tenantId input) = Inr i" "adm = pv_initialAdministratorActorId input"
    "provisionTenant i (pv_displayName input) (ce_now env) = Inr change" "eventScopeForPlatformCommand (ce_trust env) c i = Inr scope"
    "buildEventEnvelopeFor scope (eventInputFor change (JObject
       [(''display_name'', JString (t_displayName (fst change))), (''new_state'', JString (state_text (t_state (fst change))))])) (ce_now env) (ce_eventId env) = Inr envelope"
    and ex: "createPlatformIdempotentExecutor (pg_store i) (ce_sha256 env) (ce_executorNow env) DEFAULT_RETENTION_SECONDS (ce_trust env) c i
       \<lparr>rq_scope = ''tenant.provision'', rq_key = key, rq_payload = JObject
         [(''display_name'', JString (t_displayName (fst change))), (''initial_administrator_actor_id'', JString adm)]\<rparr>
       (liftT (authorize env authorizer c ''platform:tenant:provision'')) (outside_table (provision_work env c i adm change envelope)) s = (res, s')"
    using assms
    by (auto simp: provision_def bindT_def liftT_def actorId_def ctx_requireNonBlank_def split: sum.splits prod.splits if_splits)
  from platform_executor_effect [OF ex] have "s' = s \<or> (\<exists>resp. provision_work env c i adm change envelope (snd s) = (Inr resp, snd s') \<and>
      authorize env authorizer c ''platform:tenant:provision'' = Inr () \<and> recorded_once i ''tenant.provision'' (fst s) (fst s'))" by auto
  then show False using contra provision_work_effect [OF _ p(3,4,5)] p(1,2) by blast
qed

lemma transition_run:
  assumes "transition env authorizer c input target scope key s = (r, s')"
  shows "s' = s \<or> (authorize env authorizer c ''platform:tenant:lifecycle'' = Inr () \<and> transition_effect (tl_tenantId input) target (snd s) (snd s') \<and>
    recorded_once (tl_tenantId input) scope (fst s) (fst s'))"
proof (rule ccontr)
  assume contra: "\<not> ?thesis"
  then obtain payload res where ex: "createPlatformIdempotentExecutor (pg_store (tl_tenantId input)) (ce_sha256 env) (ce_executorNow env) DEFAULT_RETENTION_SECONDS (ce_trust env) c
       (tl_tenantId input) \<lparr>rq_scope = scope, rq_key = key, rq_payload = payload\<rparr> (liftT (authorize env authorizer c ''platform:tenant:lifecycle''))
       (outside_table (transition_work env c (tl_tenantId input) target (tl_expectedVersion input) (map_option trim (tl_reason input)))) s = (res, s')"
    using assms
    by (auto simp: transition_def Let_def bindT_def liftT_def throwT_def tenantId_def ctx_requireNonBlank_def split: sum.splits prod.splits if_splits)
  from platform_executor_effect [OF ex] have "s' = s \<or> (\<exists>resp. transition_work env c (tl_tenantId input) target (tl_expectedVersion input) (map_option trim (tl_reason input)) (snd s) = (Inr resp, snd s') \<and>
      authorize env authorizer c ''platform:tenant:lifecycle'' = Inr () \<and> recorded_once (tl_tenantId input) scope (fst s) (fst s'))" by auto
  then show False using contra transition_work_effect by blast
qed

lemma provision_db:
  assumes "provision env authorizer c input key s = (r, s')"
  shows "s' = s \<or> (\<exists>i. tenantId (pv_tenantId input) = Inr i \<and> provision_effect i (pv_initialAdministratorActorId input) (snd s) (snd s'))"
  using provision_run [OF assms] by blast

lemma transition_db:
  assumes "transition env authorizer c input target scope key s = (r, s')"
  shows "s' = s \<or> transition_effect (tl_tenantId input) target (snd s) (snd s')"
  using transition_run [OF assms] by blast

end
