(* ===== verification/Role_Administration.thy ===== *)
theory Role_Administration
  imports Tenant_Commands
begin

text \<open>
  \<open>createRoleAdministration\<close> of \<open>modules/identity-tenant/application/authorization.ts\<close> on the PostgreSQL security
  persistence, and the whole identity service as a step relation: platform operators run tenant commands,
  tenant administrators change role assignments, and the event relay updates the outbox, in any order.

  The lemmas show what a successful role change did and that every reachable database keeps two promises:
  each tenant has an active administrator, and each tenant's state is exactly what its published events and
  its audit trail say.
\<close>

section \<open>Model\<close>

datatype role_change = assigned | revoked

record role_assignment_input =
  ra_targetActorId :: string
  ra_roleCode :: string

record role_env =
  re_audit :: audit_deps
  re_now :: date
  re_auditNow :: date
  re_eventId :: string
  re_auditId :: string

definition ADMINISTRATOR_ROLE :: string where "ADMINISTRATOR_ROLE = ''tenant_administrator''"

definition ROLE_AUDIT_FIELDS :: "string list" where "ROLE_AUDIT_FIELDS = [''role_code'']"

definition role_audit :: "role_change \<Rightarrow> string \<Rightarrow> string \<Rightarrow> date \<Rightarrow> audit_input" where
  "role_audit how target roleCode now =
     \<lparr>ai_action = (if how = assigned then ''role.assigned'' else ''role.revoked''), ai_targetType = ''RoleAssignment'', ai_targetId = target,
      ai_reason = None, ai_approvalId = None, ai_before = None, ai_after = Some [(''role_code'', JString roleCode)], ai_occurredAt = Some now\<rparr>"

definition role_event :: "role_change \<Rightarrow> string \<Rightarrow> string \<Rightarrow> date \<Rightarrow> build_event_input" where
  "role_event how target roleCode now =
     \<lparr>be_eventType = (if how = assigned then ''role.assigned.v1'' else ''role.revoked.v1''), be_sourceContext = ''identity-tenant'',
      be_aggregateType = ''RoleAssignment'', be_aggregateId = target @ '':'' @ roleCode, be_aggregateVersion = Num 1, be_occurredAt = now,
      be_classification = CONFIDENTIAL_BUSINESS, be_data = JObject [(''subject_actor_id'', JString target), (''role_code'', JString roleCode)],
      be_dataschema = None, be_subject = None\<rparr>"

definition change_assignment :: "tenant_context \<Rightarrow> role_change \<Rightarrow> string \<Rightarrow> string \<Rightarrow> (identity_db, unit) tx" where
  "change_assignment context how target roleCode =
     (let tenant = tc_tenantId context in
      if how = assigned then assignments_insert tenant tenant target roleCode
      else bindT (if roleCode = ADMINISTRATOR_ROLE then countActiveHolders tenant tenant roleCode else returnT 2) (\<lambda>n.
        if roleCode = ADMINISTRATOR_ROLE \<and> n \<le> 1 then throwT (Problem last_administrator_protected (Some (tc_correlationId context)) None)
        else assignments_remove tenant tenant target roleCode))"

definition change_work :: "role_env \<Rightarrow> tenant_context \<Rightarrow> role_change \<Rightarrow> string \<Rightarrow> string \<Rightarrow> (identity_db, unit) tx" where
  "change_work env context how target roleCode =
     (let tenant = tc_tenantId context in
      bindT (roles_findByCode tenant tenant roleCode) (\<lambda>role.
      if \<not> (\<exists>r\<in>set_option role. role_status r = role_active) then throwT (Problem role_not_found (Some (tc_correlationId context)) None)
      else bindT (change_assignment context how target roleCode) (\<lambda>_.
        bindT (recordForCurrentContext (re_audit env) (audit_append tenant) (Some context) (role_audit how target roleCode (re_now env))
          (re_auditNow env) (re_auditId env)) (\<lambda>_.
        bindT (liftT (buildEventEnvelope (Some context) (role_event how target roleCode (re_now env)) (re_now env) (re_eventId env))) (\<lambda>envelope.
          outbox_append tenant envelope)))))"

definition change :: "role_env \<Rightarrow> constraint_store option \<Rightarrow> tenant_context option \<Rightarrow> role_change \<Rightarrow> role_assignment_input \<Rightarrow> (identity_db, unit) tx" where
  "change env constraints ambient how input =
     bindT (\<lambda>db. (assertPermission (loadAssignedRoles db) constraints ambient ''tenant:role:assign'' [], db)) (\<lambda>_.
     bindT (liftT (currentTenantContext ambient)) (\<lambda>context.
     bindT (liftT (actorId (ra_targetActorId input))) (\<lambda>target.
       if target = tc_actorId context then throwT (Problem separation_of_duties_violation (Some (tc_correlationId context)) None)
       else runInTransaction (change_work env context how target (ra_roleCode input)))))"

definition assignRole where "assignRole env constraints ambient input = change env constraints ambient assigned input"
definition revokeRole where "revokeRole env constraints ambient input = change env constraints ambient revoked input"

section \<open>What a role change does\<close>

text \<open>The other tables stay; the audit trail and the outbox each gain one fact about a role assignment, and
  only a revocation of the administrator role can cost a tenant one of at least two administrators.\<close>

definition role_effect :: "string \<Rightarrow> identity_db \<Rightarrow> identity_db \<Rightarrow> bool" where
  "role_effect tenant db db' \<longleftrightarrow> db_tenants db' = db_tenants db \<and>
     (\<exists>a. db_audit db' = db_audit db @ [a] \<and> au_tenantId a = tenant \<and> au_targetType a = ''RoleAssignment'') \<and>
     (\<exists>row. q_entries (db_outbox db') = q_entries (db_outbox db) @ [row] \<and> ev_aggregate_type (oe_envelope row) = ''RoleAssignment'' \<and>
        ev_tenant_id (oe_envelope row) = tenant) \<and>
     (\<forall>t. holders t ADMINISTRATOR_ROLE (db_assignments db) \<noteq> [] \<longrightarrow> holders t ADMINISTRATOR_ROLE (db_assignments db') \<noteq> [])"

lemma countActiveHolders_Inr:
  "countActiveHolders bound t r s = (Inr n, s') \<longleftrightarrow> t = bound \<and> s' = s \<and> n = length (holders t r (db_assignments s))"
  by (auto simp: countActiveHolders_def guarded_Inr_iff)

lemma change_assignment_Inr:
  assumes "change_assignment context how target roleCode db = (Inr (), db')"
  obtains rows where "db' = db\<lparr>db_assignments := rows\<rparr>"
    "\<And>t. holders t ADMINISTRATOR_ROLE (db_assignments db) \<noteq> [] \<Longrightarrow> holders t ADMINISTRATOR_ROLE rows \<noteq> []"
proof (cases "how = assigned")
  case True
  then have "assignments_insert (tc_tenantId context) (tc_tenantId context) target roleCode db = (Inr (), db')"
    using assms by (simp add: change_assignment_def Let_def)
  then obtain rows where r: "db' = db\<lparr>db_assignments := rows\<rparr>" "\<And>t' r'. length (holders t' r' (db_assignments db)) \<le> length (holders t' r' rows)"
    by (rule assignments_insert_Inr) blast
  show ?thesis by (rule that [OF r(1)]) (use r(2) in \<open>metis le_zero_eq length_0_conv\<close>)
next
  case False
  let ?t = "tc_tenantId context"
  have "assignments_remove ?t ?t target roleCode db = (Inr (), db')"
    and two: "roleCode = ADMINISTRATOR_ROLE \<Longrightarrow> 2 \<le> length (holders ?t ADMINISTRATOR_ROLE (db_assignments db))"
    using assms False by (auto simp: change_assignment_def Let_def bindT_Inr_iff countActiveHolders_Inr split: if_splits)
  then obtain rows where r: "db' = db\<lparr>db_assignments := rows\<rparr>" "length (holders ?t roleCode (db_assignments db)) \<le> length (holders ?t roleCode rows) + 1"
    "\<And>t' r'. (t', r') \<noteq> (?t, roleCode) \<Longrightarrow> length (holders t' r' rows) = length (holders t' r' (db_assignments db))"
    by (elim assignments_remove_Inr) blast
  show ?thesis
  proof (rule that [OF r(1)])
    fix t assume h: "holders t ADMINISTRATOR_ROLE (db_assignments db) \<noteq> []"
    show "holders t ADMINISTRATOR_ROLE rows \<noteq> []"
    proof (cases "t = ?t \<and> roleCode = ADMINISTRATOR_ROLE")
      case True
      then show ?thesis using two r(2) by auto
    next
      case False
      then show ?thesis using r(3) [of t ADMINISTRATOR_ROLE] h by auto
    qed
  qed
qed

lemma change_work_effect:
  assumes "change_work env context how target roleCode db = (Inr (), db')"
  shows "role_effect (tc_tenantId context) db db'"
proof -
  obtain db1 ev db2 envelope where c: "change_assignment context how target roleCode db = (Inr (), db1)"
    and a: "recordForCurrentContext (re_audit env) (audit_append (tc_tenantId context)) (Some context) (role_audit how target roleCode (re_now env))
          (re_auditNow env) (re_auditId env) db1 = (Inr ev, db2)"
    and b: "buildEventEnvelope (Some context) (role_event how target roleCode (re_now env)) (re_now env) (re_eventId env) = Inr envelope"
    and o: "outbox_append (tc_tenantId context) envelope db2 = (Inr (), db')"
    using assms by (auto simp: change_work_def Let_def bindT_Inr_iff roles_findByCode_def guarded_Inr_iff split: if_splits)
  obtain rows where c': "db1 = db\<lparr>db_assignments := rows\<rparr>"
    "\<And>t. holders t ADMINISTRATOR_ROLE (db_assignments db) \<noteq> [] \<Longrightarrow> holders t ADMINISTRATOR_ROLE rows \<noteq> []"
    using change_assignment_Inr [OF c] by blast
  have a': "db2 = db1\<lparr>db_audit := db_audit db1 @ [ev]\<rparr>" "au_tenantId ev = tc_tenantId context" "au_targetType ev = ''RoleAssignment''"
    using a by (auto simp: recordForCurrentContext_def eventScopeFromCurrentContext_def currentTenantContext_def bindT_Inr_iff recordForScope_Inr_iff
        audit_append_Inr unsealed_event_def role_audit_def elim!: build_audit_event_Inr)
  obtain q where o': "db' = db2\<lparr>db_outbox := q\<rparr>" "ev_tenant_id envelope = tc_tenantId context"
    "q_entries q = q_entries (db_outbox db2) @ [new_entry (q_next (db_outbox db2)) None envelope (ev_recorded_at envelope)]"
    using outbox_append_Inr [OF o] by blast
  have "ev_aggregate_type envelope = ''RoleAssignment''"
    using b by (auto simp: buildEventEnvelope_def eventScopeFromCurrentContext_def currentTenantContext_def bindR_Inr_iff buildEventEnvelopeFor_Inr_iff
        envelope_of_def role_event_def)
  then show ?thesis using a' o' c'(2) by (auto simp: role_effect_def c'(1) new_entry_def)
qed

lemma change_db:
  assumes "change env constraints ambient how input db = (r, db')"
  shows "db' = db \<or> (\<exists>context. ambient = Some context \<and> role_effect (tc_tenantId context) db db')"
  using assms
  by (auto simp: change_def bindT_def liftT_def throwT_def runInTransaction_def currentTenantContext_def split: prod.splits sum.splits option.splits if_splits
      intro: change_work_effect)

text \<open>Roles change only with authority, never by the actor concerned, and never silently. A successful role
  change was made in a tenant context whose actor holds the role-assignment permission, concerns another
  actor and an active role of that tenant, and left one audit event and one outbox event for that tenant; a
  change that fails, for whatever reason, leaves the database as it was.\<close>

theorem role_change_controlled:
  "(change env constraints ambient how input db = (Inr (), db') \<longrightarrow>
     (\<exists>context. ambient = Some context \<and> ra_targetActorId input \<noteq> tc_actorId context \<and>
        assertPermission (loadAssignedRoles db) constraints ambient ''tenant:role:assign'' [] = Inr () \<and>
        (\<exists>row. db_roles db (tc_tenantId context, ra_roleCode input) = Some row \<and> rr_status row = role_active) \<and>
        role_effect (tc_tenantId context) db db')) \<and>
   (change env constraints ambient how input db = (Inl e, db') \<longrightarrow> db' = db)"
proof (intro conjI impI)
  assume "change env constraints ambient how input db = (Inr (), db')"
  then obtain ctx where c: "ambient = Some ctx" "assertPermission (loadAssignedRoles db) constraints ambient ''tenant:role:assign'' [] = Inr ()"
    "ra_targetActorId input \<noteq> tc_actorId ctx" and w: "change_work env ctx how (ra_targetActorId input) (ra_roleCode input) db = (Inr (), db')"
    by (auto simp: change_def bindT_Inr_iff currentTenantContext_def actorId_def ctx_requireNonBlank_def split: option.splits if_splits)
  have "\<exists>row. db_roles db (tc_tenantId ctx, ra_roleCode input) = Some row \<and> rr_status row = role_active"
    using w by (auto simp: change_work_def Let_def bindT_Inr_iff roles_findByCode_def guarded_Inr_iff split: if_splits option.splits)
  then show "\<exists>context. ambient = Some context \<and> ra_targetActorId input \<noteq> tc_actorId context \<and>
        assertPermission (loadAssignedRoles db) constraints ambient ''tenant:role:assign'' [] = Inr () \<and>
        (\<exists>row. db_roles db (tc_tenantId context, ra_roleCode input) = Some row \<and> rr_status row = role_active) \<and>
        role_effect (tc_tenantId context) db db'"
    using c change_work_effect [OF w] by blast
next
  assume "change env constraints ambient how input db = (Inl e, db')"
  then show "db' = db"
    by (auto simp: change_def bindT_def liftT_def throwT_def runInTransaction_def split: prod.splits sum.splits if_splits)
qed

section \<open>The identity service\<close>

inductive service_step :: "command_db \<Rightarrow> command_db \<Rightarrow> bool" where
  service_provision: "provision env authorizer c input key s = (r, s') \<Longrightarrow> service_step s s'"
| service_transition: "transition env authorizer c input target scope key s = (r, s') \<Longrightarrow> service_step s s'"
| service_role: "change env' constraints ambient how assignment db = (r', db') \<Longrightarrow> service_step (table, db) (table, db')"
| service_relay: "evolves (db_outbox db) q \<Longrightarrow> service_step (table, db) (table, db\<lparr>db_outbox := q\<rparr>)"

definition service_start :: command_db where
  "service_start = (Map.empty, empty_db)"

text \<open>The published events and the audit events about a tenant, oldest first.\<close>

definition tenant_stream :: "string \<Rightarrow> identity_db \<Rightarrow> event_envelope list" where
  "tenant_stream i db = filter (\<lambda>e. ev_tenant_id e = i \<and> ev_aggregate_type e = ''Tenant'' \<and> ev_aggregate_id e = i) (map oe_envelope (q_entries (db_outbox db)))"

definition tenant_trail :: "string \<Rightarrow> identity_db \<Rightarrow> audit_event list" where
  "tenant_trail i db = filter (\<lambda>a. au_tenantId a = i \<and> au_targetType a = ''Tenant'' \<and> au_targetId a = i) (db_audit db)"

definition told_by :: "string \<Rightarrow> identity_db \<Rightarrow> tenant_event_type list \<Rightarrow> bool" where
  "told_by i db types \<longleftrightarrow> map ev_type (tenant_stream i db) = map (\<lambda>ty. ''com.subrevos.'' @ event_type_text ty) types \<and>
     map au_action (tenant_trail i db) = map (\<lambda>ty. strip_version (event_type_text ty)) types \<and>
     map ev_aggregate_version (tenant_stream i db) = map int [1..<Suc (length types)] \<and>
     (case db_tenants db i of None \<Rightarrow> types = []
      | Some t \<Rightarrow> t_version t = int (length types) \<and> lifecycle_run None types = Some (t_state t))"

definition told :: "string \<Rightarrow> identity_db \<Rightarrow> bool" where
  "told i db \<longleftrightarrow> (\<exists>types. told_by i db types)"

definition administered :: "identity_db \<Rightarrow> bool" where
  "administered db \<longleftrightarrow> (\<forall>i t. db_tenants db i = Some t \<longrightarrow> holders i ADMINISTRATOR_ROLE (db_assignments db) \<noteq> [])"

lemma facts_append:
  assumes "tenant_facts i ty v db db'"
  obtains a e where "tenant_trail i db' = tenant_trail i db @ [a]" "au_action a = strip_version (event_type_text ty)"
    "tenant_stream i db' = tenant_stream i db @ [e]" "ev_aggregate_version e = v" "ev_type e = ''com.subrevos.'' @ event_type_text ty"
proof -
  obtain a row where f: "db_audit db' = db_audit db @ [a]" "au_tenantId a = i" "au_targetType a = ''Tenant''" "au_targetId a = i"
    "au_action a = strip_version (event_type_text ty)" "q_entries (db_outbox db') = q_entries (db_outbox db) @ [row]"
    "ev_tenant_id (oe_envelope row) = i" "ev_aggregate_type (oe_envelope row) = ''Tenant''" "ev_aggregate_id (oe_envelope row) = i"
    "ev_aggregate_version (oe_envelope row) = v" "ev_type (oe_envelope row) = ''com.subrevos.'' @ event_type_text ty"
    using assms unfolding tenant_facts_def by blast
  have 1: "tenant_trail i db' = tenant_trail i db @ [a]" unfolding tenant_trail_def f(1) by (simp add: f(2-4))
  have 2: "tenant_stream i db' = tenant_stream i db @ [oe_envelope row]" unfolding tenant_stream_def f(6) by (simp add: f(7-9))
  show ?thesis by (rule that [OF 1 f(5) 2 f(10,11)])
qed

lemma facts_told:
  assumes f: "tenant_facts i ty v db db'" and ty: "told_by i db types" and v: "v = int (length types) + 1"
    and tenant: "db_tenants db' i = Some t'" "t_version t' = v" "lifecycle_run None (types @ [ty]) = Some (t_state t')"
  shows "told i db'"
proof -
  obtain a e where s: "tenant_trail i db' = tenant_trail i db @ [a]" "au_action a = strip_version (event_type_text ty)"
    "tenant_stream i db' = tenant_stream i db @ [e]" "ev_aggregate_version e = v" "ev_type e = ''com.subrevos.'' @ event_type_text ty"
    by (rule facts_append [OF f])
  have "told_by i db' (types @ [ty])" using ty s v tenant by (simp add: told_by_def)
  then show ?thesis by (auto simp: told_def)
qed

lemma facts_others:
  assumes "tenant_facts i ty v db db'" "j \<noteq> i"
  shows "tenant_stream j db' = tenant_stream j db" "tenant_trail j db' = tenant_trail j db"
  using assms by (auto simp: tenant_facts_def tenant_stream_def tenant_trail_def)

lemma told_same:
  "told j db \<Longrightarrow> tenant_stream j db' = tenant_stream j db \<Longrightarrow> tenant_trail j db' = tenant_trail j db \<Longrightarrow> db_tenants db' j = db_tenants db j \<Longrightarrow> told j db'"
  by (simp add: told_def told_by_def)

lemma told_others:
  "tenant_facts i ty v db db' \<Longrightarrow> j \<noteq> i \<Longrightarrow> db_tenants db' j = db_tenants db j \<Longrightarrow> told j db \<Longrightarrow> told j db'"
  using facts_others told_same by blast

lemma provision_told:
  assumes p: "provision_effect i adm db db'" and t: "\<forall>j. told j db" shows "told j db'"
proof (cases "j = i")
  case True
  obtain t' where n: "db_tenants db i = None" "db_tenants db' i = Some t'" "t_state t' = PROVISIONING" "t_version t' = 1" "tenant_facts i tenant_provisioned_v1 1 db db'"
    using p by (auto simp: provision_effect_def)
  obtain types where ty: "told_by i db types" using t by (auto simp: told_def)
  then have "types = []" using n(1) by (simp add: told_by_def)
  then show ?thesis using facts_told [OF n(5) ty _ n(2,4)] n(3) True by simp
next
  case False
  have "tenant_facts i tenant_provisioned_v1 1 db db'" "db_tenants db' j = db_tenants db j" using p False by (auto simp: provision_effect_def)
  then show ?thesis using told_others False t by blast
qed

lemma transition_told:
  assumes p: "transition_effect i target db db'" and t: "\<forall>j. told j db" shows "told j db'"
proof -
  obtain cur t' where n: "db_tenants db i = Some cur" "target \<in> set (transitions (t_state cur))" "db_tenants db' = (db_tenants db)(i \<mapsto> t')" "t_state t' = target"
    "t_version t' = t_version cur + 1" "tenant_facts i (transitionEvents target) (t_version cur + 1) db db'"
    using p by (auto simp: transition_effect_def)
  show ?thesis
  proof (cases "j = i")
    case True
    obtain types where ty: "told_by i db types" using t by (auto simp: told_def)
    then have "t_version cur = int (length types)" "lifecycle_run None types = Some (t_state cur)" using n(1) by (simp_all add: told_by_def)
    then show ?thesis
      using facts_told [OF n(6) ty, of t'] lifecycle_run_snoc [OF _ transition_refines [OF n(2)]] n(3,4,5) True by simp
  next
    case False
    then show ?thesis using told_others [OF n(6) False] n(3) t by simp
  qed
qed

lemma role_told: "role_effect i db db' \<Longrightarrow> told j db \<Longrightarrow> told j db'"
  by (rule told_same [of j db]) (auto simp: role_effect_def tenant_stream_def tenant_trail_def)

lemma relay_told: "evolves (db_outbox db) q \<Longrightarrow> told j db \<Longrightarrow> told j (db\<lparr>db_outbox := q\<rparr>)"
proof (rule told_same [of j db])
  assume "evolves (db_outbox db) q"
  then have "map oe_envelope (q_entries q) = map oe_envelope (q_entries (db_outbox db))"
    unfolding evolves_def by (auto simp: list_all2_conv_all_nth same_row_def intro!: nth_equalityI)
  then show "tenant_stream j (db\<lparr>db_outbox := q\<rparr>) = tenant_stream j db" by (simp add: tenant_stream_def)
qed (simp_all add: tenant_trail_def)

lemma provision_administered: "provision_effect i adm db db' \<Longrightarrow> administered db \<Longrightarrow> administered db'"
  by (auto simp: provision_effect_def administered_def holders_append holders_def active_assignment_def ADMINISTRATOR_ROLE_def split: if_splits)

lemma service_step_inv:
  "service_step s s' \<Longrightarrow> (\<forall>j. told j (snd s)) \<and> administered (snd s) \<Longrightarrow> (\<forall>j. told j (snd s')) \<and> administered (snd s')"
proof (induction rule: service_step.induct)
  case (service_provision env authorizer c input key s r s')
  then show ?case using provision_db [OF service_provision.hyps] provision_told provision_administered by metis
next
  case (service_transition env authorizer c input target scope key s r s')
  have "administered db'" if "transition_effect i target db db'" "administered db" for i db db'
    using that by (auto simp: transition_effect_def administered_def split: if_splits)
  then show ?case using transition_db [OF service_transition.hyps] service_transition.prems transition_told by metis
next
  case (service_role env' constraints ambient how assignment db r' db' table)
  have "administered db'" if "role_effect i db db'" "administered db" for i
    using that by (simp add: role_effect_def administered_def)
  then show ?case using change_db [OF service_role.hyps] service_role.prems role_told by (metis snd_conv)
next
  case (service_relay db q table)
  then show ?case using relay_told by (simp add: administered_def)
qed

lemma service_start_inv: "(\<forall>j. told j (snd service_start)) \<and> administered (snd service_start)"
  by (simp add: service_start_def empty_db_def told_def told_by_def administered_def tenant_stream_def tenant_trail_def)

lemma service_run_inv: "service_step\<^sup>*\<^sup>* service_start s \<Longrightarrow> (\<forall>j. told j (snd s)) \<and> administered (snd s)"
  by (induction rule: rtranclp_induct) (use service_start_inv service_step_inv in blast)+

section \<open>A concrete provisioning\<close>

definition example_operator :: platform_context where
  "example_operator = \<lparr>pc_actorId = ''op'', pc_principalKind = interactive, pc_correlationId = ''r'', pc_causationId = None, pc_assurance = mfa,
     pc_credentialId = ''c'', pc_audiences = [''sintius-platform''], pc_scopes = [''platform:tenant:provision'']\<rparr>"

definition example_env :: command_env where
  "example_env = \<lparr>ce_trust = \<lparr>principals = [], issuedPrincipals = [], contexts = [], issuedContexts = [],
       platformContexts = [example_operator], issuedPlatformContexts = [0], storage = None\<rparr>,
     ce_audit = \<lparr>ad_policy = [(''Tenant'', TENANT_AUDIT_FIELDS)], ad_redact = id, ad_sha256 = id\<rparr>,
     ce_sha256 = id, ce_now = Some 5, ce_executorNow = Some 6, ce_auditNow = Some 7, ce_eventId = ''evt'', ce_auditId = ''aud''\<rparr>"

text \<open>What the example needs of a command environment, so that any trusted state with that operator will do.\<close>

definition example_ready :: "command_env \<Rightarrow> bool" where
  "example_ready env \<longleftrightarrow> 0 \<in> set (issuedPlatformContexts (ce_trust env)) \<and> platformContexts (ce_trust env) ! 0 = example_operator \<and>
     allowedFields (ad_policy (ce_audit env)) ''Tenant'' \<noteq> None \<and> ce_sha256 env = id \<and> ce_now env = Some 5 \<and> ce_executorNow env = Some 6 \<and>
     ce_auditNow env = Some 7 \<and> ce_eventId env = ''evt'' \<and> ce_auditId env = ''aud''"

lemma example_env_ready: "example_ready example_env"
  by (simp add: example_ready_def example_env_def allowedFields_def)

definition example_provision :: provision_tenant_input where
  "example_provision = \<lparr>pv_tenantId = ''t'', pv_displayName = ''Acme'', pv_initialAdministratorActorId = ''adm''\<rparr>"

definition example_tenant :: tenant_snapshot where
  "example_tenant = \<lparr>t_id = ''t'', t_displayName = ''Acme'', t_state = PROVISIONING, t_version = 1, t_createdAt = 5, t_updatedAt = 5\<rparr>"

definition example_event :: tenant_event where
  "example_event = \<lparr>te_type = tenant_provisioned_v1, te_tenantId = ''t'', te_aggregateVersion = 1, te_occurredAt = 5\<rparr>"

lemma example_change: "provisionTenant ''t'' ''Acme'' (Some 5) = Inr (example_tenant, example_event)"
  by (simp add: provisionTenant_def tenant_isoInstant_def trim_def is_space_def example_tenant_def example_event_def)

definition example_scope :: event_scope where
  "example_scope = \<lparr>es_tenantId = ''t'', es_actorId = ''op'', es_principalKind = interactive, es_correlationId = ''r'', es_causationId = None\<rparr>"

lemma example_issued:
  assumes "example_ready env"
  shows "issued_platform (ce_trust env) 0 = Inr (platformContexts (ce_trust env) ! 0)" "eventScopeForPlatformCommand (ce_trust env) 0 ''t'' = Inr example_scope"
  using assms
  by (simp_all add: issued_platform_def assertIssuedPlatformContext_def assertT_def example_ready_def example_operator_def eventScopeForPlatformCommand_def example_scope_def)

lemma envelope_built:
  "\<exists>e. buildEventEnvelopeFor example_scope (eventInputFor (example_tenant, example_event) (JObject
     [(''display_name'', JString ''Acme''), (''new_state'', JString ''PROVISIONING'')])) (Some 5) ''evt'' = Inr e \<and> ev_tenant_id e = ''t''"
proof -
  let ?d = "JObject [(''display_name'', JString ''Acme''), (''new_state'', JString ''PROVISIONING'')]"
  have "assertJsonCompatible ?d 0 = Inr ()" by (simp add: assertJsonCompatible.simps)
  moreover have "\<not> containsTenantIdentity ?d" by code_simp
  moreover have "matches_event_type ''tenant.provisioned.v1''" "matches_source_context ''identity-tenant''"
    by (simp_all add: matches_event_type_def matches_source_context_def matches_head_tail_def is_fact_char_def is_lower_def is_digit_def less_eq_char_def)
  ultimately have "buildable example_scope (eventInputFor (example_tenant, example_event) ?d) (Some 5) ''evt'' 1 5 5"
    by (simp add: buildable_def eventInputFor_def example_event_def example_tenant_def js_integer_def blank_def is_space_def)
  then have "buildEventEnvelopeFor example_scope (eventInputFor (example_tenant, example_event) ?d) (Some 5) ''evt'' =
      Inr (envelope_of example_scope (eventInputFor (example_tenant, example_event) ?d) ''evt'' 1 5 5)"
    by (auto simp: buildEventEnvelopeFor_Inr_iff)
  then show ?thesis by (simp add: envelope_of_def example_scope_def)
qed

lemma example_prepared:
  "\<exists>h. prepare_request id (platform_exec_scope ctx ''t'') \<lparr>rq_scope = ''tenant.provision'', rq_key = Some sample_key,
     rq_payload = JObject [(''display_name'', JString ''Acme''), (''initial_administrator_actor_id'', JString ''adm'')]\<rparr> = Inr (map lower_char sample_key, h)"
proof -
  let ?p = "JObject [(''display_name'', JString ''Acme''), (''initial_administrator_actor_id'', JString ''adm'')]"
  have "\<exists>t. canonicalJson ?p 1 = Inr t"
    by (rule canonicalJson_flat_object) (auto simp: MAX_DEPTH_def intro: scalar_string)
  moreover have "\<exists>t. canonicalJson (JString s) 1 = Inr t" for s
    using canonicalJson_scalar [OF scalar_string] by (simp add: MAX_DEPTH_def)
  ultimately have "\<exists>t. canonicalJson (JObject [(''scope'', JString ''tenant.provision''), (''payload'', ?p)]) 0 = Inr t"
    by (intro canonicalJson_object) (auto simp: MAX_DEPTH_def)
  then obtain h where h: "canonicalRequestHash id ''tenant.provision'' ?p = Inr h" by (auto simp: canonicalRequestHash_def)
  have "\<not> containsTenantIdentity ?p" by code_simp
  moreover have "matches_scope ''tenant.provision''"
    by (simp add: matches_scope_def matches_head_tail_def is_scope_char_def is_name_char_def is_lower_def is_digit_def less_eq_char_def)
  ultimately show ?thesis using h sample_key_ok(1) by (simp add: prepare_request_Inr)
qed

lemma example_audited:
  "\<exists>ev. record_audit env 0 ''t'' (tenant_audit (example_tenant, example_event) ''t'' None fs None) db = (Inr ev, db\<lparr>db_audit := [ev]\<rparr>)"
  if "example_ready env" "db_audit db = []" for fs
proof -
  have "\<exists>ev. build_audit_event (ce_audit env) example_scope (tenant_audit (example_tenant, example_event) ''t'' None fs None) (Some 7) ''aud'' = Inr ev"
    by (rule build_audit_event_ok [where recorded = 7 and occurred = 5])
       (use that(1) in \<open>simp_all add: tenant_audit_def auditActionFor_def example_event_def strip_version_def matches_action_def is_digit_def is_lower_def is_field_char_def
         less_eq_char_def blank_def is_space_def example_ready_def\<close>)
  then obtain ev where ev: "build_audit_event (ce_audit env) example_scope (tenant_audit (example_tenant, example_event) ''t'' None fs None) (Some 7) ''aud'' = Inr ev"
    by blast
  have "au_tenantId ev = ''t''" using ev by (auto simp: unsealed_event_def example_scope_def elim!: build_audit_event_Inr)
  then have "recordForScope (ce_audit env) (audit_append ''t'') example_scope (tenant_audit (example_tenant, example_event) ''t'' None fs None) (Some 7) ''aud'' db =
      (Inr ev, db\<lparr>db_audit := [ev]\<rparr>)"
    using ev that by (simp add: recordForScope_Inr_iff audit_append_Inr)
  moreover have "ce_auditNow env = Some 7" "ce_auditId env = ''aud''" using that(1) by (simp_all add: example_ready_def)
  ultimately show ?thesis by (simp add: record_audit_def recordForPlatformCommand_def example_issued [OF that(1)] bindT_def tx_eval)
qed

lemma example_work:
  assumes ready: "example_ready env" and "ev_tenant_id envelope = ''t''"
  shows "\<exists>db'. provision_work env 0 ''t'' ''adm'' (example_tenant, example_event) envelope empty_db = (Inr (storedTenant example_tenant 201), db') \<and>
    db_tenants db' ''t'' = Some example_tenant"
proof -
  let ?db = "empty_db\<lparr>db_tenants := [''t'' \<mapsto> example_tenant], db_roles := [(''t'', ''tenant_administrator'') \<mapsto> default_administrator_role],
    db_assignments := [active_assignment ''t'' ''adm'' ''tenant_administrator''], db_policies := [(''t'', ''pricing:rate_card:activate'') \<mapsto> hd DEFAULT_APPROVAL_POLICIES]\<rparr>"
  obtain ev where ev: "record_audit env 0 ''t'' (tenant_audit (example_tenant, example_event) ''t'' None
       [(''state'', JString (state_text (t_state example_tenant))), (''version'', JNumber (Num (t_version example_tenant))),
        (''display_name'', JString (t_displayName example_tenant))] None) ?db = (Inr ev, ?db\<lparr>db_audit := [ev]\<rparr>)"
    using example_audited [OF ready, of ?db] by (auto simp: empty_db_def)
  have i: "t_id example_tenant = ''t''" by (simp add: example_tenant_def)
  have steps: "tenants_insert ''t'' example_tenant empty_db = (Inr (), empty_db\<lparr>db_tenants := [''t'' \<mapsto> example_tenant]\<rparr>)"
    by (simp add: tenants_insert_Inr i) (simp add: empty_db_def)
  show ?thesis
    using ev assms(2) steps
    by (simp add: provision_work_def bindT_def insertDefaultAdministratorRole_def insertInitialAdministrator_def guarded_def assertTenantMatch_def
        DEFAULT_APPROVAL_POLICIES_def policies_insert_def outbox_append_def appendOutboxEvent_def empty_db_def tx_eval)
qed

lemma example_executed:
  assumes ready: "example_ready env" and "ev_tenant_id envelope = ''t''"
  shows "\<exists>s'. createPlatformIdempotentExecutor (pg_store ''t'') id (Some 6) DEFAULT_RETENTION_SECONDS (ce_trust env) 0 ''t''
     \<lparr>rq_scope = ''tenant.provision'', rq_key = Some sample_key, rq_payload = JObject [(''display_name'', JString ''Acme''), (''initial_administrator_actor_id'', JString ''adm'')]\<rparr>
     (liftT (Inr ())) (outside_table (provision_work env 0 ''t'' ''adm'' (example_tenant, example_event) envelope)) service_start =
     (Inr (storedTenant example_tenant 201, False), s') \<and> db_tenants (snd s') ''t'' = Some example_tenant"
proof -
  let ?ctx = "platform_exec_scope (platformContexts (ce_trust env) ! 0) ''t''"
  let ?req = "\<lparr>rq_scope = ''tenant.provision'', rq_key = Some sample_key,
      rq_payload = JObject [(''display_name'', JString ''Acme''), (''initial_administrator_actor_id'', JString ''adm'')]\<rparr>"
  obtain h where h: "prepare_request id ?ctx ?req = Inr (map lower_char sample_key, h)" using example_prepared by blast
  obtain db' where w: "provision_work env 0 ''t'' ''adm'' (example_tenant, example_event) envelope empty_db = (Inr (storedTenant example_tenant 201), db')"
      "db_tenants db' ''t'' = Some example_tenant"
    using example_work [OF assms] by blast
  have "\<exists>t. canonicalJson (sr_body (storedTenant example_tenant 201)) 0 = Inr t"
    unfolding storedTenant_def by simp (rule canonicalJson_flat_object, auto simp: MAX_DEPTH_def scalar_def js_finite_def)
  moreover have "claim_instants (Some 6) DEFAULT_RETENTION_SECONDS = Inr (6, 604800006)"
    by (simp add: claim_instants_def mkDate_def DEFAULT_RETENTION_SECONDS_def)
  moreover have "sr_status (storedTenant example_tenant 201) = Num 201" by (simp add: storedTenant_def)
  ultimately show ?thesis
    using h w example_issued(1) [OF ready]
    by (auto simp: createPlatformIdempotentExecutor_def executeUntraced_def bindT_def tx_eval runInTransaction_def pg_store_def pg_claim_cases pg_complete_cases
        claim_of_def settle_def outside_table_def service_start_def js_integer_def platform_exec_scope_def assertT_def)
qed

lemma example_provisioned:
  assumes ready: "example_ready env"
  shows "\<exists>view s'. provision env platform_assertAllowed 0 example_provision (Some sample_key) service_start = (Inr view, s') \<and>
     db_tenants (snd s') ''t'' = Some example_tenant"
proof -
  obtain e where e: "buildEventEnvelopeFor example_scope (eventInputFor (example_tenant, example_event) (JObject
     [(''display_name'', JString ''Acme''), (''new_state'', JString ''PROVISIONING'')])) (Some 5) ''evt'' = Inr e" "ev_tenant_id e = ''t''"
    using envelope_built by blast
  obtain s' where s': "createPlatformIdempotentExecutor (pg_store ''t'') id (Some 6) DEFAULT_RETENTION_SECONDS (ce_trust env) 0 ''t''
     \<lparr>rq_scope = ''tenant.provision'', rq_key = Some sample_key, rq_payload = JObject [(''display_name'', JString ''Acme''), (''initial_administrator_actor_id'', JString ''adm'')]\<rparr>
     (liftT (Inr ())) (outside_table (provision_work env 0 ''t'' ''adm'' (example_tenant, example_event) e)) service_start =
     (Inr (storedTenant example_tenant 201, False), s')" "db_tenants (snd s') ''t'' = Some example_tenant"
    using example_executed [OF ready e(2)] by blast
  have a: "authorize env platform_assertAllowed 0 ''platform:tenant:provision'' = Inr ()"
    unfolding authorize_def example_issued [OF ready] bindR_simps platform_assertAllowed_def
    using ready by (simp add: example_ready_def example_operator_def isPlatformPermission_def PLATFORM_PERMISSION_CATALOG_def PLATFORM_AUDIENCE_def)
  have ids: "tenantId ''t'' = Inr ''t''" "actorId ''adm'' = Inr ''adm''"
    by (simp_all add: tenantId_def actorId_def ctx_requireNonBlank_def trim_def is_space_def)
  have env: "ce_now env = Some 5" "ce_executorNow env = Some 6" "ce_eventId env = ''evt''" "ce_sha256 env = id"
    using ready by (simp_all add: example_ready_def)
  have t: "t_displayName example_tenant = ''Acme''" "t_state example_tenant = PROVISIONING" by (simp_all add: example_tenant_def)
  have view: "\<exists>v. tenantFromStored (storedTenant example_tenant 201) ''t'' corr = Inr v" for corr
    by (simp add: tenantFromStored_def storedTenant_def example_tenant_def state_of_text_def js_integer_def ids)
  then obtain v where "tenantFromStored (storedTenant example_tenant 201) ''t'' (pc_correlationId (platformContexts (ce_trust env) ! 0)) = Inr v" by blast
  then have run: "provision env platform_assertAllowed 0 example_provision (Some sample_key) service_start = (Inr v, s')"
    by (simp add: provision_def example_provision_def bindT_def tx_eval ids env example_change example_issued [OF ready] t e a s'(1))
  then show ?thesis using s'(2) by blast
qed

lemma example_service_run: "\<exists>s. service_step\<^sup>*\<^sup>* service_start s \<and> db_tenants (snd s) ''t'' = Some example_tenant"
  using example_provisioned [OF example_env_ready] service_provision by (metis r_into_rtranclp)

definition example_role_db :: identity_db where
  "example_role_db = empty_db\<lparr>db_roles := [(''t:1'', ''tenant_administrator'') \<mapsto>
      \<lparr>rr_permissions = JArray [JString ''tenant:role:manage'', JString ''tenant:role:assign''], rr_status = role_active, rr_limits = JArray []\<rparr>],
    db_assignments := [active_assignment ''t:1'' ''a'' ''tenant_administrator'']\<rparr>"

definition example_role_env :: role_env where
  "example_role_env = \<lparr>re_audit = \<lparr>ad_policy = [(''RoleAssignment'', ROLE_AUDIT_FIELDS)], ad_redact = id, ad_sha256 = id\<rparr>,
     re_now = Some 5, re_auditNow = Some 6, re_eventId = ''evt'', re_auditId = ''aud''\<rparr>"

definition example_assignment :: role_assignment_input where
  "example_assignment = \<lparr>ra_targetActorId = ''b'', ra_roleCode = ''tenant_administrator''\<rparr>"

lemma example_role_audited:
  "\<exists>ev. recordForCurrentContext (re_audit example_role_env) (audit_append ''t:1'') (Some (example_context ''t:1''))
     (role_audit assigned ''b'' ''tenant_administrator'' (Some 5)) (Some 6) ''aud'' db = (Inr ev, db\<lparr>db_audit := [ev]\<rparr>)"
  if "db_audit db = []"
proof -
  have "\<exists>ev. build_audit_event (re_audit example_role_env) (scope_of_context (example_context ''t:1'')) (role_audit assigned ''b'' ''tenant_administrator'' (Some 5)) (Some 6) ''aud'' = Inr ev"
    by (rule build_audit_event_ok [where recorded = 6 and occurred = 5])
       (simp_all add: role_audit_def matches_action_def is_lower_def is_field_char_def is_digit_def less_eq_char_def blank_def is_space_def allowedFields_def
         example_role_env_def)
  then obtain ev where ev: "build_audit_event (re_audit example_role_env) (scope_of_context (example_context ''t:1''))
      (role_audit assigned ''b'' ''tenant_administrator'' (Some 5)) (Some 6) ''aud'' = Inr ev" by blast
  have "au_tenantId ev = ''t:1''" using ev by (auto simp: unsealed_event_def scope_of_context_def example_context_def elim!: build_audit_event_Inr)
  then have "recordForScope (re_audit example_role_env) (audit_append ''t:1'') (scope_of_context (example_context ''t:1''))
      (role_audit assigned ''b'' ''tenant_administrator'' (Some 5)) (Some 6) ''aud'' db = (Inr ev, db\<lparr>db_audit := [ev]\<rparr>)"
    using ev that by (simp add: recordForScope_Inr_iff audit_append_Inr)
  then show ?thesis
    by (simp add: recordForCurrentContext_def eventScopeFromCurrentContext_def currentTenantContext_def bindT_def tx_eval)
qed

lemma example_role_event:
  "\<exists>e. buildEventEnvelope (Some (example_context ''t:1'')) (role_event assigned ''b'' ''tenant_administrator'' (Some 5)) (Some 5) ''evt'' = Inr e \<and> ev_tenant_id e = ''t:1''"
proof -
  let ?d = "JObject [(''subject_actor_id'', JString ''b''), (''role_code'', JString ''tenant_administrator'')]"
  let ?s = "scope_of_context (example_context ''t:1'')" and ?i = "role_event assigned ''b'' ''tenant_administrator'' (Some 5)"
  have "assertJsonCompatible ?d 0 = Inr ()" by (simp add: assertJsonCompatible.simps)
  moreover have "\<not> containsTenantIdentity ?d" by code_simp
  moreover have "matches_event_type ''role.assigned.v1''" "matches_source_context ''identity-tenant''"
    by (simp_all add: matches_event_type_def matches_source_context_def matches_head_tail_def is_fact_char_def is_lower_def is_digit_def less_eq_char_def)
  ultimately have "buildable ?s ?i (Some 5) ''evt'' 1 5 5"
    by (simp add: buildable_def role_event_def js_integer_def blank_def is_space_def)
  then have "buildEventEnvelopeFor ?s ?i (Some 5) ''evt'' = Inr (envelope_of ?s ?i ''evt'' 1 5 5)"
    by (auto simp: buildEventEnvelopeFor_Inr_iff)
  then show ?thesis
    by (simp add: buildEventEnvelope_def eventScopeFromCurrentContext_def currentTenantContext_def envelope_of_def scope_of_context_def example_context_def)
qed

lemma example_assigned:
  "\<exists>db'. change example_role_env None (Some (example_context ''t:1'')) assigned example_assignment example_role_db = (Inr (), db')"
proof -
  let ?db = "example_role_db\<lparr>db_assignments := db_assignments example_role_db @ [active_assignment ''t:1'' ''b'' ''tenant_administrator'']\<rparr>"
  obtain ev where ev: "recordForCurrentContext (re_audit example_role_env) (audit_append ''t:1'') (Some (example_context ''t:1''))
     (role_audit assigned ''b'' ''tenant_administrator'' (Some 5)) (Some 6) ''aud'' ?db = (Inr ev, ?db\<lparr>db_audit := [ev]\<rparr>)"
    using example_role_audited [of ?db] by (auto simp: example_role_db_def empty_db_def)
  obtain e where e: "buildEventEnvelope (Some (example_context ''t:1'')) (role_event assigned ''b'' ''tenant_administrator'' (Some 5)) (Some 5) ''evt'' = Inr e"
    "ev_tenant_id e = ''t:1''" using example_role_event by blast
  have c: "tc_tenantId (example_context ''t:1'') = ''t:1''" "tc_actorId (example_context ''t:1'') = ''a''" "tc_principalKind (example_context ''t:1'') = interactive"
    by (simp_all add: example_context_def)
  have p: "assertPermission (loadAssignedRoles example_role_db) None (Some (example_context ''t:1'')) ''tenant:role:assign'' [] = Inr ()"
    by (simp add: assertPermission_def hasPermission_def assertKnownPermission_def isKnownPermission_def PERMISSION_CATALOG_def currentTenantContext_def c
        loadAssignedRoles_def example_role_db_def active_assignment_def List.map_filter_def role_from_def grantedByRoles_def role_grants_def string_items_def
        limits_from_def constraintsSatisfied_def)
  have r: "roles_findByCode ''t:1'' ''t:1'' ''tenant_administrator'' example_role_db = (Inr (Some \<lparr>role_code = ''tenant_administrator'',
      role_permissions = [''tenant:role:manage'', ''tenant:role:assign''], role_status = role_active, role_limits = None\<rparr>), example_role_db)"
    by (simp add: roles_findByCode_def guarded_def assertTenantMatch_def bindT_def tx_eval example_role_db_def string_items_def List.map_filter_def)
  have i: "assignments_insert ''t:1'' ''t:1'' ''b'' ''tenant_administrator'' example_role_db = (Inr (), ?db)"
    by (simp add: assignments_insert_def guarded_def assertTenantMatch_def bindT_def tx_eval example_role_db_def assignment_key_def active_assignment_def)
  have env: "re_now example_role_env = Some 5" "re_auditNow example_role_env = Some 6" "re_eventId example_role_env = ''evt''" "re_auditId example_role_env = ''aud''"
    by (simp_all add: example_role_env_def)
  have o: "\<exists>db'. outbox_append ''t:1'' e (?db\<lparr>db_audit := [ev]\<rparr>) = (Inr (), db')"
    by (simp add: outbox_append_def guarded_def assertTenantMatch_def e(2) bindT_def tx_eval appendOutboxEvent_def example_role_db_def empty_db_def)
  then obtain db' where db': "outbox_append ''t:1'' e (?db\<lparr>db_audit := [ev]\<rparr>) = (Inr (), db')" by blast
  have "change_work example_role_env (example_context ''t:1'') assigned ''b'' ''tenant_administrator'' example_role_db = (Inr (), db')"
    unfolding change_work_def change_assignment_def Let_def c(1)
    by (simp add: bindT_def [of "roles_findByCode _ _ _"] r bindT_def [of "assignments_insert _ _ _ _"] i
        bindT_def [of "recordForCurrentContext _ _ _ _ _ _"] env ev bindT_def [of "liftT _"] tx_eval e(1) db' del: fun_upd_apply)
  moreover have "actorId ''b'' = Inr ''b''" by (simp add: actorId_def ctx_requireNonBlank_def trim_def is_space_def)
  ultimately show ?thesis
    by (simp add: change_def example_assignment_def bindT_def tx_eval p currentTenantContext_def c runInTransaction_def)
qed

theorem role_change_controlled_witness:
  "\<exists>db'. change example_role_env None (Some (example_context ''t:1'')) assigned example_assignment example_role_db = (Inr (), db') \<and> role_effect ''t:1'' example_role_db db'"
proof -
  obtain db' where run: "change example_role_env None (Some (example_context ''t:1'')) assigned example_assignment example_role_db = (Inr (), db')"
    using example_assigned by blast
  from role_change_controlled [THEN conjunct1, rule_format, OF run] show ?thesis using run by (auto simp: example_context_def)
qed

section \<open>Promises of the identity service\<close>

text \<open>C7: The published events and the audit trail tell the truth about every tenant. After any sequence of tenant
  commands (accepted, refused, failed or repeated), role changes and relay activity, the outbox holds for each
  tenant an event per accepted command, with versions 1, 2, 3 and so on without gap; these events drive the
  lifecycle automaton to exactly the stored state, the stored version is their number, and the audit trail
  records the same changes in the same order. A tenant that was never provisioned has neither.\<close>

theorem tenant_state_is_told:
  assumes "service_step\<^sup>*\<^sup>* service_start s"
  shows "\<exists>types. map ev_type (tenant_stream i (snd s)) = map (\<lambda>ty. ''com.subrevos.'' @ event_type_text ty) types \<and>
    map au_action (tenant_trail i (snd s)) = map (\<lambda>ty. strip_version (event_type_text ty)) types \<and>
    map ev_aggregate_version (tenant_stream i (snd s)) = map int [1..<Suc (length types)] \<and>
    (case db_tenants (snd s) i of None \<Rightarrow> types = []
     | Some t \<Rightarrow> t_version t = int (length types) \<and> lifecycle_run None types = Some (t_state t))"
  using service_run_inv [OF assms] unfolding told_def told_by_def by blast

theorem tenant_state_is_told_witness:
  "\<exists>s. service_step\<^sup>*\<^sup>* service_start s \<and> db_tenants (snd s) ''t'' = Some example_tenant \<and> length (tenant_stream ''t'' (snd s)) = 1"
proof -
  obtain s where s: "service_step\<^sup>*\<^sup>* service_start s" "db_tenants (snd s) ''t'' = Some example_tenant" using example_service_run by blast
  from tenant_state_is_told [OF s(1), of "''t''"] obtain types where ty:
    "map ev_type (tenant_stream ''t'' (snd s)) = map (\<lambda>ty. ''com.subrevos.'' @ event_type_text ty) types" "t_version example_tenant = int (length types)"
    using s(2) by auto
  have "length (tenant_stream ''t'' (snd s)) = length types" using arg_cong [OF ty(1), of length] by simp
  then have "length (tenant_stream ''t'' (snd s)) = 1" using ty(2) by (simp add: example_tenant_def)
  then show ?thesis using s by blast
qed

text \<open>C9: No tenant is ever locked out. After any sequence of tenant commands, role changes and relay activity, every
  provisioned tenant has at least one active administrator.\<close>

theorem tenant_always_administered:
  assumes "service_step\<^sup>*\<^sup>* service_start s" "db_tenants (snd s) i = Some t"
  shows "\<exists>a\<in>set (db_assignments (snd s)). as_tenantId a = i \<and> as_roleCode a = ''tenant_administrator'' \<and> as_active a"
proof -
  have "holders i ADMINISTRATOR_ROLE (db_assignments (snd s)) \<noteq> []" using service_run_inv [OF assms(1)] assms(2) by (simp add: administered_def)
  then obtain a where "a \<in> set (holders i ADMINISTRATOR_ROLE (db_assignments (snd s)))" by (cases "holders i ADMINISTRATOR_ROLE (db_assignments (snd s))") auto
  then show ?thesis by (auto simp: holders_def ADMINISTRATOR_ROLE_def)
qed

theorem tenant_always_administered_witness:
  "\<exists>s. service_step\<^sup>*\<^sup>* service_start s \<and> (\<exists>a\<in>set (db_assignments (snd s)). as_tenantId a = ''t'' \<and> as_roleCode a = ''tenant_administrator'' \<and> as_active a)"
  using example_service_run tenant_always_administered by blast

end
