(* ===== verification/Approval_Commands.thy ===== *)
theory Approval_Commands
  imports Identity_Store
begin

text \<open>
  \<open>modules/audit-governance/application/approval-commands.ts\<close> on \<open>infrastructure/postgres/approval-persistence.ts\<close>: proposing,
  deciding and cancelling approval requests. The database is the table of requests beside the identity
  tables, whose roles the tenant authorizer reads live. Reading a row back checks the identifiers it holds
  and cuts its instants to the second.

  The lemmas show that every stored request is one the approval domain can reach, so dual control holds
  of what is in the database, and that each decision was made by an authorized human with a second factor
  who held the permission it was credited to at that moment.
\<close>

section \<open>Model: persistence\<close>

record approval_db =
  ag_identity :: identity_db
  ag_requests :: "string \<times> string \<rightharpoonup> approval_request"

definition on_tables :: "(identity_db, 'a) tx \<Rightarrow> (approval_db, 'a) tx" where
  "on_tables m s = (case m (ag_identity s) of (r, db) \<Rightarrow> (r, s\<lparr>ag_identity := db\<rparr>))"

definition approvals_insert :: "string \<Rightarrow> approval_request \<Rightarrow> (approval_db, unit) tx" where
  "approvals_insert bound request = guarded (ar_tenantId request) bound (\<lambda>s.
     if (ar_tenantId request, ar_id request) \<in> dom (ag_requests s) then (Inl Error, s)
     else (Inr (), s\<lparr>ag_requests := (ag_requests s)((ar_tenantId request, ar_id request) \<mapsto> request)\<rparr>))"

text \<open>A row as it is read: its instants pass through the text of a \<open>Date\<close>, which has no milliseconds.\<close>

definition requestFrom :: "approval_request \<Rightarrow> approval_request res" where
  "requestFrom row =
     bindR (mapR (\<lambda>d. bindR (actorId (dec_actorId d)) (\<lambda>_. Inr d)) (ar_decisions row)) (\<lambda>decisions.
     bindR (tenantId (ar_tenantId row)) (\<lambda>_.
     bindR (actorId (ar_makerId row)) (\<lambda>_. Inr (row\<lparr>ar_decisions := decisions,
       ar_createdAt := via_date_text (ar_createdAt row), ar_expiresAt := via_date_text (ar_expiresAt row)\<rparr>))))"

definition approvals_findById :: "string \<Rightarrow> string \<Rightarrow> string \<Rightarrow> (approval_db, approval_request option) tx" where
  "approvals_findById bound tenant i = guarded tenant bound (\<lambda>s.
     (case ag_requests s (tenant, i) of None \<Rightarrow> Inr None | Some row \<Rightarrow> bindR (requestFrom row) (\<lambda>r. Inr (Some r)), s))"

definition approvals_update :: "string \<Rightarrow> approval_request \<Rightarrow> int \<Rightarrow> (approval_db, unit) tx" where
  "approvals_update bound request expectedVersion = guarded (ar_tenantId request) bound (\<lambda>s.
     case ag_requests s (ar_tenantId request, ar_id request) of
       None \<Rightarrow> (reject approval_version_conflict, s)
     | Some row \<Rightarrow>
         if ar_version row \<noteq> expectedVersion then (reject approval_version_conflict, s)
         else (Inr (), s\<lparr>ag_requests := (ag_requests s)((ar_tenantId request, ar_id request) \<mapsto>
           row\<lparr>ar_status := ar_status request, ar_decisions := ar_decisions request, ar_version := ar_version request\<rparr>)\<rparr>))"

section \<open>Model: commands\<close>

definition APPROVAL_AUDIT_FIELDS :: "string list" where
  "APPROVAL_AUDIT_FIELDS = [''action_type'', ''target_id'', ''status'', ''version'', ''decision'', ''resulting_status'', ''previous_version'']"

record approval_env =
  ae_audit :: audit_deps
  ae_constraints :: "constraint_store option"
  ae_now :: date
  ae_auditNow :: date
  ae_approvalId :: string
  ae_eventId :: string
  ae_auditId :: string

record decide_command =
  dc_approvalId :: string
  dc_decision :: decision_kind
  dc_expectedVersion :: int
  dc_target :: approval_target
  dc_reason :: "string option"

fun status_text :: "approval_status \<Rightarrow> string" where
  "status_text PENDING = ''PENDING''"
| "status_text APPROVED = ''APPROVED''"
| "status_text REJECTED = ''REJECTED''"
| "status_text EXPIRED = ''EXPIRED''"
| "status_text CANCELLED = ''CANCELLED''"

fun decision_text :: "decision_kind \<Rightarrow> string" where
  "decision_text Approve = ''approve''"
| "decision_text Reject = ''reject''"

definition approval_audit :: "approval_request \<Rightarrow> string \<Rightarrow> date \<Rightarrow> (string \<times> js_value) list \<Rightarrow> string option \<Rightarrow> audit_input" where
  "approval_audit request action now details reason =
     \<lparr>ai_action = action, ai_targetType = ''ApprovalRequest'', ai_targetId = ar_id request, ai_reason = reason, ai_approvalId = Some (ar_id request),
      ai_before = None, ai_after = Some (details @ [(''status'', JString (status_text (ar_status request))), (''version'', JNumber (Num (ar_version request)))]),
      ai_occurredAt = Some now\<rparr>"

definition approval_event :: "approval_request \<Rightarrow> string \<Rightarrow> date \<Rightarrow> build_event_input" where
  "approval_event request eventType now =
     \<lparr>be_eventType = eventType, be_sourceContext = ''audit-governance'', be_aggregateType = ''ApprovalRequest'', be_aggregateId = ar_id request,
      be_aggregateVersion = Num (ar_version request), be_occurredAt = now, be_classification = CONFIDENTIAL_BUSINESS,
      be_data = JObject [(''action_type'', JString (ar_actionType request)), (''status'', JString (status_text (ar_status request))),
        (''maker_id'', JString (ar_makerId request))],
      be_dataschema = None, be_subject = None\<rparr>"

definition record_approval :: "approval_env \<Rightarrow> tenant_context \<Rightarrow> approval_request \<Rightarrow> string \<Rightarrow> string \<Rightarrow> (string \<times> js_value) list \<Rightarrow> string option \<Rightarrow>
    (approval_db, unit) tx" where
  "record_approval env context request action eventType details reason =
     bindT (on_tables (recordForCurrentContext (ae_audit env) (audit_append (tc_tenantId context)) (Some context)
       (approval_audit request action (ae_now env) details reason) (ae_auditNow env) (ae_auditId env))) (\<lambda>_.
     bindT (liftT (buildEventEnvelope (Some context) (approval_event request eventType (ae_now env)) (ae_now env) (ae_eventId env))) (\<lambda>envelope.
       on_tables (outbox_append (tc_tenantId context) envelope)))"

definition load :: "tenant_context \<Rightarrow> string \<Rightarrow> (approval_db, approval_request) tx" where
  "load context approvalId =
     bindT (approvals_findById (tc_tenantId context) (tc_tenantId context) approvalId) (\<lambda>found.
     case found of
       None \<Rightarrow> throwT (Problem approval_not_found (Some (tc_correlationId context)) None)
     | Some request \<Rightarrow>
         if ar_tenantId request \<noteq> tc_tenantId context then throwT (Problem approval_not_found (Some (tc_correlationId context)) None)
         else returnT request)"

definition live_has :: "approval_env \<Rightarrow> tenant_context \<Rightarrow> identity_db \<Rightarrow> string \<Rightarrow> bool res" where
  "live_has env context db permission = hasPermission (loadAssignedRoles db) (ae_constraints env) (Some context) permission []"

definition live_assert :: "approval_env \<Rightarrow> tenant_context option \<Rightarrow> string \<Rightarrow> (approval_db, unit) tx" where
  "live_assert env ambient permission s =
     (assertPermission (loadAssignedRoles (ag_identity s)) (ae_constraints env) ambient permission [], s)"

fun approver_permissions :: "(string \<Rightarrow> bool res) \<Rightarrow> approver_requirement list \<Rightarrow> string list res" where
  "approver_permissions has [] = Inr []"
| "approver_permissions has (q # qs) =
     bindR (has (req_permission q)) (\<lambda>held. bindR (approver_permissions has qs) (\<lambda>ps. Inr (if held then req_permission q # ps else ps)))"

definition propose :: "approval_env \<Rightarrow> tenant_context option \<Rightarrow> approval_target \<Rightarrow> (approval_db, approval_request) tx" where
  "propose env ambient target =
     bindT (live_assert env ambient ''approval:request:propose'') (\<lambda>_.
     bindT (liftT (currentTenantContext ambient)) (\<lambda>context.
     runInTransaction (
       bindT (\<lambda>s. (findByActionType (ag_identity s) (tc_tenantId context) (tg_actionType target), s)) (\<lambda>found.
       case found of
         None \<Rightarrow> throwT (Problem approval_policy_not_found (Some (tc_correlationId context)) None)
       | Some policy \<Rightarrow>
           if pol_tenantId policy \<noteq> tc_tenantId context then throwT (Problem approval_policy_not_found (Some (tc_correlationId context)) None)
           else bindT (liftT (proposeApproval \<lparr>pi_id = ae_approvalId env, pi_policy = policy, pi_makerId = tc_actorId context, pi_target = target\<rparr> (ae_now env))) (\<lambda>request.
             bindT (approvals_insert (tc_tenantId context) request) (\<lambda>_.
             bindT (record_approval env context request ''approval.requested'' ''approval.requested.v1''
               [(''action_type'', JString (ar_actionType request)), (''target_id'', JString (ar_targetId request))] None) (\<lambda>_.
               returnT request)))))))"

definition decide :: "approval_env \<Rightarrow> tenant_context option \<Rightarrow> decide_command \<Rightarrow> (approval_db, approval_request) tx" where
  "decide env ambient input =
     bindT (live_assert env ambient ''approval:request:decide'') (\<lambda>_.
     bindT (liftT (currentTenantContext ambient)) (\<lambda>context.
     if tc_principalKind context \<noteq> interactive then throwT (Problem permission_denied (Some (tc_correlationId context)) None)
     else if tc_assurance context \<noteq> mfa then throwT (Problem authentication_assurance_insufficient (Some (tc_correlationId context)) None)
     else runInTransaction (
       bindT (load context (dc_approvalId input)) (\<lambda>current.
       bindT (\<lambda>s. (approver_permissions (live_has env context (ag_identity s)) (ar_approverRequirements current), s)) (\<lambda>permissions.
       bindT (liftT (decideApproval current \<lparr>di_approverId = tc_actorId context, di_decision = dc_decision input,
         di_expectedVersion = dc_expectedVersion input, di_target = dc_target input, di_reason = dc_reason input,
         di_approverPermissions = Some permissions\<rparr> (ae_now env))) (\<lambda>after.
       bindT (approvals_update (tc_tenantId context) after (ar_version current)) (\<lambda>_.
       bindT (record_approval env context after (if dc_decision input = Approve then ''approval.approved'' else ''approval.rejected'') ''approval.decided.v1''
         [(''decision'', JString (decision_text (dc_decision input))), (''resulting_status'', JString (status_text (ar_status after))),
          (''previous_version'', JNumber (Num (ar_version current)))] (dc_reason input)) (\<lambda>_.
         returnT after))))))))"

definition cancel :: "approval_env \<Rightarrow> tenant_context option \<Rightarrow> string \<Rightarrow> int \<Rightarrow> (approval_db, approval_request) tx" where
  "cancel env ambient approvalId expectedVersion =
     bindT (live_assert env ambient ''approval:request:propose'') (\<lambda>_.
     bindT (liftT (currentTenantContext ambient)) (\<lambda>context.
     runInTransaction (
       bindT (load context approvalId) (\<lambda>current.
       bindT (liftT (cancelApproval current (tc_actorId context) expectedVersion)) (\<lambda>after.
       bindT (approvals_update (tc_tenantId context) after (ar_version current)) (\<lambda>_.
       bindT (record_approval env context after ''approval.cancelled'' ''approval.cancelled.v1''
         [(''previous_version'', JNumber (Num (ar_version current)))] None) (\<lambda>_.
         returnT after)))))))"

section \<open>What the repositories do\<close>

definition as_loaded :: "approval_request \<Rightarrow> approval_request" where
  "as_loaded row = row\<lparr>ar_createdAt := via_date_text (ar_createdAt row), ar_expiresAt := via_date_text (ar_expiresAt row)\<rparr>"

lemma as_loaded_simps [simp]:
  "ar_id (as_loaded r) = ar_id r" "ar_tenantId (as_loaded r) = ar_tenantId r" "ar_makerId (as_loaded r) = ar_makerId r"
  "ar_status (as_loaded r) = ar_status r" "ar_decisions (as_loaded r) = ar_decisions r" "ar_version (as_loaded r) = ar_version r"
  "ar_approverRequirements (as_loaded r) = ar_approverRequirements r" "ar_separationOfDuties (as_loaded r) = ar_separationOfDuties r"
  "ar_requiredApprovals (as_loaded r) = ar_requiredApprovals r" "ar_expiresAt (as_loaded r) = via_date_text (ar_expiresAt r)"
  "ar_actionType (as_loaded r) = ar_actionType r" "ar_targetType (as_loaded r) = ar_targetType r" "ar_targetId (as_loaded r) = ar_targetId r"
  "ar_targetVersion (as_loaded r) = ar_targetVersion r"
  by (simp_all add: as_loaded_def)

lemma requestFrom_Inr: "requestFrom row = Inr r \<Longrightarrow> r = as_loaded row"
proof -
  assume "requestFrom row = Inr r"
  then obtain ds where m: "mapR (\<lambda>d. bindR (actorId (dec_actorId d)) (\<lambda>_. Inr d)) (ar_decisions row) = Inr ds" and r: "r = as_loaded (row\<lparr>ar_decisions := ds\<rparr>)"
    by (auto simp: requestFrom_def as_loaded_def bindR_Inr_iff)
  have "ds = ar_decisions row" using m by (auto simp: mapR_Inr_iff list_all2_conv_all_nth bindR_Inr_iff intro!: nth_equalityI)
  then show ?thesis using r by simp
qed

text \<open>The domain functions on a request as read are the domain functions on the stored one: reading only brings the expiry forward.\<close>

lemma decide_as_loaded:
  assumes "decideApproval (as_loaded row) input now = Inr r'"
  obtains q where "decideApproval row input now = Inr q" "r' = as_loaded q"
proof -
  have same: "creditFor (as_loaded row) k ps = creditFor row k ps" "decision_status (as_loaded row) d = decision_status row d" for k ps d
    unfolding creditFor_def decision_status_def isSatisfied_def as_loaded_simps by (rule refl)+
  have later: "t < ar_expiresAt row" if "t < via_date_text (ar_expiresAt row)" for t
    using that via_date_text_le [of "ar_expiresAt row"] by simp
  define decided where "decided = (\<lambda>r :: approval_request. \<lambda>t c. r\<lparr>ar_decisions := ar_decisions row @ [decision_entry input t c],
    ar_status := decision_status row (decision_entry input t c), ar_version := ar_version row + 1\<rparr>)"
  have fold: "r\<lparr>ar_decisions := ar_decisions row @ [decision_entry input t c],
    ar_status := decision_status row (decision_entry input t c), ar_version := ar_version row + 1\<rparr> = decided r t c" for r t c by (simp add: decided_def)
  have "\<exists>t c. decideApproval row input now = Inr (decided row t c) \<and> r' = decided (as_loaded row) t c"
    using assms unfolding decideApproval_Inr_iff same as_loaded_simps fold by (blast intro: later)
  then show ?thesis using that by (auto simp: as_loaded_def decided_def)
qed

lemma cancel_as_loaded:
  assumes "cancelApproval (as_loaded row) actor v = Inr r'"
  obtains q where "cancelApproval row actor v = Inr q" "r' = as_loaded q"
  using assms that by (auto simp: cancelApproval_Inr_iff as_loaded_def)

lemma load_Inr:
  assumes "load context i s = (Inr r, s')"
  shows "s' = s \<and> (\<exists>row. ag_requests s (tc_tenantId context, i) = Some row \<and> r = as_loaded row \<and> ar_tenantId row = tc_tenantId context)"
proof -
  obtain row where "ag_requests s (tc_tenantId context, i) = Some row" "requestFrom row = Inr r" "s' = s" "ar_tenantId r = tc_tenantId context"
    using assms by (auto simp: load_def bindT_Inr_iff approvals_findById_def guarded_Inr_iff bindR_Inr_iff split: option.splits if_splits)
  then show ?thesis using requestFrom_Inr [of row r] by auto
qed

lemma on_tables_requests: "on_tables m s = (r, s') \<Longrightarrow> ag_requests s' = ag_requests s"
  by (auto simp: on_tables_def split: prod.splits)

lemma record_approval_requests: "record_approval env context request action ty details reason s = (Inr (), s') \<Longrightarrow> ag_requests s' = ag_requests s"
  by (auto simp: record_approval_def bindT_Inr_iff dest!: on_tables_requests)

definition stored_ok :: "approval_db \<Rightarrow> bool" where
  "stored_ok s \<longleftrightarrow> (\<forall>k r. ag_requests s k = Some r \<longrightarrow> k = (ar_tenantId r, ar_id r) \<and> approval_reachable r)"

lemma step_keeps_key: "approval_step r r' \<Longrightarrow> ar_tenantId r' = ar_tenantId r \<and> ar_id r' = ar_id r"
  by (erule approval_step.cases) (auto simp: cancelApproval_Inr_iff expireApproval_Inr_iff decideApproval_Inr_iff)

text \<open>Storing what was computed from the request as read stores the domain step of the stored request: the statement leaves the
  instants alone.\<close>

lemma approvals_update_step:
  assumes "approvals_update bound (as_loaded q) (ar_version r) s = (Inr (), s')" "ag_requests s (ar_tenantId r, ar_id r) = Some r" "approval_step r q"
  shows "s' = s\<lparr>ag_requests := (ag_requests s)((ar_tenantId r, ar_id r) \<mapsto> q)\<rparr>"
proof -
  have q: "q = r\<lparr>ar_status := ar_status q, ar_decisions := ar_decisions q, ar_version := ar_version q\<rparr>"
    using assms(3) by (cases rule: approval_step.cases) (auto simp: cancelApproval_Inr_iff expireApproval_Inr_iff decideApproval_Inr_iff)
  have "s' = s\<lparr>ag_requests := (ag_requests s)((ar_tenantId r, ar_id r) \<mapsto>
      r\<lparr>ar_status := ar_status q, ar_decisions := ar_decisions q, ar_version := ar_version q\<rparr>)\<rparr>"
    using assms(1,2) step_keeps_key [OF assms(3)] by (auto simp: approvals_update_def guarded_Inr_iff split: if_splits)
  then show ?thesis using q by simp
qed

lemma stored_ok_update: "stored_ok s \<Longrightarrow> approval_reachable r \<Longrightarrow> stored_ok (s\<lparr>ag_requests := (ag_requests s)((ar_tenantId r, ar_id r) \<mapsto> r)\<rparr>)"
  by (auto simp: stored_ok_def)


section \<open>What the commands do\<close>

lemma propose_success:
  assumes "propose env ambient target s = (Inr r, s')"
  obtains ctx policy where "ambient = Some ctx" "proposeApproval \<lparr>pi_id = ae_approvalId env, pi_policy = policy, pi_makerId = tc_actorId ctx,
      pi_target = target\<rparr> (ae_now env) = Inr r" "ar_tenantId r = tc_tenantId ctx"
    "ag_requests s' = (ag_requests s)((ar_tenantId r, ar_id r) \<mapsto> r)" "ag_requests s (ar_tenantId r, ar_id r) = None"
proof -
  obtain ctx policy s1 where a: "ambient = Some ctx"
    and p: "proposeApproval \<lparr>pi_id = ae_approvalId env, pi_policy = policy, pi_makerId = tc_actorId ctx, pi_target = target\<rparr> (ae_now env) = Inr r"
    and i: "approvals_insert (tc_tenantId ctx) r s = (Inr (), s1)"
    and w: "record_approval env ctx r ''approval.requested'' ''approval.requested.v1''
        [(''action_type'', JString (ar_actionType r)), (''target_id'', JString (ar_targetId r))] None s1 = (Inr (), s')"
    using assms by (auto simp: propose_def bindT_Inr_iff live_assert_def currentTenantContext_def split: option.splits if_splits)
  have "ar_tenantId r = tc_tenantId ctx" "ag_requests s (ar_tenantId r, ar_id r) = None" "ag_requests s1 = (ag_requests s)((ar_tenantId r, ar_id r) \<mapsto> r)"
    using i by (auto simp: approvals_insert_def guarded_Inr_iff split: if_splits)
  then show ?thesis using that [OF a p] record_approval_requests [OF w] by simp
qed

lemma decide_success:
  assumes "decide env ambient input s = (Inr r', s')"
  obtains ctx r q permissions s1 where "ambient = Some ctx" "tc_principalKind ctx = interactive" "tc_assurance ctx = mfa"
    "assertPermission (loadAssignedRoles (ag_identity s)) (ae_constraints env) ambient ''approval:request:decide'' [] = Inr ()"
    "ag_requests s (tc_tenantId ctx, dc_approvalId input) = Some r" "ar_tenantId r = tc_tenantId ctx"
    "approver_permissions (live_has env ctx (ag_identity s)) (ar_approverRequirements r) = Inr permissions"
    "decideApproval r \<lparr>di_approverId = tc_actorId ctx, di_decision = dc_decision input, di_expectedVersion = dc_expectedVersion input,
       di_target = dc_target input, di_reason = dc_reason input, di_approverPermissions = Some permissions\<rparr> (ae_now env) = Inr q" "r' = as_loaded q"
    "approvals_update (tc_tenantId ctx) (as_loaded q) (ar_version r) s = (Inr (), s1)" "ag_requests s' = ag_requests s1"
proof -
  obtain ctx r ps s1 where a: "ambient = Some ctx" "tc_principalKind ctx = interactive" "tc_assurance ctx = mfa"
    "assertPermission (loadAssignedRoles (ag_identity s)) (ae_constraints env) ambient ''approval:request:decide'' [] = Inr ()"
    and l: "load ctx (dc_approvalId input) s = (Inr r, s)"
    and p: "approver_permissions (live_has env ctx (ag_identity s)) (ar_approverRequirements r) = Inr ps"
    "decideApproval r \<lparr>di_approverId = tc_actorId ctx, di_decision = dc_decision input, di_expectedVersion = dc_expectedVersion input,
       di_target = dc_target input, di_reason = dc_reason input, di_approverPermissions = Some ps\<rparr> (ae_now env) = Inr r'"
    "approvals_update (tc_tenantId ctx) r' (ar_version r) s = (Inr (), s1)"
    and w: "record_approval env ctx r' (if dc_decision input = Approve then ''approval.approved'' else ''approval.rejected'') ''approval.decided.v1''
         [(''decision'', JString (decision_text (dc_decision input))), (''resulting_status'', JString (status_text (ar_status r'))),
          (''previous_version'', JNumber (Num (ar_version r)))] (dc_reason input) s1 = (Inr (), s')"
  proof -
    obtain ctx where c: "ambient = Some ctx" "tc_principalKind ctx = interactive" "tc_assurance ctx = mfa"
      "assertPermission (loadAssignedRoles (ag_identity s)) (ae_constraints env) ambient ''approval:request:decide'' [] = Inr ()"
      using assms by (auto simp: decide_def bindT_Inr_iff live_assert_def currentTenantContext_def split: option.splits if_splits)
    obtain r s0 where l: "load ctx (dc_approvalId input) s = (Inr r, s0)"
      using assms c by (auto simp: decide_def bindT_Inr_iff live_assert_def currentTenantContext_def)
    then have "s0 = s" using load_Inr by blast
    with l c assms show ?thesis
      by (auto intro!: that [of ctx r] simp: decide_def bindT_Inr_iff live_assert_def currentTenantContext_def)
  qed
  obtain row where row: "ag_requests s (tc_tenantId ctx, dc_approvalId input) = Some row" "r = as_loaded row" "ar_tenantId row = tc_tenantId ctx"
    using load_Inr [OF l] by blast
  from p(2) [unfolded row(2)] obtain q where q: "decideApproval row \<lparr>di_approverId = tc_actorId ctx, di_decision = dc_decision input,
      di_expectedVersion = dc_expectedVersion input, di_target = dc_target input, di_reason = dc_reason input, di_approverPermissions = Some ps\<rparr> (ae_now env) = Inr q"
    "r' = as_loaded q" by (rule decide_as_loaded)
  show ?thesis using that [OF a row(1,3) _ q] p(1,3) record_approval_requests [OF w] by (simp add: row(2) q(2))
qed

lemma cancel_success:
  assumes "cancel env ambient i v s = (Inr r', s')"
  obtains ctx r q s1 where "ambient = Some ctx" "ag_requests s (tc_tenantId ctx, i) = Some r" "cancelApproval r (tc_actorId ctx) v = Inr q" "r' = as_loaded q"
    "approvals_update (tc_tenantId ctx) (as_loaded q) (ar_version r) s = (Inr (), s1)" "ag_requests s' = ag_requests s1"
proof -
  obtain ctx where c: "ambient = Some ctx" "assertPermission (loadAssignedRoles (ag_identity s)) (ae_constraints env) ambient ''approval:request:propose'' [] = Inr ()"
    using assms by (auto simp: cancel_def bindT_Inr_iff live_assert_def currentTenantContext_def split: option.splits)
  obtain r s0 where l: "load ctx i s = (Inr r, s0)"
    using assms c by (auto simp: cancel_def bindT_Inr_iff live_assert_def currentTenantContext_def)
  then obtain row where s0: "s0 = s" "ag_requests s (tc_tenantId ctx, i) = Some row" "r = as_loaded row" using load_Inr by blast
  with l c assms obtain s1 where cancelled: "cancelApproval (as_loaded row) (tc_actorId ctx) v = Inr r'" and u: "approvals_update (tc_tenantId ctx) r' (ar_version r) s = (Inr (), s1)"
    and w: "record_approval env ctx r' ''approval.cancelled'' ''approval.cancelled.v1'' [(''previous_version'', JNumber (Num (ar_version r)))] None s1 = (Inr (), s')"
    by (auto simp: cancel_def bindT_Inr_iff live_assert_def currentTenantContext_def)
  from cancelled obtain q where q: "cancelApproval row (tc_actorId ctx) v = Inr q" "r' = as_loaded q" by (rule cancel_as_loaded)
  show ?thesis using that [OF c(1) s0(2) q] u record_approval_requests [OF w] by (simp add: s0(3) q(2))
qed

text \<open>A command that fails changes nothing.\<close>

lemma approval_failure:
  "propose env ambient target s = (Inl e, s') \<Longrightarrow> s' = s"
  "decide env ambient input s = (Inl e, s') \<Longrightarrow> s' = s"
  "cancel env ambient i v s = (Inl e, s') \<Longrightarrow> s' = s"
  by (auto simp: propose_def decide_def cancel_def live_assert_def bindT_def liftT_def throwT_def runInTransaction_def split: prod.splits sum.splits if_splits)

lemma approver_permissions_live: "approver_permissions has qs = Inr ps \<Longrightarrow> p \<in> set ps \<Longrightarrow> has p = Inr True"
  by (induction qs arbitrary: ps) (auto simp: bindR_Inr_iff split: if_splits)

section \<open>Runs of the approval service\<close>

text \<open>Requests change only through the commands; the identity tables may change in any way in between.\<close>

inductive approval_service_step :: "approval_db \<Rightarrow> approval_db \<Rightarrow> bool" where
  service_propose: "propose env ambient target s = (r, s') \<Longrightarrow> approval_service_step s s'"
| service_decide: "decide env ambient input s = (r, s') \<Longrightarrow> approval_service_step s s'"
| service_cancel: "cancel env ambient i v s = (r, s') \<Longrightarrow> approval_service_step s s'"
| service_identity: "approval_service_step s (s\<lparr>ag_identity := db\<rparr>)"

lemma stored_ok_step:
  assumes "stored_ok s" "ag_requests s k = Some r" "approval_step r q" "approvals_update bound (as_loaded q) (ar_version r) s = (Inr (), s1)" "ag_requests s' = ag_requests s1"
  shows "stored_ok s'"
proof -
  have k: "k = (ar_tenantId r, ar_id r)" "approval_reachable r" using assms(1,2) unfolding stored_ok_def by blast+
  have "s1 = s\<lparr>ag_requests := (ag_requests s)((ar_tenantId r, ar_id r) \<mapsto> q)\<rparr>"
    by (rule approvals_update_step [OF assms(4) _ assms(3)]) (use assms(2) k in simp)
  moreover have "approval_reachable q" using k(2) assms(3) by (rule approval_reachable.step)
  ultimately have "stored_ok s1" using stored_ok_update [OF assms(1), of q] step_keeps_key [OF assms(3)] by simp
  then show ?thesis using assms(5) by (simp add: stored_ok_def)
qed

lemma approval_service_inv: "approval_service_step s s' \<Longrightarrow> stored_ok s \<Longrightarrow> stored_ok s'"
proof (induction rule: approval_service_step.induct)
  case (service_propose env ambient target s r s')
  show ?case
  proof (cases r)
    case (Inl e)
    then show ?thesis using approval_failure(1) service_propose by blast
  next
    case (Inr q)
    with service_propose.hyps have "propose env ambient target s = (Inr q, s')" by simp
    then obtain ctx :: tenant_context and policy where p: "proposeApproval \<lparr>pi_id = ae_approvalId env, pi_policy = policy, pi_makerId = tc_actorId ctx, pi_target = target\<rparr> (ae_now env) = Inr q"
      and s': "ag_requests s' = (ag_requests s)((ar_tenantId q, ar_id q) \<mapsto> q)"
      by (rule propose_success) blast
    show ?thesis using service_propose.prems approval_reachable.propose [OF p] s' by (auto simp: stored_ok_def)
  qed
next
  case (service_decide env ambient input s r s')
  show ?case
  proof (cases r)
    case (Inl e)
    then show ?thesis using approval_failure(2) service_decide by blast
  next
    case (Inr q)
    with service_decide.hyps have "decide env ambient input s = (Inr q, s')" by simp
    then show ?thesis by (rule decide_success) (use service_decide.prems stored_ok_step approval_step.decide in blast)
  qed
next
  case (service_cancel env ambient i v s r s')
  show ?case
  proof (cases r)
    case (Inl e)
    then show ?thesis using approval_failure(3) service_cancel by blast
  next
    case (Inr q)
    with service_cancel.hyps have "cancel env ambient i v s = (Inr q, s')" by simp
    then show ?thesis by (rule cancel_success) (use service_cancel.prems stored_ok_step approval_step.cancel in blast)
  qed
next
  case (service_identity s db)
  then show ?case by (simp add: stored_ok_def)
qed

lemma approval_service_run:
  "approval_service_step\<^sup>*\<^sup>* s s' \<Longrightarrow> ag_requests s = Map.empty \<Longrightarrow> stored_ok s'"
  by (induction rule: rtranclp_induct) (auto simp: stored_ok_def [of s] intro: approval_service_inv)

section \<open>Properties\<close>

text \<open>C11: a decision is made with authority, now. A \<open>decide\<close> call that succeeds was made by an interactive user with
  a second factor who holds the decide permission under the roles stored at that moment. It adds to the
  tenant's own pending request exactly one decision, in that user's name, by a user who had not decided
  before and is not the maker under separation of duties; the permission the decision is credited to is one
  the stored roles grant the user at that moment, and only that request changes; the answer is the stored request as it reads. A call that fails changes
  nothing at all.\<close>

theorem decision_made_with_authority:
  "(\<forall>r' s'. decide env ambient input s = (Inr r', s') \<longrightarrow>
     (\<exists>ctx r q d. ambient = Some ctx \<and> tc_principalKind ctx = interactive \<and> tc_assurance ctx = mfa \<and>
        live_has env ctx (ag_identity s) ''approval:request:decide'' = Inr True \<and>
        ag_requests s (tc_tenantId ctx, dc_approvalId input) = Some r \<and> ar_status r = PENDING \<and> ar_version r = dc_expectedVersion input \<and>
        ar_decisions r' = ar_decisions r @ [d] \<and> dec_actorId d = tc_actorId ctx \<and> dec_kind d = dc_decision input \<and>
        tc_actorId ctx \<notin> dec_actorId ` set (ar_decisions r) \<and> (ar_separationOfDuties r \<longrightarrow> tc_actorId ctx \<noteq> ar_makerId r) \<and>
        (\<forall>p. dec_creditedPermission d = Some p \<longrightarrow> live_has env ctx (ag_identity s) p = Inr True) \<and>
        (ar_approverRequirements r \<noteq> [] \<longrightarrow> dec_creditedPermission d \<noteq> None) \<and>
        ar_version r' = ar_version r + 1 \<and> r' = as_loaded q \<and>
        (stored_ok s \<longrightarrow> ag_requests s' = (ag_requests s)((tc_tenantId ctx, dc_approvalId input) \<mapsto> q)))) \<and>
   (\<forall>e s'. decide env ambient input s = (Inl e, s') \<longrightarrow> s' = s)"
proof (intro conjI allI impI)
  fix r' s' assume run: "decide env ambient input s = (Inr r', s')"
  then obtain ctx r q ps s1 where c: "ambient = Some ctx" "tc_principalKind ctx = interactive" "tc_assurance ctx = mfa"
    and a: "assertPermission (loadAssignedRoles (ag_identity s)) (ae_constraints env) ambient ''approval:request:decide'' [] = Inr ()"
    and r: "ag_requests s (tc_tenantId ctx, dc_approvalId input) = Some r"
    and ps: "approver_permissions (live_has env ctx (ag_identity s)) (ar_approverRequirements r) = Inr ps"
    and d: "decideApproval r \<lparr>di_approverId = tc_actorId ctx, di_decision = dc_decision input, di_expectedVersion = dc_expectedVersion input,
       di_target = dc_target input, di_reason = dc_reason input, di_approverPermissions = Some ps\<rparr> (ae_now env) = Inr q" and r': "r' = as_loaded q"
    and u: "approvals_update (tc_tenantId ctx) (as_loaded q) (ar_version r) s = (Inr (), s1)" "ag_requests s' = ag_requests s1"
    by (rule decide_success) blast
  define i where "i = \<lparr>di_approverId = tc_actorId ctx, di_decision = dc_decision input, di_expectedVersion = dc_expectedVersion input,
       di_target = dc_target input, di_reason = dc_reason input, di_approverPermissions = Some ps\<rparr>"
  have i: "di_approverId i = tc_actorId ctx" "di_decision i = dc_decision input" "di_expectedVersion i = dc_expectedVersion input"
    "di_approverPermissions i = Some ps" by (simp_all add: i_def)
  have "decideApproval r i (ae_now env) = Inr q" using d by (simp add: i_def)
  then obtain t p where dec: "ar_version r = dc_expectedVersion input" "ar_status r = PENDING" "ar_separationOfDuties r \<longrightarrow> tc_actorId ctx \<noteq> ar_makerId r"
    "tc_actorId ctx \<notin> dec_actorId ` set (ar_decisions r)" "creditFor r (dc_decision input) ps = Inr p"
    "q = r\<lparr>ar_decisions := ar_decisions r @ [decision_entry i t p], ar_status := decision_status r (decision_entry i t p), ar_version := ar_version r + 1\<rparr>"
    unfolding decideApproval_Inr_iff i option.case by blast
  have credit: "live_has env ctx (ag_identity s) q = Inr True" if "p = Some q" for q
    using creditFor_Inr [OF dec(5)] that approver_permissions_live [OF ps] by auto
  have credited: "p \<noteq> None" if "ar_approverRequirements r \<noteq> []" using creditFor_Inr [OF dec(5)] that by auto
  have live: "live_has env ctx (ag_identity s) ''approval:request:decide'' = Inr True"
    using a c(1) by (auto simp: live_has_def assertPermission_def bindR_Inr_iff split: if_splits)
  have stored: "ag_requests s' = (ag_requests s)((tc_tenantId ctx, dc_approvalId input) \<mapsto> q)" if "stored_ok s"
  proof -
    have k: "(tc_tenantId ctx, dc_approvalId input) = (ar_tenantId r, ar_id r)" using that r unfolding stored_ok_def by blast
    show ?thesis using approvals_update_step [OF u(1) _ approval_step.decide [OF d]] r u(2) unfolding k by simp
  qed
  show "\<exists>ctx r q d. ambient = Some ctx \<and> tc_principalKind ctx = interactive \<and> tc_assurance ctx = mfa \<and>
        live_has env ctx (ag_identity s) ''approval:request:decide'' = Inr True \<and>
        ag_requests s (tc_tenantId ctx, dc_approvalId input) = Some r \<and> ar_status r = PENDING \<and> ar_version r = dc_expectedVersion input \<and>
        ar_decisions r' = ar_decisions r @ [d] \<and> dec_actorId d = tc_actorId ctx \<and> dec_kind d = dc_decision input \<and>
        tc_actorId ctx \<notin> dec_actorId ` set (ar_decisions r) \<and> (ar_separationOfDuties r \<longrightarrow> tc_actorId ctx \<noteq> ar_makerId r) \<and>
        (\<forall>p. dec_creditedPermission d = Some p \<longrightarrow> live_has env ctx (ag_identity s) p = Inr True) \<and>
        (ar_approverRequirements r \<noteq> [] \<longrightarrow> dec_creditedPermission d \<noteq> None) \<and>
        ar_version r' = ar_version r + 1 \<and> r' = as_loaded q \<and>
        (stored_ok s \<longrightarrow> ag_requests s' = (ag_requests s)((tc_tenantId ctx, dc_approvalId input) \<mapsto> q))"
    using c r dec credit credited live stored by (intro exI [of _ ctx] exI [of _ r] exI [of _ q] exI [of _ "decision_entry i t p"]) (simp add: i r')
next
  fix e s' assume "decide env ambient input s = (Inl e, s')"
  then show "s' = s" by (rule approval_failure(2))
qed

text \<open>C8: dual control of what is stored. Start with no requests and run any sequence of propose, decide and
  cancel calls, succeeding or failing, with any identity changes in between: a request stored as approved
  satisfies dual control (only approvals, by different actors, none the maker under separation of duties,
  all before the expiry, as many as required and every named requirement credited its count), and it is
  stored under its own tenant and identifier.\<close>

theorem stored_approvals_dual_control:
  assumes "approval_service_step\<^sup>*\<^sup>* s s'" "ag_requests s = Map.empty" "ag_requests s' (tenant, i) = Some r" "ar_status r = APPROVED"
  shows "dual_control r \<and> ar_tenantId r = tenant \<and> ar_id r = i"
proof -
  have "(tenant, i) = (ar_tenantId r, ar_id r)" "approval_reachable r"
    using approval_service_run [OF assms(1,2)] assms(3) unfolding stored_ok_def by blast+
  then show ?thesis using wf_approved_dual_control [OF reachable_wf assms(4)] by simp
qed

section \<open>A concrete approval\<close>

definition example_approval_env :: "string \<Rightarrow> approval_env" where
  "example_approval_env i = \<lparr>ae_audit = \<lparr>ad_policy = [(''ApprovalRequest'', APPROVAL_AUDIT_FIELDS)], ad_redact = id, ad_sha256 = id\<rparr>,
     ae_constraints = None, ae_now = Some 5000, ae_auditNow = Some 6000, ae_approvalId = ''apr'', ae_eventId = i, ae_auditId = i\<rparr>"

lemma record_approval_ok:
  assumes "matches_action action" "matches_event_type ty" "\<not> blank (ar_id request)" "1 \<le> ar_version request" "\<not> blank i"
    "\<forall>e\<in>set (db_audit (ag_identity s)). au_id e \<noteq> i" "\<forall>e\<in>set (q_entries (db_outbox (ag_identity s))). ev_id (oe_envelope e) \<noteq> i"
  shows "\<exists>a e q. record_approval (example_approval_env i) ctx request action ty details reason s =
      (Inr (), s\<lparr>ag_identity := (ag_identity s)\<lparr>db_audit := db_audit (ag_identity s) @ [a], db_outbox := q\<rparr>\<rparr>) \<and> au_id a = i \<and>
      q_entries q = q_entries (db_outbox (ag_identity s)) @ [e] \<and> ev_id (oe_envelope e) = i"
proof -
  let ?env = "example_approval_env i" and ?sc = "scope_of_context ctx"
  have env: "ae_now ?env = Some 5000" "ae_auditNow ?env = Some 6000" "ae_eventId ?env = i" "ae_auditId ?env = i" by (simp_all add: example_approval_env_def)
  have "\<exists>a. build_audit_event (ae_audit ?env) ?sc (approval_audit request action (Some 5000) details reason) (Some 6000) i = Inr a"
    by (rule build_audit_event_ok [where recorded = 6000 and occurred = 5000])
       (use assms in \<open>simp_all add: approval_audit_def blank_def is_space_def allowedFields_def example_approval_env_def\<close>)
  then obtain a where a: "build_audit_event (ae_audit ?env) ?sc (approval_audit request action (Some 5000) details reason) (Some 6000) i = Inr a" by blast
  have au: "au_tenantId a = tc_tenantId ctx" "au_id a = i" using a by (auto simp: unsealed_event_def scope_of_context_def elim!: build_audit_event_Inr)
  let ?in = "approval_event request ty (Some 5000)"
  have matches: "matches_source_context ''audit-governance''"
    by (simp add: matches_source_context_def matches_head_tail_def is_fact_char_def is_lower_def is_digit_def less_eq_char_def)
  have "buildable ?sc ?in (Some 5000) i (ar_version request) 5000 5000"
    using assms by (simp add: buildable_def approval_event_def js_integer_def blank_def is_space_def assertJsonCompatible.simps matches
        containsTenantIdentity_def visit.simps MAX_SCAN_DEPTH_def normalizeKey_def lower_char_def)
  then have e: "buildEventEnvelopeFor ?sc ?in (Some 5000) i = Inr (envelope_of ?sc ?in i (ar_version request) 5000 5000)" by (auto simp: buildEventEnvelopeFor_Inr_iff)
  let ?db = "(ag_identity s)\<lparr>db_audit := db_audit (ag_identity s) @ [a]\<rparr>" and ?e = "envelope_of ?sc ?in i (ar_version request) 5000 5000"
  have "recordForScope (ae_audit ?env) (audit_append (tc_tenantId ctx)) ?sc (approval_audit request action (Some 5000) details reason) (Some 6000) i (ag_identity s) =
      (Inr a, ?db)"
    using a au assms(6) by (auto simp: recordForScope_Inr_iff audit_append_Inr list_ex_iff)
  then have audited: "on_tables (recordForCurrentContext (ae_audit ?env) (audit_append (tc_tenantId ctx)) (Some ctx)
      (approval_audit request action (Some 5000) details reason) (Some 6000) i) s = (Inr a, s\<lparr>ag_identity := ?db\<rparr>)"
    by (simp add: on_tables_def recordForCurrentContext_def eventScopeFromCurrentContext_def currentTenantContext_def bindT_def tx_eval)
  have built: "buildEventEnvelope (Some ctx) ?in (Some 5000) i = Inr ?e"
    using e by (simp add: buildEventEnvelope_def eventScopeFromCurrentContext_def currentTenantContext_def)
  have ids: "ev_tenant_id ?e = tc_tenantId ctx" "ev_id ?e = i" by (simp_all add: envelope_of_def scope_of_context_def)
  let ?q = "db_outbox (ag_identity s)" and ?row = "new_entry (q_next (db_outbox (ag_identity s))) None ?e (ev_recorded_at ?e)"
  have appended: "on_tables (outbox_append (tc_tenantId ctx) ?e) (s\<lparr>ag_identity := ?db\<rparr>) =
      (Inr (), s\<lparr>ag_identity := ?db\<lparr>db_outbox := ?q\<lparr>q_entries := q_entries ?q @ [?row], q_next := q_next ?q + 1\<rparr>\<rparr>\<rparr>)"
    using assms(7) ids by (auto simp: on_tables_def outbox_append_def guarded_def assertTenantMatch_def bindT_def tx_eval appendOutboxEvent_def list_ex_iff)
  show ?thesis
    by (rule exI [of _ a], rule exI [of _ ?row], rule exI [of _ "?q\<lparr>q_entries := q_entries ?q @ [?row], q_next := q_next ?q + 1\<rparr>"])
       (simp add: record_approval_def env bindT_def tx_eval audited built appended au ids new_entry_def)
qed

definition example_identity :: identity_db where
  "example_identity = empty_db\<lparr>db_roles := [(''t:1'', ''board'') \<mapsto>
      \<lparr>rr_permissions = JArray [JString ''approval:request:propose'', JString ''approval:request:decide''], rr_status = role_active, rr_limits = JArray []\<rparr>],
    db_assignments := [active_assignment ''t:1'' ''m'' ''board'', active_assignment ''t:1'' ''a'' ''board''],
    db_policies := [(''t:1'', ''pricing:rate_card:activate'') \<mapsto>
      \<lparr>dp_actionType = ''pricing:rate_card:activate'', dp_requiredApprovals = 1, dp_separationOfDuties = True, dp_expiresAfterSeconds = 100, dp_approverRequirements = []\<rparr>]\<rparr>"

definition example_maker :: tenant_context where
  "example_maker = (example_context ''t:1'')\<lparr>tc_actorId := ''m''\<rparr>"

definition example_start :: approval_db where
  "example_start = \<lparr>ag_identity = example_identity, ag_requests = Map.empty\<rparr>"

definition example_proposed :: approval_request where
  "example_proposed = \<lparr>ar_id = ''apr'', ar_tenantId = ''t:1'', ar_actionType = ''pricing:rate_card:activate'', ar_targetType = ''RateCard'', ar_targetId = ''rc1'',
     ar_targetVersion = 1, ar_makerId = ''m'', ar_requiredApprovals = 1, ar_separationOfDuties = True, ar_approverRequirements = [],
     ar_status = PENDING, ar_decisions = [], ar_version = 1, ar_createdAt = 5000, ar_expiresAt = 105000\<rparr>"

definition example_decision :: decide_command where
  "example_decision = \<lparr>dc_approvalId = ''apr'', dc_decision = Approve, dc_expectedVersion = 1, dc_target = example_target, dc_reason = None\<rparr>"

definition example_settled :: approval_request where
  "example_settled = example_proposed\<lparr>ar_status := APPROVED, ar_version := 2, ar_decisions :=
     [\<lparr>dec_actorId = ''a'', dec_kind = Approve, dec_decidedAt = 5000, dec_reason = None, dec_creditedPermission = None\<rparr>]\<rparr>"

lemma example_allowed:
  assumes "db_roles db = db_roles example_identity" "db_assignments db = db_assignments example_identity" "actor \<in> {''m'', ''a''}"
    "p \<in> {''approval:request:propose'', ''approval:request:decide''}"
  shows "assertPermission (loadAssignedRoles db) None (Some ((example_context ''t:1'')\<lparr>tc_actorId := actor\<rparr>)) p [] = Inr ()"
  using assms
  by (auto simp add: assertPermission_def hasPermission_def assertKnownPermission_def isKnownPermission_def PERMISSION_CATALOG_def currentTenantContext_def
      example_context_def loadAssignedRoles_def example_identity_def active_assignment_def List.map_filter_def role_from_def grantedByRoles_def role_grants_def
      string_items_def limits_from_def constraintsSatisfied_def)

lemma example_policy_found:
  "findByActionType example_identity ''t:1'' ''pricing:rate_card:activate'' = Inr (Some \<lparr>pol_tenantId = ''t:1'', pol_actionType = ''pricing:rate_card:activate'',
     pol_requiredApprovals = Num 1, pol_separationOfDuties = True, pol_expiresAfterSeconds = Num 100, pol_approverRequirements = Some []\<rparr>)"
  by (simp add: findByActionType_def example_identity_def tenantId_def ctx_requireNonBlank_def trim_def is_space_def)

lemma example_domain_propose:
  "proposeApproval \<lparr>pi_id = ''apr'', pi_policy = \<lparr>pol_tenantId = ''t:1'', pol_actionType = ''pricing:rate_card:activate'',
     pol_requiredApprovals = Num 1, pol_separationOfDuties = True, pol_expiresAfterSeconds = Num 100, pol_approverRequirements = Some []\<rparr>,
     pi_makerId = ''m'', pi_target = example_target\<rparr> (Some 5000) = Inr example_proposed"
  by (simp add: proposeApproval_def example_target_def example_proposed_def requireNonBlank_def trim_def
      is_space_def js_integer_def js_positive_def freeze_requirement_def Approval.valid_instant_def date_after_def mkDate_def)

lemma example_domain_decide:
  "decideApproval example_proposed \<lparr>di_approverId = ''a'', di_decision = Approve, di_expectedVersion = 1, di_target = example_target, di_reason = None,
     di_approverPermissions = Some []\<rparr> (Some 5000) = Inr example_settled"
  unfolding decideApproval_Inr_iff
  by (simp add: example_proposed_def example_target_def example_settled_def js_integer_def creditFor_def decision_entry_def decision_status_def isSatisfied_def)

lemma example_propose_run:
  "\<exists>a e q. propose (example_approval_env ''e1'') (Some example_maker) example_target example_start = (Inr example_proposed,
     \<lparr>ag_identity = example_identity\<lparr>db_audit := [a], db_outbox := q\<rparr>, ag_requests = [(''t:1'', ''apr'') \<mapsto> example_proposed]\<rparr>) \<and> au_id a = ''e1'' \<and>
     q_entries q = [e] \<and> ev_id (oe_envelope e) = ''e1''"
proof -
  let ?s = "example_start\<lparr>ag_requests := [(''t:1'', ''apr'') \<mapsto> example_proposed]\<rparr>"
  have c: "tc_tenantId example_maker = ''t:1''" "tc_actorId example_maker = ''m''" by (simp_all add: example_maker_def example_context_def)
  have p: "ar_id example_proposed = ''apr''" "ar_tenantId example_proposed = ''t:1''" "ar_version example_proposed = 1" by (simp_all add: example_proposed_def)
  have g: "live_assert (example_approval_env ''e1'') (Some example_maker) ''approval:request:propose'' example_start = (Inr (), example_start)"
    using example_allowed [of example_identity "''m''" "''approval:request:propose''"]
    by (simp add: live_assert_def example_start_def example_maker_def example_approval_env_def)
  have i: "approvals_insert ''t:1'' example_proposed example_start = (Inr (), ?s)"
    by (simp add: approvals_insert_def guarded_def assertTenantMatch_def bindT_def tx_eval p) (simp add: example_start_def)
  have "\<exists>a e q. record_approval (example_approval_env ''e1'') example_maker example_proposed ''approval.requested'' ''approval.requested.v1''
       [(''action_type'', JString (ar_actionType example_proposed)), (''target_id'', JString (ar_targetId example_proposed))] None ?s =
      (Inr (), ?s\<lparr>ag_identity := (ag_identity ?s)\<lparr>db_audit := db_audit (ag_identity ?s) @ [a], db_outbox := q\<rparr>\<rparr>) \<and> au_id a = ''e1'' \<and>
      q_entries q = q_entries (db_outbox (ag_identity ?s)) @ [e] \<and> ev_id (oe_envelope e) = ''e1''"
    by (rule record_approval_ok)
       (simp_all add: matches_action_def matches_event_type_def is_lower_def is_fact_char_def is_field_char_def is_digit_def less_eq_char_def blank_def is_space_def p
         example_start_def example_identity_def empty_db_def)
  then obtain a e q where r: "record_approval (example_approval_env ''e1'') example_maker example_proposed ''approval.requested'' ''approval.requested.v1''
       [(''action_type'', JString (ar_actionType example_proposed)), (''target_id'', JString (ar_targetId example_proposed))] None ?s =
      (Inr (), ?s\<lparr>ag_identity := (ag_identity ?s)\<lparr>db_audit := db_audit (ag_identity ?s) @ [a], db_outbox := q\<rparr>\<rparr>)" "au_id a = ''e1''"
      "q_entries q = q_entries (db_outbox (ag_identity ?s)) @ [e]" "ev_id (oe_envelope e) = ''e1''" by blast
  have pol: "findByActionType (ag_identity example_start) ''t:1'' (tg_actionType example_target) = Inr (Some \<lparr>pol_tenantId = ''t:1'',
     pol_actionType = ''pricing:rate_card:activate'', pol_requiredApprovals = Num 1, pol_separationOfDuties = True, pol_expiresAfterSeconds = Num 100,
     pol_approverRequirements = Some []\<rparr>)" using example_policy_found by (simp add: example_start_def example_target_def)
  have env: "ae_now (example_approval_env ''e1'') = Some 5000" "ae_approvalId (example_approval_env ''e1'') = ''apr''" by (simp_all add: example_approval_env_def)
  have "propose (example_approval_env ''e1'') (Some example_maker) example_target example_start = (Inr example_proposed,
      ?s\<lparr>ag_identity := (ag_identity ?s)\<lparr>db_audit := db_audit (ag_identity ?s) @ [a], db_outbox := q\<rparr>\<rparr>)"
    by (simp add: propose_def bindT_def tx_eval g currentTenantContext_def runInTransaction_def c pol env example_domain_propose i r(1))
  moreover have "db_audit example_identity = []" "q_entries (db_outbox example_identity) = []" by (simp_all add: example_identity_def empty_db_def)
  ultimately show ?thesis using r(2-4) by (intro exI [of _ a] exI [of _ e] exI [of _ q]) (simp add: example_start_def)
qed

lemma example_decide_run:
  assumes "ag_requests s = [(''t:1'', ''apr'') \<mapsto> example_proposed]" "ag_identity s = example_identity\<lparr>db_audit := [a], db_outbox := q\<rparr>"
    "au_id a = ''e1''" "q_entries q = [e]" "ev_id (oe_envelope e) = ''e1''"
  shows "\<exists>s'. decide (example_approval_env ''e2'') (Some (example_context ''t:1'')) example_decision s = (Inr example_settled, s') \<and>
    ag_requests s' (''t:1'', ''apr'') = Some example_settled"
proof -
  let ?env = "example_approval_env ''e2''" and ?c = "example_context ''t:1''"
  let ?s = "s\<lparr>ag_requests := [(''t:1'', ''apr'') \<mapsto> example_settled]\<rparr>"
  have c: "tc_tenantId ?c = ''t:1''" "tc_actorId ?c = ''a''" "tc_principalKind ?c = interactive" "tc_assurance ?c = mfa" "?c\<lparr>tc_actorId := ''a''\<rparr> = ?c"
    by (simp_all add: example_context_def)
  have p: "ar_id example_proposed = ''apr''" "ar_tenantId example_proposed = ''t:1''" "ar_version example_proposed = 1" "ar_approverRequirements example_proposed = []"
    "ar_decisions example_proposed = []" "ar_makerId example_proposed = ''m''" "ar_createdAt example_proposed = 5000" "ar_expiresAt example_proposed = 105000"
    "ar_id example_settled = ''apr''" "ar_version example_settled = 2" by (simp_all add: example_proposed_def example_settled_def)
  have d: "dc_approvalId example_decision = ''apr''" "dc_decision example_decision = Approve" "dc_expectedVersion example_decision = 1"
    "dc_target example_decision = example_target" "dc_reason example_decision = None" by (simp_all add: example_decision_def)
  have env: "ae_now ?env = Some 5000" "ae_constraints ?env = None" by (simp_all add: example_approval_env_def)
  have g: "live_assert ?env (Some ?c) ''approval:request:decide'' s = (Inr (), s)"
    using example_allowed [of "ag_identity s" "''a''" "''approval:request:decide''"] assms(2) by (simp add: live_assert_def env c(5))
  have f: "requestFrom example_proposed = Inr example_proposed"
    by (simp add: requestFrom_def p tenantId_def actorId_def ctx_requireNonBlank_def trim_def is_space_def)
  have l: "load ?c ''apr'' s = (Inr example_proposed, s)"
    by (simp add: load_def approvals_findById_def guarded_def assertTenantMatch_def bindT_def tx_eval c p assms(1) f)
  have settled: "example_proposed\<lparr>ar_status := ar_status example_settled, ar_decisions := ar_decisions example_settled, ar_version := 2\<rparr> = example_settled"
    "ar_tenantId example_settled = ''t:1''" by (simp_all add: example_settled_def p)
  have u: "approvals_update ''t:1'' example_settled 1 s = (Inr (), ?s)"
    by (simp add: approvals_update_def guarded_def assertTenantMatch_def bindT_def tx_eval assms(1) p settled)
  have "\<exists>a' e' q'. record_approval ?env ?c example_settled ''approval.approved'' ''approval.decided.v1'' details None ?s =
      (Inr (), ?s\<lparr>ag_identity := (ag_identity ?s)\<lparr>db_audit := db_audit (ag_identity ?s) @ [a'], db_outbox := q'\<rparr>\<rparr>) \<and> au_id a' = ''e2'' \<and>
      q_entries q' = q_entries (db_outbox (ag_identity ?s)) @ [e'] \<and> ev_id (oe_envelope e') = ''e2''" for details
    by (rule record_approval_ok)
       (simp_all add: matches_action_def matches_event_type_def is_lower_def is_fact_char_def is_field_char_def is_digit_def less_eq_char_def blank_def is_space_def p
         assms(2-5))
  then obtain s' where r: "record_approval ?env ?c example_settled ''approval.approved'' ''approval.decided.v1''
         [(''decision'', JString ''approve''), (''resulting_status'', JString (status_text (ar_status example_settled))),
          (''previous_version'', JNumber (Num 1))] None ?s = (Inr (), s')" "ag_requests s' = ag_requests ?s" using record_approval_requests by metis
  have "decide ?env (Some ?c) example_decision s = (Inr example_settled, s')"
    by (simp add: decide_def bindT_def tx_eval g currentTenantContext_def runInTransaction_def c d p l env example_domain_decide u r(1))
  then show ?thesis using r(2) by simp
qed

lemma example_approval_run:
  "\<exists>s s'. propose (example_approval_env ''e1'') (Some example_maker) example_target example_start = (Inr example_proposed, s) \<and>
     decide (example_approval_env ''e2'') (Some (example_context ''t:1'')) example_decision s = (Inr example_settled, s') \<and>
     ag_requests s (''t:1'', ''apr'') = Some example_proposed \<and> ag_requests s' (''t:1'', ''apr'') = Some example_settled"
proof -
  let ?s = "\<lambda>a q. \<lparr>ag_identity = example_identity\<lparr>db_audit := [a], db_outbox := q\<rparr>, ag_requests = [(''t:1'', ''apr'') \<mapsto> example_proposed]\<rparr>"
  obtain a e q where p: "propose (example_approval_env ''e1'') (Some example_maker) example_target example_start = (Inr example_proposed, ?s a q)"
     "au_id a = ''e1''" "q_entries q = [e]" "ev_id (oe_envelope e) = ''e1''" using example_propose_run by blast
  have "\<exists>s'. decide (example_approval_env ''e2'') (Some (example_context ''t:1'')) example_decision (?s a q) = (Inr example_settled, s') \<and>
    ag_requests s' (''t:1'', ''apr'') = Some example_settled"
    by (rule example_decide_run [OF _ _ p(2-4)]) simp_all
  then show ?thesis using p(1) by (auto intro!: exI [of _ "?s a q"])
qed

theorem decision_made_with_authority_witness:
  "\<exists>s s' d. decide (example_approval_env ''e2'') (Some (example_context ''t:1'')) example_decision s = (Inr example_settled, s') \<and>
     ar_decisions example_settled = [d] \<and> dec_actorId d = ''a''"
proof -
  obtain s s' where run: "decide (example_approval_env ''e2'') (Some (example_context ''t:1'')) example_decision s = (Inr example_settled, s')"
    and s: "ag_requests s (''t:1'', ''apr'') = Some example_proposed" using example_approval_run by blast
  from decision_made_with_authority [THEN conjunct1, rule_format, OF run] s
  obtain d where "ar_decisions example_settled = ar_decisions example_proposed @ [d]" "dec_actorId d = ''a''"
    by (auto simp: example_context_def example_decision_def)
  then show ?thesis using run by (auto simp: example_proposed_def)
qed

theorem stored_approvals_dual_control_witness:
  "\<exists>s'. approval_service_step\<^sup>*\<^sup>* example_start s' \<and> ag_requests s' (''t:1'', ''apr'') = Some example_settled \<and> dual_control example_settled"
proof -
  obtain s s' where p: "propose (example_approval_env ''e1'') (Some example_maker) example_target example_start = (Inr example_proposed, s)"
    and d: "decide (example_approval_env ''e2'') (Some (example_context ''t:1'')) example_decision s = (Inr example_settled, s')"
    "ag_requests s' (''t:1'', ''apr'') = Some example_settled" using example_approval_run by blast
  have run: "approval_service_step\<^sup>*\<^sup>* example_start s'"
    using service_propose [OF p] service_decide [OF d(1)] by (meson converse_rtranclp_into_rtranclp r_into_rtranclp)
  have "dual_control example_settled" using stored_approvals_dual_control [OF run _ d(2)] by (simp add: example_start_def example_settled_def)
  then show ?thesis using run d(2) by blast
qed

end
