(* ===== verification/Authentication.thy ===== *)
theory Authentication
  imports Authorization
begin

text \<open>
  \<open>modules/identity-tenant/application/authentication.ts\<close> and its ports: the provider-neutral authentication policy.
  A credential is verified by an adapter behind a port (a parameter here), every claim that affects authority
  is checked again, the credential must not be revoked, and only then a principal is issued. The three entry
  points (tenant users, workloads, platform operators) share one verification. An attempt records one security
  fact; metrics are not modelled. Lifetimes enter as the \<open>Date\<close> their text parses to, as in the trusted
  contexts; the clock skew is a whole number of seconds.

  The lemmas show exactly when each entry point issues a principal and with which content, that a credential
  is good for at most one entry point, that failures are generic and leave the trusted state as it was, and
  that the tenant plane and the platform plane never meet in any run.
\<close>

section \<open>Model: ports\<close>

datatype mechanism = oidc | saml | workload_token

record idp_policy =
  ip_id :: string
  ip_mechanism :: mechanism
  ip_issuer :: string
  ip_allowedAudiences :: "string list"
  ip_clockSkewSeconds :: int
  ip_requireMfa :: bool
  ip_allowedWorkloadScopes :: "string list"

record credential_claims =
  cl_mechanism :: mechanism
  cl_credentialId :: string
  cl_subject :: string
  cl_issuer :: string
  cl_audiences :: "string list"
  cl_tenantIds :: "string list"
  cl_authenticationMethods :: "string list"
  cl_scopes :: "string list"
  cl_expiresAt :: date
  cl_notBefore :: "date option"
  cl_platformRoles :: "string list option"

datatype authentication_kind = kind_interactive | kind_workload | kind_platform

datatype failure_reason =
    malformed_request | unknown_provider | credential_invalid | claims_invalid | revoked | mfa_required
  | no_tenant_membership | tenant_claims_on_platform_token | scope_denied | unexpected_error

record authentication_fact =
  af_kind :: authentication_kind
  af_reason :: "failure_reason option"
  af_providerId :: string
  af_mechanism :: "mechanism option"
  af_actorId :: "string option"
  af_credentialId :: "string option"
  af_correlationId :: string
  af_occurredAt :: instant

text \<open>The dependencies of one attempt: the policy store, the verifier, the revocation check, the two clock
  readings, and the fact sink, which may be absent and may throw on a fact (\<open>False\<close>).\<close>

record auth_env =
  an_policies :: "string \<Rightarrow> idp_policy option res"
  an_verify :: "string \<Rightarrow> idp_policy \<Rightarrow> credential_claims res"
  an_isRevoked :: "string \<Rightarrow> string \<Rightarrow> bool res"
  an_now :: date
  an_factNow :: date
  an_facts :: "(authentication_fact \<Rightarrow> bool) option"

record auth_state =
  ax_trust :: trust
  ax_facts :: "authentication_fact list"

record authentication_input =
  ain_providerId :: string
  ain_rawCredential :: string
  ain_requiredAudience :: string
  ain_correlationId :: string

section \<open>Model: refusals\<close>

text \<open>What the code of an attempt throws: an expected refusal, or anything else.\<close>

datatype thrown = Rejection failure_reason problem_code | Thrown err

type_synonym 'a outcome = "thrown + 'a"

definition auth_reject :: "failure_reason \<Rightarrow> 'a outcome" where
  "auth_reject reason = Inl (Rejection reason authentication_failed)"

definition bindA :: "'a outcome \<Rightarrow> ('a \<Rightarrow> 'b outcome) \<Rightarrow> 'b outcome" where
  "bindA m f = (case m of Inl e \<Rightarrow> Inl e | Inr x \<Rightarrow> f x)"

lemma bindA_simps [simp]: "bindA (Inl e) f = Inl e" "bindA (Inr x) f = f x"
  by (simp_all add: bindA_def)

lemma bindA_Inr_iff: "bindA m f = Inr y \<longleftrightarrow> (\<exists>x. m = Inr x \<and> f x = Inr y)"
  by (cases m) simp_all

definition hasOnlyNonBlank :: "string list \<Rightarrow> bool" where
  "hasOnlyNonBlank values = list_all isNonBlankString values"

text \<open>Comparisons with the clock: with an invalid clock \<open>valueOf\<close> is \<open>NaN\<close> and every comparison is false.\<close>

definition expired :: "instant \<Rightarrow> date \<Rightarrow> int \<Rightarrow> bool" where
  "expired expiry now skew = (case now of None \<Rightarrow> False | Some t \<Rightarrow> expiry \<le> t - skew)"

definition too_early :: "instant \<Rightarrow> date \<Rightarrow> int \<Rightarrow> bool" where
  "too_early notBefore now skew = (case now of None \<Rightarrow> False | Some t \<Rightarrow> notBefore > t + skew)"

definition validateBaseClaims :: "credential_claims \<Rightarrow> idp_policy \<Rightarrow> string \<Rightarrow> date \<Rightarrow> unit outcome" where
  "validateBaseClaims claims policy requiredAudience now =
     (let skew = ip_clockSkewSeconds policy * 1000 in
      if cl_mechanism claims \<noteq> ip_mechanism policy \<or> cl_issuer claims \<noteq> ip_issuer policy \<or>
         \<not> isNonBlankString (cl_credentialId claims) \<or> \<not> isNonBlankString (cl_subject claims) \<or> \<not> isNonBlankString requiredAudience \<or>
         \<not> hasOnlyNonBlank (cl_audiences claims) \<or> requiredAudience \<notin> set (ip_allowedAudiences policy) \<or>
         requiredAudience \<notin> set (cl_audiences claims) \<or>
         (case cl_expiresAt claims of None \<Rightarrow> True | Some expiry \<Rightarrow> expired expiry now skew) \<or>
         (case cl_notBefore claims of None \<Rightarrow> False
          | Some None \<Rightarrow> True
          | Some (Some notBefore) \<Rightarrow> too_early notBefore now skew)
      then auth_reject claims_invalid else Inr ())"

definition normalizedTenants :: "credential_claims \<Rightarrow> string list outcome" where
  "normalizedTenants claims =
     (case mapR tenantId (cl_tenantIds claims) of
        Inl _ \<Rightarrow> auth_reject claims_invalid
      | Inr ids \<Rightarrow> if uniq ids = [] then auth_reject no_tenant_membership else Inr (uniq ids))"

section \<open>Model: one attempt\<close>

definition record_fact :: "auth_env \<Rightarrow> authentication_kind \<Rightarrow> string \<Rightarrow> string \<Rightarrow> failure_reason option \<Rightarrow> credential_claims option \<Rightarrow> auth_state \<Rightarrow> auth_state" where
  "record_fact env kind providerId correlationId reason claims s =
     (case an_facts env of
        None \<Rightarrow> s
      | Some sink \<Rightarrow> (case an_factNow env of
          None \<Rightarrow> s
        | Some occurredAt \<Rightarrow>
            let fact = \<lparr>af_kind = kind, af_reason = reason,
                  af_providerId = (if isNonBlankString providerId then providerId else ''unspecified''),
                  af_mechanism = map_option cl_mechanism claims, af_actorId = map_option cl_subject claims,
                  af_credentialId = map_option cl_credentialId claims, af_correlationId = correlationId, af_occurredAt = occurredAt\<rparr>
            in if sink fact then s\<lparr>ax_facts := ax_facts s @ [fact]\<rparr> else s))"

text \<open>The work of an attempt returns the claims it reported as verified, its outcome, and the trusted state.\<close>

type_synonym attempt_work = "trust \<Rightarrow> credential_claims option \<times> ref outcome \<times> trust"

definition attempt :: "auth_env \<Rightarrow> authentication_kind \<Rightarrow> authentication_input \<Rightarrow> attempt_work \<Rightarrow> (auth_state, ref) tx" where
  "attempt env kind input work s =
     (let (claims, out, trust') = work (ax_trust s);
          noted = (\<lambda>reason. record_fact env kind (ain_providerId input) (ain_correlationId input) reason claims (s\<lparr>ax_trust := trust'\<rparr>))
      in case out of
           Inr issued \<Rightarrow> (Inr issued, noted None)
         | Inl (Rejection reason code) \<Rightarrow> (reject_for code (ain_correlationId input), noted (Some reason))
         | Inl (Thrown e) \<Rightarrow> (Inl e, noted (Some unexpected_error)))"

definition verify :: "auth_env \<Rightarrow> authentication_input \<Rightarrow> mechanism list \<Rightarrow> credential_claims option \<times> (idp_policy \<times> credential_claims) outcome" where
  "verify env input expectedMechanisms =
     (if \<not> isNonBlankString (ain_providerId input) \<or> \<not> isNonBlankString (ain_rawCredential input) then (None, auth_reject malformed_request)
      else case an_policies env (ain_providerId input) of
        Inl e \<Rightarrow> (None, Inl (Thrown e))
      | Inr None \<Rightarrow> (None, auth_reject unknown_provider)
      | Inr (Some policy) \<Rightarrow>
          if ip_mechanism policy \<notin> set expectedMechanisms then (None, auth_reject unknown_provider)
          else case an_verify env (ain_rawCredential input) policy of
            Inl _ \<Rightarrow> (None, auth_reject credential_invalid)
          | Inr claims \<Rightarrow> (Some claims,
              bindA (validateBaseClaims claims policy (ain_requiredAudience input) (an_now env)) (\<lambda>_.
                case an_isRevoked env (cl_issuer claims) (cl_credentialId claims) of
                  Inl e \<Rightarrow> Inl (Thrown e)
                | Inr True \<Rightarrow> auth_reject revoked
                | Inr False \<Rightarrow> Inr (policy, claims))))"

definition issue_session :: "principal_input outcome \<Rightarrow> credential_claims option \<Rightarrow> attempt_work" where
  "issue_session session claims trust =
     (case session of
        Inl e \<Rightarrow> (claims, Inl e, trust)
      | Inr input \<Rightarrow> (case bindT (liftT (actorId (in_actorId input))) (\<lambda>_. issueAuthenticatedPrincipal input) trust of
          (Inl e, trust') \<Rightarrow> (claims, Inl (Thrown e), trust')
        | (Inr issued, trust') \<Rightarrow> (claims, Inr issued, trust')))"

definition interactive_session :: "authentication_input \<Rightarrow> idp_policy \<times> credential_claims \<Rightarrow> principal_input outcome" where
  "interactive_session input = (\<lambda>(policy, claims).
     if ip_requireMfa policy \<and> ''mfa'' \<notin> set (cl_authenticationMethods claims)
     then Inl (Rejection mfa_required authentication_assurance_insufficient)
     else bindA (normalizedTenants claims) (\<lambda>memberships. Inr
       \<lparr>in_actorId = cl_subject claims, in_kind = interactive, in_tenantMemberships = memberships,
        in_assurance = (if ''mfa'' \<in> set (cl_authenticationMethods claims) then mfa else single_factor),
        in_credentialId = cl_credentialId claims, in_issuer = cl_issuer claims, in_audiences = [ain_requiredAudience input],
        in_scopes = [], in_expiresAt = cl_expiresAt claims\<rparr>))"

definition authenticateInteractive :: "auth_env \<Rightarrow> authentication_input \<Rightarrow> (auth_state, ref) tx" where
  "authenticateInteractive env input = attempt env kind_interactive input (\<lambda>trust.
     if ain_requiredAudience input = PLATFORM_AUDIENCE then (None, auth_reject claims_invalid, trust)
     else let (claims, verified) = verify env input [oidc, saml]
          in issue_session (bindA verified (interactive_session input)) claims trust)"

definition workload_session :: "authentication_input \<Rightarrow> string list \<Rightarrow> idp_policy \<times> credential_claims \<Rightarrow> principal_input outcome" where
  "workload_session input required = (\<lambda>(policy, claims).
     bindA (normalizedTenants claims) (\<lambda>memberships.
     let requiredScopes = uniq required in
     if length memberships \<noteq> 1 \<or> requiredScopes = [] \<or> \<not> hasOnlyNonBlank requiredScopes \<or> \<not> hasOnlyNonBlank (cl_scopes claims) \<or>
        list_ex (\<lambda>scope. scope \<notin> set (ip_allowedWorkloadScopes policy)) (cl_scopes claims) \<or>
        list_ex (\<lambda>scope. scope \<notin> set (ip_allowedWorkloadScopes policy) \<or> scope \<notin> set (cl_scopes claims)) requiredScopes
     then Inl (Rejection scope_denied workload_scope_denied)
     else Inr
       \<lparr>in_actorId = cl_subject claims, in_kind = workload, in_tenantMemberships = memberships, in_assurance = workload_assurance,
        in_credentialId = cl_credentialId claims, in_issuer = cl_issuer claims, in_audiences = [ain_requiredAudience input],
        in_scopes = requiredScopes, in_expiresAt = cl_expiresAt claims\<rparr>))"

definition authenticateWorkload :: "auth_env \<Rightarrow> authentication_input \<Rightarrow> string list \<Rightarrow> (auth_state, ref) tx" where
  "authenticateWorkload env input requiredScopes = attempt env kind_workload input (\<lambda>trust.
     if ain_requiredAudience input = PLATFORM_AUDIENCE then (None, auth_reject claims_invalid, trust)
     else let (claims, verified) = verify env input [workload_token]
          in issue_session (bindA verified (workload_session input requiredScopes)) claims trust)"

definition platform_session :: "idp_policy \<times> credential_claims \<Rightarrow> principal_input outcome" where
  "platform_session = (\<lambda>(policy, claims).
     if cl_tenantIds claims \<noteq> [] then auth_reject tenant_claims_on_platform_token
     else if ''mfa'' \<notin> set (cl_authenticationMethods claims) then Inl (Rejection mfa_required authentication_assurance_insufficient)
     else let roles = (case cl_platformRoles claims of None \<Rightarrow> [] | Some rs \<Rightarrow> rs) in
       if \<not> hasOnlyNonBlank roles then auth_reject claims_invalid
       else Inr
         \<lparr>in_actorId = cl_subject claims, in_kind = interactive, in_tenantMemberships = [], in_assurance = mfa,
          in_credentialId = cl_credentialId claims, in_issuer = cl_issuer claims, in_audiences = [PLATFORM_AUDIENCE],
          in_scopes = platformPermissionsFor roles, in_expiresAt = cl_expiresAt claims\<rparr>)"

definition authenticatePlatformOperator :: "auth_env \<Rightarrow> authentication_input \<Rightarrow> (auth_state, ref) tx" where
  "authenticatePlatformOperator env input = attempt env kind_platform input (\<lambda>trust.
     let (claims, verified) = verify env (input\<lparr>ain_requiredAudience := PLATFORM_AUDIENCE\<rparr>) [oidc, saml]
     in issue_session (bindA verified platform_session) claims trust)"

section \<open>What each step decides\<close>

lemma isNonBlank_iff [simp]: "isNonBlankString v \<longleftrightarrow> \<not> blank v"
  using trim_empty_iff [of v] by (auto simp: isNonBlankString_def)

lemma hasOnlyNonBlank_iff [simp]: "hasOnlyNonBlank vs \<longleftrightarrow> (\<forall>v\<in>set vs. \<not> blank v)"
  by (auto simp: hasOnlyNonBlank_def list_all_iff)

lemma actorId_eq: "actorId v = (if blank v then reject invalid_trusted_context else Inr v)"
  by (simp add: actorId_def ctx_requireNonBlank_def trim_empty_iff flip: length_0_conv)

lemma uniq_Nil_iff [simp]: "uniq xs = [] \<longleftrightarrow> xs = []"
  by (cases xs) simp_all

lemma normalizedTenants_Inr_iff:
  "normalizedTenants claims = Inr ms \<longleftrightarrow> cl_tenantIds claims \<noteq> [] \<and> (\<forall>t\<in>set (cl_tenantIds claims). \<not> blank t) \<and> ms = uniq (cl_tenantIds claims)"
proof -
  have "mapR tenantId (cl_tenantIds claims) = (if \<exists>t\<in>set (cl_tenantIds claims). blank t then Inl (Problem invalid_trusted_context None None)
      else Inr (map (\<lambda>t. t) (cl_tenantIds claims)))"
    by (rule mapR_guarded) (simp add: tenantId_def ctx_requireNonBlank_def trim_empty_iff flip: length_0_conv)
  then show ?thesis by (auto simp: normalizedTenants_def auth_reject_def)
qed

text \<open>What a credential's claims must satisfy whatever the entry point.\<close>

definition base_claims_ok :: "credential_claims \<Rightarrow> idp_policy \<Rightarrow> string \<Rightarrow> date \<Rightarrow> bool" where
  "base_claims_ok claims policy audience now \<longleftrightarrow>
     cl_mechanism claims = ip_mechanism policy \<and> cl_issuer claims = ip_issuer policy \<and> \<not> blank (cl_credentialId claims) \<and>
     \<not> blank (cl_subject claims) \<and> \<not> blank audience \<and> (\<forall>a\<in>set (cl_audiences claims). \<not> blank a) \<and>
     audience \<in> set (ip_allowedAudiences policy) \<and> audience \<in> set (cl_audiences claims) \<and>
     (\<exists>expiry. cl_expiresAt claims = Some expiry \<and> (\<forall>t. now = Some t \<longrightarrow> t - ip_clockSkewSeconds policy * 1000 < expiry)) \<and>
     (\<forall>nb. cl_notBefore claims = Some nb \<longrightarrow> (\<exists>n. nb = Some n \<and> (\<forall>t. now = Some t \<longrightarrow> n \<le> t + ip_clockSkewSeconds policy * 1000)))"

lemma validateBaseClaims_Inr_iff: "validateBaseClaims claims policy audience now = Inr u \<longleftrightarrow> base_claims_ok claims policy audience now"
  by (cases now; cases "cl_notBefore claims")
    (auto simp: validateBaseClaims_def auth_reject_def Let_def base_claims_ok_def expired_def too_early_def not_le not_less split: option.splits)

definition admitted :: "auth_env \<Rightarrow> authentication_input \<Rightarrow> mechanism list \<Rightarrow> idp_policy \<Rightarrow> credential_claims \<Rightarrow> bool" where
  "admitted env input mechanisms policy claims \<longleftrightarrow>
     \<not> blank (ain_providerId input) \<and> \<not> blank (ain_rawCredential input) \<and> an_policies env (ain_providerId input) = Inr (Some policy) \<and>
     ip_mechanism policy \<in> set mechanisms \<and> an_verify env (ain_rawCredential input) policy = Inr claims \<and>
     base_claims_ok claims policy (ain_requiredAudience input) (an_now env) \<and>
     an_isRevoked env (cl_issuer claims) (cl_credentialId claims) = Inr False"

lemma verify_Inr_iff: "snd (verify env input ms) = Inr (policy, claims) \<longleftrightarrow> admitted env input ms policy claims"
  by (auto simp: verify_def admitted_def auth_reject_def bindA_Inr_iff validateBaseClaims_Inr_iff split: sum.splits option.splits bool.splits)

section \<open>Issued principals\<close>

definition principal_of :: "principal_input \<Rightarrow> instant \<Rightarrow> principal" where
  "principal_of i expiry =
     \<lparr>p_actorId = in_actorId i, p_kind = in_kind i, p_tenantMemberships = uniq (in_tenantMemberships i), p_assurance = in_assurance i,
      p_credentialId = in_credentialId i, p_issuer = in_issuer i, p_audiences = uniq (in_audiences i), p_scopes = uniq (in_scopes i), p_expiresAt = expiry\<rparr>"

definition issuable :: "principal_input \<Rightarrow> bool" where
  "issuable i \<longleftrightarrow> in_kind i \<in> {interactive, workload} \<and> in_assurance i \<in> {single_factor, mfa, workload_assurance} \<and>
     (in_kind i = workload \<longleftrightarrow> in_assurance i = workload_assurance) \<and> \<not> blank (in_actorId i) \<and> \<not> blank (in_credentialId i) \<and> \<not> blank (in_issuer i) \<and>
     (\<forall>v\<in>set (in_tenantMemberships i @ in_audiences i @ in_scopes i). \<not> blank v) \<and> in_audiences i \<noteq> []"

definition with_principal :: "trust \<Rightarrow> principal \<Rightarrow> trust" where
  "with_principal st p = st\<lparr>principals := principals st @ [p], issuedPrincipals := length (principals st) # issuedPrincipals st\<rparr>"

lemma issueAuthenticatedPrincipal_Inr_iff:
  "issueAuthenticatedPrincipal i st = (Inr r, st') \<longleftrightarrow>
     (\<exists>expiry. issuable i \<and> in_expiresAt i = Some expiry \<and> r = length (principals st) \<and> st' = with_principal st (principal_of i expiry))"
  by (auto simp: issueAuthenticatedPrincipal_def issuable_def Let_def list_ex_iff principal_of_def with_principal_def split: option.splits if_splits)

lemma issueAuthenticatedPrincipal_Inl: "issueAuthenticatedPrincipal i st = (Inl e, st') \<Longrightarrow> st' = st"
  by (auto simp: issueAuthenticatedPrincipal_def Let_def split: option.splits if_splits)

lemma issue_session_Inr_iff:
  "(\<exists>c. issue_session session claims st = (c, Inr r, st')) \<longleftrightarrow>
     (\<exists>i expiry. session = Inr i \<and> issuable i \<and> in_expiresAt i = Some expiry \<and> r = length (principals st) \<and> st' = with_principal st (principal_of i expiry))"
proof (cases session)
  case (Inr i)
  have "(\<exists>c. issue_session session claims st = (c, Inr r, st')) \<longleftrightarrow> \<not> blank (in_actorId i) \<and> issueAuthenticatedPrincipal i st = (Inr r, st')"
    by (auto simp: issue_session_def Inr bindT_def liftT_def actorId_eq split: prod.splits sum.splits if_splits)
  then show ?thesis unfolding Inr issueAuthenticatedPrincipal_Inr_iff by (auto simp: issuable_def)
qed (simp add: issue_session_def)

lemma issue_session_Inl: "issue_session session claims st = (c, Inl e, st') \<Longrightarrow> st' = st"
  by (auto simp: issue_session_def bindT_def liftT_def dest: issueAuthenticatedPrincipal_Inl split: sum.splits prod.splits)

lemma record_fact_trust [simp]: "ax_trust (record_fact env kind p c reason claims s) = ax_trust s"
  by (simp add: record_fact_def Let_def split: option.splits)

lemma attempt_Inr_iff:
  "(\<exists>s'. attempt env kind input work s = (Inr r, s') \<and> ax_trust s' = t) \<longleftrightarrow> (\<exists>c. work (ax_trust s) = (c, Inr r, t))"
  by (cases "work (ax_trust s)") (auto simp: attempt_def split: sum.splits thrown.splits)

lemma attempt_Inl:
  "attempt env kind input work s = (Inl e, s') \<Longrightarrow> \<exists>c x. work (ax_trust s) = (c, Inl x, ax_trust s') \<and>
     (case x of Rejection reason code \<Rightarrow> e = Problem code (Some (ain_correlationId input)) None | Thrown e' \<Rightarrow> e = e')"
  by (cases "work (ax_trust s)") (auto simp: attempt_def split: sum.splits thrown.splits)

section \<open>The contract of each entry point\<close>

text \<open>Which principal a tenant user's, a workload's and an operator's credential is good for.\<close>

definition interactive_content :: "string \<Rightarrow> idp_policy \<Rightarrow> credential_claims \<Rightarrow> principal \<Rightarrow> bool" where
  "interactive_content audience policy claims p \<longleftrightarrow>
     (ip_requireMfa policy \<longrightarrow> ''mfa'' \<in> set (cl_authenticationMethods claims)) \<and>
     cl_tenantIds claims \<noteq> [] \<and> (\<forall>t\<in>set (cl_tenantIds claims). \<not> blank t) \<and> \<not> blank (cl_issuer claims) \<and> cl_expiresAt claims = Some (p_expiresAt p) \<and>
     p = \<lparr>p_actorId = cl_subject claims, p_kind = interactive, p_tenantMemberships = uniq (cl_tenantIds claims),
          p_assurance = (if ''mfa'' \<in> set (cl_authenticationMethods claims) then mfa else single_factor),
          p_credentialId = cl_credentialId claims, p_issuer = cl_issuer claims, p_audiences = [audience], p_scopes = [], p_expiresAt = p_expiresAt p\<rparr>"

definition workload_content :: "string \<Rightarrow> string list \<Rightarrow> idp_policy \<Rightarrow> credential_claims \<Rightarrow> principal \<Rightarrow> bool" where
  "workload_content audience required policy claims p \<longleftrightarrow>
     (\<exists>t. uniq (cl_tenantIds claims) = [t] \<and> \<not> blank t \<and> p_tenantMemberships p = [t]) \<and> \<not> blank (cl_issuer claims) \<and>
     required \<noteq> [] \<and> (\<forall>scope\<in>set required \<union> set (cl_scopes claims). \<not> blank scope) \<and>
     set required \<subseteq> set (cl_scopes claims) \<and> set (cl_scopes claims) \<subseteq> set (ip_allowedWorkloadScopes policy) \<and> cl_expiresAt claims = Some (p_expiresAt p) \<and>
     p = \<lparr>p_actorId = cl_subject claims, p_kind = workload, p_tenantMemberships = p_tenantMemberships p, p_assurance = workload_assurance,
          p_credentialId = cl_credentialId claims, p_issuer = cl_issuer claims, p_audiences = [audience], p_scopes = uniq required, p_expiresAt = p_expiresAt p\<rparr>"

definition operator_content :: "idp_policy \<Rightarrow> credential_claims \<Rightarrow> principal \<Rightarrow> bool" where
  "operator_content policy claims p \<longleftrightarrow>
     (let roles = (case cl_platformRoles claims of None \<Rightarrow> [] | Some rs \<Rightarrow> rs) in
     ''mfa'' \<in> set (cl_authenticationMethods claims) \<and> cl_tenantIds claims = [] \<and>
     \<not> blank (cl_issuer claims) \<and> (\<forall>role\<in>set roles. \<not> blank role) \<and> cl_expiresAt claims = Some (p_expiresAt p) \<and>
     p = \<lparr>p_actorId = cl_subject claims, p_kind = interactive, p_tenantMemberships = [], p_assurance = mfa,
          p_credentialId = cl_credentialId claims, p_issuer = cl_issuer claims, p_audiences = [''sintius-platform''],
          p_scopes = platformPermissionsFor roles, p_expiresAt = p_expiresAt p\<rparr>)"

lemma verified_session:
  "(\<exists>i. bindA (snd (verify env input ms)) f = Inr i \<and> P i) \<longleftrightarrow> (\<exists>policy claims i. admitted env input ms policy claims \<and> f (policy, claims) = Inr i \<and> P i)"
  unfolding bindA_Inr_iff using verify_Inr_iff by (metis (no_types, opaque_lifting) prod.exhaust)

lemma entry_point_Inr_iff:
  assumes "\<And>st. work st = issue_session (bindA (snd (verify env input ms)) f) (fst (verify env input ms)) st"
  shows "(\<exists>s'. attempt env kind input' work s = (Inr r, s') \<and> ax_trust s' = t) \<longleftrightarrow>
    (\<exists>policy claims i expiry. admitted env input ms policy claims \<and> f (policy, claims) = Inr i \<and> issuable i \<and> in_expiresAt i = Some expiry \<and>
       r = length (principals (ax_trust s)) \<and> t = with_principal (ax_trust s) (principal_of i expiry))"
  unfolding attempt_Inr_iff assms issue_session_Inr_iff
  using verified_session [of env input ms f "\<lambda>i. \<exists>expiry. issuable i \<and> in_expiresAt i = Some expiry \<and> r = length (principals (ax_trust s)) \<and>
     t = with_principal (ax_trust s) (principal_of i expiry)"] by auto

text \<open>One attempt issues a principal exactly when its credential is admitted and good for that principal.\<close>

lemma entry_point_exact:
  assumes "\<And>st. work st = issue_session (bindA (snd (verify env input ms)) f) (fst (verify env input ms)) st"
    and "\<And>policy claims p. admitted env input ms policy claims \<Longrightarrow>
      (\<exists>i expiry. f (policy, claims) = Inr i \<and> issuable i \<and> in_expiresAt i = Some expiry \<and> p = principal_of i expiry) \<longleftrightarrow> content policy claims p"
  shows "(\<exists>s'. attempt env kind input' work s = (Inr r, s') \<and> ax_trust s' = t) \<longleftrightarrow>
    r = length (principals (ax_trust s)) \<and> (\<exists>policy claims p. admitted env input ms policy claims \<and> content policy claims p \<and> t = with_principal (ax_trust s) p)"
  using entry_point_Inr_iff [of work env input ms f kind input' s r t, OF assms(1)] assms(2) by (smt (verit, best))

lemma admitted_nonblank:
  "admitted env input ms policy claims \<Longrightarrow> \<not> blank (cl_credentialId claims) \<and> \<not> blank (cl_subject claims) \<and> \<not> blank (ain_requiredAudience input)"
  by (simp add: admitted_def base_claims_ok_def)

lemma interactive_session_content:
  assumes "admitted env input ms policy claims"
  shows "(\<exists>i expiry. interactive_session input (policy, claims) = Inr i \<and> issuable i \<and> in_expiresAt i = Some expiry \<and> p = principal_of i expiry) \<longleftrightarrow>
    interactive_content (ain_requiredAudience input) policy claims p"
  using admitted_nonblank [OF assms]
  by (auto simp: interactive_session_def bindA_Inr_iff normalizedTenants_Inr_iff issuable_def principal_of_def uniq_distinct_id interactive_content_def)

lemma workload_session_content:
  assumes "admitted env input ms policy claims"
  shows "(\<exists>i expiry. workload_session input required (policy, claims) = Inr i \<and> issuable i \<and> in_expiresAt i = Some expiry \<and> p = principal_of i expiry) \<longleftrightarrow>
    workload_content (ain_requiredAudience input) required policy claims p"
proof -
  have one: "(cl_tenantIds claims \<noteq> [] \<and> (\<forall>t\<in>set (cl_tenantIds claims). \<not> blank t) \<and> length (uniq (cl_tenantIds claims)) = 1) \<longleftrightarrow>
      (\<exists>t. uniq (cl_tenantIds claims) = [t] \<and> \<not> blank t)"
  proof -
    have "set (cl_tenantIds claims) = {t}" if "uniq (cl_tenantIds claims) = [t]" for t using that set_uniq [of "cl_tenantIds claims"] by simp
    then show ?thesis by (auto simp: length_Suc_conv simp del: set_uniq)
  qed
  show ?thesis
    using admitted_nonblank [OF assms] one
    by (auto simp: workload_session_def bindA_Inr_iff normalizedTenants_Inr_iff issuable_def principal_of_def uniq_distinct_id workload_content_def list_ex_iff Let_def)
qed

lemma platform_session_content:
  assumes "admitted env input ms policy claims" "ain_requiredAudience input = ''sintius-platform''"
  shows "(\<exists>i expiry. platform_session (policy, claims) = Inr i \<and> issuable i \<and> in_expiresAt i = Some expiry \<and> p = principal_of i expiry) \<longleftrightarrow>
    operator_content policy claims p"
proof -
  have "\<not> blank v" if "v \<in> set (platformPermissionsFor roles)" for v roles
    using that by (auto simp: platformPermissionsFor_iff blank_def is_space_def)
  moreover have "uniq (platformPermissionsFor roles) = platformPermissionsFor roles" for roles
    by (rule uniq_distinct_id) (simp add: platformPermissionsFor_def)
  moreover have "\<not> blank ''sintius-platform''" by (simp add: blank_def is_space_def)
  ultimately show ?thesis
    using admitted_nonblank [OF assms(1)]
    by (auto simp: platform_session_def issuable_def principal_of_def operator_content_def auth_reject_def Let_def PLATFORM_AUDIENCE_def)
qed

lemma interactive_exact:
  "(\<exists>s'. authenticateInteractive env input s = (Inr r, s') \<and> ax_trust s' = t) \<longleftrightarrow>
     r = length (principals (ax_trust s)) \<and> ain_requiredAudience input \<noteq> ''sintius-platform'' \<and>
     (\<exists>policy claims p. admitted env input [oidc, saml] policy claims \<and> interactive_content (ain_requiredAudience input) policy claims p \<and>
        t = with_principal (ax_trust s) p)"
proof (cases "ain_requiredAudience input = PLATFORM_AUDIENCE")
  case True
  then show ?thesis by (simp add: authenticateInteractive_def attempt_Inr_iff auth_reject_def PLATFORM_AUDIENCE_def)
next
  case False
  have "(\<exists>s'. authenticateInteractive env input s = (Inr r, s') \<and> ax_trust s' = t) \<longleftrightarrow> r = length (principals (ax_trust s)) \<and>
     (\<exists>policy claims p. admitted env input [oidc, saml] policy claims \<and> interactive_content (ain_requiredAudience input) policy claims p \<and>
        t = with_principal (ax_trust s) p)"
    unfolding authenticateInteractive_def by (rule entry_point_exact [where f = "interactive_session input"]) (simp add: False split_beta, rule interactive_session_content)
  then show ?thesis using False by (simp add: PLATFORM_AUDIENCE_def)
qed

lemma workload_exact:
  "(\<exists>s'. authenticateWorkload env input required s = (Inr r, s') \<and> ax_trust s' = t) \<longleftrightarrow>
     r = length (principals (ax_trust s)) \<and> ain_requiredAudience input \<noteq> ''sintius-platform'' \<and>
     (\<exists>policy claims p. admitted env input [workload_token] policy claims \<and> workload_content (ain_requiredAudience input) required policy claims p \<and>
        t = with_principal (ax_trust s) p)"
proof (cases "ain_requiredAudience input = PLATFORM_AUDIENCE")
  case True
  then show ?thesis by (simp add: authenticateWorkload_def attempt_Inr_iff auth_reject_def PLATFORM_AUDIENCE_def)
next
  case False
  have "(\<exists>s'. authenticateWorkload env input required s = (Inr r, s') \<and> ax_trust s' = t) \<longleftrightarrow> r = length (principals (ax_trust s)) \<and>
     (\<exists>policy claims p. admitted env input [workload_token] policy claims \<and> workload_content (ain_requiredAudience input) required policy claims p \<and>
        t = with_principal (ax_trust s) p)"
    unfolding authenticateWorkload_def by (rule entry_point_exact [where f = "workload_session input required"]) (simp add: False split_beta, rule workload_session_content)
  then show ?thesis using False by (simp add: PLATFORM_AUDIENCE_def)
qed

lemma operator_exact:
  "(\<exists>s'. authenticatePlatformOperator env input s = (Inr r, s') \<and> ax_trust s' = t) \<longleftrightarrow>
     r = length (principals (ax_trust s)) \<and>
     (\<exists>policy claims p. admitted env (input\<lparr>ain_requiredAudience := ''sintius-platform''\<rparr>) [oidc, saml] policy claims \<and> operator_content policy claims p \<and>
        t = with_principal (ax_trust s) p)"
  unfolding authenticatePlatformOperator_def
  by (rule entry_point_exact [where f = platform_session]) (simp add: split_beta PLATFORM_AUDIENCE_def, erule platform_session_content, simp)

section \<open>Attempts of any kind\<close>

datatype entry_point = tenant_user | workload_for "string list" | platform_operator

fun authenticate :: "auth_env \<Rightarrow> entry_point \<Rightarrow> authentication_input \<Rightarrow> (auth_state, ref) tx" where
  "authenticate env tenant_user input = authenticateInteractive env input"
| "authenticate env (workload_for scopes) input = authenticateWorkload env input scopes"
| "authenticate env platform_operator input = authenticatePlatformOperator env input"

text \<open>What an attempt of each kind issues.\<close>

fun grants :: "auth_env \<Rightarrow> entry_point \<Rightarrow> authentication_input \<Rightarrow> principal \<Rightarrow> bool" where
  "grants env tenant_user input p \<longleftrightarrow> ain_requiredAudience input \<noteq> ''sintius-platform'' \<and>
     (\<exists>policy claims. admitted env input [oidc, saml] policy claims \<and> interactive_content (ain_requiredAudience input) policy claims p)"
| "grants env (workload_for scopes) input p \<longleftrightarrow> ain_requiredAudience input \<noteq> ''sintius-platform'' \<and>
     (\<exists>policy claims. admitted env input [workload_token] policy claims \<and> workload_content (ain_requiredAudience input) scopes policy claims p)"
| "grants env platform_operator input p \<longleftrightarrow>
     (\<exists>policy claims. admitted env (input\<lparr>ain_requiredAudience := ''sintius-platform''\<rparr>) [oidc, saml] policy claims \<and> operator_content policy claims p)"

lemma authenticate_Inr:
  assumes "authenticate env entry input s = (Inr r, s')"
  obtains p where "grants env entry input p" "r = length (principals (ax_trust s))" "ax_trust s' = with_principal (ax_trust s) p"
proof -
  have "\<exists>s''. authenticate env entry input s = (Inr r, s'') \<and> ax_trust s'' = ax_trust s'" using assms by blast
  then show ?thesis using that by (cases entry) (auto simp: interactive_exact workload_exact operator_exact)
qed

text \<open>Whatever the entry point, the principal speaks for the verified claims.\<close>

lemma granted_claims:
  assumes "grants env entry input p"
  shows "\<exists>policy claims. an_policies env (ain_providerId input) = Inr (Some policy) \<and> an_verify env (ain_rawCredential input) policy = Inr claims \<and>
    cl_issuer claims = ip_issuer policy \<and> p_actorId p = cl_subject claims \<and> p_credentialId p = cl_credentialId claims \<and> p_issuer p = cl_issuer claims \<and>
    p_tenantMemberships p = uniq (cl_tenantIds claims)"
proof -
  let ?speaks = "\<lambda>claims. p_actorId p = cl_subject claims \<and> p_credentialId p = cl_credentialId claims \<and> p_issuer p = cl_issuer claims \<and>
    p_tenantMemberships p = uniq (cl_tenantIds claims)"
  have f: "interactive_content audience policy claims p \<Longrightarrow> ?speaks claims" "workload_content audience required policy claims p \<Longrightarrow> ?speaks claims"
    "operator_content policy claims p \<Longrightarrow> ?speaks claims" for audience required policy claims
    by (cases p; auto simp: interactive_content_def workload_content_def operator_content_def Let_def)+
  have a: "an_policies env (ain_providerId input) = Inr (Some policy) \<and> an_verify env (ain_rawCredential input) policy = Inr claims \<and> cl_issuer claims = ip_issuer policy"
    if "admitted env (input\<lparr>ain_requiredAudience := aud\<rparr>) ms policy claims \<or> admitted env input ms policy claims" for aud ms policy claims
    using that by (auto simp: admitted_def base_claims_ok_def)
  show ?thesis using assms
  proof (cases entry)
    case tenant_user
    with assms obtain policy claims where "admitted env input [oidc, saml] policy claims" "interactive_content (ain_requiredAudience input) policy claims p" by auto
    then show ?thesis using a f(1) by blast
  next
    case (workload_for scopes)
    with assms obtain policy claims where "admitted env input [workload_token] policy claims" "workload_content (ain_requiredAudience input) scopes policy claims p" by auto
    then show ?thesis using a f(2) by blast
  next
    case platform_operator
    with assms obtain policy claims where "admitted env (input\<lparr>ain_requiredAudience := ''sintius-platform''\<rparr>) [oidc, saml] policy claims" "operator_content policy claims p" by auto
    then show ?thesis using a f(3) by blast
  qed
qed

text \<open>The work behind an attempt.\<close>

fun work_of :: "auth_env \<Rightarrow> entry_point \<Rightarrow> authentication_input \<Rightarrow> attempt_work" where
  "work_of env tenant_user input trust =
     (if ain_requiredAudience input = PLATFORM_AUDIENCE then (None, auth_reject claims_invalid, trust)
      else issue_session (bindA (snd (verify env input [oidc, saml])) (interactive_session input)) (fst (verify env input [oidc, saml])) trust)"
| "work_of env (workload_for scopes) input trust =
     (if ain_requiredAudience input = PLATFORM_AUDIENCE then (None, auth_reject claims_invalid, trust)
      else issue_session (bindA (snd (verify env input [workload_token])) (workload_session input scopes)) (fst (verify env input [workload_token])) trust)"
| "work_of env platform_operator input trust =
     issue_session (bindA (snd (verify env (input\<lparr>ain_requiredAudience := PLATFORM_AUDIENCE\<rparr>) [oidc, saml])) platform_session)
       (fst (verify env (input\<lparr>ain_requiredAudience := PLATFORM_AUDIENCE\<rparr>) [oidc, saml])) trust"

fun kind_of :: "entry_point \<Rightarrow> authentication_kind" where
  "kind_of tenant_user = kind_interactive"
| "kind_of (workload_for _) = kind_workload"
| "kind_of platform_operator = kind_platform"

lemma authenticate_attempt: "authenticate env entry input = attempt env (kind_of entry) input (work_of env entry input)"
  by (cases entry) (auto simp: authenticateInteractive_def authenticateWorkload_def authenticatePlatformOperator_def split_beta intro!: arg_cong [of _ _ "attempt env _ input"])

lemma work_failure_trust: "work_of env entry input trust = (c, Inl x, trust') \<Longrightarrow> trust' = trust"
  by (cases entry) (auto dest: issue_session_Inl split: if_splits)

text \<open>Expected refusals carry one of three codes; anything else comes from the policy store, the revocation
  check or the issuing of the principal, never from the verifier.\<close>

definition generic_codes :: "problem_code set" where
  "generic_codes = {authentication_failed, authentication_assurance_insufficient, workload_scope_denied}"

definition dependency_error :: "auth_env \<Rightarrow> authentication_input \<Rightarrow> err \<Rightarrow> bool" where
  "dependency_error env input e \<longleftrightarrow> an_policies env (ain_providerId input) = Inl e \<or> (\<exists>issuer credential. an_isRevoked env issuer credential = Inl e) \<or>
     e = Problem authentication_failed None None"

definition contained :: "auth_env \<Rightarrow> authentication_input \<Rightarrow> thrown \<Rightarrow> bool" where
  "contained env input x = (case x of Rejection reason code \<Rightarrow> code \<in> generic_codes | Thrown e \<Rightarrow> dependency_error env input e)"

lemma verify_contained:
  "snd (verify env input ms) = Inl x \<Longrightarrow> contained env input x"
  by (auto simp: verify_def auth_reject_def validateBaseClaims_def Let_def contained_def generic_codes_def dependency_error_def
      split: if_splits sum.splits option.splits bool.splits) blast+

lemma sessions_contained:
  "interactive_session i y = Inl x \<Longrightarrow> contained env input x"
  "workload_session i scopes y = Inl x \<Longrightarrow> contained env input x"
  "platform_session y = Inl x \<Longrightarrow> contained env input x"
  by (auto simp: interactive_session_def workload_session_def platform_session_def bindA_def normalizedTenants_def auth_reject_def contained_def generic_codes_def
      Let_def split: if_splits sum.splits prod.splits)

lemma issue_contained:
  assumes "issue_session session claims st = (c, Inl x, st')" "\<And>y. session = Inl y \<Longrightarrow> contained env input y"
    "\<And>i. session = Inr i \<Longrightarrow> \<not> blank (in_actorId i)"
  shows "contained env input x"
proof (cases session)
  case (Inr i)
  have "x = Thrown (Problem authentication_failed None None)"
    using assms(1) assms(3) [OF Inr]
    by (auto simp: issue_session_def Inr bindT_def liftT_def actorId_eq issueAuthenticatedPrincipal_def Let_def split: prod.splits sum.splits if_splits option.splits)
  then show ?thesis by (simp add: contained_def dependency_error_def)
qed (use assms in \<open>simp add: issue_session_def\<close>)

lemma session_actor:
  assumes "bindA (snd (verify env input ms)) f = Inr i" "\<And>policy claims j. f (policy, claims) = Inr j \<Longrightarrow> in_actorId j = cl_subject claims"
  shows "\<not> blank (in_actorId i)"
proof -
  obtain policy claims where "snd (verify env input ms) = Inr (policy, claims)" "f (policy, claims) = Inr i"
    using assms(1) by (auto simp: bindA_Inr_iff)
  then show ?thesis using assms(2) admitted_nonblank by (metis verify_Inr_iff)
qed

lemma session_subject:
  "interactive_session i (policy, claims) = Inr j \<Longrightarrow> in_actorId j = cl_subject claims"
  "workload_session i scopes (policy, claims) = Inr j \<Longrightarrow> in_actorId j = cl_subject claims"
  "platform_session (policy, claims) = Inr j \<Longrightarrow> in_actorId j = cl_subject claims"
  by (auto simp: interactive_session_def workload_session_def platform_session_def bindA_Inr_iff auth_reject_def Let_def split: if_splits)

lemma issued_session_contained:
  assumes "issue_session (bindA (snd (verify env input ms)) f) claims st = (c, Inl x, st')"
    "\<And>y x. f y = Inl x \<Longrightarrow> contained env input x" "\<And>policy claims j. f (policy, claims) = Inr j \<Longrightarrow> in_actorId j = cl_subject claims"
  shows "contained env input x"
  using assms(1)
proof (rule issue_contained)
  fix y assume "bindA (snd (verify env input ms)) f = Inl y"
  then show "contained env input y" using verify_contained assms(2) by (auto simp: bindA_def split: sum.splits)
qed (rule session_actor [OF _ assms(3)])

lemma contained_audience [simp]: "contained env (input\<lparr>ain_requiredAudience := a\<rparr>) x = contained env input x"
  by (cases x) (simp_all add: contained_def dependency_error_def)

lemma work_contained: "work_of env entry input st = (c, Inl x, st') \<Longrightarrow> contained env input x"
proof (cases entry)
  case tenant_user
  assume "work_of env entry input st = (c, Inl x, st')"
  then show ?thesis using issued_session_contained [OF _ sessions_contained(1) session_subject(1)]
    by (auto simp: tenant_user auth_reject_def contained_def generic_codes_def split: if_splits)
next
  case (workload_for scopes)
  assume "work_of env entry input st = (c, Inl x, st')"
  then show ?thesis using issued_session_contained [OF _ sessions_contained(2) session_subject(2)]
    by (auto simp: workload_for auth_reject_def contained_def generic_codes_def split: if_splits)
next
  case platform_operator
  assume "work_of env entry input st = (c, Inl x, st')"
  then have "issue_session (bindA (snd (verify env (input\<lparr>ain_requiredAudience := PLATFORM_AUDIENCE\<rparr>) [oidc, saml])) platform_session)
      (fst (verify env (input\<lparr>ain_requiredAudience := PLATFORM_AUDIENCE\<rparr>) [oidc, saml])) st = (c, Inl x, st')" by (simp add: platform_operator)
  then have "contained env (input\<lparr>ain_requiredAudience := PLATFORM_AUDIENCE\<rparr>) x"
    by (rule issued_session_contained [OF _ sessions_contained(3) session_subject(3)])
  then show ?thesis by simp
qed

text \<open>The outcome does not depend on the fact sink or its clock.\<close>

lemma work_of_sink [simp]: "work_of (env\<lparr>an_facts := sink, an_factNow := now\<rparr>) entry input = work_of env entry input"
proof -
  let ?env = "env\<lparr>an_facts := sink, an_factNow := now\<rparr>"
  have e: "an_policies ?env = an_policies env" "an_verify ?env = an_verify env" "an_isRevoked ?env = an_isRevoked env" "an_now ?env = an_now env" by simp_all
  have v: "verify ?env i ms = verify env i ms" for i ms by (unfold verify_def e) (rule refl)
  show ?thesis by (cases entry) (simp_all add: v fun_eq_iff)
qed

lemma attempt_eq:
  "fst (attempt env kind input work s) = (case fst (snd (work (ax_trust s))) of Inr r \<Rightarrow> Inr r
     | Inl (Rejection reason code) \<Rightarrow> reject_for code (ain_correlationId input) | Inl (Thrown e) \<Rightarrow> Inl e) \<and>
   ax_trust (snd (attempt env kind input work s)) = snd (snd (work (ax_trust s)))"
  by (cases "work (ax_trust s)") (auto simp: attempt_def split: sum.splits thrown.splits)

lemma attempt_fact:
  assumes "an_facts env = Some (\<lambda>_. True)" "an_factNow env = Some now"
  shows "\<exists>fact. ax_facts (snd (attempt env kind input work s)) = ax_facts s @ [fact] \<and> af_kind fact = kind \<and> af_correlationId fact = ain_correlationId input \<and>
    af_occurredAt fact = now \<and> (af_reason fact = None \<longleftrightarrow> (\<exists>r. fst (attempt env kind input work s) = Inr r))"
  using assms by (cases "work (ax_trust s)") (auto simp: attempt_def record_fact_def Let_def split: sum.splits thrown.splits)

section \<open>Runs of the two planes\<close>

text \<open>Principals are issued by the three entry points only; everything else code can do with the trusted state
  may happen in between.\<close>

inductive session_step :: "trust \<Rightarrow> trust \<Rightarrow> bool" where
  session_authenticate: "authenticate env entry input s = (r, s') \<Longrightarrow> session_step (ax_trust s) (ax_trust s')"
| session_other: "trust_step st st' \<Longrightarrow> set (issuedPrincipals st') = set (issuedPrincipals st) \<Longrightarrow> session_step st st'"

definition tenant_plane :: "principal \<Rightarrow> bool" where
  "tenant_plane p \<longleftrightarrow> p_tenantMemberships p \<noteq> [] \<and> PLATFORM_AUDIENCE \<notin> set (p_audiences p)"

definition operator_plane :: "principal \<Rightarrow> bool" where
  "operator_plane p \<longleftrightarrow> p_tenantMemberships p = [] \<and> p_audiences p = [PLATFORM_AUDIENCE] \<and> (\<exists>roles. p_scopes p = platformPermissionsFor roles)"

definition planes_inv :: "trust \<Rightarrow> bool" where
  "planes_inv st \<longleftrightarrow> trust_inv st \<and> (\<forall>p\<in>set (issuedPrincipals st). tenant_plane (principals st ! p) \<or> operator_plane (principals st ! p))"

lemma content_fields:
  "interactive_content audience policy claims p \<Longrightarrow> p_audiences p = [audience] \<and> p_tenantMemberships p \<noteq> []"
  "workload_content audience required policy claims p \<Longrightarrow> p_audiences p = [audience] \<and> p_tenantMemberships p \<noteq> []"
  "operator_content policy claims p \<Longrightarrow> operator_plane p"
  by (cases p; auto simp: interactive_content_def workload_content_def operator_content_def operator_plane_def Let_def PLATFORM_AUDIENCE_def)+

lemma grants_plane: "grants env entry input p \<Longrightarrow> tenant_plane p \<or> operator_plane p"
  by (cases entry) (auto simp: tenant_plane_def PLATFORM_AUDIENCE_def dest: content_fields)

lemma planes_with_principal:
  assumes "planes_inv st" "tenant_plane p \<or> operator_plane p"
  shows "planes_inv (with_principal st p)"
proof -
  have "trust_inv (with_principal st p)"
    using assms(1) by (fastforce simp: planes_inv_def trust_inv_def with_principal_def)
  moreover have "r < length (principals st)" if "r \<in> set (issuedPrincipals st)" for r using that assms(1) by (auto simp: planes_inv_def trust_inv_def)
  ultimately show ?thesis using assms by (auto simp: planes_inv_def with_principal_def)
qed

lemma session_step_inv: "session_step st st' \<Longrightarrow> planes_inv st \<Longrightarrow> planes_inv st'"
proof (induction rule: session_step.induct)
  case (session_authenticate env entry input s r s')
  show ?case
  proof (cases r)
    case (Inl e)
    with session_authenticate.hyps have "attempt env (kind_of entry) input (work_of env entry input) s = (Inl e, s')" by (simp add: authenticate_attempt)
    then have "ax_trust s' = ax_trust s" using attempt_Inl work_failure_trust by blast
    then show ?thesis using session_authenticate.prems by simp
  next
    case (Inr x)
    with session_authenticate.hyps have "authenticate env entry input s = (Inr x, s')" by simp
    then show ?thesis by (rule authenticate_Inr) (use session_authenticate.prems planes_with_principal grants_plane in auto)
  qed
next
  case (session_other st st')
  have inv: "trust_inv st'" "grows st st'" using trust_step_inv [OF session_other.hyps(1)] session_other.prems by (simp_all add: planes_inv_def)
  have "principals st' ! r = principals st ! r" if "r \<in> set (issuedPrincipals st)" for r
    using that inv(2) session_other.prems by (auto simp: grows_def planes_inv_def trust_inv_def)
  then show ?case using inv(1) session_other by (simp add: planes_inv_def)
qed

lemma session_run_inv: "session_step\<^sup>*\<^sup>* trust_init st \<Longrightarrow> planes_inv st"
proof (induction rule: rtranclp_induct)
  case base
  show ?case by (simp add: planes_inv_def trust_inv_def trust_init_def)
qed (rule session_step_inv)

section \<open>Properties\<close>

text \<open>C18: When a credential becomes a session, exactly. Each entry point succeeds exactly when the provider is known
  with a mechanism of that entry point, the adapter verified the credential under the provider's policy, the
  claims name that issuer and mechanism, the required audience is allowed and claimed, the lifetime covers the
  clock within the skew, the credential is not revoked, and the entry point's own conditions hold: for tenant
  users any tenants but never the platform audience, and MFA where the policy asks for it; for workloads one
  tenant and only allowed scopes; for operators the platform audience, MFA and no tenants. It then issues one new principal whose
  content is that of the claims, down-scoped to the required audience and scopes, and changes nothing else of the
  trusted state.\<close>

theorem authentication_exact:
  "((\<exists>s'. authenticateInteractive env input s = (Inr r, s') \<and> ax_trust s' = t) \<longleftrightarrow>
      r = length (principals (ax_trust s)) \<and> ain_requiredAudience input \<noteq> ''sintius-platform'' \<and>
      (\<exists>policy claims p. admitted env input [oidc, saml] policy claims \<and> interactive_content (ain_requiredAudience input) policy claims p \<and>
         t = with_principal (ax_trust s) p)) \<and>
   ((\<exists>s'. authenticateWorkload env input required s = (Inr r, s') \<and> ax_trust s' = t) \<longleftrightarrow>
      r = length (principals (ax_trust s)) \<and> ain_requiredAudience input \<noteq> ''sintius-platform'' \<and>
      (\<exists>policy claims p. admitted env input [workload_token] policy claims \<and> workload_content (ain_requiredAudience input) required policy claims p \<and>
         t = with_principal (ax_trust s) p)) \<and>
   ((\<exists>s'. authenticatePlatformOperator env input s = (Inr r, s') \<and> ax_trust s' = t) \<longleftrightarrow>
      r = length (principals (ax_trust s)) \<and>
      (\<exists>policy claims p. admitted env (input\<lparr>ain_requiredAudience := ''sintius-platform''\<rparr>) [oidc, saml] policy claims \<and> operator_content policy claims p \<and>
         t = with_principal (ax_trust s) p))"
  by (intro conjI interactive_exact workload_exact operator_exact)

text \<open>An authentication attempt is contained. A failed attempt, through any entry point, issues nothing and shows the caller either
  one of three generic codes with the caller's own correlation id, or an error of the policy store, of the
  revocation check or of issuing the principal; an error of the credential verifier never surfaces. The outcome and the
  trusted state are the same whatever the fact sink does, with or without one; and a working sink receives
  exactly one fact of the attempt's kind, with a failure reason exactly when the attempt failed.\<close>

theorem authentication_contained:
  "(\<forall>e s'. authenticate env entry input s = (Inl e, s') \<longrightarrow> ax_trust s' = ax_trust s \<and>
      ((\<exists>code\<in>{authentication_failed, authentication_assurance_insufficient, workload_scope_denied}. e = Problem code (Some (ain_correlationId input)) None) \<or>
       an_policies env (ain_providerId input) = Inl e \<or> (\<exists>issuer credential. an_isRevoked env issuer credential = Inl e) \<or>
       e = Problem authentication_failed None None)) \<and>
   fst (authenticate (env\<lparr>an_facts := sink, an_factNow := n\<rparr>) entry input s) = fst (authenticate env entry input s) \<and>
   ax_trust (snd (authenticate (env\<lparr>an_facts := sink, an_factNow := n\<rparr>) entry input s)) = ax_trust (snd (authenticate env entry input s)) \<and>
   (\<forall>now. an_facts env = Some (\<lambda>_. True) \<and> an_factNow env = Some now \<longrightarrow>
      (\<exists>fact. ax_facts (snd (authenticate env entry input s)) = ax_facts s @ [fact] \<and> af_kind fact = kind_of entry \<and>
         af_correlationId fact = ain_correlationId input \<and> af_occurredAt fact = now \<and> (af_reason fact = None \<longleftrightarrow> (\<exists>r. fst (authenticate env entry input s) = Inr r))))"
proof (intro conjI allI impI)
  fix e s' assume "authenticate env entry input s = (Inl e, s')"
  then obtain c x where w: "work_of env entry input (ax_trust s) = (c, Inl x, ax_trust s')"
    and x: "case x of Rejection reason code \<Rightarrow> e = Problem code (Some (ain_correlationId input)) None | Thrown e' \<Rightarrow> e = e'"
    unfolding authenticate_attempt by (blast dest: attempt_Inl)
  show "ax_trust s' = ax_trust s" using work_failure_trust [OF w] .
  show "(\<exists>code\<in>{authentication_failed, authentication_assurance_insufficient, workload_scope_denied}. e = Problem code (Some (ain_correlationId input)) None) \<or>
       an_policies env (ain_providerId input) = Inl e \<or> (\<exists>issuer credential. an_isRevoked env issuer credential = Inl e) \<or>
       e = Problem authentication_failed None None"
    using work_contained [OF w] x by (auto simp: contained_def generic_codes_def dependency_error_def split: thrown.splits)
next
  show "fst (authenticate (env\<lparr>an_facts := sink, an_factNow := n\<rparr>) entry input s) = fst (authenticate env entry input s)"
    "ax_trust (snd (authenticate (env\<lparr>an_facts := sink, an_factNow := n\<rparr>) entry input s)) = ax_trust (snd (authenticate env entry input s))"
    unfolding authenticate_attempt by (simp_all add: attempt_eq)
next
  fix now assume "an_facts env = Some (\<lambda>_. True) \<and> an_factNow env = Some now"
  then show "\<exists>fact. ax_facts (snd (authenticate env entry input s)) = ax_facts s @ [fact] \<and> af_kind fact = kind_of entry \<and>
         af_correlationId fact = ain_correlationId input \<and> af_occurredAt fact = now \<and> (af_reason fact = None \<longleftrightarrow> (\<exists>r. fst (authenticate env entry input s) = Inr r))"
    unfolding authenticate_attempt by (elim conjE) (rule attempt_fact)
qed

text \<open>A credential is good for one entry point. Under the same provider, and whatever audience, scopes, clock or fact sink is used, a credential that
  one entry point accepts is never accepted by an entry point of another kind.\<close>

theorem credential_single_entry_point:
  assumes "authenticate env entry input s = (Inr r, s')" "authenticate env' entry' input' t = (Inr r', t')"
    "an_policies env' = an_policies env" "an_verify env' = an_verify env"
    "ain_providerId input' = ain_providerId input" "ain_rawCredential input' = ain_rawCredential input"
  shows "kind_of entry' = kind_of entry"
proof -
  obtain p p' where "grants env entry input p" "grants env' entry' input' p'" using assms(1,2) by (elim authenticate_Inr) blast
  then show ?thesis using assms(3-6)
    by (cases entry; cases entry') (auto simp: admitted_def base_claims_ok_def interactive_content_def operator_content_def Let_def)
qed

text \<open>C17: The tenant plane and the platform plane never meet. However users, workloads and operators authenticate and whatever else code
  does with the trusted state, no tenant context ever carries the platform audience, a principal with the
  platform audience can enter no tenant, and whoever passes the platform authorizer is an operator session
  without tenant memberships whose permission comes from a reviewed platform role.\<close>

theorem planes_stay_separate:
  assumes "session_step\<^sup>*\<^sup>* trust_init st"
  shows "(\<forall>c\<in>set (issuedContexts st). ''sintius-platform'' \<notin> set (tc_audiences (contexts st ! c))) \<and>
    (\<forall>input now r st'. ''sintius-platform'' \<in> set (p_audiences (principals st ! ri_principal input)) \<longrightarrow> resolveTenantContext input now st \<noteq> (Inr r, st')) \<and>
    (\<forall>c permission. platform_assertAllowed st c permission = Inr () \<longrightarrow>
       (\<exists>p\<in>set (issuedPrincipals st). platform_bound_to (principals st ! p) (platformContexts st ! c) \<and> p_tenantMemberships (principals st ! p) = [] \<and>
          permission \<in> set (p_scopes (principals st ! p)) \<and> (\<exists>roles. p_scopes (principals st ! p) = platformPermissionsFor roles)))"
proof -
  have inv: "trust_inv st" and planes: "\<And>p. p \<in> set (issuedPrincipals st) \<Longrightarrow> tenant_plane (principals st ! p) \<or> operator_plane (principals st ! p)"
    using session_run_inv [OF assms] by (auto simp: planes_inv_def)
  have "''sintius-platform'' \<notin> set (tc_audiences (contexts st ! c))" if c: "c \<in> set (issuedContexts st)" for c
  proof -
    obtain p where "p \<in> set (issuedPrincipals st)" "bound_to (principals st ! p) (contexts st ! c)" using c inv unfolding trust_inv_def by blast
    then show ?thesis using planes [of p] by (auto simp: bound_to_def tenant_plane_def operator_plane_def PLATFORM_AUDIENCE_def)
  qed
  moreover have "resolveTenantContext input now st \<noteq> (Inr r, st')" if "''sintius-platform'' \<in> set (p_audiences (principals st ! ri_principal input))" for input now r st'
    using that planes [of "ri_principal input"] by (auto simp: resolveTenantContext_Inr_iff tenant_plane_def operator_plane_def PLATFORM_AUDIENCE_def)
  moreover have "\<exists>p\<in>set (issuedPrincipals st). platform_bound_to (principals st ! p) (platformContexts st ! c) \<and> p_tenantMemberships (principals st ! p) = [] \<and>
          permission \<in> set (p_scopes (principals st ! p)) \<and> (\<exists>roles. p_scopes (principals st ! p) = platformPermissionsFor roles)" if "platform_assertAllowed st c permission = Inr ()" for c permission
  proof -
    have c: "c \<in> set (issuedPlatformContexts st)" "PLATFORM_AUDIENCE \<in> set (pc_audiences (platformContexts st ! c))" "permission \<in> set (pc_scopes (platformContexts st ! c))"
      using that by (auto simp: platform_assertAllowed_def bindR_Inr_iff issued_platform_def assertIssuedPlatformContext_def assertT_def split: if_splits)
    obtain p where p: "p \<in> set (issuedPrincipals st)" "platform_bound_to (principals st ! p) (platformContexts st ! c)" using c(1) inv unfolding trust_inv_def by blast
    then have "operator_plane (principals st ! p)" using planes [OF p(1)] c(2) by (auto simp: platform_bound_to_def tenant_plane_def)
    moreover have "permission \<in> set (p_scopes (principals st ! p))" using p(2) c(3) by (simp add: platform_bound_to_def)
    ultimately show ?thesis using p by (intro bexI [of _ p]) (simp_all add: operator_plane_def)
  qed
  ultimately show ?thesis by blast
qed

section \<open>Concrete attempts\<close>

definition example_idp :: idp_policy where
  "example_idp = \<lparr>ip_id = ''idp'', ip_mechanism = oidc, ip_issuer = ''iss'', ip_allowedAudiences = [''api'', ''sintius-platform''], ip_clockSkewSeconds = 60,
     ip_requireMfa = True, ip_allowedWorkloadScopes = []\<rparr>"

definition example_claims :: "string \<Rightarrow> credential_claims" where
  "example_claims raw = \<lparr>cl_mechanism = oidc, cl_credentialId = raw, cl_subject = ''u'', cl_issuer = ''iss'',
     cl_audiences = [if raw = ''op'' then ''sintius-platform'' else ''api''], cl_tenantIds = (if raw = ''op'' then [] else [''t'', ''t'']),
     cl_authenticationMethods = [''pwd'', ''mfa''], cl_scopes = [], cl_expiresAt = Some 100000, cl_notBefore = Some (Some 0),
     cl_platformRoles = Some [''platform_tenant_provisioner'']\<rparr>"

definition example_auth_env :: auth_env where
  "example_auth_env = \<lparr>an_policies = (\<lambda>i. Inr (if i = ''idp'' then Some example_idp else None)),
     an_verify = (\<lambda>raw _. if raw = ''bad'' then Inl TypeError else Inr (example_claims raw)), an_isRevoked = (\<lambda>_ _. Inr False),
     an_now = Some 50000, an_factNow = Some 50001, an_facts = Some (\<lambda>_. True)\<rparr>"

definition example_login :: "string \<Rightarrow> authentication_input" where
  "example_login raw = \<lparr>ain_providerId = ''idp'', ain_rawCredential = raw, ain_requiredAudience = ''api'', ain_correlationId = ''corr''\<rparr>"

definition example_fresh :: auth_state where
  "example_fresh = \<lparr>ax_trust = trust_init, ax_facts = []\<rparr>"

lemmas example_auth_defs = example_auth_env_def example_login_def example_fresh_def example_idp_def example_claims_def

lemma example_login_run:
  "\<exists>s'. authenticate example_auth_env tenant_user (example_login ''tok'') example_fresh = (Inr 0, s')"
proof -
  let ?p = "\<lparr>p_actorId = ''u'', p_kind = interactive, p_tenantMemberships = [''t''], p_assurance = mfa, p_credentialId = ''tok'', p_issuer = ''iss'',
    p_audiences = [''api''], p_scopes = [], p_expiresAt = 100000\<rparr>"
  have "admitted example_auth_env (example_login ''tok'') [oidc, saml] example_idp (example_claims ''tok'')"
    by (simp add: admitted_def base_claims_ok_def example_auth_defs blank_def is_space_def)
  moreover have "interactive_content ''api'' example_idp (example_claims ''tok'') ?p"
    by (simp add: interactive_content_def example_auth_defs blank_def is_space_def)
  ultimately have "\<exists>s'. authenticateInteractive example_auth_env (example_login ''tok'') example_fresh = (Inr 0, s') \<and> ax_trust s' = with_principal trust_init ?p"
    unfolding interactive_exact by (auto simp: example_login_def example_fresh_def trust_init_def)
  then show ?thesis by auto
qed

lemma example_operator_run:
  "\<exists>s'. authenticate example_auth_env platform_operator (example_login ''op'') example_fresh = (Inr 0, s') \<and>
     p_audiences (principals (ax_trust s') ! 0) = [''sintius-platform'']"
proof -
  let ?p = "\<lparr>p_actorId = ''u'', p_kind = interactive, p_tenantMemberships = [], p_assurance = mfa, p_credentialId = ''op'', p_issuer = ''iss'',
    p_audiences = [''sintius-platform''], p_scopes = platformPermissionsFor [''platform_tenant_provisioner''], p_expiresAt = 100000\<rparr>"
  have "admitted example_auth_env ((example_login ''op'')\<lparr>ain_requiredAudience := ''sintius-platform''\<rparr>) [oidc, saml] example_idp (example_claims ''op'')"
    by (simp add: admitted_def base_claims_ok_def example_auth_defs blank_def is_space_def)
  moreover have "operator_content example_idp (example_claims ''op'') ?p"
    by (simp add: operator_content_def example_auth_defs blank_def is_space_def)
  ultimately have "\<exists>s'. authenticatePlatformOperator example_auth_env (example_login ''op'') example_fresh = (Inr 0, s') \<and> ax_trust s' = with_principal trust_init ?p"
    unfolding operator_exact by (auto simp: example_fresh_def trust_init_def)
  then show ?thesis by (auto simp: with_principal_def trust_init_def)
qed

theorem authentication_contained_witness:
  "\<exists>s'. authenticate example_auth_env tenant_user (example_login ''bad'') example_fresh = (reject_for authentication_failed ''corr'', s') \<and>
     ax_trust s' = trust_init \<and> length (ax_facts s') = 1"
proof -
  have "fst (authenticate example_auth_env tenant_user (example_login ''bad'') example_fresh) = reject_for authentication_failed ''corr''"
    unfolding authenticate_attempt
    by (simp add: attempt_eq verify_def issue_session_def auth_reject_def example_auth_defs blank_def is_space_def PLATFORM_AUDIENCE_def)
  then obtain s' where run: "authenticate example_auth_env tenant_user (example_login ''bad'') example_fresh = (reject_for authentication_failed ''corr'', s')"
    by (metis prod.collapse)
  have "ax_trust s' = ax_trust example_fresh" and "\<exists>fact. ax_facts s' = ax_facts example_fresh @ [fact]"
    using authentication_contained [of example_auth_env tenant_user "example_login ''bad''" example_fresh, THEN conjunct1, rule_format, OF run]
      authentication_contained [of example_auth_env tenant_user "example_login ''bad''" example_fresh, THEN conjunct2, THEN conjunct2, THEN conjunct2, rule_format, of 50001]
    by (auto simp only: run snd_conv) (auto simp: example_auth_env_def)
  then show ?thesis using run by (auto simp: example_fresh_def)
qed

theorem credential_single_entry_point_witness:
  "\<exists>r s'. authenticate example_auth_env tenant_user (example_login ''tok'') example_fresh = (Inr r, s') \<and> kind_of tenant_user = kind_interactive \<and>
     (\<forall>s t. authenticate example_auth_env platform_operator (example_login ''tok'') s \<noteq> (Inr r, t))"
proof -
  obtain s' where run: "authenticate example_auth_env tenant_user (example_login ''tok'') example_fresh = (Inr 0, s')" using example_login_run by blast
  have "authenticate example_auth_env platform_operator (example_login ''tok'') s \<noteq> (Inr 0, t)" for s t
    using credential_single_entry_point [OF run, of example_auth_env platform_operator "example_login ''tok''" s 0 t] by auto
  then show ?thesis using run by auto
qed

theorem planes_stay_separate_witness:
  "\<exists>st. session_step\<^sup>*\<^sup>* trust_init st \<and> 0 \<in> set (issuedPrincipals st) \<and>
     (\<forall>input now r st'. ri_principal input = 0 \<longrightarrow> resolveTenantContext input now st \<noteq> (Inr r, st'))"
proof -
  obtain s' where run: "authenticate example_auth_env platform_operator (example_login ''op'') example_fresh = (Inr 0, s')"
    and aud: "p_audiences (principals (ax_trust s') ! 0) = [''sintius-platform'']" using example_operator_run by blast
  have "session_step (ax_trust example_fresh) (ax_trust s')" using run by (rule session_authenticate)
  then have reach: "session_step\<^sup>*\<^sup>* trust_init (ax_trust s')" by (simp add: example_fresh_def r_into_rtranclp)
  moreover have "0 \<in> set (issuedPrincipals (ax_trust s'))" using run by (elim authenticate_Inr) (simp add: with_principal_def)
  ultimately show ?thesis using planes_stay_separate [OF reach] aud by (intro exI [of _ "ax_trust s'"]) auto
qed

end
