(* ===== verification/Http_Headers.thy ===== *)
theory Http_Headers
  imports Authentication Canonical_Json Proration
begin

text \<open>
  The header formats of \<open>apps/api/src/http\<close>: \<open>Authorization: Bearer\<close> (\<open>bearer-authenticator.ts\<close>) with the two
  adapters that feed the authentication service, and \<open>If-Match\<close> and \<open>ETag\<close> (\<open>server.ts\<close>). A header is a string of
  characters; the regular expressions are written as the deterministic scans they denote.

  The lemmas show exactly which headers carry a credential and which one, and that the entity tag the
  server sends for a version is read back as that version.
\<close>

section \<open>Model: bearer credentials\<close>

definition is_blank_char :: "char \<Rightarrow> bool" where
  "is_blank_char c \<longleftrightarrow> c = CHR '' '' \<or> c = CHR 0x09"

text \<open>The class \<open>[A-Za-z0-9\-._~+/]\<close>.\<close>

definition is_token_char :: "char \<Rightarrow> bool" where
  "is_token_char c \<longleftrightarrow> is_upper c \<or> is_lower c \<or> is_digit c \<or> c \<in> {CHR ''-'', CHR ''.'', CHR ''_'', CHR ''~'', CHR ''+'', CHR ''/''}"

text \<open>\<open>/^Bearer[ \t]+([A-Za-z0-9\-._~+/]+=*)[ \t]*$/i\<close>: the classes of neighbouring groups are disjoint, so each
  group takes its longest run.\<close>

definition BEARER :: "string \<Rightarrow> string option" where
  "BEARER h =
     (let rest = drop 6 h; body = dropWhile is_blank_char rest; name = takeWhile is_token_char body; after = dropWhile is_token_char body;
          pad = takeWhile (\<lambda>c. c = CHR ''='') after; tail = dropWhile (\<lambda>c. c = CHR ''='') after
      in if map lower_char (take 6 h) = ''bearer'' \<and> takeWhile is_blank_char rest \<noteq> [] \<and> name \<noteq> [] \<and> list_all is_blank_char tail
         then Some (name @ pad) else None)"

definition MAX_CREDENTIAL_LENGTH :: nat where "MAX_CREDENTIAL_LENGTH = 16 * 1024"

definition bearerCredential :: "string option \<Rightarrow> string \<Rightarrow> string res" where
  "bearerCredential authorization correlationId =
     (case (case authorization of None \<Rightarrow> None | Some h \<Rightarrow> if length h > MAX_CREDENTIAL_LENGTH then None else BEARER h) of
        None \<Rightarrow> reject_for authentication_failed correlationId
      | Some credential \<Rightarrow> Inr credential)"

definition createPlatformBearerAuthenticator :: "auth_env \<Rightarrow> string \<Rightarrow> string option \<Rightarrow> string \<Rightarrow> (auth_state, ref) tx" where
  "createPlatformBearerAuthenticator env providerId authorization correlationId =
     bindT (liftT (bearerCredential authorization correlationId)) (\<lambda>credential.
       authenticatePlatformOperator env \<lparr>ain_providerId = providerId, ain_rawCredential = credential, ain_requiredAudience = PLATFORM_AUDIENCE,
         ain_correlationId = correlationId\<rparr>)"

definition createBearerAuthenticator :: "auth_env \<Rightarrow> string \<Rightarrow> string \<Rightarrow> string option \<Rightarrow> string \<Rightarrow> (auth_state, ref) tx" where
  "createBearerAuthenticator env providerId audience authorization correlationId =
     bindT (liftT (bearerCredential authorization correlationId)) (\<lambda>credential.
       authenticateInteractive env \<lparr>ain_providerId = providerId, ain_rawCredential = credential, ain_requiredAudience = audience,
         ain_correlationId = correlationId\<rparr>)"

section \<open>Model: entity tags\<close>

text \<open>\<open>Number(text)\<close> of at most sixteen decimal digits: exact up to $2^{53}$; above, where doubles are the even
  integers, an odd value goes to the neighbour divisible by four.\<close>

definition js_double :: "nat \<Rightarrow> nat" where
  "js_double n = (if n \<le> 2 ^ 53 \<or> even n then n else if n mod 4 = 1 then n - 1 else n + 1)"

text \<open>\<open>/^(?:W\/)?"([1-9][0-9]{0,15})"$/\<close> on the trimmed header.\<close>

definition if_match_digits :: "string \<Rightarrow> string option" where
  "if_match_digits h =
     (let tag = (if take 2 h = ''W/'' then drop 2 h else h); digits = takeWhile is_digit (drop 1 tag)
      in if take 1 tag = [CHR 0x22] \<and> drop 1 tag = digits @ [CHR 0x22] \<and> digits \<noteq> [] \<and> hd digits \<noteq> CHR ''0'' \<and> length digits \<le> 16
         then Some digits else None)"

definition expectedVersionOf :: "string option \<Rightarrow> int res" where
  "expectedVersionOf header =
     (case (case header of None \<Rightarrow> None | Some h \<Rightarrow> if_match_digits (trim h)) of
        None \<Rightarrow> reject request_validation_failed
      | Some digits \<Rightarrow> Inr (int (js_double (digits_val digits))))"

definition etag :: "int \<Rightarrow> string" where
  "etag version = [CHR 0x22] @ json_int version @ [CHR 0x22]"

section \<open>Which headers carry a credential\<close>

lemma blank_not_token: "is_blank_char c \<Longrightarrow> \<not> is_token_char c \<and> c \<noteq> CHR ''=''"
  by (auto simp: is_blank_char_def is_token_char_def is_upper_def is_lower_def is_digit_def less_eq_char_def)

lemma pad_not_token: "\<not> is_token_char (CHR ''='')"
  by (simp add: is_token_char_def is_upper_def is_lower_def is_digit_def less_eq_char_def)

lemma takeWhile_run:
  assumes "list_all p xs" "ys = [] \<or> \<not> p (hd ys)"
  shows "takeWhile p (xs @ ys) = xs" "dropWhile p (xs @ ys) = ys"
  using assms by (cases ys; simp add: takeWhile_append dropWhile_append list_all_iff)+

text \<open>The shape the expression describes.\<close>

definition bearer_shape :: "string \<Rightarrow> string \<Rightarrow> bool" where
  "bearer_shape h credential \<longleftrightarrow> (\<exists>scheme sep name pad tail. h = scheme @ sep @ name @ pad @ tail \<and> credential = name @ pad \<and>
     length scheme = 6 \<and> map lower_char scheme = ''bearer'' \<and> sep \<noteq> [] \<and> list_all is_blank_char sep \<and>
     name \<noteq> [] \<and> list_all is_token_char name \<and> list_all (\<lambda>c. c = CHR ''='') pad \<and> list_all is_blank_char tail)"

lemma hd_list_all: "list_all p xs \<Longrightarrow> xs \<noteq> [] \<Longrightarrow> p (hd xs)"
  by (cases xs) simp_all

lemma BEARER_shape: "BEARER h = Some credential \<longleftrightarrow> bearer_shape h credential"
proof
  assume "BEARER h = Some credential"
  then have c: "map lower_char (take 6 h) = ''bearer''" "takeWhile is_blank_char (drop 6 h) \<noteq> []"
    "takeWhile is_token_char (dropWhile is_blank_char (drop 6 h)) \<noteq> []"
    "list_all is_blank_char (dropWhile (\<lambda>c. c = CHR ''='') (dropWhile is_token_char (dropWhile is_blank_char (drop 6 h))))"
    "credential = takeWhile is_token_char (dropWhile is_blank_char (drop 6 h)) @
       takeWhile (\<lambda>c. c = CHR ''='') (dropWhile is_token_char (dropWhile is_blank_char (drop 6 h)))"
    by (auto simp: BEARER_def Let_def split: if_splits)
  have "length (take 6 h) = 6" using arg_cong [OF c(1), of length] by simp
  moreover have "list_all p (takeWhile p xs)" for p :: "char \<Rightarrow> bool" and xs by (auto simp: list_all_iff dest: set_takeWhileD)
  moreover have "h = take 6 h @ takeWhile is_blank_char (drop 6 h) @ takeWhile is_token_char (dropWhile is_blank_char (drop 6 h)) @
      takeWhile (\<lambda>c. c = CHR ''='') (dropWhile is_token_char (dropWhile is_blank_char (drop 6 h))) @
      dropWhile (\<lambda>c. c = CHR ''='') (dropWhile is_token_char (dropWhile is_blank_char (drop 6 h)))" by simp
  ultimately show "bearer_shape h credential" unfolding bearer_shape_def using c
    by (intro exI [of _ "take 6 h"] exI [of _ "takeWhile is_blank_char (drop 6 h)"] exI [of _ "takeWhile is_token_char (dropWhile is_blank_char (drop 6 h))"]
        exI [of _ "takeWhile (\<lambda>c. c = CHR ''='') (dropWhile is_token_char (dropWhile is_blank_char (drop 6 h)))"]
        exI [of _ "dropWhile (\<lambda>c. c = CHR ''='') (dropWhile is_token_char (dropWhile is_blank_char (drop 6 h)))"] conjI)
next
  assume "bearer_shape h credential"
  then obtain scheme sep name pad tail where h: "h = scheme @ sep @ name @ pad @ tail" "credential = name @ pad" "length scheme = 6" "map lower_char scheme = ''bearer''"
    and g: "sep \<noteq> []" "list_all is_blank_char sep" "name \<noteq> []" "list_all is_token_char name" "list_all (\<lambda>c. c = CHR ''='') pad" "list_all is_blank_char tail"
    unfolding bearer_shape_def by (elim exE conjE) (rule that; assumption)
  have n: "\<not> is_blank_char (hd name)" using hd_list_all [OF g(4,3)] blank_not_token by blast
  have t: "\<not> is_token_char (hd tail) \<and> hd tail \<noteq> CHR ''=''" if "tail \<noteq> []" using hd_list_all [OF g(6) that] blank_not_token by blast
  have p: "pad @ tail = [] \<or> \<not> is_token_char (hd (pad @ tail))"
    using t hd_list_all [OF g(5)] pad_not_token by (cases pad) auto
  have "takeWhile is_blank_char (sep @ name @ pad @ tail) = sep" "dropWhile is_blank_char (sep @ name @ pad @ tail) = name @ pad @ tail"
    using takeWhile_run [OF g(2), of "name @ pad @ tail"] n g(3) by simp_all
  moreover have "takeWhile is_token_char (name @ pad @ tail) = name" "dropWhile is_token_char (name @ pad @ tail) = pad @ tail"
    using takeWhile_run [OF g(4) p] by simp_all
  moreover have "takeWhile (\<lambda>c. c = CHR ''='') (pad @ tail) = pad" "dropWhile (\<lambda>c. c = CHR ''='') (pad @ tail) = tail"
    using takeWhile_run [OF g(5), of tail] t by auto
  ultimately show "BEARER h = Some credential" using h g by (simp add: BEARER_def Let_def)
qed

lemma bearerCredential_Inr_iff:
  "bearerCredential authorization correlationId = Inr credential \<longleftrightarrow> (\<exists>h. authorization = Some h \<and> length h \<le> 16384 \<and> bearer_shape h credential)"
  by (auto simp: bearerCredential_def MAX_CREDENTIAL_LENGTH_def not_less BEARER_shape [symmetric] split: option.splits if_splits)

section \<open>Properties\<close>

text \<open>Which credential a request carries, exactly. A header yields a credential exactly when it has at most 16384
  characters and is the scheme name in any case, blanks, a token of the permitted characters with optional
  padding, and trailing blanks; the credential is that token with its padding, never blank. Every other request
  is refused with 401 before the authentication service is called.\<close>

theorem bearer_credential_exact:
  "(bearerCredential authorization correlationId = Inr credential \<longleftrightarrow>
      (\<exists>h. authorization = Some h \<and> length h \<le> 16384 \<and> (\<exists>scheme sep name pad tail. h = scheme @ sep @ name @ pad @ tail \<and> credential = name @ pad \<and>
         length scheme = 6 \<and> map lower_char scheme = ''bearer'' \<and> sep \<noteq> [] \<and> list_all is_blank_char sep \<and>
         name \<noteq> [] \<and> list_all is_token_char name \<and> list_all (\<lambda>c. c = CHR ''='') pad \<and> list_all is_blank_char tail))) \<and>
   ((\<nexists>credential. bearerCredential authorization correlationId = Inr credential) \<longrightarrow>
      createBearerAuthenticator env providerId audience authorization correlationId s = (reject_for authentication_failed correlationId, s) \<and>
      createPlatformBearerAuthenticator env providerId authorization correlationId s = (reject_for authentication_failed correlationId, s))"
proof
  show "bearerCredential authorization correlationId = Inr credential \<longleftrightarrow>
      (\<exists>h. authorization = Some h \<and> length h \<le> 16384 \<and> (\<exists>scheme sep name pad tail. h = scheme @ sep @ name @ pad @ tail \<and> credential = name @ pad \<and>
         length scheme = 6 \<and> map lower_char scheme = ''bearer'' \<and> sep \<noteq> [] \<and> list_all is_blank_char sep \<and>
         name \<noteq> [] \<and> list_all is_token_char name \<and> list_all (\<lambda>c. c = CHR ''='') pad \<and> list_all is_blank_char tail))"
    unfolding bearerCredential_Inr_iff bearer_shape_def ..
  show "(\<nexists>credential. bearerCredential authorization correlationId = Inr credential) \<longrightarrow>
      createBearerAuthenticator env providerId audience authorization correlationId s = (reject_for authentication_failed correlationId, s) \<and>
      createPlatformBearerAuthenticator env providerId authorization correlationId s = (reject_for authentication_failed correlationId, s)"
    by (auto simp: bearerCredential_def createBearerAuthenticator_def createPlatformBearerAuthenticator_def bindT_def tx_eval split: option.splits)
qed

theorem bearer_credential_exact_witness:
  "bearerCredential (Some ''bEARER  abc.def== '') ''c'' = Inr ''abc.def=='' \<and>
   createBearerAuthenticator example_auth_env ''idp'' ''api'' (Some ''Basic abc'') ''c'' example_fresh = (reject_for authentication_failed ''c'', example_fresh)"
proof
  have "\<exists>scheme sep name pad tail. ''bEARER  abc.def== '' = scheme @ sep @ name @ pad @ tail \<and> ''abc.def=='' = name @ pad \<and>
         length scheme = 6 \<and> map lower_char scheme = ''bearer'' \<and> sep \<noteq> [] \<and> list_all is_blank_char sep \<and>
         name \<noteq> [] \<and> list_all is_token_char name \<and> list_all (\<lambda>c. c = CHR ''='') pad \<and> list_all is_blank_char tail"
    by (rule exI [of _ "''bEARER''"], rule exI [of _ "''  ''"], rule exI [of _ "''abc.def''"], rule exI [of _ "''==''"],
        rule exI [of _ "'' ''"])
      (simp add: is_blank_char_def is_token_char_def is_upper_def is_lower_def is_digit_def less_eq_char_def lower_char_def char_of_eq_iff take_bit_eq_mod)
  then show "bearerCredential (Some ''bEARER  abc.def== '') ''c'' = Inr ''abc.def==''"
    by (intro bearer_credential_exact [THEN conjunct1, THEN iffD2]) (rule exI [of _ "''bEARER  abc.def== ''"], simp only: conj_assoc simp_thms, simp)
  have "bearerCredential (Some ''Basic abc'') ''c'' = reject_for authentication_failed ''c''"
    by (simp add: bearerCredential_def BEARER_def lower_char_def MAX_CREDENTIAL_LENGTH_def)
  then show "createBearerAuthenticator example_auth_env ''idp'' ''api'' (Some ''Basic abc'') ''c'' example_fresh = (reject_for authentication_failed ''c'', example_fresh)"
    using bearer_credential_exact by force
qed

lemma trim_outer: "\<not> is_space c \<Longrightarrow> \<not> is_space d \<Longrightarrow> trim (c # xs @ [d]) = c # xs @ [d]"
  by (simp add: trim_def)

lemma quote_facts: "\<not> is_space (CHR 0x22)" "\<not> is_digit (CHR 0x22)" "\<not> is_space (CHR ''W'')"
  by (simp_all add: is_space_def is_digit_def less_eq_char_def)

lemma nat_str_tag:
  assumes "1 \<le> n" "n < 10 ^ 16"
  shows "takeWhile is_digit (nat_str n @ [CHR 0x22]) = nat_str n" "nat_str n \<noteq> []" "hd (nat_str n) \<noteq> CHR ''0''" "length (nat_str n) \<le> 16"
proof -
  have "list_all is_digit (nat_str n)" using nat_str_digits by (auto simp: list_all_iff)
  then show "takeWhile is_digit (nat_str n @ [CHR 0x22]) = nat_str n" using quote_facts by (intro takeWhile_run) simp_all
  show "nat_str n \<noteq> []" by (rule nat_str_nonempty)
  show "hd (nat_str n) \<noteq> CHR ''0''" using nat_str_hd assms(1) by simp
  show "length (nat_str n) \<le> 16" using length_nat_str_le_iff assms by simp
qed

lemma if_match_etag:
  assumes "1 \<le> v" "v < 10 ^ 16"
  shows "if_match_digits (etag v) = Some (nat_str (nat v))" "if_match_digits (''W/'' @ etag v) = Some (nat_str (nat v))"
proof -
  have n: "1 \<le> nat v" "nat v < 10 ^ 16" using assms by simp_all
  have e: "etag v = [CHR 0x22] @ nat_str (nat v) @ [CHR 0x22]" using assms(1) by (simp add: etag_def json_int_def)
  show "if_match_digits (etag v) = Some (nat_str (nat v))" "if_match_digits (''W/'' @ etag v) = Some (nat_str (nat v))"
    using nat_str_tag [OF n] by (simp_all add: if_match_digits_def e)
qed

lemma digits_val_positive: "list_all is_digit ds \<Longrightarrow> ds \<noteq> [] \<Longrightarrow> hd ds \<noteq> CHR ''0'' \<Longrightarrow> 1 \<le> digits_val ds"
  using nat_str_digits_val [of ds] by (cases "digits_val ds = 0") auto

text \<open>The entity tag of a version is read back as that version. For every version from 1 to $2^{53}$, the tag the
  server sends, strong or weak, is accepted in \<open>If-Match\<close> and denotes exactly that version; and whatever header is
  accepted denotes a version of at least 1 and at most $10^{16}$.\<close>

theorem etag_round_trip:
  "(1 \<le> v \<and> v \<le> 2 ^ 53 \<longrightarrow> expectedVersionOf (Some (etag v)) = Inr v \<and> expectedVersionOf (Some (''W/'' @ etag v)) = Inr v) \<and>
   (expectedVersionOf header = Inr w \<longrightarrow> 1 \<le> w \<and> w \<le> 10 ^ 16)"
proof (intro conjI impI)
  assume v: "1 \<le> v \<and> v \<le> 2 ^ 53"
  have tags: "trim (etag v) = etag v" "trim (''W/'' @ etag v) = ''W/'' @ etag v"
    using trim_outer [of "CHR 0x22" "CHR 0x22" "json_int v"] trim_outer [of "CHR ''W''" "CHR 0x22" "CHR ''/'' # CHR 0x22 # json_int v"] quote_facts by (simp_all add: etag_def)
  have d: "js_double (nat v) = nat v" using v by (auto simp: js_double_def nat_le_iff)
  have m: "if_match_digits (etag v) = Some (nat_str (nat v))" "if_match_digits (''W/'' @ etag v) = Some (nat_str (nat v))"
    using if_match_etag [of v] v by simp_all
  show "expectedVersionOf (Some (etag v)) = Inr v" unfolding expectedVersionOf_def using m v by (simp add: tags digits_val_nat_str d)
  show "expectedVersionOf (Some (''W/'' @ etag v)) = Inr v"
    unfolding expectedVersionOf_def option.case tags(2) m(2) using v by (simp add: digits_val_nat_str d)
next
  assume "expectedVersionOf header = Inr w"
  then obtain h ds where m: "if_match_digits h = Some ds" and w: "w = int (js_double (digits_val ds))"
    by (auto simp: expectedVersionOf_def split: option.splits)
  have "\<exists>tag. ds = takeWhile is_digit tag" and ds: "ds \<noteq> []" "hd ds \<noteq> CHR ''0''" "length ds \<le> 16"
    using m by (auto simp: if_match_digits_def Let_def split: if_splits) metis+
  then have dg: "list_all is_digit ds" by (auto simp: list_all_iff dest: set_takeWhileD)
  have "(10::nat) ^ length ds \<le> 10 ^ 16" using ds(3) by (rule power_increasing) simp
  then have "1 \<le> digits_val ds" "digits_val ds < 10 ^ 16"
    using digits_val_positive [OF dg ds(1,2)] digits_val_less [OF dg] by linarith+
  then show "1 \<le> w" "w \<le> 10 ^ 16" by (auto simp: w js_double_def)
qed

theorem etag_round_trip_witness: "expectedVersionOf (Some (etag 12)) = Inr 12"
  using etag_round_trip [of 12 None 0] by simp

end
