(* ===== verification/Foundation_Proof.thy ===== *)
theory Foundation_Proof
  imports Tenant_Commands
begin

text \<open>
  \<open>modules/foundation-proof\<close>: the diagnostic command that exercises every foundation control in one tenant
  transaction. It normalizes its label, builds the record and the event from the ambient context, and hands
  record, audit fact and event to the idempotent executor. The module's tables are the proof records beside
  the audit and outbox tables; the foreign key to the tenant table is kept as the set of existing tenants.

  The lemmas show that a call either leaves the whole database alone or stores one record, one audit event
  and one outbox event of the calling tenant together.
\<close>

section \<open>Model: persistence\<close>

definition FOUNDATION_PROOF_PERMISSION :: string where "FOUNDATION_PROOF_PERMISSION = ''foundation:proof:execute''"

record proof_record =
  fp_tenantId :: string
  fp_proofRecordId :: string
  fp_label :: string
  fp_actorId :: string
  fp_correlationId :: string
  fp_recordedAt :: instant

record proof_db =
  pd_tenants :: "string set"
  pd_records :: "proof_record list"
  pd_audit :: "audit_event list"
  pd_outbox :: queue_table

text \<open>\<open>btrim(x) = ''\<close>: nothing but spaces.\<close>

definition only_spaces :: "string \<Rightarrow> bool" where
  "only_spaces v = list_all (\<lambda>c. c = CHR '' '') v"

definition records_insert :: "string \<Rightarrow> proof_record \<Rightarrow> (proof_db, unit) tx" where
  "records_insert bound r = guarded (fp_tenantId r) bound (\<lambda>s.
     if list_ex only_spaces [fp_proofRecordId r, fp_label r, fp_actorId r, fp_correlationId r] \<or> fp_tenantId r \<notin> pd_tenants s \<or>
        list_ex (\<lambda>x. fp_tenantId x = fp_tenantId r \<and> fp_proofRecordId x = fp_proofRecordId r) (pd_records s)
     then (Inl Error, s)
     else (Inr (), s\<lparr>pd_records := pd_records s @ [r]\<rparr>))"

definition proof_audit_append :: "string \<Rightarrow> audit_event \<Rightarrow> (proof_db, unit) tx" where
  "proof_audit_append bound event = guarded (au_tenantId event) bound (\<lambda>s.
     case appendAuditEvent event (pd_audit s) of (r, a) \<Rightarrow> (r, s\<lparr>pd_audit := a\<rparr>))"

definition proof_outbox_append :: "string \<Rightarrow> event_envelope \<Rightarrow> (proof_db, unit) tx" where
  "proof_outbox_append bound env = guarded (ev_tenant_id env) bound (\<lambda>s.
     case appendOutboxEvent env (pd_outbox s) of (r, q) \<Rightarrow> (r, s\<lparr>pd_outbox := q\<rparr>))"

section \<open>Model: the command\<close>

definition FOUNDATION_PROOF_AUDIT_FIELDS :: "string list" where "FOUNDATION_PROOF_AUDIT_FIELDS = [''label'']"

record proof_env =
  fe_authorizer :: "string \<Rightarrow> unit res"
  fe_audit :: audit_deps
  fe_sha256 :: "string \<Rightarrow> string"
  fe_now :: date
  fe_executorNow :: date
  fe_auditNow :: date
  fe_proofRecordId :: string
  fe_eventId :: string
  fe_auditId :: string

record proof_result =
  pr_proofRecordId :: string
  pr_label :: string
  pr_recordedAt :: string

definition normalizedLabel :: "string \<Rightarrow> string \<Rightarrow> string res" where
  "normalizedLabel v correlationId =
     (let label = trim v in if length label = 0 \<or> length label > 200 then reject_for invalid_trusted_context correlationId else Inr label)"

definition resultFrom :: "stored_response \<Rightarrow> string \<Rightarrow> proof_result res" where
  "resultFrom response correlationId =
     (case sr_body response of
        JObject body \<Rightarrow>
          if sr_status response \<noteq> Num 201 then reject_for invalid_trusted_context correlationId
          else (case (map_of body ''proof_record_id'', map_of body ''label'', map_of body ''recorded_at'') of
            (Some (JString i), Some (JString label), Some (JString recordedAt)) \<Rightarrow>
              Inr \<lparr>pr_proofRecordId = i, pr_label = label, pr_recordedAt = recordedAt\<rparr>
          | _ \<Rightarrow> reject_for invalid_trusted_context correlationId)
      | _ \<Rightarrow> reject_for invalid_trusted_context correlationId)"

definition proof_event :: "string \<Rightarrow> string \<Rightarrow> date \<Rightarrow> build_event_input" where
  "proof_event proofRecordId label recordedAt =
     \<lparr>be_eventType = ''foundation.proof_recorded.v1'', be_sourceContext = ''foundation-proof'', be_aggregateType = ''FoundationProofRecord'',
      be_aggregateId = proofRecordId, be_aggregateVersion = Num 1, be_occurredAt = recordedAt, be_classification = INTERNAL_OPERATIONAL,
      be_data = JObject [(''proof_record_id'', JString proofRecordId), (''label'', JString label)], be_dataschema = None, be_subject = None\<rparr>"

definition proof_audit :: "string \<Rightarrow> string \<Rightarrow> date \<Rightarrow> audit_input" where
  "proof_audit proofRecordId label recordedAt =
     \<lparr>ai_action = ''foundation.proof_recorded'', ai_targetType = ''ProofRecord'', ai_targetId = proofRecordId, ai_reason = None, ai_approvalId = None,
      ai_before = None, ai_after = Some [(''label'', JString label)], ai_occurredAt = Some recordedAt\<rparr>"

definition proof_work :: "proof_env \<Rightarrow> tenant_context \<Rightarrow> proof_record \<Rightarrow> event_envelope \<Rightarrow> (proof_db, stored_response) tx" where
  "proof_work env context r envelope =
     bindT (records_insert (tc_tenantId context) r) (\<lambda>_.
     bindT (recordForCurrentContext (fe_audit env) (proof_audit_append (tc_tenantId context)) (Some context)
       (proof_audit (fp_proofRecordId r) (fp_label r) (fe_now env)) (fe_auditNow env) (fe_auditId env)) (\<lambda>_.
     bindT (proof_outbox_append (tc_tenantId context) envelope) (\<lambda>_. returnT
       \<lparr>sr_status = Num 201, sr_body = JObject [(''proof_record_id'', JString (fp_proofRecordId r)), (''label'', JString (fp_label r)),
          (''recorded_at'', JString (iso_text (fp_recordedAt r)))]\<rparr>)))"

definition recordFoundationProof :: "proof_env \<Rightarrow> tenant_context option \<Rightarrow> string \<Rightarrow> string option \<Rightarrow> (idem_table \<times> proof_db, proof_result) tx" where
  "recordFoundationProof env ambient input_label key =
     bindT (liftT (currentTenantContext ambient)) (\<lambda>context.
     bindT (liftT (normalizedLabel input_label (tc_correlationId context))) (\<lambda>label.
     bindT (liftT (toISOString (fe_now env))) (\<lambda>recordedAt.
     let r = \<lparr>fp_tenantId = tc_tenantId context, fp_proofRecordId = fe_proofRecordId env, fp_label = label, fp_actorId = tc_actorId context,
              fp_correlationId = tc_correlationId context, fp_recordedAt = recordedAt\<rparr> in
     bindT (liftT (buildEventEnvelope ambient (proof_event (fe_proofRecordId env) label (fe_now env)) (fe_now env) (fe_eventId env))) (\<lambda>envelope.
     bindT (createIdempotentExecutor (pg_store (tc_tenantId context)) (fe_sha256 env) (fe_executorNow env) DEFAULT_RETENTION_SECONDS ambient
       \<lparr>rq_scope = ''foundation.proof.record'', rq_key = key, rq_payload = JObject [(''label'', JString label)]\<rparr>
       (liftT (fe_authorizer env FOUNDATION_PROOF_PERMISSION)) (outside_table (proof_work env context r envelope))) (\<lambda>(response, replayed).
       liftT (resultFrom response (tc_correlationId context)))))))"

section \<open>What a call does\<close>

lemma records_insert_Inr:
  "records_insert bound r s = (Inr (), s') \<Longrightarrow> fp_tenantId r = bound \<and> bound \<in> pd_tenants s \<and> s' = s\<lparr>pd_records := pd_records s @ [r]\<rparr> \<and>
     (\<forall>x\<in>set (pd_records s). (fp_tenantId x, fp_proofRecordId x) \<noteq> (fp_tenantId r, fp_proofRecordId r))"
  by (auto simp: records_insert_def guarded_Inr_iff list_ex_iff split: if_splits)

lemma proof_audit_append_Inr: "proof_audit_append bound e s = (Inr (), s') \<Longrightarrow> au_tenantId e = bound \<and> s' = s\<lparr>pd_audit := pd_audit s @ [e]\<rparr>"
  by (auto simp: proof_audit_append_def guarded_Inr_iff appendAuditEvent_def split: if_splits)

lemma proof_outbox_append_Inr:
  "proof_outbox_append bound env s = (Inr (), s') \<Longrightarrow> ev_tenant_id env = bound \<and>
     (\<exists>q row. s' = s\<lparr>pd_outbox := q\<rparr> \<and> q_entries q = q_entries (pd_outbox s) @ [row] \<and> oe_envelope row = env)"
  by (auto simp: proof_outbox_append_def guarded_Inr_iff appendOutboxEvent_def new_entry_def split: if_splits)

text \<open>The whole effect of a recorded proof on the module's tables.\<close>

definition proof_effect :: "tenant_context \<Rightarrow> proof_record \<Rightarrow> proof_db \<Rightarrow> proof_db \<Rightarrow> bool" where
  "proof_effect context r db db' \<longleftrightarrow>
     fp_tenantId r = tc_tenantId context \<and> fp_actorId r = tc_actorId context \<and> fp_correlationId r = tc_correlationId context \<and>
     (\<forall>x\<in>set (pd_records db). (fp_tenantId x, fp_proofRecordId x) \<noteq> (fp_tenantId r, fp_proofRecordId r)) \<and>
     pd_records db' = pd_records db @ [r] \<and>
     (\<exists>a. pd_audit db' = pd_audit db @ [a] \<and> au_tenantId a = tc_tenantId context \<and> au_action a = ''foundation.proof_recorded'' \<and>
        au_targetId a = fp_proofRecordId r) \<and>
     (\<exists>row. q_entries (pd_outbox db') = q_entries (pd_outbox db) @ [row] \<and> ev_tenant_id (oe_envelope row) = tc_tenantId context \<and>
        ev_aggregate_id (oe_envelope row) = fp_proofRecordId r \<and> ev_type (oe_envelope row) = ''com.subrevos.foundation.proof_recorded.v1'')"

lemma proof_envelope:
  assumes "buildEventEnvelope ambient (proof_event i label now) now newId = Inr e"
  shows "ev_aggregate_id e = i \<and> ev_type e = ''com.subrevos.foundation.proof_recorded.v1''"
  using assms by (auto simp: buildEventEnvelope_def bindR_Inr_iff buildEventEnvelopeFor_Inr_iff envelope_of_def proof_event_def)

lemma proof_work_effect:
  assumes run: "proof_work env context r envelope db = (Inr resp, db')"
    and r: "fp_actorId r = tc_actorId context" "fp_correlationId r = tc_correlationId context"
    and e: "ev_aggregate_id envelope = fp_proofRecordId r" "ev_type envelope = ''com.subrevos.foundation.proof_recorded.v1''"
  shows "proof_effect context r db db' \<and> resultFrom resp corr = Inr \<lparr>pr_proofRecordId = fp_proofRecordId r, pr_label = fp_label r, pr_recordedAt = iso_text (fp_recordedAt r)\<rparr>"
proof -
  obtain db1 db2 ev where i: "records_insert (tc_tenantId context) r db = (Inr (), db1)"
    and a: "recordForCurrentContext (fe_audit env) (proof_audit_append (tc_tenantId context)) (Some context)
       (proof_audit (fp_proofRecordId r) (fp_label r) (fe_now env)) (fe_auditNow env) (fe_auditId env) db1 = (Inr ev, db2)"
    and o: "proof_outbox_append (tc_tenantId context) envelope db2 = (Inr (), db')"
    and resp: "resp = \<lparr>sr_status = Num 201, sr_body = JObject [(''proof_record_id'', JString (fp_proofRecordId r)), (''label'', JString (fp_label r)),
          (''recorded_at'', JString (iso_text (fp_recordedAt r)))]\<rparr>"
    using run by (auto simp: proof_work_def bindT_Inr_iff)
  have ev: "proof_audit_append (tc_tenantId context) ev db1 = (Inr (), db2)" "au_action ev = ''foundation.proof_recorded''" "au_targetId ev = fp_proofRecordId r"
    using a by (auto simp: recordForCurrentContext_def bindT_Inr_iff recordForScope_Inr_iff unsealed_event_def proof_audit_def elim!: build_audit_event_Inr)
  show ?thesis
    using records_insert_Inr [OF i] proof_audit_append_Inr [OF ev(1)] ev(2,3) proof_outbox_append_Inr [OF o] r e
    by (auto simp: proof_effect_def resp resultFrom_def)
qed

lemma proof_run:
  assumes "recordFoundationProof env ambient input_label key s = (res, s')"
  shows "s' = s \<or> (\<exists>context r. ambient = Some context \<and> fe_authorizer env ''foundation:proof:execute'' = Inr () \<and>
    proof_effect context r (snd s) (snd s') \<and> fp_label r = trim input_label \<and> 1 \<le> length (fp_label r) \<and> length (fp_label r) \<le> 200 \<and>
    res = Inr \<lparr>pr_proofRecordId = fp_proofRecordId r, pr_label = fp_label r, pr_recordedAt = iso_text (fp_recordedAt r)\<rparr>)"
proof (cases "\<exists>context label t e. ambient = Some context \<and> normalizedLabel input_label (tc_correlationId context) = Inr label \<and> fe_now env = Some t \<and>
    buildEventEnvelope ambient (proof_event (fe_proofRecordId env) label (fe_now env)) (fe_now env) (fe_eventId env) = Inr e")
  case False
  then have "s' = s"
    using assms by (auto simp: recordFoundationProof_def bindT_def liftT_def currentTenantContext_def toISOString_def Let_def split: option.splits sum.splits)
  then show ?thesis ..
next
  case True
  then obtain ctx label t e where c: "ambient = Some ctx" and l: "normalizedLabel input_label (tc_correlationId ctx) = Inr label" and t: "fe_now env = Some t"
    and e: "buildEventEnvelope ambient (proof_event (fe_proofRecordId env) label (fe_now env)) (fe_now env) (fe_eventId env) = Inr e" by blast
  define r where "r = \<lparr>fp_tenantId = tc_tenantId ctx, fp_proofRecordId = fe_proofRecordId env, fp_label = label, fp_actorId = tc_actorId ctx,
              fp_correlationId = tc_correlationId ctx, fp_recordedAt = t\<rparr>"
  obtain out s1 where x: "executeUntraced (pg_store (tc_tenantId ctx)) (fe_sha256 env) (fe_executorNow env) DEFAULT_RETENTION_SECONDS
      \<lparr>ex_tenantId = tc_tenantId ctx, ex_correlationId = tc_correlationId ctx, ex_causationId = tc_causationId ctx\<rparr>
      \<lparr>rq_scope = ''foundation.proof.record'', rq_key = key, rq_payload = JObject [(''label'', JString label)]\<rparr>
      (liftT (fe_authorizer env FOUNDATION_PROOF_PERMISSION)) (outside_table (proof_work env ctx r e)) s = (out, s1)" by (metis surj_pair)
  have s': "s' = s1" "\<And>resp replayed. out = Inr (resp, replayed) \<Longrightarrow> res = resultFrom resp (tc_correlationId ctx)"
    using assms unfolding recordFoundationProof_def
    by (auto simp: c currentTenantContext_def l t e [unfolded c t] bindT_def [of "liftT _"] tx_eval createIdempotentExecutor_def r_def [symmetric] x
        bindT_def [of "executeUntraced _ _ _ _ _ _ _ _"] split: sum.splits)
  from executor_effect [OF x]
  have "s1 = s \<or> (\<exists>resp. proof_work env ctx r e (snd s) = (Inr resp, snd s1) \<and> out = Inr (resp, False) \<and> fe_authorizer env FOUNDATION_PROOF_PERMISSION = Inr ())"
    by blast
  then show ?thesis
  proof
    assume "s1 = s"
    then show ?thesis using s'(1) by simp
  next
    assume "\<exists>resp. proof_work env ctx r e (snd s) = (Inr resp, snd s1) \<and> out = Inr (resp, False) \<and> fe_authorizer env FOUNDATION_PROOF_PERMISSION = Inr ()"
    then obtain resp where w: "proof_work env ctx r e (snd s) = (Inr resp, snd s1)" "out = Inr (resp, False)" "fe_authorizer env ''foundation:proof:execute'' = Inr ()"
      by (auto simp: FOUNDATION_PROOF_PERMISSION_def)
    have "fp_label r = trim input_label" "1 \<le> length (fp_label r)" "length (fp_label r) \<le> 200"
      using l by (auto simp: r_def normalizedLabel_def Let_def not_less Suc_le_eq split: if_splits)
    moreover have "proof_effect ctx r (snd s) (snd s1) \<and> resultFrom resp (tc_correlationId ctx) =
        Inr \<lparr>pr_proofRecordId = fp_proofRecordId r, pr_label = fp_label r, pr_recordedAt = iso_text (fp_recordedAt r)\<rparr>"
      by (rule proof_work_effect [OF w(1)]) (use proof_envelope [OF e] in \<open>simp_all add: r_def\<close>)
    ultimately show ?thesis using c w(3) s'(1) s'(2) [OF w(2)] by (intro disjI2 exI [of _ ctx] exI [of _ r]) simp
  qed
qed

section \<open>Properties\<close>

text \<open>A proof is recorded completely or not at all. Whatever a call returns, either the whole database is as before, or
  the caller holds the proof permission and exactly one new record of the calling tenant, actor and
  correlation was stored, together with one audit event and one outbox event about it and with the
  idempotency record of the call; the call then returns that record, and its label is the trimmed input of
  1 to 200 characters.\<close>

theorem proof_recorded_atomically:
  assumes "recordFoundationProof env ambient input_label key s = (res, s')"
  shows "s' = s \<or> (\<exists>context r. ambient = Some context \<and> fe_authorizer env ''foundation:proof:execute'' = Inr () \<and>
    proof_effect context r (snd s) (snd s') \<and> fp_label r = trim input_label \<and> 1 \<le> length (fp_label r) \<and> length (fp_label r) \<le> 200 \<and>
    res = Inr \<lparr>pr_proofRecordId = fp_proofRecordId r, pr_label = fp_label r, pr_recordedAt = iso_text (fp_recordedAt r)\<rparr>)"
  using assms by (rule proof_run)

section \<open>A concrete proof\<close>

definition example_proof_env :: proof_env where
  "example_proof_env = \<lparr>fe_authorizer = (\<lambda>_. Inr ()), fe_audit = \<lparr>ad_policy = [(''ProofRecord'', FOUNDATION_PROOF_AUDIT_FIELDS)], ad_redact = id, ad_sha256 = id\<rparr>,
     fe_sha256 = id, fe_now = Some 5, fe_executorNow = Some 6, fe_auditNow = Some 7, fe_proofRecordId = ''p1'', fe_eventId = ''e1'', fe_auditId = ''a1''\<rparr>"

definition example_proof_db :: proof_db where
  "example_proof_db = \<lparr>pd_tenants = {''t:1''}, pd_records = [], pd_audit = [], pd_outbox = \<lparr>q_entries = [], q_next = 1\<rparr>\<rparr>"

definition example_proof :: proof_record where
  "example_proof = \<lparr>fp_tenantId = ''t:1'', fp_proofRecordId = ''p1'', fp_label = ''hi'', fp_actorId = ''a'', fp_correlationId = ''r'', fp_recordedAt = 5\<rparr>"

text \<open>What the example needs of its readings and of the calling context.\<close>

definition proof_ready :: "proof_env \<Rightarrow> tenant_context \<Rightarrow> bool" where
  "proof_ready env c \<longleftrightarrow> fe_authorizer env FOUNDATION_PROOF_PERMISSION = Inr () \<and> allowedFields (ad_policy (fe_audit env)) ''ProofRecord'' \<noteq> None \<and> fe_sha256 env = id \<and>
     fe_now env = Some 5 \<and> fe_executorNow env = Some 6 \<and> fe_auditNow env = Some 7 \<and> fe_proofRecordId env = ''p1'' \<and> fe_eventId env = ''e1'' \<and> fe_auditId env = ''a1'' \<and>
     tc_tenantId c = ''t:1'' \<and> tc_actorId c = ''a'' \<and> tc_correlationId c = ''r''"

lemma example_proof_ready: "proof_ready example_proof_env (example_context ''t:1'')"
  by (simp add: proof_ready_def example_proof_env_def example_context_def allowedFields_def)

lemma example_proof_audited:
  "\<exists>ev. recordForCurrentContext (fe_audit env) (proof_audit_append ''t:1'') (Some c) (proof_audit ''p1'' ''hi'' (Some 5)) (Some 7) ''a1'' db =
     (Inr ev, db\<lparr>pd_audit := [ev]\<rparr>)" if ready: "proof_ready env c" and "pd_audit db = []"
proof -
  have "\<exists>ev. build_audit_event (fe_audit env) (scope_of_context c) (proof_audit ''p1'' ''hi'' (Some 5)) (Some 7) ''a1'' = Inr ev"
    by (rule build_audit_event_ok [where recorded = 7 and occurred = 5])
       (use ready in \<open>simp_all add: proof_audit_def matches_action_def is_lower_def is_field_char_def is_digit_def less_eq_char_def blank_def is_space_def
         proof_ready_def\<close>)
  then obtain ev where ev: "build_audit_event (fe_audit env) (scope_of_context c) (proof_audit ''p1'' ''hi'' (Some 5)) (Some 7) ''a1'' = Inr ev"
    by blast
  have t: "au_tenantId ev = ''t:1''" using ev ready by (auto simp: unsealed_event_def scope_of_context_def proof_ready_def elim!: build_audit_event_Inr)
  have "proof_audit_append ''t:1'' ev db = (Inr (), db\<lparr>pd_audit := [ev]\<rparr>)"
    using that(2) by (simp add: proof_audit_append_def guarded_def assertTenantMatch_def t bindT_def tx_eval appendAuditEvent_def)
  then have "recordForScope (fe_audit env) (proof_audit_append ''t:1'') (scope_of_context c) (proof_audit ''p1'' ''hi'' (Some 5)) (Some 7) ''a1'' db =
      (Inr ev, db\<lparr>pd_audit := [ev]\<rparr>)" using ev by (simp add: recordForScope_Inr_iff)
  then show ?thesis by (simp add: recordForCurrentContext_def eventScopeFromCurrentContext_def currentTenantContext_def bindT_def tx_eval)
qed

lemma example_proof_event:
  assumes ready: "proof_ready env c"
  shows "\<exists>e. buildEventEnvelope (Some c) (proof_event ''p1'' ''hi'' (Some 5)) (Some 5) ''e1'' = Inr e \<and> ev_tenant_id e = ''t:1''"
proof -
  let ?s = "scope_of_context c" and ?i = "proof_event ''p1'' ''hi'' (Some 5)"
  have "matches_event_type ''foundation.proof_recorded.v1''" "matches_source_context ''foundation-proof''"
    by (simp_all add: matches_event_type_def matches_source_context_def matches_head_tail_def is_fact_char_def is_lower_def is_digit_def less_eq_char_def)
  moreover have "\<not> containsTenantIdentity (JObject [(''proof_record_id'', JString ''p1''), (''label'', JString ''hi'')])" by code_simp
  ultimately have "buildable ?s ?i (Some 5) ''e1'' 1 5 5"
    by (simp add: buildable_def proof_event_def js_integer_def blank_def is_space_def assertJsonCompatible.simps)
  then have "buildEventEnvelopeFor ?s ?i (Some 5) ''e1'' = Inr (envelope_of ?s ?i ''e1'' 1 5 5)" by (auto simp: buildEventEnvelopeFor_Inr_iff)
  then show ?thesis
    using ready by (simp add: buildEventEnvelope_def eventScopeFromCurrentContext_def currentTenantContext_def envelope_of_def scope_of_context_def proof_ready_def)
qed

lemma example_proof_prepared:
  "\<exists>h. prepare_request id ctx \<lparr>rq_scope = ''foundation.proof.record'', rq_key = Some sample_key, rq_payload = JObject [(''label'', JString ''hi'')]\<rparr> =
     Inr (map lower_char sample_key, h)"
proof -
  let ?p = "JObject [(''label'', JString ''hi'')]"
  have "\<exists>t. canonicalJson ?p 1 = Inr t" by (rule canonicalJson_flat_object) (auto simp: MAX_DEPTH_def intro: scalar_string)
  moreover have "\<exists>t. canonicalJson (JString s) 1 = Inr t" for s using canonicalJson_scalar [OF scalar_string] by (simp add: MAX_DEPTH_def)
  ultimately have "\<exists>t. canonicalJson (JObject [(''scope'', JString ''foundation.proof.record''), (''payload'', ?p)]) 0 = Inr t"
    by (intro canonicalJson_object) (auto simp: MAX_DEPTH_def)
  then obtain h where h: "canonicalRequestHash id ''foundation.proof.record'' ?p = Inr h" by (auto simp: canonicalRequestHash_def)
  have "\<not> containsTenantIdentity ?p" by code_simp
  moreover have "matches_scope ''foundation.proof.record''"
    by (simp add: matches_scope_def matches_head_tail_def is_scope_char_def is_name_char_def is_lower_def is_digit_def less_eq_char_def)
  ultimately show ?thesis using h sample_key_ok(1) by (simp add: prepare_request_Inr)
qed

lemma example_proof_work:
  assumes ready: "proof_ready env c" and "ev_tenant_id envelope = ''t:1''"
  shows "\<exists>db'. proof_work env c example_proof envelope example_proof_db =
    (Inr \<lparr>sr_status = Num 201, sr_body = JObject [(''proof_record_id'', JString ''p1''), (''label'', JString ''hi''), (''recorded_at'', JString (iso_text 5))]\<rparr>, db') \<and>
    pd_records db' = [example_proof]"
proof -
  let ?db = "example_proof_db\<lparr>pd_records := [example_proof]\<rparr>"
  obtain ev where ev: "recordForCurrentContext (fe_audit env) (proof_audit_append ''t:1'') (Some c) (proof_audit ''p1'' ''hi'' (Some 5)) (Some 7)
      ''a1'' ?db = (Inr ev, ?db\<lparr>pd_audit := [ev]\<rparr>)" using example_proof_audited [OF ready, of ?db] by (auto simp: example_proof_db_def)
  have i: "records_insert ''t:1'' example_proof example_proof_db = (Inr (), ?db)"
    by (simp add: records_insert_def guarded_def assertTenantMatch_def bindT_def tx_eval example_proof_def example_proof_db_def only_spaces_def)
  have f: "fp_proofRecordId example_proof = ''p1''" "fp_label example_proof = ''hi''" "fp_recordedAt example_proof = 5" "tc_tenantId c = ''t:1''"
    "fe_now env = Some 5" "fe_auditNow env = Some 7" "fe_auditId env = ''a1''"
    using ready by (simp_all add: example_proof_def proof_ready_def)
  have o: "\<exists>q. proof_outbox_append ''t:1'' envelope (?db\<lparr>pd_audit := [ev]\<rparr>) = (Inr (), ?db\<lparr>pd_audit := [ev], pd_outbox := q\<rparr>)"
    by (simp add: proof_outbox_append_def guarded_def assertTenantMatch_def assms(2) bindT_def tx_eval appendOutboxEvent_def example_proof_db_def)
  then show ?thesis
    by (auto simp: proof_work_def f bindT_def [of "records_insert _ _"] i bindT_def [of "recordForCurrentContext _ _ _ _ _ _"] ev bindT_def [of "proof_outbox_append _ _"] tx_eval)
qed

lemma example_proof_run:
  assumes ready: "proof_ready env c"
  shows "\<exists>r s'. recordFoundationProof env (Some c) '' hi '' (Some sample_key) (Map.empty, example_proof_db) = (Inr r, s') \<and>
     pd_records (snd s') = [example_proof]"
proof -
  let ?c = c
  let ?scope = "\<lparr>ex_tenantId = tc_tenantId ?c, ex_correlationId = tc_correlationId ?c, ex_causationId = tc_causationId ?c\<rparr>"
  let ?req = "\<lparr>rq_scope = ''foundation.proof.record'', rq_key = Some sample_key, rq_payload = JObject [(''label'', JString ''hi'')]\<rparr>"
  let ?resp = "\<lparr>sr_status = Num 201, sr_body = JObject [(''proof_record_id'', JString ''p1''), (''label'', JString ''hi''), (''recorded_at'', JString (iso_text 5))]\<rparr>"
  obtain e where e: "buildEventEnvelope (Some ?c) (proof_event ''p1'' ''hi'' (Some 5)) (Some 5) ''e1'' = Inr e" "ev_tenant_id e = ''t:1''" using example_proof_event [OF ready] by blast
  obtain db' where w: "proof_work env ?c example_proof e example_proof_db = (Inr ?resp, db')" "pd_records db' = [example_proof]"
    using example_proof_work [OF ready e(2)] by blast
  obtain h where h: "prepare_request id ?scope ?req = Inr (map lower_char sample_key, h)" using example_proof_prepared by blast
  have c: "tc_tenantId ?c = ''t:1''" "tc_actorId ?c = ''a''" "tc_correlationId ?c = ''r''" using ready by (simp_all add: proof_ready_def)
  have env: "fe_sha256 env = id" "fe_now env = Some 5" "fe_executorNow env = Some 6" "fe_proofRecordId env = ''p1''"
    "fe_eventId env = ''e1''" "fe_authorizer env FOUNDATION_PROOF_PERMISSION = Inr ()" using ready by (simp_all add: proof_ready_def)
  have "\<exists>t. canonicalJson (sr_body ?resp) 0 = Inr t"
    by simp (rule canonicalJson_flat_object, auto simp: MAX_DEPTH_def scalar_def js_finite_def)
  moreover have "claim_instants (Some 6) DEFAULT_RETENTION_SECONDS = Inr (6, 604800006)"
    by (simp add: claim_instants_def mkDate_def DEFAULT_RETENTION_SECONDS_def)
  ultimately have "\<exists>s'. executeUntraced (pg_store ''t:1'') id (Some 6) DEFAULT_RETENTION_SECONDS ?scope ?req (liftT (Inr ()))
      (outside_table (proof_work env ?c example_proof e)) (Map.empty, example_proof_db) = (Inr (?resp, False), s') \<and> snd s' = db'"
    using h w(1) by (auto simp: executeUntraced_def bindT_def tx_eval runInTransaction_def pg_store_def pg_claim_cases pg_complete_cases claim_of_def settle_def
        outside_table_def js_integer_def c assertT_def)
  then obtain s' where x: "executeUntraced (pg_store ''t:1'') id (Some 6) DEFAULT_RETENTION_SECONDS ?scope ?req (liftT (Inr ()))
      (outside_table (proof_work env ?c example_proof e)) (Map.empty, example_proof_db) = (Inr (?resp, False), s')" "snd s' = db'" by blast
  have l: "normalizedLabel '' hi '' ''r'' = Inr ''hi''" by (simp add: normalizedLabel_def trim_def is_space_def)
  have r: "\<lparr>fp_tenantId = ''t:1'', fp_proofRecordId = ''p1'', fp_label = ''hi'', fp_actorId = ''a'', fp_correlationId = ''r'', fp_recordedAt = 5\<rparr> = example_proof"
    by (simp add: example_proof_def)
  have "recordFoundationProof env (Some ?c) '' hi '' (Some sample_key) (Map.empty, example_proof_db) =
      (resultFrom ?resp ''r'', s')"
    by (simp add: recordFoundationProof_def currentTenantContext_def bindT_def [of "liftT _"] tx_eval c l env r e(1) createIdempotentExecutor_def
        bindT_def [of "executeUntraced _ _ _ _ _ _ _ _"] x(1) [unfolded c])
  moreover have "\<exists>v. resultFrom ?resp ''r'' = Inr v" by (simp add: resultFrom_def)
  ultimately show ?thesis using x(2) w(2) by auto
qed

theorem proof_recorded_atomically_witness:
  "\<exists>r s'. recordFoundationProof example_proof_env (Some (example_context ''t:1'')) '' hi '' (Some sample_key) (Map.empty, example_proof_db) = (Inr r, s') \<and>
     proof_effect (example_context ''t:1'') example_proof example_proof_db (snd s')"
proof -
  obtain r s' where run: "recordFoundationProof example_proof_env (Some (example_context ''t:1'')) '' hi '' (Some sample_key) (Map.empty, example_proof_db) = (Inr r, s')"
    "pd_records (snd s') = [example_proof]" using example_proof_run [OF example_proof_ready] by blast
  have "s' \<noteq> (Map.empty, example_proof_db)" using run(2) by (auto simp: example_proof_db_def)
  with proof_recorded_atomically [OF run(1)] obtain p where p: "proof_effect (example_context ''t:1'') p example_proof_db (snd s')" by auto
  then have "pd_records (snd s') = [p]" by (simp add: proof_effect_def example_proof_db_def)
  then show ?thesis using p run by simp
qed

end
