(* ===== verification/Http_Server.thy ===== *)
theory Http_Server
  imports Http_Headers Foundation_Proof Problem_Model Tenant_Cache
begin

text \<open>
  \<open>apps/api/src/http/server.ts\<close>: the HTTP ingress. One request is one run of the framework's documented
  lifecycle: request identifier, the \<open>onRequest\<close> hook, body parsing, the route's \<open>preValidation\<close> hook, schema
  validation, the handler, and on any throw the error handler. The framework itself enters as data of
  the request (the matched route, the parsed body or the status of its parse error) and as the validator
  parameter; spans and metrics are not modelled. The tenant a body names is read before validation, so from any value; the other
  fields are read after it, as the texts it accepted. The application state is the trusted state beside a state
  of the dependencies' own, which are parameters: authenticators, tenant states, lifecycle commands, and the proof command.

  The lemmas show that tenant work runs only under a context of the authenticated principal's own
  memberships, that platform commands run only for a principal of the platform authenticator, that a non-member
  learns nothing about a tenant, and that every answer is traceable and every error a catalogued problem.
\<close>

section \<open>Model: requests and responses\<close>

datatype header_value = OneValue string | ManyValues "string list"

datatype lifecycle_verb = verb_activate | verb_suspend | verb_reactivate | verb_close

datatype route = Health | Proofs | Tenants | Lifecycle lifecycle_verb string | Unmatched

text \<open>What the framework's parser made of the body: a value, or its refusal with a status code.\<close>

datatype parsed_body = Parsed js_value | Unreadable int

record http_request =
  rq_route :: route
  rq_header :: "string \<Rightarrow> header_value option"
  rq_body :: parsed_body

record validation_issue =
  vi_instancePath :: "string option"
  vi_keyword :: "string option"
  vi_missingProperty :: "string option"
  vi_additionalProperty :: "string option"

record field_error =
  fld_path :: string
  fld_code :: string
  fld_message :: string

text \<open>What route code and the framework throw.\<close>

datatype http_error = App err | Invalid "validation_issue list" | Framework int

record http_response =
  re_status :: int
  re_headers :: "(string \<times> string) list"
  re_body :: js_value
  re_problem :: "problem_response option"
  re_errors :: "field_error list"

text \<open>The schemas the routes declare: the required and the permitted string properties, with their limits.\<close>

record body_schema =
  bs_required :: "string list"
  bs_nonBlank :: "string list"
  bs_optional :: "(string \<times> nat) list"

record tenant_representation =
  tr_id :: string
  tr_displayName :: string
  tr_state :: string
  tr_version :: int
  tr_createdAt :: string
  tr_updatedAt :: string

type_synonym 's api = "trust \<times> 's"

record 's lifecycle_commands =
  lc_provision :: "ref \<Rightarrow> provision_tenant_input \<Rightarrow> string option \<Rightarrow> ('s api, tenant_representation) tx"
  lc_activate :: "ref \<Rightarrow> tenant_lifecycle_input \<Rightarrow> string option \<Rightarrow> ('s api, tenant_representation) tx"
  lc_suspend :: "ref \<Rightarrow> tenant_lifecycle_input \<Rightarrow> string option \<Rightarrow> ('s api, tenant_representation) tx"
  lc_reactivate :: "ref \<Rightarrow> tenant_lifecycle_input \<Rightarrow> string option \<Rightarrow> ('s api, tenant_representation) tx"
  lc_close :: "ref \<Rightarrow> tenant_lifecycle_input \<Rightarrow> string option \<Rightarrow> ('s api, tenant_representation) tx"

type_synonym 's request_authenticator = "string option \<Rightarrow> string \<Rightarrow> ('s api, ref) tx"

record 's api_dependencies =
  dep_authenticator :: "'s request_authenticator"
  dep_platformAuthenticator :: "'s request_authenticator option"
  dep_tenantStates :: "string \<Rightarrow> string \<Rightarrow> ('s api, tenant_state option) tx"
  dep_tenantCommands :: "'s lifecycle_commands option"
  dep_foundationProof :: "(string \<Rightarrow> string option \<Rightarrow> ('s api, proof_result) tx) option"
  dep_validate :: "body_schema \<Rightarrow> js_value \<Rightarrow> validation_issue list"
  dep_validateParam :: "string \<Rightarrow> validation_issue list"

text \<open>Readings of one request: the generated identifiers (request, hook, error handler) and the clock.\<close>

record request_env =
  rv_requestId :: string
  rv_traceId :: string
  rv_errorId :: string
  rv_now :: instant

section \<open>Model: ingress state\<close>

definition ACTIVE_TENANT_HEADER :: string where "ACTIVE_TENANT_HEADER = ''x-active-tenant''"
definition IDEMPOTENCY_KEY_HEADER :: string where "IDEMPOTENCY_KEY_HEADER = ''idempotency-key''"
definition CORRELATION_ID_HEADER :: string where "CORRELATION_ID_HEADER = ''x-correlation-id''"
definition CAUSATION_ID_HEADER :: string where "CAUSATION_ID_HEADER = ''x-causation-id''"

record request_state =
  st_correlationId :: string
  st_causationId :: "string option"
  st_principal :: "ref option"
  st_tenantContext :: "ref option"

definition singleHeader :: "http_request \<Rightarrow> string \<Rightarrow> string option" where
  "singleHeader request name = (case rq_header request name of Some (OneValue v) \<Rightarrow> Some v | _ \<Rightarrow> None)"

definition principalOf :: "request_state \<Rightarrow> ref res" where
  "principalOf state = (case st_principal state of None \<Rightarrow> Inl Error | Some p \<Rightarrow> Inr p)"

definition metadataOf :: "http_request \<Rightarrow> string option" where
  "metadataOf request = singleHeader request IDEMPOTENCY_KEY_HEADER"

definition on_trust :: "(trust, 'a) tx \<Rightarrow> ('s api, 'a) tx" where
  "on_trust m = (\<lambda>(t, rest). case m t of (r, t') \<Rightarrow> (r, (t', rest)))"

definition platformContext :: "request_env \<Rightarrow> request_state \<Rightarrow> ('s api, ref) tx" where
  "platformContext env state =
     bindT (liftT (principalOf state)) (\<lambda>principal.
       on_trust (resolvePlatformCommandContext principal (st_correlationId state) (st_causationId state) (rv_now env)))"

section \<open>Model: errors\<close>

definition field_error_of :: "validation_issue \<Rightarrow> field_error" where
  "field_error_of issue =
     (let suffix = (case vi_missingProperty issue of Some m \<Rightarrow> ''/'' @ m | None \<Rightarrow> (case vi_additionalProperty issue of Some e \<Rightarrow> ''/'' @ e | None \<Rightarrow> ''''));
          path = (case vi_instancePath issue of None \<Rightarrow> '''' | Some p \<Rightarrow> p) @ suffix
      in \<lparr>fld_path = (if path = '''' then ''/'' else path), fld_code = (case vi_keyword issue of None \<Rightarrow> ''invalid'' | Some k \<Rightarrow> k),
          fld_message = (if vi_additionalProperty issue \<noteq> None then ''Property is not allowed.''
                        else if vi_missingProperty issue \<noteq> None then ''Property is required.'' else ''Value is invalid.'')\<rparr>)"

definition toPlatformError :: "http_error \<Rightarrow> err \<times> field_error list" where
  "toPlatformError error = (case error of
     App e \<Rightarrow> (e, [])
   | Invalid issues \<Rightarrow> (Problem request_validation_failed None None, map field_error_of (take 20 issues))
   | Framework status \<Rightarrow> if status \<ge> 400 \<and> status < 500 then (Problem request_validation_failed None None, []) else (Error, []))"

definition route_url :: "route \<Rightarrow> string" where
  "route_url r = (case r of Health \<Rightarrow> ''/health/live'' | Proofs \<Rightarrow> ''/v1/foundation/proofs'' | Tenants \<Rightarrow> ''/v1/platform/tenants''
     | Lifecycle v _ \<Rightarrow> ''/v1/platform/tenants/:tenantId/'' @ (case v of verb_activate \<Rightarrow> ''activate'' | verb_suspend \<Rightarrow> ''suspend''
         | verb_reactivate \<Rightarrow> ''reactivate'' | verb_close \<Rightarrow> ''close'')
     | Unmatched \<Rightarrow> ''unmatched'')"

definition sendProblem :: "request_env \<Rightarrow> route \<Rightarrow> http_error \<Rightarrow> string \<Rightarrow> string option \<Rightarrow> http_response \<times> error_report option" where
  "sendProblem env r error correlationId causationId =
     (let (e, errors) = toPlatformError error;
          (response, report) = mapErrorToProblemResponse e \<lparr>bc_correlationId = Some correlationId, bc_causationId = causationId, bc_route = Some (route_url r)\<rparr>
            (rv_now env) (rv_errorId env)
      in (\<lparr>re_status = resp_status response,
           re_headers = [(CORRELATION_ID_HEADER, resp_correlation response)] @
             (if resp_code response = authentication_failed then [(''www-authenticate'', ''Bearer realm='' @ [CHR 0x22] @ ''sintius'' @ [CHR 0x22])] else []),
           re_body = JUndefined, re_problem = Some response, re_errors = errors\<rparr>, report))"

section \<open>Model: tenant resolution\<close>

text \<open>The tenant a body names, as text. A value with a \<open>toString\<close> of its own has none, and reading it throws.\<close>

definition body_tenant :: "js_value \<Rightarrow> string option res" where
  "body_tenant body = (case body of
     JObject es \<Rightarrow> (case map_of es ''tenant_id'' of None \<Rightarrow> Inr None | Some v \<Rightarrow> bindR (js_String v) (\<lambda>t. Inr (Some t)))
   | _ \<Rightarrow> Inr None)"

definition resolveTenant :: "'s api_dependencies \<Rightarrow> request_env \<Rightarrow> http_request \<Rightarrow> request_state \<Rightarrow> js_value \<Rightarrow> ('s api, request_state) tx" where
  "resolveTenant deps env request state body =
     bindT (liftT (principalOf state)) (\<lambda>principal st.
       let memberships = p_tenantMemberships (principals (fst st) ! principal);
           selected = (case singleHeader request ACTIVE_TENANT_HEADER of Some s \<Rightarrow> Some s | None \<Rightarrow> if length memberships = 1 then Some (memberships ! 0) else None)
       in (case selected of
             None \<Rightarrow> throwT (Problem tenant_access_denied (Some (st_correlationId state)) None)
           | Some s \<Rightarrow>
               if length (trim s) = 0 then throwT (Problem tenant_access_denied (Some (st_correlationId state)) None)
               else bindT (liftT (body_tenant body)) (\<lambda>bodyTenant. bindT (liftT (tenantId s)) (\<lambda>selectedTenant.
                 bindT (if selectedTenant \<in> set memberships \<and> bodyTenant = None
                        then dep_tenantStates deps selectedTenant (st_correlationId state) else returnT (Some ACTIVE)) (\<lambda>tenantState.
                 case tenantState of
                   None \<Rightarrow> throwT (Problem tenant_access_denied (Some (st_correlationId state)) None)
                 | Some ts \<Rightarrow>
                     bindT (on_trust (resolveTenantContext
                       \<lparr>ri_principal = principal, ri_selectedTenantId = selectedTenant, ri_tenantState = ts, ri_correlationId = st_correlationId state,
                        ri_causationId = st_causationId state, ri_bodyTenantId = bodyTenant\<rparr> (rv_now env))) (\<lambda>c.
                     returnT (state\<lparr>st_tenantContext := Some c\<rparr>)))))) st)"

text \<open>\<open>runWithTenantContext\<close> around work on the whole application state: the outcome of the work, thrown or not,
  and the dependencies' state are carried through the ambient context's scope.\<close>

definition run_in_tenant :: "ref \<Rightarrow> ('s api, 'a) tx \<Rightarrow> ('s api, 'a) tx" where
  "run_in_tenant c work = (\<lambda>(t, rest).
     case runWithTenantContext c (\<lambda>t1. case work (t1, rest) of (r, (t2, rest2)) \<Rightarrow> (Inr (r, rest2), t2)) t of
       (Inl e, t') \<Rightarrow> (Inl e, (t', rest))
     | (Inr (r, rest2), t') \<Rightarrow> (r, (t', rest2)))"

definition inTenant :: "request_state \<Rightarrow> ('s api, 'a) tx \<Rightarrow> ('s api, 'a) tx" where
  "inTenant state work = (case st_tenantContext state of None \<Rightarrow> throwT Error | Some c \<Rightarrow> run_in_tenant c work)"

section \<open>Model: routes\<close>

definition tenantBody :: "tenant_representation \<Rightarrow> js_value" where
  "tenantBody t = JObject [(''tenant_id'', JString (tr_id t)), (''display_name'', JString (tr_displayName t)), (''state'', JString (tr_state t)),
     (''version'', JNumber (Num (tr_version t))), (''created_at'', JString (tr_createdAt t)), (''updated_at'', JString (tr_updatedAt t))]"

definition mkResponse :: "request_state \<Rightarrow> int \<Rightarrow> (string \<times> string) list \<Rightarrow> js_value \<Rightarrow> http_response" where
  "mkResponse state status headers body =
     \<lparr>re_status = status, re_headers = (CORRELATION_ID_HEADER, st_correlationId state) # headers, re_body = body, re_problem = None, re_errors = []\<rparr>"

definition proof_schema :: body_schema where
  "proof_schema = \<lparr>bs_required = [''label''], bs_nonBlank = [''label''], bs_optional = []\<rparr>"

definition proofs_handler :: "(string \<Rightarrow> string option \<Rightarrow> ('s api, proof_result) tx) \<Rightarrow> http_request \<Rightarrow> request_state \<Rightarrow> js_value \<Rightarrow> ('s api, http_response) tx" where
  "proofs_handler proof request state body =
     bindT (inTenant state (proof (js_text (js_prop body ''label'')) (metadataOf request))) (\<lambda>result.
       returnT (mkResponse state 201 [] (JObject [(''proof_record_id'', JString (pr_proofRecordId result)), (''label'', JString (pr_label result)),
         (''recorded_at'', JString (pr_recordedAt result))])))"

definition provision_schema :: body_schema where
  "provision_schema = \<lparr>bs_required = [''tenant_id'', ''display_name'', ''initial_administrator_actor_id''],
     bs_nonBlank = [''tenant_id'', ''display_name'', ''initial_administrator_actor_id''], bs_optional = []\<rparr>"

definition provision_handler :: "'s lifecycle_commands \<Rightarrow> request_env \<Rightarrow> http_request \<Rightarrow> request_state \<Rightarrow> js_value \<Rightarrow> ('s api, http_response) tx" where
  "provision_handler tenants env request state body =
     bindT (platformContext env state) (\<lambda>context.
     bindT (lc_provision tenants context \<lparr>pv_tenantId = js_text (js_prop body ''tenant_id''), pv_displayName = js_text (js_prop body ''display_name''),
       pv_initialAdministratorActorId = js_text (js_prop body ''initial_administrator_actor_id'')\<rparr> (metadataOf request)) (\<lambda>tenant.
     returnT (mkResponse state 201 [(''etag'', etag (tr_version tenant)), (''location'', ''/v1/platform/tenants/'' @ encodeURIComponent (tr_id tenant))] (tenantBody tenant))))"

definition lifecycle_schema :: body_schema where
  "lifecycle_schema = \<lparr>bs_required = [], bs_nonBlank = [], bs_optional = [(''reason'', 500)]\<rparr>"

definition lifecycle_command :: "'s lifecycle_commands \<Rightarrow> lifecycle_verb \<Rightarrow> ref \<Rightarrow> tenant_lifecycle_input \<Rightarrow> string option \<Rightarrow> ('s api, tenant_representation) tx" where
  "lifecycle_command tenants verb = (case verb of verb_activate \<Rightarrow> lc_activate tenants | verb_suspend \<Rightarrow> lc_suspend tenants
     | verb_reactivate \<Rightarrow> lc_reactivate tenants | verb_close \<Rightarrow> lc_close tenants)"

definition body_reason :: "js_value \<Rightarrow> string option" where
  "body_reason body = (case js_prop body ''reason'' of JUndefined \<Rightarrow> None | v \<Rightarrow> Some (js_text v))"

text \<open>A stale version is a failed precondition.\<close>

definition as_precondition :: "('s, 'a) tx \<Rightarrow> ('s, 'a) tx" where
  "as_precondition m s = (case m s of
     (Inl e, s') \<Rightarrow> (case e of Problem c _ _ \<Rightarrow> if c = tenant_version_conflict then reject precondition_failed else Inl e | _ \<Rightarrow> Inl e, s')
   | (Inr x, s') \<Rightarrow> (Inr x, s'))"

definition lifecycle_handler :: "'s lifecycle_commands \<Rightarrow> lifecycle_verb \<Rightarrow> string \<Rightarrow> request_env \<Rightarrow> http_request \<Rightarrow> request_state \<Rightarrow> js_value \<Rightarrow>
    ('s api, http_response) tx" where
  "lifecycle_handler tenants verb target env request state body =
     bindT (liftT (expectedVersionOf (singleHeader request ''if-match''))) (\<lambda>expectedVersion.
     bindT (as_precondition (bindT (platformContext env state) (\<lambda>context.
       lifecycle_command tenants verb context \<lparr>tl_tenantId = target, tl_expectedVersion = expectedVersion, tl_reason = body_reason body\<rparr> (metadataOf request)))) (\<lambda>tenant.
     returnT (mkResponse state 200 [(''etag'', etag (tr_version tenant))] (tenantBody tenant))))"

section \<open>Model: the request lifecycle\<close>

definition is_platform :: "route \<Rightarrow> bool" where
  "is_platform r = (case r of Tenants \<Rightarrow> True | Lifecycle _ _ \<Rightarrow> True | _ \<Rightarrow> False)"

definition mounted :: "'s api_dependencies \<Rightarrow> route \<Rightarrow> route" where
  "mounted deps r =
     (if r = Proofs \<and> dep_foundationProof deps = None then Unmatched
      else if is_platform r \<and> dep_tenantCommands deps = None then Unmatched else r)"

definition trace_of :: "request_env \<Rightarrow> http_request \<Rightarrow> string \<times> string option" where
  "trace_of env request =
     resolveTraceIds (Some (fst (resolveTraceIds (singleHeader request CORRELATION_ID_HEADER) None (rv_requestId env))))
       (singleHeader request CAUSATION_ID_HEADER) (rv_traceId env)"

definition onRequest :: "'s api_dependencies \<Rightarrow> route \<Rightarrow> http_request \<Rightarrow> string \<Rightarrow> string option \<Rightarrow> ('s api, request_state) tx" where
  "onRequest deps r request correlationId causationId =
     (let state = \<lparr>st_correlationId = correlationId, st_causationId = causationId, st_principal = None, st_tenantContext = None\<rparr> in
      if r = Health then returnT state
      else case (if is_platform r then dep_platformAuthenticator deps else Some (dep_authenticator deps)) of
        None \<Rightarrow> throwT Error
      | Some authenticator \<Rightarrow> bindT (authenticator (singleHeader request ''authorization'') correlationId) (\<lambda>principal.
          returnT (state\<lparr>st_principal := Some principal\<rparr>)))"

type_synonym 's stage = "'s api \<Rightarrow> (http_error + http_response) \<times> 's api"

definition app_stage :: "('s api, http_response) tx \<Rightarrow> 's stage" where
  "app_stage m s = (case m s of (Inl e, s') \<Rightarrow> (Inl (App e), s') | (Inr r, s') \<Rightarrow> (Inr r, s'))"

definition validated :: "validation_issue list \<Rightarrow> 's stage \<Rightarrow> 's stage" where
  "validated issues k s = (if issues = [] then k s else (Inl (Invalid issues), s))"

definition run_route :: "'s api_dependencies \<Rightarrow> request_env \<Rightarrow> route \<Rightarrow> http_request \<Rightarrow> request_state \<Rightarrow> js_value \<Rightarrow> 's stage" where
  "run_route deps env r request state body s =
     (case r of
        Health \<Rightarrow> (Inr (mkResponse state 200 [] (JObject [(''status'', JString ''ok'')])), s)
      | Proofs \<Rightarrow> (case dep_foundationProof deps of
          None \<Rightarrow> (Inl (App Error), s)
        | Some proof \<Rightarrow> (case resolveTenant deps env request state body s of
            (Inl e, s') \<Rightarrow> (Inl (App e), s')
          | (Inr state', s') \<Rightarrow> validated (dep_validate deps proof_schema body) (app_stage (proofs_handler proof request state' body)) s'))
      | Tenants \<Rightarrow> (case dep_tenantCommands deps of
          None \<Rightarrow> (Inl (App Error), s)
        | Some tenants \<Rightarrow> validated (dep_validate deps provision_schema body) (app_stage (provision_handler tenants env request state body)) s)
      | Lifecycle verb target \<Rightarrow> (case dep_tenantCommands deps of
          None \<Rightarrow> (Inl (App Error), s)
        | Some tenants \<Rightarrow> validated (dep_validateParam deps target) (validated (dep_validate deps lifecycle_schema body)
            (app_stage (lifecycle_handler tenants verb target env request state body))) s)
      | Unmatched \<Rightarrow> (Inl (App (Problem resource_not_found None None)), s))"

definition serve :: "'s api_dependencies \<Rightarrow> request_env \<Rightarrow> http_request \<Rightarrow> 's api \<Rightarrow> (http_response \<times> error_report option) \<times> 's api" where
  "serve deps env request s =
     (let r = mounted deps (rq_route request); (corr, cause) = trace_of env request;
          failed = (\<lambda>e s'. (sendProblem env r e corr cause, s'))
      in case onRequest deps r request corr cause s of
           (Inl e, s') \<Rightarrow> failed (App e) s'
         | (Inr state, s') \<Rightarrow>
             (case rq_body request of
                Unreadable status \<Rightarrow> failed (Framework status) s'
              | Parsed body \<Rightarrow> (case run_route deps env r request state body s' of
                  (Inl e, s'') \<Rightarrow> failed e s''
                | (Inr response, s'') \<Rightarrow> ((response, None), s''))))"

definition buildApiServer :: "'s api_dependencies \<Rightarrow> (request_env \<Rightarrow> http_request \<Rightarrow> 's api \<Rightarrow> (http_response \<times> error_report option) \<times> 's api) res" where
  "buildApiServer deps =
     (if dep_tenantCommands deps \<noteq> None \<and> dep_platformAuthenticator deps = None then Inl Error else Inr (serve deps))"

section \<open>Correctness of the ingress\<close>

lemma bindT_liftT: "bindT (liftT r) f s = (case r of Inl e \<Rightarrow> (Inl e, s) | Inr x \<Rightarrow> f x s)"
  by (simp add: bindT_def liftT_def)

lemma on_trust_Inr_iff: "on_trust m s = (Inr x, s') \<longleftrightarrow> m (fst s) = (Inr x, fst s') \<and> snd s' = snd s"
  by (cases s; cases s') (auto simp: on_trust_def split: prod.splits)

lemma on_trust_Inl_iff: "on_trust m s = (Inl e, s') \<longleftrightarrow> m (fst s) = (Inl e, fst s') \<and> snd s' = snd s"
  by (cases s; cases s') (auto simp: on_trust_def split: prod.splits)

lemma principalOf_Inr_iff [simp]: "principalOf state = Inr p \<longleftrightarrow> st_principal state = Some p"
  by (simp add: principalOf_def split: option.splits)

lemma tenantId_Inr_iff [simp]: "tenantId v = Inr t \<longleftrightarrow> t = v \<and> \<not> blank v"
  by (auto simp: tenantId_def ctx_requireNonBlank_def trim_empty_iff simp del: length_0_conv)

lemma tenantId_ok: "\<not> blank t \<Longrightarrow> tenantId t = Inr t"
  by simp

text \<open>The tenant a request selects: the header, or a single membership.\<close>

definition selected_tenant :: "http_request \<Rightarrow> string list \<Rightarrow> string option" where
  "selected_tenant request memberships =
     (case singleHeader request ACTIVE_TENANT_HEADER of Some s \<Rightarrow> Some s | None \<Rightarrow> if length memberships = 1 then Some (memberships ! 0) else None)"

text \<open>What resolution asks of the trust core: the input of \<open>resolveTenantContext\<close>.\<close>

definition resolution :: "request_state \<Rightarrow> ref \<Rightarrow> string \<Rightarrow> tenant_state \<Rightarrow> string option \<Rightarrow> resolve_input" where
  "resolution state p t ts bodyTenant =
     \<lparr>ri_principal = p, ri_selectedTenantId = t, ri_tenantState = ts, ri_correlationId = st_correlationId state,
      ri_causationId = st_causationId state, ri_bodyTenantId = bodyTenant\<rparr>"

lemma resolveTenant_selected:
  assumes "st_principal state = Some p" "memberships = p_tenantMemberships (principals (fst s) ! p)"
  shows "resolveTenant deps env request state body s =
    (case selected_tenant request memberships of
       None \<Rightarrow> (reject_for tenant_access_denied (st_correlationId state), s)
     | Some t \<Rightarrow>
         if blank t then (reject_for tenant_access_denied (st_correlationId state), s)
         else (case body_tenant body of
             Inl e \<Rightarrow> (Inl e, s)
           | Inr bodyTenant \<Rightarrow>
               bindT (if t \<in> set memberships \<and> bodyTenant = None
                     then dep_tenantStates deps t (st_correlationId state) else returnT (Some ACTIVE)) (\<lambda>tenantState.
               case tenantState of
                 None \<Rightarrow> throwT (Problem tenant_access_denied (Some (st_correlationId state)) None)
               | Some ts \<Rightarrow> bindT (on_trust (resolveTenantContext (resolution state p t ts bodyTenant) (rv_now env))) (\<lambda>c.
                   returnT (state\<lparr>st_tenantContext := Some c\<rparr>))) s))"
  unfolding resolveTenant_def bindT_liftT principalOf_def assms(1) option.case sum.case Let_def
    selected_tenant_def [symmetric] assms(2) [symmetric] resolution_def [symmetric] trim_empty_iff
  by (simp add: throwT_def tenantId_ok bindT_liftT split: option.splits sum.splits)

lemma resolveTenant_InrE:
  assumes "st_principal state = Some p" "resolveTenant deps env request state body s = (Inr state', s')"
  obtains t s1 c where "selected_tenant request (p_tenantMemberships (principals (fst s) ! p)) = Some t"
    "t \<in> set (p_tenantMemberships (principals (fst s) ! p))" "body_tenant body = Inr None"
    "dep_tenantStates deps t (st_correlationId state) s = (Inr (Some ACTIVE), s1)"
    "resolveTenantContext (resolution state p t ACTIVE None) (rv_now env) (fst s1) = (Inr c, fst s')"
    "state' = state\<lparr>st_tenantContext := Some c\<rparr>"
proof -
  define ms where "ms = p_tenantMemberships (principals (fst s) ! p)"
  obtain t where t: "selected_tenant request ms = Some t" "\<not> blank t"
    using assms(2) unfolding resolveTenant_selected [OF assms(1) ms_def] by (auto split: option.splits if_splits)
  obtain bodyTenant where named: "body_tenant body = Inr bodyTenant"
    using assms(2) t unfolding resolveTenant_selected [OF assms(1) ms_def] by (auto split: sum.splits)
  obtain ts s1 where ts: "(if t \<in> set ms \<and> bodyTenant = None
        then dep_tenantStates deps t (st_correlationId state) else returnT (Some ACTIVE)) s = (Inr (Some ts), s1)"
    and bound: "bindT (on_trust (resolveTenantContext (resolution state p t ts bodyTenant) (rv_now env))) (\<lambda>c. returnT (state\<lparr>st_tenantContext := Some c\<rparr>)) s1
        = (Inr state', s')"
    using assms(2) t unfolding resolveTenant_selected [OF assms(1) ms_def] by (auto simp: bindT_Inr_iff named split: option.splits)
  from bound obtain c where c: "resolveTenantContext (resolution state p t ts bodyTenant) (rv_now env) (fst s1) = (Inr c, fst s')"
    "state' = state\<lparr>st_tenantContext := Some c\<rparr>"
    by (auto simp: bindT_Inr_iff on_trust_Inr_iff)
  note granted = c(1) [unfolded resolveTenantContext_Inr_iff, simplified resolution_def, simplified]
  have member: "t \<in> set ms \<and> bodyTenant = None"
    using ts granted by (auto simp: ms_def returnT_def split: if_splits)
  show thesis
    using that [of t s1 c] t c ts granted member named by (simp add: ms_def)
qed

lemma run_in_tenant_Inr:
  assumes "run_in_tenant c work s = (Inr x, s')"
  obtains s2 where "c \<in> set (issuedContexts (fst s))" "work ((fst s)\<lparr>storage := Some c\<rparr>, snd s) = (Inr x, s2)"
    "s' = ((fst s2)\<lparr>storage := storage (fst s)\<rparr>, snd s2)"
proof -
  obtain t rest where s: "s = (t, rest)" by (cases s)
  obtain r t2 rest2 where w: "work (t\<lparr>storage := Some c\<rparr>, rest) = (r, (t2, rest2))" by (metis prod.exhaust)
  show thesis
    using assms that [of "(t2, rest2)"]
    by (auto simp: run_in_tenant_def s runWithTenantContext_eq w Let_def split: if_splits)
qed

text \<open>Where a successful answer comes from: a route's handler, on the state the authenticator left.\<close>

lemma sendProblem_status: "re_status (fst (sendProblem env r e corr cause)) \<in> set PROBLEM_STATUSES"
  using catalog_statuses by (auto simp: sendProblem_def mapErrorToProblemResponse_def Let_def split: prod.splits)

lemma sendProblem_problem: "\<exists>q. re_problem (fst (sendProblem env r e corr cause)) = Some q \<and> re_status (fst (sendProblem env r e corr cause)) = resp_status q"
  by (simp add: sendProblem_def Let_def split: prod.splits)

lemma serve_answered:
  assumes "serve deps env request s = ((response, report), s')" "re_problem response = None"
  obtains corr cause state s1 body where "trace_of env request = (corr, cause)"
    "onRequest deps (mounted deps (rq_route request)) request corr cause s = (Inr state, s1)" "rq_body request = Parsed body"
    "run_route deps env (mounted deps (rq_route request)) request state body s1 = (Inr response, s')"
proof -
  obtain corr cause where tr: "trace_of env request = (corr, cause)" by fastforce
  have no: "\<not> (sendProblem env r e c k = (response, report))" for r e c k
    using sendProblem_problem [of env r e c k] assms(2) by force
  show thesis
    using assms(1) no that [OF tr]
    by (auto simp: serve_def Let_def tr split: prod.splits sum.splits parsed_body.splits)
qed

lemma onRequest_InrE:
  assumes "onRequest deps r request corr cause s = (Inr state, s1)" "r \<noteq> Health"
  obtains auth p where "(if is_platform r then dep_platformAuthenticator deps else Some (dep_authenticator deps)) = Some auth"
    "auth (singleHeader request ''authorization'') corr s = (Inr p, s1)"
    "state = \<lparr>st_correlationId = corr, st_causationId = cause, st_principal = Some p, st_tenantContext = None\<rparr>"
  using assms by (auto simp: onRequest_def Let_def bindT_Inr_iff split: option.splits)

lemma resolved_ambient:
  assumes "resolveTenantContext ri now st = (Inr c, st')"
  shows "activeTenantContext (st'\<lparr>storage := Some c\<rparr>) = Some (resolved_context (principals st ! ri_principal ri) ri (ri_correlationId ri))"
  using assms unfolding resolveTenantContext_Inr_iff by (auto simp: issue_context_def Let_def activeTenantContext_def)

lemma proofs_answered:
  assumes "run_route deps env Proofs request state body s1 = (Inr response, s')" "st_principal state = Some p"
  obtains cmd t s2 c s3 result s4 where "dep_foundationProof deps = Some cmd" "body_tenant body = Inr None"
    "selected_tenant request (p_tenantMemberships (principals (fst s1) ! p)) = Some t" "t \<in> set (p_tenantMemberships (principals (fst s1) ! p))"
    "dep_tenantStates deps t (st_correlationId state) s1 = (Inr (Some ACTIVE), s2)"
    "resolveTenantContext (resolution state p t ACTIVE None) (rv_now env) (fst s2) = (Inr c, fst s3)"
    "cmd (js_text (js_prop body ''label'')) (metadataOf request) ((fst s3)\<lparr>storage := Some c\<rparr>, snd s3) = (Inr result, s4)"
    "snd s' = snd s4"
proof -
  obtain cmd state' s3 where cmd: "dep_foundationProof deps = Some cmd"
    and res: "resolveTenant deps env request state body s1 = (Inr state', s3)"
    and h: "proofs_handler cmd request state' body s3 = (Inr response, s')"
    using assms(1) by (auto simp: run_route_def validated_def app_stage_def split: option.splits prod.splits sum.splits if_splits)
  from res obtain t s2 c where r: "selected_tenant request (p_tenantMemberships (principals (fst s1) ! p)) = Some t"
    "t \<in> set (p_tenantMemberships (principals (fst s1) ! p))" "body_tenant body = Inr None"
    "dep_tenantStates deps t (st_correlationId state) s1 = (Inr (Some ACTIVE), s2)"
    "resolveTenantContext (resolution state p t ACTIVE None) (rv_now env) (fst s2) = (Inr c, fst s3)"
    "state' = state\<lparr>st_tenantContext := Some c\<rparr>"
    by (rule resolveTenant_InrE [OF assms(2)])
  from h obtain result where "run_in_tenant c (cmd (js_text (js_prop body ''label'')) (metadataOf request)) s3 = (Inr result, s')"
    by (auto simp: proofs_handler_def inTenant_def r(6) bindT_Inr_iff)
  then show thesis by (rule run_in_tenant_Inr) (rule that [OF cmd r(3,1,2,4,5)], auto)
qed

text \<open>Tenant work runs only under the authenticated principal's own membership. When the tenant route
  answers with anything but a problem, the tenant authenticator accepted the request's credential for a
  principal, the selected tenant is one of that principal's memberships, the body named no tenant, the
  tenant was read as active, and the command ran with the ambient context of exactly that tenant and that
  principal, under the request's correlation ID.\<close>

theorem tenant_work_under_own_membership:
  assumes "serve deps env request s = ((response, report), s')" "rq_route request = Proofs" "re_problem response = None"
  shows "\<exists>corr cause p s1 t s2 c s3 cmd body result s4 ctx. trace_of env request = (corr, cause) \<and>
    dep_authenticator deps (singleHeader request ''authorization'') corr s = (Inr p, s1) \<and>
    rq_body request = Parsed body \<and> body_tenant body = Inr None \<and>
    selected_tenant request (p_tenantMemberships (principals (fst s1) ! p)) = Some t \<and> t \<in> set (p_tenantMemberships (principals (fst s1) ! p)) \<and>
    dep_tenantStates deps t corr s1 = (Inr (Some ACTIVE), s2) \<and>
    p \<in> set (issuedPrincipals (fst s2)) \<and> rv_now env < p_expiresAt (principals (fst s2) ! p) \<and>
    dep_foundationProof deps = Some cmd \<and>
    cmd (js_text (js_prop body ''label'')) (metadataOf request) ((fst s3)\<lparr>storage := Some c\<rparr>, snd s3) = (Inr result, s4) \<and>
    activeTenantContext ((fst s3)\<lparr>storage := Some c\<rparr>) = Some ctx \<and> tc_tenantId ctx = t \<and>
    tc_actorId ctx = p_actorId (principals (fst s2) ! p) \<and> tc_correlationId ctx = corr \<and> snd s' = snd s4"
proof -
  obtain corr cause state s1 body where tr: "trace_of env request = (corr, cause)"
    and on: "onRequest deps (mounted deps (rq_route request)) request corr cause s = (Inr state, s1)" and body: "rq_body request = Parsed body"
    and run: "run_route deps env (mounted deps (rq_route request)) request state body s1 = (Inr response, s')"
    by (rule serve_answered [OF assms(1,3)])
  have m: "mounted deps (rq_route request) = Proofs"
    using run assms(2) by (auto simp: mounted_def run_route_def is_platform_def split: if_splits)
  from on obtain p where a: "dep_authenticator deps (singleHeader request ''authorization'') corr s = (Inr p, s1)"
    and state: "state = \<lparr>st_correlationId = corr, st_causationId = cause, st_principal = Some p, st_tenantContext = None\<rparr>"
    unfolding m by (rule onRequest_InrE) (simp_all add: is_platform_def)
  from run [unfolded m] show ?thesis
  proof (rule proofs_answered)
    show "st_principal state = Some p" by (simp add: state)
    fix cmd t s2 c s3 result s4
    assume h: "dep_foundationProof deps = Some cmd" "body_tenant body = Inr None"
      "selected_tenant request (p_tenantMemberships (principals (fst s1) ! p)) = Some t" "t \<in> set (p_tenantMemberships (principals (fst s1) ! p))"
      "dep_tenantStates deps t (st_correlationId state) s1 = (Inr (Some ACTIVE), s2)"
      "resolveTenantContext (resolution state p t ACTIVE None) (rv_now env) (fst s2) = (Inr c, fst s3)"
      "cmd (js_text (js_prop body ''label'')) (metadataOf request) ((fst s3)\<lparr>storage := Some c\<rparr>, snd s3) = (Inr result, s4)"
      "snd s' = snd s4"
    note granted = h(6) [unfolded resolveTenantContext_Inr_iff, simplified resolution_def, simplified]
    show ?thesis
      using tr a body h(1-5,7,8) granted resolved_ambient [OF h(6)]
      by (intro exI conjI) (assumption | simp add: state resolution_def resolved_context_def)+
  qed
qed

lemma as_precondition_Inr_iff: "as_precondition m s = (Inr x, s') \<longleftrightarrow> m s = (Inr x, s')"
  by (auto simp: as_precondition_def split: prod.splits sum.splits err.splits if_splits)

lemma mounted_platform: "is_platform r \<Longrightarrow> dep_tenantCommands deps = Some tenants \<Longrightarrow> mounted deps r = r"
  by (auto simp: mounted_def is_platform_def)

text \<open>Platform commands run only for a platform operator. When a platform route answers with anything but
  a problem, the platform authenticator, never the tenant one, accepted the request's credential; the trust
  core issued a platform context for that principal; and the command of the route ran under exactly that
  context, a lifecycle command with the version the \<open>If-Match\<close> header states.\<close>

theorem platform_commands_for_operators_only:
  assumes "serve deps env request s = ((response, report), s')" "is_platform (rq_route request)" "re_problem response = None"
  shows "\<exists>corr cause auth p s1 c s2 tenants body tenant. trace_of env request = (corr, cause) \<and>
    dep_platformAuthenticator deps = Some auth \<and> auth (singleHeader request ''authorization'') corr s = (Inr p, s1) \<and>
    resolvePlatformCommandContext p corr cause (rv_now env) (fst s1) = (Inr c, fst s2) \<and> snd s2 = snd s1 \<and>
    dep_tenantCommands deps = Some tenants \<and> rq_body request = Parsed body \<and>
    (case rq_route request of
       Lifecycle verb target \<Rightarrow> (\<exists>version. expectedVersionOf (singleHeader request ''if-match'') = Inr version \<and>
         lifecycle_command tenants verb c \<lparr>tl_tenantId = target, tl_expectedVersion = version, tl_reason = body_reason body\<rparr> (metadataOf request) s2
           = (Inr tenant, s'))
     | _ \<Rightarrow> lc_provision tenants c \<lparr>pv_tenantId = js_text (js_prop body ''tenant_id''), pv_displayName = js_text (js_prop body ''display_name''),
         pv_initialAdministratorActorId = js_text (js_prop body ''initial_administrator_actor_id'')\<rparr> (metadataOf request) s2 = (Inr tenant, s'))"
proof -
  obtain corr cause state s1 body where tr: "trace_of env request = (corr, cause)"
    and on: "onRequest deps (mounted deps (rq_route request)) request corr cause s = (Inr state, s1)" and body: "rq_body request = Parsed body"
    and run: "run_route deps env (mounted deps (rq_route request)) request state body s1 = (Inr response, s')"
    by (rule serve_answered [OF assms(1,3)])
  obtain tenants where tenants: "dep_tenantCommands deps = Some tenants"
    using run assms(2) by (auto simp: mounted_def run_route_def split: if_splits option.splits)
  note m = mounted_platform [OF assms(2) tenants]
  have "mounted deps (rq_route request) \<noteq> Health" using m assms(2) by (auto simp: is_platform_def)
  with on obtain auth p where a: "dep_platformAuthenticator deps = Some auth" "auth (singleHeader request ''authorization'') corr s = (Inr p, s1)"
    and state: "state = \<lparr>st_correlationId = corr, st_causationId = cause, st_principal = Some p, st_tenantContext = None\<rparr>"
    using assms(2) by (auto elim!: onRequest_InrE simp: m)
  have ctx: "platformContext env state s1 = (Inr c, s2) \<longleftrightarrow>
      resolvePlatformCommandContext p corr cause (rv_now env) (fst s1) = (Inr c, fst s2) \<and> snd s2 = snd s1" for c s2
    by (simp add: platformContext_def state bindT_liftT principalOf_def on_trust_Inr_iff)
  show ?thesis
  proof (cases "rq_route request")
    case (Lifecycle verb target)
    then have "lifecycle_handler tenants verb target env request state body s1 = (Inr response, s')"
      using run tenants unfolding m by (auto simp: run_route_def validated_def app_stage_def split: prod.splits sum.splits if_splits)
    then obtain version c s2 tenant where "expectedVersionOf (singleHeader request ''if-match'') = Inr version"
      "platformContext env state s1 = (Inr c, s2)"
      "lifecycle_command tenants verb c \<lparr>tl_tenantId = target, tl_expectedVersion = version, tl_reason = body_reason body\<rparr> (metadataOf request) s2
         = (Inr tenant, s')"
      unfolding lifecycle_handler_def bindT_Inr_iff as_precondition_Inr_iff liftT_Inr_iff returnT_Inr_iff by blast
    then show ?thesis using tr a tenants body unfolding ctx Lifecycle route.case by blast
  next
    case Tenants
    then have "provision_handler tenants env request state body s1 = (Inr response, s')"
      using run tenants unfolding m by (auto simp: run_route_def validated_def app_stage_def split: prod.splits sum.splits if_splits)
    then obtain c s2 tenant where "platformContext env state s1 = (Inr c, s2)"
      "lc_provision tenants c \<lparr>pv_tenantId = js_text (js_prop body ''tenant_id''), pv_displayName = js_text (js_prop body ''display_name''),
         pv_initialAdministratorActorId = js_text (js_prop body ''initial_administrator_actor_id'')\<rparr> (metadataOf request) s2 = (Inr tenant, s')"
      unfolding provision_handler_def bindT_Inr_iff returnT_Inr_iff by blast
    then show ?thesis using tr a tenants body unfolding ctx Tenants route.case by blast
  qed (use assms(2) in \<open>simp_all add: is_platform_def\<close>)
qed

lemma sendProblem_no_success: "sendProblem env r e corr cause = (response, report) \<Longrightarrow> re_problem response \<noteq> None"
  using sendProblem_problem [of env r e corr cause] by auto

text \<open>The correlation ID of a request: the caller's when that is a valid trace ID, a generated one otherwise.\<close>

definition request_correlation :: "request_env \<Rightarrow> http_request \<Rightarrow> string" where
  "request_correlation env request =
     (case singleHeader request CORRELATION_ID_HEADER of Some c \<Rightarrow> if isValidTraceId c then c else rv_requestId env | None \<Rightarrow> rv_requestId env)"

lemma trace_of_correlation:
  assumes "isValidTraceId (rv_requestId env)"
  shows "fst (trace_of env request) = request_correlation env request \<and> isValidTraceId (request_correlation env request)"
  using assms by (auto simp: trace_of_def resolveTraceIds_def request_correlation_def split: option.splits)

lemma sendProblem_traced:
  assumes "isValidTraceId corr" "sendProblem env r e corr cause = (response, report)"
  shows "\<exists>q. re_problem response = Some q \<and> re_status response = problem_status (resp_code q) \<and> resp_correlation q = corr \<and>
    hd (re_headers response) = (CORRELATION_ID_HEADER, corr) \<and>
    (''www-authenticate'' \<in> fst ` set (re_headers response) \<longleftrightarrow> resp_code q = authentication_failed) \<and>
    length (re_errors response) \<le> 20 \<and> (report \<noteq> None \<longleftrightarrow> 500 \<le> re_status response)"
  using assms
  by (cases e) (auto simp: sendProblem_def mapErrorToProblemResponse_def pickCorrelationId_def toPlatformError_def CORRELATION_ID_HEADER_def
      internal_status Let_def split: prod.splits option.splits err.splits if_splits)

lemma handler_correlation:
  assumes "run_route deps env r request state body s = (Inr response, s')"
  shows "hd (re_headers response) = (CORRELATION_ID_HEADER, st_correlationId state) \<and> re_problem response = None \<and>
    re_status response \<in> {200, 201} \<and> re_errors response = []"
proof -
  have kept: "st_correlationId state' = st_correlationId state" if ok: "resolveTenant deps env request state body s = (Inr state', s1)" for state' s1
  proof -
    have "st_principal state \<noteq> None"
    proof
      assume "st_principal state = None"
      then show False using ok by (simp add: resolveTenant_def bindT_liftT principalOf_def)
    qed
    then show ?thesis using ok by (auto elim!: resolveTenant_InrE)
  qed
  show ?thesis
    using assms kept
    by (auto simp: run_route_def validated_def app_stage_def proofs_handler_def provision_handler_def lifecycle_handler_def bindT_Inr_iff mkResponse_def
        split: route.splits option.splits prod.splits sum.splits if_splits)
qed

text \<open>C20: Every answer is traceable and every error a catalogued problem. With valid generated identifiers, the
  first header of any response is the request's correlation ID, the caller's own when it is valid; an answer
  is either a success of a route, with status 200 or 201 and no report, or a problem whose status is the
  catalogued one of its code, which carries the same correlation ID, asks for a credential exactly when
  authentication failed, lists at most twenty field errors, and is reported to the operators exactly when
  it is a server error.\<close>

theorem every_answer_traceable:
  assumes "serve deps env request s = ((response, report), s')" "isValidTraceId (rv_requestId env)"
  shows "hd (re_headers response) = (CORRELATION_ID_HEADER, request_correlation env request) \<and>
    isValidTraceId (request_correlation env request) \<and> length (re_errors response) \<le> 20 \<and>
    (case re_problem response of
       None \<Rightarrow> re_status response \<in> {200, 201} \<and> report = None
     | Some q \<Rightarrow> re_status response = problem_status (resp_code q) \<and> resp_correlation q = request_correlation env request \<and>
         (''www-authenticate'' \<in> fst ` set (re_headers response) \<longleftrightarrow> resp_code q = authentication_failed) \<and>
         (report \<noteq> None \<longleftrightarrow> 500 \<le> re_status response))"
proof -
  obtain corr cause where tr: "trace_of env request = (corr, cause)" by fastforce
  then have corr: "corr = request_correlation env request" and valid: "isValidTraceId corr"
    using trace_of_correlation [OF assms(2), of request] by simp_all
  show ?thesis
  proof (cases "re_problem response")
    case None
    from serve_answered [OF assms(1) None] obtain state s1 body where
      on: "onRequest deps (mounted deps (rq_route request)) request corr cause s = (Inr state, s1)"
      and run: "run_route deps env (mounted deps (rq_route request)) request state body s1 = (Inr response, s')"
      using tr by (metis prod.inject)
    have "st_correlationId state = corr"
      using on by (auto simp: onRequest_def Let_def bindT_Inr_iff split: if_splits option.splits)
    moreover have "report = None"
      using assms(1) None by (auto simp: serve_def Let_def tr dest: sendProblem_no_success split: prod.splits sum.splits parsed_body.splits)
    ultimately show ?thesis using handler_correlation [OF run] None corr valid by auto
  next
    case (Some q)
    then obtain r e where "sendProblem env r e corr cause = (response, report)"
      using assms(1) by (auto simp: serve_def Let_def tr dest: handler_correlation split: prod.splits sum.splits parsed_body.splits)
    from sendProblem_traced [OF valid this] show ?thesis using Some corr valid by auto
  qed
qed

text \<open>A resolution that stops before the tenant's state is read: with a refusal, or because the tenant the body names
  cannot be read as text.\<close>

lemma js_String_Inl: "js_String v = Inl e \<Longrightarrow> e = TypeError"
proof (induction v arbitrary: e rule: js_String.induct)
  case (6 items)
  then show ?case by (auto simp: bindR_Inl_iff elim!: mapR_InlE split: if_splits)
qed (auto split: if_splits)

lemma body_tenant_Inl: "body_tenant body = Inl e \<Longrightarrow> e = TypeError"
  by (auto simp: body_tenant_def bindR_Inl_iff dest: js_String_Inl split: js_value.splits option.splits)

lemma resolveTenant_refused:
  assumes "st_principal state = Some p" "t \<notin> set (p_tenantMemberships (principals (fst s) ! p)) \<or> body_tenant body \<noteq> Inr None"
    "selected_tenant request (p_tenantMemberships (principals (fst s) ! p)) = Some t"
  shows "\<exists>e. (\<forall>deps. resolveTenant deps env request state body s = (Inl e, s)) \<and>
    (if blank t \<or> \<not> isl (body_tenant body)
     then \<exists>c k. c \<in> {authentication_failed, tenant_access_denied, untrusted_tenant_context} \<and> e = Problem c k None else e = TypeError)"
proof (cases "blank t")
  case True
  then show ?thesis unfolding resolveTenant_selected [OF assms(1) refl] assms(3) by auto
next
  case present: False
  show ?thesis
  proof (cases "body_tenant body")
    case (Inl e)
    then show ?thesis using present body_tenant_Inl [OF Inl] unfolding resolveTenant_selected [OF assms(1) refl] assms(3) by auto
  next
    case (Inr bodyTenant)
    then have looked: "\<not> (t \<in> set (p_tenantMemberships (principals (fst s) ! p)) \<and> bodyTenant = None)" using assms(2) by auto
    then have "\<exists>c k. c \<in> {authentication_failed, tenant_access_denied, untrusted_tenant_context} \<and>
        resolveTenantContext (resolution state p t ACTIVE bodyTenant) (rv_now env) (fst s) = (Inl (Problem c k None), fst s)"
      by (auto simp: resolveTenantContext_def resolution_def trust_op_defs)
    then obtain c k where c: "c \<in> {authentication_failed, tenant_access_denied, untrusted_tenant_context}"
      "on_trust (resolveTenantContext (resolution state p t ACTIVE bodyTenant) (rv_now env)) s = (Inl (Problem c k None), s)"
      unfolding on_trust_Inl_iff by blast
    then show ?thesis
      unfolding resolveTenant_selected [OF assms(1) refl] assms(3) option.case if_not_P [OF present] Inr sum.case if_not_P [OF looked]
      by (intro exI [of _ "Problem c k None"]) (simp add: bindT_def returnT_def present)
  qed
qed

text \<open>C19: A non-member learns nothing about a tenant. When the selected tenant is not among the authenticated
  principal's memberships, or the body names a tenant, the answer and the state do not depend on the tenant
  states at all, whether the tenant exists, is active or is closed, nor on the command; the application state is the
  one authentication left. The answer is a refusal, 400, 401 or 403, except when the named tenant cannot be read as
  text, an object with a \<open>toString\<close> entry of its own: that request, and only that one, is answered 500.\<close>

theorem non_member_learns_nothing:
  assumes "rq_route request = Proofs" "dep_foundationProof deps \<noteq> None" "rq_body request = Parsed body" "trace_of env request = (corr, cause)"
    "dep_authenticator deps (singleHeader request ''authorization'') corr s = (Inr p, s1)"
    "selected_tenant request (p_tenantMemberships (principals (fst s1) ! p)) = Some t"
    "t \<notin> set (p_tenantMemberships (principals (fst s1) ! p)) \<or> body_tenant body \<noteq> Inr None"
  shows "serve (deps\<lparr>dep_tenantStates := q, dep_foundationProof := Some cmd\<rparr>) env request s = serve deps env request s \<and>
    snd (serve deps env request s) = s1 \<and>
    re_status (fst (fst (serve deps env request s))) \<in> (if blank t \<or> \<not> isl (body_tenant body) then {400, 401, 403} else {500})"
proof -
  define state where "state = \<lparr>st_correlationId = corr, st_causationId = cause, st_principal = Some p, st_tenantContext = None\<rparr>"
  have "st_principal state = Some p" by (simp add: state_def)
  from resolveTenant_refused [OF this assms(7,6)] obtain e
    where e: "\<And>deps. resolveTenant deps env request state body s1 = (Inl e, s1)"
      and kind: "if blank t \<or> \<not> isl (body_tenant body)
        then \<exists>c k. c \<in> {authentication_failed, tenant_access_denied, untrusted_tenant_context} \<and> e = Problem c k None else e = TypeError" by blast
  have answer: "serve (deps\<lparr>dep_tenantStates := q, dep_foundationProof := f\<rparr>) env request s
      = (sendProblem env Proofs (App e) corr cause, s1)" if "f \<noteq> None" for q f
  proof -
    have "onRequest (deps\<lparr>dep_tenantStates := q, dep_foundationProof := f\<rparr>) Proofs request corr cause s = (Inr state, s1)"
      by (simp add: onRequest_def is_platform_def bindT_def assms(5) returnT_def state_def)
    then show ?thesis
      using that by (auto simp: e serve_def assms(1,3,4) mounted_def is_platform_def run_route_def)
  qed
  have self: "serve deps env request s = (sendProblem env Proofs (App e) corr cause, s1)"
    using answer [of "dep_foundationProof deps" "dep_tenantStates deps"] assms(2) by simp
  moreover have "re_status (fst (sendProblem env Proofs (App e) corr cause)) \<in> (if blank t \<or> \<not> isl (body_tenant body) then {400, 401, 403} else {500})"
    using kind by (auto simp: sendProblem_def toPlatformError_def mapErrorToProblemResponse_def problem_status_def Let_def split: if_splits)
  ultimately show ?thesis using answer [of "Some cmd" q] by simp
qed

text \<open>Lifecycle commands are conditional requests. For an authenticated operator and a valid request, a missing
  or malformed \<open>If-Match\<close> is answered without running anything; otherwise the command runs once with the stated
  version, its tenant is answered with the new version as entity tag, a stale version becomes a failed precondition
  with status 412, and every other failure is answered as the problem it is.\<close>

theorem lifecycle_conditional_request:
  assumes "rq_route request = Lifecycle verb target" "dep_tenantCommands deps = Some tenants" "dep_platformAuthenticator deps = Some auth"
    "rq_body request = Parsed body" "trace_of env request = (corr, cause)"
    "auth (singleHeader request ''authorization'') corr s = (Inr p, s1)"
    "dep_validateParam deps target = []" "dep_validate deps lifecycle_schema body = []"
    "resolvePlatformCommandContext p corr cause (rv_now env) (fst s1) = (Inr c, t2)"
  shows "serve deps env request s =
    (case expectedVersionOf (singleHeader request ''if-match'') of
       Inl e \<Rightarrow> (sendProblem env (rq_route request) (App e) corr cause, s1)
     | Inr version \<Rightarrow>
         (case lifecycle_command tenants verb c \<lparr>tl_tenantId = target, tl_expectedVersion = version, tl_reason = body_reason body\<rparr>
            (metadataOf request) (t2, snd s1) of
            (Inr tenant, s2) \<Rightarrow> ((\<lparr>re_status = 200, re_headers = [(CORRELATION_ID_HEADER, corr), (''etag'', etag (tr_version tenant))],
               re_body = tenantBody tenant, re_problem = None, re_errors = []\<rparr>, None), s2)
          | (Inl e, s2) \<Rightarrow> (sendProblem env (rq_route request)
              (App (if \<exists>k r. e = Problem tenant_version_conflict k r then Problem precondition_failed None None else e)) corr cause, s2)))"
proof -
  define state where "state = \<lparr>st_correlationId = corr, st_causationId = cause, st_principal = Some p, st_tenantContext = None\<rparr>"
  have on: "onRequest deps (Lifecycle verb target) request corr cause s = (Inr state, s1)"
    by (simp add: onRequest_def is_platform_def assms(3) bindT_def assms(6) returnT_def state_def)
  have ctx: "platformContext env state s1 = (Inr c, (t2, snd s1))"
    by (simp add: platformContext_def state_def bindT_liftT principalOf_def on_trust_Inr_iff assms(9))
  have k: "st_correlationId state = corr" by (simp add: state_def)
  have m: "mounted deps (Lifecycle verb target) = Lifecycle verb target"
    by (rule mounted_platform [OF _ assms(2)]) (simp add: is_platform_def)
  show ?thesis
    unfolding serve_def assms(1,4,5) Let_def prod.case m on sum.case parsed_body.case run_route_def route.case assms(2) option.case
      validated_def assms(7,8) app_stage_def lifecycle_handler_def bindT_liftT
    by (auto simp: as_precondition_def bindT_def ctx returnT_def mkResponse_def k split: sum.splits prod.splits err.splits)
qed

section \<open>Sample server\<close>

text \<open>A server with one principal, one active tenant, and commands that answer at once; \<open>close\<close> meets a stale version.\<close>

definition example_tenant :: tenant_representation where
  "example_tenant = \<lparr>tr_id = ''t1'', tr_displayName = ''T'', tr_state = ''ACTIVE'', tr_version = 2, tr_createdAt = ''a'', tr_updatedAt = ''b''\<rparr>"

definition example_deps :: "unit api_dependencies" where
  "example_deps =
     \<lparr>dep_authenticator = (\<lambda>h k. returnT 0), dep_platformAuthenticator = Some (\<lambda>h k. returnT 0),
      dep_tenantStates = (\<lambda>t k. returnT (Some ACTIVE)),
      dep_tenantCommands = Some \<lparr>lc_provision = (\<lambda>c i k. returnT example_tenant), lc_activate = (\<lambda>c i k. returnT example_tenant),
        lc_suspend = (\<lambda>c i k. returnT example_tenant), lc_reactivate = (\<lambda>c i k. returnT example_tenant),
        lc_close = (\<lambda>c i k. throwT (Problem tenant_version_conflict None None))\<rparr>,
      dep_foundationProof = Some (\<lambda>l k. returnT \<lparr>pr_proofRecordId = ''r1'', pr_label = l, pr_recordedAt = ''now''\<rparr>),
      dep_validate = (\<lambda>schema b. []), dep_validateParam = (\<lambda>t. [])\<rparr>"

definition example_headers :: "string option \<Rightarrow> string \<Rightarrow> header_value option" where
  "example_headers t h = (if h = ACTIVE_TENANT_HEADER then map_option OneValue t
     else if h = ''if-match'' then Some (OneValue (etag 1)) else if h = CORRELATION_ID_HEADER then Some (OneValue ''r1'') else None)"

definition example_http :: "route \<Rightarrow> string option \<Rightarrow> http_request" where
  "example_http r t = \<lparr>rq_route = r, rq_header = example_headers t, rq_body = Parsed (JObject [(''label'', JString ''x'')])\<rparr>"

definition example_http_env :: request_env where
  "example_http_env = \<lparr>rv_requestId = ''gen-1'', rv_traceId = ''gen-2'', rv_errorId = ''gen-3'', rv_now = 0\<rparr>"

lemma example_trace: "isValidTraceId ''r1''" "isValidTraceId ''gen-1''"
  by (simp_all add: isValidTraceId_def matches_head_tail_def is_trace_head_def is_trace_char_def is_lower_def is_upper_def is_digit_def less_eq_char_def)

lemma example_header_simps:
  "singleHeader (example_http r t) ACTIVE_TENANT_HEADER = t" "singleHeader (example_http r t) ''if-match'' = Some (etag 1)"
  "singleHeader (example_http r t) CORRELATION_ID_HEADER = Some ''r1''" "singleHeader (example_http r t) CAUSATION_ID_HEADER = None"
  "singleHeader (example_http r t) ''authorization'' = None" "singleHeader (example_http r t) IDEMPOTENCY_KEY_HEADER = None"
  "rq_route (example_http r t) = r" "rq_body (example_http r t) = Parsed (JObject [(''label'', JString ''x'')])"
  by (cases t; simp add: singleHeader_def example_http_def example_headers_def ACTIVE_TENANT_HEADER_def IDEMPOTENCY_KEY_HEADER_def
      CORRELATION_ID_HEADER_def CAUSATION_ID_HEADER_def)+

lemma example_trace_of: "trace_of example_http_env (example_http r t) = (''r1'', None)"
  by (simp add: trace_of_def example_header_simps resolveTraceIds_def example_trace)

lemma example_platform_context:
  "resolvePlatformCommandContext 0 ''r1'' None 0 example_trust = (Inr 0, snd (resolvePlatformCommandContext 0 ''r1'' None 0 example_trust))"
proof -
  have "platformContexts example_trust = []"
    by (simp add: example_trust_def issueAuthenticatedPrincipal_def example_principal_input_def trust_init_def isNonBlankString_def trim_def is_space_def Let_def)
  then show ?thesis
    by (simp add: resolvePlatformCommandContext_def trust_op_defs actorId_def example_trust_simps trim_def is_space_def)
qed

definition example_state :: request_state where
  "example_state = \<lparr>st_correlationId = ''r1'', st_causationId = None, st_principal = Some 0, st_tenantContext = None\<rparr>"

lemma example_state_simps [simp]: "st_principal example_state = Some 0" "st_correlationId example_state = ''r1''" "st_causationId example_state = None"
  by (simp_all add: example_state_def)

lemma example_deps_simps [simp]:
  "dep_authenticator example_deps h k s = (Inr 0, s)" "dep_platformAuthenticator example_deps = Some (\<lambda>h k. returnT 0)"
  "dep_tenantStates example_deps t k s = (Inr (Some ACTIVE), s)" "dep_validate example_deps = (\<lambda>schema b. [])" "dep_validateParam example_deps = (\<lambda>t. [])"
  "dep_foundationProof example_deps = Some (\<lambda>l k. returnT \<lparr>pr_proofRecordId = ''r1'', pr_label = l, pr_recordedAt = ''now''\<rparr>)"
  by (simp_all add: example_deps_def returnT_def)

lemma example_onRequest:
  "r \<noteq> Health \<Longrightarrow> onRequest example_deps r (example_http r t) ''r1'' None s = (Inr example_state, s)"
  by (simp add: onRequest_def bindT_def returnT_def example_state_def)

lemma example_resolveTenant:
  "resolveTenant example_deps example_http_env (example_http Proofs None) example_state (JObject [(''label'', JString ''x'')]) (example_trust, ()) =
   (Inr (example_state\<lparr>st_tenantContext := Some 0\<rparr>), (snd (resolveTenantContext example_resolve 0 example_trust), ()))"
proof -
  have t: "selected_tenant (example_http Proofs None) (p_tenantMemberships (principals (fst (example_trust, ())) ! 0)) = Some ''t1''" "\<not> blank ''t1''"
    by (simp_all add: selected_tenant_def example_header_simps example_trust_simps blank_def is_space_def)
  have r: "resolution example_state 0 ''t1'' ACTIVE None = example_resolve"
    by (simp add: resolution_def example_resolve_def)
  have c: "on_trust (resolveTenantContext example_resolve 0) (example_trust, ()) = (Inr 0, (snd (resolveTenantContext example_resolve 0 example_trust), ()))"
    by (simp add: on_trust_Inr_iff example_resolve_issued(1) [symmetric])
  have m: "''t1'' \<in> set (p_tenantMemberships (principals (fst (example_trust, ())) ! 0)) \<and> (None :: string option) = None"
    by (simp add: example_trust_simps)
  have b: "body_tenant (JObject [(''label'', JString ''x'')]) = Inr None" by (simp add: body_tenant_def)
  have n: "rv_now example_http_env = 0" by (simp add: example_http_env_def)
  show ?thesis
    unfolding resolveTenant_selected [OF example_state_simps(1) refl] t(1) option.case if_not_P [OF t(2)] b sum.case if_P [OF m] n
    by (simp add: bindT_def r c returnT_def)
qed

lemma example_proofs_answered:
  "re_problem (fst (fst (serve example_deps example_http_env (example_http Proofs None) (example_trust, ())))) = None"
proof -
  have "storage (snd (resolveTenantContext example_resolve 0 example_trust)) = None"
    by (simp add: resolveTenantContext_def trust_op_defs example_resolve_def example_trust_simps issue_context_def trim_def is_space_def)
  then show ?thesis
    by (simp add: serve_def example_header_simps example_trace_of mounted_def is_platform_def example_onRequest run_route_def example_resolveTenant
      validated_def app_stage_def proofs_handler_def inTenant_def run_in_tenant_def runWithTenantContext_eq example_resolve_issued(2) bindT_def returnT_def mkResponse_def)
qed

theorem tenant_work_under_own_membership_witness:
  "\<exists>ctx t1. activeTenantContext t1 = Some ctx \<and> tc_tenantId ctx = ''t1'' \<and> tc_actorId ctx = ''alice'' \<and> tc_correlationId ctx = ''r1''"
proof -
  define out where "out = serve example_deps example_http_env (example_http Proofs None) (example_trust, ())"
  have "serve example_deps example_http_env (example_http Proofs None) (example_trust, ()) = ((fst (fst out), snd (fst out)), snd out)"
    by (simp add: out_def)
  from tenant_work_under_own_membership [OF this, simplified example_header_simps, OF refl]
  obtain corr cause p s1 t s2 t3 ctx where "trace_of example_http_env (example_http Proofs None) = (corr, cause)"
    "dep_authenticator example_deps None corr (example_trust, ()) = (Inr p, s1)"
    "t \<in> set (p_tenantMemberships (principals (fst s1) ! p))" "dep_tenantStates example_deps t corr s1 = (Inr (Some ACTIVE), s2)"
    "activeTenantContext t3 = Some ctx" "tc_tenantId ctx = t" "tc_actorId ctx = p_actorId (principals (fst s2) ! p)" "tc_correlationId ctx = corr"
    using example_proofs_answered unfolding out_def by blast
  then show ?thesis by (intro exI [of _ ctx] exI [of _ t3]) (auto simp: example_trace_of example_trust_simps)
qed

lemma example_provision_answered:
  "re_problem (fst (fst (serve example_deps example_http_env (example_http Tenants None) (example_trust, ())))) = None"
proof -
  have "dep_tenantCommands example_deps \<noteq> None" by (simp add: example_deps_def)
  moreover have "lc_provision (the (dep_tenantCommands example_deps)) c i k s = (Inr example_tenant, s)" for c i k s
    by (simp add: example_deps_def returnT_def)
  moreover have "platformContext example_http_env example_state (example_trust, ()) =
      (Inr 0, (snd (resolvePlatformCommandContext 0 ''r1'' None 0 example_trust), ()))"
    using example_platform_context by (simp add: platformContext_def bindT_liftT principalOf_def on_trust_Inr_iff example_http_env_def)
  ultimately show ?thesis
    by (auto simp: serve_def example_header_simps example_trace_of mounted_def is_platform_def example_onRequest run_route_def validated_def app_stage_def
        provision_handler_def bindT_def returnT_def mkResponse_def)
qed

theorem platform_commands_for_operators_only_witness:
  "\<exists>auth p s1. dep_platformAuthenticator example_deps = Some auth \<and> auth None ''r1'' (example_trust, ()) = (Inr p, s1)"
proof -
  define out where "out = serve example_deps example_http_env (example_http Tenants None) (example_trust, ())"
  have "serve example_deps example_http_env (example_http Tenants None) (example_trust, ()) = ((fst (fst out), snd (fst out)), snd out)"
    by (simp add: out_def)
  from platform_commands_for_operators_only [OF this] example_provision_answered show ?thesis
    unfolding out_def example_header_simps example_trace_of is_platform_def by auto
qed

theorem every_answer_traceable_witness: "request_correlation example_http_env (example_http Unmatched None) = ''r1'' \<and> isValidTraceId ''r1''"
proof -
  define out where "out = serve example_deps example_http_env (example_http Unmatched None) (example_trust, ())"
  have "serve example_deps example_http_env (example_http Unmatched None) (example_trust, ()) = ((fst (fst out), snd (fst out)), snd out)"
    by (simp add: out_def)
  from every_answer_traceable [OF this] show ?thesis
    by (simp add: request_correlation_def example_header_simps example_trace example_http_env_def)
qed

definition unreadable_body :: js_value where
  "unreadable_body = JObject [(''tenant_id'', JObject [(''toString'', JNumber (Num 1))])]"

theorem non_member_learns_nothing_witness:
  "re_status (fst (fst (serve example_deps example_http_env (example_http Proofs (Some ''t2'')) (example_trust, ())))) \<in> {400, 401, 403} \<and>
   re_status (fst (fst (serve example_deps example_http_env ((example_http Proofs (Some ''t1''))\<lparr>rq_body := Parsed unreadable_body\<rparr>) (example_trust, ())))) = 500"
proof
  have a: "dep_authenticator example_deps (singleHeader r ''authorization'') ''r1'' (example_trust, ()) = (Inr 0, (example_trust, ()))" for r by simp
  have "selected_tenant (example_http Proofs (Some ''t2'')) (p_tenantMemberships (principals (fst (example_trust, ())) ! 0)) = Some ''t2''"
    "''t2'' \<notin> set (p_tenantMemberships (principals (fst (example_trust, ())) ! 0)) \<or> body_tenant (JObject [(''label'', JString ''x'')]) \<noteq> Inr None"
    by (simp_all add: example_header_simps selected_tenant_def example_trust_simps)
  from non_member_learns_nothing [OF example_header_simps(7) _ example_header_simps(8) example_trace_of a this]
  show "re_status (fst (fst (serve example_deps example_http_env (example_http Proofs (Some ''t2'')) (example_trust, ())))) \<in> {400, 401, 403}"
    by (simp add: body_tenant_def)
  let ?request = "(example_http Proofs (Some ''t1''))\<lparr>rq_body := Parsed unreadable_body\<rparr>"
  have h: "singleHeader ?request k = singleHeader (example_http Proofs (Some ''t1'')) k" for k by (simp add: singleHeader_def)
  have "rq_route ?request = Proofs" "rq_body ?request = Parsed unreadable_body" "trace_of example_http_env ?request = (''r1'', None)"
    "selected_tenant ?request (p_tenantMemberships (principals (fst (example_trust, ())) ! 0)) = Some ''t1''"
    "''t1'' \<notin> set (p_tenantMemberships (principals (fst (example_trust, ())) ! 0)) \<or> body_tenant unreadable_body \<noteq> Inr None"
    using example_trace_of [of Proofs "Some ''t1''"]
    by (simp_all only: h trace_of_def selected_tenant_def) (simp_all add: example_header_simps body_tenant_def unreadable_body_def)
  from non_member_learns_nothing [OF this(1) _ this(2,3) a this(4,5)]
  show "re_status (fst (fst (serve example_deps example_http_env ?request (example_trust, ())))) = 500"
    by (simp add: body_tenant_def unreadable_body_def blank_def is_space_def)
qed

theorem lifecycle_conditional_request_witness:
  "re_status (fst (fst (serve example_deps example_http_env (example_http (Lifecycle verb_close ''t1'') None) (example_trust, ())))) = 412"
proof -
  obtain tenants where tenants: "dep_tenantCommands example_deps = Some tenants" by (simp add: example_deps_def)
  then have close: "lc_close tenants c i k s = (Inl (Problem tenant_version_conflict None None), s)" for c i k s
    by (auto simp: example_deps_def throwT_def)
  have a: "(\<lambda>h k. returnT 0) (singleHeader (example_http (Lifecycle verb_close ''t1'') None) ''authorization'') ''r1'' (example_trust, ()) = (Inr 0, (example_trust, ()))"
    by (simp add: returnT_def)
  have "trim (etag 1) = etag 1" using trim_outer [OF quote_facts(1,1), of "nat_str 1"] by (simp add: etag_def json_int_def)
  then obtain version where v: "expectedVersionOf (Some (etag 1)) = Inr version" using if_match_etag(1) [of 1] by (simp add: expectedVersionOf_def)
  have "dep_validateParam example_deps ''t1'' = []" "dep_validate example_deps lifecycle_schema (JObject [(''label'', JString ''x'')]) = []"
    "resolvePlatformCommandContext 0 ''r1'' None (rv_now example_http_env) (fst (example_trust, ())) =
       (Inr 0, snd (resolvePlatformCommandContext 0 ''r1'' None 0 example_trust))"
    using example_platform_context by (simp_all add: example_http_env_def)
  from lifecycle_conditional_request [OF example_header_simps(7) tenants example_deps_simps(2) example_header_simps(8) example_trace_of a this]
  show ?thesis
    by (simp add: example_header_simps v lifecycle_command_def close sendProblem_def toPlatformError_def mapErrorToProblemResponse_def problem_status_def Let_def)
qed

end
