(* ===== verification/Jwt_Verifier.thy ===== *)
theory Jwt_Verifier
  imports Authentication Identity_Store
begin

text \<open>
  \<open>modules/identity-tenant/infrastructure/jose/jwt-verifier.ts\<close>: the credential verifier for signed tokens. The library
  call \<open>jwtVerify\<close> is a parameter, a function of the token, the provider's key set and the options the adapter
  passes; it returns the token's payload or throws. Key sets are opaque. Building key sets (\<open>remoteKeySet\<close>,
  \<open>localKeySet\<close>) only configures the library and is not modelled. The \<open>exp\<close> and \<open>nbf\<close> claims are numbers or
  absent, as the payload type says.

  The lemmas compose the verifier with the authentication policy: a session that was issued goes back to a
  payload the library accepted for that provider's keys, issuer and audiences, under an asymmetric algorithm,
  and its subject, tenants and roles are what the payload says.
\<close>

section \<open>Model\<close>

definition DEFAULT_ALGORITHMS :: "string list" where
  "DEFAULT_ALGORITHMS = [''RS256'', ''PS256'', ''ES256'', ''EdDSA'']"

record 'k jwt_provider =
  jp_keys :: 'k
  jp_algorithms :: "string list option"
  jp_tenantClaim :: "string option"
  jp_platformRoleClaim :: "string option"
  jp_maxTokenAgeSeconds :: "int option"
  jp_type :: "string option"

record jwt_options =
  jo_algorithms :: "string list"
  jo_issuer :: string
  jo_audience :: "string list"
  jo_clockTolerance :: int
  jo_currentDate :: date
  jo_maxTokenAge :: int
  jo_requiredClaims :: "string list"
  jo_typ :: "string option"

type_synonym jwt_payload = "(string \<times> js_value) list"
type_synonym 'k jwt_verify = "string \<Rightarrow> 'k \<Rightarrow> jwt_options \<Rightarrow> jwt_payload res"

definition payload_claim :: "jwt_payload \<Rightarrow> string \<Rightarrow> js_value" where
  "payload_claim payload k = (case map_of payload k of None \<Rightarrow> JUndefined | Some v \<Rightarrow> v)"

definition js_is_string :: "js_value \<Rightarrow> bool" where
  "js_is_string v = (case v of JString _ \<Rightarrow> True | _ \<Rightarrow> False)"

definition stringArray :: "js_value \<Rightarrow> string list res" where
  "stringArray v = (case v of
     JUndefined \<Rightarrow> Inr []
   | JArray items \<Rightarrow> if list_ex (\<lambda>i. \<not> js_is_string i) items then Inl TypeError else Inr (map js_text items)
   | _ \<Rightarrow> Inl TypeError)"

text \<open>\<open>String.prototype.split\<close> at a space.\<close>

fun split_space :: "string \<Rightarrow> string list" where
  "split_space [] = [[]]"
| "split_space (c # cs) = (if c = CHR '' '' then [] # split_space cs else (c # hd (split_space cs)) # tl (split_space cs))"

definition scopesOf :: "jwt_payload \<Rightarrow> string list res" where
  "scopesOf payload = (case payload_claim payload ''scope'' of
     JString s \<Rightarrow> Inr (filter (\<lambda>scope. length scope > 0) (split_space s))
   | _ \<Rightarrow> stringArray (payload_claim payload ''scp''))"

definition instant_of :: "js_value \<Rightarrow> instant option res" where
  "instant_of seconds = (case seconds of
     JUndefined \<Rightarrow> Inr None
   | JNumber (Num n) \<Rightarrow> bindR (toISOString (mkDate (n * 1000))) (\<lambda>t. Inr (Some t))
   | JNumber NegZero \<Rightarrow> Inr (Some 0)
   | _ \<Rightarrow> Inl RangeError)"

definition is_sized_algorithm :: "string \<Rightarrow> bool" where
  "is_sized_algorithm a \<longleftrightarrow> take 2 a \<in> {''RS'', ''PS'', ''ES''} \<and> drop 2 a \<in> {''256'', ''384'', ''512''}"

definition provider_algorithms :: "'k jwt_provider \<Rightarrow> string list" where
  "provider_algorithms provider = (case jp_algorithms provider of None \<Rightarrow> DEFAULT_ALGORITHMS | Some as \<Rightarrow> as)"

definition verify_options :: "'k jwt_provider \<Rightarrow> idp_policy \<Rightarrow> date \<Rightarrow> jwt_options" where
  "verify_options provider policy now =
     \<lparr>jo_algorithms = provider_algorithms provider, jo_issuer = ip_issuer policy, jo_audience = ip_allowedAudiences policy,
      jo_clockTolerance = ip_clockSkewSeconds policy, jo_currentDate = now,
      jo_maxTokenAge = (case jp_maxTokenAgeSeconds provider of None \<Rightarrow> 3600 | Some n \<Rightarrow> n),
      jo_requiredClaims = [''iss'', ''sub'', ''aud'', ''exp'', ''iat'', ''jti''], jo_typ = jp_type provider\<rparr>"

definition claims_from :: "'k jwt_provider \<Rightarrow> idp_policy \<Rightarrow> jwt_payload \<Rightarrow> credential_claims res" where
  "claims_from provider policy payload =
     bindR (stringArray (payload_claim payload (case jp_tenantClaim provider of None \<Rightarrow> ''sintius_tenants'' | Some c \<Rightarrow> c))) (\<lambda>tenants.
     bindR (stringArray (payload_claim payload ''amr'')) (\<lambda>methods.
     bindR (stringArray (payload_claim payload (case jp_platformRoleClaim provider of None \<Rightarrow> ''sintius_platform_roles'' | Some c \<Rightarrow> c))) (\<lambda>roles.
     bindR (instant_of (payload_claim payload ''nbf'')) (\<lambda>notBefore.
     bindR (js_String (payload_claim payload ''jti'')) (\<lambda>credentialId.
     bindR (js_String (payload_claim payload ''sub'')) (\<lambda>subject.
     bindR (js_String (payload_claim payload ''iss'')) (\<lambda>issuer.
     bindR (case payload_claim payload ''aud'' of JArray items \<Rightarrow> Inr (map js_text items) | v \<Rightarrow> bindR (js_String v) (\<lambda>audience. Inr [audience])) (\<lambda>audiences.
     bindR (mapR tenantId tenants) (\<lambda>tenantIds.
     bindR (scopesOf payload) (\<lambda>scopes.
     bindR (instant_of (payload_claim payload ''exp'')) (\<lambda>expiresAt. Inr
       \<lparr>cl_mechanism = ip_mechanism policy, cl_credentialId = credentialId, cl_subject = subject, cl_issuer = issuer, cl_audiences = audiences,
        cl_tenantIds = tenantIds, cl_authenticationMethods = methods, cl_scopes = scopes, cl_expiresAt = expiresAt,
        cl_notBefore = map_option Some notBefore, cl_platformRoles = (if length roles = 0 then None else Some roles)\<rparr>)))))))))))"

definition jwt_verify_credential :: "'k jwt_verify \<Rightarrow> (string \<times> 'k jwt_provider) list \<Rightarrow> date \<Rightarrow> string \<Rightarrow> idp_policy \<Rightarrow> credential_claims res" where
  "jwt_verify_credential jwtVerify providers now rawCredential policy =
     (if ip_mechanism policy = saml then Inl Error
      else case map_of providers (ip_id policy) of
        None \<Rightarrow> Inl Error
      | Some provider \<Rightarrow>
          bindR (jwtVerify rawCredential (jp_keys provider) (verify_options provider policy now)) (\<lambda>payload. claims_from provider policy payload))"

definition createJwtCredentialVerifier :: "'k jwt_verify \<Rightarrow> (string \<times> 'k jwt_provider) list \<Rightarrow> (date \<Rightarrow> string \<Rightarrow> idp_policy \<Rightarrow> credential_claims res) res" where
  "createJwtCredentialVerifier jwtVerify providers =
     (if list_ex (\<lambda>(i, provider). list_ex (\<lambda>a. a \<notin> set DEFAULT_ALGORITHMS \<and> \<not> is_sized_algorithm a) (provider_algorithms provider)) providers
      then Inl TypeError else Inr (jwt_verify_credential jwtVerify providers))"

section \<open>Where a session comes from\<close>

text \<open>A signature algorithm with a public and a private key.\<close>

definition asymmetric :: "string \<Rightarrow> bool" where
  "asymmetric a \<longleftrightarrow> a \<in> {''RS256'', ''RS384'', ''RS512'', ''PS256'', ''PS384'', ''PS512'', ''ES256'', ''ES384'', ''ES512'', ''EdDSA''}"

lemma sized_asymmetric: "is_sized_algorithm a \<Longrightarrow> asymmetric a"
proof -
  assume "is_sized_algorithm a"
  then obtain p n where "p \<in> {''RS'', ''PS'', ''ES''}" "n \<in> {''256'', ''384'', ''512''}" "a = p @ n"
    unfolding is_sized_algorithm_def by (metis append_take_drop_id)
  then show ?thesis unfolding asymmetric_def by (elim insertE emptyE) simp_all
qed

lemma default_asymmetric: "a \<in> set DEFAULT_ALGORITHMS \<Longrightarrow> asymmetric a"
  by (auto simp: DEFAULT_ALGORITHMS_def asymmetric_def)

lemma created_algorithms:
  assumes "createJwtCredentialVerifier jwtVerify providers = Inr verifier" "map_of providers i = Some provider" "a \<in> set (provider_algorithms provider)"
  shows "asymmetric a"
  using assms map_of_SomeD [OF assms(2)] sized_asymmetric default_asymmetric
  by (fastforce simp: createJwtCredentialVerifier_def list_ex_iff split: if_splits)

lemma stringArray_Inr_iff: "stringArray v = Inr xs \<longleftrightarrow> (v = JUndefined \<and> xs = []) \<or> v = JArray (map JString xs)"
proof -
  have "(\<forall>i\<in>set items. js_is_string i) \<and> xs = map js_text items \<longleftrightarrow> items = map JString xs" for items
  proof (induction items arbitrary: xs)
    case (Cons i items)
    then show ?case by (cases i; cases xs) (auto simp: js_is_string_def)
  qed auto
  moreover have "map (js_text \<circ> JString) xs = xs" by (simp add: comp_def)
  ultimately show ?thesis by (cases v) (auto simp: stringArray_def list_ex_iff)
qed

lemma claims_from_Inr:
  assumes "claims_from provider policy payload = Inr claims"
  shows "stringArray (payload_claim payload (case jp_tenantClaim provider of None \<Rightarrow> ''sintius_tenants'' | Some c \<Rightarrow> c)) = Inr (cl_tenantIds claims) \<and>
    js_String (payload_claim payload ''sub'') = Inr (cl_subject claims) \<and> js_String (payload_claim payload ''jti'') = Inr (cl_credentialId claims) \<and>
    js_String (payload_claim payload ''iss'') = Inr (cl_issuer claims) \<and> cl_mechanism claims = ip_mechanism policy"
proof -
  have ids: "mapR tenantId ts = Inr us \<Longrightarrow> us = ts" for ts us
  proof (induction ts arbitrary: us)
    case (Cons t ts)
    then show ?case by (auto simp: bindR_Inr_iff tenantId_def ctx_requireNonBlank_def split: if_splits)
  qed simp
  show ?thesis using assms by (auto simp: claims_from_def bindR_Inr_iff dest!: ids)
qed

section \<open>Properties\<close>

text \<open>C34: A session is grounded in a signed token. If the verifier was built and an attempt through any entry point
  succeeded with it, then the provider has configured keys, the library accepted the token for exactly
  those keys and for the policy's issuer and audiences, and, as the library accepts only the algorithms it is given,
  the token was signed with an asymmetric algorithm. Actor and credential of the session are the texts of the token's
  subject and identifier, and each of its tenants is listed in the token's tenant claim.\<close>

theorem jwt_session_grounded:
  assumes "createJwtCredentialVerifier jwtVerify providers = Inr verifier" "an_verify env = verifier now"
    and "\<forall>raw keys options payload. jwtVerify raw keys options = Inr payload \<longrightarrow> algorithm raw \<in> set (jo_algorithms options)"
    and "authenticate env entry input s = (Inr r, s')"
  shows "\<exists>policy provider payload p. an_policies env (ain_providerId input) = Inr (Some policy) \<and> map_of providers (ip_id policy) = Some provider \<and>
    jwtVerify (ain_rawCredential input) (jp_keys provider) (verify_options provider policy now) = Inr payload \<and> asymmetric (algorithm (ain_rawCredential input)) \<and>
    ax_trust s' = with_principal (ax_trust s) p \<and> js_String (payload_claim payload ''sub'') = Inr (p_actorId p) \<and>
    js_String (payload_claim payload ''jti'') = Inr (p_credentialId p) \<and> p_issuer p = ip_issuer policy \<and>
    (p_tenantMemberships p \<noteq> [] \<longrightarrow> (\<exists>tenants. payload_claim payload (case jp_tenantClaim provider of None \<Rightarrow> ''sintius_tenants'' | Some c \<Rightarrow> c) = JArray (map JString tenants) \<and>
       set (p_tenantMemberships p) = set tenants))"
proof -
  obtain p where p: "grants env entry input p" "ax_trust s' = with_principal (ax_trust s) p" using assms(4) by (rule authenticate_Inr)
  obtain policy claims where g: "an_policies env (ain_providerId input) = Inr (Some policy)" "an_verify env (ain_rawCredential input) policy = Inr claims"
    "cl_issuer claims = ip_issuer policy"
    and c: "p_actorId p = cl_subject claims" "p_credentialId p = cl_credentialId claims" "p_issuer p = cl_issuer claims"
    "p_tenantMemberships p = uniq (cl_tenantIds claims)"
    using granted_claims [OF p(1)] by blast
  have v: "verifier = jwt_verify_credential jwtVerify providers" using assms(1) by (auto simp: createJwtCredentialVerifier_def split: if_splits)
  obtain provider payload where j: "map_of providers (ip_id policy) = Some provider"
    "jwtVerify (ain_rawCredential input) (jp_keys provider) (verify_options provider policy now) = Inr payload" "claims_from provider policy payload = Inr claims"
    using g(2) by (auto simp: assms(2) v jwt_verify_credential_def bindR_Inr_iff split: if_splits option.splits)
  have "algorithm (ain_rawCredential input) \<in> set (provider_algorithms provider)" using assms(3) j(2) by (fastforce simp: verify_options_def)
  then have "asymmetric (algorithm (ain_rawCredential input))" by (rule created_algorithms [OF assms(1) j(1)])
  moreover have "\<exists>tenants. payload_claim payload (case jp_tenantClaim provider of None \<Rightarrow> ''sintius_tenants'' | Some c \<Rightarrow> c) = JArray (map JString tenants) \<and>
       set (p_tenantMemberships p) = set tenants" if "p_tenantMemberships p \<noteq> []"
    using claims_from_Inr [OF j(3)] that by (auto simp: c(4) stringArray_Inr_iff)
  ultimately show ?thesis using g(1,3) j(1,2) p(2) c(1-3) claims_from_Inr [OF j(3)] by (intro exI [of _ policy] exI [of _ provider] exI [of _ payload] exI [of _ p]) simp
qed

section \<open>A concrete token\<close>

definition example_jwt :: "unit jwt_verify" where
  "example_jwt raw keys options = (if raw = ''tok'' \<and> ''ES256'' \<in> set (jo_algorithms options) then Inr
     [(''iss'', JString ''iss''), (''sub'', JString ''u''), (''aud'', JString ''api''), (''jti'', JString ''j1''), (''exp'', JNumber (Num 100)),
      (''iat'', JNumber (Num 40)), (''amr'', JArray [JString ''mfa'']), (''sintius_tenants'', JArray [JString ''t''])] else Inl Error)"

definition example_providers :: "(string \<times> unit jwt_provider) list" where
  "example_providers = [(''idp'', \<lparr>jp_keys = (), jp_algorithms = None, jp_tenantClaim = None, jp_platformRoleClaim = None, jp_maxTokenAgeSeconds = None, jp_type = None\<rparr>)]"

definition example_jwt_env :: auth_env where
  "example_jwt_env = example_auth_env\<lparr>an_verify := jwt_verify_credential example_jwt example_providers (Some 50000)\<rparr>"

lemma example_created: "createJwtCredentialVerifier example_jwt example_providers = Inr (jwt_verify_credential example_jwt example_providers)"
  by (simp add: createJwtCredentialVerifier_def example_providers_def provider_algorithms_def DEFAULT_ALGORITHMS_def)

lemma example_jwt_claims:
  "an_verify example_jwt_env ''tok'' example_idp = Inr \<lparr>cl_mechanism = oidc, cl_credentialId = ''j1'', cl_subject = ''u'', cl_issuer = ''iss'',
     cl_audiences = [''api''], cl_tenantIds = [''t''], cl_authenticationMethods = [''mfa''], cl_scopes = [], cl_expiresAt = Some 100000, cl_notBefore = None, cl_platformRoles = None\<rparr>"
  by (simp add: example_jwt_env_def jwt_verify_credential_def example_idp_def example_providers_def example_jwt_def verify_options_def provider_algorithms_def
      DEFAULT_ALGORITHMS_def claims_from_def payload_claim_def stringArray_def js_is_string_def instant_of_def mkDate_def scopesOf_def
      tenantId_def ctx_requireNonBlank_def trim_def is_space_def)

lemma example_jwt_login: "\<exists>s'. authenticate example_jwt_env tenant_user (example_login ''tok'') example_fresh = (Inr 0, s')"
proof -
  let ?c = "\<lparr>cl_mechanism = oidc, cl_credentialId = ''j1'', cl_subject = ''u'', cl_issuer = ''iss'',
     cl_audiences = [''api''], cl_tenantIds = [''t''], cl_authenticationMethods = [''mfa''], cl_scopes = [], cl_expiresAt = Some 100000, cl_notBefore = None, cl_platformRoles = None\<rparr>"
  let ?p = "\<lparr>p_actorId = ''u'', p_kind = interactive, p_tenantMemberships = [''t''], p_assurance = mfa, p_credentialId = ''j1'', p_issuer = ''iss'',
    p_audiences = [''api''], p_scopes = [], p_expiresAt = 100000\<rparr>"
  have v: "an_verify example_jwt_env ''tok'' example_idp = Inr ?c" by (rule example_jwt_claims)
  have "admitted example_jwt_env (example_login ''tok'') [oidc, saml] example_idp ?c"
    unfolding admitted_def using v by (simp add: base_claims_ok_def example_jwt_env_def example_auth_defs blank_def is_space_def)
  moreover have "interactive_content ''api'' example_idp ?c ?p"
    by (simp add: interactive_content_def example_idp_def blank_def is_space_def)
  ultimately have "\<exists>s'. authenticateInteractive example_jwt_env (example_login ''tok'') example_fresh = (Inr 0, s') \<and> ax_trust s' = with_principal trust_init ?p"
    unfolding interactive_exact by (auto simp: example_login_def example_fresh_def trust_init_def)
  then show ?thesis by auto
qed

theorem jwt_session_grounded_witness:
  "\<exists>s'. authenticate example_jwt_env tenant_user (example_login ''tok'') example_fresh = (Inr 0, s') \<and>
     (\<exists>p. ax_trust s' = with_principal trust_init p \<and> p_actorId p = ''u'' \<and> p_issuer p = ''iss'')"
proof -
  obtain s' where run: "authenticate example_jwt_env tenant_user (example_login ''tok'') example_fresh = (Inr 0, s')" using example_jwt_login by blast
  have env: "an_verify example_jwt_env = jwt_verify_credential example_jwt example_providers (Some 50000)" by (simp add: example_jwt_env_def)
  have alg: "\<forall>raw keys options payload. example_jwt raw keys options = Inr payload \<longrightarrow> (\<lambda>_. ''ES256'') raw \<in> set (jo_algorithms options)"
    by (auto simp: example_jwt_def split: if_splits)
  have sub: "payload_claim payload ''sub'' = JString ''u''" if "example_jwt raw keys options = Inr payload" for raw keys options payload
    using that by (auto simp: example_jwt_def payload_claim_def split: if_splits)
  have pol: "ip_issuer policy = ''iss''" if "an_policies example_jwt_env i = Inr (Some policy)" for i policy
    using that by (auto simp: example_jwt_env_def example_auth_env_def example_idp_def split: if_splits)
  have "\<exists>p. ax_trust s' = with_principal (ax_trust example_fresh) p \<and> p_actorId p = ''u'' \<and> p_issuer p = ''iss''"
  proof -
    from jwt_session_grounded [OF example_created env alg run] obtain policy provider payload p where
      "an_policies example_jwt_env (ain_providerId (example_login ''tok'')) = Inr (Some policy)"
      "example_jwt (ain_rawCredential (example_login ''tok'')) (jp_keys provider) (verify_options provider policy (Some 50000)) = Inr payload"
      "ax_trust s' = with_principal (ax_trust example_fresh) p" "js_String (payload_claim payload ''sub'') = Inr (p_actorId p)" "p_issuer p = ip_issuer policy"
      by (elim exE conjE) rule
    then show ?thesis using sub pol by (intro exI [of _ p]) simp
  qed
  then show ?thesis using run by (simp add: example_fresh_def)
qed

end
