(* ===== verification/Api_Composition.thy ===== *)
theory Api_Composition
  imports Http_Server Jwt_Verifier Role_Administration
begin

text \<open>
  \<open>apps/api/src/composition/postgres.ts\<close> and \<open>apps/api/src/main.ts\<close>: the composition root. The dependencies of the HTTP
  ingress are the modelled components themselves: the bearer authenticators over the authentication service, the
  tenant state reader and the tenant commands over the identity tables, and the proof command over the proof
  records with the audit and outbox tables they share with the identity module. The application state is the
  database beside the trusted state; the readings of one request (clock, identifiers) are in \<open>composition_env\<close>.
  Key sets and the signature library stay parameters, and the connection pools are not modelled.

  The lemmas follow a request through the whole stack, from its raw credential to the tables: what a
  request changed, whichever answer it got, was authorized for the identity its credential proves.
\<close>

section \<open>Model: the application state\<close>

record api_db =
  svc_table :: idem_table
  svc_db :: identity_db
  svc_proofs :: "proof_record list"
  svc_revocations :: "(string \<times> string) set"

record composition_env =
  cx_sha256 :: "string \<Rightarrow> string"
  cx_redact :: "string \<Rightarrow> string"
  cx_now :: date
  cx_executorNow :: date
  cx_auditNow :: date
  cx_eventId :: string
  cx_auditId :: string
  cx_proofRecordId :: string

text \<open>The identity module's tables inside the application state.\<close>

definition on_identity_tables :: "(trust \<Rightarrow> (command_db, 'a) tx) \<Rightarrow> (api_db api, 'a) tx" where
  "on_identity_tables m = (\<lambda>(t, s). case m t (svc_table s, svc_db s) of (r, (table, db)) \<Rightarrow> (r, (t, s\<lparr>svc_table := table, svc_db := db\<rparr>)))"

text \<open>The tables of the proof module: its own records, and the shared tenant, audit and outbox tables.\<close>

definition proof_tables :: "api_db \<Rightarrow> proof_db" where
  "proof_tables s = \<lparr>pd_tenants = dom (db_tenants (svc_db s)), pd_records = svc_proofs s, pd_audit = db_audit (svc_db s), pd_outbox = db_outbox (svc_db s)\<rparr>"

definition with_proof_tables :: "api_db \<Rightarrow> proof_db \<Rightarrow> api_db" where
  "with_proof_tables s pd = s\<lparr>svc_proofs := pd_records pd, svc_db := (svc_db s)\<lparr>db_audit := pd_audit pd, db_outbox := pd_outbox pd\<rparr>\<rparr>"

definition on_proof_tables :: "(trust \<Rightarrow> identity_db \<Rightarrow> (idem_table \<times> proof_db, 'a) tx) \<Rightarrow> (api_db api, 'a) tx" where
  "on_proof_tables m = (\<lambda>(t, s). case m t (svc_db s) (svc_table s, proof_tables s) of (r, (table, pd)) \<Rightarrow> (r, (t, with_proof_tables (s\<lparr>svc_table := table\<rparr>) pd)))"

section \<open>Model: the composition root\<close>

record postgres_options =
  po_authenticator :: "api_db request_authenticator"
  po_platformAuthenticator :: "api_db request_authenticator"
  po_platformAuthorizer :: "platform_authorizer option"
  po_enableFoundationProof :: bool

definition audit_recorder :: "composition_env \<Rightarrow> audit_policy \<Rightarrow> audit_deps" where
  "audit_recorder env policy = \<lparr>ad_policy = policy, ad_redact = cx_redact env, ad_sha256 = cx_sha256 env\<rparr>"

definition tenant_states :: "string \<Rightarrow> string \<Rightarrow> (api_db api, tenant_state option) tx" where
  "tenant_states tenant correlationId =
     bindT (on_identity_tables (\<lambda>_. runInTransaction (outside_table (tenants_findById tenant tenant)))) (\<lambda>found. returnT (map_option t_state found))"

definition representation :: "tenant_view \<Rightarrow> tenant_representation" where
  "representation v = \<lparr>tr_id = tv_id v, tr_displayName = tv_displayName v, tr_state = state_text (tv_state v), tr_version = tv_version v,
     tr_createdAt = tv_createdAt v, tr_updatedAt = tv_updatedAt v\<rparr>"

definition tenant_command_env :: "composition_env \<Rightarrow> audit_deps \<Rightarrow> trust \<Rightarrow> command_env" where
  "tenant_command_env env audit t =
     \<lparr>ce_trust = t, ce_audit = audit, ce_sha256 = cx_sha256 env, ce_now = cx_now env, ce_executorNow = cx_executorNow env, ce_auditNow = cx_auditNow env,
      ce_eventId = cx_eventId env, ce_auditId = cx_auditId env\<rparr>"

definition run_command :: "composition_env \<Rightarrow> audit_deps \<Rightarrow> (command_env \<Rightarrow> (command_db, tenant_view) tx) \<Rightarrow> (api_db api, tenant_representation) tx" where
  "run_command env audit m =
     bindT (on_identity_tables (\<lambda>t. m (tenant_command_env env audit t))) (\<lambda>v. returnT (representation v))"

definition tenant_commands :: "composition_env \<Rightarrow> audit_deps \<Rightarrow> platform_authorizer \<Rightarrow> api_db lifecycle_commands" where
  "tenant_commands env audit authorizer =
     \<lparr>lc_provision = (\<lambda>c input key. run_command env audit (\<lambda>ce. provision ce authorizer c input key)),
      lc_activate = (\<lambda>c input key. run_command env audit (\<lambda>ce. activateTenant ce authorizer c input key)),
      lc_suspend = (\<lambda>c input key. run_command env audit (\<lambda>ce. suspendTenant ce authorizer c input key)),
      lc_reactivate = (\<lambda>c input key. run_command env audit (\<lambda>ce. reactivateTenant ce authorizer c input key)),
      lc_close = (\<lambda>c input key. run_command env audit (\<lambda>ce. closeTenant ce authorizer c input key))\<rparr>"

definition proof_command_env :: "composition_env \<Rightarrow> audit_deps \<Rightarrow> tenant_context option \<Rightarrow> identity_db \<Rightarrow> proof_env" where
  "proof_command_env env audit ambient db =
     \<lparr>fe_authorizer = (\<lambda>permission. assertPermission (loadAssignedRoles db) None ambient permission []), fe_audit = audit, fe_sha256 = cx_sha256 env,
      fe_now = cx_now env, fe_executorNow = cx_executorNow env, fe_auditNow = cx_auditNow env, fe_proofRecordId = cx_proofRecordId env,
      fe_eventId = cx_eventId env, fe_auditId = cx_auditId env\<rparr>"

definition proof_command :: "composition_env \<Rightarrow> audit_deps \<Rightarrow> string \<Rightarrow> string option \<Rightarrow> (api_db api, proof_result) tx" where
  "proof_command env audit label key = on_proof_tables (\<lambda>t db.
     recordFoundationProof (proof_command_env env audit (activeTenantContext t) db) (activeTenantContext t) label key)"

definition api_dependencies_of :: "composition_env \<Rightarrow> postgres_options \<Rightarrow> audit_deps \<Rightarrow> (body_schema \<Rightarrow> js_value \<Rightarrow> validation_issue list) \<Rightarrow>
    (string \<Rightarrow> validation_issue list) \<Rightarrow> api_db api_dependencies" where
  "api_dependencies_of env options audit check checkParam =
     \<lparr>dep_authenticator = po_authenticator options, dep_platformAuthenticator = Some (po_platformAuthenticator options), dep_tenantStates = tenant_states,
      dep_tenantCommands = Some (tenant_commands env audit (case po_platformAuthorizer options of None \<Rightarrow> platform_assertAllowed | Some a \<Rightarrow> a)),
      dep_foundationProof = (if po_enableFoundationProof options then Some (proof_command env audit) else None),
      dep_validate = check, dep_validateParam = checkParam\<rparr>"

definition composePostgresApi :: "composition_env \<Rightarrow> postgres_options \<Rightarrow> (body_schema \<Rightarrow> js_value \<Rightarrow> validation_issue list) \<Rightarrow> (string \<Rightarrow> validation_issue list) \<Rightarrow>
    (request_env \<Rightarrow> http_request \<Rightarrow> api_db api \<Rightarrow> (http_response \<times> error_report option) \<times> api_db api) res" where
  "composePostgresApi env options check checkParam =
     bindR (createAuditPolicy [(''Tenant'', TENANT_AUDIT_FIELDS), (''ProofRecord'', FOUNDATION_PROOF_AUDIT_FIELDS)]) (\<lambda>policy.
       buildApiServer (api_dependencies_of env options (audit_recorder env policy) check checkParam))"

section \<open>Model: the production server\<close>

definition TENANT_AUDIENCE :: string where "TENANT_AUDIENCE = ''sintius-api''"

text \<open>The process environment the server reads its identity providers from.\<close>

record main_env =
  me_tenantJwksUrl :: "string option"
  me_tenantIssuer :: "string option"
  me_platformJwksUrl :: "string option"
  me_platformIssuer :: "string option"
  me_tenantRequireMfa :: "string option"

definition configured_tenant_policy :: "string \<Rightarrow> string option \<Rightarrow> idp_policy" where
  "configured_tenant_policy issuer requireMfa = \<lparr>ip_id = ''configured-tenant'', ip_mechanism = oidc, ip_issuer = issuer, ip_allowedAudiences = [TENANT_AUDIENCE],
     ip_clockSkewSeconds = 30, ip_requireMfa = (requireMfa \<noteq> Some ''false''), ip_allowedWorkloadScopes = []\<rparr>"

definition configured_platform_policy :: "string \<Rightarrow> idp_policy" where
  "configured_platform_policy issuer = \<lparr>ip_id = ''configured-platform'', ip_mechanism = oidc, ip_issuer = issuer, ip_allowedAudiences = [PLATFORM_AUDIENCE],
     ip_clockSkewSeconds = 30, ip_requireMfa = True, ip_allowedWorkloadScopes = []\<rparr>"

definition local_tenant_policy :: idp_policy where
  "local_tenant_policy = \<lparr>ip_id = ''local-development-tenant'', ip_mechanism = oidc, ip_issuer = ''https://local-development.sintius.invalid/tenant'',
     ip_allowedAudiences = [''sintius-api''], ip_clockSkewSeconds = 30, ip_requireMfa = True, ip_allowedWorkloadScopes = []\<rparr>"

definition local_platform_policy :: idp_policy where
  "local_platform_policy = \<lparr>ip_id = ''local-development-platform'', ip_mechanism = oidc, ip_issuer = ''https://local-development.sintius.invalid/platform'',
     ip_allowedAudiences = [PLATFORM_AUDIENCE], ip_clockSkewSeconds = 30, ip_requireMfa = True, ip_allowedWorkloadScopes = []\<rparr>"

text \<open>The policies and signing keys: the configured providers when all four variables are set, the process's own
  fresh keys otherwise. \<open>remoteKeySet\<close> stands for the key-set client, which refuses an unsuitable URL.\<close>

definition main_providers :: "(string \<Rightarrow> 'k res) \<Rightarrow> 'k \<Rightarrow> 'k \<Rightarrow> main_env \<Rightarrow> (idp_policy \<times> 'k \<times> idp_policy \<times> 'k) res" where
  "main_providers remoteKeySet localTenantKeys localPlatformKeys e =
     (case (me_tenantJwksUrl e, me_tenantIssuer e, me_platformJwksUrl e, me_platformIssuer e) of
        (Some tenantUrl, Some tenantIssuer, Some platformUrl, Some platformIssuer) \<Rightarrow>
          bindR (remoteKeySet tenantUrl) (\<lambda>tenantKeys. bindR (remoteKeySet platformUrl) (\<lambda>platformKeys. Inr
            (configured_tenant_policy tenantIssuer (me_tenantRequireMfa e), tenantKeys, configured_platform_policy platformIssuer, platformKeys)))
      | _ \<Rightarrow> Inr (local_tenant_policy, localTenantKeys, local_platform_policy, localPlatformKeys))"

definition provider_keys :: "'k \<Rightarrow> 'k jwt_provider" where
  "provider_keys k = \<lparr>jp_keys = k, jp_algorithms = None, jp_tenantClaim = None, jp_platformRoleClaim = None, jp_maxTokenAgeSeconds = None, jp_type = None\<rparr>"

definition policy_by_id :: "idp_policy list \<Rightarrow> string \<Rightarrow> idp_policy option res" where
  "policy_by_id policies i = Inr (find (\<lambda>policy. ip_id policy = i) policies)"

definition authentication_env :: "idp_policy list \<Rightarrow> (string \<Rightarrow> idp_policy \<Rightarrow> credential_claims res) \<Rightarrow> date \<Rightarrow> date \<Rightarrow> (string \<times> string) set \<Rightarrow> auth_env" where
  "authentication_env policies verifier now factNow revocations =
     \<lparr>an_policies = policy_by_id policies, an_verify = verifier, an_isRevoked = (\<lambda>issuer credentialId. Inr (isRevoked revocations issuer credentialId)),
      an_now = now, an_factNow = factNow, an_facts = None\<rparr>"

definition on_authentication :: "(auth_env \<Rightarrow> string option \<Rightarrow> string \<Rightarrow> (auth_state, ref) tx) \<Rightarrow> ((string \<times> string) set \<Rightarrow> auth_env) \<Rightarrow> api_db request_authenticator" where
  "on_authentication m env_of authorization correlationId = (\<lambda>(t, s).
     case m (env_of (svc_revocations s)) authorization correlationId \<lparr>ax_trust = t, ax_facts = []\<rparr> of (r, x) \<Rightarrow> (r, (ax_trust x, s)))"

definition main_options :: "idp_policy \<Rightarrow> idp_policy \<Rightarrow> ((string \<times> string) set \<Rightarrow> auth_env) \<Rightarrow> postgres_options" where
  "main_options tenantPolicy platformPolicy env_of =
     \<lparr>po_authenticator = on_authentication (\<lambda>e. createBearerAuthenticator e (ip_id tenantPolicy) TENANT_AUDIENCE) env_of,
      po_platformAuthenticator = on_authentication (\<lambda>e. createPlatformBearerAuthenticator e (ip_id platformPolicy)) env_of,
      po_platformAuthorizer = None, po_enableFoundationProof = False\<rparr>"

text \<open>Clock readings of one authentication: the verifier's and the authentication service's.\<close>

record auth_clock =
  ac_verifier :: date
  ac_now :: date
  ac_factNow :: date

definition main_server :: "'k jwt_verify \<Rightarrow> (string \<Rightarrow> 'k res) \<Rightarrow> 'k \<Rightarrow> 'k \<Rightarrow> main_env \<Rightarrow> auth_clock \<Rightarrow> composition_env \<Rightarrow>
    (body_schema \<Rightarrow> js_value \<Rightarrow> validation_issue list) \<Rightarrow> (string \<Rightarrow> validation_issue list) \<Rightarrow>
    (request_env \<Rightarrow> http_request \<Rightarrow> api_db api \<Rightarrow> (http_response \<times> error_report option) \<times> api_db api) res" where
  "main_server jwtVerify remoteKeySet localTenantKeys localPlatformKeys e clocks env check checkParam =
     bindR (main_providers remoteKeySet localTenantKeys localPlatformKeys e) (\<lambda>(tenantPolicy, tenantKeys, platformPolicy, platformKeys).
     bindR (createJwtCredentialVerifier jwtVerify [(ip_id tenantPolicy, provider_keys tenantKeys), (ip_id platformPolicy, provider_keys platformKeys)]) (\<lambda>verifier.
       composePostgresApi env (main_options tenantPolicy platformPolicy
         (authentication_env [tenantPolicy, platformPolicy] (verifier (ac_verifier clocks)) (ac_now clocks) (ac_factNow clocks))) check checkParam))"

text \<open>\<open>apps/api/src/foundation.ts\<close>: the framework-neutral ingress seam.\<close>

definition executeInTenantContext :: "resolve_input \<Rightarrow> (ref \<Rightarrow> (trust, 'a) tx) \<Rightarrow> instant \<Rightarrow> (trust, 'a) tx" where
  "executeInTenantContext input handler now = bindT (resolveTenantContext input now) (\<lambda>c. runWithTenantContext c (handler c))"

text \<open>Whatever the seam returns, its handler ran with the resolved context of the selected tenant as ambient context.\<close>

lemma executeInTenantContext_ambient:
  assumes "executeInTenantContext input handler now st = (Inr x, st')"
  obtains c st1 st2 where "resolveTenantContext input now st = (Inr c, st1)" "handler c (st1\<lparr>storage := Some c\<rparr>) = (Inr x, st2)"
    "activeTenantContext (st1\<lparr>storage := Some c\<rparr>) = Some (resolved_context (principals st ! ri_principal input) input (ri_correlationId input))"
    "storage st' = storage st1"
proof -
  obtain c st1 where c: "resolveTenantContext input now st = (Inr c, st1)" and r: "runWithTenantContext c (handler c) st1 = (Inr x, st')"
    using assms unfolding executeInTenantContext_def bindT_Inr_iff by blast
  obtain r2 st2 where h: "handler c (st1\<lparr>storage := Some c\<rparr>) = (r2, st2)" by (rule prod.exhaust)
  have "r2 = Inr x" "st' = st2\<lparr>storage := storage st1\<rparr>"
    using r by (simp_all add: runWithTenantContext_eq h Let_def split: if_splits)
  then show thesis using that [OF c] h resolved_ambient [OF c] by simp
qed

section \<open>Authentication leaves the database alone\<close>

lemma on_authentication_db: "on_authentication m env_of h corr s = (r, s') \<Longrightarrow> snd s' = snd s"
  by (cases s) (auto simp: on_authentication_def split: prod.splits)

lemma bearer_session:
  assumes "\<And>e. m e h corr = bindT (liftT (bearerCredential h corr)) (\<lambda>credential. authenticate e entry (I credential))"
    and "on_authentication m env_of h corr s = (Inr p, s')"
  obtains credential q where "bearerCredential h corr = Inr credential" "p = length (principals (fst s))" "fst s' = with_principal (fst s) q"
    "grants (env_of (svc_revocations (snd s))) entry (I credential) q"
proof -
  obtain x where x: "m (env_of (svc_revocations (snd s))) h corr \<lparr>ax_trust = fst s, ax_facts = []\<rparr> = (Inr p, x)" "fst s' = ax_trust x"
    using assms(2) by (cases s) (auto simp: on_authentication_def split: prod.splits)
  from x(1) obtain credential where b: "bearerCredential h corr = Inr credential"
    and a: "authenticate (env_of (svc_revocations (snd s))) entry (I credential) \<lparr>ax_trust = fst s, ax_facts = []\<rparr> = (Inr p, x)"
    unfolding assms(1) bindT_Inr_iff liftT_Inr_iff by blast
  from authenticate_Inr [OF a] obtain q where "grants (env_of (svc_revocations (snd s))) entry (I credential) q"
    "p = length (principals (fst s))" "ax_trust x = with_principal (fst s) q" by auto
  with b x(2) show thesis by (intro that) simp_all
qed

section \<open>The state a request leaves behind\<close>

lemma serve_state:
  "trace_of env request = (corr, cause) \<Longrightarrow> snd (serve deps env request s) =
     (case onRequest deps (mounted deps (rq_route request)) request corr cause s of
        (Inl e, s1) \<Rightarrow> s1
      | (Inr state, s1) \<Rightarrow> (case rq_body request of Unreadable status \<Rightarrow> s1
          | Parsed body \<Rightarrow> snd (run_route deps env (mounted deps (rq_route request)) request state body s1)))"
  by (simp add: serve_def Let_def split: prod.splits sum.splits parsed_body.splits)

lemma onRequest_db:
  assumes "\<And>h corr s r s'. dep_authenticator deps h corr s = (r, s') \<Longrightarrow> snd s' = snd s"
    "\<And>a h corr s r s'. dep_platformAuthenticator deps = Some a \<Longrightarrow> a h corr s = (r, s') \<Longrightarrow> snd s' = snd s"
    "onRequest deps r request corr cause s = (out, s')"
  shows "snd s' = snd s"
  using assms(3)
  by (auto simp: onRequest_def Let_def bindT_def returnT_def throwT_def dest: assms(1,2) split: if_splits option.splits prod.splits sum.splits)

lemma platformContext_db: "platformContext env state s = (r, s') \<Longrightarrow> snd s' = snd s"
  by (cases s) (auto simp: platformContext_def bindT_def liftT_def on_trust_def split: sum.splits prod.splits)

lemma provision_handler_state:
  "snd (provision_handler tenants env request state body s) =
     (case platformContext env state s of (Inl e, s1) \<Rightarrow> s1
      | (Inr c, s1) \<Rightarrow> snd (lc_provision tenants c \<lparr>pv_tenantId = js_text (js_prop body ''tenant_id''), pv_displayName = js_text (js_prop body ''display_name''),
          pv_initialAdministratorActorId = js_text (js_prop body ''initial_administrator_actor_id'')\<rparr> (metadataOf request) s1))"
  by (simp add: provision_handler_def bindT_def returnT_def split: prod.splits sum.splits)

lemma lifecycle_handler_state:
  "snd (lifecycle_handler tenants verb target env request state body s) =
     (case expectedVersionOf (singleHeader request ''if-match'') of Inl e \<Rightarrow> s
      | Inr version \<Rightarrow> (case platformContext env state s of (Inl e, s1) \<Rightarrow> s1
          | (Inr c, s1) \<Rightarrow> snd (lifecycle_command tenants verb c \<lparr>tl_tenantId = target, tl_expectedVersion = version, tl_reason = body_reason body\<rparr>
              (metadataOf request) s1)))"
  by (auto simp: lifecycle_handler_def bindT_def as_precondition_def returnT_def liftT_def split: prod.splits sum.splits)

section \<open>What platform routes change\<close>

definition target_state :: "lifecycle_verb \<Rightarrow> tenant_state" where
  "target_state verb = (case verb of verb_activate \<Rightarrow> ACTIVE | verb_suspend \<Rightarrow> SUSPENDED | verb_reactivate \<Rightarrow> ACTIVE | verb_close \<Rightarrow> CLOSED)"

text \<open>The permission a platform route needs, and its whole effect on the identity tables.\<close>

definition route_permission :: "route \<Rightarrow> string" where
  "route_permission r = (if r = Tenants then ''platform:tenant:provision'' else ''platform:tenant:lifecycle'')"

definition route_effect :: "route \<Rightarrow> js_value \<Rightarrow> identity_db \<Rightarrow> identity_db \<Rightarrow> bool" where
  "route_effect r body db db' = (case r of
     Tenants \<Rightarrow> provision_effect (js_text (js_prop body ''tenant_id'')) (js_text (js_prop body ''initial_administrator_actor_id'')) db db'
   | Lifecycle verb target \<Rightarrow> transition_effect target (target_state verb) db db'
   | _ \<Rightarrow> False)"

text \<open>The tenant a platform route is about and the scope its command is recorded under; its effect on the whole database, table by table.\<close>

definition route_tenant :: "route \<Rightarrow> js_value \<Rightarrow> string" where
  "route_tenant r body = (case r of Lifecycle verb target \<Rightarrow> target | _ \<Rightarrow> js_text (js_prop body ''tenant_id''))"

definition route_scope :: "route \<Rightarrow> string" where
  "route_scope r = (case r of Lifecycle verb _ \<Rightarrow> (case verb of verb_activate \<Rightarrow> ''tenant.activate'' | verb_suspend \<Rightarrow> ''tenant.suspend''
       | verb_reactivate \<Rightarrow> ''tenant.reactivate'' | verb_close \<Rightarrow> ''tenant.close'')
     | _ \<Rightarrow> ''tenant.provision'')"

definition database_effect :: "route \<Rightarrow> js_value \<Rightarrow> api_db \<Rightarrow> api_db \<Rightarrow> bool" where
  "database_effect r body d d' \<longleftrightarrow> route_effect r body (svc_db d) (svc_db d') \<and>
     recorded_once (route_tenant r body) (route_scope r) (svc_table d) (svc_table d') \<and>
     svc_proofs d' = svc_proofs d \<and> svc_revocations d' = svc_revocations d"

text \<open>Everything the database holds of one tenant.\<close>

definition tenant_rows where
  "tenant_rows t d = (db_tenants (svc_db d) t, (\<lambda>code. db_roles (svc_db d) (t, code)), (\<lambda>action. db_policies (svc_db d) (t, action)),
     filter (\<lambda>a. as_tenantId a = t) (db_assignments (svc_db d)), filter (\<lambda>a. au_tenantId a = t) (db_audit (svc_db d)),
     filter (\<lambda>e. ev_tenant_id (oe_envelope e) = t) (q_entries (db_outbox (svc_db d))), (\<lambda>scope key. svc_table d (t, scope, key)),
     filter (\<lambda>p. fp_tenantId p = t) (svc_proofs d))"

lemma database_effect_others:
  assumes effect: "database_effect r body d d'" and other: "t \<noteq> route_tenant r body"
  shows "tenant_rows t d' = tenant_rows t d"
proof -
  have facts: "db_tenants (svc_db d') t = db_tenants (svc_db d) t \<and> (\<forall>code. db_roles (svc_db d') (t, code) = db_roles (svc_db d) (t, code)) \<and>
      (\<forall>action. db_policies (svc_db d') (t, action) = db_policies (svc_db d) (t, action)) \<and>
      filter (\<lambda>a. as_tenantId a = t) (db_assignments (svc_db d')) = filter (\<lambda>a. as_tenantId a = t) (db_assignments (svc_db d)) \<and>
      (\<exists>ty v. tenant_facts (route_tenant r body) ty v (svc_db d) (svc_db d'))"
    using effect other
    by (auto simp: database_effect_def route_effect_def route_tenant_def provision_effect_def transition_effect_def with_policies_other active_assignment_def split: route.splits)
  moreover have "filter (\<lambda>a. au_tenantId a = t) (db_audit (svc_db d')) = filter (\<lambda>a. au_tenantId a = t) (db_audit (svc_db d))"
    "filter (\<lambda>e. ev_tenant_id (oe_envelope e) = t) (q_entries (db_outbox (svc_db d'))) = filter (\<lambda>e. ev_tenant_id (oe_envelope e) = t) (q_entries (db_outbox (svc_db d)))"
    using facts other by (auto simp: tenant_facts_def)
  moreover have "svc_table d' (t, scope, key) = svc_table d (t, scope, key)" "svc_proofs d' = svc_proofs d" for scope key
    using effect other by (auto simp: database_effect_def recorded_once_def)
  ultimately show ?thesis by (simp add: tenant_rows_def)
qed

lemma run_command_db:
  assumes "run_command env audit m s = (r, s')"
  obtains r0 table db where "m (tenant_command_env env audit (fst s)) (svc_table (snd s), svc_db (snd s)) = (r0, (table, db))"
    "s' = (fst s, (snd s)\<lparr>svc_table := table, svc_db := db\<rparr>)"
  using assms by (cases s) (auto simp: run_command_def on_identity_tables_def bindT_def returnT_def split: prod.splits sum.splits)

text \<open>One command: nothing changed, or the platform authorizer allowed it and the change is the route's effect.\<close>

definition command_change :: "ref \<Rightarrow> route \<Rightarrow> js_value \<Rightarrow> api_db api \<Rightarrow> api_db api \<Rightarrow> bool" where
  "command_change c r body s s' \<longleftrightarrow> snd s' = snd s \<or>
     (platform_assertAllowed (fst s) c (route_permission r) = Inr () \<and> database_effect r body (snd s) (snd s'))"

lemma authorize_allowed: "authorize (tenant_command_env env audit t) a c perm = Inr () \<Longrightarrow> a t c perm = Inr ()"
  by (auto simp: authorize_def tenant_command_env_def bindR_Inr_iff)

lemma provision_change:
  assumes "lc_provision (tenant_commands env audit platform_assertAllowed) c \<lparr>pv_tenantId = js_text (js_prop body ''tenant_id''), pv_displayName = name,
      pv_initialAdministratorActorId = js_text (js_prop body ''initial_administrator_actor_id'')\<rparr> key s = (r, s')"
  shows "command_change c Tenants body s s'"
proof -
  from assms obtain r0 table db where run: "provision (tenant_command_env env audit (fst s)) platform_assertAllowed c \<lparr>pv_tenantId = js_text (js_prop body ''tenant_id''),
      pv_displayName = name, pv_initialAdministratorActorId = js_text (js_prop body ''initial_administrator_actor_id'')\<rparr> key (svc_table (snd s), svc_db (snd s)) = (r0, (table, db))"
    and s': "s' = (fst s, (snd s)\<lparr>svc_table := table, svc_db := db\<rparr>)"
    by (auto simp: tenant_commands_def elim: run_command_db)
  from provision_run [OF run] show ?thesis
    by (auto simp: command_change_def database_effect_def s' route_permission_def route_effect_def route_tenant_def route_scope_def tenantId_def ctx_requireNonBlank_def
        dest: authorize_allowed split: if_splits)
qed

lemma lifecycle_change:
  assumes "lifecycle_command (tenant_commands env audit platform_assertAllowed) verb c \<lparr>tl_tenantId = target, tl_expectedVersion = v, tl_reason = reason\<rparr> key s = (r, s')"
  shows "command_change c (Lifecycle verb target) body s s'"
proof -
  from assms obtain r0 table db where run: "transition (tenant_command_env env audit (fst s)) platform_assertAllowed c
      \<lparr>tl_tenantId = target, tl_expectedVersion = v, tl_reason = reason\<rparr> (target_state verb) (route_scope (Lifecycle verb target)) key (svc_table (snd s), svc_db (snd s)) = (r0, (table, db))"
    and s': "s' = (fst s, (snd s)\<lparr>svc_table := table, svc_db := db\<rparr>)"
    by (cases verb) (auto simp: lifecycle_command_def tenant_commands_def target_state_def route_scope_def activateTenant_def suspendTenant_def reactivateTenant_def closeTenant_def
        elim!: run_command_db)
  from transition_run [OF run] show ?thesis
    by (auto simp: command_change_def database_effect_def s' route_permission_def route_effect_def route_tenant_def dest: authorize_allowed)
qed

lemma app_stage_state: "snd (app_stage m s) = snd (m s)"
  by (simp add: app_stage_def split: prod.splits sum.splits)

text \<open>A platform route runs its command, if at all, under the context resolved for the request's principal.\<close>

lemma platform_route_change:
  assumes "dep_tenantCommands deps = Some (tenant_commands env audit platform_assertAllowed)" "is_platform r"
    "snd (snd (run_route deps renv r request state body s)) \<noteq> snd s"
  obtains c s1 where "platformContext renv state s = (Inr c, s1)" "command_change c r body s1 (snd (run_route deps renv r request state body s))"
proof -
  obtain out s1 where pc: "platformContext renv state s = (out, s1)" by (rule prod.exhaust)
  note keeps = platformContext_db [OF pc]
  show thesis
  proof (cases r)
    case Tenants
    have st: "snd (run_route deps renv r request state body s) =
        (if dep_validate deps provision_schema body = [] then snd (provision_handler (tenant_commands env audit platform_assertAllowed) renv request state body s) else s)"
      by (simp add: run_route_def Tenants assms(1) validated_def app_stage_state)
    then obtain c where c: "out = Inr c" using assms(3) keeps by (auto simp: provision_handler_state pc split: sum.splits if_splits)
    have "command_change c r body s1 (snd (provision_handler (tenant_commands env audit platform_assertAllowed) renv request state body s))"
      unfolding Tenants provision_handler_state pc c by simp (rule provision_change, rule prod.collapse [symmetric])
    then show thesis using that [of c s1] st assms(3) pc c by (auto split: if_splits)
  next
    case (Lifecycle verb target)
    have st: "snd (run_route deps renv r request state body s) =
        (if dep_validateParam deps target = [] \<and> dep_validate deps lifecycle_schema body = []
         then snd (lifecycle_handler (tenant_commands env audit platform_assertAllowed) verb target renv request state body s) else s)"
      by (simp add: run_route_def Lifecycle assms(1) validated_def app_stage_state)
    then obtain c v where c: "out = Inr c" "expectedVersionOf (singleHeader request ''if-match'') = Inr v"
      using assms(3) keeps by (auto simp: lifecycle_handler_state pc split: sum.splits if_splits)
    have "command_change c r body s1 (snd (lifecycle_handler (tenant_commands env audit platform_assertAllowed) verb target renv request state body s))"
      unfolding Lifecycle lifecycle_handler_state pc c by simp (rule lifecycle_change, rule prod.collapse [symmetric])
    then show thesis using that [of c s1] st assms(3) pc c by (auto split: if_splits)
  qed (use assms(2) in \<open>simp_all add: is_platform_def\<close>)
qed

lemma resolved_operator:
  assumes "resolvePlatformCommandContext p corr cause now t = (Inr c, t2)" "platform_assertAllowed t2 c perm = Inr ()"
  shows "perm \<in> set (p_scopes (principals t ! p))"
proof -
  have "platformContexts t2 ! c = resolved_platform (principals t ! p) (p_actorId (principals t ! p)) corr cause"
    using assms(1) by (auto simp: resolvePlatformCommandContext_def trust_op_defs actorId_def split: if_splits)
  then show ?thesis
    using assms(2) by (auto simp: platform_assertAllowed_def bindR_Inr_iff issued_platform_def resolved_platform_def split: if_splits)
qed

lemma with_principal_last [simp]: "principals (with_principal t q) ! length (principals t) = q"
  by (simp add: with_principal_def)

lemma main_policies:
  assumes "main_providers remoteKeySet tk pk e = Inr (tp, tkeys, pp, pkeys)"
  shows "policy_by_id [tp, pp] (ip_id tp) = Inr (Some tp)" "policy_by_id [tp, pp] (ip_id pp) = Inr (Some pp)" "ip_id tp \<noteq> ip_id pp"
proof -
  have "(ip_id tp = ''configured-tenant'' \<and> ip_id pp = ''configured-platform'') \<or> (ip_id tp = ''local-development-tenant'' \<and> ip_id pp = ''local-development-platform'')"
    using assms unfolding main_providers_def
    by (auto simp: bindR_Inr_iff configured_tenant_policy_def configured_platform_policy_def local_tenant_policy_def local_platform_policy_def
        simp del: list.inject char.inject split: option.splits)
  then show "ip_id tp \<noteq> ip_id pp" by auto
  then show "policy_by_id [tp, pp] (ip_id tp) = Inr (Some tp)" "policy_by_id [tp, pp] (ip_id pp) = Inr (Some pp)"
    by (simp_all add: policy_by_id_def)
qed

text \<open>What a platform operator's credential proved: the verified claims of the platform provider.\<close>

definition operator_claims :: "'k jwt_verify \<Rightarrow> idp_policy \<times> 'k \<times> idp_policy \<times> 'k \<Rightarrow> date \<Rightarrow> string \<Rightarrow> (string \<times> string) set \<Rightarrow> credential_claims \<Rightarrow> bool" where
  "operator_claims jwtVerify providers now credential revocations claims = (case providers of (tp, tkeys, pp, pkeys) \<Rightarrow>
     jwt_verify_credential jwtVerify [(ip_id tp, provider_keys tkeys), (ip_id pp, provider_keys pkeys)] now credential pp = Inr claims \<and>
     cl_issuer claims = ip_issuer pp \<and> PLATFORM_AUDIENCE \<in> set (cl_audiences claims) \<and> cl_tenantIds claims = [] \<and>
     ''mfa'' \<in> set (cl_authenticationMethods claims) \<and> (cl_issuer claims, cl_credentialId claims) \<notin> revocations)"

lemma operator_granted:
  assumes "main_providers remoteKeySet tk pk e = Inr (tp, tkeys, pp, pkeys)"
    "grants (authentication_env [tp, pp] (jwt_verify_credential jwtVerify [(ip_id tp, provider_keys tkeys), (ip_id pp, provider_keys pkeys)] now) t1 t2 revocations)
      platform_operator \<lparr>ain_providerId = ip_id pp, ain_rawCredential = credential, ain_requiredAudience = PLATFORM_AUDIENCE, ain_correlationId = corr\<rparr> q"
  shows "\<exists>claims. operator_claims jwtVerify (tp, tkeys, pp, pkeys) now credential revocations claims \<and>
    p_scopes q = platformPermissionsFor (case cl_platformRoles claims of None \<Rightarrow> [] | Some rs \<Rightarrow> rs)"
proof -
  from assms(2) obtain policy claims where "admitted (authentication_env [tp, pp] (jwt_verify_credential jwtVerify [(ip_id tp, provider_keys tkeys), (ip_id pp, provider_keys pkeys)] now) t1 t2 revocations)
      \<lparr>ain_providerId = ip_id pp, ain_rawCredential = credential, ain_requiredAudience = ''sintius-platform'', ain_correlationId = corr\<rparr> [oidc, saml] policy claims"
    and "operator_content policy claims q" by auto
  then show ?thesis
    by (intro exI [of _ claims])
       (cases q; auto simp: admitted_def authentication_env_def main_policies(2) [OF assms(1)] base_claims_ok_def operator_content_def operator_claims_def isRevoked_def
         PLATFORM_AUDIENCE_def Let_def)
qed

lemma main_serverE:
  assumes "main_server jwtVerify remoteKeySet tk pk e clocks env check checkParam = Inr server"
  obtains tp tkeys pp pkeys audit where "main_providers remoteKeySet tk pk e = Inr (tp, tkeys, pp, pkeys)"
    "server = serve (api_dependencies_of env (main_options tp pp (authentication_env [tp, pp]
       (jwt_verify_credential jwtVerify [(ip_id tp, provider_keys tkeys), (ip_id pp, provider_keys pkeys)] (ac_verifier clocks)) (ac_now clocks) (ac_factNow clocks)))
       audit check checkParam)"
  using assms
  by (auto simp: main_server_def bindR_Inr_iff createJwtCredentialVerifier_def composePostgresApi_def buildApiServer_def split: prod.splits if_splits)

lemma main_dependencies [simp]:
  "dep_authenticator (api_dependencies_of env options audit check checkParam) = po_authenticator options"
  "dep_platformAuthenticator (api_dependencies_of env options audit check checkParam) = Some (po_platformAuthenticator options)"
  "dep_tenantStates (api_dependencies_of env options audit check checkParam) = tenant_states"
  "dep_foundationProof (api_dependencies_of env options audit check checkParam) = (if po_enableFoundationProof options then Some (proof_command env audit) else None)"
  by (simp_all add: api_dependencies_of_def)

lemma main_options_simps [simp]:
  "po_authenticator (main_options tp pp env_of) = on_authentication (\<lambda>e. createBearerAuthenticator e (ip_id tp) TENANT_AUDIENCE) env_of"
  "po_platformAuthenticator (main_options tp pp env_of) = on_authentication (\<lambda>e. createPlatformBearerAuthenticator e (ip_id pp)) env_of"
  "po_enableFoundationProof (main_options tp pp env_of) = False" "po_platformAuthorizer (main_options tp pp env_of) = None"
  by (simp_all add: main_options_def)

lemma bearer_onRequest_db:
  assumes "onRequest (api_dependencies_of env (main_options tp pp env_of\<lparr>po_enableFoundationProof := b\<rparr>) audit check checkParam) r request corr cause s = (out, s1)"
  shows "snd s1 = snd s"
  using _ _ assms by (rule onRequest_db) (auto dest: on_authentication_db)

text \<open>A request whose database change is not nothing went through its route's handler.\<close>

lemma changed_by_handler:
  assumes "serve deps renv request s = (out, s')" "snd s' \<noteq> snd s" "trace_of renv request = (corr, cause)"
    and kept: "\<And>r out s1. onRequest deps r request corr cause s = (out, s1) \<Longrightarrow> snd s1 = snd s"
  obtains state s1 body where "onRequest deps (mounted deps (rq_route request)) request corr cause s = (Inr state, s1)" "rq_body request = Parsed body"
    "snd (run_route deps renv (mounted deps (rq_route request)) request state body s1) = s'" "snd s1 = snd s"
proof -
  obtain o1 s1 where on: "onRequest deps (mounted deps (rq_route request)) request corr cause s = (o1, s1)" by (rule prod.exhaust)
  have "s' = snd (serve deps renv request s)" by (simp add: assms(1))
  then show thesis
    using assms(2) kept [OF on] that on by (auto simp: serve_state [OF assms(3)] split: sum.splits parsed_body.splits)
qed
text \<open>The authentication service as \<open>main\<close> composes it from its two providers.\<close>

definition provider_env :: "'k jwt_verify \<Rightarrow> auth_clock \<Rightarrow> idp_policy \<times> 'k \<times> idp_policy \<times> 'k \<Rightarrow> (string \<times> string) set \<Rightarrow> auth_env" where
  "provider_env jwtVerify clocks = (\<lambda>(tp, tkeys, pp, pkeys). authentication_env [tp, pp]
     (jwt_verify_credential jwtVerify [(ip_id tp, provider_keys tkeys), (ip_id pp, provider_keys pkeys)] (ac_verifier clocks)) (ac_now clocks) (ac_factNow clocks))"

lemma operator_request:
  assumes "main_providers remoteKeySet tk pk e = Inr (tp, tkeys, pp, pkeys)"
    "on_authentication (\<lambda>e. createPlatformBearerAuthenticator e (ip_id pp)) (provider_env jwtVerify clocks (tp, tkeys, pp, pkeys)) h corr s = (Inr p, s1)"
    "resolvePlatformCommandContext p corr cause now (fst s1) = (Inr c, t2)" "platform_assertAllowed t2 c perm = Inr ()"
  shows "\<exists>credential claims. bearerCredential h corr = Inr credential \<and>
    operator_claims jwtVerify (tp, tkeys, pp, pkeys) (ac_verifier clocks) credential (svc_revocations (snd s)) claims \<and>
    perm \<in> set (platformPermissionsFor (case cl_platformRoles claims of None \<Rightarrow> [] | Some rs \<Rightarrow> rs))"
proof -
  have via: "createPlatformBearerAuthenticator e (ip_id pp) h corr = bindT (liftT (bearerCredential h corr)) (\<lambda>credential. authenticate e platform_operator
      \<lparr>ain_providerId = ip_id pp, ain_rawCredential = credential, ain_requiredAudience = PLATFORM_AUDIENCE, ain_correlationId = corr\<rparr>)" for e
    by (simp add: createPlatformBearerAuthenticator_def)
  obtain credential q where cred: "bearerCredential h corr = Inr credential" "p = length (principals (fst s))" "fst s1 = with_principal (fst s) q"
    "grants (provider_env jwtVerify clocks (tp, tkeys, pp, pkeys) (svc_revocations (snd s))) platform_operator \<lparr>ain_providerId = ip_id pp, ain_rawCredential = credential,
       ain_requiredAudience = PLATFORM_AUDIENCE, ain_correlationId = corr\<rparr> q"
    by (rule bearer_session [OF via assms(2)])
  have "perm \<in> set (p_scopes q)" using resolved_operator [OF assms(3,4)] cred(2,3) by simp
  then show ?thesis using operator_granted [OF assms(1) cred(4) [unfolded provider_env_def prod.case]] cred(1) by metis
qed

text \<open>C5: the database of the production server changes only by the hand of a platform operator. Whatever a
  request to the server \<open>main\<close> starts looks like, and whatever it is answered, if it changed anything in the database then it was a
  platform request whose bearer credential the signature library verified with the platform provider's keys,
  for the platform audience, with a second factor and without any tenant claim, and which is not revoked;
  the operator's reviewed roles include the permission of the route; and the change is exactly the route's
  one effect on one tenant, named table by table: for a provisioning the new tenant with its administrator role, first
  administrator and default policies, for a lifecycle request the tenant's new state and version, in both cases with one audit event, one
  outbox event and one completed idempotency record of the route's scope; the proofs and revocations stay, and of every
  other tenant all rows of all tables.\<close>

theorem database_changed_by_operators_only:
  assumes "main_server jwtVerify remoteKeySet tk pk e clocks env check checkParam = Inr server"
    "server renv request s = (out, s')" "snd s' \<noteq> snd s"
  shows "\<exists>providers corr credential claims body. main_providers remoteKeySet tk pk e = Inr providers \<and> is_platform (rq_route request) \<and>
    bearerCredential (singleHeader request ''authorization'') corr = Inr credential \<and>
    operator_claims jwtVerify providers (ac_verifier clocks) credential (svc_revocations (snd s)) claims \<and>
    route_permission (rq_route request) \<in> set (platformPermissionsFor (case cl_platformRoles claims of None \<Rightarrow> [] | Some rs \<Rightarrow> rs)) \<and>
    rq_body request = Parsed body \<and> database_effect (rq_route request) body (snd s) (snd s') \<and>
    (\<forall>t. t \<noteq> route_tenant (rq_route request) body \<longrightarrow> tenant_rows t (snd s') = tenant_rows t (snd s))"
proof -
  obtain tp tkeys pp pkeys audit where prov: "main_providers remoteKeySet tk pk e = Inr (tp, tkeys, pp, pkeys)"
    and server: "server = serve (api_dependencies_of env (main_options tp pp (provider_env jwtVerify clocks (tp, tkeys, pp, pkeys))) audit check checkParam)"
    by (rule main_serverE [OF assms(1)]) (simp add: provider_env_def)
  define env_of where "env_of = provider_env jwtVerify clocks (tp, tkeys, pp, pkeys)"
  define deps where "deps = api_dependencies_of env (main_options tp pp env_of) audit check checkParam"
  obtain corr cause where tr: "trace_of renv request = (corr, cause)" by (rule prod.exhaust)
  have kept: "snd s1 = snd s" if "onRequest deps r request corr cause s = (o1, s1)" for r o1 s1
    using that bearer_onRequest_db [where b = False] by (simp add: deps_def main_options_def)
  have run: "serve deps renv request s = (out, s')" using assms(2) by (simp add: server deps_def env_of_def)
  obtain state s1 body where on: "onRequest deps (mounted deps (rq_route request)) request corr cause s = (Inr state, s1)" and body: "rq_body request = Parsed body"
    and rr: "snd (run_route deps renv (mounted deps (rq_route request)) request state body s1) = s'" and s1: "snd s1 = snd s"
    by (rule changed_by_handler [OF run assms(3) tr kept])
  have plat: "is_platform (rq_route request)" and m: "mounted deps (rq_route request) = rq_route request"
    using rr s1 assms(3) by (auto simp: mounted_def run_route_def deps_def api_dependencies_of_def is_platform_def split: route.splits if_splits)
  have cmds: "dep_tenantCommands deps = Some (tenant_commands env audit platform_assertAllowed)" by (simp add: deps_def api_dependencies_of_def)
  obtain p where auth: "on_authentication (\<lambda>e. createPlatformBearerAuthenticator e (ip_id pp)) env_of (singleHeader request ''authorization'') corr s = (Inr p, s1)"
    and state: "state = \<lparr>st_correlationId = corr, st_causationId = cause, st_principal = Some p, st_tenantContext = None\<rparr>"
    using on plat unfolding m by (auto simp: deps_def is_platform_def elim!: onRequest_InrE split: route.splits)
  obtain c s2 where pc: "platformContext renv state s1 = (Inr c, s2)" and change: "command_change c (rq_route request) body s2 s'"
    using platform_route_change [OF cmds plat] rr s1 assms(3) unfolding m by metis
  have res: "resolvePlatformCommandContext p corr cause (rv_now renv) (fst s1) = (Inr c, fst s2)"
    using pc by (simp add: platformContext_def state bindT_liftT principalOf_def on_trust_Inr_iff)
  have "snd s2 = snd s" using platformContext_db [OF pc] s1 by simp
  then have fx: "platform_assertAllowed (fst s2) c (route_permission (rq_route request)) = Inr ()"
    "database_effect (rq_route request) body (snd s) (snd s')"
    using change assms(3) by (simp_all add: command_change_def)
  from operator_request [OF prov auth [unfolded env_of_def] res fx(1)] show ?thesis
    using prov plat body fx(2) database_effect_others [OF fx(2)] by metis
qed

section \<open>What the proof route changes\<close>

lemma tenant_states_reads:
  assumes "tenant_states t corr s = (r, s')"
  shows "s' = s \<and> (\<forall>ts. r = Inr (Some ts) \<longrightarrow> (\<exists>tenant. db_tenants (svc_db (snd s)) t = Some tenant \<and> t_state tenant = ts))"
proof -
  obtain out db' where f: "tenants_findById t t (svc_db (snd s)) = (out, db')" by (rule prod.exhaust)
  then have "db' = svc_db (snd s)" by (auto simp: tenants_findById_def guarded_def bindT_def liftT_def split: sum.splits)
  moreover have "found = map_option as_read (db_tenants (svc_db (snd s)) t)" if "out = Inr found" for found
    using tenants_findById_Inr f that by blast
  ultimately show ?thesis
    using assms f
    by (cases s) (auto simp: tenant_states_def on_identity_tables_def runInTransaction_def outside_table_def bindT_def returnT_def split: prod.splits sum.splits)
qed

lemma resolveTenant_db:
  assumes "dep_tenantStates deps = tenant_states" "resolveTenant deps env request state body s = (r, s')"
  shows "snd s' = snd s"
proof (cases "st_principal state")
  case None
  then show ?thesis using assms(2) by (simp add: resolveTenant_def bindT_liftT principalOf_def)
next
  case (Some p)
  show ?thesis
    using assms(2) unfolding resolveTenant_selected [OF Some refl] assms(1)
    by (auto simp: bindT_def returnT_def throwT_def on_trust_def dest: tenant_states_reads split: option.splits if_splits prod.splits sum.splits)
qed

text \<open>The proof command on the whole application state: nothing, or one record of the ambient context.\<close>

lemma proof_command_change:
  assumes "proof_command env audit label key s = (r, s')" "svc_proofs (snd s') \<noteq> svc_proofs (snd s)"
  obtains ctx rec where "activeTenantContext (fst s) = Some ctx"
    "assertPermission (loadAssignedRoles (svc_db (snd s))) None (Some ctx) ''foundation:proof:execute'' [] = Inr ()"
    "svc_proofs (snd s') = svc_proofs (snd s) @ [rec]" "fp_tenantId rec = tc_tenantId ctx" "fp_actorId rec = tc_actorId ctx"
    "db_tenants (svc_db (snd s')) = db_tenants (svc_db (snd s))"
proof -
  obtain r0 table pd where run: "recordFoundationProof (proof_command_env env audit (activeTenantContext (fst s)) (svc_db (snd s))) (activeTenantContext (fst s)) label key
      (svc_table (snd s), proof_tables (snd s)) = (r0, (table, pd))"
    and s': "s' = (fst s, with_proof_tables ((snd s)\<lparr>svc_table := table\<rparr>) pd)"
    using assms(1) by (cases s) (auto simp: proof_command_def on_proof_tables_def split: prod.splits)
  have "pd \<noteq> proof_tables (snd s)" using assms(2) by (auto simp: s' with_proof_tables_def proof_tables_def)
  then obtain ctx rec where "activeTenantContext (fst s) = Some ctx" "proof_effect ctx rec (proof_tables (snd s)) pd"
    "fe_authorizer (proof_command_env env audit (activeTenantContext (fst s)) (svc_db (snd s))) ''foundation:proof:execute'' = Inr ()"
    using proof_run [OF run] by auto
  then show thesis using that [of ctx rec] by (simp add: proof_effect_def s' with_proof_tables_def proof_tables_def proof_command_env_def)
qed

lemma run_in_tenant_db:
  assumes "run_in_tenant c work s = (r, s')" "snd s' \<noteq> snd s"
  obtains r0 s2 where "work ((fst s)\<lparr>storage := Some c\<rparr>, snd s) = (r0, s2)" "snd s' = snd s2"
  using assms by (cases s) (auto simp: run_in_tenant_def runWithTenantContext_eq Let_def split: if_splits prod.splits)

lemma proofs_handler_db:
  assumes "snd (snd (proofs_handler cmd request state body s)) \<noteq> snd s"
  obtains c r s2 where "st_tenantContext state = Some c"
    "cmd (js_text (js_prop body ''label'')) (metadataOf request) ((fst s)\<lparr>storage := Some c\<rparr>, snd s) = (r, s2)"
    "snd (snd (proofs_handler cmd request state body s)) = snd s2"
proof (cases "st_tenantContext state")
  case None
  then show thesis using assms by (simp add: proofs_handler_def inTenant_def bindT_def throwT_def)
next
  case (Some c)
  obtain r1 s1 where run: "run_in_tenant c (cmd (js_text (js_prop body ''label'')) (metadataOf request)) s = (r1, s1)" by (rule prod.exhaust)
  have eq: "snd (proofs_handler cmd request state body s) = s1"
    by (simp add: proofs_handler_def inTenant_def Some bindT_def run returnT_def split: sum.splits)
  obtain r0 s2 where "cmd (js_text (js_prop body ''label'')) (metadataOf request) ((fst s)\<lparr>storage := Some c\<rparr>, snd s) = (r0, s2)" "snd s1 = snd s2"
    using run_in_tenant_db [OF run] assms unfolding eq by blast
  then show thesis using that Some eq by simp
qed

text \<open>What a change of the proof records by one route run shows: the tenant it resolved and the context it ran under.\<close>

lemma proofs_route_change:
  assumes "dep_foundationProof deps = Some (proof_command env audit)" "dep_tenantStates deps = tenant_states" "st_principal state = Some p"
    "run_route deps renv Proofs request state body s1 = (out, s')" "svc_proofs (snd s') \<noteq> svc_proofs (snd s1)"
  obtains t tenant ctx rec where "t \<in> set (p_tenantMemberships (principals (fst s1) ! p))" "db_tenants (svc_db (snd s1)) t = Some tenant" "t_state tenant = ACTIVE"
    "tc_tenantId ctx = t" "tc_actorId ctx = p_actorId (principals (fst s1) ! p)"
    "assertPermission (loadAssignedRoles (svc_db (snd s1))) None (Some ctx) ''foundation:proof:execute'' [] = Inr ()"
    "svc_proofs (snd s') = svc_proofs (snd s1) @ [rec]" "fp_tenantId rec = t" "fp_actorId rec = tc_actorId ctx"
    "db_tenants (svc_db (snd s')) = db_tenants (svc_db (snd s1))"
proof -
  obtain r3 s3 where res: "resolveTenant deps renv request state body s1 = (r3, s3)" by (rule prod.exhaust)
  have s3: "snd s3 = snd s1" by (rule resolveTenant_db [OF assms(2) res])
  from assms(4,5) s3 obtain state' where r3: "r3 = Inr state'" and h: "snd (proofs_handler (proof_command env audit) request state' body s3) = s'"
    by (auto simp: run_route_def assms(1) res validated_def app_stage_def split: sum.splits if_splits prod.splits)
  obtain t s2 c where t: "t \<in> set (p_tenantMemberships (principals (fst s1) ! p))" and reads: "tenant_states t (st_correlationId state) s1 = (Inr (Some ACTIVE), s2)"
    and ctx: "resolveTenantContext (resolution state p t ACTIVE None) (rv_now renv) (fst s2) = (Inr c, fst s3)" and st': "state' = state\<lparr>st_tenantContext := Some c\<rparr>"
    by (rule resolveTenant_InrE [OF assms(3) res [unfolded r3]]) (simp add: assms(2))
  obtain r s4 where run: "proof_command env audit (js_text (js_prop body ''label'')) (metadataOf request) ((fst s3)\<lparr>storage := Some c\<rparr>, snd s3) = (r, s4)"
    and s4: "snd s' = snd s4"
  proof -
    have "snd (snd (proofs_handler (proof_command env audit) request state' body s3)) \<noteq> snd s3" using assms(5) s3 by (auto simp: h)
    then show ?thesis
    proof (rule proofs_handler_db)
      fix c' r s4
      assume "st_tenantContext state' = Some c'"
        "proof_command env audit (js_text (js_prop body ''label'')) (metadataOf request) ((fst s3)\<lparr>storage := Some c'\<rparr>, snd s3) = (r, s4)"
        "snd (snd (proofs_handler (proof_command env audit) request state' body s3)) = snd s4"
      then show thesis using that [of r s4] unfolding h by (simp add: st')
    qed
  qed
  have ambient: "activeTenantContext ((fst s3)\<lparr>storage := Some c\<rparr>) = Some (resolved_context (principals (fst s1) ! p) (resolution state p t ACTIVE None) (st_correlationId state))"
    using resolved_ambient [OF ctx] tenant_states_reads [OF reads] by (simp add: resolution_def)
  obtain cx rec where "activeTenantContext ((fst s3)\<lparr>storage := Some c\<rparr>) = Some cx"
    "assertPermission (loadAssignedRoles (svc_db (snd s1))) None (Some cx) ''foundation:proof:execute'' [] = Inr ()"
    "svc_proofs (snd s') = svc_proofs (snd s1) @ [rec]" "fp_tenantId rec = tc_tenantId cx" "fp_actorId rec = tc_actorId cx"
    "db_tenants (svc_db (snd s')) = db_tenants (svc_db (snd s1))"
    by (rule proof_command_change [OF run]) (use assms(5) s3 s4 in auto)
  then show thesis
    using that [of t _ cx rec] t tenant_states_reads [OF reads] ambient by (auto simp: resolved_context_def resolution_def)
qed

lemma member_session:
  assumes "on_authentication (\<lambda>e. createBearerAuthenticator e providerId audience) env_of h corr s = (Inr p, s1)"
  shows "\<exists>credential policy claims. bearerCredential h corr = Inr credential \<and> an_policies (env_of (svc_revocations (snd s))) providerId = Inr (Some policy) \<and>
    an_verify (env_of (svc_revocations (snd s))) credential policy = Inr claims \<and> p_actorId (principals (fst s1) ! p) = cl_subject claims \<and>
    set (p_tenantMemberships (principals (fst s1) ! p)) = set (cl_tenantIds claims)"
proof -
  have via: "createBearerAuthenticator e providerId audience h corr = bindT (liftT (bearerCredential h corr)) (\<lambda>credential. authenticate e tenant_user
      \<lparr>ain_providerId = providerId, ain_rawCredential = credential, ain_requiredAudience = audience, ain_correlationId = corr\<rparr>)" for e
    by (simp add: createBearerAuthenticator_def)
  obtain credential q where cred: "bearerCredential h corr = Inr credential" "p = length (principals (fst s))" "fst s1 = with_principal (fst s) q"
    "grants (env_of (svc_revocations (snd s))) tenant_user \<lparr>ain_providerId = providerId, ain_rawCredential = credential,
       ain_requiredAudience = audience, ain_correlationId = corr\<rparr> q"
    by (rule bearer_session [OF via assms])
  then show ?thesis using granted_claims [OF cred(4)] by auto
qed

text \<open>C10: a proof is recorded only for a member whose credential proves it. If any request to the composed server with
  the proof route mounted changes the proof records, then the tenant provider's verifier accepted the request's bearer
  credential; the tenant is one of the tenants the verified claims name and is active in the database; exactly one record was
  added, of that tenant and of the credential's subject; the subject's active roles in that tenant grant the
  proof permission; and no tenant row changed.\<close>

theorem proof_recorded_for_verified_member:
  assumes "composePostgresApi env ((main_options tp pp env_of)\<lparr>po_enableFoundationProof := True\<rparr>) check checkParam = Inr server"
    "server renv request s = (out, s')" "svc_proofs (snd s') \<noteq> svc_proofs (snd s)"
  shows "\<exists>corr credential policy claims t tenant ctx rec. bearerCredential (singleHeader request ''authorization'') corr = Inr credential \<and>
    an_policies (env_of (svc_revocations (snd s))) (ip_id tp) = Inr (Some policy) \<and> an_verify (env_of (svc_revocations (snd s))) credential policy = Inr claims \<and>
    t \<in> set (cl_tenantIds claims) \<and> db_tenants (svc_db (snd s)) t = Some tenant \<and> t_state tenant = ACTIVE \<and>
    svc_proofs (snd s') = svc_proofs (snd s) @ [rec] \<and> fp_tenantId rec = t \<and> fp_actorId rec = cl_subject claims \<and>
    tc_tenantId ctx = t \<and> tc_actorId ctx = cl_subject claims \<and>
    assertPermission (loadAssignedRoles (svc_db (snd s))) None (Some ctx) ''foundation:proof:execute'' [] = Inr () \<and>
    db_tenants (svc_db (snd s')) = db_tenants (svc_db (snd s))"
proof -
  obtain audit where server: "server = serve (api_dependencies_of env ((main_options tp pp env_of)\<lparr>po_enableFoundationProof := True\<rparr>) audit check checkParam)"
    using assms(1) by (auto simp: composePostgresApi_def bindR_Inr_iff buildApiServer_def split: if_splits)
  define deps where "deps = api_dependencies_of env ((main_options tp pp env_of)\<lparr>po_enableFoundationProof := True\<rparr>) audit check checkParam"
  have d: "dep_foundationProof deps = Some (proof_command env audit)" "dep_tenantStates deps = tenant_states"
    "dep_tenantCommands deps = Some (tenant_commands env audit platform_assertAllowed)"
    "dep_authenticator deps = on_authentication (\<lambda>e. createBearerAuthenticator e (ip_id tp) TENANT_AUDIENCE) env_of"
    by (simp_all add: deps_def api_dependencies_of_def main_options_def)
  obtain corr cause where tr: "trace_of renv request = (corr, cause)" by (rule prod.exhaust)
  have "snd s' \<noteq> snd s" using assms(3) by auto
  then obtain state s1 body where on: "onRequest deps (mounted deps (rq_route request)) request corr cause s = (Inr state, s1)"
    and rr: "snd (run_route deps renv (mounted deps (rq_route request)) request state body s1) = s'" and s1: "snd s1 = snd s"
    using changed_by_handler [OF assms(2) [unfolded server, folded deps_def] _ tr] bearer_onRequest_db unfolding deps_def by metis
  have m: "mounted deps (rq_route request) = rq_route request" by (simp add: mounted_def d)
  have "\<not> is_platform (rq_route request)"
  proof
    assume plat: "is_platform (rq_route request)"
    obtain c s2 where pc: "platformContext renv state s1 = (Inr c, s2)" "command_change c (rq_route request) body s2 s'"
      using platform_route_change [OF d(3) plat, of renv request state body s1] rr s1 assms(3) unfolding m by metis
    then show False using platformContext_db [OF pc(1)] s1 assms(3) by (auto simp: command_change_def database_effect_def)
  qed
  then have route: "rq_route request = Proofs"
    using rr s1 assms(3) unfolding m by (cases "rq_route request") (auto simp: run_route_def is_platform_def)
  have "onRequest deps Proofs request corr cause s = (Inr state, s1)" using on m route by simp
  then obtain p where auth: "on_authentication (\<lambda>e. createBearerAuthenticator e (ip_id tp) TENANT_AUDIENCE) env_of (singleHeader request ''authorization'') corr s = (Inr p, s1)"
    and state: "st_principal state = Some p"
    by (rule onRequest_InrE) (simp_all add: is_platform_def d(4))
  obtain o2 where run: "run_route deps renv Proofs request state body s1 = (o2, s')" using rr m route by (metis prod.collapse)
  from member_session [OF auth] obtain credential policy claims where cl: "bearerCredential (singleHeader request ''authorization'') corr = Inr credential"
    "an_policies (env_of (svc_revocations (snd s))) (ip_id tp) = Inr (Some policy)" "an_verify (env_of (svc_revocations (snd s))) credential policy = Inr claims"
    "p_actorId (principals (fst s1) ! p) = cl_subject claims" "set (p_tenantMemberships (principals (fst s1) ! p)) = set (cl_tenantIds claims)" by blast
  have ne: "svc_proofs (snd s') \<noteq> svc_proofs (snd s1)" using assms(3) s1 by simp
  show ?thesis
  proof (rule proofs_route_change [OF d(1,2) state run ne])
    fix t tenant ctx rec
    assume "t \<in> set (p_tenantMemberships (principals (fst s1) ! p))" "db_tenants (svc_db (snd s1)) t = Some tenant" "t_state tenant = ACTIVE"
      "tc_tenantId ctx = t" "tc_actorId ctx = p_actorId (principals (fst s1) ! p)"
      "assertPermission (loadAssignedRoles (svc_db (snd s1))) None (Some ctx) ''foundation:proof:execute'' [] = Inr ()"
      "svc_proofs (snd s') = svc_proofs (snd s1) @ [rec]" "fp_tenantId rec = t" "fp_actorId rec = tc_actorId ctx"
      "db_tenants (svc_db (snd s')) = db_tenants (svc_db (snd s1))"
    then show ?thesis using cl s1
      by (intro exI [of _ corr] exI [of _ credential] exI [of _ policy] exI [of _ claims] exI [of _ t] exI [of _ tenant] exI [of _ ctx] exI [of _ rec]) simp
  qed
qed

section \<open>A tenant provisioned over HTTP\<close>

text \<open>One operator token, one provisioning request, on an empty database.\<close>

definition operator_jwt :: "unit jwt_verify" where
  "operator_jwt raw keys options = (if raw = ''tok'' then Inr
     [(''iss'', JString ''p-iss''), (''sub'', JString ''op''), (''aud'', JString ''sintius-platform''), (''jti'', JString ''c''), (''exp'', JNumber (Num 100)),
      (''iat'', JNumber (Num 40)), (''amr'', JArray [JString ''mfa'']), (''sintius_platform_roles'', JArray [JString ''platform_tenant_provisioner''])] else Inl Error)"

definition example_main :: main_env where
  "example_main = \<lparr>me_tenantJwksUrl = Some ''https://t'', me_tenantIssuer = Some ''t-iss'', me_platformJwksUrl = Some ''https://p'',
     me_platformIssuer = Some ''p-iss'', me_tenantRequireMfa = None\<rparr>"

definition example_clock :: auth_clock where
  "example_clock = \<lparr>ac_verifier = Some 50, ac_now = Some 50, ac_factNow = Some 50\<rparr>"

definition example_composition :: composition_env where
  "example_composition = \<lparr>cx_sha256 = id, cx_redact = id, cx_now = Some 5, cx_executorNow = Some 6, cx_auditNow = Some 7, cx_eventId = ''evt'',
     cx_auditId = ''aud'', cx_proofRecordId = ''p1''\<rparr>"

definition example_api :: "api_db api" where
  "example_api = (trust_init, \<lparr>svc_table = Map.empty, svc_db = empty_db, svc_proofs = [], svc_revocations = {}\<rparr>)"

definition provision_headers :: "string \<Rightarrow> header_value option" where
  "provision_headers h = (if h = ''authorization'' then Some (OneValue ''Bearer tok'') else if h = CORRELATION_ID_HEADER then Some (OneValue ''r'')
     else if h = IDEMPOTENCY_KEY_HEADER then Some (OneValue sample_key) else None)"

definition provision_body :: js_value where
  "provision_body = JObject [(''tenant_id'', JString ''t''), (''display_name'', JString ''Acme''), (''initial_administrator_actor_id'', JString ''adm'')]"

definition provision_request :: http_request where
  "provision_request = \<lparr>rq_route = Tenants, rq_header = provision_headers, rq_body = Parsed provision_body\<rparr>"

lemma provision_request_simps [simp]:
  "singleHeader provision_request ''authorization'' = Some ''Bearer tok''" "singleHeader provision_request CORRELATION_ID_HEADER = Some ''r''"
  "singleHeader provision_request CAUSATION_ID_HEADER = None" "metadataOf provision_request = Some sample_key"
  "rq_route provision_request = Tenants" "rq_body provision_request = Parsed provision_body"
  by (simp_all add: singleHeader_def metadataOf_def provision_request_def provision_headers_def CORRELATION_ID_HEADER_def CAUSATION_ID_HEADER_def IDEMPOTENCY_KEY_HEADER_def)

lemma provision_trace: "trace_of env provision_request = (''r'', None)"
proof -
  have "isValidTraceId ''r''"
    by (simp add: isValidTraceId_def matches_head_tail_def is_trace_head_def is_lower_def is_upper_def is_digit_def less_eq_char_def)
  then show ?thesis by (simp add: trace_of_def resolveTraceIds_def)
qed

lemma bearer_tok: "bearerCredential (Some ''Bearer tok'') corr = Inr ''tok''"
proof -
  have "bearer_shape ''Bearer tok'' ''tok''"
    unfolding bearer_shape_def
    by (rule exI [of _ "''Bearer''"], rule exI [of _ "'' ''"], rule exI [of _ "''tok''"], rule exI [of _ "''''"], rule exI [of _ "''''"])
      (simp add: is_blank_char_def is_token_char_def is_upper_def is_lower_def is_digit_def less_eq_char_def lower_char_def char_of_eq_iff take_bit_eq_mod)
  then show ?thesis by (simp add: bearerCredential_Inr_iff MAX_CREDENTIAL_LENGTH_def)
qed

lemma example_main_providers:
  "main_providers (\<lambda>u. Inr ()) () () example_main = Inr (configured_tenant_policy ''t-iss'' None, (), configured_platform_policy ''p-iss'', ())"
  by (simp add: main_providers_def example_main_def)

definition operator_principal :: principal where
  "operator_principal = \<lparr>p_actorId = ''op'', p_kind = interactive, p_tenantMemberships = [], p_assurance = mfa, p_credentialId = ''c'', p_issuer = ''p-iss'',
     p_audiences = [''sintius-platform''], p_scopes = [''platform:tenant:provision''], p_expiresAt = 100000\<rparr>"

lemma operator_claims_read:
  "jwt_verify_credential operator_jwt [(''configured-tenant'', provider_keys ()), (''configured-platform'', provider_keys ())] now ''tok'' (configured_platform_policy ''p-iss'') =
   Inr \<lparr>cl_mechanism = oidc, cl_credentialId = ''c'', cl_subject = ''op'', cl_issuer = ''p-iss'', cl_audiences = [''sintius-platform''], cl_tenantIds = [],
     cl_authenticationMethods = [''mfa''], cl_scopes = [], cl_expiresAt = Some 100000, cl_notBefore = None, cl_platformRoles = Some [''platform_tenant_provisioner'']\<rparr>"
  by (simp add: jwt_verify_credential_def configured_platform_policy_def operator_jwt_def claims_from_def provider_keys_def payload_claim_def stringArray_def js_is_string_def
      instant_of_def mkDate_def scopesOf_def)

lemma operator_authenticated:
  "on_authentication (\<lambda>e. createPlatformBearerAuthenticator e ''configured-platform'')
     (provider_env operator_jwt example_clock (configured_tenant_policy ''t-iss'' None, (), configured_platform_policy ''p-iss'', ())) (Some ''Bearer tok'') ''r'' example_api =
   (Inr 0, (with_principal trust_init operator_principal, snd example_api))"
proof -
  let ?env = "provider_env operator_jwt example_clock (configured_tenant_policy ''t-iss'' None, (), configured_platform_policy ''p-iss'', ()) {}"
  let ?in = "\<lparr>ain_providerId = ''configured-platform'', ain_rawCredential = ''tok'', ain_requiredAudience = ''sintius-platform'', ain_correlationId = ''r''\<rparr>"
  let ?c = "\<lparr>cl_mechanism = oidc, cl_credentialId = ''c'', cl_subject = ''op'', cl_issuer = ''p-iss'', cl_audiences = [''sintius-platform''], cl_tenantIds = [],
     cl_authenticationMethods = [''mfa''], cl_scopes = [], cl_expiresAt = Some 100000, cl_notBefore = None, cl_platformRoles = Some [''platform_tenant_provisioner'']\<rparr>"
  have ids: "ip_id (configured_tenant_policy i m) = ''configured-tenant''" "ip_id (configured_platform_policy i) = ''configured-platform''" for i m
    by (simp_all add: configured_tenant_policy_def configured_platform_policy_def)
  have pol: "an_policies ?env ''configured-platform'' = Inr (Some (configured_platform_policy ''p-iss''))"
    by (simp add: provider_env_def authentication_env_def policy_by_id_def ids)
  have ver: "an_verify ?env ''tok'' (configured_platform_policy ''p-iss'') = Inr ?c"
    by (simp add: provider_env_def authentication_env_def ids operator_claims_read)
  have env: "an_now ?env = Some 50" "an_isRevoked ?env i k = Inr False" for i k
    by (simp_all add: provider_env_def authentication_env_def example_clock_def isRevoked_def)
  have "base_claims_ok ?c (configured_platform_policy ''p-iss'') ''sintius-platform'' (Some 50)"
    by (simp add: base_claims_ok_def configured_platform_policy_def blank_def is_space_def PLATFORM_AUDIENCE_def)
  then have "admitted ?env ?in [oidc, saml] (configured_platform_policy ''p-iss'') ?c"
    unfolding admitted_def using pol ver env by (simp add: blank_def is_space_def configured_platform_policy_def)
  moreover have "platformPermissionsFor [''platform_tenant_provisioner''] = [''platform:tenant:provision'']"
    by (simp add: platformPermissionsFor_def PLATFORM_ROLES_def)
  then have "operator_content (configured_platform_policy ''p-iss'') ?c operator_principal"
    by (simp add: operator_content_def operator_principal_def blank_def is_space_def)
  ultimately have "\<exists>s'. authenticatePlatformOperator ?env ?in \<lparr>ax_trust = trust_init, ax_facts = []\<rparr> = (Inr 0, s') \<and> ax_trust s' = with_principal trust_init operator_principal"
    unfolding operator_exact by (auto simp: trust_init_def)
  then show ?thesis
    by (auto simp: on_authentication_def example_api_def createPlatformBearerAuthenticator_def bearer_tok bindT_liftT PLATFORM_AUDIENCE_def split: prod.splits)
qed
lemma composed_audit_policy:
  "\<exists>policy. createAuditPolicy [(''Tenant'', TENANT_AUDIT_FIELDS), (''ProofRecord'', FOUNDATION_PROOF_AUDIT_FIELDS)] = Inr policy \<and>
     allowedFields policy ''Tenant'' \<noteq> None \<and> allowedFields policy ''ProofRecord'' \<noteq> None"
  by (simp add: createAuditPolicy_def BUILT_IN_def TENANT_AUDIT_FIELDS_def FOUNDATION_PROOF_AUDIT_FIELDS_def allowedFields_def) code_simp

lemma operator_context:
  "\<exists>t2. resolvePlatformCommandContext 0 ''r'' None 0 (with_principal trust_init operator_principal) = (Inr 0, t2) \<and>
     0 \<in> set (issuedPlatformContexts t2) \<and> platformContexts t2 ! 0 = example_operator"
  by (simp add: resolvePlatformCommandContext_def trust_op_defs actorId_def with_principal_def trust_init_def operator_principal_def trim_def is_space_def
      resolved_platform_def example_operator_def)

lemma provisioned_over_http:
  assumes "main_server operator_jwt (\<lambda>u. Inr ()) () () example_main example_clock example_composition (\<lambda>schema b. []) (\<lambda>t. []) = Inr server" "rv_now renv = 0"
  shows "snd (snd (server renv provision_request example_api)) \<noteq> snd example_api"
proof -
  obtain tp pp policy where prov: "main_providers (\<lambda>u. Inr ()) () () example_main = Inr (tp, (), pp, ())"
    and pol: "createAuditPolicy [(''Tenant'', TENANT_AUDIT_FIELDS), (''ProofRecord'', FOUNDATION_PROOF_AUDIT_FIELDS)] = Inr policy"
    and server: "server = serve (api_dependencies_of example_composition (main_options tp pp (provider_env operator_jwt example_clock (tp, (), pp, ())))
       (audit_recorder example_composition policy) (\<lambda>schema b. []) (\<lambda>t. []))"
    using assms(1)
    by (auto simp: main_server_def bindR_Inr_iff createJwtCredentialVerifier_def composePostgresApi_def buildApiServer_def provider_env_def split: prod.splits if_splits)
  have pv: "tp = configured_tenant_policy ''t-iss'' None" "pp = configured_platform_policy ''p-iss''" using prov by (simp_all add: example_main_providers)
  define deps where "deps = api_dependencies_of example_composition (main_options tp pp (provider_env operator_jwt example_clock (tp, (), pp, ())))
       (audit_recorder example_composition policy) (\<lambda>schema b. []) (\<lambda>t. [])"
  define state where "state = \<lparr>st_correlationId = ''r'', st_causationId = None, st_principal = Some 0, st_tenantContext = None\<rparr>"
  define t1 where "t1 = with_principal trust_init operator_principal"
  obtain t2 where t2: "resolvePlatformCommandContext 0 ''r'' None 0 t1 = (Inr 0, t2)" "0 \<in> set (issuedPlatformContexts t2)" "platformContexts t2 ! 0 = example_operator"
    using operator_context unfolding t1_def by blast
  have auth: "on_authentication (\<lambda>e. createPlatformBearerAuthenticator e (ip_id pp)) (provider_env operator_jwt example_clock (tp, (), pp, ())) (Some ''Bearer tok'') ''r''
      example_api = (Inr 0, (t1, snd example_api))"
    using operator_authenticated by (simp add: pv t1_def configured_platform_policy_def)
  have on: "onRequest deps Tenants provision_request ''r'' None example_api = (Inr state, (t1, snd example_api))"
    by (simp add: onRequest_def is_platform_def deps_def bindT_def auth returnT_def state_def)
  have pc: "platformContext renv state (t1, snd example_api) = (Inr 0, (t2, snd example_api))"
    by (simp add: platformContext_def state_def bindT_liftT principalOf_def on_trust_Inr_iff assms(2) t2(1))
  let ?ce = "tenant_command_env example_composition (audit_recorder example_composition policy) t2"
  have "allowedFields policy ''Tenant'' \<noteq> None" using composed_audit_policy pol by auto
  then have "example_ready ?ce"
    using t2(2,3) by (simp add: example_ready_def tenant_command_env_def example_composition_def audit_recorder_def)
  then obtain view s' where pr: "provision ?ce platform_assertAllowed 0 example_provision (Some sample_key) service_start = (Inr view, s')"
    "db_tenants (snd s') ''t'' \<noteq> None"
    using example_provisioned by fastforce
  have "snd (server renv provision_request example_api) = (t2, (snd example_api)\<lparr>svc_table := fst s', svc_db := snd s'\<rparr>)"
  proof -
    have "lc_provision (tenant_commands example_composition (audit_recorder example_composition policy) platform_assertAllowed) 0 example_provision (Some sample_key) (t2, snd example_api) =
        (Inr (representation view), (t2, (snd example_api)\<lparr>svc_table := fst s', svc_db := snd s'\<rparr>))"
      using pr(1) by (simp add: tenant_commands_def run_command_def on_identity_tables_def example_api_def service_start_def bindT_def returnT_def split: prod.splits)
    moreover have "dep_tenantCommands deps = Some (tenant_commands example_composition (audit_recorder example_composition policy) platform_assertAllowed)"
      "dep_validate deps = (\<lambda>schema b. [])" by (simp_all add: deps_def api_dependencies_of_def)
    moreover from this(1) have "mounted deps Tenants = Tenants" by (rule mounted_platform [rotated]) (simp add: is_platform_def)
    moreover have "\<lparr>pv_tenantId = js_text (js_prop provision_body ''tenant_id''), pv_displayName = js_text (js_prop provision_body ''display_name''),
        pv_initialAdministratorActorId = js_text (js_prop provision_body ''initial_administrator_actor_id'')\<rparr> = example_provision"
      by (simp add: provision_body_def js_prop_def example_provision_def)
    ultimately show ?thesis
      unfolding server deps_def [symmetric] serve_state [OF provision_trace]
      by (simp add: on run_route_def validated_def app_stage_state provision_handler_state pc)
  qed
  then show ?thesis using pr(2) by (auto simp: example_api_def empty_db_def)
qed

lemma example_main_started:
  "\<exists>server. main_server operator_jwt (\<lambda>u. Inr ()) () () example_main example_clock example_composition (\<lambda>schema b. []) (\<lambda>t. []) = Inr server"
proof -
  have "createJwtCredentialVerifier operator_jwt [(i, provider_keys ()), (j, provider_keys ())] =
      Inr (jwt_verify_credential operator_jwt [(i, provider_keys ()), (j, provider_keys ())])" for i j
    by (simp add: createJwtCredentialVerifier_def provider_algorithms_def provider_keys_def list_ex_iff)
  then show ?thesis
    using composed_audit_policy by (auto simp: main_server_def example_main_providers composePostgresApi_def buildApiServer_def api_dependencies_of_def)
qed

theorem database_changed_by_operators_only_witness:
  "\<exists>server providers claims. main_server operator_jwt (\<lambda>u. Inr ()) () () example_main example_clock example_composition (\<lambda>schema b. []) (\<lambda>t. []) = Inr server \<and>
     main_providers (\<lambda>u. Inr ()) () () example_main = Inr providers \<and>
     operator_claims operator_jwt providers (Some 50) ''tok'' {} claims \<and> ''platform:tenant:provision'' \<in> set (platformPermissionsFor (the (cl_platformRoles claims))) \<and>
     database_effect Tenants provision_body (snd example_api) (snd (snd (server example_http_env provision_request example_api)))"
proof -
  obtain server where server: "main_server operator_jwt (\<lambda>u. Inr ()) () () example_main example_clock example_composition (\<lambda>schema b. []) (\<lambda>t. []) = Inr server"
    using example_main_started by blast
  have run: "server example_http_env provision_request example_api =
      (fst (server example_http_env provision_request example_api), snd (server example_http_env provision_request example_api))" by simp
  have "snd (snd (server example_http_env provision_request example_api)) \<noteq> snd example_api"
    by (rule provisioned_over_http [OF server]) (simp add: example_http_env_def)
  from database_changed_by_operators_only [OF server run this] obtain providers corr credential claims body where
    "main_providers (\<lambda>u. Inr ()) () () example_main = Inr providers" "bearerCredential (Some ''Bearer tok'') corr = Inr credential"
    "operator_claims operator_jwt providers (ac_verifier example_clock) credential (svc_revocations (snd example_api)) claims"
    "route_permission Tenants \<in> set (platformPermissionsFor (case cl_platformRoles claims of None \<Rightarrow> [] | Some rs \<Rightarrow> rs))"
    "Parsed provision_body = Parsed body" "database_effect Tenants body (snd example_api) (snd (snd (server example_http_env provision_request example_api)))"
    by (simp only: provision_request_simps) blast
  then show ?thesis using server
    by (intro exI [of _ server] exI [of _ providers] exI [of _ claims]; cases "cl_platformRoles claims")
       (simp_all add: bearer_tok example_clock_def example_api_def route_permission_def platformPermissionsFor_iff)
qed

section \<open>A proof recorded over HTTP\<close>

definition member_claims :: credential_claims where
  "member_claims = \<lparr>cl_mechanism = oidc, cl_credentialId = ''c'', cl_subject = ''a'', cl_issuer = ''t-iss'', cl_audiences = [''sintius-api''], cl_tenantIds = [''t:1''],
     cl_authenticationMethods = [''mfa''], cl_scopes = [], cl_expiresAt = Some 100000, cl_notBefore = None, cl_platformRoles = None\<rparr>"

definition member_env :: "(string \<times> string) set \<Rightarrow> auth_env" where
  "member_env = authentication_env [configured_tenant_policy ''t-iss'' None, configured_platform_policy ''p-iss''] (\<lambda>raw policy. Inr member_claims) (Some 50) (Some 50)"

definition member_options :: postgres_options where
  "member_options = (main_options (configured_tenant_policy ''t-iss'' None) (configured_platform_policy ''p-iss'') member_env)\<lparr>po_enableFoundationProof := True\<rparr>"

definition member_db :: identity_db where
  "member_db = empty_db\<lparr>
     db_tenants := [''t:1'' \<mapsto> \<lparr>t_id = ''t:1'', t_displayName = ''T'', t_state = ACTIVE, t_version = 2, t_createdAt = 1, t_updatedAt = 2\<rparr>],
     db_roles := [(''t:1'', ''prover'') \<mapsto> \<lparr>rr_permissions = JArray [JString ''foundation:proof:execute''], rr_status = role_active, rr_limits = JArray []\<rparr>],
     db_assignments := [active_assignment ''t:1'' ''a'' ''prover'']\<rparr>"

definition member_api :: "api_db api" where
  "member_api = (trust_init, \<lparr>svc_table = Map.empty, svc_db = member_db, svc_proofs = [], svc_revocations = {}\<rparr>)"

definition proof_request :: http_request where
  "proof_request = \<lparr>rq_route = Proofs, rq_header = provision_headers, rq_body = Parsed (JObject [(''label'', JString '' hi '')])\<rparr>"

lemma proof_request_simps [simp]:
  "singleHeader proof_request ''authorization'' = Some ''Bearer tok''" "singleHeader proof_request CORRELATION_ID_HEADER = Some ''r''"
  "singleHeader proof_request CAUSATION_ID_HEADER = None" "singleHeader proof_request ACTIVE_TENANT_HEADER = None" "metadataOf proof_request = Some sample_key"
  "rq_route proof_request = Proofs" "rq_body proof_request = Parsed (JObject [(''label'', JString '' hi '')])"
  by (simp_all add: singleHeader_def metadataOf_def proof_request_def provision_headers_def CORRELATION_ID_HEADER_def CAUSATION_ID_HEADER_def IDEMPOTENCY_KEY_HEADER_def
      ACTIVE_TENANT_HEADER_def)

lemma proof_trace: "trace_of env proof_request = (''r'', None)"
  using provision_trace [of env] by (simp add: trace_of_def)

definition member_principal :: principal where
  "member_principal = \<lparr>p_actorId = ''a'', p_kind = interactive, p_tenantMemberships = [''t:1''], p_assurance = mfa, p_credentialId = ''c'', p_issuer = ''t-iss'',
     p_audiences = [''sintius-api''], p_scopes = [], p_expiresAt = 100000\<rparr>"

lemma member_authenticated:
  "po_authenticator member_options (Some ''Bearer tok'') ''r'' member_api = (Inr 0, (with_principal trust_init member_principal, snd member_api))"
proof -
  let ?in = "\<lparr>ain_providerId = ''configured-tenant'', ain_rawCredential = ''tok'', ain_requiredAudience = ''sintius-api'', ain_correlationId = ''r''\<rparr>"
  let ?p = "configured_tenant_policy ''t-iss'' None"
  have "admitted (member_env {}) ?in [oidc, saml] ?p member_claims"
    by (simp add: admitted_def member_env_def authentication_env_def policy_by_id_def configured_tenant_policy_def base_claims_ok_def member_claims_def blank_def is_space_def
        isRevoked_def TENANT_AUDIENCE_def)
  moreover have "interactive_content ''sintius-api'' ?p member_claims member_principal"
    by (simp add: interactive_content_def member_claims_def member_principal_def blank_def is_space_def)
  ultimately have "\<exists>s'. authenticateInteractive (member_env {}) ?in \<lparr>ax_trust = trust_init, ax_facts = []\<rparr> = (Inr 0, s') \<and> ax_trust s' = with_principal trust_init member_principal"
    unfolding interactive_exact by (auto simp: trust_init_def)
  moreover have "ip_id ?p = ''configured-tenant''" by (simp add: configured_tenant_policy_def)
  ultimately show ?thesis
    by (auto simp: member_options_def on_authentication_def member_api_def createBearerAuthenticator_def bearer_tok bindT_liftT TENANT_AUDIENCE_def split: prod.splits)
qed

definition member_context :: tenant_context where
  "member_context = \<lparr>tc_tenantId = ''t:1'', tc_actorId = ''a'', tc_principalKind = interactive, tc_correlationId = ''r'', tc_causationId = None, tc_assurance = mfa,
     tc_credentialId = ''c'', tc_audiences = [''sintius-api''], tc_scopes = []\<rparr>"

lemma member_permitted: "assertPermission (loadAssignedRoles member_db) None (Some member_context) ''foundation:proof:execute'' [] = Inr ()"
  by (simp add: assertPermission_def hasPermission_def assertKnownPermission_def isKnownPermission_def PERMISSION_CATALOG_def currentTenantContext_def member_context_def
      loadAssignedRoles_def member_db_def active_assignment_def List.map_filter_def role_from_def grantedByRoles_def role_grants_def string_items_def
      limits_from_def constraintsSatisfied_def)

text \<open>The proof command itself, under the ambient context of the member.\<close>

lemma member_proof_recorded:
  assumes "activeTenantContext t = Some member_context" "allowedFields policy ''ProofRecord'' \<noteq> None"
  shows "\<exists>r s'. proof_command (example_composition\<lparr>cx_eventId := ''e1'', cx_auditId := ''a1''\<rparr>) (audit_recorder example_composition policy) '' hi '' (Some sample_key) (t, snd member_api) = (Inr r, (t, s')) \<and>
    svc_proofs s' = [example_proof]"
proof -
  let ?env = "proof_command_env (example_composition\<lparr>cx_eventId := ''e1'', cx_auditId := ''a1''\<rparr>) (audit_recorder example_composition policy) (Some member_context) member_db"
  have "proof_ready ?env member_context"
    using assms(2) member_permitted
    by (simp add: proof_ready_def proof_command_env_def example_composition_def audit_recorder_def FOUNDATION_PROOF_PERMISSION_def) (simp add: member_context_def)
  from example_proof_run [OF this] obtain r s' where run: "recordFoundationProof ?env (Some member_context) '' hi '' (Some sample_key) (Map.empty, example_proof_db) = (Inr r, s')"
    "pd_records (snd s') = [example_proof]" by blast
  have "proof_tables (snd member_api) = example_proof_db"
    by (simp add: proof_tables_def member_api_def member_db_def empty_db_def example_proof_db_def)
  then show ?thesis
    using run by (auto simp: proof_command_def on_proof_tables_def assms(1) member_api_def with_proof_tables_def split: prod.splits)
qed

definition member_state :: request_state where
  "member_state = \<lparr>st_correlationId = ''r'', st_causationId = None, st_principal = Some 0, st_tenantContext = None\<rparr>"

lemma member_resolved:
  assumes "dep_tenantStates deps = tenant_states" "rv_now renv = 0"
  shows "\<exists>t3. resolveTenant deps renv proof_request member_state (JObject [(''label'', JString '' hi '')]) (with_principal trust_init member_principal, snd member_api) =
      (Inr (member_state\<lparr>st_tenantContext := Some 0\<rparr>), (t3, snd member_api)) \<and>
    0 \<in> set (issuedContexts t3) \<and> storage t3 = None \<and> activeTenantContext (t3\<lparr>storage := Some 0\<rparr>) = Some member_context"
proof -
  let ?t = "with_principal trust_init member_principal" and ?b = "JObject [(''label'', JString '' hi '')]"
  have p: "principals ?t ! 0 = member_principal" "issuedPrincipals ?t = [0]" "contexts ?t = []" "storage ?t = None" by (simp_all add: with_principal_def trust_init_def)
  have q: "p_tenantMemberships member_principal = [''t:1'']" "p_expiresAt member_principal = 100000" by (simp_all add: member_principal_def)
  have sel: "st_principal member_state = Some 0" by (simp add: member_state_def)
  have t: "selected_tenant proof_request (p_tenantMemberships (principals (fst (?t, snd member_api)) ! 0)) = Some ''t:1''" "\<not> blank ''t:1''"
    by (simp_all add: selected_tenant_def p q blank_def is_space_def)
  have m: "''t:1'' \<in> set (p_tenantMemberships (principals (fst (?t, snd member_api)) ! 0)) \<and> (None :: string option) = None"
    by (simp add: p q)
  have b: "body_tenant ?b = Inr None" by (simp add: body_tenant_def)
  have reads: "tenant_states ''t:1'' ''r'' (?t, snd member_api) = (Inr (Some ACTIVE), (?t, snd member_api))"
    by (simp add: tenant_states_def on_identity_tables_def runInTransaction_def outside_table_def tenants_findById_def guarded_def assertTenantMatch_def bindT_def liftT_def
        returnT_def member_api_def member_db_def snapshot_def tenantId_ok blank_def is_space_def)
  obtain t3 where r: "resolveTenantContext (resolution member_state 0 ''t:1'' ACTIVE None) 0 ?t = (Inr 0, t3)" "issuedContexts t3 = [0]" "storage t3 = None"
    unfolding resolveTenantContext_Inr_iff
    by (simp add: resolution_def p q member_state_def blank_def is_space_def issue_context_def Let_def)
       (simp add: with_principal_def trust_init_def)
  have "activeTenantContext (t3\<lparr>storage := Some 0\<rparr>) = Some member_context"
    using resolved_ambient [OF r(1)]
    by (simp add: resolution_def p resolved_context_def member_state_def member_context_def) (simp add: member_principal_def)
  moreover have "resolveTenant deps renv proof_request member_state ?b (?t, snd member_api) = (Inr (member_state\<lparr>st_tenantContext := Some 0\<rparr>), (t3, snd member_api))"
    unfolding resolveTenant_selected [OF sel refl] t(1) option.case if_not_P [OF t(2)] b sum.case if_P [OF m] assms
    using reads r(1) by (simp add: bindT_def member_state_def [THEN arg_cong, of st_correlationId] on_trust_def returnT_def)
  ultimately show ?thesis using r(2,3) by auto
qed

lemma proof_over_http:
  assumes "composePostgresApi (example_composition\<lparr>cx_eventId := ''e1'', cx_auditId := ''a1''\<rparr>) member_options (\<lambda>schema b. []) (\<lambda>t. []) = Inr server" "rv_now renv = 0"
  shows "svc_proofs (snd (snd (server renv proof_request member_api))) = [example_proof]"
proof -
  let ?cx = "example_composition\<lparr>cx_eventId := ''e1'', cx_auditId := ''a1''\<rparr>"
  obtain policy where pol: "createAuditPolicy [(''Tenant'', TENANT_AUDIT_FIELDS), (''ProofRecord'', FOUNDATION_PROOF_AUDIT_FIELDS)] = Inr policy"
    and server: "server = serve (api_dependencies_of ?cx member_options (audit_recorder ?cx policy) (\<lambda>schema b. []) (\<lambda>t. []))"
    using assms(1) by (auto simp: composePostgresApi_def bindR_Inr_iff buildApiServer_def split: if_splits)
  define deps where "deps = api_dependencies_of ?cx member_options (audit_recorder ?cx policy) (\<lambda>schema b. []) (\<lambda>t. [])"
  have d: "dep_foundationProof deps = Some (proof_command ?cx (audit_recorder ?cx policy))" "dep_tenantStates deps = tenant_states" "dep_validate deps = (\<lambda>schema b. [])"
    "dep_authenticator deps = po_authenticator member_options"
    by (simp_all add: deps_def api_dependencies_of_def member_options_def)
  have rec: "audit_recorder ?cx policy = audit_recorder example_composition policy" by (simp add: audit_recorder_def example_composition_def)
  have on: "onRequest deps Proofs proof_request ''r'' None member_api = (Inr member_state, (with_principal trust_init member_principal, snd member_api))"
    by (simp add: onRequest_def is_platform_def d bindT_def member_authenticated returnT_def member_state_def)
  obtain t3 where t3: "resolveTenant deps renv proof_request member_state (JObject [(''label'', JString '' hi '')]) (with_principal trust_init member_principal, snd member_api) =
      (Inr (member_state\<lparr>st_tenantContext := Some 0\<rparr>), (t3, snd member_api))"
    "0 \<in> set (issuedContexts t3)" "storage t3 = None" "activeTenantContext (t3\<lparr>storage := Some 0\<rparr>) = Some member_context"
    using member_resolved [OF d(2) assms(2)] by blast
  have "allowedFields policy ''ProofRecord'' \<noteq> None" using composed_audit_policy pol by auto
  from member_proof_recorded [OF t3(4) this] obtain r s' where
    run: "proof_command ?cx (audit_recorder ?cx policy) '' hi '' (Some sample_key) (t3\<lparr>storage := Some 0\<rparr>, snd member_api) = (Inr r, (t3\<lparr>storage := Some 0\<rparr>, s'))"
      "svc_proofs s' = [example_proof]" unfolding rec by blast
  have "run_in_tenant 0 (proof_command ?cx (audit_recorder ?cx policy) '' hi '' (Some sample_key)) (t3, snd member_api) = (Inr r, (t3, s'))"
    using run(1) t3(2,3) by (simp add: run_in_tenant_def runWithTenantContext_eq Let_def)
  moreover have "mounted deps Proofs = Proofs" by (simp add: mounted_def d is_platform_def)
  ultimately have "snd (server renv proof_request member_api) = (t3, s')"
    unfolding server deps_def [symmetric] serve_state [OF proof_trace]
    by (simp add: on run_route_def d t3(1) validated_def app_stage_state proofs_handler_def inTenant_def js_prop_def bindT_def returnT_def)
  then show ?thesis using run(2) by simp
qed

theorem proof_recorded_for_verified_member_witness:
  "\<exists>tenant. db_tenants member_db ''t:1'' = Some tenant \<and> t_state tenant = ACTIVE \<and>
     assertPermission (loadAssignedRoles member_db) None (Some member_context) ''foundation:proof:execute'' [] = Inr () \<and> fp_actorId example_proof = cl_subject member_claims"
proof -
  let ?cx = "example_composition\<lparr>cx_eventId := ''e1'', cx_auditId := ''a1''\<rparr>"
  obtain server where server: "composePostgresApi ?cx member_options (\<lambda>schema b. []) (\<lambda>t. []) = Inr server"
    using composed_audit_policy by (auto simp: composePostgresApi_def buildApiServer_def api_dependencies_of_def)
  define s' where "s' = snd (server example_http_env proof_request member_api)"
  have run: "server example_http_env proof_request member_api = (fst (server example_http_env proof_request member_api), s')" by (simp add: s'_def)
  have stored: "svc_proofs (snd s') = [example_proof]" unfolding s'_def by (rule proof_over_http [OF server]) (simp add: example_http_env_def)
  have empty: "svc_proofs (snd member_api) = []" "svc_db (snd member_api) = member_db" by (simp_all add: member_api_def)
  then have "svc_proofs (snd s') \<noteq> svc_proofs (snd member_api)" using stored by simp
  from proof_recorded_for_verified_member [OF server [unfolded member_options_def] run this] obtain credential policy claims t tenant rec where
    h: "an_verify (member_env (svc_revocations (snd member_api))) credential policy = Inr claims"
    "db_tenants (svc_db (snd member_api)) t = Some tenant" "t_state tenant = ACTIVE" "svc_proofs (snd s') = svc_proofs (snd member_api) @ [rec]" "fp_tenantId rec = t"
    "fp_actorId rec = cl_subject claims"
    by (elim exE conjE) (rule that; assumption)
  have "rec = example_proof" using h(4) stored empty by simp
  moreover have "claims = member_claims" using h(1) by (simp add: member_env_def authentication_env_def)
  moreover have "fp_tenantId example_proof = ''t:1''" by (simp add: example_proof_def)
  ultimately show ?thesis using h empty member_permitted by (intro exI [of _ tenant]) simp
qed

section \<open>Runs of the production server\<close>

text \<open>One request to the server of a process, whatever the request and the readings; the library, the keys and the
  environment are the process's. Between requests the code may do with the trusted state what it likes.\<close>

inductive http_step :: "'k jwt_verify \<Rightarrow> (string \<Rightarrow> 'k res) \<Rightarrow> 'k \<Rightarrow> 'k \<Rightarrow> main_env \<Rightarrow> api_db api \<Rightarrow> api_db api \<Rightarrow> bool"
  for jwtVerify remoteKeySet tk pk e where
  http_request_served: "main_server jwtVerify remoteKeySet tk pk e clocks env check checkParam = Inr server \<Longrightarrow> server renv request s = (out, s') \<Longrightarrow>
    http_step jwtVerify remoteKeySet tk pk e s s'"
| http_trust_moves: "http_step jwtVerify remoteKeySet tk pk e (t, db) (t', db)"

definition tables :: "api_db api \<Rightarrow> command_db" where
  "tables s = (svc_table (snd s), svc_db (snd s))"

lemma provision_step:
  assumes "lc_provision (tenant_commands env audit authorizer) c input key s = (r, s')"
  shows "service_step (tables s) (tables s')"
proof -
  from assms obtain r0 table db where "provision (tenant_command_env env audit (fst s)) authorizer c input key (tables s) = (r0, (table, db))"
    "s' = (fst s, (snd s)\<lparr>svc_table := table, svc_db := db\<rparr>)"
    by (auto simp: tenant_commands_def tables_def elim: run_command_db)
  then show ?thesis using service_provision [of _ _ _ _ _ _ r0 "(table, db)"] by (simp add: tables_def)
qed

lemma lifecycle_step:
  assumes "lifecycle_command (tenant_commands env audit authorizer) verb c input key s = (r, s')"
  shows "service_step (tables s) (tables s')"
proof -
  from assms obtain scope r0 table db where "transition (tenant_command_env env audit (fst s)) authorizer c input (target_state verb) scope key (tables s) = (r0, (table, db))"
    "s' = (fst s, (snd s)\<lparr>svc_table := table, svc_db := db\<rparr>)"
    by (cases verb) (auto simp: lifecycle_command_def tenant_commands_def target_state_def route_scope_def activateTenant_def suspendTenant_def reactivateTenant_def closeTenant_def tables_def
        elim!: run_command_db)
  then show ?thesis using service_transition [of _ _ _ _ _ _ _ _ r0 "(table, db)"] by (simp add: tables_def)
qed

lemma platform_handlers_step:
  "service_step\<^sup>*\<^sup>* (tables s) (tables (snd (provision_handler (tenant_commands env audit a) renv request state body s)))"
  "service_step\<^sup>*\<^sup>* (tables s) (tables (snd (lifecycle_handler (tenant_commands env audit a) verb target renv request state body s)))"
proof -
  obtain out s1 where pc: "platformContext renv state s = (out, s1)" by (rule prod.exhaust)
  have "tables s1 = tables s" using platformContext_db [OF pc] by (simp add: tables_def)
  moreover have "service_step (tables s1) (tables (snd (lc_provision (tenant_commands env audit a) c input key s1)))" for c input key
    by (rule provision_step [of env audit a c input key s1 "fst (lc_provision (tenant_commands env audit a) c input key s1)"]) simp
  moreover have "service_step (tables s1) (tables (snd (lifecycle_command (tenant_commands env audit a) verb c input key s1)))" for c input key
    by (rule lifecycle_step [of env audit a verb c input key s1 "fst (lifecycle_command (tenant_commands env audit a) verb c input key s1)"]) simp
  ultimately show "service_step\<^sup>*\<^sup>* (tables s) (tables (snd (provision_handler (tenant_commands env audit a) renv request state body s)))"
    "service_step\<^sup>*\<^sup>* (tables s) (tables (snd (lifecycle_handler (tenant_commands env audit a) verb target renv request state body s)))"
    unfolding provision_handler_state lifecycle_handler_state pc by (auto split: sum.splits)
qed

text \<open>One request without the proof route is at most one step of the identity service.\<close>

lemma main_route_step:
  assumes "dep_tenantCommands deps = Some (tenant_commands env audit a)" "dep_foundationProof deps = None"
  shows "service_step\<^sup>*\<^sup>* (tables s) (tables (snd (run_route deps renv (mounted deps r) request state body s)))"
  using platform_handlers_step
  by (cases r) (auto simp: mounted_def is_platform_def run_route_def assms validated_def app_stage_state)

text \<open>C6: every run of the production server is a run of the identity service. Whatever sequence of requests, valid,
  refused, failing or repeated, the server answers, the idempotency and identity tables move as some run of
  the identity service moves them; so what every such run promises, among others that each tenant's state is
  the one its events tell and that it keeps an administrator, the server promises.\<close>

theorem server_refines_identity_service:
  assumes "(http_step jwtVerify remoteKeySet tk pk e)\<^sup>*\<^sup>* s s'"
  shows "service_step\<^sup>*\<^sup>* (svc_table (snd s), svc_db (snd s)) (svc_table (snd s'), svc_db (snd s'))"
  using assms
proof (induction rule: rtranclp_induct)
  case (step s1 s2)
  from step.hyps(2) have "service_step\<^sup>*\<^sup>* (tables s1) (tables s2)"
  proof cases
    case (http_request_served clocks env check checkParam server renv request out)
    obtain tp tkeys pp pkeys audit where server: "server = serve (api_dependencies_of env (main_options tp pp (provider_env jwtVerify clocks (tp, tkeys, pp, pkeys))) audit check checkParam)"
      by (rule main_serverE [OF http_request_served(1)]) (simp add: provider_env_def)
    define deps where "deps = api_dependencies_of env (main_options tp pp (provider_env jwtVerify clocks (tp, tkeys, pp, pkeys))) audit check checkParam"
    obtain corr cause where tr: "trace_of renv request = (corr, cause)" by (rule prod.exhaust)
    obtain o1 s3 where on: "onRequest deps (mounted deps (rq_route request)) request corr cause s1 = (o1, s3)" by (rule prod.exhaust)
    have "tables s3 = tables s1"
      using on bearer_onRequest_db [where b = False] by (simp add: deps_def main_options_def tables_def)
    moreover have "service_step\<^sup>*\<^sup>* (tables s3) (tables (snd (run_route deps renv (mounted deps (rq_route request)) request state body s3)))" for state body
      by (rule main_route_step) (simp_all add: deps_def api_dependencies_of_def)
    moreover have "s2 = snd (serve deps renv request s1)" using http_request_served(2) by (simp add: server deps_def)
    ultimately show ?thesis
      by (auto simp: serve_state [OF tr] on split: sum.splits parsed_body.splits)
  next
    case (http_trust_moves t db t')
    then show ?thesis by (simp add: tables_def)
  qed
  then show ?case using step.IH by (simp add: tables_def)
qed simp

theorem server_refines_identity_service_witness:
  "\<exists>s'. (http_step operator_jwt (\<lambda>u. Inr ()) () () example_main)\<^sup>*\<^sup>* example_api s' \<and> snd s' \<noteq> snd example_api \<and> service_step\<^sup>*\<^sup>* service_start (svc_table (snd s'), svc_db (snd s'))"
proof -
  obtain server where server: "main_server operator_jwt (\<lambda>u. Inr ()) () () example_main example_clock example_composition (\<lambda>schema b. []) (\<lambda>t. []) = Inr server"
    using example_main_started by blast
  define s' where "s' = snd (server example_http_env provision_request example_api)"
  have "http_step operator_jwt (\<lambda>u. Inr ()) () () example_main example_api s'"
    by (rule http_request_served [OF server, where out = "fst (server example_http_env provision_request example_api)"]) (simp add: s'_def)
  then have run: "(http_step operator_jwt (\<lambda>u. Inr ()) () () example_main)\<^sup>*\<^sup>* example_api s'" by simp
  have "snd s' \<noteq> snd example_api" unfolding s'_def by (rule provisioned_over_http [OF server]) (simp add: example_http_env_def)
  with server_refines_identity_service [OF run] run show ?thesis by (intro exI [of _ s']) (simp add: example_api_def service_start_def)
qed

end
