(* ===== verification/Telemetry.thy ===== *)
theory Telemetry
  imports Problem_Model Audit_Trail
begin

text \<open>
  The tracing and metrics facade of \<open>platform/observability\<close> (\<open>telemetry.ts\<close>, \<open>metrics.ts\<close>): the attribute filter, spans around
  work, the record of failures, the validation of stored trace contexts, and the points added to the counters. The exporter is the list of
  finished spans. Redaction of free text and the messages of errors are parameters.

  Code that uses the facade is a \<open>traced_program\<close>: work of its own between attributes, events and nested spans. The theorem says, for every such
  program, that tracing does not change what it does and that only allow-listed attributes leave it.
\<close>

section \<open>Model: attributes\<close>

type_synonym attributes = "(string \<times> js_value) list"

definition MAX_STRING :: nat where "MAX_STRING = 256"
definition MAX_KEY :: nat where "MAX_KEY = 96"

text \<open>\<open>/^[a-z][a-z0-9_]*(\.[a-z0-9_]+)*$/\<close>.\<close>

definition ATTRIBUTE_KEY :: "string \<Rightarrow> bool" where
  "ATTRIBUTE_KEY key \<longleftrightarrow> (case split_dots key of
     [] \<Rightarrow> False
   | w # ws \<Rightarrow> (case w of [] \<Rightarrow> False | c # cs \<Rightarrow> is_lower c \<and> list_all is_field_char cs) \<and> list_all (\<lambda>w. w \<noteq> [] \<and> list_all is_field_char w) ws)"

text \<open>
  \<open>SECRET_KEY\<close>, a search that ignores case: one of the words anywhere, with an optional \<open>_\<close>, \<open>.\<close> or \<open>-\<close> inside two of them, or
  \<open>pan\<close> at the end of a word.
\<close>

definition SECRET_WORDS :: "string list" where
  "SECRET_WORDS = [''pass'', ''secret'', ''token'', ''authorization'', ''credential'', ''apikey'', ''api_key'', ''api.key'', ''api-key'',
     ''privatekey'', ''private_key'', ''private.key'', ''private-key'', ''cookie'', ''session'', ''card'', ''cvv'']"

definition is_key_word :: "char \<Rightarrow> bool" where
  "is_key_word c \<longleftrightarrow> is_lower c \<or> is_upper c \<or> is_digit c \<or> c = CHR ''_''"

definition begins :: "string \<Rightarrow> string \<Rightarrow> bool" where
  "begins p s \<longleftrightarrow> take (length p) s = p"

definition SECRET_KEY :: "string \<Rightarrow> bool" where
  "SECRET_KEY key \<longleftrightarrow> list_ex (\<lambda>i. let rest = drop i (map lower_char key) in
     list_ex (\<lambda>w. begins w rest) SECRET_WORDS \<or> begins ''pan'' rest \<and> (case drop 3 rest of [] \<Rightarrow> True | c # _ \<Rightarrow> \<not> is_key_word c)) [0..<length key]"

definition safe_value :: "(string \<Rightarrow> string) \<Rightarrow> js_value \<Rightarrow> js_value option" where
  "safe_value redact v = (case v of
     JString s \<Rightarrow> Some (JString (take MAX_STRING (redact s)))
   | JNumber n \<Rightarrow> if js_finite n then Some v else None
   | JBool b \<Rightarrow> Some v
   | _ \<Rightarrow> None)"

fun safeAttributes :: "(string \<Rightarrow> string) \<Rightarrow> attributes \<Rightarrow> attributes res" where
  "safeAttributes redact [] = Inr []"
| "safeAttributes redact ((key, v) # es) =
     (if v = JUndefined then safeAttributes redact es
      else if length key > MAX_KEY \<or> \<not> ATTRIBUTE_KEY key then Inl TypeError
      else if SECRET_KEY key then Inl TypeError
      else case safe_value redact v of
             None \<Rightarrow> Inl TypeError
           | Some w \<Rightarrow> bindR (safeAttributes redact es) (\<lambda>out. Inr ((key, w) # out)))"

section \<open>Model: spans\<close>

record span =
  sp_name :: string
  sp_attributes :: attributes
  sp_events :: "(string \<times> attributes) list"
  sp_error :: "string option"
  sp_ended :: bool

definition span_setAttributes :: "attributes \<Rightarrow> span \<Rightarrow> span" where
  "span_setAttributes as sp = sp\<lparr>sp_attributes := foldl (\<lambda>es (k, v). obj_set k v es) (sp_attributes sp) as\<rparr>"

text \<open>What the facade uses of errors: the code of a problem as text, the name of any other error, and its message.\<close>

record error_texts =
  et_code :: "problem_code \<Rightarrow> string"
  et_message :: "err \<Rightarrow> string"
  et_redact :: "string \<Rightarrow> string"

definition error_name :: "err \<Rightarrow> string" where
  "error_name e = (case e of TypeError \<Rightarrow> ''TypeError'' | RangeError \<Rightarrow> ''RangeError'' | _ \<Rightarrow> ''Error'')"

definition failure_attributes :: "error_texts \<Rightarrow> err \<Rightarrow> attributes" where
  "failure_attributes env e = (case e of
     Problem c _ _ \<Rightarrow> [(''error.type'', JString (et_code env c)), (''sintius.problem.code'', JString (et_code env c)),
       (''sintius.problem.status'', JNumber (Num (problem_status c)))]
   | _ \<Rightarrow> [(''error.type'', JString (error_name e))])"

definition unexpected :: "err \<Rightarrow> bool" where
  "unexpected e \<longleftrightarrow> (case e of Problem c _ _ \<Rightarrow> problem_status c \<ge> 500 | _ \<Rightarrow> True)"

definition span_recordFailure :: "error_texts \<Rightarrow> span \<Rightarrow> err \<Rightarrow> span res" where
  "span_recordFailure env sp e =
     bindR (safeAttributes (et_redact env) (failure_attributes env e)) (\<lambda>as.
       let sp' = span_setAttributes as sp in
       Inr (if unexpected e then sp'\<lparr>sp_error := Some (take MAX_STRING (et_redact env (et_message env e)))\<rparr> else sp'))"

text \<open>
  A traced computation works on its own state, the active span, and the spans finished so far. \<open>withSpan\<close> runs it in a
  new span; an error of the recording itself would replace the one it records.
\<close>

type_synonym ('s, 'a) traced = "('s \<times> span \<times> span list, 'a) tx"

definition new_span :: "string \<Rightarrow> attributes \<Rightarrow> span" where
  "new_span name as = \<lparr>sp_name = name, sp_attributes = as, sp_events = [], sp_error = None, sp_ended = False\<rparr>"

definition withSpan :: "error_texts \<Rightarrow> string \<Rightarrow> attributes \<Rightarrow> ('s, 'a) traced \<Rightarrow> ('s, 'a) traced" where
  "withSpan env name as work st =
     (let (s, outer, finished) = st in
      case safeAttributes (et_redact env) as of
        Inl e \<Rightarrow> (Inl e, st)
      | Inr safe \<Rightarrow>
          (case work (s, new_span name safe, finished) of
             (Inr x, (s', sp, finished')) \<Rightarrow> (Inr x, (s', outer, finished' @ [sp\<lparr>sp_ended := True\<rparr>]))
           | (Inl e, (s', sp, finished')) \<Rightarrow>
               (case span_recordFailure env sp e of
                  Inl e' \<Rightarrow> (Inl e', (s', outer, finished' @ [sp\<lparr>sp_ended := True\<rparr>]))
                | Inr sp' \<Rightarrow> (Inl e, (s', outer, finished' @ [sp'\<lparr>sp_ended := True\<rparr>])))))"

definition setSpanAttributes :: "error_texts \<Rightarrow> attributes \<Rightarrow> ('s, unit) traced" where
  "setSpanAttributes env as st = (case safeAttributes (et_redact env) as of
     Inl e \<Rightarrow> (Inl e, st) | Inr safe \<Rightarrow> (let (s, sp, finished) = st in (Inr (), (s, span_setAttributes safe sp, finished))))"

definition addSpanEvent :: "error_texts \<Rightarrow> string \<Rightarrow> attributes \<Rightarrow> ('s, unit) traced" where
  "addSpanEvent env name as st = (case safeAttributes (et_redact env) as of
     Inl e \<Rightarrow> (Inl e, st) | Inr safe \<Rightarrow> (let (s, sp, finished) = st in (Inr (), (s, sp\<lparr>sp_events := sp_events sp @ [(name, safe)]\<rparr>, finished))))"

section \<open>Model: trace contexts beside stored events\<close>

record trace_carrier =
  traceparent :: string
  tracestate :: "string option"

text \<open>\<open>/^[0-9a-f]{2}-[0-9a-f]{32}-[0-9a-f]{16}-[0-9a-f]{2}$/\<close>.\<close>

definition TRACEPARENT :: "string \<Rightarrow> bool" where
  "TRACEPARENT s \<longleftrightarrow> length s = 55 \<and> s ! 2 = CHR ''-'' \<and> s ! 35 = CHR ''-'' \<and> s ! 52 = CHR ''-'' \<and>
     list_all is_lower_hex (take 2 s @ take 32 (drop 3 s) @ take 16 (drop 36 s) @ drop 53 s)"

definition own_prop :: "js_value \<Rightarrow> string \<Rightarrow> js_value" where
  "own_prop v k = (case v of JObject es \<Rightarrow> (case map_of es k of None \<Rightarrow> JUndefined | Some x \<Rightarrow> x) | _ \<Rightarrow> JUndefined)"

definition toCarrier :: "js_value \<Rightarrow> trace_carrier option" where
  "toCarrier v = (case own_prop v ''traceparent'' of
     JString t \<Rightarrow> if \<not> TRACEPARENT t then None
       else Some \<lparr>traceparent = t, tracestate = (case own_prop v ''tracestate'' of JString ts \<Rightarrow> if length ts \<le> 512 then Some ts else None | _ \<Rightarrow> None)\<rparr>
   | _ \<Rightarrow> None)"

definition carrier_json :: "trace_carrier \<Rightarrow> js_value" where
  "carrier_json c = JObject ([(''traceparent'', JString (traceparent c))] @ (case tracestate c of None \<Rightarrow> [] | Some ts \<Rightarrow> [(''tracestate'', JString ts)]))"

section \<open>Model: metrics\<close>

record metric_point =
  mp_instrument :: string
  mp_value :: int
  mp_attributes :: attributes

definition add_point :: "(string \<Rightarrow> string) \<Rightarrow> string \<Rightarrow> int \<Rightarrow> attributes \<Rightarrow> (metric_point list, unit) tx" where
  "add_point redact instrument n as points = (case safeAttributes redact as of
     Inl e \<Rightarrow> (Inl e, points)
   | Inr safe \<Rightarrow> (Inr (), points @ [\<lparr>mp_instrument = instrument, mp_value = n, mp_attributes = safe\<rparr>]))"

definition metric_problem :: "(string \<Rightarrow> string) \<Rightarrow> string \<Rightarrow> int \<Rightarrow> (metric_point list, unit) tx" where
  "metric_problem redact code status = add_point redact ''sintius.http.problems'' 1
     [(''sintius.problem.code'', JString code), (''http.response.status_code'', JNumber (Num status))]"

definition metric_idempotency :: "(string \<Rightarrow> string) \<Rightarrow> string \<Rightarrow> string \<Rightarrow> (metric_point list, unit) tx" where
  "metric_idempotency redact scope outcome = add_point redact ''sintius.idempotency.requests'' 1
     [(''sintius.command.scope'', JString scope), (''sintius.idempotency.outcome'', JString outcome)]"

definition metric_auditWriteFailure :: "(string \<Rightarrow> string) \<Rightarrow> string \<Rightarrow> (metric_point list, unit) tx" where
  "metric_auditWriteFailure redact action = add_point redact ''sintius.audit.write_failures'' 1 [(''sintius.audit.action'', JString action)]"

definition metric_authentication :: "(string \<Rightarrow> string) \<Rightarrow> string \<Rightarrow> string \<Rightarrow> string \<Rightarrow> string \<Rightarrow> (metric_point list, unit) tx" where
  "metric_authentication redact attempt outcome reason provider = add_point redact ''sintius.authentication.outcomes'' 1
     [(''sintius.auth.kind'', JString attempt), (''sintius.auth.outcome'', JString outcome), (''sintius.auth.reason'', JString reason), (''sintius.auth.provider'', JString provider)]"

definition metric_queueOutcome :: "(string \<Rightarrow> string) \<Rightarrow> string \<Rightarrow> string \<Rightarrow> int \<Rightarrow> (metric_point list, unit) tx" where
  "metric_queueOutcome redact queue outcome n =
     (if n > 0 then add_point redact ''sintius.queue.outcomes'' n [(''sintius.queue.name'', JString queue), (''sintius.queue.outcome'', JString outcome)] else returnT ())"

section \<open>What passes the filter\<close>

definition safe_key :: "string \<Rightarrow> bool" where
  "safe_key key \<longleftrightarrow> length key \<le> MAX_KEY \<and> ATTRIBUTE_KEY key \<and> \<not> SECRET_KEY key"

definition safe_attribute :: "string \<times> js_value \<Rightarrow> bool" where
  "safe_attribute a \<longleftrightarrow> safe_key (fst a) \<and> (case snd a of JString s \<Rightarrow> length s \<le> MAX_STRING | JNumber n \<Rightarrow> js_finite n | JBool b \<Rightarrow> True | _ \<Rightarrow> False)"

lemma safe_value_safe: "safe_value redact v = Some w \<Longrightarrow> safe_key k \<Longrightarrow> safe_attribute (k, w)"
  by (auto simp: safe_value_def safe_attribute_def split: js_value.splits if_splits)

lemma safeAttributes_safe: "safeAttributes redact as = Inr out \<Longrightarrow> list_all safe_attribute out"
proof (induction as arbitrary: out)
  case (Cons a as)
  obtain key v where a: "a = (key, v)" by (rule prod.exhaust)
  show ?case
  proof (cases "v = JUndefined")
    case True
    then show ?thesis using Cons by (simp add: a)
  next
    case False
    then obtain w rest where out: "safe_key key" "safe_value redact v = Some w" "safeAttributes redact as = Inr rest" "out = (key, w) # rest"
      using Cons.prems unfolding a by (auto simp: safe_key_def bindR_def split: if_splits option.splits sum.splits)
    then show ?thesis using Cons.IH safe_value_safe by simp
  qed
qed simp

lemma platform_keys_safe:
  "safe_key ''error.type''"
  "safe_key ''sintius.problem.code''"
  "safe_key ''sintius.problem.status''"
  "safe_key ''http.response.status_code''"
  "safe_key ''sintius.command.scope''"
  "safe_key ''sintius.idempotency.outcome''"
  "safe_key ''sintius.audit.action''"
  "safe_key ''sintius.auth.kind''"
  "safe_key ''sintius.auth.outcome''"
  "safe_key ''sintius.auth.reason''"
  "safe_key ''sintius.auth.provider''"
  "safe_key ''sintius.queue.name''"
  "safe_key ''sintius.queue.outcome''"
  by code_simp+

lemma safeAttributes_text:
  "safe_key k \<Longrightarrow> safeAttributes redact ((k, JString s) # es) = bindR (safeAttributes redact es) (\<lambda>out. Inr ((k, JString (take MAX_STRING (redact s))) # out))"
  "safe_key k \<Longrightarrow> safeAttributes redact ((k, JNumber (Num i)) # es) = bindR (safeAttributes redact es) (\<lambda>out. Inr ((k, JNumber (Num i)) # out))"
  by (simp_all add: safe_key_def safe_value_def js_finite_def)

lemmas platform_attributes = safeAttributes_text platform_keys_safe

lemma obj_set_safe: "list_all safe_attribute es \<Longrightarrow> safe_attribute (k, v) \<Longrightarrow> list_all safe_attribute (obj_set k v es)"
  by (induction k v es rule: obj_set.induct) auto

lemma merged_safe: "list_all safe_attribute es \<Longrightarrow> list_all safe_attribute as \<Longrightarrow> list_all safe_attribute (foldl (\<lambda>es (k, v). obj_set k v es) es as)"
  by (induction as arbitrary: es) (auto simp: obj_set_safe)

lemma failure_recorded:
  obtains sp' as where "span_recordFailure env sp e = Inr sp'" "sp_events sp' = sp_events sp"
    "sp_error sp' = (if unexpected e then Some (take MAX_STRING (et_redact env (et_message env e))) else sp_error sp)"
    "list_all safe_attribute as" "sp_attributes sp' = foldl (\<lambda>es (k, v). obj_set k v es) (sp_attributes sp) as"
proof -
  obtain as where as: "safeAttributes (et_redact env) (failure_attributes env e) = Inr as"
    by (cases e) (simp_all add: failure_attributes_def platform_attributes del: safeAttributes.simps(2))
  show thesis
  proof (rule that)
    show "span_recordFailure env sp e = Inr (if unexpected e then (span_setAttributes as sp)\<lparr>sp_error := Some (take MAX_STRING (et_redact env (et_message env e)))\<rparr>
        else span_setAttributes as sp)" by (simp add: span_recordFailure_def as)
  qed (use safeAttributes_safe [OF as] in \<open>auto simp: span_setAttributes_def\<close>)
qed

section \<open>Programs that use the facade\<close>

text \<open>
  Own work on the application's state, attributes and events that may depend on that state, a nested span, sequence, and
  \<open>try\<close> with a handler. \<open>untraced\<close> is the same program without the facade.
\<close>

datatype 's traced_program =
    Own "('s, unit) tx"
  | Set_Attributes "'s \<Rightarrow> attributes"
  | Add_Event string "'s \<Rightarrow> attributes"
  | In_Span string "'s \<Rightarrow> attributes" "'s traced_program"
  | In_Sequence "'s traced_program" "'s traced_program"
  | Try_Catch "'s traced_program" "'s traced_program"

definition catchT :: "('s, unit) tx \<Rightarrow> ('s, unit) tx \<Rightarrow> ('s, unit) tx" where
  "catchT m h s = (case m s of (Inl e, s') \<Rightarrow> h s' | (Inr x, s') \<Rightarrow> (Inr x, s'))"

definition own_work :: "('s, unit) tx \<Rightarrow> ('s, unit) traced" where
  "own_work m = (\<lambda>(s, rest). case m s of (r, s') \<Rightarrow> (r, (s', rest)))"

primrec run_traced :: "error_texts \<Rightarrow> 's traced_program \<Rightarrow> ('s, unit) traced" where
  "run_traced env (Own m) = own_work m"
| "run_traced env (Set_Attributes as) = (\<lambda>st. setSpanAttributes env (as (fst st)) st)"
| "run_traced env (Add_Event name as) = (\<lambda>st. addSpanEvent env name (as (fst st)) st)"
| "run_traced env (In_Span name as p) = (\<lambda>st. withSpan env name (as (fst st)) (run_traced env p) st)"
| "run_traced env (In_Sequence p q) = bindT (run_traced env p) (\<lambda>_. run_traced env q)"
| "run_traced env (Try_Catch p q) = catchT (run_traced env p) (run_traced env q)"

primrec untraced :: "'s traced_program \<Rightarrow> ('s, unit) tx" where
  "untraced (Own m) = m"
| "untraced (Set_Attributes as) = returnT ()"
| "untraced (Add_Event name as) = returnT ()"
| "untraced (In_Span name as p) = untraced p"
| "untraced (In_Sequence p q) = bindT (untraced p) (\<lambda>_. untraced q)"
| "untraced (Try_Catch p q) = catchT (untraced p) (untraced q)"

text \<open>No attribute list of the program is refused.\<close>

primrec attributes_accepted :: "error_texts \<Rightarrow> 's traced_program \<Rightarrow> bool" where
  "attributes_accepted env (Own m) = True"
| "attributes_accepted env (Set_Attributes as) = (\<forall>s. \<exists>out. safeAttributes (et_redact env) (as s) = Inr out)"
| "attributes_accepted env (Add_Event name as) = (\<forall>s. \<exists>out. safeAttributes (et_redact env) (as s) = Inr out)"
| "attributes_accepted env (In_Span name as p) = ((\<forall>s. \<exists>out. safeAttributes (et_redact env) (as s) = Inr out) \<and> attributes_accepted env p)"
| "attributes_accepted env (In_Sequence p q) = (attributes_accepted env p \<and> attributes_accepted env q)"
| "attributes_accepted env (Try_Catch p q) = (attributes_accepted env p \<and> attributes_accepted env q)"

text \<open>What may be exported of a span.\<close>

definition safe_span :: "span \<Rightarrow> bool" where
  "safe_span sp \<longleftrightarrow> list_all safe_attribute (sp_attributes sp) \<and> (\<forall>(name, as)\<in>set (sp_events sp). list_all safe_attribute as) \<and>
     (\<forall>m. sp_error sp = Some m \<longrightarrow> length m \<le> MAX_STRING)"

text \<open>From an active span and finished spans to later ones: spans are only finished, safe if the active one was safe, and the active
  span's own status is left alone.\<close>

definition exports :: "span \<times> span list \<Rightarrow> span \<times> span list \<Rightarrow> bool" where
  "exports a b \<longleftrightarrow> sp_error (fst b) = sp_error (fst a) \<and> (safe_span (fst a) \<longrightarrow> safe_span (fst b)) \<and>
     (\<exists>later. snd b = snd a @ later \<and> (\<forall>sp\<in>set later. sp_ended sp \<and> safe_span sp))"

lemma exports_refl: "exports a a"
  by (simp add: exports_def)

lemma exports_trans: "exports a b \<Longrightarrow> exports b c \<Longrightarrow> exports a c"
  by (auto simp: exports_def)

lemma span_attributes_exports:
  "safeAttributes redact as = Inr safe \<Longrightarrow> exports (sp, finished) (span_setAttributes safe sp, finished)"
  using safeAttributes_safe [of redact as safe] merged_safe by (auto simp: exports_def safe_span_def span_setAttributes_def)

lemma span_event_exports:
  "safeAttributes redact as = Inr safe \<Longrightarrow> exports (sp, finished) (sp\<lparr>sp_events := sp_events sp @ [(name, safe)]\<rparr>, finished)"
  using safeAttributes_safe [of redact as safe] by (auto simp: exports_def safe_span_def)

text \<open>A span: it ends, with an error status exactly for an unexpected error of the work.\<close>

lemma withSpan_cases:
  assumes safe: "safeAttributes (et_redact env) as = Inr safe"
    and work: "work (s, new_span name safe, finished) = (r, (s', sp, finished'))"
    and exports: "exports (new_span name safe, finished) (sp, finished')"
  obtains done_span where "withSpan env name as work (s, outer, finished) = (r, (s', outer, finished' @ [done_span]))"
    "sp_ended done_span" "safe_span done_span" "sp_error done_span \<noteq> None \<longleftrightarrow> (\<exists>e. r = Inl e \<and> unexpected e)"
proof -
  have "safe_span (new_span name safe)" using safeAttributes_safe [OF safe] by (simp add: safe_span_def new_span_def)
  then have sp: "safe_span sp" "sp_error sp = None" using exports by (simp_all add: exports_def new_span_def)
  show thesis
  proof (cases r)
    case (Inl e)
    obtain sp' as' where sp': "span_recordFailure env sp e = Inr sp'" "sp_events sp' = sp_events sp"
      "sp_error sp' = (if unexpected e then Some (take MAX_STRING (et_redact env (et_message env e))) else sp_error sp)"
      "list_all safe_attribute as'" "sp_attributes sp' = foldl (\<lambda>es (k, v). obj_set k v es) (sp_attributes sp) as'"
      by (rule failure_recorded)
    have "safe_span sp'" using sp sp'(2-5) merged_safe by (auto simp: safe_span_def)
    then have "safe_span (sp'\<lparr>sp_ended := True\<rparr>)" by (simp add: safe_span_def)
    moreover have "withSpan env name as work (s, outer, finished) = (r, (s', outer, finished' @ [sp'\<lparr>sp_ended := True\<rparr>]))"
      by (simp add: withSpan_def safe work Inl sp'(1))
    ultimately show thesis using that [of "sp'\<lparr>sp_ended := True\<rparr>"] sp'(3) sp(2) Inl by simp
  next
    case (Inr x)
    have "safe_span (sp\<lparr>sp_ended := True\<rparr>)" using sp(1) by (simp add: safe_span_def)
    moreover have "withSpan env name as work (s, outer, finished) = (r, (s', outer, finished' @ [sp\<lparr>sp_ended := True\<rparr>]))"
      by (simp add: withSpan_def safe work Inr)
    ultimately show thesis using that [of "sp\<lparr>sp_ended := True\<rparr>"] sp(2) Inr by simp
  qed
qed

lemma run_traced_exports:
  "run_traced env p (s, a) = (r, (s', b)) \<Longrightarrow> exports a b"
proof (induction p arbitrary: s a r s' b)
  case (Own m)
  then show ?case by (auto simp: own_work_def exports_refl split: prod.splits)
next
  case (Set_Attributes as)
  then show ?case by (cases a) (auto simp: setSpanAttributes_def exports_refl intro: span_attributes_exports split: sum.splits)
next
  case (Add_Event name as)
  then show ?case by (cases a) (auto simp: addSpanEvent_def exports_refl intro: span_event_exports split: sum.splits)
next
  case (In_Span name as p)
  obtain outer finished where a: "a = (outer, finished)" by (rule prod.exhaust)
  show ?case
  proof (cases "safeAttributes (et_redact env) (as s)")
    case (Inl e)
    then show ?thesis using In_Span.prems by (simp add: a withSpan_def exports_refl)
  next
    case (Inr safe)
    obtain r1 s1 sp finished1 where work: "run_traced env p (s, new_span name safe, finished) = (r1, (s1, sp, finished1))" by (metis surj_pair)
    note ex = In_Span.IH [OF work]
    from withSpan_cases [where work = "run_traced env p" and s = s and finished = finished and outer = outer, OF Inr work ex] obtain done_span where
      "withSpan env name (as s) (run_traced env p) (s, outer, finished) = (r1, (s1, outer, finished1 @ [done_span]))" "sp_ended done_span" "safe_span done_span" .
    then show ?thesis using In_Span.prems ex by (auto simp: a exports_def)
  qed
next
  case (In_Sequence p q)
  obtain r1 s1 b1 where one: "run_traced env p (s, a) = (r1, (s1, b1))" by (metis surj_pair)
  show ?case
  proof (cases r1)
    case (Inl e)
    then show ?thesis using In_Sequence.IH(1) [OF one] In_Sequence.prems one by (simp add: bindT_def)
  next
    case (Inr x)
    then have "exports b1 b" using In_Sequence.IH(2) In_Sequence.prems one by (simp add: bindT_def)
    then show ?thesis using exports_trans [OF In_Sequence.IH(1) [OF one]] by blast
  qed
next
  case (Try_Catch p q)
  obtain r1 s1 b1 where one: "run_traced env p (s, a) = (r1, (s1, b1))" by (metis surj_pair)
  show ?case
  proof (cases r1)
    case (Inr x)
    then show ?thesis using Try_Catch.IH(1) [OF one] Try_Catch.prems one by (simp add: catchT_def)
  next
    case (Inl e)
    then have "exports b1 b" using Try_Catch.IH(2) Try_Catch.prems one by (simp add: catchT_def)
    then show ?thesis using exports_trans [OF Try_Catch.IH(1) [OF one]] by blast
  qed
qed

text \<open>Without refused attributes, the facade changes nothing.\<close>

lemma run_traced_outcome:
  "attributes_accepted env p \<Longrightarrow> run_traced env p (s, a) = (r, (s', b)) \<Longrightarrow> untraced p s = (r, s')"
proof (induction p arbitrary: s a r s' b)
  case (Own m)
  then show ?case by (auto simp: own_work_def split: prod.splits)
next
  case (Set_Attributes as)
  then obtain out where "safeAttributes (et_redact env) (as s) = Inr out" by auto
  then show ?case using Set_Attributes.prems by (auto simp: setSpanAttributes_def returnT_def split: prod.splits)
next
  case (Add_Event name as)
  then obtain out where "safeAttributes (et_redact env) (as s) = Inr out" by auto
  then show ?case using Add_Event.prems by (auto simp: addSpanEvent_def returnT_def split: prod.splits)
next
  case (In_Span name as p)
  obtain outer finished where a: "a = (outer, finished)" by (rule prod.exhaust)
  obtain safe where safe: "safeAttributes (et_redact env) (as s) = Inr safe" using In_Span.prems(1) by auto
  obtain r1 s1 sp finished1 where work: "run_traced env p (s, new_span name safe, finished) = (r1, (s1, sp, finished1))" by (metis surj_pair)
  from withSpan_cases [where work = "run_traced env p" and s = s and finished = finished and outer = outer, OF safe work run_traced_exports [OF work]] obtain done_span where
    "withSpan env name (as s) (run_traced env p) (s, outer, finished) = (r1, (s1, outer, finished1 @ [done_span]))" .
  then have "r = r1 \<and> s' = s1" using In_Span.prems(2) by (simp add: a)
  then show ?case using In_Span.IH [OF _ work] In_Span.prems(1) by simp
next
  case (In_Sequence p q)
  obtain r1 s1 b1 where one: "run_traced env p (s, a) = (r1, (s1, b1))" by (metis surj_pair)
  have "untraced p s = (r1, s1)" using In_Sequence.IH(1) [OF _ one] In_Sequence.prems(1) by simp
  then show ?case using In_Sequence.IH(2) [of s1 b1 r s' b] In_Sequence.prems one by (cases r1) (auto simp: bindT_def)
next
  case (Try_Catch p q)
  obtain r1 s1 b1 where one: "run_traced env p (s, a) = (r1, (s1, b1))" by (metis surj_pair)
  have "untraced p s = (r1, s1)" using Try_Catch.IH(1) [OF _ one] Try_Catch.prems(1) by simp
  then show ?case using Try_Catch.IH(2) [of s1 b1 r s' b] Try_Catch.prems one by (cases r1) (auto simp: catchT_def)
qed

section \<open>Properties\<close>

text \<open>C35: tracing observes and never interferes. Take any program that uses the facade, run in a span: the caller's active span is
  untouched, and every span that is finished is ended and holds only allow-listed, bounded attributes, in its events too, and a
  bounded error text, whatever attributes the program asked for. When none of its attribute lists is refused, the
  program has the outcome and leaves the state it has without tracing, and its own span is marked as failed exactly
  when it ends with an unexpected error.\<close>

theorem span_observes_only:
  assumes "run_traced env (In_Span name as p) (s, outer, []) = (r, (s', outer', finished))"
  shows "outer' = outer \<and>
    (\<forall>sp\<in>set finished. sp_ended sp \<and> list_all safe_attribute (sp_attributes sp) \<and>
       (\<forall>(n, attrs)\<in>set (sp_events sp). list_all safe_attribute attrs) \<and> (\<forall>m. sp_error sp = Some m \<longrightarrow> length m \<le> MAX_STRING)) \<and>
    (attributes_accepted env (In_Span name as p) \<longrightarrow>
       untraced p s = (r, s') \<and> finished \<noteq> [] \<and> (sp_error (last finished) \<noteq> None \<longleftrightarrow> (\<exists>e. r = Inl e \<and> unexpected e)))"
proof -
  have safe: "\<forall>sp\<in>set finished. sp_ended sp \<and> safe_span sp" using run_traced_exports [OF assms] by (simp add: exports_def)
  have outer: "outer' = outer" using assms by (auto simp: withSpan_def split: prod.splits sum.splits)
  have "untraced p s = (r, s') \<and> finished \<noteq> [] \<and> (sp_error (last finished) \<noteq> None \<longleftrightarrow> (\<exists>e. r = Inl e \<and> unexpected e))"
    if ok: "attributes_accepted env (In_Span name as p)"
  proof -
    obtain out where out: "safeAttributes (et_redact env) (as s) = Inr out" using ok by auto
    obtain r1 s1 sp fin where work: "run_traced env p (s, new_span name out, []) = (r1, (s1, sp, fin))" by (metis surj_pair)
    from withSpan_cases [where work = "run_traced env p" and s = s and finished = "[]" and outer = outer, OF out work run_traced_exports [OF work]] obtain done_span where
      "withSpan env name (as s) (run_traced env p) (s, outer, []) = (r1, (s1, outer, fin @ [done_span]))"
      "sp_error done_span \<noteq> None \<longleftrightarrow> (\<exists>e. r1 = Inl e \<and> unexpected e)" .
    then show ?thesis using assms run_traced_outcome [OF ok assms] by auto
  qed
  then show ?thesis using safe outer by (auto simp: safe_span_def)
qed

definition example_span :: span where
  "example_span = new_span ''request'' []"

definition example_texts :: error_texts where
  "example_texts = \<lparr>et_code = (\<lambda>_. ''internal_error''), et_message = (\<lambda>_. ''invalid date''), et_redact = id\<rparr>"

definition example_program :: "nat traced_program" where
  "example_program = In_Sequence (Set_Attributes (\<lambda>n. [(''sintius.queue.outcome'', JString ''leased'')])) (Own (\<lambda>n. (Inl RangeError, n + 1)))"

theorem span_observes_only_witness:
  "\<exists>sp. run_traced example_texts (In_Span ''job'' (\<lambda>n. [(''sintius.queue.name'', JString ''outbox'')]) example_program) (0, example_span, [])
     = (Inl RangeError, (1, example_span, [sp])) \<and> sp_error sp \<noteq> None \<and> list_all safe_attribute (sp_attributes sp)"
proof -
  let ?p = "In_Span ''job'' (\<lambda>n. [(''sintius.queue.name'', JString ''outbox'')]) example_program"
  have ok: "attributes_accepted example_texts ?p"
    by (simp add: example_program_def platform_attributes del: safeAttributes.simps(2))
  obtain r s' outer' finished where run: "run_traced example_texts ?p (0, example_span, []) = (r, (s', outer', finished))" by (metis surj_pair)
  have one: "length finished = 1"
    using run by (auto simp: withSpan_def example_program_def setSpanAttributes_def own_work_def bindT_def platform_attributes example_texts_def
        span_setAttributes_def new_span_def span_recordFailure_def failure_attributes_def error_name_def Let_def simp del: safeAttributes.simps(2))
  then obtain sp where sp: "finished = [sp]" by (metis One_nat_def length_0_conv length_Suc_conv)
  note span_observes_only [OF run] ok
  moreover have "untraced example_program 0 = (Inl RangeError, 1)" by (simp add: example_program_def bindT_def returnT_def)
  ultimately have "r = Inl RangeError" "s' = 1" "outer' = example_span" "sp_error sp \<noteq> None" "list_all safe_attribute (sp_attributes sp)"
    using sp by (auto simp: unexpected_def)
  then show ?thesis using run sp by blast
qed

text \<open>Recording a metric never fails, and adds one point; a stored trace context is read back as it was written.\<close>

lemma metrics_recorded:
  "\<exists>as. metric_problem redact code status points = (Inr (), points @ [\<lparr>mp_instrument = ''sintius.http.problems'', mp_value = 1, mp_attributes = as\<rparr>])"
  "\<exists>as. metric_idempotency redact scope outcome points = (Inr (), points @ [\<lparr>mp_instrument = ''sintius.idempotency.requests'', mp_value = 1, mp_attributes = as\<rparr>])"
  "\<exists>as. metric_auditWriteFailure redact action points = (Inr (), points @ [\<lparr>mp_instrument = ''sintius.audit.write_failures'', mp_value = 1, mp_attributes = as\<rparr>])"
  "\<exists>as. metric_authentication redact attempt outcome reason provider points = (Inr (), points @ [\<lparr>mp_instrument = ''sintius.authentication.outcomes'', mp_value = 1, mp_attributes = as\<rparr>])"
  "0 < n \<Longrightarrow> \<exists>as. metric_queueOutcome redact queue outcome n points = (Inr (), points @ [\<lparr>mp_instrument = ''sintius.queue.outcomes'', mp_value = n, mp_attributes = as\<rparr>])"
  by (simp_all add: metric_problem_def metric_idempotency_def metric_auditWriteFailure_def metric_authentication_def metric_queueOutcome_def add_point_def
      platform_attributes del: safeAttributes.simps(2))

lemma carrier_round_trip:
  assumes "TRACEPARENT (traceparent c)" "\<forall>ts. tracestate c = Some ts \<longrightarrow> length ts \<le> 512"
  shows "toCarrier (carrier_json c) = Some c"
  using assms by (cases "tracestate c") (simp_all add: toCarrier_def carrier_json_def own_prop_def)

lemma carrier_valid: "toCarrier v = Some c \<Longrightarrow> TRACEPARENT (traceparent c) \<and> (\<forall>ts. tracestate c = Some ts \<longrightarrow> length ts \<le> 512)"
  by (auto simp: toCarrier_def split: js_value.splits if_splits)

end
