(* ===== verification/Migrations.thy ===== *)
theory Migrations
  imports Prelude
begin

text \<open>
  The migration runner \<open>tools/database/migrate-postgres.mjs\<close>: collecting the \<open>.sql\<close> files of all packages, ordering them by
  name, refusing duplicate names, and applying each file that is not recorded yet in a transaction that also records its checksum.

  PostgreSQL, SHA-256 and the collation of \<open>localeCompare\<close> are parameters: \<open>exec sql d\<close> is the database after the statements
  of a file, or \<open>None\<close> when one of them fails; a name is compared through its collation key. The advisory lock makes
  concurrent runs follow one another, so a history is a sequence of runs. A migration does not itself write the table of records.

  The theorems say that the schema is always the outcome of the recorded migrations, each applied once and whole, in the order of
  the records, and what one run does.
\<close>

section \<open>Model\<close>

record migration =
  migrationName :: string
  mi_sql :: string

record 'd migration_db =
  md_applied :: "string \<rightharpoonup> string"
  md_schema :: 'd

text \<open>One entry per package: the files of its migrations directory, or \<open>None\<close> where there is no such directory.\<close>

type_synonym package_files = "(string \<times> string) list option"

definition is_sql :: "string \<Rightarrow> bool" where
  "is_sql name \<longleftrightarrow> 4 \<le> length name \<and> drop (length name - 4) name = ''.sql''"

definition collect_migrations :: "package_files list \<Rightarrow> migration list" where
  "collect_migrations packages = concat (map (\<lambda>p. case p of
     None \<Rightarrow> [] | Some files \<Rightarrow> map (\<lambda>(name, sql). \<lparr>migrationName = name, mi_sql = sql\<rparr>) (filter (\<lambda>(name, sql). is_sql name) files)) packages)"

fun adjacent_duplicate :: "migration list \<Rightarrow> bool" where
  "adjacent_duplicate (a # b # ms) \<longleftrightarrow> migrationName a = migrationName b \<or> adjacent_duplicate (b # ms)"
| "adjacent_duplicate _ \<longleftrightarrow> False"

definition run_sql :: "(string \<Rightarrow> 'd \<Rightarrow> 'd option) \<Rightarrow> string \<Rightarrow> ('d migration_db, unit) tx" where
  "run_sql exec sql s = (case exec sql (md_schema s) of None \<Rightarrow> (Inl Error, s) | Some d \<Rightarrow> (Inr (), s\<lparr>md_schema := d\<rparr>))"

definition insert_migration :: "string \<Rightarrow> string \<Rightarrow> ('d migration_db, unit) tx" where
  "insert_migration name checksum s =
     (if md_applied s name \<noteq> None then (Inl Error, s) else (Inr (), s\<lparr>md_applied := (md_applied s)(name \<mapsto> checksum)\<rparr>))"

text \<open>The body of the loop: the names it reports as applied.\<close>

definition migrate_one :: "(string \<Rightarrow> 'd \<Rightarrow> 'd option) \<Rightarrow> (string \<Rightarrow> string) \<Rightarrow> migration \<Rightarrow> ('d migration_db, string list) tx" where
  "migrate_one exec sha256 m s =
     (let checksum = sha256 (mi_sql m) in
      case md_applied s (migrationName m) of
        Some existing \<Rightarrow> if existing \<noteq> checksum then (Inl Error, s) else (Inr [], s)
      | None \<Rightarrow> runInTransaction (bindT (run_sql exec (mi_sql m)) (\<lambda>_.
          bindT (insert_migration (migrationName m) checksum) (\<lambda>_. returnT [migrationName m]))) s)"

fun migrate_all :: "(string \<Rightarrow> 'd \<Rightarrow> 'd option) \<Rightarrow> (string \<Rightarrow> string) \<Rightarrow> migration list \<Rightarrow> ('d migration_db, string list) tx" where
  "migrate_all exec sha256 [] = returnT []"
| "migrate_all exec sha256 (m # ms) =
     bindT (migrate_one exec sha256 m) (\<lambda>one. bindT (migrate_all exec sha256 ms) (\<lambda>more. returnT (one @ more)))"

definition migrate :: "(string \<Rightarrow> 'd \<Rightarrow> 'd option) \<Rightarrow> (string \<Rightarrow> string) \<Rightarrow> (string \<Rightarrow> 'k::linorder) \<Rightarrow> package_files list \<Rightarrow> ('d migration_db, string list) tx" where
  "migrate exec sha256 collate packages =
     (let migrations = sort_key (collate \<circ> migrationName) (collect_migrations packages) in
      if adjacent_duplicate migrations then throwT Error else migrate_all exec sha256 migrations)"

section \<open>The recorded history\<close>

fun replay :: "(string \<Rightarrow> 'd \<Rightarrow> 'd option) \<Rightarrow> migration list \<Rightarrow> 'd \<Rightarrow> 'd option" where
  "replay exec [] d = Some d"
| "replay exec (m # ms) d = Option.bind (exec (mi_sql m) d) (replay exec ms)"

definition recorded_as :: "(string \<Rightarrow> string) \<Rightarrow> migration list \<Rightarrow> string \<rightharpoonup> string" where
  "recorded_as sha256 ms = map_of (map (\<lambda>m. (migrationName m, sha256 (mi_sql m))) ms)"

definition history_of :: "(string \<Rightarrow> 'd \<Rightarrow> 'd option) \<Rightarrow> (string \<Rightarrow> string) \<Rightarrow> 'd \<Rightarrow> 'd migration_db \<Rightarrow> migration list \<Rightarrow> bool" where
  "history_of exec sha256 d0 s h \<longleftrightarrow>
     distinct (map migrationName h) \<and> md_applied s = recorded_as sha256 h \<and> replay exec h d0 = Some (md_schema s)"

lemma replay_append: "replay exec (a @ b) d = Option.bind (replay exec a d) (replay exec b)"
  by (induction a arbitrary: d) (auto split: Option.bind_split)

lemma recorded_append:
  assumes "migrationName m \<notin> migrationName ` set h"
  shows "recorded_as sha256 (h @ [m]) = (recorded_as sha256 h)(migrationName m \<mapsto> sha256 (mi_sql m))"
proof -
  have "recorded_as sha256 h (migrationName m) = None"
    using assms by (force simp: recorded_as_def map_of_eq_None_iff)
  then show ?thesis by (auto simp: recorded_as_def map_add_def fun_eq_iff split: option.splits)
qed

lemma recorded_None: "recorded_as sha256 h n = None \<longleftrightarrow> n \<notin> migrationName ` set h"
  by (force simp: recorded_as_def map_of_eq_None_iff)

lemma migrate_one_cases:
  assumes "migrate_one exec sha256 m s = (r, s')"
  shows "(r = Inr [] \<and> s' = s \<and> md_applied s (migrationName m) = Some (sha256 (mi_sql m))) \<or>
    (r = Inr [migrationName m] \<and> md_applied s (migrationName m) = None \<and> (\<exists>d. exec (mi_sql m) (md_schema s) = Some d \<and>
       s' = s\<lparr>md_schema := d, md_applied := (md_applied s)(migrationName m \<mapsto> sha256 (mi_sql m))\<rparr>)) \<or>
    (r = Inl Error \<and> s' = s)"
  using assms by (cases "md_applied s (migrationName m)"; cases "exec (mi_sql m) (md_schema s)")
    (auto simp: migrate_one_def runInTransaction_def run_sql_def insert_migration_def bindT_def returnT_def Let_def split: if_splits)

lemma migrate_one_history:
  assumes "migrate_one exec sha256 m s = (r, s')" "history_of exec sha256 d0 s h"
  shows "\<exists>more. history_of exec sha256 d0 s' (h @ more)"
  using migrate_one_cases [OF assms(1)]
proof (elim disjE conjE exE)
  fix d
  assume d: "md_applied s (migrationName m) = None" "exec (mi_sql m) (md_schema s) = Some d"
    "s' = s\<lparr>md_schema := d, md_applied := (md_applied s)(migrationName m \<mapsto> sha256 (mi_sql m))\<rparr>"
  have "migrationName m \<notin> migrationName ` set h" using d(1) assms(2) by (simp add: history_of_def recorded_None)
  then have "history_of exec sha256 d0 s' (h @ [m])"
    using assms(2) d by (simp add: history_of_def recorded_append replay_append)
  then show ?thesis ..
qed (use assms(2) in \<open>auto intro: exI [of _ "[]"]\<close>)

lemma migrate_all_history:
  assumes "migrate_all exec sha256 ms s = (r, s')" "history_of exec sha256 d0 s h"
  shows "\<exists>more. history_of exec sha256 d0 s' (h @ more)"
  using assms
proof (induction ms arbitrary: s h r s')
  case Nil
  then show ?case by (auto simp: returnT_def intro: exI [of _ "[]"])
next
  case (Cons m ms)
  obtain r1 s1 where one: "migrate_one exec sha256 m s = (r1, s1)" by (rule prod.exhaust)
  obtain h1 where h1: "history_of exec sha256 d0 s1 (h @ h1)" using migrate_one_history [OF one Cons.prems(2)] by blast
  obtain r2 s2 where two: "migrate_all exec sha256 ms s1 = (r2, s2)" by (rule prod.exhaust)
  have "s' = s1 \<or> s' = s2" using Cons.prems(1) one two by (auto simp: bindT_def returnT_def split: sum.splits)
  then show ?case using h1 Cons.IH [OF two h1] by auto
qed

lemma migrate_history:
  assumes "migrate exec sha256 collate packages s = (r, s')" "history_of exec sha256 d0 s h"
  shows "\<exists>more. history_of exec sha256 d0 s' (h @ more)"
  using assms migrate_all_history
  by (auto simp: migrate_def Let_def throwT_def intro: exI [of _ "[]"] split: if_splits)

text \<open>What a loop that ends without an error did.\<close>

lemma migrate_all_done:
  assumes "migrate_all exec sha256 ms s = (Inr names, s')" "distinct (map migrationName ms)"
  shows "names = map migrationName (filter (\<lambda>m. md_applied s (migrationName m) = None) ms) \<and>
    replay exec (filter (\<lambda>m. md_applied s (migrationName m) = None) ms) (md_schema s) = Some (md_schema s') \<and>
    md_applied s' = md_applied s ++ recorded_as sha256 ms"
  using assms
proof (induction ms arbitrary: s names)
  case (Cons m ms)
  obtain one more s1 where one: "migrate_one exec sha256 m s = (Inr one, s1)" and two: "migrate_all exec sha256 ms s1 = (Inr more, s')"
    and names: "names = one @ more"
    using Cons.prems(1) by (auto simp: bindT_Inr_iff)
  let ?n = "migrationName m"
  have new: "?n \<notin> migrationName ` set ms" and ms: "distinct (map migrationName ms)" using Cons.prems(2) by auto
  note IH = Cons.IH [OF two ms]
  have rec: "recorded_as sha256 (m # ms) = (recorded_as sha256 ms)(?n \<mapsto> sha256 (mi_sql m))" by (simp add: recorded_as_def)
  have none: "recorded_as sha256 ms ?n = None" using new by (simp add: recorded_None)
  from migrate_one_cases [OF one] consider
      (old) "one = []" "s1 = s" "md_applied s ?n = Some (sha256 (mi_sql m))"
    | (fresh) d where "one = [?n]" "md_applied s ?n = None" "exec (mi_sql m) (md_schema s) = Some d"
        "s1 = s\<lparr>md_schema := d, md_applied := (md_applied s)(?n \<mapsto> sha256 (mi_sql m))\<rparr>" by auto
  then show ?case
  proof cases
    case old
    then show ?thesis using IH names none rec by (auto simp: map_add_def fun_eq_iff split: option.splits)
  next
    case fresh
    have same: "filter (\<lambda>x. md_applied s1 (migrationName x) = None) ms = filter (\<lambda>x. md_applied s (migrationName x) = None) ms"
      using new fresh(4) by (intro filter_cong) (force simp: image_iff)+
    show ?thesis using IH fresh names none rec unfolding same
      by (auto simp: map_add_def fun_eq_iff split: option.splits)
  qed
qed (auto simp: returnT_def recorded_as_def)

lemma adjacent_sorted:
  assumes "sorted (map (collate \<circ> migrationName) ms)" "inj_on collate (migrationName ` set ms)"
  shows "adjacent_duplicate ms \<longleftrightarrow> \<not> distinct (map migrationName ms)"
  using assms
proof (induction ms rule: adjacent_duplicate.induct)
  case (1 a b ms)
  have IH: "adjacent_duplicate (b # ms) \<longleftrightarrow> \<not> distinct (map migrationName (b # ms))"
    using 1 by (intro "1.IH") (auto intro: inj_on_subset)
  have "migrationName a = migrationName b" if c: "c \<in> set ms" "migrationName c = migrationName a" for c
  proof -
    have "collate (migrationName a) \<le> collate (migrationName b)" "collate (migrationName b) \<le> collate (migrationName c)"
      using "1.prems"(1) c(1) by auto
    then have "collate (migrationName a) = collate (migrationName b)" using c(2) by simp
    then show ?thesis using "1.prems"(2) by (auto dest: inj_onD)
  qed
  then show ?case using IH by (auto simp: image_iff)
qed auto

lemma migrate_all_again:
  assumes "\<forall>m\<in>set ms. md_applied s (migrationName m) = Some (sha256 (mi_sql m))"
  shows "migrate_all exec sha256 ms s = (Inr [], s)"
  using assms by (induction ms) (simp_all add: bindT_def returnT_def migrate_one_def)

lemma migrate_all_checked:
  assumes "migrate_all exec sha256 ms s = (Inr names, s')" "distinct (map migrationName ms)" "m \<in> set ms"
  shows "md_applied s (migrationName m) = None \<or> md_applied s (migrationName m) = Some (sha256 (mi_sql m))"
  using assms
proof (induction ms arbitrary: s names)
  case (Cons m' ms)
  obtain one more s1 where one: "migrate_one exec sha256 m' s = (Inr one, s1)" and two: "migrate_all exec sha256 ms s1 = (Inr more, s')"
    using Cons.prems(1) by (auto simp: bindT_Inr_iff)
  show ?case
  proof (cases "m = m'")
    case True
    then show ?thesis using migrate_one_cases [OF one] by auto
  next
    case False
    then have "m \<in> set ms" "migrationName m \<noteq> migrationName m'" using Cons.prems(2,3) by (auto simp: image_iff)
    moreover have "md_applied s1 (migrationName m) = None \<or> md_applied s1 (migrationName m) = Some (sha256 (mi_sql m))"
      using Cons.IH [OF two] Cons.prems(2) \<open>m \<in> set ms\<close> by simp
    ultimately show ?thesis using migrate_one_cases [OF one] by auto
  qed
qed simp

lemma recorded_member: "distinct (map migrationName ms) \<Longrightarrow> m \<in> set ms \<Longrightarrow> recorded_as sha256 ms (migrationName m) = Some (sha256 (mi_sql m))"
  by (auto simp: recorded_as_def o_def intro!: map_of_is_SomeI)

section \<open>Properties\<close>

text \<open>The databases that runs of the tool lead to, each run with whatever files there are at the time.\<close>

inductive migrated :: "(string \<Rightarrow> 'd \<Rightarrow> 'd option) \<Rightarrow> (string \<Rightarrow> string) \<Rightarrow> (string \<Rightarrow> 'k::linorder) \<Rightarrow> 'd \<Rightarrow> 'd migration_db \<Rightarrow> bool"
  for exec sha256 collate d0 where
  fresh: "migrated exec sha256 collate d0 \<lparr>md_applied = Map.empty, md_schema = d0\<rparr>"
| run: "migrated exec sha256 collate d0 s \<Longrightarrow> migrate exec sha256 collate packages s = (r, s') \<Longrightarrow> migrated exec sha256 collate d0 s'"

text \<open>C26: the schema is its recorded history. After any sequence of runs, successful or failed and with any files, there is a list of
  migrations with different names whose names and checksums are exactly the recorded ones and whose statements, executed one file
  after the other on the initial database, give the current one. No migration is applied twice, half-applied, or applied without a record.\<close>

theorem schema_is_history:
  assumes "migrated exec sha256 collate d0 s"
  shows "\<exists>h. distinct (map migrationName h) \<and> replay exec h d0 = Some (md_schema s) \<and>
    (\<forall>n. md_applied s n = map_of (map (\<lambda>m. (migrationName m, sha256 (mi_sql m))) h) n)"
proof -
  have "\<exists>h. history_of exec sha256 d0 s h"
    using assms
  proof induction
    case fresh
    show ?case by (auto simp: history_of_def recorded_as_def intro: exI [of _ "[]"])
  next
    case (run s packages r s')
    then obtain h where "history_of exec sha256 d0 s h" by blast
    then show ?case using migrate_history [OF run.hyps(2)] by blast
  qed
  then show ?thesis by (auto simp: history_of_def recorded_as_def)
qed

text \<open>C36: a run that succeeds applies what is pending, once and in order, when no two different names among the collected files
  compare as equal in the collation. Then no two collected files share a name; the files without a record
  are executed in the order of their names and reported; each is recorded with its checksum and no other record changes; every file
  recorded before has the checksum of its record. Running again with the same files changes nothing and applies nothing.\<close>

theorem migrations_applied_once:
  fixes packages :: "package_files list"
  assumes "migrate exec sha256 collate packages s = (Inr names, s')"
    and "inj_on collate (migrationName ` set (collect_migrations packages))"
  defines "ms \<equiv> sort_key (collate \<circ> migrationName) (collect_migrations packages)"
  shows "distinct (map migrationName ms) \<and>
    names = map migrationName (filter (\<lambda>m. md_applied s (migrationName m) = None) ms) \<and>
    replay exec (filter (\<lambda>m. md_applied s (migrationName m) = None) ms) (md_schema s) = Some (md_schema s') \<and>
    (\<forall>m\<in>set (collect_migrations packages). md_applied s' (migrationName m) = Some (sha256 (mi_sql m)) \<and>
       md_applied s (migrationName m) \<in> {None, Some (sha256 (mi_sql m))}) \<and>
    (\<forall>n. n \<notin> migrationName ` set (collect_migrations packages) \<longrightarrow> md_applied s' n = md_applied s n) \<and>
    migrate exec sha256 collate packages s' = (Inr [], s')"
proof -
  have sorted: "sorted (map (collate \<circ> migrationName) ms)" by (simp add: ms_def)
  have set: "set ms = set (collect_migrations packages)" by (simp add: ms_def)
  have run: "\<not> adjacent_duplicate ms" "migrate_all exec sha256 ms s = (Inr names, s')"
    using assms(1) by (auto simp: migrate_def Let_def ms_def throwT_def split: if_splits)
  have dist: "distinct (map migrationName ms)"
    using adjacent_sorted [OF sorted] run(1) assms(2) set by simp
  note outcome = migrate_all_done [OF run(2) dist]
  have now: "md_applied s' (migrationName m) = Some (sha256 (mi_sql m))" if "m \<in> set ms" for m
    using outcome recorded_member [OF dist that, of sha256] by simp
  have before: "md_applied s (migrationName m) \<in> {None, Some (sha256 (mi_sql m))}" if "m \<in> set ms" for m
    using migrate_all_checked [OF run(2) dist that] by auto
  have "md_applied s' n = md_applied s n" if "n \<notin> migrationName ` set ms" for n
    using outcome that recorded_None [of sha256 ms n] by (simp add: map_add_def)
  moreover have "migrate exec sha256 collate packages s' = (Inr [], s')"
    using migrate_all_again [of ms s' sha256 exec] now run(1) by (simp add: migrate_def Let_def ms_def)
  ultimately show ?thesis using dist outcome now before unfolding set by blast
qed

theorem schema_is_history_witness:
  "\<exists>h. replay (\<lambda>sql d. if sql = ''drop'' then None else Some (d @ [sql])) h [] = Some [''create'', ''alter''] \<and> length h = 2"
proof -
  let ?exec = "\<lambda>sql d. if sql = ''drop'' then None else Some (d @ [sql :: string])"
  let ?files = "[Some [(''2.sql'', ''alter''), (''README.md'', ''''), (''3.sql'', ''drop'')], None, Some [(''1.sql'', ''create'')]]"
  let ?s = "\<lparr>md_applied = [''1.sql'' \<mapsto> ''create'', ''2.sql'' \<mapsto> ''alter''], md_schema = [''create'', ''alter'']\<rparr>"
  have "migrate ?exec id id ?files \<lparr>md_applied = Map.empty, md_schema = []\<rparr> = (Inl Error, ?s)"
    by (simp add: migrate_def collect_migrations_def is_sql_def migrate_one_def runInTransaction_def run_sql_def insert_migration_def bindT_def returnT_def Let_def)
  then have "migrated ?exec id id [] ?s" by (intro migrated.run [OF migrated.fresh])
  from schema_is_history [OF this] obtain h where h: "distinct (map migrationName h)" "replay ?exec h [] = Some [''create'', ''alter'']"
    "map_of (map (\<lambda>m. (migrationName m, mi_sql m)) h) = [''1.sql'' \<mapsto> ''create'', ''2.sql'' \<mapsto> ''alter'']" by (auto simp: fun_eq_iff)
  have "set (map migrationName h) = {''1.sql'', ''2.sql''}"
    using arg_cong [OF h(3), of dom] by (auto simp: dom_map_of_conv_image_fst image_image)
  then have "length h = card {''1.sql'', ''2.sql''}" using h(1) distinct_card length_map by metis
  then show ?thesis using h(2) by auto
qed

theorem migrations_applied_once_witness:
  "migrate (\<lambda>sql d. Some (d @ [sql])) id id [Some [(''2.sql'', ''alter''), (''README.md'', '''')], None, Some [(''1.sql'', ''create'')]]
     \<lparr>md_applied = [''1.sql'' \<mapsto> ''create'', ''2.sql'' \<mapsto> ''alter''], md_schema = [''create'', ''alter'']\<rparr> =
   (Inr [], \<lparr>md_applied = [''1.sql'' \<mapsto> ''create'', ''2.sql'' \<mapsto> ''alter''], md_schema = [''create'', ''alter'']\<rparr>)"
proof -
  let ?exec = "\<lambda>sql d. Some (d @ [sql :: string])"
  let ?files = "[Some [(''2.sql'', ''alter''), (''README.md'', '''')], None, Some [(''1.sql'', ''create'')]]"
  have "migrate ?exec id id ?files \<lparr>md_applied = [''1.sql'' \<mapsto> ''create''], md_schema = [''create'']\<rparr> =
      (Inr [''2.sql''], \<lparr>md_applied = [''1.sql'' \<mapsto> ''create'', ''2.sql'' \<mapsto> ''alter''], md_schema = [''create'', ''alter'']\<rparr>)"
    by (simp add: migrate_def collect_migrations_def is_sql_def migrate_one_def runInTransaction_def run_sql_def insert_migration_def bindT_def returnT_def Let_def)
  from migrations_applied_once [OF this] show ?thesis by simp
qed

end
