(* ===== verification/Csv_Exchange.thy ===== *)
theory Csv_Exchange
  imports Identity_Store
begin

text \<open>
  The CSV files by which the backlog tool hands issues, traceability and tests to the coverage gate: the writer
  \<open>csv\<close> of \<open>tools/backlog/generate-jira-backlog.mjs\<close> and the reader \<open>parseCsv\<close> of
  \<open>tools/requirements/check-coverage.mjs\<close>. A row is the association list of an object's own properties;
  the tool fills them with texts, numbers and lists of texts, whose conversion to text never throws.

  The lemmas show that the reader gives back exactly the texts the writer was handed, whatever quotes,
  commas and line breaks they hold, and where it does not: a file of a single column loses its empty cells.
\<close>

section \<open>Model: the writer\<close>

definition DQ :: char where "DQ = CHR 0x22"
definition NL :: char where "NL = CHR 0x0A"
definition CR :: char where "CR = CHR 0x0D"

text \<open>\<open>Array.isArray(value) ? value.join("\n") : String(value ?? "")\<close>.\<close>

definition cell_text :: "js_value \<Rightarrow> string" where
  "cell_text v = (case v of
     JArray items \<Rightarrow> join [NL] (map (\<lambda>i. if i = JNull \<or> i = JUndefined then '''' else js_text i) items)
   | JNull \<Rightarrow> '''' | JUndefined \<Rightarrow> '''' | _ \<Rightarrow> js_text v)"

definition double_quotes :: "string \<Rightarrow> string" where
  "double_quotes s = concat (map (\<lambda>c. if c = DQ then [DQ, DQ] else [c]) s)"

definition csvCell :: "js_value \<Rightarrow> string" where
  "csvCell v = DQ # double_quotes (cell_text v) @ [DQ]"

type_synonym csv_row = "(string \<times> js_value) list"

definition csv_line :: "js_value list \<Rightarrow> string" where
  "csv_line vs = join '','' (map csvCell vs)"

definition row_values :: "string list \<Rightarrow> csv_row \<Rightarrow> js_value list" where
  "row_values headers row = map (\<lambda>h. js_prop (JObject row) h) headers"

definition csv :: "string list \<Rightarrow> csv_row list \<Rightarrow> string" where
  "csv headers rows = csv_line (map JString headers) @ [NL] @ join [NL] (map (\<lambda>row. csv_line (row_values headers row)) rows) @ [NL]"

section \<open>Model: the reader\<close>

text \<open>The loop of \<open>parseCsv\<close>: the rest of the source, the finished rows, the current row and cell, and whether it is inside quotes.\<close>

function csv_scan :: "string \<Rightarrow> string list list \<Rightarrow> string list \<Rightarrow> string \<Rightarrow> bool \<Rightarrow> string list list" where
  "csv_scan [] rows row cell quoted = (if cell \<noteq> [] \<or> row \<noteq> [] then rows @ [row @ [cell]] else rows)"
| "csv_scan (c # cs) rows row cell quoted =
     (if quoted \<and> c = DQ \<and> take 1 cs = [DQ] then csv_scan (drop 1 cs) rows row (cell @ [DQ]) quoted
      else if c = DQ then csv_scan cs rows row cell (\<not> quoted)
      else if \<not> quoted \<and> c = CHR '','' then csv_scan cs rows (row @ [cell]) [] quoted
      else if \<not> quoted \<and> (c = NL \<or> c = CR) then
        (let cs' = (if c = CR \<and> take 1 cs = [NL] then drop 1 cs else cs) in
         if cell \<noteq> [] \<or> row \<noteq> [] then csv_scan cs' (rows @ [row @ [cell]]) [] [] quoted else csv_scan cs' rows row cell quoted)
      else csv_scan cs rows row (cell @ [c]) quoted)"
  by pat_completeness auto

termination csv_scan
  by (relation "measure (\<lambda>(source, _). length source)") auto

text \<open>\<open>Object.fromEntries\<close> of the headers with the values at their index, missing or empty ones being empty.\<close>

definition csv_object :: "string list \<Rightarrow> string list \<Rightarrow> (string \<times> string) list" where
  "csv_object headers values = foldl (\<lambda>es (k, v). obj_set k v es) []
     (map (\<lambda>i. (headers ! i, if i < length values then values ! i else '''')) [0..<length headers])"

definition parseCsv :: "string \<Rightarrow> (string \<times> string) list list" where
  "parseCsv source = (case csv_scan source [] [] [] False of [] \<Rightarrow> [] | headers # rows \<Rightarrow> map (csv_object headers) rows)"

section \<open>Scanning what was written\<close>

lemma delimiters [simp]: "CHR '','' \<noteq> DQ" "NL \<noteq> DQ" "DQ \<noteq> NL" "DQ \<noteq> CHR '',''" "NL \<noteq> CHR '',''" "CHR '','' \<noteq> NL" "CR \<noteq> DQ" "NL \<noteq> CR"
  by (simp_all add: DQ_def NL_def CR_def)

lemma scan_quoted:
  assumes "take 1 rest \<noteq> [DQ]"
  shows "csv_scan (double_quotes s @ DQ # rest) rows row cell True = csv_scan rest rows row (cell @ s) False"
  using assms by (induction s arbitrary: cell) (auto simp: double_quotes_def)

lemma scan_cell: "take 1 rest \<noteq> [DQ] \<Longrightarrow> csv_scan (csvCell v @ rest) rows row [] False = csv_scan rest rows row (cell_text v) False"
  using scan_quoted [of rest "cell_text v" rows row "[]"] by (simp add: csvCell_def)

lemma scan_line:
  assumes "vs \<noteq> []" "row \<noteq> [] \<or> 2 \<le> length vs \<or> cell_text (hd vs) \<noteq> []"
  shows "csv_scan (csv_line vs @ NL # rest) rows row [] False = csv_scan rest (rows @ [row @ map cell_text vs]) [] [] False"
  using assms
proof (induction vs arbitrary: row)
  case (Cons v vs)
  show ?case
  proof (cases vs)
    case Nil
    then show ?thesis using Cons.prems scan_cell [of "NL # rest" v rows row] by (auto simp: csv_line_def)
  next
    case (Cons w ws)
    have "csv_scan (csv_line (v # vs) @ NL # rest) rows row [] False = csv_scan (csv_line vs @ NL # rest) rows (row @ [cell_text v]) [] False"
      using scan_cell [of "CHR '','' # csv_line vs @ NL # rest" v rows row] by (simp add: csv_line_def Cons)
    then show ?thesis using Cons.IH [of "row @ [cell_text v]"] Cons by simp
  qed
qed simp

lemma scan_lines:
  assumes "\<forall>vs\<in>set lines. 2 \<le> length vs"
  shows "csv_scan (join [NL] (map csv_line lines) @ [NL]) rows [] [] False = rows @ map (map cell_text) lines"
  using assms
proof (induction lines arbitrary: rows rule: induct_list012)
  case 1
  then show ?case by (simp add: NL_def DQ_def)
next
  case (2 vs)
  then show ?case using scan_line [of vs "[]" "[]" rows] by (cases vs) auto
next
  case (3 vs ws lines)
  then show ?case using scan_line [of vs "[]" "join [NL] (map csv_line (ws # lines)) @ [NL]" rows] by (cases vs) auto
qed

lemma obj_set_fresh: "k \<notin> fst ` set es \<Longrightarrow> obj_set k v es = es @ [(k, v)]"
  by (induction es) auto

lemma fold_obj_set:
  assumes "distinct (map fst es)" "fst ` set es \<inter> fst ` set done = {}"
  shows "foldl (\<lambda>es (k, v). obj_set k v es) done es = done @ es"
  using assms
proof (induction es arbitrary: "done")
  case (Cons e es)
  then show ?case using Cons.IH [of "done @ [e]"] by (auto simp: obj_set_fresh split: prod.splits)
qed simp

lemma csv_object_zip:
  assumes "distinct headers" "length values = length headers"
  shows "csv_object headers values = zip headers values"
proof -
  have "map (\<lambda>i. (headers ! i, if i < length values then values ! i else '''')) [0..<length headers] = zip headers values"
    using assms(2) by (intro nth_equalityI) auto
  then show ?thesis using fold_obj_set [of "zip headers values" "[]"] assms by (simp add: csv_object_def)
qed

lemma csv_read_back:
  assumes "distinct headers" "2 \<le> length headers"
  shows "parseCsv (csv headers rows) = map (\<lambda>row. map (\<lambda>h. (h, cell_text (js_prop (JObject row) h))) headers) rows"
proof -
  have texts: "map cell_text (map JString headers) = headers" by (simp add: cell_text_def o_def)
  have "csv headers rows = csv_line (map JString headers) @ NL # join [NL] (map csv_line (map (row_values headers) rows)) @ [NL]"
    by (simp add: csv_def o_def)
  then have "csv_scan (csv headers rows) [] [] [] False = csv_scan (join [NL] (map csv_line (map (row_values headers) rows)) @ [NL]) [headers] [] [] False"
    using scan_line [of "map JString headers" "[]" _ "[]"] assms(2) texts by (cases headers) auto
  also have "\<dots> = [headers] @ map (map cell_text) (map (row_values headers) rows)"
    by (rule scan_lines) (use assms(2) in \<open>auto simp: row_values_def\<close>)
  finally have "parseCsv (csv headers rows) = map (\<lambda>row. csv_object headers (map cell_text (row_values headers row))) rows"
    by (simp add: parseCsv_def o_def)
  moreover have "csv_object headers (map cell_text (row_values headers row)) = map (\<lambda>h. (h, cell_text (js_prop (JObject row) h))) headers" for row
    using csv_object_zip [OF assms(1)] by (simp add: row_values_def zip_map2 o_def zip_same_conv_map)
  ultimately show ?thesis by simp
qed

section \<open>Properties\<close>

text \<open>The coverage gate reads what the backlog tool wrote. For any rows under two or more different column names, parsing
  the written file gives back one object per row, in order, which holds for each column the text of the row's
  value, whatever quotes, commas, line breaks or missing values there are.\<close>

theorem csv_round_trip:
  assumes "distinct headers" "2 \<le> length headers"
  shows "parseCsv (csv headers rows) = map (\<lambda>row. map (\<lambda>h. (h, cell_text (js_prop (JObject row) h))) headers) rows"
  using assms by (rule csv_read_back)

theorem csv_round_trip_witness:
  "parseCsv (csv [''Issue ID'', ''Summary''] [[(''Issue ID'', JNumber (Num 7)), (''Summary'', JString [CHR ''a'', DQ, CHR '','', NL])]]) =
     [[(''Issue ID'', json_int 7), (''Summary'', [CHR ''a'', DQ, CHR '','', NL])]]"
  by (subst csv_round_trip) (simp_all add: js_prop_def cell_text_def js_text_def)

text \<open>A single column is the exception: an empty cell alone on its line is taken for no row.\<close>

lemma single_column_loses_empty_rows: "parseCsv (csv [''Notes''] [[(''Notes'', JString '''')], [(''Notes'', JString ''x'')]]) = [[(''Notes'', ''x'')]]"
  by (simp add: parseCsv_def csv_def csv_line_def row_values_def csvCell_def cell_text_def double_quotes_def js_prop_def csv_object_def DQ_def NL_def CR_def)

end
