(* ===== verification/Test_Inventory.thy ===== *)
theory Test_Inventory
  imports Csv_Exchange
begin

text \<open>
  The inventory of test IDs of \<open>tools/requirements/test-inventory.ts\<close>: the IDs in the titles of the automated
  tests of a source tree, and the IDs that passed and failed in a directory of TAP reports. The regular
  expressions are written out as the greedy matchers they are; a directory is the list of its entries.

  The lemmas say exactly which lines of which files put an ID among the passed and the failed ones, and that
  every ID the inventory returns is a well-formed test ID.
\<close>

section \<open>Model: test IDs\<close>

definition is_id_char :: "char \<Rightarrow> bool" where
  "is_id_char c \<longleftrightarrow> is_upper c \<or> is_digit c \<or> c = CHR ''-''"

definition is_separator :: "char \<Rightarrow> bool" where
  "is_separator c \<longleftrightarrow> c = CHR '' '' \<or> c = CHR '','' \<or> c = CHR ''/''"

text \<open>\<open>/^TC-[A-Z0-9-]+$/\<close>.\<close>

definition TEST_ID :: "string \<Rightarrow> bool" where
  "TEST_ID s \<longleftrightarrow> take 3 s = ''TC-'' \<and> drop 3 s \<noteq> [] \<and> list_all is_id_char (drop 3 s)"

text \<open>
  The group \<open>((?:TC-[A-Z0-9-]+[ ,/]*)+)\<close> at the start of a text: what it captures and what is left. It captures
  nothing exactly when the group does not match. Nothing follows the group in either pattern, so the greedy
  choice is never taken back.
\<close>

function titled :: "string \<Rightarrow> string \<times> string" where
  "titled s =
     (let name = takeWhile is_id_char (drop 3 s); after = dropWhile is_id_char (drop 3 s) in
      if take 3 s = ''TC-'' \<and> name \<noteq> []
      then let (more, rest) = titled (dropWhile is_separator after)
           in (''TC-'' @ name @ takeWhile is_separator after @ more, rest)
      else ([], s))"
  by pat_completeness auto

lemma titled_measure:
  assumes "take 3 s = ''TC-''" "takeWhile is_id_char (drop 3 s) \<noteq> []"
  shows "length (dropWhile is_separator (dropWhile is_id_char (drop 3 s))) < length s"
proof -
  have "length s > 3" using assms(2) by (cases "length s > 3") auto
  moreover have "length (dropWhile is_separator (dropWhile is_id_char (drop 3 s))) \<le> length (drop 3 s)"
    using length_dropWhile_le [of is_separator "dropWhile is_id_char (drop 3 s)"] length_dropWhile_le [of is_id_char "drop 3 s"] by linarith
  ultimately show ?thesis by simp
qed

termination titled
  by (relation "measure length") (auto simp: titled_measure)

declare titled.simps [simp del]

text \<open>\<open>text.split(/[ ,/]+/)\<close>.\<close>

function split_runs :: "(char \<Rightarrow> bool) \<Rightarrow> string \<Rightarrow> string list" where
  "split_runs sep s =
     (let rest = dropWhile (\<lambda>c. \<not> sep c) s in
      if rest = [] then [takeWhile (\<lambda>c. \<not> sep c) s]
      else takeWhile (\<lambda>c. \<not> sep c) s # split_runs sep (dropWhile sep rest))"
  by pat_completeness auto

lemma dropWhile_both_shorter:
  assumes "dropWhile (\<lambda>c. \<not> sep c) s \<noteq> []"
  shows "length (dropWhile sep (dropWhile (\<lambda>c. \<not> sep c) s)) < length s"
proof -
  have "sep (hd (dropWhile (\<lambda>c. \<not> sep c) s))" using hd_dropWhile [OF assms] by simp
  then have "length (dropWhile sep (dropWhile (\<lambda>c. \<not> sep c) s)) < length (dropWhile (\<lambda>c. \<not> sep c) s)"
    using assms length_dropWhile_le [of sep "tl (dropWhile (\<lambda>c. \<not> sep c) s)"]
    by (cases "dropWhile (\<lambda>c. \<not> sep c) s") auto
  also have "\<dots> \<le> length s" by (rule length_dropWhile_le)
  finally show ?thesis .
qed

termination split_runs
  by (relation "measure (length \<circ> snd)") (auto simp: dropWhile_both_shorter)

declare split_runs.simps [simp del]

definition ids_in :: "string \<Rightarrow> string list" where
  "ids_in captured = filter TEST_ID (split_runs is_separator captured)"

section \<open>Model: the automated tests of a source tree\<close>

datatype fs_entry = Fs_file string string | Fs_dir string "fs_entry list"

definition ends_with :: "string \<Rightarrow> string \<Rightarrow> bool" where
  "ends_with suffix s \<longleftrightarrow> length suffix \<le> length s \<and> drop (length s - length suffix) s = suffix"

definition is_word_char :: "char \<Rightarrow> bool" where
  "is_word_char c \<longleftrightarrow> is_lower c \<or> is_upper c \<or> is_digit c \<or> c = CHR ''_''"

definition is_quote :: "char \<Rightarrow> bool" where
  "is_quote c \<longleftrightarrow> c = DQ \<or> c = CHR 0x27 \<or> c = CHR 0x60"

text \<open>\<open>/test\(\s*["'`]((?:TC-[A-Z0-9-]+[ ,/]*)+)/\<close> at the start of a text: the captured group and what is left.\<close>

definition title_match :: "string \<Rightarrow> (string \<times> string) option" where
  "title_match s =
     (if take 5 s \<noteq> ''test('' then None
      else case dropWhile is_space (drop 5 s) of
             [] \<Rightarrow> None
           | q # t \<Rightarrow> if \<not> is_quote q \<or> fst (titled t) = [] then None else Some (titled t))"

lemma titled_shorter: "length (snd (titled s)) \<le> length s"
proof (induction s rule: titled.induct)
  case (1 s)
  show ?case
  proof (cases "take 3 s = ''TC-'' \<and> takeWhile is_id_char (drop 3 s) \<noteq> []")
    case True
    have "length (snd (titled (dropWhile is_separator (dropWhile is_id_char (drop 3 s))))) \<le>
        length (dropWhile is_separator (dropWhile is_id_char (drop 3 s)))"
      by (rule "1.IH" [OF refl refl True])
    moreover have "length (dropWhile is_separator (dropWhile is_id_char (drop 3 s))) \<le> length s"
      using length_dropWhile_le [of is_separator "dropWhile is_id_char (drop 3 s)"] length_dropWhile_le [of is_id_char "drop 3 s"] by simp
    ultimately show ?thesis using True by (subst titled.simps) (simp add: Let_def case_prod_beta)
  qed (subst titled.simps, auto simp: Let_def)
qed

lemma title_match_shorter:
  assumes "title_match s = Some (g, rest)"
  shows "length rest < length s"
proof -
  obtain q t where t: "dropWhile is_space (drop 5 s) = q # t" "titled t = (g, rest)"
    using assms by (auto simp: title_match_def split: if_splits list.splits)
  have "length (q # t) \<le> length (drop 5 s)" using length_dropWhile_le [of is_space "drop 5 s"] t(1) by simp
  moreover have "length rest \<le> length t" using titled_shorter [of t] t(2) by simp
  ultimately show ?thesis by simp
qed

text \<open>
  \<open>matchAll\<close> of the pattern behind \<open>\b\<close>: a match starts where the character before is no word character, and the
  search goes on behind it.
\<close>

function titles :: "bool \<Rightarrow> string \<Rightarrow> string list" where
  "titles after_word [] = []"
| "titles after_word (c # cs) =
     (case (if after_word then None else title_match (c # cs)) of
        None \<Rightarrow> titles (is_word_char c) cs
      | Some (g, rest) \<Rightarrow> g # titles (is_word_char (last g)) rest)"
  by pat_completeness auto

termination titles
  by (relation "measure (length \<circ> snd)") (auto split: if_splits dest: title_match_shorter)

fun walk :: "fs_entry \<Rightarrow> string list" where
  "walk (Fs_file name contents) =
     (if name = ''node_modules'' \<or> take 1 name = ''.'' then []
      else if ends_with ''.test.ts'' name then concat (map ids_in (titles False contents)) else [])"
| "walk (Fs_dir name entries) =
     (if name = ''node_modules'' \<or> take 1 name = ''.'' then [] else concat (map walk entries))"

text \<open>The layers of the repository; a layer itself is walked whatever its name.\<close>

definition LAYERS :: "string list" where
  "LAYERS = [''apps'', ''modules'', ''platform'', ''tests'', ''tools'']"

definition automatedTestIds :: "fs_entry list \<Rightarrow> string set" where
  "automatedTestIds repository = set (concat (map (\<lambda>entry. case entry of
     Fs_dir name entries \<Rightarrow> if name \<in> set LAYERS then concat (map walk entries) else [] | _ \<Rightarrow> []) repository))"

section \<open>Model: test reports\<close>

record tap_results =
  tap_passed :: "string set"
  tap_failed :: "string set"

text \<open>\<open>/^\s*(not ok|ok) \d+ - ((?:TC-[A-Z0-9-]+[ ,/]*)+)/\<close>: the verdict and the IDs of a line.\<close>

definition tap_verdict :: "string \<Rightarrow> (bool \<times> string) option" where
  "tap_verdict line = (let l = dropWhile is_space line in
     if take 6 l = ''not ok'' then Some (False, drop 6 l) else if take 2 l = ''ok'' then Some (True, drop 2 l) else None)"

definition tap_title :: "string \<Rightarrow> string" where
  "tap_title r = (let digits = takeWhile is_digit (drop 1 r); t = dropWhile is_digit (drop 1 r) in
     if take 1 r = '' '' \<and> digits \<noteq> [] \<and> take 3 t = '' - '' then fst (titled (drop 3 t)) else [])"

definition tap_line :: "string \<Rightarrow> (bool \<times> string list) option" where
  "tap_line line = (case tap_verdict line of
     None \<Rightarrow> None
   | Some (ok, r) \<Rightarrow> if tap_title r = [] then None else Some (ok, ids_in (tap_title r)))"

definition tap_add :: "tap_results \<Rightarrow> string \<Rightarrow> tap_results" where
  "tap_add results line = (case tap_line line of
     None \<Rightarrow> results
   | Some (ok, ids) \<Rightarrow> if ok then results\<lparr>tap_passed := tap_passed results \<union> set ids\<rparr>
                       else results\<lparr>tap_failed := tap_failed results \<union> set ids\<rparr>)"

fun split_lines :: "string \<Rightarrow> string list" where
  "split_lines [] = [[]]"
| "split_lines (c # cs) = (if c = NL then [] # split_lines cs
     else case split_lines cs of [] \<Rightarrow> [[c]] | l # ls \<Rightarrow> (c # l) # ls)"

definition report_lines :: "(string \<times> string) list \<Rightarrow> string list" where
  "report_lines directory = concat (map (\<lambda>(name, contents). split_lines contents) (filter (\<lambda>(name, contents). ends_with ''.tap'' name) directory))"

definition tapResults :: "(string \<times> string) list \<Rightarrow> tap_results" where
  "tapResults directory = foldl tap_add \<lparr>tap_passed = {}, tap_failed = {}\<rparr> (report_lines directory)"

section \<open>What the inventory returns\<close>

lemma ids_in_wf: "i \<in> set (ids_in g) \<Longrightarrow> TEST_ID i"
  by (simp add: ids_in_def)

lemma walk_wf: "i \<in> set (walk e) \<Longrightarrow> TEST_ID i"
  by (induction e rule: walk.induct) (auto split: if_splits dest: ids_in_wf)

lemma automatedTestIds_wf: "i \<in> automatedTestIds repository \<Longrightarrow> TEST_ID i"
  by (auto simp: automatedTestIds_def split: fs_entry.splits if_splits dest: walk_wf)

text \<open>One line of a report gives a verdict on an ID.\<close>

definition reports :: "bool \<Rightarrow> string \<Rightarrow> string \<Rightarrow> bool" where
  "reports ok i line \<longleftrightarrow> (case tap_line line of None \<Rightarrow> False | Some (v, ids) \<Rightarrow> v = ok \<and> i \<in> set ids)"

lemma foldl_tap_add:
  "tap_passed (foldl tap_add r lines) = tap_passed r \<union> {i. \<exists>l\<in>set lines. reports True i l}"
  "tap_failed (foldl tap_add r lines) = tap_failed r \<union> {i. \<exists>l\<in>set lines. reports False i l}"
  by (induction lines arbitrary: r) (auto simp: tap_add_def reports_def split: option.splits)

lemma tapResults_exact:
  "i \<in> tap_passed (tapResults directory) \<longleftrightarrow> (\<exists>l\<in>set (report_lines directory). reports True i l)"
  "i \<in> tap_failed (tapResults directory) \<longleftrightarrow> (\<exists>l\<in>set (report_lines directory). reports False i l)"
  by (simp_all add: tapResults_def foldl_tap_add)

text \<open>
  The verdict is read off the first word of the line alone, so a line that reports a skipped test counts as a pass.
\<close>

lemma skipped_counts_as_passed:
  "tap_line ''ok 3 - TC-017-03-01 isolates tenants # SKIP no database'' = Some (True, [''TC-017-03-01''])"
  by (simp add: tap_line_def tap_verdict_def tap_title_def titled.simps ids_in_def split_runs.simps TEST_ID_def is_space_def is_digit_def
      is_id_char_def is_separator_def is_upper_def less_eq_char_def)

lemma example_titles:
  "automatedTestIds [Fs_dir ''platform'' [Fs_dir ''tests'' [Fs_file ''a.test.ts'' (''  test('' @ [DQ] @ ''TC-001-01-01, TC-002 holds'' @ [DQ])]]] =
     {''TC-001-01-01'', ''TC-002''}"
  by (simp add: automatedTestIds_def LAYERS_def ends_with_def titles.simps title_match_def is_quote_def titled.simps ids_in_def split_runs.simps TEST_ID_def is_space_def is_digit_def
      is_id_char_def is_separator_def is_upper_def is_lower_def is_word_char_def less_eq_char_def DQ_def insert_commute)

end
