(* ===== verification/Delivery_Gates.thy ===== *)
theory Delivery_Gates
  imports Test_Inventory
begin

text \<open>
  The pipeline controls of \<open>tools/requirements\<close>: the Definition of Done (\<open>story-dod.ts\<close>), the test strategy
  (\<open>test-strategy.ts\<close>), the status overlay of specification-derived tests (\<open>specification-test-status.ts\<close>),
  the implementation evidence (\<open>implementation-evidence.mjs\<close>), and the two CI steps that run them
  (\<open>check-pipeline-controls.mjs\<close>, \<open>check-evidence.mjs\<close>). What they read from disk is an argument: the roadmap, the
  overlays after \<open>JSON.parse\<close>, the source tree, the report directory. An optional field of an overlay is \<open>None\<close> where it is
  missing or not of the type the check asks for. Failures are the texts the code collects; a thrown error is \<open>Inl\<close> of its message.

  The theorems say exactly when the gates pass, and that what they accept rests on real tests: no overlay entry by
  itself makes a test pass or a requirement implemented.
\<close>

section \<open>Model: the roadmap and its Definition of Done\<close>

definition FINANCIALLY_MATERIAL_EPICS :: "string list" where
  "FINANCIALLY_MATERIAL_EPICS = [''SUB-E005'', ''SUB-E007'', ''SUB-E008'', ''SUB-E009'', ''SUB-E012'', ''SUB-E014'', ''SUB-E017'']"

record roadmap_test =
  rt_id :: string
  rt_status :: string
  rt_type :: string

record roadmap_story =
  rs_id :: string
  rs_implementation :: "string option"
  rs_tests :: "roadmap_test list"
  rs_reconciliationRationale :: "string option"

record roadmap_epic =
  re_id :: string
  re_stories :: "roadmap_story list"

type_synonym roadmap = "roadmap_epic list"

definition passed_in :: "tap_results option \<Rightarrow> string \<Rightarrow> bool" where
  "passed_in tap i \<longleftrightarrow> (case tap of None \<Rightarrow> True | Some r \<Rightarrow> i \<in> tap_passed r \<and> i \<notin> tap_failed r)"

definition fail_unless :: "bool \<Rightarrow> string \<Rightarrow> string list" where
  "fail_unless ok message = (if ok then [] else [message])"

definition dod_test_failures :: "string set \<Rightarrow> tap_results option \<Rightarrow> string \<Rightarrow> roadmap_test \<Rightarrow> string list" where
  "dod_test_failures automated tap site test =
     fail_unless (rt_status test = ''passing'') (site @ '': test '' @ rt_id test @ '' is '' @ rt_status test @ '', not passing'') @
     fail_unless (rt_id test \<in> automated) (site @ '': test '' @ rt_id test @ '' has no automated test titled with its ID'') @
     fail_unless (passed_in tap (rt_id test)) (site @ '': test '' @ rt_id test @ '' did not pass in the supplied test reports'')"

definition reconciled :: "roadmap_story \<Rightarrow> bool" where
  "reconciled story \<longleftrightarrow>
     list_ex (\<lambda>test. rt_type test = ''reconciliation'' \<and> rt_status test = ''passing'') (rs_tests story) \<or>
     \<not> length (case rs_reconciliationRationale story of Some r \<Rightarrow> trim r | None \<Rightarrow> []) < 20"

definition dod_story_failures :: "string set \<Rightarrow> tap_results option \<Rightarrow> string set \<Rightarrow> string \<Rightarrow> roadmap_story \<Rightarrow> string list" where
  "dod_story_failures automated tap financialEpics epicId story =
     (if rs_implementation story \<noteq> Some ''implemented'' then []
      else fail_unless (rs_tests story \<noteq> []) (rs_id story @ '': marked implemented with no tests'') @
           concat (map (dod_test_failures automated tap (rs_id story)) (rs_tests story)) @
           (if epicId \<in> financialEpics
            then fail_unless (reconciled story) (rs_id story @ '': a financially material story requires a passing reconciliation test, or a reviewed reconciliationRationale explaining why none applies'')
            else []))"

definition checkStoryDefinitionOfDone :: "roadmap \<Rightarrow> string set \<Rightarrow> tap_results option \<Rightarrow> string list option \<Rightarrow> string list" where
  "checkStoryDefinitionOfDone epics automated tap financiallyMaterialEpics =
     (let financialEpics = set (case financiallyMaterialEpics of None \<Rightarrow> FINANCIALLY_MATERIAL_EPICS | Some es \<Rightarrow> es) in
      concat (map (\<lambda>epic. concat (map (dod_story_failures automated tap financialEpics (re_id epic)) (re_stories epic))) epics))"

section \<open>Model: the test strategy\<close>

record suite_class =
  sc_id :: string
  sc_name :: string
  sc_applicable :: bool
  sc_roadmapTypes :: "string list"
  sc_evidenceTestIds :: "string list"
  sc_rationale :: "string option"

abbreviation by_types :: "string \<Rightarrow> string \<Rightarrow> string list \<Rightarrow> suite_class" where
  "by_types i name types \<equiv> \<lparr>sc_id = i, sc_name = name, sc_applicable = True, sc_roadmapTypes = types, sc_evidenceTestIds = [], sc_rationale = None\<rparr>"

abbreviation by_tests :: "string \<Rightarrow> string \<Rightarrow> string list \<Rightarrow> suite_class" where
  "by_tests i name tests \<equiv> \<lparr>sc_id = i, sc_name = name, sc_applicable = True, sc_roadmapTypes = [], sc_evidenceTestIds = tests, sc_rationale = None\<rparr>"

abbreviation not_yet :: "string \<Rightarrow> string \<Rightarrow> string \<Rightarrow> suite_class" where
  "not_yet i name rationale \<equiv>
     \<lparr>sc_id = i, sc_name = name, sc_applicable = False, sc_roadmapTypes = [], sc_evidenceTestIds = [], sc_rationale = Some rationale\<rparr>"

definition SUITE_CLASSES :: "suite_class list" where
  "SUITE_CLASSES =
    [by_types ''unit'' ''Unit'' [''unit''],
     by_types ''integration'' ''Integration'' [''integration'', ''concurrency''],
     by_types ''contract'' ''Contract'' [''contract''],
     by_tests ''golden'' ''Golden pricing/billing'' [''TC-PLATFORM-MONEY-GOLDEN-01''],
     not_yet ''property'' ''Property-based''
       (''No pricing/rating/billing module exists yet; the deliverable 12 '' @ [CHR 0xA7] @ ''23 property suite has nothing to generate cases against.''),
     not_yet ''provider-simulation'' ''Provider simulation''
       ''No payment or tax provider adapter exists yet (Stripe scope is an open item awaiting the Product Owner).'',
     by_tests ''tenant-isolation'' ''Tenant isolation'' [''TC-017-03-01'', ''TC-017-03-02''],
     not_yet ''load'' ''Load'' (''Scheduled-tier only ('' @ [CHR 0xA7] @ ''9); no deployed reference environment exists yet to load-test.''),
     by_types ''failover'' ''Failover'' [''chaos''],
     by_types ''security'' ''Security'' [''security''],
     not_yet ''reconciliation'' ''Reconciliation'' ''No invoice, receivable or journal module exists yet (Phase 1+); nothing to reconcile.'',
     not_yet ''accessibility'' ''Accessibility'' (''No UI screen exists yet; '' @ [CHR 0xA7] @ ''13 scopes this to rendered screens.''),
     not_yet ''backup-restore'' ''Backup and restore'' (''Scheduled-tier only ('' @ [CHR 0xA7] @ ''14); no deployed environment exists yet to drill against.''),
     not_yet ''end-to-end'' ''End-to-end acceptance''
       (''The PRD '' @ [CHR 0xA7] @ ''11 scenario needs subscriptions, usage and billing (Phase 1+), which do not exist yet.'')]"

text \<open>\<open>passingRoadmapTestIdsByType.get(type) ?? []\<close>, the tests of the roadmap in order.\<close>

definition passing_of_type :: "roadmap option \<Rightarrow> string \<Rightarrow> string list" where
  "passing_of_type epics type = (case epics of None \<Rightarrow> [] | Some es \<Rightarrow>
     map rt_id (filter (\<lambda>t. rt_status t = ''passing'' \<and> rt_type t = type) (concat (map rs_tests (concat (map re_stories es))))))"

definition isProven :: "string set \<Rightarrow> tap_results option \<Rightarrow> string \<Rightarrow> bool" where
  "isProven automated tap i \<longleftrightarrow> i \<in> automated \<and> passed_in tap i"

definition candidate_ids :: "roadmap option \<Rightarrow> suite_class \<Rightarrow> string list" where
  "candidate_ids epics c = sc_evidenceTestIds c @ concat (map (passing_of_type epics) (sc_roadmapTypes c))"

definition class_failures :: "roadmap option \<Rightarrow> string set \<Rightarrow> tap_results option \<Rightarrow> suite_class \<Rightarrow> string list" where
  "class_failures epics automated tap c =
     (let site = sc_id c @ '' ('' @ sc_name c @ '')''; candidates = candidate_ids epics c in
      if \<not> sc_applicable c
      then fail_unless (\<not> (case sc_rationale c of None \<Rightarrow> True | Some r \<Rightarrow> length (trim r) < 20)) (site @ '': an inapplicable suite class requires a reviewed rationale'')
      else if candidates = [] then [site @ '': applicable but no passing roadmap test or evidence test is assigned to it'']
      else fail_unless (list_ex (isProven automated tap) candidates)
             (site @ '': applicable but none of its candidate tests ('' @ join '', '' candidates @ '') is automated and passing''))"

definition checkTestStrategy :: "roadmap option \<Rightarrow> string set \<Rightarrow> tap_results option \<Rightarrow> string list" where
  "checkTestStrategy epics automated tap = concat (map (class_failures epics automated tap) SUITE_CLASSES)"

text \<open>The CI step over both, with this run's reports.\<close>

definition gate_error :: "string \<Rightarrow> string list \<Rightarrow> string" where
  "gate_error heading failures = heading @ [NL] @ ''- '' @ join (NL # ''- '') failures"

definition runStoryDefinitionOfDoneCheck :: "fs_entry list \<Rightarrow> roadmap \<Rightarrow> (string \<times> string) list option \<Rightarrow> string list option \<Rightarrow> string list" where
  "runStoryDefinitionOfDoneCheck repository epics reportDirectory financiallyMaterialEpics =
     checkStoryDefinitionOfDone epics (automatedTestIds repository) (map_option tapResults reportDirectory) financiallyMaterialEpics"

definition runTestStrategyCheck :: "fs_entry list \<Rightarrow> roadmap \<Rightarrow> (string \<times> string) list option \<Rightarrow> string list" where
  "runTestStrategyCheck repository epics reportDirectory =
     checkTestStrategy (Some epics) (automatedTestIds repository) (map_option tapResults reportDirectory)"

definition check_pipeline_controls :: "fs_entry list \<Rightarrow> roadmap \<Rightarrow> (string \<times> string) list \<Rightarrow> string + unit" where
  "check_pipeline_controls repository epics reportDirectory =
     (let failures = runStoryDefinitionOfDoneCheck repository epics (Some reportDirectory) None @ runTestStrategyCheck repository epics (Some reportDirectory)
      in if failures \<noteq> [] then Inl (gate_error ''Pipeline controls failed:'' failures) else Inr ())"

section \<open>Model: the status overlay of specification-derived tests\<close>

definition VALID_STATUSES :: "string list" where
  "VALID_STATUSES = [''passing'', ''partial'', ''blocked'', ''not_run'']"

record overlay_entry =
  ov_testId :: "string option"
  ov_status :: "string option"
  ov_summary :: "string option"
  ov_reviewedAt :: "string option"

text \<open>\<open>/^\d{4}-\d{2}-\d{2}$/\<close>, and a text of twenty characters or more once trimmed.\<close>

definition is_date :: "string \<Rightarrow> bool" where
  "is_date s \<longleftrightarrow> length s = 10 \<and> s ! 4 = CHR ''-'' \<and> s ! 7 = CHR ''-'' \<and> list_all is_digit (take 4 s @ take 2 (drop 5 s) @ drop 8 s)"

definition is_summary :: "string option \<Rightarrow> bool" where
  "is_summary summary \<longleftrightarrow> (case summary of None \<Rightarrow> False | Some s \<Rightarrow> \<not> length (trim s) < 20)"

definition dated :: "string option \<Rightarrow> bool" where
  "dated d \<longleftrightarrow> is_date (case d of None \<Rightarrow> [] | Some s \<Rightarrow> s)"

definition overlay_failures :: "string set \<Rightarrow> tap_results option \<Rightarrow> string \<Rightarrow> overlay_entry \<Rightarrow> string list" where
  "overlay_failures automated tap i entry =
     fail_unless (case ov_status entry of None \<Rightarrow> False | Some s \<Rightarrow> s \<in> set VALID_STATUSES) (i @ '': status must be one of '' @ join '', '' VALID_STATUSES) @
     fail_unless (is_summary (ov_summary entry)) (i @ '': a reviewed summary of how the test was demonstrated is required'') @
     fail_unless (dated (ov_reviewedAt entry)) (i @ '': reviewedAt must be a YYYY-MM-DD date'') @
     (if ov_status entry = Some ''passing''
      then fail_unless (i \<in> automated) (i @ '': claimed passing but has no automated test titled with its ID'') @
           fail_unless (passed_in tap i) (i @ '': claimed passing but did not pass in the supplied test reports'')
      else [])"

text \<open>One round of the loop: the failures and the statuses so far.\<close>

definition overlay_step :: "string set \<Rightarrow> string set \<Rightarrow> tap_results option \<Rightarrow> string list \<times> (string \<rightharpoonup> string) \<Rightarrow> overlay_entry \<Rightarrow>
    string list \<times> (string \<rightharpoonup> string)" where
  "overlay_step generatedTestIds automated tap acc entry =
     (let (failures, statuses) = acc in
      case ov_testId entry of
        None \<Rightarrow> (failures @ [''(missing testId): not a specification-derived test ID in this generation''], statuses)
      | Some i \<Rightarrow>
          if i \<notin> generatedTestIds then (failures @ [i @ '': not a specification-derived test ID in this generation''], statuses)
          else if statuses i \<noteq> None then (failures @ [i @ '': duplicate status entry''], statuses)
          else (failures @ overlay_failures automated tap i entry,
                statuses(i \<mapsto> (case ov_status entry of None \<Rightarrow> ''not_run'' | Some s \<Rightarrow> s))))"

definition loadSpecificationTestStatus :: "overlay_entry list option \<Rightarrow> string set \<Rightarrow> string set \<Rightarrow> tap_results option \<Rightarrow> string + (string \<rightharpoonup> string)" where
  "loadSpecificationTestStatus overlay generatedTestIds automated tap = (case overlay of
     None \<Rightarrow> Inr Map.empty
   | Some entries \<Rightarrow>
       (let (failures, statuses) = foldl (overlay_step generatedTestIds automated tap) ([], Map.empty) entries in
        if failures \<noteq> [] then Inl (gate_error ''Specification test status overlay is invalid:'' failures) else Inr statuses))"

section \<open>Model: implementation evidence\<close>

text \<open>Canonical roadmap statuses merged with the overlay; \<open>None\<close> for the generated IDs when no backlog was generated.\<close>

definition roadmap_statuses :: "roadmap \<Rightarrow> string \<rightharpoonup> string" where
  "roadmap_statuses epics = map_of (rev (map (\<lambda>t. (rt_id t, rt_status t)) (concat (map rs_tests (concat (map re_stories epics))))))"

definition roadmapTestStatuses :: "roadmap \<Rightarrow> string set option \<Rightarrow> overlay_entry list option \<Rightarrow> string set \<Rightarrow> tap_results option \<Rightarrow>
    string + (string \<rightharpoonup> string)" where
  "roadmapTestStatuses epics generatedTestIds overlay automated tap = (case generatedTestIds of
     None \<Rightarrow> Inr (roadmap_statuses epics)
   | Some ids \<Rightarrow> (case loadSpecificationTestStatus overlay ids automated tap of
        Inl e \<Rightarrow> Inl e
      | Inr statuses \<Rightarrow> Inr (roadmap_statuses epics ++ statuses)))"

record register_entry =
  rq_id :: string
  rq_disposition :: string
  rq_testIds :: "string list"

record evidence_entry =
  ev_requirementId :: "string option"
  ev_summary :: "string option"
  ev_reviewedAt :: "string option"
  ev_code :: "string list"

definition evidence_test_failures :: "(string \<rightharpoonup> string) \<Rightarrow> string set \<Rightarrow> tap_results option \<Rightarrow> string \<Rightarrow> string \<Rightarrow> string list" where
  "evidence_test_failures statuses automated tap site test =
     fail_unless (statuses test = Some ''passing'')
       (site @ '': mapped test '' @ test @ '' is '' @ (case statuses test of None \<Rightarrow> ''not in the roadmap'' | Some s \<Rightarrow> s) @ '', not passing'') @
     fail_unless (test \<in> automated) (site @ '': mapped test '' @ test @ '' has no automated test titled with its ID'') @
     fail_unless (passed_in tap test) (site @ '': mapped test '' @ test @ '' did not pass in the supplied test reports'')"

text \<open>The checks on an entry for a known requirement; \<open>exists\<close> is \<open>existsSync\<close> below the repository root.\<close>

definition evidence_failures :: "(string \<Rightarrow> bool) \<Rightarrow> (string \<rightharpoonup> string) \<Rightarrow> string set \<Rightarrow> tap_results option \<Rightarrow> (string \<rightharpoonup> string list) \<Rightarrow>
    register_entry \<Rightarrow> string \<Rightarrow> evidence_entry \<Rightarrow> string list" where
  "evidence_failures exists statuses automated tap evidence requirement site entry =
     fail_unless (rq_disposition requirement = ''accepted'') (site @ '': only accepted requirements can carry implementation evidence'') @
     fail_unless (evidence site = None) (site @ '': duplicate evidence entry'') @
     fail_unless (is_summary (ev_summary entry)) (site @ '': a reviewed summary of how the requirement is met is required'') @
     fail_unless (dated (ev_reviewedAt entry)) (site @ '': reviewedAt must be a YYYY-MM-DD date'') @
     fail_unless (ev_code entry \<noteq> []) (site @ '': at least one implementing code path is required'') @
     concat (map (\<lambda>file. fail_unless (exists file) (site @ '': code path '' @ file @ '' does not exist'')) (ev_code entry)) @
     fail_unless (rq_testIds requirement \<noteq> []) (site @ '': the requirement has no mapped tests to prove it'') @
     concat (map (evidence_test_failures statuses automated tap site) (rq_testIds requirement))"

definition evidence_refs :: "string list \<Rightarrow> string list \<Rightarrow> string list" where
  "evidence_refs code tests = map (\<lambda>file. ''code:'' @ file) code @ map (\<lambda>test. ''test:'' @ test) tests"

definition evidence_step :: "(string \<Rightarrow> bool) \<Rightarrow> (string \<rightharpoonup> register_entry) \<Rightarrow> (string \<rightharpoonup> string) \<Rightarrow> string set \<Rightarrow> tap_results option \<Rightarrow>
    string list \<times> (string \<rightharpoonup> string list) \<Rightarrow> evidence_entry \<Rightarrow> string list \<times> (string \<rightharpoonup> string list)" where
  "evidence_step exists byId statuses automated tap acc entry =
     (let (failures, evidence) = acc in
      case ev_requirementId entry of
        None \<Rightarrow> (failures @ [''(missing requirementId): unknown requirement''], evidence)
      | Some i \<Rightarrow> (case byId i of
          None \<Rightarrow> (failures @ [i @ '': unknown requirement''], evidence)
        | Some requirement \<Rightarrow>
            (failures @ evidence_failures exists statuses automated tap evidence requirement i entry,
             evidence(i \<mapsto> evidence_refs (ev_code entry) (rq_testIds requirement)))))"

record evidence_inputs =
  ei_repository :: "fs_entry list"
  ei_exists :: "string \<Rightarrow> bool"
  ei_roadmap :: roadmap
  ei_generatedTestIds :: "string set option"
  ei_statusOverlay :: "overlay_entry list option"
  ei_evidenceOverlay :: "evidence_entry list option"

definition requirements_by_id :: "register_entry list \<Rightarrow> string \<rightharpoonup> register_entry" where
  "requirements_by_id requirements = map_of (rev (map (\<lambda>r. (rq_id r, r)) requirements))"

definition loadImplementationEvidence :: "evidence_inputs \<Rightarrow> register_entry list \<Rightarrow> (string \<times> string) list option \<Rightarrow> string + (string \<rightharpoonup> string list)" where
  "loadImplementationEvidence inputs requirements reportDirectory = (case ei_evidenceOverlay inputs of
     None \<Rightarrow> Inr Map.empty
   | Some entries \<Rightarrow>
       (let automated = automatedTestIds (ei_repository inputs); tap = map_option tapResults reportDirectory in
        case roadmapTestStatuses (ei_roadmap inputs) (ei_generatedTestIds inputs) (ei_statusOverlay inputs) automated tap of
          Inl e \<Rightarrow> Inl e
        | Inr statuses \<Rightarrow>
            (let (failures, evidence) = foldl (evidence_step (ei_exists inputs) (requirements_by_id requirements) statuses automated tap) ([], Map.empty) entries in
             if failures \<noteq> [] then Inl (gate_error ''Implementation evidence is invalid:'' failures) else Inr evidence)))"

section \<open>When the checks collect no failure\<close>

lemma fail_unless_Nil [simp]: "fail_unless ok message = [] \<longleftrightarrow> ok"
  by (simp add: fail_unless_def)

text \<open>A test stands when an automated test carries its ID and the reports, where supplied, have it passed and not failed.\<close>

definition stands :: "string set \<Rightarrow> (string \<times> string) list option \<Rightarrow> string \<Rightarrow> bool" where
  "stands automated directory i \<longleftrightarrow> i \<in> automated \<and>
     (case directory of None \<Rightarrow> True | Some d \<Rightarrow> (\<exists>l\<in>set (report_lines d). reports True i l) \<and> \<not> (\<exists>l\<in>set (report_lines d). reports False i l))"

lemma stands_iff: "i \<in> automated \<and> passed_in (map_option tapResults directory) i \<longleftrightarrow> stands automated directory i"
  by (cases directory) (auto simp: stands_def passed_in_def tapResults_exact)

lemma isProven_iff: "isProven automated (map_option tapResults directory) i \<longleftrightarrow> stands automated directory i"
  by (simp add: isProven_def stands_iff)

lemma dod_test_ok:
  "dod_test_failures automated (map_option tapResults directory) site test = [] \<longleftrightarrow> rt_status test = ''passing'' \<and> stands automated directory (rt_id test)"
  by (auto simp: dod_test_failures_def stands_iff [symmetric])

definition story_done :: "string set \<Rightarrow> (string \<times> string) list option \<Rightarrow> string set \<Rightarrow> string \<Rightarrow> roadmap_story \<Rightarrow> bool" where
  "story_done automated directory financialEpics epicId story \<longleftrightarrow> rs_tests story \<noteq> [] \<and>
     (\<forall>test\<in>set (rs_tests story). rt_status test = ''passing'' \<and> stands automated directory (rt_id test)) \<and>
     (epicId \<in> financialEpics \<longrightarrow> reconciled story)"

lemma dod_story_ok:
  "dod_story_failures automated (map_option tapResults directory) financialEpics epicId story = [] \<longleftrightarrow>
     (rs_implementation story = Some ''implemented'' \<longrightarrow> story_done automated directory financialEpics epicId story)"
  by (simp add: dod_story_failures_def story_done_def dod_test_ok)

lemma dod_ok:
  "checkStoryDefinitionOfDone epics automated (map_option tapResults directory) None = [] \<longleftrightarrow>
     (\<forall>epic\<in>set epics. \<forall>story\<in>set (re_stories epic). rs_implementation story = Some ''implemented'' \<longrightarrow>
        story_done automated directory (set FINANCIALLY_MATERIAL_EPICS) (re_id epic) story)"
  by (simp add: checkStoryDefinitionOfDone_def dod_story_ok)

lemma rationale_given: "\<forall>c\<in>set SUITE_CLASSES. \<not> sc_applicable c \<longrightarrow> (case sc_rationale c of None \<Rightarrow> False | Some r \<Rightarrow> \<not> length (trim r) < 20)"
  by (simp add: SUITE_CLASSES_def trim_def is_space_def)

lemma class_ok:
  assumes "c \<in> set SUITE_CLASSES"
  shows "class_failures epics automated (map_option tapResults directory) c = [] \<longleftrightarrow>
    (sc_applicable c \<longrightarrow> (\<exists>i\<in>set (candidate_ids epics c). stands automated directory i))"
  using rationale_given assms by (auto simp: class_failures_def Let_def list_ex_iff isProven_iff split: option.splits)

lemma strategy_ok:
  "checkTestStrategy epics automated (map_option tapResults directory) = [] \<longleftrightarrow>
     (\<forall>c\<in>set SUITE_CLASSES. sc_applicable c \<longrightarrow> (\<exists>i\<in>set (candidate_ids epics c). stands automated directory i))"
  by (simp add: checkTestStrategy_def class_ok)

section \<open>The overlays claim only what tests prove\<close>

definition status_claim :: "string set \<Rightarrow> (string \<times> string) list option \<Rightarrow> overlay_entry list \<Rightarrow> string \<Rightarrow> string \<Rightarrow> bool" where
  "status_claim automated directory entries i s \<longleftrightarrow> (\<exists>entry\<in>set entries. ov_testId entry = Some i \<and> ov_status entry = Some s \<and>
     s \<in> set VALID_STATUSES \<and> is_summary (ov_summary entry) \<and> dated (ov_reviewedAt entry) \<and> (s = ''passing'' \<longrightarrow> stands automated directory i))"

lemma overlay_failures_ok:
  assumes "overlay_failures automated (map_option tapResults directory) i entry = []"
  shows "\<exists>s. ov_status entry = Some s \<and> s \<in> set VALID_STATUSES \<and> is_summary (ov_summary entry) \<and> dated (ov_reviewedAt entry) \<and>
    (s = ''passing'' \<longrightarrow> stands automated directory i)"
  using assms by (cases "ov_status entry") (auto simp: overlay_failures_def stands_iff [symmetric] split: if_splits)

text \<open>
  Both overlays are read by a loop that collects failures and fills a map. Its contract: failures only grow, and a step that adds none
  adds one entry, for which the element makes its claim. Then an overlay read without failures holds only claimed entries.
\<close>

locale collecting_loop =
  fixes step :: "string list \<times> ('k \<rightharpoonup> 'v) \<Rightarrow> 'e \<Rightarrow> string list \<times> ('k \<rightharpoonup> 'v)"
    and claims :: "'e \<Rightarrow> 'k \<Rightarrow> 'v \<Rightarrow> bool"
  assumes grows: "\<exists>more. fst (step acc e) = fst acc @ more"
    and clean_step: "fst (step ([], m) e) = [] \<Longrightarrow> \<exists>k v. step ([], m) e = ([], m(k \<mapsto> v)) \<and> claims e k v"
begin

lemma failures_grow: "fst (foldl step acc es) = [] \<Longrightarrow> fst acc = []"
  by (induction es arbitrary: acc) (simp, metis append_is_Nil_conv foldl_Cons grows)

lemma clean_loop:
  assumes "foldl step ([], m) es = ([], m')" "m' k = Some v"
  shows "m k = Some v \<or> (\<exists>e\<in>set es. claims e k v)"
  using assms
proof (induction es arbitrary: m)
  case (Cons e es)
  have "fst (foldl step (step ([], m) e) es) = []" using Cons.prems(1) by simp
  then have "fst (step ([], m) e) = []" by (rule failures_grow)
  then obtain j w where step: "step ([], m) e = ([], m(j \<mapsto> w))" "claims e j w" using clean_step by blast
  then have "(m(j \<mapsto> w)) k = Some v \<or> (\<exists>e\<in>set es. claims e k v)"
    using Cons.IH [of "m(j \<mapsto> w)"] Cons.prems by (simp del: fun_upd_apply)
  then show ?case using step(2) by (auto split: if_splits)
qed simp

end

lemma overlay_step_grows: "\<exists>more. fst (overlay_step generated automated tap acc e) = fst acc @ more"
  by (cases acc) (auto simp: overlay_step_def split: option.splits)

definition overlay_claim :: "string set \<Rightarrow> string set \<Rightarrow> (string \<times> string) list option \<Rightarrow> overlay_entry \<Rightarrow> string \<Rightarrow> string \<Rightarrow> bool" where
  "overlay_claim generated automated directory entry i s \<longleftrightarrow> i \<in> generated \<and> status_claim automated directory [entry] i s"

interpretation status_overlay: collecting_loop "overlay_step generated automated (map_option tapResults directory)" "overlay_claim generated automated directory"
  for generated automated :: "string set" and directory :: "(string \<times> string) list option"
proof
  fix acc e show "\<exists>more. fst (overlay_step generated automated (map_option tapResults directory) acc e) = fst acc @ more" by (rule overlay_step_grows)
next
  fix m :: "string \<rightharpoonup> string" and e
  let ?step = "overlay_step generated automated (map_option tapResults directory) ([], m) e"
  assume none: "fst ?step = []"
  then obtain j where j: "ov_testId e = Some j" "j \<in> generated" "m j = None" "overlay_failures automated (map_option tapResults directory) j e = []"
    by (auto simp: overlay_step_def split: option.splits if_splits)
  obtain t where t: "ov_status e = Some t" "overlay_claim generated automated directory e j t"
    using overlay_failures_ok [OF j(4)] j(1,2) by (auto simp: overlay_claim_def status_claim_def)
  show "\<exists>k v. ?step = ([], m(k \<mapsto> v)) \<and> overlay_claim generated automated directory e k v"
    using j t by (intro exI [of _ j] exI [of _ t]) (simp add: overlay_step_def)
qed

lemma overlay_loaded:
  assumes "loadSpecificationTestStatus (Some entries) generated automated (map_option tapResults directory) = Inr statuses" "statuses i = Some s"
  shows "i \<in> generated \<and> status_claim automated directory entries i s"
proof -
  have "foldl (overlay_step generated automated (map_option tapResults directory)) ([], Map.empty) entries = ([], statuses)"
    using assms(1) by (auto simp: loadSpecificationTestStatus_def split: prod.splits if_splits)
  from status_overlay.clean_loop [OF this assms(2)] show ?thesis by (auto simp: overlay_claim_def status_claim_def)
qed

text \<open>What a recorded claim rests on.\<close>

definition implemented_by :: "(string \<Rightarrow> bool) \<Rightarrow> (string \<rightharpoonup> string) \<Rightarrow> string set \<Rightarrow> (string \<times> string) list option \<Rightarrow> register_entry \<Rightarrow> string list \<Rightarrow> bool" where
  "implemented_by exists statuses automated directory requirement refs \<longleftrightarrow>
     rq_disposition requirement = ''accepted'' \<and> rq_testIds requirement \<noteq> [] \<and>
     (\<forall>test\<in>set (rq_testIds requirement). statuses test = Some ''passing'' \<and> stands automated directory test) \<and>
     (\<exists>code. code \<noteq> [] \<and> (\<forall>file\<in>set code. exists file) \<and>
        refs = evidence_refs code (rq_testIds requirement))"

lemma evidence_failures_ok:
  assumes "evidence_failures exists statuses automated (map_option tapResults directory) evidence requirement site entry = []"
  shows "implemented_by exists statuses automated directory requirement
    (evidence_refs (ev_code entry) (rq_testIds requirement))"
  using assms by (auto simp: implemented_by_def evidence_failures_def evidence_test_failures_def stands_iff [symmetric])

lemma evidence_step_grows: "\<exists>more. fst (evidence_step exists byId statuses automated tap acc e) = fst acc @ more"
  by (cases acc) (auto simp: evidence_step_def split: option.splits)

definition evidence_claim :: "(string \<Rightarrow> bool) \<Rightarrow> (string \<rightharpoonup> register_entry) \<Rightarrow> (string \<rightharpoonup> string) \<Rightarrow> string set \<Rightarrow> (string \<times> string) list option \<Rightarrow>
    evidence_entry \<Rightarrow> string \<Rightarrow> string list \<Rightarrow> bool" where
  "evidence_claim exists byId statuses automated directory entry i refs \<longleftrightarrow>
     (\<exists>r. byId i = Some r \<and> implemented_by exists statuses automated directory r refs)"

interpretation evidence_overlay: collecting_loop "evidence_step exists byId statuses automated (map_option tapResults directory)"
    "evidence_claim exists byId statuses automated directory"
  for exists byId statuses automated directory
proof
  fix acc e show "\<exists>more. fst (evidence_step exists byId statuses automated (map_option tapResults directory) acc e) = fst acc @ more" by (rule evidence_step_grows)
next
  fix m e
  let ?step = "evidence_step exists byId statuses automated (map_option tapResults directory) ([], m) e"
  assume "fst ?step = []"
  then obtain j r where j: "ev_requirementId e = Some j" "byId j = Some r"
    and ok: "evidence_failures exists statuses automated (map_option tapResults directory) m r j e = []"
    by (auto simp: evidence_step_def split: option.splits)
  show "\<exists>k v. ?step = ([], m(k \<mapsto> v)) \<and> evidence_claim exists byId statuses automated directory e k v"
    using j ok evidence_failures_ok [OF ok]
    by (intro exI [of _ j] exI [of _ "evidence_refs (ev_code e) (rq_testIds r)"]) (simp add: evidence_step_def evidence_claim_def)
qed

lemma merged_status:
  assumes "roadmapTestStatuses epics generated overlay automated (map_option tapResults directory) = Inr statuses" "statuses i = Some s"
  shows "roadmap_statuses epics i = Some s \<or> (\<exists>entries. overlay = Some entries \<and> status_claim automated directory entries i s)"
proof (cases generated)
  case (Some ids)
  then obtain more where more: "loadSpecificationTestStatus overlay ids automated (map_option tapResults directory) = Inr more"
    "statuses = roadmap_statuses epics ++ more"
    using assms(1) by (auto simp: roadmapTestStatuses_def split: sum.splits)
  show ?thesis
  proof (cases "more i")
    case None
    then show ?thesis using assms(2) more(2) by (auto simp: map_add_def)
  next
    case (Some t)
    then have "t = s" using assms(2) more(2) by simp
    obtain entries where "overlay = Some entries"
      using more(1) Some by (cases overlay) (auto simp: loadSpecificationTestStatus_def)
    then show ?thesis using overlay_loaded [of entries ids automated directory more i t] more(1) Some \<open>t = s\<close> by auto
  qed
qed (use assms in \<open>auto simp: roadmapTestStatuses_def\<close>)

lemma requirements_by_id_Some: "requirements_by_id requirements i = Some r \<Longrightarrow> r \<in> set requirements \<and> rq_id r = i"
  by (auto simp: requirements_by_id_def dest!: map_of_SomeD)

section \<open>Properties\<close>

text \<open>C27: implementation evidence rests on tests. When the evidence overlay is accepted, a requirement that carries evidence
  is an accepted requirement of the register with at least one existing code path and at least one mapped test; an automated
  test of the source tree is titled with each mapped ID; where reports are supplied, some line of them has the ID passed
  and none has it failed; and the roadmap, or a reviewed entry of the status overlay, says it passes. Editing the overlays alone adds nothing.\<close>

theorem evidence_rests_on_tests:
  assumes "loadImplementationEvidence inputs requirements directory = Inr evidence" "evidence i = Some refs"
  shows "\<exists>r\<in>set requirements. rq_id r = i \<and> rq_disposition r = ''accepted'' \<and> rq_testIds r \<noteq> [] \<and>
    (\<exists>code. code \<noteq> [] \<and> (\<forall>file\<in>set code. ei_exists inputs file) \<and>
       refs = evidence_refs code (rq_testIds r)) \<and>
    (\<forall>test\<in>set (rq_testIds r). TEST_ID test \<and> test \<in> automatedTestIds (ei_repository inputs) \<and>
       (\<forall>d. directory = Some d \<longrightarrow> (\<exists>l\<in>set (report_lines d). reports True test l) \<and> \<not> (\<exists>l\<in>set (report_lines d). reports False test l)) \<and>
       (roadmap_statuses (ei_roadmap inputs) test = Some ''passing'' \<or>
        (\<exists>entries entry. ei_statusOverlay inputs = Some entries \<and> entry \<in> set entries \<and> ov_testId entry = Some test \<and>
           ov_status entry = Some ''passing'' \<and> is_summary (ov_summary entry) \<and> dated (ov_reviewedAt entry))))"
proof -
  let ?automated = "automatedTestIds (ei_repository inputs)"
  obtain entries statuses where statuses: "roadmapTestStatuses (ei_roadmap inputs) (ei_generatedTestIds inputs) (ei_statusOverlay inputs) ?automated
      (map_option tapResults directory) = Inr statuses"
    and fold: "foldl (evidence_step (ei_exists inputs) (requirements_by_id requirements) statuses ?automated (map_option tapResults directory)) ([], Map.empty) entries = ([], evidence)"
    using assms by (auto simp: loadImplementationEvidence_def Let_def split: option.splits sum.splits prod.splits if_splits)
  obtain r where r: "requirements_by_id requirements i = Some r" "implemented_by (ei_exists inputs) statuses ?automated directory r refs"
    using evidence_overlay.clean_loop [OF fold assms(2)] by (auto simp: evidence_claim_def)
  have tests: "TEST_ID test \<and> test \<in> ?automated \<and>
       (\<forall>d. directory = Some d \<longrightarrow> (\<exists>l\<in>set (report_lines d). reports True test l) \<and> \<not> (\<exists>l\<in>set (report_lines d). reports False test l)) \<and>
       (roadmap_statuses (ei_roadmap inputs) test = Some ''passing'' \<or>
        (\<exists>entries entry. ei_statusOverlay inputs = Some entries \<and> entry \<in> set entries \<and> ov_testId entry = Some test \<and>
           ov_status entry = Some ''passing'' \<and> is_summary (ov_summary entry) \<and> dated (ov_reviewedAt entry)))"
    if "test \<in> set (rq_testIds r)" for test
  proof -
    have t: "statuses test = Some ''passing''" "stands ?automated directory test" using r(2) that by (simp_all add: implemented_by_def)
    have "(\<exists>entries entry. ei_statusOverlay inputs = Some entries \<and> entry \<in> set entries \<and> ov_testId entry = Some test \<and>
           ov_status entry = Some ''passing'' \<and> is_summary (ov_summary entry) \<and> dated (ov_reviewedAt entry))"
      if "roadmap_statuses (ei_roadmap inputs) test \<noteq> Some ''passing''"
      using merged_status [OF statuses t(1)] that unfolding status_claim_def by blast
    then show ?thesis using t(2) automatedTestIds_wf by (auto simp: stands_def)
  qed
  show ?thesis
  proof (intro bexI [of _ r] conjI)
    show "r \<in> set requirements" "rq_id r = i" using requirements_by_id_Some [OF r(1)] by simp_all
  qed (use r(2) tests in \<open>auto simp only: implemented_by_def\<close>)
qed

text \<open>The pipeline controls pass exactly when the claims of the roadmap hold in this run: every story marked implemented has tests,
  each of them passing in the roadmap, automated under its ID, reported passed and nowhere failed, with a reconciliation test or
  a reviewed rationale where its epic is financially material; and every applicable suite class has such a test of its own.\<close>

theorem pipeline_controls_exact:
  "check_pipeline_controls repository epics directory = Inr () \<longleftrightarrow>
     (\<forall>epic\<in>set epics. \<forall>story\<in>set (re_stories epic). rs_implementation story = Some ''implemented'' \<longrightarrow>
        story_done (automatedTestIds repository) (Some directory) (set FINANCIALLY_MATERIAL_EPICS) (re_id epic) story) \<and>
     (\<forall>c\<in>set SUITE_CLASSES. sc_applicable c \<longrightarrow>
        (\<exists>test\<in>set (candidate_ids (Some epics) c). stands (automatedTestIds repository) (Some directory) test))"
  using dod_ok [of epics "automatedTestIds repository" "Some directory"] strategy_ok [of "Some epics" "automatedTestIds repository" "Some directory"]
  by (auto simp: check_pipeline_controls_def runStoryDefinitionOfDoneCheck_def runTestStrategyCheck_def Let_def)

section \<open>A run of the gates\<close>

definition example_ids :: string where
  "example_ids = ''TC-U, TC-I, TC-C, TC-F, TC-S, TC-PLATFORM-MONEY-GOLDEN-01, TC-017-03-01''"

definition example_repository :: "fs_entry list" where
  "example_repository = [Fs_dir ''tests'' [Fs_file ''all.test.ts'' (''test('' @ [DQ] @ example_ids @ '' hold'' @ [DQ])]]"

definition example_reports :: "(string \<times> string) list" where
  "example_reports = [(''unit.tap'', ''ok 1 - '' @ example_ids @ '' hold'')]"

definition example_roadmap :: roadmap where
  "example_roadmap = [\<lparr>re_id = ''SUB-E001'', re_stories = [\<lparr>rs_id = ''US-1'', rs_implementation = Some ''implemented'',
     rs_tests = map (\<lambda>(i, t). \<lparr>rt_id = i, rt_status = ''passing'', rt_type = t\<rparr>)
       [(''TC-U'', ''unit''), (''TC-I'', ''integration''), (''TC-C'', ''contract''), (''TC-F'', ''chaos''), (''TC-S'', ''security'')],
     rs_reconciliationRationale = None\<rparr>]\<rparr>]"

lemmas inventory_simps = titled.simps ids_in_def split_runs.simps TEST_ID_def is_space_def is_digit_def is_id_char_def is_separator_def is_upper_def
  is_lower_def is_word_char_def is_quote_def less_eq_char_def

lemma example_captured:
  "titled (example_ids @ '' hold'') = (example_ids @ '' '', ''hold'')"
  "titled (example_ids @ '' hold'' @ [DQ]) = (example_ids @ '' '', ''hold'' @ [DQ])"
  by (simp_all add: example_ids_def inventory_simps)

lemma example_split: "ids_in (example_ids @ '' '') = [''TC-U'', ''TC-I'', ''TC-C'', ''TC-F'', ''TC-S'', ''TC-PLATFORM-MONEY-GOLDEN-01'', ''TC-017-03-01'']"
  by (simp add: example_ids_def inventory_simps)

abbreviation example_automated :: "string set" where
  "example_automated \<equiv> {''TC-U'', ''TC-I'', ''TC-C'', ''TC-F'', ''TC-S'', ''TC-PLATFORM-MONEY-GOLDEN-01'', ''TC-017-03-01''}"

lemma example_titled: "titles False (''test('' @ [DQ] @ example_ids @ '' hold'' @ [DQ]) = [example_ids @ '' '']"
proof -
  have "title_match (''test('' @ [DQ] @ example_ids @ '' hold'' @ [DQ]) = Some (example_ids @ '' '', ''hold'' @ [DQ])"
    using example_captured(2) by (simp add: title_match_def is_quote_def is_space_def DQ_def example_ids_def)
  moreover have "titles (is_word_char (last (example_ids @ '' ''))) (''hold'' @ [DQ]) = []"
    by (simp add: title_match_def is_word_char_def is_lower_def is_upper_def is_digit_def less_eq_char_def DQ_def)
  ultimately show ?thesis by (simp add: titles.simps)
qed

lemma example_automated: "automatedTestIds example_repository = example_automated"
  using example_titled by (simp add: automatedTestIds_def example_repository_def LAYERS_def ends_with_def example_split)

lemma example_reported:
  "i \<in> example_automated \<Longrightarrow> \<exists>l\<in>set (report_lines example_reports). reports True i l"
  "\<not> (\<exists>l\<in>set (report_lines example_reports). reports False i l)"
proof -
  have lines: "report_lines example_reports = [''ok 1 - '' @ example_ids @ '' hold'']"
    by (simp add: report_lines_def example_reports_def ends_with_def example_ids_def NL_def)
  have "tap_title ('' 1 - '' @ example_ids @ '' hold'') = example_ids @ '' ''"
    using example_captured(1) by (simp add: tap_title_def is_digit_def less_eq_char_def)
  then have "tap_line (''ok 1 - '' @ example_ids @ '' hold'') = Some (True, ids_in (example_ids @ '' ''))"
    by (simp add: tap_line_def tap_verdict_def is_space_def example_ids_def)
  then show "i \<in> example_automated \<Longrightarrow> \<exists>l\<in>set (report_lines example_reports). reports True i l"
    "\<not> (\<exists>l\<in>set (report_lines example_reports). reports False i l)"
    unfolding lines reports_def example_split by simp_all
qed

lemma example_stands: "i \<in> example_automated \<Longrightarrow> stands (automatedTestIds example_repository) (Some example_reports) i"
  using example_reported by (simp add: stands_def example_automated)

lemma example_candidates:
  assumes "c \<in> set SUITE_CLASSES" "sc_applicable c"
  shows "\<exists>test\<in>set (candidate_ids (Some example_roadmap) c). test \<in> example_automated"
proof -
  have "list_all (\<lambda>c. sc_applicable c \<longrightarrow> list_ex (\<lambda>t. t \<in> example_automated) (candidate_ids (Some example_roadmap) c)) SUITE_CLASSES"
    by (simp add: SUITE_CLASSES_def candidate_ids_def passing_of_type_def example_roadmap_def)
  then show ?thesis using assms by (simp add: list_all_iff list_ex_iff)
qed

lemma example_done:
  assumes "epic \<in> set example_roadmap" "story \<in> set (re_stories epic)"
  shows "story_done (automatedTestIds example_repository) (Some example_reports) (set FINANCIALLY_MATERIAL_EPICS) (re_id epic) story"
  using assms by (simp add: story_done_def example_roadmap_def FINANCIALLY_MATERIAL_EPICS_def example_stands)

theorem pipeline_controls_exact_witness: "check_pipeline_controls example_repository example_roadmap example_reports = Inr ()"
  unfolding pipeline_controls_exact using example_candidates example_stands example_done by meson

definition example_inputs :: evidence_inputs where
  "example_inputs = \<lparr>ei_repository = example_repository, ei_exists = (\<lambda>path. path = ''platform/money''), ei_roadmap = example_roadmap,
     ei_generatedTestIds = Some {''TC-017-03-01''},
     ei_statusOverlay = Some [\<lparr>ov_testId = Some ''TC-017-03-01'', ov_status = Some ''passing'', ov_summary = Some ''isolation is tested for every table'',
       ov_reviewedAt = Some ''2026-09-25''\<rparr>],
     ei_evidenceOverlay = Some [\<lparr>ev_requirementId = Some ''MSR-1'', ev_summary = Some ''money is exact in every operation'', ev_reviewedAt = Some ''2026-09-25'',
       ev_code = [''platform/money'']\<rparr>]\<rparr>"

definition example_register :: "register_entry list" where
  "example_register = [\<lparr>rq_id = ''MSR-1'', rq_disposition = ''accepted'', rq_testIds = [''TC-U'', ''TC-017-03-01'']\<rparr>]"

lemma example_passed: "i \<in> example_automated \<Longrightarrow> passed_in (Some (tapResults example_reports)) i"
  using example_stands [of i] stands_iff [of i "automatedTestIds example_repository" "Some example_reports"] by simp

lemma example_statuses:
  "roadmapTestStatuses example_roadmap (Some {''TC-017-03-01''}) (ei_statusOverlay example_inputs) example_automated (Some (tapResults example_reports)) =
     Inr (roadmap_statuses example_roadmap ++ [''TC-017-03-01'' \<mapsto> ''passing''])"
  by (simp add: roadmapTestStatuses_def loadSpecificationTestStatus_def example_inputs_def overlay_step_def overlay_failures_def fail_unless_def
      VALID_STATUSES_def is_summary_def dated_def is_date_def is_digit_def is_space_def trim_def less_eq_char_def example_passed)

lemma example_evidence:
  "loadImplementationEvidence example_inputs example_register (Some example_reports) =
     Inr [''MSR-1'' \<mapsto> evidence_refs [''platform/money''] [''TC-U'', ''TC-017-03-01'']]"
proof -
  let ?statuses = "roadmap_statuses example_roadmap ++ [''TC-017-03-01'' \<mapsto> ''passing'']"
  have statuses: "?statuses ''TC-U'' = Some ''passing''" "?statuses ''TC-017-03-01'' = Some ''passing''"
    by (simp_all add: roadmap_statuses_def example_roadmap_def)
  have "foldl (evidence_step (\<lambda>path. path = ''platform/money'') (requirements_by_id example_register) ?statuses example_automated (Some (tapResults example_reports)))
      ([], Map.empty) (the (ei_evidenceOverlay example_inputs)) = ([], [''MSR-1'' \<mapsto> evidence_refs [''platform/money''] [''TC-U'', ''TC-017-03-01'']])"
    by (simp add: example_inputs_def evidence_step_def requirements_by_id_def example_register_def evidence_failures_def evidence_test_failures_def fail_unless_def
        statuses is_summary_def dated_def is_date_def is_digit_def is_space_def trim_def less_eq_char_def example_passed del: map_add_upd map_add_empty)
  then show ?thesis
    using example_statuses by (simp add: loadImplementationEvidence_def example_inputs_def example_automated)
qed

theorem evidence_rests_on_tests_witness:
  "\<exists>r\<in>set example_register. rq_id r = ''MSR-1'' \<and> (\<forall>test\<in>set (rq_testIds r). test \<in> automatedTestIds example_repository \<and>
     (\<exists>l\<in>set (report_lines example_reports). reports True test l))"
proof -
  have "ei_repository example_inputs = example_repository" by (simp add: example_inputs_def)
  then show ?thesis using evidence_rests_on_tests [OF example_evidence, of "''MSR-1''"] by (auto simp del: list.inject)
qed

end
