(* ===== verification/Backlog.thy ===== *)
theory Backlog
  imports Delivery_Gates "HOL-Library.Multiset"
begin

text \<open>
  The backlog generator \<open>tools/backlog/generate-jira-backlog.mjs\<close>, from the requirement register to the stories: which candidates are
  delivery requirements, their epic, phase and normalized statement, the stories of at most ten requirements generated for a section,
  the status overlay, the mappings of every requirement, and the criteria added to the stories of the roadmap.

  A requirement object that the loops share and update is an index into the list of normalized requirements. The key
  \<open>epic|section\<close> of a group is the pair. Files are arguments, as in the delivery gates.

  The theorems say that every accepted requirement is delivered: by existing stories, criteria and tests, exactly one of each when it
  was not mapped by hand.
\<close>

section \<open>Model: requirements\<close>

record requirement =
  br_id :: string
  br_statement :: string
  br_atomicStatement :: "string option"
  br_type :: string
  br_horizon :: string
  br_validationStatus :: string
  br_disposition :: string
  br_atomicityStatus :: string
  br_implementationPhase :: string
  br_sectionNumber :: nat
  br_sectionTitle :: string
  br_line :: nat
  br_form :: string
  br_epicIds :: "string list"
  br_storyIds :: "string list"
  br_testIds :: "string list"
  br_implementationEvidence :: "string list"

definition SECTION_EPICS :: "(string \<times> nat list) list" where
  "SECTION_EPICS =
    [(''SUB-E001'', [1, 2, 3, 54, 55, 56, 58, 59, 64, 68, 70, 73, 74, 77, 78, 79, 83, 85, 86, 87, 88, 89, 90, 91, 93, 94, 99, 100, 101, 103, 105, 106]),
     (''SUB-E002'', [61, 62, 82]), (''SUB-E003'', [67, 95]), (''SUB-E004'', [5, 9, 10]), (''SUB-E005'', [4, 6, 7, 36, 50, 98]),
     (''SUB-E006'', [8, 11]), (''SUB-E007'', [14, 15, 38]), (''SUB-E008'', [16, 17, 18, 96]),
     (''SUB-E009'', [19, 20, 21, 22, 26, 27, 28, 29, 30, 46]), (''SUB-E010'', [31, 32, 33, 34, 35, 63]), (''SUB-E011'', [12, 13]),
     (''SUB-E012'', [23, 24, 25, 45, 66, 97]), (''SUB-E013'', []), (''SUB-E014'', [65, 69, 71, 72, 104]), (''SUB-E015'', [44, 47, 48, 49]),
     (''SUB-E016'', [37, 42, 51, 52, 53, 75, 76, 84, 92]), (''SUB-E017'', [39, 40, 41, 43, 57, 60, 80, 81])]"

text \<open>\<open>Map.set\<close> of every number in turn: the last epic that names a section wins.\<close>

definition sectionEpic :: "nat \<rightharpoonup> string" where
  "sectionEpic = map_of (rev (concat (map (\<lambda>(epicId, numbers). map (\<lambda>n. (n, epicId)) numbers) SECTION_EPICS)))"

definition personas :: "string \<rightharpoonup> string" where
  "personas = map_of
    [(''SUB-E001'', ''Platform Product Owner''), (''SUB-E002'', ''Security Administrator''), (''SUB-E003'', ''Customer Operations Manager''),
     (''SUB-E004'', ''Product Manager''), (''SUB-E005'', ''Pricing Manager''), (''SUB-E006'', ''Subscription Administrator''),
     (''SUB-E007'', ''Billing Administrator''), (''SUB-E008'', ''Accounts Receivable Manager''), (''SUB-E009'', ''Payments Operations Manager''),
     (''SUB-E010'', ''Subscriber''), (''SUB-E011'', ''Usage Operations Manager''), (''SUB-E012'', ''Collections Manager''),
     (''SUB-E013'', ''Communications Administrator''), (''SUB-E014'', ''Revenue Analyst''), (''SUB-E015'', ''Revenue Operations Manager''),
     (''SUB-E016'', ''Integration Administrator''), (''SUB-E017'', ''Finance Controller'')]"

definition phaseFor :: "nat \<Rightarrow> string \<Rightarrow> string" where
  "phaseFor n horizon =
     (if horizon = ''Release 2'' \<or> horizon = ''Enterprise'' then horizon
      else if n \<in> set [58, 59, 60, 61, 62, 77, 78, 79, 80, 81, 82, 83, 90, 91, 92, 93, 99, 100, 101, 103] then ''Phase 0''
      else if 4 \<le> n \<and> n \<le> 11 \<or> n = 36 then ''Phase 1''
      else if 12 \<le> n \<and> n \<le> 18 then ''Phase 2''
      else if 19 \<le> n \<and> n \<le> 22 \<or> n = 46 then ''Phase 3''
      else if 23 \<le> n \<and> n \<le> 35 \<or> n = 45 then ''Phase 4''
      else if 47 \<le> n \<and> n \<le> 57 \<or> 63 \<le> n \<and> n \<le> 76 \<or> n = 84 then ''Phase 5''
      else if 37 \<le> n \<and> n \<le> 44 then ''Release 2''
      else if n = 86 \<or> n = 87 then ''MVP''
      else if n = 88 then ''Release 2''
      else if n = 89 then ''Enterprise''
      else ''Cross-horizon'')"

definition lowercase :: "string \<Rightarrow> string" where
  "lowercase s = map lower_char s"

definition starts_with :: "string \<Rightarrow> string \<Rightarrow> bool" where
  "starts_with p s \<longleftrightarrow> take (length p) s = p"

text \<open>The last pattern of \<open>isParentContext\<close> ignores case; its optional plural needs no entry of its own.\<close>

definition CONTEXT_STARTS :: "string list" where
  "CONTEXT_STARTS = [''support'', ''include'', ''example'', ''record'', ''model'', ''predict'', ''detect'', ''prevent'', ''provide'', ''done means'', ''optimize'', ''create delivery backlog'']"

definition isParentContext :: "requirement \<Rightarrow> bool" where
  "isParentContext r =
     (let v = trim (br_statement r) in
      if br_validationStatus r = ''validated'' then br_disposition r = ''parent_context''
      else if br_sectionNumber r = 0 then True
      else if \<not> ends_with '':'' v then False
      else if length (split_runs is_space v) \<le> 16 then True
      else list_ex (\<lambda>p. starts_with p (lowercase v)) CONTEXT_STARTS)"

definition ensurePeriod :: "string \<Rightarrow> string" where
  "ensurePeriod v =
     (let clean = rev (dropWhile (\<lambda>c. c = CHR '';'' \<or> c = CHR '','') (rev (trim v))) in
      if clean \<noteq> [] \<and> last clean \<in> {CHR ''.'', CHR ''!'', CHR ''?''} then clean else clean @ ''.'')"

definition normalizeAtomicStatement :: "requirement \<Rightarrow> string" where
  "normalizeAtomicStatement r =
     (let statement = trim (br_statement r); section = br_sectionNumber r in
      case (if br_validationStatus r = ''validated'' then br_atomicStatement r else None) of
        Some (c # cs) \<Rightarrow> ensurePeriod (c # cs)
      | _ \<Rightarrow>
        if br_form r = ''bullet'' \<or> br_form r = ''numbered_item'' then
          ensurePeriod
            (if section = 86 \<or> section = 87 then ''The MVP must include '' @ statement
             else if section = 88 then ''The second release must include '' @ statement
             else if section = 89 then ''The enterprise release must include '' @ statement
             else if section = 99 then ''The automated quality strategy must include '' @ statement
             else if section = 102 then ''The implementation backlog must include '' @ statement
             else if section = 103 then statement @ '' must be evidenced before a story is complete''
             else if section = 106 then ''The pre-production deliverable set must include '' @ statement
             else ''The platform must support '' @ statement @ '' within '' @ lowercase (br_sectionTitle r))
        else if br_form r = ''table_row''
        then ensurePeriod (''The platform must implement this '' @ lowercase (br_sectionTitle r) @ '' catalogue entry: '' @ statement)
        else if br_form r = ''contextual_prose''
        then ensurePeriod (''Product and implementation decisions must conform to this master-specification constraint: '' @ statement)
        else ensurePeriod statement)"

definition TEST_TYPES :: "string \<rightharpoonup> string" where
  "TEST_TYPES = map_of
    [(''non_functional'', ''performance''), (''release_scope'', ''scope''), (''architecture'', ''architecture''), (''data'', ''integration''), (''api'', ''contract''),
     (''event'', ''contract''), (''ux'', ''e2e''), (''quality'', ''pipeline''), (''invariant'', ''invariant''), (''delivery_process'', ''governance''),
     (''epic_scope'', ''traceability''), (''metric'', ''reconciliation''), (''principle'', ''product_review''), (''functional'', ''acceptance'')]"

definition testTypeFor :: "requirement \<Rightarrow> string" where
  "testTypeFor r = (case TEST_TYPES (br_type r) of None \<Rightarrow> ''acceptance'' | Some t \<Rightarrow> t)"

record normalized_requirement =
  n_requirement :: requirement
  normalizedAtomicStatement :: string
  normalizedDisposition :: string
  normalizedEpicIds :: "string list"
  n_implementationPhase :: string
  n_curated :: bool
  assignedStoryIds :: "string list"
  assignedAcceptanceCriteriaIds :: "string list"
  assignedTestIds :: "string list"

abbreviation n_id :: "normalized_requirement \<Rightarrow> string" where
  "n_id n \<equiv> br_id (n_requirement n)"

definition normalize_requirement :: "requirement \<Rightarrow> normalized_requirement" where
  "normalize_requirement r =
     (let curated = (br_validationStatus r = ''validated'');
          disposition = (if isParentContext r then ''parent_context'' else if curated then br_disposition r else ''accepted'');
          epicIds = (if disposition = ''accepted''
            then if curated \<and> br_epicIds r \<noteq> [] then br_epicIds r
                 else [case sectionEpic (br_sectionNumber r) of None \<Rightarrow> ''SUB-E001'' | Some e \<Rightarrow> e]
            else [])
      in \<lparr>n_requirement = r, normalizedAtomicStatement = normalizeAtomicStatement r, normalizedDisposition = disposition, normalizedEpicIds = epicIds,
          n_implementationPhase = (if curated then br_implementationPhase r else phaseFor (br_sectionNumber r) (br_horizon r)), n_curated = curated,
          assignedStoryIds = [], assignedAcceptanceCriteriaIds = [], assignedTestIds = []\<rparr>)"

section \<open>Model: grouping\<close>

definition accepted :: "normalized_requirement \<Rightarrow> bool" where
  "accepted n \<longleftrightarrow> normalizedDisposition n = ''accepted''"

definition mapped_by_hand :: "normalized_requirement \<Rightarrow> bool" where
  "mapped_by_hand n \<longleftrightarrow> accepted n \<and> n_curated n \<and> br_storyIds (n_requirement n) \<noteq> [] \<and> br_testIds (n_requirement n) \<noteq> []"

definition assign_mapped :: "normalized_requirement \<Rightarrow> normalized_requirement" where
  "assign_mapped n = (if mapped_by_hand n
     then n\<lparr>assignedStoryIds := br_storyIds (n_requirement n), assignedTestIds := br_testIds (n_requirement n)\<rparr> else n)"

definition is_pending :: "normalized_requirement \<Rightarrow> bool" where
  "is_pending n \<longleftrightarrow> accepted n \<and> \<not> mapped_by_hand n"

definition section_key :: "normalized_requirement \<Rightarrow> string \<times> nat" where
  "section_key n = (hd (normalizedEpicIds n), br_sectionNumber (n_requirement n))"

text \<open>A \<open>Map\<close> of arrays keeps its keys in the order of their first insertion.\<close>

fun group_push :: "'k \<Rightarrow> 'v \<Rightarrow> ('k \<times> 'v list) list \<Rightarrow> ('k \<times> 'v list) list" where
  "group_push k v [] = [(k, [v])]"
| "group_push k v ((k', vs) # gs) = (if k' = k then (k', vs @ [v]) # gs else (k', vs) # group_push k v gs)"

definition pendingBySection :: "normalized_requirement list \<Rightarrow> ((string \<times> nat) \<times> nat list) list" where
  "pendingBySection ns = foldl (\<lambda>gs i. group_push (section_key (ns ! i)) i gs) [] (filter (\<lambda>i. is_pending (ns ! i)) [0..<length ns])"

section \<open>Model: generated stories\<close>

record story_test =
  te_id :: string
  te_name :: string
  te_type :: string
  te_status :: string
  te_requirementIds :: "string list option"

record criterion =
  cr_id :: string
  cr_statement :: string
  cr_requirementIds :: "string list"
  cr_testIds :: "string list"

record story =
  bs_id :: string
  bs_title :: string
  bs_persona :: "string option"
  bs_phase :: string
  bs_backlog :: "string list"
  bs_implementation :: "string option"
  bs_progress :: "int option"
  bs_notes :: string
  bs_description :: "string option"
  bs_acceptance :: "string list"
  bs_acceptanceCriteria :: "criterion list"
  bs_tests :: "story_test list"
  bs_requirementIds :: "string list"
  bs_epicId :: string
  bs_sourceSection :: "nat option"

definition padStart :: "nat \<Rightarrow> nat \<Rightarrow> string" where
  "padStart width n = (let s = nat_str n in replicate (width - length s) (CHR ''0'') @ s)"

definition strip_prefix :: "string \<Rightarrow> string \<Rightarrow> string" where
  "strip_prefix p s = (if starts_with p s then drop (length p) s else s)"

definition SECT :: char where "SECT = CHR 0xA7"

record chunk_info =
  ch_epicId :: string
  ch_sectionNumber :: nat
  ch_sequence :: nat
  ch_members :: "nat list"

text \<open>\<open>requirements.slice(offset, offset + 10)\<close> for the offsets 0, 10, and so on.\<close>

function slices :: "nat \<Rightarrow> 'a list \<Rightarrow> 'a list list" where
  "slices n xs = (if n = 0 \<or> xs = [] then [] else take n xs # slices n (drop n xs))"
  by pat_completeness auto

termination slices
  by (relation "measure (length \<circ> snd)") (auto simp: length_greater_0_conv [symmetric] simp del: length_greater_0_conv)

declare slices.simps [simp del]

definition section_chunks :: "(string \<times> nat) \<times> nat list \<Rightarrow> chunk_info list" where
  "section_chunks g = (case g of ((epicId, sectionNumber), members) \<Rightarrow>
     map (\<lambda>(k, slice). \<lparr>ch_epicId = epicId, ch_sectionNumber = sectionNumber, ch_sequence = k + 1, ch_members = slice\<rparr>)
       (enumerate 0 (slices 10 members)))"

definition chunk_storyId :: "chunk_info \<Rightarrow> string" where
  "chunk_storyId c = ''US-MSR-'' @ padStart 3 (ch_sectionNumber c) @ ''-'' @ padStart 2 (ch_sequence c)"

definition criterion_id :: "string \<Rightarrow> nat \<Rightarrow> string" where
  "criterion_id storyId index = ''AC-'' @ strip_prefix ''US-'' storyId @ ''-'' @ padStart 2 (index + 1)"

definition requirement_criterion_id :: "string \<Rightarrow> string \<Rightarrow> string" where
  "requirement_criterion_id storyId requirementId = ''AC-'' @ strip_prefix ''US-'' storyId @ ''-REQ-'' @ strip_prefix ''MSR-'' requirementId"

definition section_title :: "(nat \<times> string) list \<Rightarrow> nat \<Rightarrow> string" where
  "section_title sections n = (case find (\<lambda>(number, title). number = n) sections of None \<Rightarrow> ''Specification preamble'' | Some (_, title) \<Rightarrow> title)"

definition persona_text :: "string \<Rightarrow> string" where
  "persona_text epicId = (case personas epicId of None \<Rightarrow> ''undefined'' | Some p \<Rightarrow> p)"

definition generated_test :: "normalized_requirement \<Rightarrow> story_test" where
  "generated_test n = \<lparr>te_id = ''TC-'' @ n_id n, te_name = ''Verify '' @ normalizedAtomicStatement n, te_type = testTypeFor (n_requirement n),
     te_status = ''not_run'', te_requirementIds = Some [n_id n]\<rparr>"

definition generated_criterion :: "string \<Rightarrow> nat \<Rightarrow> normalized_requirement \<Rightarrow> criterion" where
  "generated_criterion storyId index n = \<lparr>cr_id = criterion_id storyId index, cr_statement = normalizedAtomicStatement n,
     cr_requirementIds = [n_id n], cr_testIds = [''TC-'' @ n_id n]\<rparr>"

definition traced_text :: "string \<Rightarrow> string \<Rightarrow> string" where
  "traced_text requirementId statement = ''['' @ requirementId @ ''] '' @ statement"

definition generated_story :: "(nat \<times> string) list \<Rightarrow> chunk_info \<Rightarrow> normalized_requirement list \<Rightarrow> story" where
  "generated_story sections c members =
     (let title = section_title sections (ch_sectionNumber c); storyId = chunk_storyId c in
      \<lparr>bs_id = storyId, bs_title = title @ '': requirement set '' @ padStart 2 (ch_sequence c), bs_persona = personas (ch_epicId c),
       bs_phase = n_implementationPhase (hd members), bs_backlog = [''MSR-SECTION-'' @ padStart 3 (ch_sectionNumber c)],
       bs_implementation = Some ''not_started'', bs_progress = Some 0,
       bs_notes = ''Generated from master specification '' @ [SECT] @ nat_str (ch_sectionNumber c) @ ''; each criterion retains its source requirement ID.'',
       bs_description = Some (''As a '' @ persona_text (ch_epicId c) @ '', I want the '' @ lowercase title @
         '' requirements delivered, so that the platform conforms to the traced master product specification.''),
       bs_acceptance = map (\<lambda>n. traced_text (n_id n) (normalizedAtomicStatement n)) members,
       bs_acceptanceCriteria = map (\<lambda>(k, n). generated_criterion storyId k n) (enumerate 0 members),
       bs_tests = map generated_test members, bs_requirementIds = map n_id members, bs_epicId = ch_epicId c,
       bs_sourceSection = Some (ch_sectionNumber c)\<rparr>)"

definition assign_generated :: "string \<Rightarrow> nat \<Rightarrow> normalized_requirement \<Rightarrow> normalized_requirement" where
  "assign_generated storyId index n =
     n\<lparr>assignedStoryIds := [storyId], assignedAcceptanceCriteriaIds := [criterion_id storyId index], assignedTestIds := [''TC-'' @ n_id n]\<rparr>"

text \<open>One story: its members are the requirements as they are, and are then assigned to it.\<close>

definition place_chunk :: "(nat \<times> string) list \<Rightarrow> normalized_requirement list \<times> story list \<Rightarrow> chunk_info \<Rightarrow> normalized_requirement list \<times> story list" where
  "place_chunk sections acc c =
     (let (ns, stories) = acc in
      (foldl (\<lambda>ns (k, i). ns[i := assign_generated (chunk_storyId c) k (ns ! i)]) ns (enumerate 0 (ch_members c)),
       stories @ [generated_story sections c (map ((!) ns) (ch_members c))]))"

definition generate_stories :: "(nat \<times> string) list \<Rightarrow> normalized_requirement list \<Rightarrow> normalized_requirement list \<times> story list" where
  "generate_stories sections ns =
     foldl (place_chunk sections) (map assign_mapped ns, []) (concat (map section_chunks (pendingBySection ns)))"

section \<open>Model: statuses, mappings and the enriched roadmap\<close>

definition overlay_test :: "(string \<rightharpoonup> string) \<Rightarrow> story_test \<Rightarrow> story_test" where
  "overlay_test statuses t = (case statuses (te_id t) of None \<Rightarrow> t | Some s \<Rightarrow> t\<lparr>te_status := s\<rparr>)"

definition overlay_story :: "(string \<rightharpoonup> string) \<Rightarrow> story \<Rightarrow> story" where
  "overlay_story statuses s = s\<lparr>bs_tests := map (overlay_test statuses) (bs_tests s)\<rparr>"

definition curated_criteria :: "normalized_requirement \<Rightarrow> normalized_requirement" where
  "curated_criteria n = (if accepted n \<and> n_curated n
     then n\<lparr>assignedAcceptanceCriteriaIds := map (\<lambda>s. requirement_criterion_id s (n_id n)) (assignedStoryIds n)\<rparr> else n)"

record requirement_mapping =
  ma_requirementId :: string
  ma_validationStatus :: string
  ma_reviewMethod :: string
  ma_disposition :: string
  ma_atomicityStatus :: string
  ma_implementationPhase :: string
  ma_epicIds :: "string list"
  ma_storyIds :: "string list"
  ma_acceptanceCriteriaIds :: "string list"
  ma_testIds :: "string list"
  ma_atomicStatement :: string
  ma_notes :: string

definition atomicity_of :: "normalized_requirement \<Rightarrow> string" where
  "atomicity_of n = (if normalizedDisposition n = ''parent_context'' then ''context_only''
     else if n_curated n then br_atomicityStatus (n_requirement n) else ''normalized_atomic'')"

definition review_of :: "normalized_requirement \<Rightarrow> string" where
  "review_of n = (if n_curated n then ''curated_review'' else ''deterministic_source_normalization'')"

definition mapping_of :: "normalized_requirement \<Rightarrow> requirement_mapping" where
  "mapping_of n =
     \<lparr>ma_requirementId = n_id n, ma_validationStatus = ''validated'', ma_reviewMethod = review_of n, ma_disposition = normalizedDisposition n,
      ma_atomicityStatus = atomicity_of n, ma_implementationPhase = n_implementationPhase n, ma_epicIds = normalizedEpicIds n,
      ma_storyIds = (if accepted n then assignedStoryIds n else []),
      ma_acceptanceCriteriaIds = (if accepted n then assignedAcceptanceCriteriaIds n else []),
      ma_testIds = (if accepted n then assignedTestIds n else []),
      ma_atomicStatement = normalizedAtomicStatement n,
      ma_notes = (if normalizedDisposition n = ''parent_context''
        then ''Parent/context statement retained as source evidence; its child candidates carry delivery mappings.''
        else ''Normalized from master specification '' @ [SECT] @ nat_str (br_sectionNumber (n_requirement n)) @ '', line '' @
          nat_str (br_line (n_requirement n)) @ ''; mapping generated without claiming implementation evidence.'')\<rparr>"

record epic =
  be_id :: string
  be_sourceId :: string
  be_name :: string
  be_phase :: string
  be_goal :: string
  be_stories :: "story list"

definition base_criteria :: "story \<Rightarrow> criterion list" where
  "base_criteria s = map (\<lambda>(k, statement). \<lparr>cr_id = criterion_id (bs_id s) k, cr_statement = statement, cr_requirementIds = [],
     cr_testIds = map te_id (bs_tests s)\<rparr>) (enumerate 0 (bs_acceptance s))"

definition traced_criteria :: "normalized_requirement list \<Rightarrow> story \<Rightarrow> criterion list" where
  "traced_criteria ns s = map (\<lambda>n. \<lparr>cr_id = requirement_criterion_id (bs_id s) (n_id n), cr_statement = normalizedAtomicStatement n,
     cr_requirementIds = [n_id n], cr_testIds = filter (\<lambda>t. list_ex (\<lambda>test. te_id test = t) (bs_tests s)) (assignedTestIds n)\<rparr>)
     (filter (\<lambda>n. bs_id s \<in> set (assignedStoryIds n)) ns)"

definition enrich_story :: "normalized_requirement list \<Rightarrow> string \<Rightarrow> story \<Rightarrow> story" where
  "enrich_story ns epicId s =
     s\<lparr>bs_epicId := epicId, bs_acceptanceCriteria := base_criteria s @ traced_criteria ns s,
       bs_acceptance := bs_acceptance s @ map (\<lambda>c. traced_text (hd (cr_requirementIds c)) (cr_statement c)) (traced_criteria ns s),
       bs_requirementIds := map n_id (filter (\<lambda>n. bs_id s \<in> set (assignedStoryIds n)) ns)\<rparr>"

record backlog =
  bl_normalized :: "normalized_requirement list"
  bl_mappings :: "requirement_mapping list"
  bl_existing :: "story list"
  bl_generated :: "story list"

abbreviation bl_allStories :: "backlog \<Rightarrow> story list" where
  "bl_allStories b \<equiv> bl_existing b @ bl_generated b"

definition unknown_stories :: "normalized_requirement list \<Rightarrow> story list \<Rightarrow> (string \<times> string) list" where
  "unknown_stories ns stories = concat (map (\<lambda>n. map (Pair (n_id n)) (filter (\<lambda>s. s \<notin> set (map bs_id stories)) (assignedStoryIds n))) (filter accepted ns))"

text \<open>The whole generation up to the backlog: the overlay is checked against the generated test IDs, and a requirement that is mapped to a
  story that does not exist stops it.\<close>

definition generate_backlog :: "(nat \<times> string) list \<Rightarrow> requirement list \<Rightarrow> epic list \<Rightarrow> fs_entry list \<Rightarrow> overlay_entry list option \<Rightarrow> string + backlog" where
  "generate_backlog sections requirements epics repository overlay =
     (let (assigned, generated) = generate_stories sections (map normalize_requirement requirements) in
      case loadSpecificationTestStatus overlay (set (concat (map (\<lambda>s. map te_id (bs_tests s)) generated))) (automatedTestIds repository) None of
        Inl e \<Rightarrow> Inl e
      | Inr statuses \<Rightarrow>
          (let ns = map curated_criteria assigned;
               existing = concat (map (\<lambda>e. map (enrich_story ns (be_id e)) (be_stories e)) epics);
               overlaid = map (overlay_story statuses) generated
           in case unknown_stories ns (existing @ overlaid) of
                (r, s) # _ \<Rightarrow> Inl (r @ '' maps to unknown story '' @ s)
              | [] \<Rightarrow> Inr \<lparr>bl_normalized = ns, bl_mappings = map mapping_of ns, bl_existing = existing, bl_generated = overlaid\<rparr>))"

section \<open>Grouping keeps every pending requirement once\<close>

lemma group_push_mset: "mset (concat (map snd (group_push k v gs))) = add_mset v (mset (concat (map snd gs)))"
  by (induction k v gs rule: group_push.induct) auto

lemma pending_mset: "mset (concat (map snd (pendingBySection ns))) = mset (filter (\<lambda>i. is_pending (ns ! i)) [0..<length ns])"
proof -
  have "mset (concat (map snd (foldl (\<lambda>gs i. group_push (section_key (ns ! i)) i gs) gs is))) = mset (concat (map snd gs)) + mset is" for gs "is"
    by (induction "is" arbitrary: gs) (simp_all add: group_push_mset)
  from this [of "[]"] show ?thesis by (simp add: pendingBySection_def)
qed

lemma concat_slices: "0 < n \<Longrightarrow> concat (slices n xs) = xs"
  by (induction n xs rule: slices.induct) (subst slices.simps, simp)

lemma slices_bounds: "s \<in> set (slices n xs) \<Longrightarrow> s \<noteq> [] \<and> length s \<le> n"
proof (induction n xs rule: slices.induct)
  case (1 n xs)
  show ?case
  proof (cases "n = 0 \<or> xs = []")
    case True
    then show ?thesis using "1.prems" slices.simps [of n xs] by simp
  next
    case False
    then have "s = take n xs \<or> s \<in> set (slices n (drop n xs))" using "1.prems" slices.simps [of n xs] by simp
    then show ?thesis using "1.IH" [OF False] False by auto
  qed
qed

lemma section_chunks_members: "map ch_members (section_chunks g) = slices 10 (snd g)"
  by (cases g) (auto simp: section_chunks_def o_def case_prod_beta)

lemma chunks_of_group:
  "concat (map ch_members (section_chunks g)) = snd g"
  "c \<in> set (section_chunks g) \<Longrightarrow> ch_members c \<noteq> [] \<and> length (ch_members c) \<le> 10"
proof -
  show "concat (map ch_members (section_chunks g)) = snd g" unfolding section_chunks_members by (simp add: concat_slices)
  assume "c \<in> set (section_chunks g)"
  then have "ch_members c \<in> set (map ch_members (section_chunks g))" by simp
  then show "ch_members c \<noteq> [] \<and> length (ch_members c) \<le> 10" unfolding section_chunks_members by (rule slices_bounds)
qed

abbreviation all_chunks :: "normalized_requirement list \<Rightarrow> chunk_info list" where
  "all_chunks ns \<equiv> concat (map section_chunks (pendingBySection ns))"

lemma all_chunks_members: "concat (map ch_members (all_chunks ns)) = concat (map snd (pendingBySection ns))"
proof -
  have "concat (map ch_members (concat (map section_chunks gs))) = concat (map snd gs)" for gs
    by (induction gs) (simp_all add: chunks_of_group(1))
  then show ?thesis .
qed

lemma all_chunks_mset: "mset (concat (map ch_members (all_chunks ns))) = mset (filter (\<lambda>i. is_pending (ns ! i)) [0..<length ns])"
  unfolding all_chunks_members by (rule pending_mset)

lemma all_chunks_distinct: "distinct (concat (map ch_members (all_chunks ns)))"
  using mset_eq_imp_distinct_iff [OF all_chunks_mset [of ns]] by simp

lemma all_chunks_set: "set (concat (map ch_members (all_chunks ns))) = {i. i < length ns \<and> is_pending (ns ! i)}"
  using mset_eq_setD [OF all_chunks_mset [of ns]] by auto

lemma in_concat_members:
  assumes "i \<in> set (concat (map ch_members cs))" obtains c where "c \<in> set cs" "i \<in> set (ch_members c)"
  using assms by (induction cs) auto

section \<open>Placing the chunks\<close>

abbreviation assign_members :: "string \<Rightarrow> normalized_requirement list \<Rightarrow> (nat \<times> nat) list \<Rightarrow> normalized_requirement list" where
  "assign_members storyId \<equiv> foldl (\<lambda>ns (k, i). ns[i := assign_generated storyId k (ns ! i)])"

lemma assign_members_length [simp]: "length (assign_members storyId ns ks) = length ns"
  by (induction ks arbitrary: ns) auto

lemma assign_members_other: "i \<notin> snd ` set ks \<Longrightarrow> assign_members storyId ns ks ! i = ns ! i"
  by (induction ks arbitrary: ns) (auto simp: image_iff nth_list_update)

lemma snd_set_enumerate: "snd ` set (enumerate m xs) = set xs"
  by (metis list.set_map map_snd_enumerate)

lemma assign_members_at:
  assumes "distinct is" "\<forall>i\<in>set is. i < length ns" "k < length is"
  shows "assign_members storyId ns (enumerate m is) ! (is ! k) = assign_generated storyId (m + k) (ns ! (is ! k))"
  using assms
proof (induction "is" arbitrary: m ns k)
  case (Cons i "is")
  let ?ns = "ns[i := assign_generated storyId m (ns ! i)]"
  show ?case
  proof (cases k)
    case 0
    have "i \<notin> snd ` set (enumerate (Suc m) is)" using Cons.prems(1) by (simp only: snd_set_enumerate distinct.simps) simp
    then show ?thesis using 0 Cons.prems(2) by (simp add: assign_members_other)
  next
    case (Suc j)
    then have "is ! j \<noteq> i" using Cons.prems by (auto simp: in_set_conv_nth)
    then show ?thesis using Suc Cons.IH [of ?ns j "Suc m"] Cons.prems by simp
  qed
qed simp

lemma place_all:
  assumes "distinct (concat (map ch_members cs))" "\<forall>i\<in>set (concat (map ch_members cs)). i < length ns"
  shows "\<exists>ns'. foldl (place_chunk sections) (ns, stories) cs = (ns', stories @ map (\<lambda>c. generated_story sections c (map ((!) ns) (ch_members c))) cs) \<and>
    length ns' = length ns \<and> (\<forall>i. i \<notin> set (concat (map ch_members cs)) \<longrightarrow> ns' ! i = ns ! i) \<and>
    (\<forall>c\<in>set cs. \<forall>k<length (ch_members c). ns' ! (ch_members c ! k) = assign_generated (chunk_storyId c) k (ns ! (ch_members c ! k)))"
  using assms
proof (induction cs arbitrary: ns stories)
  case (Cons c cs)
  let ?ns = "assign_members (chunk_storyId c) ns (enumerate 0 (ch_members c))"
  let ?st = "stories @ [generated_story sections c (map ((!) ns) (ch_members c))]"
  have step: "place_chunk sections (ns, stories) c = (?ns, ?st)" by (simp add: place_chunk_def)
  have other: "?ns ! i = ns ! i" if "i \<notin> set (ch_members c)" for i
    by (rule assign_members_other) (use that in \<open>simp only: snd_set_enumerate; simp\<close>)
  have dist: "distinct (concat (map ch_members cs))" "set (ch_members c) \<inter> set (concat (map ch_members cs)) = {}" "distinct (ch_members c)"
    using Cons.prems(1) by (simp_all add: distinct_append)
  obtain ns' where ns': "foldl (place_chunk sections) (?ns, ?st) cs = (ns', ?st @ map (\<lambda>c. generated_story sections c (map ((!) ?ns) (ch_members c))) cs)"
    "length ns' = length ?ns" "\<forall>i. i \<notin> set (concat (map ch_members cs)) \<longrightarrow> ns' ! i = ?ns ! i"
    "\<forall>d\<in>set cs. \<forall>k<length (ch_members d). ns' ! (ch_members d ! k) = assign_generated (chunk_storyId d) k (?ns ! (ch_members d ! k))"
  proof -
    have "\<forall>i\<in>set (concat (map ch_members cs)). i < length ?ns" using Cons.prems(2) by simp
    from Cons.IH [OF dist(1) this, of ?st] show ?thesis by (elim exE conjE) (rule that; assumption)
  qed
  have later: "i \<notin> set (ch_members c)" if "d \<in> set cs" "i \<in> set (ch_members d)" for d i using dist(2) that by auto
  have same: "map ((!) ?ns) (ch_members d) = map ((!) ns) (ch_members d)" if "d \<in> set cs" for d
    using later [OF that] other by (intro map_cong) auto
  have at_c: "ns' ! (ch_members c ! k) = assign_generated (chunk_storyId c) k (ns ! (ch_members c ! k))" if k: "k < length (ch_members c)" for k
  proof -
    have "ch_members c ! k \<notin> set (concat (map ch_members cs))" using dist(2) k nth_mem by blast
    then have "ns' ! (ch_members c ! k) = ?ns ! (ch_members c ! k)" using ns'(3) by blast
    then show ?thesis using assign_members_at [of "ch_members c" ns k "chunk_storyId c" 0] dist(3) k Cons.prems(2) by simp
  qed
  have at_d: "ns' ! (ch_members d ! k) = assign_generated (chunk_storyId d) k (ns ! (ch_members d ! k))" if "d \<in> set cs" "k < length (ch_members d)" for d k
    using ns'(4) that other [OF later [OF that(1)]] by simp
  have stories: "map (\<lambda>d. generated_story sections d (map ((!) ?ns) (ch_members d))) cs = map (\<lambda>d. generated_story sections d (map ((!) ns) (ch_members d))) cs"
    by (intro map_cong refl arg_cong [where f = "generated_story sections _"] same)
  show ?case
  proof (intro exI [of _ ns'] conjI)
    show "foldl (place_chunk sections) (ns, stories) (c # cs) = (ns', stories @ map (\<lambda>c. generated_story sections c (map ((!) ns) (ch_members c))) (c # cs))"
      using ns'(1) unfolding stories by (simp add: step)
  qed (use ns'(2,3) other at_c at_d in auto)
qed simp

section \<open>What becomes of each requirement\<close>

lemma assign_mapped_fields [simp]:
  "n_requirement (assign_mapped n) = n_requirement n" "accepted (assign_mapped n) = accepted n" "n_curated (assign_mapped n) = n_curated n"
  "normalizedAtomicStatement (assign_mapped n) = normalizedAtomicStatement n"
  by (simp_all add: assign_mapped_def accepted_def)

lemma assign_generated_fields [simp]:
  "n_requirement (assign_generated s k n) = n_requirement n" "accepted (assign_generated s k n) = accepted n" "n_curated (assign_generated s k n) = n_curated n"
  "assignedStoryIds (assign_generated s k n) = [s]" "assignedAcceptanceCriteriaIds (assign_generated s k n) = [criterion_id s k]"
  "assignedTestIds (assign_generated s k n) = [''TC-'' @ n_id n]"
  by (simp_all add: assign_generated_def accepted_def)

lemma curated_criteria_fields [simp]:
  "n_requirement (curated_criteria n) = n_requirement n" "accepted (curated_criteria n) = accepted n" "n_curated (curated_criteria n) = n_curated n"
  "assignedStoryIds (curated_criteria n) = assignedStoryIds n" "assignedTestIds (curated_criteria n) = assignedTestIds n"
  by (simp_all add: curated_criteria_def accepted_def)

lemma pending_unmapped: "is_pending n \<Longrightarrow> assign_mapped n = n"
  by (simp add: is_pending_def assign_mapped_def)

lemma normalize_requirement_fields [simp]:
  "n_requirement (normalize_requirement r) = r" "n_curated (normalize_requirement r) \<longleftrightarrow> br_validationStatus r = ''validated''"
  by (simp_all add: normalize_requirement_def Let_def)

text \<open>A pending requirement is a member of exactly one chunk; every other one keeps what it was assigned by hand.\<close>

lemma generate_stories_spec:
  obtains ns' where
    "generate_stories sections ns = (ns', map (\<lambda>c. generated_story sections c (map ((!) ns) (ch_members c))) (all_chunks ns))"
    "length ns' = length ns"
    "\<And>i. i < length ns \<Longrightarrow> \<not> is_pending (ns ! i) \<Longrightarrow> ns' ! i = assign_mapped (ns ! i)"
    "\<And>i. i < length ns \<Longrightarrow> is_pending (ns ! i) \<Longrightarrow> \<exists>c\<in>set (all_chunks ns). \<exists>k<length (ch_members c). ch_members c ! k = i \<and>
       ns' ! i = assign_generated (chunk_storyId c) k (ns ! i)"
proof -
  let ?base = "map assign_mapped ns"
  have range: "\<forall>i\<in>set (concat (map ch_members (all_chunks ns))). i < length ?base" unfolding all_chunks_set by simp
  obtain ns' where ns': "foldl (place_chunk sections) (?base, []) (all_chunks ns) =
      (ns', [] @ map (\<lambda>c. generated_story sections c (map ((!) ?base) (ch_members c))) (all_chunks ns))"
    "length ns' = length ?base" "\<forall>i. i \<notin> set (concat (map ch_members (all_chunks ns))) \<longrightarrow> ns' ! i = ?base ! i"
    "\<forall>c\<in>set (all_chunks ns). \<forall>k<length (ch_members c). ns' ! (ch_members c ! k) = assign_generated (chunk_storyId c) k (?base ! (ch_members c ! k))"
    using place_all [OF all_chunks_distinct range, of sections "[]"] by (elim exE conjE) (rule that; assumption)
  have member: "i < length ns \<and> is_pending (ns ! i)" if "c \<in> set (all_chunks ns)" "i \<in> set (ch_members c)" for c i
  proof -
    have "i \<in> set (concat (map ch_members (all_chunks ns)))" using that by auto
    then show ?thesis unfolding all_chunks_set by simp
  qed
  have base: "?base ! i = ns ! i" if "c \<in> set (all_chunks ns)" "i \<in> set (ch_members c)" for c i
    using member [OF that] by (simp add: pending_unmapped)
  have "map ((!) ?base) (ch_members c) = map ((!) ns) (ch_members c)" if "c \<in> set (all_chunks ns)" for c
    using base [OF that] by (intro map_cong refl)
  then have stories: "map (\<lambda>c. generated_story sections c (map ((!) ?base) (ch_members c))) (all_chunks ns) =
      map (\<lambda>c. generated_story sections c (map ((!) ns) (ch_members c))) (all_chunks ns)"
    by (intro map_cong [OF refl]) (simp only:)
  show thesis
  proof (rule that)
    show "generate_stories sections ns = (ns', map (\<lambda>c. generated_story sections c (map ((!) ns) (ch_members c))) (all_chunks ns))"
      unfolding generate_stories_def ns'(1) stories by simp
    show "length ns' = length ns" using ns'(2) by simp
    fix i assume i: "i < length ns"
    show "ns' ! i = assign_mapped (ns ! i)" if "\<not> is_pending (ns ! i)"
      using ns'(3) all_chunks_set [of ns] i that by auto
    show "\<exists>c\<in>set (all_chunks ns). \<exists>k<length (ch_members c). ch_members c ! k = i \<and> ns' ! i = assign_generated (chunk_storyId c) k (ns ! i)"
      if "is_pending (ns ! i)"
    proof -
      have "i \<in> set (concat (map ch_members (all_chunks ns)))" unfolding all_chunks_set using i that by simp
      then obtain c where c: "c \<in> set (all_chunks ns)" "i \<in> set (ch_members c)" by (rule in_concat_members)
      from c(2) obtain k where k: "k < length (ch_members c)" "ch_members c ! k = i" by (auto simp: in_set_conv_nth)
      have "ns' ! i = assign_generated (chunk_storyId c) k (ns ! i)" using bspec [OF ns'(4) c(1)] k base [OF c] by metis
      then show ?thesis using k by (intro bexI [OF _ c(1)] exI [of _ k]) simp
    qed
  qed
qed

lemma generate_stories_assigned:
  assumes "generate_stories sections ns = (ns', generated)"
  shows "generated = map (\<lambda>c. generated_story sections c (map ((!) ns) (ch_members c))) (all_chunks ns)"
    "length ns' = length ns"
    "i < length ns \<Longrightarrow> \<not> is_pending (ns ! i) \<Longrightarrow> ns' ! i = assign_mapped (ns ! i)"
    "i < length ns \<Longrightarrow> is_pending (ns ! i) \<Longrightarrow> \<exists>c\<in>set (all_chunks ns). \<exists>k<length (ch_members c). ch_members c ! k = i \<and>
       ns' ! i = assign_generated (chunk_storyId c) k (ns ! i)"
  by (rule generate_stories_spec [of sections ns]; simp only: assms prod.inject; simp)+

lemma generate_backlog_Inr:
  assumes "generate_backlog sections requirements epics repository overlay = Inr b"
  obtains assigned generated statuses where
    "generate_stories sections (map normalize_requirement requirements) = (assigned, generated)"
    "bl_normalized b = map curated_criteria assigned" "bl_mappings b = map mapping_of (bl_normalized b)" "bl_generated b = map (overlay_story statuses) generated"
    "\<And>n s. n \<in> set (bl_normalized b) \<Longrightarrow> accepted n \<Longrightarrow> s \<in> set (assignedStoryIds n) \<Longrightarrow> s \<in> bs_id ` set (bl_allStories b)"
proof -
  obtain assigned generated where g: "generate_stories sections (map normalize_requirement requirements) = (assigned, generated)" by (rule prod.exhaust)
  obtain statuses where b: "unknown_stories (bl_normalized b) (bl_allStories b) = []" "bl_normalized b = map curated_criteria assigned"
    "bl_mappings b = map mapping_of (bl_normalized b)" "bl_generated b = map (overlay_story statuses) generated"
    using assms by (auto simp: generate_backlog_def g Let_def split: sum.splits list.splits)
  have "s \<in> bs_id ` set (bl_allStories b)" if "n \<in> set (bl_normalized b)" "accepted n" "s \<in> set (assignedStoryIds n)" for n s
    using b(1) that by (auto simp: unknown_stories_def filter_empty_conv)
  then show thesis using that [OF g b(2,3,4)] by blast
qed

lemma mapping_of_fields [simp]:
  "ma_requirementId (mapping_of n) = n_id n" "ma_disposition (mapping_of n) = normalizedDisposition n"
  "ma_storyIds (mapping_of n) = (if accepted n then assignedStoryIds n else [])"
  "ma_acceptanceCriteriaIds (mapping_of n) = (if accepted n then assignedAcceptanceCriteriaIds n else [])"
  "ma_testIds (mapping_of n) = (if accepted n then assignedTestIds n else [])"
  by (simp_all add: mapping_of_def)

lemma generate_stories_requirements:
  assumes "generate_stories sections (map normalize_requirement requirements) = (assigned, generated)"
  shows "length assigned = length requirements" "i < length requirements \<Longrightarrow> n_requirement (assigned ! i) = requirements ! i"
proof -
  let ?ns = "map normalize_requirement requirements"
  note ns' = generate_stories_assigned [OF assms]
  show "length assigned = length requirements" using ns'(2) by simp
  show "n_requirement (assigned ! i) = requirements ! i" if "i < length requirements"
    using ns'(3) [of i] ns'(4) [of i] that by (cases "is_pending (?ns ! i)") auto
qed

text \<open>Every accepted requirement ends with a story, a criterion and a test.\<close>

lemma requirement_assigned:
  assumes "generate_stories sections (map normalize_requirement requirements) = (assigned, generated)" "i < length requirements" "accepted (assigned ! i)"
  shows "length assigned = length requirements \<and> n_requirement (assigned ! i) = requirements ! i \<and> assignedStoryIds (assigned ! i) \<noteq> [] \<and>
    assignedTestIds (assigned ! i) \<noteq> [] \<and> assignedAcceptanceCriteriaIds (curated_criteria (assigned ! i)) \<noteq> []"
proof -
  let ?ns = "map normalize_requirement requirements"
  note ns' = generate_stories_assigned [OF assms(1)]
  show ?thesis
  proof (cases "is_pending (?ns ! i)")
    case True
    then obtain s k where "assigned ! i = assign_generated s k (?ns ! i)" using ns'(4) [of i] assms(2) by auto
    then show ?thesis using generate_stories_requirements [OF assms(1)] assms(2) by (simp add: curated_criteria_def)
  next
    case False
    then have eq: "assigned ! i = assign_mapped (?ns ! i)" using ns'(3) [of i] assms(2) by simp
    then have hand: "mapped_by_hand (?ns ! i)" using False assms(3) by (simp add: is_pending_def)
    then have "assignedStoryIds (assigned ! i) \<noteq> []" "assignedTestIds (assigned ! i) \<noteq> []" "n_curated (assigned ! i)"
      unfolding eq by (simp_all add: assign_mapped_def mapped_by_hand_def)
    then show ?thesis using generate_stories_requirements [OF assms(1)] assms(2,3) by (simp add: curated_criteria_def)
  qed
qed

lemma mappings_traced:
  assumes "generate_backlog sections requirements epics repository overlay = Inr b"
  shows "map ma_requirementId (bl_mappings b) = map br_id requirements \<and>
    (\<forall>m\<in>set (bl_mappings b).
       if ma_disposition m = ''accepted''
       then ma_storyIds m \<noteq> [] \<and> ma_acceptanceCriteriaIds m \<noteq> [] \<and> ma_testIds m \<noteq> [] \<and> set (ma_storyIds m) \<subseteq> bs_id ` set (bl_allStories b)
       else ma_storyIds m = [] \<and> ma_acceptanceCriteriaIds m = [] \<and> ma_testIds m = [])"
proof -
  obtain assigned generated statuses where g: "generate_stories sections (map normalize_requirement requirements) = (assigned, generated)"
    and b: "bl_normalized b = map curated_criteria assigned" "bl_mappings b = map mapping_of (bl_normalized b)"
    and known: "\<And>n s. n \<in> set (bl_normalized b) \<Longrightarrow> accepted n \<Longrightarrow> s \<in> set (assignedStoryIds n) \<Longrightarrow> s \<in> bs_id ` set (bl_allStories b)"
    using generate_backlog_Inr [OF assms] by metis
  note len = generate_stories_requirements(1) [OF g]
  have reqs: "n_requirement (assigned ! i) = requirements ! i" if "i < length requirements" for i
    using generate_stories_requirements(2) [OF g] that by simp
  have "map ma_requirementId (bl_mappings b) = map br_id requirements"
    using len reqs by (intro nth_equalityI) (simp_all add: b)
  moreover have "if ma_disposition m = ''accepted''
       then ma_storyIds m \<noteq> [] \<and> ma_acceptanceCriteriaIds m \<noteq> [] \<and> ma_testIds m \<noteq> [] \<and> set (ma_storyIds m) \<subseteq> bs_id ` set (bl_allStories b)
       else ma_storyIds m = [] \<and> ma_acceptanceCriteriaIds m = [] \<and> ma_testIds m = []" if m: "m \<in> set (bl_mappings b)" for m
  proof -
    obtain n where n: "n \<in> set assigned" "m = mapping_of (curated_criteria n)" using m by (auto simp: b)
    then obtain i where i: "i < length requirements" "m = mapping_of (curated_criteria (assigned ! i))"
      using len by (auto simp: in_set_conv_nth)
    let ?n = "curated_criteria (assigned ! i)"
    have mem: "?n \<in> set (bl_normalized b)" using i len by (simp add: b)
    show ?thesis
    proof (cases "accepted ?n")
      case True
      then show ?thesis using requirement_assigned [OF g i(1)] known [OF mem True] i(2) by (auto simp: accepted_def [symmetric])
    qed (simp add: i(2) accepted_def)
  qed
  ultimately show ?thesis by blast
qed

section \<open>Properties\<close>

text \<open>Every accepted requirement is traced. When the backlog is generated, there is one mapping per candidate, in order; an accepted one
  names at least one story, criterion and test, and each story it names exists in the backlog; any other candidate names none.\<close>

theorem backlog_traceable:
  assumes "generate_backlog sections requirements epics repository overlay = Inr b"
  shows "map ma_requirementId (bl_mappings b) = map br_id requirements \<and>
    (\<forall>m\<in>set (bl_mappings b).
       if ma_disposition m = ''accepted''
       then ma_storyIds m \<noteq> [] \<and> ma_acceptanceCriteriaIds m \<noteq> [] \<and> ma_testIds m \<noteq> [] \<and> set (ma_storyIds m) \<subseteq> bs_id ` set (bl_allStories b)
       else ma_storyIds m = [] \<and> ma_acceptanceCriteriaIds m = [] \<and> ma_testIds m = [])"
  using assms by (rule mappings_traced)

lemma filter_by_index: "filter P xs = map ((!) xs) (filter (\<lambda>i. P (xs ! i)) [0..<length xs])"
proof -
  have "filter P (map ((!) xs) [0..<length xs]) = map ((!) xs) (filter (P \<circ> (!) xs) [0..<length xs])" by (rule filter_map)
  then show ?thesis by (simp add: map_nth o_def)
qed

lemma overlay_test_id [simp]: "te_id (overlay_test statuses t) = te_id t"
  by (simp add: overlay_test_def split: option.splits)

lemma overlay_story_fields [simp]:
  "bs_requirementIds (overlay_story statuses s) = bs_requirementIds s" "bs_id (overlay_story statuses s) = bs_id s"
  "bs_acceptanceCriteria (overlay_story statuses s) = bs_acceptanceCriteria s" "bs_tests (overlay_story statuses s) = map (overlay_test statuses) (bs_tests s)"
  by (simp_all add: overlay_story_def)

lemma generated_story_fields [simp]:
  "bs_requirementIds (generated_story sections c members) = map n_id members" "bs_id (generated_story sections c members) = chunk_storyId c"
  "bs_acceptanceCriteria (generated_story sections c members) = map (\<lambda>(k, n). generated_criterion (chunk_storyId c) k n) (enumerate 0 members)"
  "bs_tests (generated_story sections c members) = map generated_test members"
  by (simp_all add: generated_story_def Let_def)

lemma map_enumerate_snd: "map (\<lambda>x. f (snd x)) (enumerate m xs) = map f xs"
  by (induction xs arbitrary: m) simp_all

lemma generated_by_id:
  assumes "generated = map (\<lambda>c. generated_story sections c (map ((!) (map normalize_requirement requirements)) (ch_members c))) (all_chunks (map normalize_requirement requirements))"
  shows "mset (concat (map bs_requirementIds generated)) = mset (map br_id (filter (is_pending \<circ> normalize_requirement) requirements))"
proof -
  let ?ns = "map normalize_requirement requirements"
  have "concat (map bs_requirementIds generated) = concat (map (map (\<lambda>i. n_id (?ns ! i))) (map ch_members (all_chunks ?ns)))"
    unfolding assms by (simp add: o_def)
  also have "\<dots> = map (\<lambda>i. n_id (?ns ! i)) (concat (map ch_members (all_chunks ?ns)))" by (simp only: map_concat)
  finally have "mset (concat (map bs_requirementIds generated)) = image_mset (\<lambda>i. n_id (?ns ! i)) (mset (filter (\<lambda>i. is_pending (?ns ! i)) [0..<length ?ns]))"
    by (simp only: mset_map all_chunks_mset)
  also have "\<dots> = mset (map n_id (filter is_pending ?ns))" by (subst filter_by_index [of is_pending ?ns]) (simp add: o_def)
  also have "map n_id (filter is_pending ?ns) = map br_id (filter (is_pending \<circ> normalize_requirement) requirements)"
    by (simp add: filter_map o_def)
  finally show ?thesis .
qed

text \<open>C30: the generated stories partition what was not mapped by hand. Every pending requirement is in exactly one generated story (as often as the
  register lists it); a story holds one to ten requirements, with one criterion and one test of its own for each; and the mapping
  of a requirement that nobody curated names exactly that story, that criterion and that test.\<close>

theorem generated_stories_partition:
  assumes "generate_backlog sections requirements epics repository overlay = Inr b"
  shows "mset (concat (map bs_requirementIds (bl_generated b))) = mset (map br_id (filter (is_pending \<circ> normalize_requirement) requirements)) \<and>
    (\<forall>s\<in>set (bl_generated b). 1 \<le> length (bs_requirementIds s) \<and> length (bs_requirementIds s) \<le> 10 \<and>
       map te_id (bs_tests s) = map (\<lambda>i. ''TC-'' @ i) (bs_requirementIds s) \<and>
       map (\<lambda>c. (cr_requirementIds c, cr_testIds c)) (bs_acceptanceCriteria s) = map (\<lambda>i. ([i], [''TC-'' @ i])) (bs_requirementIds s)) \<and>
    (\<forall>i<length requirements. is_pending (normalize_requirement (requirements ! i)) \<and> br_validationStatus (requirements ! i) \<noteq> ''validated'' \<longrightarrow>
       (\<exists>s\<in>set (bl_generated b). \<exists>k<length (bs_requirementIds s). bs_requirementIds s ! k = br_id (requirements ! i) \<and>
          ma_storyIds (bl_mappings b ! i) = [bs_id s] \<and> ma_acceptanceCriteriaIds (bl_mappings b ! i) = [cr_id (bs_acceptanceCriteria s ! k)] \<and>
          ma_testIds (bl_mappings b ! i) = [te_id (bs_tests s ! k)]))"
proof -
  let ?ns = "map normalize_requirement requirements"
  obtain assigned generated statuses where g: "generate_stories sections ?ns = (assigned, generated)"
    and b: "bl_normalized b = map curated_criteria assigned" "bl_mappings b = map mapping_of (bl_normalized b)" "bl_generated b = map (overlay_story statuses) generated"
    using generate_backlog_Inr [OF assms] by metis
  note a = generate_stories_assigned [OF g]
  have "mset (concat (map bs_requirementIds (bl_generated b))) = mset (map br_id (filter (is_pending \<circ> normalize_requirement) requirements))"
    using generated_by_id [OF a(1)] by (simp add: b o_def)
  moreover have "1 \<le> length (bs_requirementIds s) \<and> length (bs_requirementIds s) \<le> 10 \<and>
       map te_id (bs_tests s) = map (\<lambda>i. ''TC-'' @ i) (bs_requirementIds s) \<and>
       map (\<lambda>c. (cr_requirementIds c, cr_testIds c)) (bs_acceptanceCriteria s) = map (\<lambda>i. ([i], [''TC-'' @ i])) (bs_requirementIds s)"
    if mem: "s \<in> set (bl_generated b)" for s
  proof -
    obtain c where c: "c \<in> set (all_chunks ?ns)" and s: "s = overlay_story statuses (generated_story sections c (map ((!) ?ns) (ch_members c)))"
      using mem by (auto simp only: b a(1) set_map image_iff)
    have "ch_members c \<noteq> [] \<and> length (ch_members c) \<le> 10" using c chunks_of_group(2) by auto
    then show ?thesis unfolding s by (simp add: Suc_le_eq generated_test_def generated_criterion_def case_prod_beta o_def
      map_enumerate_snd [where f = "\<lambda>n. ([n_id n], [''TC-'' @ n_id n])", simplified])
  qed
  moreover have "\<exists>s\<in>set (bl_generated b). \<exists>k<length (bs_requirementIds s). bs_requirementIds s ! k = br_id (requirements ! i) \<and>
          ma_storyIds (bl_mappings b ! i) = [bs_id s] \<and> ma_acceptanceCriteriaIds (bl_mappings b ! i) = [cr_id (bs_acceptanceCriteria s ! k)] \<and>
          ma_testIds (bl_mappings b ! i) = [te_id (bs_tests s ! k)]"
    if i: "i < length requirements" "is_pending (normalize_requirement (requirements ! i))" "br_validationStatus (requirements ! i) \<noteq> ''validated''" for i
  proof -
    obtain c k where c: "c \<in> set (all_chunks ?ns)" and k: "k < length (ch_members c)" "ch_members c ! k = i"
      and at: "assigned ! i = assign_generated (chunk_storyId c) k (?ns ! i)"
      using a(4) [of i] i by (simp only: length_map nth_map) blast
    let ?s = "overlay_story statuses (generated_story sections c (map ((!) ?ns) (ch_members c)))"
    have "?s \<in> set (bl_generated b)" using c unfolding b(3) a(1) by (auto simp only: set_map)
    moreover have "bl_mappings b ! i = mapping_of (assigned ! i)" "accepted (assigned ! i)"
      using i generate_stories_requirements(1) [OF g] unfolding at by (simp_all add: b at curated_criteria_def is_pending_def)
    then have "ma_storyIds (bl_mappings b ! i) = [chunk_storyId c]" "ma_acceptanceCriteriaIds (bl_mappings b ! i) = [criterion_id (chunk_storyId c) k]"
      "ma_testIds (bl_mappings b ! i) = [''TC-'' @ br_id (requirements ! i)]"
      using i(1) unfolding at by simp_all
    ultimately show ?thesis using k i(1)
      by (intro bexI [of _ ?s] exI [of _ k]) (simp_all add: nth_enumerate_eq generated_criterion_def generated_test_def)
  qed
  ultimately show ?thesis by blast
qed

section \<open>A generated backlog\<close>

definition example_requirement :: "string \<Rightarrow> string \<Rightarrow> requirement" where
  "example_requirement i validation = \<lparr>br_id = i, br_statement = ''seat plans'', br_atomicStatement = None, br_type = ''functional'', br_horizon = ''MVP'',
     br_validationStatus = validation, br_disposition = ''accepted'', br_atomicityStatus = ''validated_atomic'', br_implementationPhase = ''Phase 1'',
     br_sectionNumber = 5, br_sectionTitle = ''PLANS'', br_line = 7, br_form = ''bullet'', br_epicIds = [], br_storyIds = [], br_testIds = [],
     br_implementationEvidence = []\<rparr>"

lemma example_normalized:
  "normalize_requirement (example_requirement i v) = (normalize_requirement (example_requirement i v))
     \<lparr>n_requirement := example_requirement i v, normalizedDisposition := ''accepted'', normalizedEpicIds := [''SUB-E004''], n_curated := (v = ''validated''),
      assignedStoryIds := [], assignedAcceptanceCriteriaIds := [], assignedTestIds := []\<rparr>"
  by (simp add: normalize_requirement_def isParentContext_def example_requirement_def sectionEpic_def SECTION_EPICS_def Let_def trim_def is_space_def ends_with_def)

lemma example_pending: "is_pending (normalize_requirement (example_requirement i v))"
  by (subst example_normalized) (simp add: is_pending_def mapped_by_hand_def accepted_def example_requirement_def)

lemma example_key: "section_key (normalize_requirement (example_requirement i v)) = (''SUB-E004'', 5)"
  by (subst example_normalized) (simp add: section_key_def example_requirement_def)

definition example_chunk :: chunk_info where
  "example_chunk = \<lparr>ch_epicId = ''SUB-E004'', ch_sectionNumber = 5, ch_sequence = 1, ch_members = [0]\<rparr>"

lemma example_padded: "padStart 3 5 = ''005''" "padStart 2 (Suc 0) = ''01''"
  by code_simp+

lemma example_storyId: "chunk_storyId example_chunk = ''US-MSR-005-01''"
  by (simp add: chunk_storyId_def example_chunk_def example_padded)

lemma single_chunk:
  assumes "is_pending n" "section_key n = (''SUB-E004'', 5)"
  shows "all_chunks [n] = [example_chunk]"
  using assms by (simp add: pendingBySection_def section_chunks_def slices.simps example_chunk_def)

lemma single_story:
  assumes "is_pending n" "section_key n = (''SUB-E004'', 5)"
  shows "generate_stories sections [n] = ([assign_generated ''US-MSR-005-01'' 0 n], [generated_story sections example_chunk [n]])"
proof -
  have members: "ch_members example_chunk = [0]" by (simp add: example_chunk_def)
  show ?thesis unfolding generate_stories_def single_chunk [OF assms]
    by (simp add: place_chunk_def members example_storyId pending_unmapped [OF assms(1)])
qed

lemma single_backlog:
  assumes "is_pending (normalize_requirement r)" "section_key (normalize_requirement r) = (''SUB-E004'', 5)"
  shows "generate_backlog sections [r] [] repository None =
     Inr \<lparr>bl_normalized = [curated_criteria (assign_generated ''US-MSR-005-01'' 0 (normalize_requirement r))],
       bl_mappings = [mapping_of (curated_criteria (assign_generated ''US-MSR-005-01'' 0 (normalize_requirement r)))],
       bl_existing = [], bl_generated = [overlay_story Map.empty (generated_story sections example_chunk [normalize_requirement r])]\<rparr>"
  by (simp add: generate_backlog_def single_story [OF assms] loadSpecificationTestStatus_def Let_def unknown_stories_def example_storyId)

lemmas example_stories = single_story [OF example_pending example_key]
lemmas example_backlog = single_backlog [OF example_pending example_key]

text \<open>
  A curated requirement without stories or tests of its own is placed in a generated story, but its mapping then names a criterion
  that this story does not have.
\<close>

lemma curated_criterion_dangles:
  "\<exists>b. generate_backlog [] [example_requirement ''MSR-1'' ''validated''] [] [] None = Inr b \<and>
     (\<exists>m\<in>set (bl_mappings b). ma_acceptanceCriteriaIds m = [''AC-MSR-005-01-REQ-1'']) \<and>
     (\<forall>s\<in>set (bl_allStories b). \<forall>c\<in>set (bs_acceptanceCriteria s). cr_id c = ''AC-MSR-005-01-01'')"
proof -
  let ?n = "normalize_requirement (example_requirement ''MSR-1'' ''validated'')"
  have "accepted ?n" using example_pending by (simp add: is_pending_def)
  moreover have "n_curated ?n" "br_id (example_requirement ''MSR-1'' ''validated'') = ''MSR-1''" by (simp_all add: example_requirement_def)
  ultimately have "ma_acceptanceCriteriaIds (mapping_of (curated_criteria (assign_generated ''US-MSR-005-01'' 0 ?n))) = [requirement_criterion_id ''US-MSR-005-01'' ''MSR-1'']"
    by (subst mapping_of_fields) (simp add: curated_criteria_def accepted_def assign_generated_def)
  moreover have "requirement_criterion_id ''US-MSR-005-01'' ''MSR-1'' = ''AC-MSR-005-01-REQ-1''" "criterion_id ''US-MSR-005-01'' 0 = ''AC-MSR-005-01-01''"
    by (simp_all add: requirement_criterion_id_def criterion_id_def strip_prefix_def starts_with_def example_padded)
  ultimately show ?thesis unfolding example_backlog by (simp add: generated_criterion_def example_storyId del: mapping_of_fields)
qed

theorem backlog_traceable_witness:
  "\<exists>b. generate_backlog [] [example_requirement ''MSR-1'' ''''] [] [] None = Inr b \<and> map ma_requirementId (bl_mappings b) = [''MSR-1''] \<and>
     (\<forall>m\<in>set (bl_mappings b). ma_testIds m \<noteq> [])"
proof -
  obtain b where b: "generate_backlog [] [example_requirement ''MSR-1'' ''''] [] [] None = Inr b" using example_backlog by blast
  have "\<forall>m\<in>set (bl_mappings b). ma_disposition m = ''accepted''"
    using b example_pending [of "''MSR-1''" "''''"] by (auto simp: example_backlog is_pending_def accepted_def curated_criteria_def assign_generated_def)
  then show ?thesis using b backlog_traceable [OF b] by (intro exI [of _ b]) (auto simp: example_requirement_def)
qed

theorem generated_stories_partition_witness:
  "\<exists>b. generate_backlog [] [example_requirement ''MSR-1'' ''''] [] [] None = Inr b \<and>
     (\<exists>s\<in>set (bl_generated b). ma_storyIds (bl_mappings b ! 0) = [bs_id s])"
proof -
  obtain b where b: "generate_backlog [] [example_requirement ''MSR-1'' ''''] [] [] None = Inr b" using example_backlog by blast
  have "br_validationStatus (example_requirement ''MSR-1'' '''') \<noteq> ''validated''" by (simp add: example_requirement_def)
  then show ?thesis using generated_stories_partition [OF b] example_pending [of "''MSR-1''" "''''"] b by (intro exI [of _ b]) auto
qed

end
