(* ===== verification/Backlog_Export.thy ===== *)
theory Backlog_Export
  imports Backlog
begin

text \<open>
  What the backlog generator writes for Jira and for the coverage gate (\<open>tools/backlog/generate-jira-backlog.mjs\<close> from the
  counts on), and the checks of \<open>tools/requirements/check-coverage.mjs\<close> on those files. A row is the association list
  of an object's properties; the files are the texts of \<open>csv\<close>, read by \<open>parseCsv\<close>.

  The theorem closes the loop: the files of any generated backlog over the canonical epics pass the checks of the gate.
\<close>

section \<open>Model: issue rows\<close>

definition jiraEpicLinkFor :: "(string \<rightharpoonup> string) \<Rightarrow> string \<Rightarrow> string" where
  "jiraEpicLinkFor epicKeys internalEpicId = (case epicKeys internalEpicId of Some (c # cs) \<Rightarrow> c # cs | _ \<Rightarrow> internalEpicId)"

definition jiraStatusFor :: "string option \<Rightarrow> string" where
  "jiraStatusFor implementationStatus =
     (if implementationStatus = Some ''implemented'' then ''Done''
      else if implementationStatus = Some ''in_progress'' then ''In Progress'' else ''To Do'')"

definition epicJiraStatus :: "story list \<Rightarrow> string" where
  "epicJiraStatus stories =
     (if stories = [] then ''To Do''
      else if list_all (\<lambda>s. bs_implementation s = Some ''implemented'') stories then ''Done''
      else if list_ex (\<lambda>s. bs_implementation s = Some ''implemented'' \<or> bs_implementation s = Some ''in_progress'') stories then ''In Progress''
      else ''To Do'')"

definition epicById :: "epic list \<Rightarrow> string \<rightharpoonup> epic" where
  "epicById epics = map_of (rev (map (\<lambda>e. (be_id e, e)) epics))"

definition epicIssueId :: "epic list \<Rightarrow> string \<rightharpoonup> nat" where
  "epicIssueId epics = map_of (rev (map (\<lambda>(k, e). (be_id e, k + 1)) (enumerate 0 epics)))"

definition js_num :: "nat \<Rightarrow> js_value" where
  "js_num n = JNumber (Num (int n))"

definition epic_row :: "backlog \<Rightarrow> epic list \<Rightarrow> epic \<Rightarrow> csv_row" where
  "epic_row b epics e =
    [(''Issue ID'', case epicIssueId epics (be_id e) of None \<Rightarrow> JUndefined | Some k \<Rightarrow> js_num k), (''Issue Type'', JString ''Epic''), (''Summary'', JString (be_name e)),
     (''Description'', JString (be_goal e)), (''Epic Name'', JString (be_id e)), (''Epic Link'', JString ''''), (''Parent'', JString ''''), (''External ID'', JString (be_id e)),
     (''Labels'', JString ''sintius master-specification''), (''Priority'', JString ''High''),
     (''Status'', JString (epicJiraStatus (filter (\<lambda>s. bs_epicId s = be_id e) (bl_allStories b)))), (''Implementation Status'', JString ''''), (''Progress'', JString ''''),
     (''Acceptance Criteria'', JString ''''), (''Requirement IDs'', JString ''''), (''Test IDs'', JString ''''),
     (''Implementation Phase'', JString (be_phase e)), (''Source'', JString (be_sourceId e))]"

definition criterion_text :: "criterion \<Rightarrow> string" where
  "criterion_text c = cr_id c @ '' | '' @ cr_statement c @ '' | Requirements: '' @ join '';'' (cr_requirementIds c) @ '' | Tests: '' @ join '';'' (cr_testIds c)"

text \<open>The written description, or one made of the goal of the epic; \<open>None\<close> is the \<open>TypeError\<close> of a story without either.\<close>

definition story_description :: "epic option \<Rightarrow> story \<Rightarrow> string option" where
  "story_description e s = (case bs_description s of
     Some (c # cs) \<Rightarrow> Some (c # cs)
   | _ \<Rightarrow> (case e of None \<Rightarrow> None | Some e \<Rightarrow> Some (''As a '' @ (case bs_persona s of None \<Rightarrow> ''undefined'' | Some p \<Rightarrow> p) @ '', I want '' @ lowercase (bs_title s) @
       '', so that '' @ lowercase (take 1 (be_goal e)) @ drop 1 (be_goal e))))"

definition dashed :: "string \<Rightarrow> string" where
  "dashed s = map (\<lambda>c. if c = CHR '' '' then CHR ''-'' else c) s"

definition story_source :: "story \<Rightarrow> string" where
  "story_source s = (case bs_sourceSection s of Some (Suc n) \<Rightarrow> ''Master specification '' @ [SECT] @ nat_str (Suc n) | _ \<Rightarrow> join '';'' (bs_backlog s))"

definition story_row :: "(string \<rightharpoonup> string) \<Rightarrow> epic list \<Rightarrow> nat \<Rightarrow> story \<Rightarrow> csv_row option" where
  "story_row epicKeys epics issueId s = map_option (\<lambda>description.
    [(''Issue ID'', js_num issueId), (''Issue Type'', JString ''Story''), (''Summary'', JString (bs_title s)), (''Description'', JString description),
     (''Epic Name'', JString ''''), (''Epic Link'', JString (jiraEpicLinkFor epicKeys (bs_epicId s))),
     (''Parent'', case epicIssueId epics (bs_epicId s) of None \<Rightarrow> JUndefined | Some k \<Rightarrow> js_num k), (''External ID'', JString (bs_id s)),
     (''Labels'', JString (''sintius '' @ dashed (lowercase (bs_phase s)) @ '' master-specification'')), (''Priority'', JString ''Medium''),
     (''Status'', JString (jiraStatusFor (bs_implementation s))),
     (''Implementation Status'', JString (case bs_implementation s of Some (c # cs) \<Rightarrow> c # cs | _ \<Rightarrow> ''not_started'')),
     (''Progress'', case bs_progress s of None \<Rightarrow> JString '''' | Some p \<Rightarrow> JNumber (Num p)),
     (''Acceptance Criteria'', JString (join [NL] (map criterion_text (bs_acceptanceCriteria s)))),
     (''Requirement IDs'', JString (join '';'' (bs_requirementIds s))), (''Test IDs'', JString (join '';'' (map te_id (bs_tests s)))),
     (''Implementation Phase'', JString (bs_phase s)), (''Source'', JString (story_source s))])
    (story_description (epicById epics (bs_epicId s)) s)"

fun story_rows :: "(string \<rightharpoonup> string) \<Rightarrow> epic list \<Rightarrow> nat \<Rightarrow> story list \<Rightarrow> csv_row list option" where
  "story_rows epicKeys epics nextIssueId [] = Some []"
| "story_rows epicKeys epics nextIssueId (s # ss) =
     (case story_row epicKeys epics nextIssueId s of
        None \<Rightarrow> None
      | Some row \<Rightarrow> map_option (\<lambda>rows. row # rows) (story_rows epicKeys epics (nextIssueId + 1) ss))"

definition jiraRows :: "(string \<rightharpoonup> string) \<Rightarrow> epic list \<Rightarrow> backlog \<Rightarrow> csv_row list option" where
  "jiraRows epicKeys epics b =
     map_option (\<lambda>rows. map (epic_row b epics) epics @ rows) (story_rows epicKeys epics (length epics + 1) (bl_allStories b))"

section \<open>Model: traceability and tests\<close>

definition trace_row :: "normalized_requirement \<Rightarrow> csv_row" where
  "trace_row n = (let r = n_requirement n in
    [(''Requirement ID'', JString (br_id r)), (''Source Section'', js_num (br_sectionNumber r)), (''Source Title'', JString (br_sectionTitle r)),
     (''Source Line'', js_num (br_line r)), (''Source Form'', JString (br_form r)), (''Source Statement'', JString (br_statement r)),
     (''Normalized Atomic Requirement'', JString (normalizedAtomicStatement n)), (''Disposition'', JString (normalizedDisposition n)),
     (''Review Method'', JString (review_of n)), (''Atomicity Status'', JString (atomicity_of n)),
     (''Horizon'', JString (br_horizon r)), (''Implementation Phase'', JString (n_implementationPhase n)), (''Epic IDs'', JString (join '';'' (normalizedEpicIds n))),
     (''Story IDs'', JString (join '';'' (assignedStoryIds n))), (''Acceptance Criteria IDs'', JString (join '';'' (assignedAcceptanceCriteriaIds n))),
     (''Test IDs'', JString (join '';'' (assignedTestIds n))), (''Implementation Evidence'', JString (join '';'' (br_implementationEvidence r))),
     (''Notes'', JString (if normalizedDisposition n = ''parent_context'' then ''Retained as context; delivery coverage is carried by child candidates.''
        else ''No implementation evidence inferred.''))])"

definition test_row :: "normalized_requirement list \<Rightarrow> story \<Rightarrow> story_test \<Rightarrow> csv_row" where
  "test_row ns s t =
    [(''Test ID'', JString (te_id t)), (''Test Name'', JString (te_name t)), (''Test Type'', JString (te_type t)), (''Status'', JString (te_status t)),
     (''Story ID'', JString (bs_id s)), (''Epic ID'', JString (bs_epicId s)),
     (''Requirement IDs'', JString (join '';'' (case te_requirementIds t of Some ids \<Rightarrow> ids | None \<Rightarrow> map n_id (filter (\<lambda>n. te_id t \<in> set (assignedTestIds n)) ns)))),
     (''Automated'', JString ''Planned''), (''Evidence'', JString '''')]"

definition testRows :: "backlog \<Rightarrow> csv_row list" where
  "testRows b = concat (map (\<lambda>s. map (test_row (bl_normalized b) s) (bs_tests s)) (bl_allStories b))"

record backlog_counts =
  sourceCandidates :: nat
  acceptedRequirements :: nat
  contextParents :: nat
  canonicalStories :: nat
  generatedStories :: nat
  totalStories :: nat
  acceptanceCriteria :: nat
  co_tests :: nat

definition counts_of :: "backlog \<Rightarrow> backlog_counts" where
  "counts_of b =
    \<lparr>sourceCandidates = length (bl_normalized b), acceptedRequirements = length (filter accepted (bl_normalized b)),
     contextParents = length (filter (\<lambda>n. normalizedDisposition n = ''parent_context'') (bl_normalized b)),
     canonicalStories = length (bl_existing b), generatedStories = length (bl_generated b), totalStories = length (bl_allStories b),
     acceptanceCriteria = sum_list (map (length \<circ> bs_acceptanceCriteria) (bl_allStories b)),
     co_tests = sum_list (map (length \<circ> bs_tests) (bl_allStories b))\<rparr>"

record exported_files =
  ef_issues :: string
  ef_traceability :: string
  ef_tests :: string
  ef_epics :: string
  ef_stories :: string

text \<open>\<open>Object.keys(rows[0])\<close>; the object of no row is a \<open>TypeError\<close>.\<close>

definition csv_file :: "csv_row list \<Rightarrow> csv_row list \<Rightarrow> string option" where
  "csv_file all rows = (case all of [] \<Rightarrow> None | first # _ \<Rightarrow> Some (csv (map fst first) rows))"

definition of_type :: "string \<Rightarrow> csv_row \<Rightarrow> bool" where
  "of_type type row \<longleftrightarrow> js_prop (JObject row) ''Issue Type'' = JString type"

definition exported :: "(string \<rightharpoonup> string) \<Rightarrow> epic list \<Rightarrow> backlog \<Rightarrow> exported_files option" where
  "exported epicKeys epics b = (case jiraRows epicKeys epics b of
     None \<Rightarrow> None
   | Some rows \<Rightarrow>
       (case (csv_file rows rows, csv_file (map trace_row (bl_normalized b)) (map trace_row (bl_normalized b)), csv_file (testRows b) (testRows b),
              csv_file rows (filter (of_type ''Epic'') rows), csv_file rows (filter (of_type ''Story'') rows)) of
          (Some issues, Some traceability, Some tests, Some epicFile, Some storyFile) \<Rightarrow>
            Some \<lparr>ef_issues = issues, ef_traceability = traceability, ef_tests = tests, ef_epics = epicFile, ef_stories = storyFile\<rparr>
        | _ \<Rightarrow> None))"

section \<open>Model: the checks of the coverage gate\<close>

type_synonym parsed_row = "(string \<times> string) list"

definition present :: "parsed_row \<Rightarrow> string \<Rightarrow> bool" where
  "present row h \<longleftrightarrow> map_of row h \<noteq> None \<and> map_of row h \<noteq> Some ''''"

definition traceability_checks :: "nat \<Rightarrow> string \<Rightarrow> bool" where
  "traceability_checks denominator source =
     (let rows = parseCsv source in length rows = denominator \<and>
      list_all (\<lambda>row. present row ''Story IDs'' \<and> present row ''Acceptance Criteria IDs'' \<and> present row ''Test IDs'')
        (filter (\<lambda>row. map_of row ''Disposition'' = Some ''accepted'') rows))"

definition includes_text :: "string \<Rightarrow> string \<Rightarrow> bool" where
  "includes_text p s \<longleftrightarrow> list_ex (\<lambda>i. starts_with p (drop i s)) [0..<length s + 1]"

definition IMPORT_FIELDS :: string where
  "IMPORT_FIELDS = [DQ] @ ''Issue ID'' @ [DQ] @ '','' @ [DQ] @ ''Issue Type'' @ [DQ] @ '','' @ [DQ] @ ''Summary'' @ [DQ]"

definition issue_checks :: "nat \<Rightarrow> string \<Rightarrow> bool" where
  "issue_checks stories source =
     (let rows = parseCsv source;
          epicRows = filter (\<lambda>row. map_of row ''Issue Type'' = Some ''Epic'') rows;
          storyRows = filter (\<lambda>row. map_of row ''Issue Type'' = Some ''Story'') rows
      in includes_text IMPORT_FIELDS source \<and> length epicRows = 17 \<and> length storyRows = stories \<and> distinct (map (\<lambda>row. map_of row ''Issue ID'') rows) \<and>
         list_all (\<lambda>row. map_of row ''Parent'' \<in> set (map (\<lambda>row. map_of row ''Issue ID'') epicRows)) storyRows)"

definition coverage_checks :: "nat \<Rightarrow> nat \<Rightarrow> backlog_counts \<Rightarrow> exported_files \<Rightarrow> bool" where
  "coverage_checks denominator acceptedCount counts files \<longleftrightarrow>
     sourceCandidates counts = denominator \<and> acceptedRequirements counts = acceptedCount \<and>
     traceability_checks denominator (ef_traceability files) \<and> issue_checks (totalStories counts) (ef_issues files) \<and>
     length (parseCsv (ef_tests files)) = co_tests counts"

section \<open>Reading rows back\<close>

definition read_row :: "string list \<Rightarrow> csv_row \<Rightarrow> parsed_row" where
  "read_row headers row = map (\<lambda>h. (h, cell_text (js_prop (JObject row) h))) headers"

lemma parse_csv: "distinct headers \<Longrightarrow> 2 \<le> length headers \<Longrightarrow> parseCsv (csv headers rows) = map (read_row headers) rows"
  by (simp add: csv_read_back read_row_def)

lemma read_cell: "map_of (read_row headers row) h = (if h \<in> set headers then Some (cell_text (js_prop (JObject row) h)) else None)"
  by (simp add: read_row_def map_of_map_restrict restrict_map_def)

lemma json_int_inj: "json_int a = json_int b \<Longrightarrow> a = b"
  using json_int_prefix [of a "[]" b "[]"] by (simp add: delimited_def)

lemma json_int_nonempty: "json_int a \<noteq> []"
  using nat_str_nonempty by (simp add: json_int_def)

lemma cell_text_simps: "cell_text (JString s) = s" "cell_text (js_num n) = json_int (int n)" "cell_text JUndefined = ''''"
  by (simp_all add: cell_text_def js_text_def js_num_def)

definition ISSUE_HEADERS :: "string list" where
  "ISSUE_HEADERS = [''Issue ID'', ''Issue Type'', ''Summary'', ''Description'', ''Epic Name'', ''Epic Link'', ''Parent'', ''External ID'', ''Labels'', ''Priority'', ''Status'',
     ''Implementation Status'', ''Progress'', ''Acceptance Criteria'', ''Requirement IDs'', ''Test IDs'', ''Implementation Phase'', ''Source'']"

definition TRACE_HEADERS :: "string list" where
  "TRACE_HEADERS = [''Requirement ID'', ''Source Section'', ''Source Title'', ''Source Line'', ''Source Form'', ''Source Statement'', ''Normalized Atomic Requirement'', ''Disposition'',
     ''Review Method'', ''Atomicity Status'', ''Horizon'', ''Implementation Phase'', ''Epic IDs'', ''Story IDs'', ''Acceptance Criteria IDs'', ''Test IDs'', ''Implementation Evidence'', ''Notes'']"

definition TEST_HEADERS :: "string list" where
  "TEST_HEADERS = [''Test ID'', ''Test Name'', ''Test Type'', ''Status'', ''Story ID'', ''Epic ID'', ''Requirement IDs'', ''Automated'', ''Evidence'']"

lemma headers_wf:
  "distinct ISSUE_HEADERS" "2 \<le> length ISSUE_HEADERS" "distinct TRACE_HEADERS" "2 \<le> length TRACE_HEADERS" "distinct TEST_HEADERS" "2 \<le> length TEST_HEADERS"
  by (simp_all add: ISSUE_HEADERS_def TRACE_HEADERS_def TEST_HEADERS_def)

lemma row_headers: "map fst (epic_row b epics e) = ISSUE_HEADERS" "map fst (trace_row n) = TRACE_HEADERS" "map fst (test_row ns s t) = TEST_HEADERS"
  by (simp_all add: epic_row_def ISSUE_HEADERS_def trace_row_def TRACE_HEADERS_def test_row_def TEST_HEADERS_def Let_def)

lemma epic_cells:
  "js_prop (JObject (epic_row b epics e)) ''Issue Type'' = JString ''Epic''"
  "js_prop (JObject (epic_row b epics e)) ''Issue ID'' = (case epicIssueId epics (be_id e) of None \<Rightarrow> JUndefined | Some k \<Rightarrow> js_num k)"
  by (simp_all add: epic_row_def js_prop_def)

lemma story_cells:
  assumes "story_row keys epics n s = Some row"
  shows "js_prop (JObject row) ''Issue Type'' = JString ''Story''" "js_prop (JObject row) ''Issue ID'' = js_num n"
    "js_prop (JObject row) ''Parent'' = (case epicIssueId epics (bs_epicId s) of None \<Rightarrow> JUndefined | Some k \<Rightarrow> js_num k)"
  using assms by (auto simp: story_row_def js_prop_def)

lemma trace_cells:
  "js_prop (JObject (trace_row n)) ''Disposition'' = JString (normalizedDisposition n)"
  "js_prop (JObject (trace_row n)) ''Story IDs'' = JString (join '';'' (assignedStoryIds n))"
  "js_prop (JObject (trace_row n)) ''Acceptance Criteria IDs'' = JString (join '';'' (assignedAcceptanceCriteriaIds n))"
  "js_prop (JObject (trace_row n)) ''Test IDs'' = JString (join '';'' (assignedTestIds n))"
  by (simp_all add: trace_row_def js_prop_def Let_def)

section \<open>Numbering\<close>

lemma epicIssueId_at:
  assumes "distinct (map be_id epics)" "k < length epics"
  shows "epicIssueId epics (be_id (epics ! k)) = Some (k + 1)"
proof -
  let ?ps = "map (\<lambda>(k, e). (be_id e, k + 1)) (enumerate 0 epics)"
  have fsts: "map fst ?ps = map be_id epics" by (simp add: case_prod_beta o_def map_enumerate_snd)
  have "(be_id (epics ! k), k + 1) \<in> set ?ps" using assms(2) nth_mem [of k ?ps] by (simp add: nth_enumerate_eq)
  then have "map_of (rev ?ps) (be_id (epics ! k)) = Some (k + 1)"
    using assms(1) fsts by (intro map_of_is_SomeI) (auto simp: rev_map [symmetric] simp del: map_map)
  then show ?thesis by (simp add: epicIssueId_def)
qed

lemma story_rows_Some:
  assumes "\<forall>s\<in>set ss. story_description (epicById epics (bs_epicId s)) s \<noteq> None"
  shows "\<exists>rows. story_rows keys epics n ss = Some rows \<and> length rows = length ss \<and> (\<forall>i<length ss. story_row keys epics (n + i) (ss ! i) = Some (rows ! i))"
  using assms
proof (induction ss arbitrary: n)
  case (Cons s ss)
  obtain row where row: "story_row keys epics n s = Some row" using Cons.prems by (auto simp: story_row_def)
  obtain rows where rows: "story_rows keys epics (n + 1) ss = Some rows" "length rows = length ss"
    "\<forall>i<length ss. story_row keys epics (n + 1 + i) (ss ! i) = Some (rows ! i)"
    using Cons.IH [of "n + 1"] Cons.prems by auto
  have "story_row keys epics (n + i) ((s # ss) ! i) = Some ((row # rows) ! i)" if "i < length (s # ss)" for i
    using that row rows(3) by (cases i) auto
  then show ?case using row rows(1,2) by (intro exI [of _ "row # rows"]) simp
qed simp

section \<open>The checks pass\<close>

text \<open>The rows of the issue file: the epics, numbered from one, and then the stories, each below an epic.\<close>

lemma issue_rows:
  assumes "distinct (map be_id epics)" "\<forall>s\<in>set (bl_allStories b). bs_epicId s \<in> be_id ` set epics"
    and "\<forall>s\<in>set (bl_allStories b). story_description (epicById epics (bs_epicId s)) s \<noteq> None"
  obtains stories where "jiraRows keys epics b = Some (map (epic_row b epics) epics @ stories)" "length stories = length (bl_allStories b)"
    "\<And>row. row \<in> set stories \<Longrightarrow> js_prop (JObject row) ''Issue Type'' = JString ''Story'' \<and>
       (\<exists>k<length epics. js_prop (JObject row) ''Parent'' = js_num (k + 1))"
    "map (\<lambda>row. js_prop (JObject row) ''Issue ID'') (map (epic_row b epics) epics @ stories) = map js_num [1..<1 + length epics + length (bl_allStories b)]"
proof -
  let ?ss = "bl_allStories b"
  obtain rows where rows: "story_rows keys epics (length epics + 1) ?ss = Some rows" "length rows = length ?ss"
    "\<forall>i<length ?ss. story_row keys epics (length epics + 1 + i) (?ss ! i) = Some (rows ! i)"
    using story_rows_Some [OF assms(3), of keys "length epics + 1"] by (elim exE conjE) (rule that; assumption)
  have row: "js_prop (JObject row) ''Issue Type'' = JString ''Story'' \<and> (\<exists>k<length epics. js_prop (JObject row) ''Parent'' = js_num (k + 1))"
    if mem: "row \<in> set rows" for row
  proof -
    obtain i where i: "i < length ?ss" "row = rows ! i" using mem rows(2) by (metis in_set_conv_nth)
    have r: "story_row keys epics (length epics + 1 + i) (?ss ! i) = Some row" using rows(3) i by blast
    obtain k where k: "k < length epics" "bs_epicId (?ss ! i) = be_id (epics ! k)"
      using assms(2) nth_mem [OF i(1)] by (metis imageE in_set_conv_nth)
    show ?thesis using story_cells(1,3) [OF r] k epicIssueId_at [OF assms(1) k(1)] by auto
  qed
  have epics: "map (\<lambda>row. js_prop (JObject row) ''Issue ID'') (map (epic_row b epics) epics) = map js_num [1..<1 + length epics]"
    by (intro nth_equalityI) (simp_all add: epic_cells epicIssueId_at [OF assms(1)] del: upt_Suc)
  have "map (\<lambda>row. js_prop (JObject row) ''Issue ID'') rows = map js_num [1 + length epics..<1 + length epics + length ?ss]"
    using rows(2,3) story_cells(2) by (intro nth_equalityI) (auto simp del: upt_Suc)
  then have ids: "map (\<lambda>row. js_prop (JObject row) ''Issue ID'') (map (epic_row b epics) epics @ rows) = map js_num [1..<1 + length epics + length ?ss]"
    using epics upt_add_eq_append [of 1 "1 + length epics" "length ?ss"] by (simp only: map_append le_add1)
  have "jiraRows keys epics b = Some (map (epic_row b epics) epics @ rows)" unfolding jiraRows_def rows(1) by simp
  then show thesis using rows(2) row ids by (rule that)
qed

lemma issue_checks_pass:
  assumes "length epics = 17" "rows = map (epic_row b epics) epics @ stories"
    and "length stories = total_stories"
    and "\<And>row. row \<in> set stories \<Longrightarrow> js_prop (JObject row) ''Issue Type'' = JString ''Story'' \<and>
       (\<exists>k<length epics. js_prop (JObject row) ''Parent'' = js_num (k + 1))"
    and "map (\<lambda>row. js_prop (JObject row) ''Issue ID'') rows = map js_num [1..<1 + length epics + total_stories]"
    and "map (\<lambda>row. js_prop (JObject row) ''Issue ID'') (map (epic_row b epics) epics) = map js_num [1..<1 + length epics]"
  shows "issue_checks total_stories (csv ISSUE_HEADERS rows)"
proof -
  let ?read = "read_row ISSUE_HEADERS"
  have cell: "map_of (?read row) h = Some (cell_text (js_prop (JObject row) h))" if "h \<in> set ISSUE_HEADERS" for row h
    using that by (simp add: read_cell)
  have in_headers: "''Issue Type'' \<in> set ISSUE_HEADERS" "''Issue ID'' \<in> set ISSUE_HEADERS" "''Parent'' \<in> set ISSUE_HEADERS" by (simp_all add: ISSUE_HEADERS_def)
  have type: "map_of (?read row) ''Issue Type'' = Some ''Story''" if "row \<in> set stories" for row
    using assms(4) [OF that] by (simp add: cell in_headers cell_text_simps)
  have epic: "map_of (?read (epic_row b epics e)) ''Issue Type'' = Some ''Epic''" for e
    by (simp add: cell in_headers epic_cells cell_text_simps)
  have epicRows: "filter (\<lambda>row. map_of row ''Issue Type'' = Some ''Epic'') (map ?read rows) = map ?read (map (epic_row b epics) epics)"
    unfolding assms(2) map_append filter_append using type epic by (auto simp: filter_empty_conv filter_id_conv)
  have storyRows: "filter (\<lambda>row. map_of row ''Issue Type'' = Some ''Story'') (map ?read rows) = map ?read stories"
    unfolding assms(2) map_append filter_append using type epic by (auto simp: filter_empty_conv filter_id_conv)
  have ids_of: "map (\<lambda>row. map_of row ''Issue ID'') (map ?read rs) = map (\<lambda>v. Some (cell_text v)) (map (\<lambda>row. js_prop (JObject row) ''Issue ID'') rs)" for rs
    by (simp add: cell in_headers)
  have ids: "map (\<lambda>row. map_of row ''Issue ID'') (map ?read rows) = map (\<lambda>k. Some (json_int (int k))) [1..<1 + length epics + total_stories]"
    unfolding ids_of assms(5) by (simp add: cell_text_simps del: upt_Suc)
  have epicIds: "map (\<lambda>row. map_of row ''Issue ID'') (map ?read (map (epic_row b epics) epics)) = map (\<lambda>k. Some (json_int (int k))) [1..<1 + length epics]"
    unfolding ids_of assms(6) by (simp add: cell_text_simps del: upt_Suc)
  have "distinct (map (\<lambda>k. Some (json_int (int k))) [1..<1 + length epics + total_stories])"
    by (auto simp: distinct_map inj_on_def dest: json_int_inj simp del: upt_Suc)
  moreover have "map_of (?read row) ''Parent'' \<in> set (map (\<lambda>k. Some (json_int (int k))) [1..<1 + length epics])" if mem: "row \<in> set stories" for row
  proof -
    obtain k where "k < length epics" "js_prop (JObject row) ''Parent'' = js_num (k + 1)" using assms(4) [OF mem] by blast
    then show ?thesis unfolding cell [OF in_headers(3)] set_map by (intro image_eqI [of _ _ "k + 1"]) (auto simp: cell_text_simps)
  qed
  moreover have "includes_text IMPORT_FIELDS (csv ISSUE_HEADERS rows)"
  proof -
    have "starts_with IMPORT_FIELDS (csv ISSUE_HEADERS rows)"
      by (simp add: starts_with_def IMPORT_FIELDS_def csv_def csv_line_def ISSUE_HEADERS_def csvCell_def cell_text_simps double_quotes_def DQ_def)
    then show ?thesis unfolding includes_text_def list_ex_iff by (intro bexI [of _ 0]) simp_all
  qed
  ultimately show ?thesis
    unfolding issue_checks_def Let_def parse_csv [OF headers_wf(1,2)] epicRows storyRows ids epicIds
    using assms(1,3) by (simp add: list_all_iff del: upt_Suc)
qed

lemma join_nonempty:
  assumes "xs \<noteq> []" "'''' \<notin> set xs"
  shows "join '';'' xs \<noteq> ''''"
  using assms by (induction "'';''" xs rule: join.induct) auto

lemma traceability_checks_pass:
  assumes "\<And>n. n \<in> set ns \<Longrightarrow> accepted n \<Longrightarrow> assignedStoryIds n \<noteq> [] \<and> assignedAcceptanceCriteriaIds n \<noteq> [] \<and> assignedTestIds n \<noteq> [] \<and>
      '''' \<notin> set (assignedStoryIds n) \<and> '''' \<notin> set (assignedAcceptanceCriteriaIds n) \<and> '''' \<notin> set (assignedTestIds n)"
  shows "traceability_checks (length ns) (csv TRACE_HEADERS (map trace_row ns))"
proof -
  have cells: "map_of (read_row TRACE_HEADERS (trace_row n)) ''Disposition'' = Some (normalizedDisposition n)"
    "map_of (read_row TRACE_HEADERS (trace_row n)) ''Story IDs'' = Some (join '';'' (assignedStoryIds n))"
    "map_of (read_row TRACE_HEADERS (trace_row n)) ''Acceptance Criteria IDs'' = Some (join '';'' (assignedAcceptanceCriteriaIds n))"
    "map_of (read_row TRACE_HEADERS (trace_row n)) ''Test IDs'' = Some (join '';'' (assignedTestIds n))" for n
    by (simp_all add: read_cell trace_cells cell_text_simps TRACE_HEADERS_def)
  have "present (read_row TRACE_HEADERS (trace_row n)) ''Story IDs'' \<and> present (read_row TRACE_HEADERS (trace_row n)) ''Acceptance Criteria IDs'' \<and>
      present (read_row TRACE_HEADERS (trace_row n)) ''Test IDs''" if "n \<in> set ns" "normalizedDisposition n = ''accepted''" for n
    using assms [of n] that join_nonempty unfolding present_def cells by (simp add: accepted_def)
  then show ?thesis
    unfolding traceability_checks_def Let_def parse_csv [OF headers_wf(3,4)] by (auto simp: list_all_iff cells)
qed

text \<open>Every generated story belongs to a canonical epic when the curated epics do.\<close>

lemma section_epic_canonical: "sectionEpic n = Some e \<Longrightarrow> e \<in> fst ` set SECTION_EPICS"
  by (auto simp: sectionEpic_def dest!: map_of_SomeD) force

lemma key_canonical:
  assumes "set (br_epicIds r) \<subseteq> fst ` set SECTION_EPICS" "is_pending (normalize_requirement r)"
  shows "fst (section_key (normalize_requirement r)) \<in> fst ` set SECTION_EPICS"
proof -
  have "''SUB-E001'' \<in> fst ` set SECTION_EPICS" by (simp add: SECTION_EPICS_def)
  moreover have "hd xs \<in> set xs" if "xs \<noteq> []" for xs :: "string list" using that by simp
  ultimately show ?thesis using assms section_epic_canonical
    by (auto simp: is_pending_def accepted_def section_key_def normalize_requirement_def Let_def split: option.splits if_splits)
qed

lemma group_push_keys: "fst ` set (group_push k v gs) = insert k (fst ` set gs)"
  by (induction k v gs rule: group_push.induct) auto

lemma pending_keys: "fst ` set (pendingBySection ns) = section_key ` {n \<in> set ns. is_pending n}"
proof -
  have "fst ` set (foldl (\<lambda>gs i. group_push (section_key (ns ! i)) i gs) gs is) = fst ` set gs \<union> (\<lambda>i. section_key (ns ! i)) ` set is" for gs "is"
    by (induction "is" arbitrary: gs) (auto simp: group_push_keys)
  from this [of "[]"] show ?thesis by (auto simp: pendingBySection_def in_set_conv_nth image_iff)
qed

lemma chunk_epic: "c \<in> set (section_chunks g) \<Longrightarrow> ch_epicId c = fst (fst g)"
  by (auto simp: section_chunks_def split: prod.splits)

lemma generated_epics_canonical:
  assumes "generate_stories sections (map normalize_requirement requirements) = (assigned, generated)"
    and "\<forall>r\<in>set requirements. set (br_epicIds r) \<subseteq> fst ` set SECTION_EPICS" and "s \<in> set generated"
  shows "bs_epicId s \<in> fst ` set SECTION_EPICS \<and> (\<exists>c cs. bs_description s = Some (c # cs))"
proof -
  let ?ns = "map normalize_requirement requirements"
  obtain c members where c: "c \<in> set (all_chunks ?ns)" "s = generated_story sections c members"
    using assms(3) unfolding generate_stories_assigned(1) [OF assms(1)] by auto
  obtain g where g: "g \<in> set (pendingBySection ?ns)" "c \<in> set (section_chunks g)" using c(1) by auto
  have "fst g \<in> section_key ` {n \<in> set ?ns. is_pending n}" using g(1) pending_keys by (metis imageI)
  then obtain r where r: "r \<in> set requirements" "is_pending (normalize_requirement r)" "fst g = section_key (normalize_requirement r)" by auto
  have "ch_epicId c \<in> fst ` set SECTION_EPICS" using key_canonical [of r] assms(2) r chunk_epic [OF g(2)] by metis
  then show ?thesis by (simp add: c(2) generated_story_def Let_def)
qed

lemma generate_backlog_existing:
  assumes "generate_backlog sections requirements epics repository overlay = Inr b"
  shows "bl_existing b = concat (map (\<lambda>e. map (enrich_story (bl_normalized b) (be_id e)) (be_stories e)) epics)"
  using assms by (auto simp: generate_backlog_def Let_def split: prod.splits sum.splits list.splits)

lemma enrich_story_fields [simp]: "bs_epicId (enrich_story ns e s) = e" "bs_tests (enrich_story ns e s) = bs_tests s"
  by (simp_all add: enrich_story_def)

lemma epicById_known: "i \<in> be_id ` set epics \<Longrightarrow> epicById epics i \<noteq> None"
  by (auto simp: epicById_def map_of_eq_None_iff image_iff)

text \<open>What the export relies on, for the stories of a generated backlog.\<close>

lemma all_stories_placed:
  assumes "generate_backlog sections requirements epics repository overlay = Inr b" "map be_id epics = map fst SECTION_EPICS"
    and "\<forall>r\<in>set requirements. set (br_epicIds r) \<subseteq> fst ` set SECTION_EPICS" and "s \<in> set (bl_allStories b)"
  shows "bs_epicId s \<in> be_id ` set epics \<and> story_description (epicById epics (bs_epicId s)) s \<noteq> None"
proof -
  have canonical: "be_id ` set epics = fst ` set SECTION_EPICS" using assms(2) by (metis list.set_map)
  consider "s \<in> set (bl_existing b)" | "s \<in> set (bl_generated b)" using assms(4) by auto
  then show ?thesis
  proof cases
    case 1
    then obtain e where "e \<in> set epics" "bs_epicId s = be_id e" unfolding generate_backlog_existing [OF assms(1)] by auto
    then show ?thesis using epicById_known [of "bs_epicId s" epics] by (auto simp: story_description_def split: option.splits list.splits)
  next
    case 2
    obtain assigned generated statuses where g: "generate_stories sections (map normalize_requirement requirements) = (assigned, generated)"
      and b: "bl_generated b = map (overlay_story statuses) generated" using generate_backlog_Inr [OF assms(1)] by metis
    obtain s' where s': "s' \<in> set generated" "s = overlay_story statuses s'" using 2 b by auto
    then show ?thesis using generated_epics_canonical [OF g assms(3) s'(1)] canonical by (auto simp: overlay_story_def story_description_def)
  qed
qed

lemma requirement_cells:
  assumes "generate_backlog sections requirements epics repository overlay = Inr b"
    and "\<forall>r\<in>set requirements. '''' \<notin> set (br_storyIds r) \<and> '''' \<notin> set (br_testIds r)"
    and "n \<in> set (bl_normalized b)" "accepted n"
  shows "assignedStoryIds n \<noteq> [] \<and> assignedAcceptanceCriteriaIds n \<noteq> [] \<and> assignedTestIds n \<noteq> [] \<and>
      '''' \<notin> set (assignedStoryIds n) \<and> '''' \<notin> set (assignedAcceptanceCriteriaIds n) \<and> '''' \<notin> set (assignedTestIds n)"
proof -
  let ?ns = "map normalize_requirement requirements"
  obtain assigned generated where g: "generate_stories sections ?ns = (assigned, generated)" and b: "bl_normalized b = map curated_criteria assigned"
    using generate_backlog_Inr [OF assms(1)] by metis
  obtain n0 where n0: "n0 \<in> set assigned" "n = curated_criteria n0" using assms(3) by (auto simp: b)
  obtain i where i: "i < length requirements" "n = curated_criteria (assigned ! i)"
    using n0 generate_stories_requirements(1) [OF g] by (auto simp: in_set_conv_nth)
  have acc: "accepted (assigned ! i)" using assms(4) i(2) by simp
  note full = requirement_assigned [OF g i(1) acc]
  have ids: "'''' \<notin> set (assignedStoryIds (assigned ! i)) \<and> '''' \<notin> set (assignedTestIds (assigned ! i)) \<and> '''' \<notin> set (assignedAcceptanceCriteriaIds (assigned ! i))"
  proof (cases "is_pending (?ns ! i)")
    case True
    then obtain c k where "assigned ! i = assign_generated (chunk_storyId c) k (?ns ! i)" using generate_stories_assigned(4) [OF g, of i] i(1) by auto
    then show ?thesis by (simp add: chunk_storyId_def criterion_id_def)
  next
    case False
    then have "assigned ! i = assign_mapped (?ns ! i)" using generate_stories_assigned(3) [OF g, of i] i(1) by simp
    then show ?thesis using assms(2) i(1) by (auto simp: assign_mapped_def normalize_requirement_def Let_def)
  qed
  show ?thesis using full ids unfolding i(2) by (auto simp: curated_criteria_def requirement_criterion_id_def)
qed

lemma test_file:
  assumes "generate_backlog sections requirements epics repository overlay = Inr b" "\<exists>e\<in>set epics. \<exists>s\<in>set (be_stories e). bs_tests s \<noteq> []"
  shows "csv_file (testRows b) (testRows b) = Some (csv TEST_HEADERS (testRows b)) \<and> length (parseCsv (csv TEST_HEADERS (testRows b))) = co_tests (counts_of b)"
proof -
  obtain e s where "e \<in> set epics" "s \<in> set (be_stories e)" "bs_tests s \<noteq> []" using assms(2) by blast
  then have "enrich_story (bl_normalized b) (be_id e) s \<in> set (bl_allStories b)" "bs_tests (enrich_story (bl_normalized b) (be_id e) s) \<noteq> []"
    unfolding generate_backlog_existing [OF assms(1)] by auto
  then have "\<exists>s\<in>set (bl_allStories b). bs_tests s \<noteq> []" by blast
  then have "testRows b \<noteq> []" by (auto simp: testRows_def)
  moreover have "map fst row = TEST_HEADERS" if "row \<in> set (testRows b)" for row using that by (auto simp: testRows_def row_headers)
  ultimately have "csv_file (testRows b) (testRows b) = Some (csv TEST_HEADERS (testRows b))" by (cases "testRows b") (auto simp: csv_file_def)
  moreover have "length (testRows b) = co_tests (counts_of b)" by (simp add: testRows_def counts_of_def length_concat o_def)
  ultimately show ?thesis by (simp add: parse_csv [OF headers_wf(5,6)])
qed

lemma epic_ids:
  assumes "distinct (map be_id epics)"
  shows "map (\<lambda>row. js_prop (JObject row) ''Issue ID'') (map (epic_row b epics) epics) = map js_num [1..<1 + length epics]"
  by (intro nth_equalityI) (simp_all add: epic_cells epicIssueId_at [OF assms] del: upt_Suc)

section \<open>Properties\<close>

text \<open>C28: what the generator writes passes the coverage gate. For any backlog generated over the seventeen canonical epics, with no empty ID and no
  unknown epic among the curated mappings and at least one test, the files are written and, read back by the gate, satisfy its checks: one traceability
  row per candidate, a story, a criterion and a test in every accepted row, the import fields, seventeen epics, one row per story, different
  issue IDs, a parent epic for every story, and one catalogue row per test.\<close>

theorem export_passes_coverage_gate:
  assumes "generate_backlog sections requirements epics repository overlay = Inr b" "map be_id epics = map fst SECTION_EPICS" "requirements \<noteq> []"
    and "\<forall>r\<in>set requirements. set (br_epicIds r) \<subseteq> fst ` set SECTION_EPICS \<and> '''' \<notin> set (br_storyIds r) \<and> '''' \<notin> set (br_testIds r)"
    and "\<exists>e\<in>set epics. \<exists>s\<in>set (be_stories e). bs_tests s \<noteq> []"
  shows "\<exists>files. exported epicKeys epics b = Some files \<and>
    coverage_checks (length requirements) (length (filter (\<lambda>m. ma_disposition m = ''accepted'') (bl_mappings b))) (counts_of b) files"
proof -
  have "length (map be_id epics) = 17" "distinct (map be_id epics)" unfolding assms(2) by (simp_all add: SECTION_EPICS_def)
  then have epics: "distinct (map be_id epics)" "length epics = 17" by simp_all
  have placed: "\<forall>s\<in>set (bl_allStories b). bs_epicId s \<in> be_id ` set epics" "\<forall>s\<in>set (bl_allStories b). story_description (epicById epics (bs_epicId s)) s \<noteq> None"
    using all_stories_placed [OF assms(1,2)] assms(4) by blast+
  obtain stories where rows: "jiraRows epicKeys epics b = Some (map (epic_row b epics) epics @ stories)" "length stories = length (bl_allStories b)"
    "\<And>row. row \<in> set stories \<Longrightarrow> js_prop (JObject row) ''Issue Type'' = JString ''Story'' \<and> (\<exists>k<length epics. js_prop (JObject row) ''Parent'' = js_num (k + 1))"
    "map (\<lambda>row. js_prop (JObject row) ''Issue ID'') (map (epic_row b epics) epics @ stories) = map js_num [1..<1 + length epics + length (bl_allStories b)]"
    by (rule issue_rows [OF epics(1) placed, of epicKeys]) (rule that; assumption)
  let ?rows = "map (epic_row b epics) epics @ stories"
  have first: "csv_file ?rows rs = Some (csv ISSUE_HEADERS rs)" for rs using epics(2) by (cases epics) (simp_all add: csv_file_def row_headers)
  have issues: "issue_checks (length (bl_allStories b)) (csv ISSUE_HEADERS ?rows)"
    using issue_checks_pass [OF epics(2) refl rows(2,3,4)] epic_ids [OF epics(1)] by blast
  have norm: "length (bl_normalized b) = length requirements" "bl_mappings b = map mapping_of (bl_normalized b)"
    using generate_backlog_Inr [OF assms(1)] generate_stories_requirements(1) by (metis length_map)+
  have trace: "csv_file (map trace_row (bl_normalized b)) (map trace_row (bl_normalized b)) = Some (csv TRACE_HEADERS (map trace_row (bl_normalized b)))"
    "traceability_checks (length requirements) (csv TRACE_HEADERS (map trace_row (bl_normalized b)))"
    using norm assms(3) traceability_checks_pass [of "bl_normalized b"] requirement_cells [OF assms(1)] assms(4)
    by (cases "bl_normalized b", simp_all add: csv_file_def row_headers)
  have tests: "csv_file (testRows b) (testRows b) = Some (csv TEST_HEADERS (testRows b))" "length (parseCsv (csv TEST_HEADERS (testRows b))) = co_tests (counts_of b)"
    using test_file [OF assms(1,5)] by blast+
  show ?thesis
    using issues trace tests norm by (simp add: exported_def rows(1) first coverage_checks_def counts_of_def accepted_def [abs_def] filter_map o_def)
qed

definition example_roadmap_story :: story where
  "example_roadmap_story = \<lparr>bs_id = ''US-BL-001-01'', bs_title = ''Propagate trusted tenant context'', bs_persona = Some ''Platform engineer'', bs_phase = ''Phase 0'',
     bs_backlog = [''BL-001-01''], bs_implementation = Some ''implemented'', bs_progress = Some 100, bs_notes = '''', bs_description = None,
     bs_acceptance = [''Tenant A is propagated.''], bs_acceptanceCriteria = [],
     bs_tests = [\<lparr>te_id = ''TC-001-01-01'', te_name = ''Context propagation'', te_type = ''integration'', te_status = ''passing'', te_requirementIds = None\<rparr>],
     bs_requirementIds = [], bs_epicId = '''', bs_sourceSection = None\<rparr>"

definition example_epics :: "epic list" where
  "example_epics = map (\<lambda>(i, _). \<lparr>be_id = i, be_sourceId = i, be_name = i, be_phase = ''Phase 0'', be_goal = ''Trusted context.'',
     be_stories = (if i = ''SUB-E001'' then [example_roadmap_story] else [])\<rparr>) SECTION_EPICS"

theorem export_passes_coverage_gate_witness:
  "\<exists>b files. generate_backlog [] [example_requirement ''MSR-1'' ''''] example_epics [] None = Inr b \<and> exported Map.empty example_epics b = Some files \<and>
     traceability_checks 1 (ef_traceability files)"
proof -
  have ids: "map be_id example_epics = map fst SECTION_EPICS" by (simp add: example_epics_def case_prod_beta o_def)
  have gen: "\<exists>b. generate_backlog [] [example_requirement ''MSR-1'' ''''] example_epics [] None = Inr b"
    by (simp add: generate_backlog_def example_stories loadSpecificationTestStatus_def Let_def unknown_stories_def example_storyId)
  have tests: "\<exists>e\<in>set example_epics. \<exists>s\<in>set (be_stories e). bs_tests s \<noteq> []"
    by (simp add: example_epics_def SECTION_EPICS_def example_roadmap_story_def)
  have reqs: "\<forall>r\<in>set [example_requirement ''MSR-1'' '''']. set (br_epicIds r) \<subseteq> fst ` set SECTION_EPICS \<and> '''' \<notin> set (br_storyIds r) \<and> '''' \<notin> set (br_testIds r)"
    by (simp add: example_requirement_def)
  obtain b where b: "generate_backlog [] [example_requirement ''MSR-1'' ''''] example_epics [] None = Inr b" using gen by blast
  from export_passes_coverage_gate [OF b ids _ reqs tests, of Map.empty] b show ?thesis by (auto simp: coverage_checks_def)
qed

end
