(* ===== verification/Requirement_Register.thy ===== *)
theory Requirement_Register
  imports Backlog_Export
begin

text \<open>
  The requirement register of \<open>tools/requirements/extract-master-requirements.mjs\<close>, from the candidates found in the specification to the
  register and the coverage figures, and the three passes of \<open>tools/backlog/normalize-master-backlog.mjs\<close>: extract without the
  normalized mappings, generate the backlog, extract again with its mappings. The candidates are an argument (the scan of the Markdown file is not
  modelled), SHA-256 is a parameter, and the percentages of the coverage file are left out.

  The theorems say that requirement IDs are unique, and that the three passes end with a register whose traceability is complete.
\<close>

section \<open>Model: classification\<close>

definition typeFor :: "nat \<Rightarrow> string" where
  "typeFor n =
     (if 77 \<le> n \<and> n \<le> 85 then ''non_functional'' else if 86 \<le> n \<and> n \<le> 89 then ''release_scope'' else if n = 90 then ''architecture''
      else if n = 91 then ''data'' else if n = 92 then ''api'' else if n = 93 then ''event'' else if 94 \<le> n \<and> n \<le> 98 then ''ux'' else if n = 99 then ''quality''
      else if n = 100 then ''invariant'' else if n = 101 \<or> n = 103 \<or> n = 106 then ''delivery_process'' else if n = 102 then ''epic_scope''
      else if n = 104 then ''metric'' else if n = 105 then ''principle'' else ''functional'')"

definition horizonFor :: "nat \<Rightarrow> string" where
  "horizonFor n = (if n = 86 \<or> n = 87 then ''MVP'' else if n = 88 then ''Release 2'' else if n = 89 then ''Enterprise'' else ''Cross-horizon'')"

text \<open>\<open>\b(word)\b\<close> at position \<open>i\<close>, ignoring case.\<close>

definition word_at :: "string \<Rightarrow> string \<Rightarrow> nat \<Rightarrow> bool" where
  "word_at word s i \<longleftrightarrow> starts_with word (drop i (lowercase s)) \<and> (i = 0 \<or> \<not> is_word_char (s ! (i - 1))) \<and>
     (i + length word < length s \<longrightarrow> \<not> is_word_char (s ! (i + length word)))"

definition has_word :: "string list \<Rightarrow> string \<Rightarrow> bool" where
  "has_word words s \<longleftrightarrow> list_ex (\<lambda>i. list_ex (\<lambda>w. word_at w s i) words) [0..<length s]"

definition strengthFor :: "string \<Rightarrow> string" where
  "strengthFor statement =
     (if has_word [''must'', ''shall'', ''required'', ''cannot'', ''may not'', ''never'', ''do not''] statement then ''mandatory''
      else if has_word [''should''] statement then ''recommended'' else ''implicit'')"

definition verificationFor :: "string \<rightharpoonup> string" where
  "verificationFor = map_of
    [(''non_functional'', ''Measured SLO or architecture test''), (''release_scope'', ''Scope review and release acceptance''),
     (''architecture'', ''Architecture decision and conformance test''), (''data'', ''Schema/migration and persistence test''), (''api'', ''OpenAPI contract test''),
     (''event'', ''Schema compatibility and delivery test''), (''ux'', ''End-to-end and accessibility test''), (''quality'', ''Automated quality suite''),
     (''invariant'', ''Release-blocking property/integration test''), (''delivery_process'', ''Delivery-gate evidence''), (''epic_scope'', ''Backlog traceability review''),
     (''metric'', ''Metric-definition reconciliation''), (''principle'', ''Product/design review''), (''functional'', ''Acceptance and integration test'')]"

definition atomicityFor :: "string \<Rightarrow> string" where
  "atomicityFor statement =
     (let conjunctions = length (filter (\<lambda>i. word_at ''and'' statement i \<or> word_at ''or'' statement i) [0..<length statement]);
          listSeparators = length (filter (\<lambda>c. c = CHR '';'' \<or> c = CHR '','') statement)
      in if conjunctions + listSeparators > 1 then ''needs_split_review'' else ''candidate_atomic'')"

section \<open>Model: identifiers\<close>

record candidate =
  ca_sectionNumber :: nat
  ca_sectionTitle :: string
  ca_headingPath :: "string list"
  ca_sourceLine :: nat
  ca_sourceForm :: string
  ca_statement :: string

definition stableKey :: "candidate \<Rightarrow> string" where
  "stableKey c = nat_str (ca_sectionNumber c) @ ''|'' @ ca_sourceForm c @ ''|'' @ ca_statement c"

definition uppercase :: "string \<Rightarrow> string" where
  "uppercase s = map (\<lambda>c. if is_lower c then char_of (of_char c - 32 :: nat) else c) s"

definition occurrence :: "string list \<Rightarrow> nat \<Rightarrow> nat" where
  "occurrence keys i = length (filter (\<lambda>k. k = keys ! i) (take i keys)) + 1"

definition duplicateSuffix :: "string list \<Rightarrow> nat \<Rightarrow> string" where
  "duplicateSuffix keys i = (if length (filter (\<lambda>k. k = keys ! i) keys) > 1 then ''-'' @ padStart 2 (occurrence keys i) else '''')"

definition requirement_id :: "(string \<Rightarrow> string) \<Rightarrow> string list \<Rightarrow> nat \<Rightarrow> candidate \<Rightarrow> string" where
  "requirement_id sha256 keys i c =
     ''MSR-'' @ padStart 3 (ca_sectionNumber c) @ ''-'' @ uppercase (take 10 (sha256 (keys ! i))) @ duplicateSuffix keys i"

definition requirement_ids :: "(string \<Rightarrow> string) \<Rightarrow> candidate list \<Rightarrow> string list" where
  "requirement_ids sha256 cs = map (\<lambda>(i, c). requirement_id sha256 (map stableKey cs) i c) (enumerate 0 cs)"

section \<open>Model: the register\<close>

record source_mapping =
  sm_requirementId :: string
  sm_atomicStatement :: "string option"
  sm_atomicityStatus :: "string option"
  sm_validationStatus :: "string option"
  sm_reviewMethod :: "string option"
  sm_disposition :: "string option"
  sm_implementationPhase :: "string option"
  sm_epicIds :: "string list option"
  sm_storyIds :: "string list option"
  sm_acceptanceCriteriaIds :: "string list option"
  sm_testIds :: "string list option"
  sm_implementationEvidence :: "string list option"
  sm_notes :: "string option"

definition no_mapping :: source_mapping where
  "no_mapping = \<lparr>sm_requirementId = '''', sm_atomicStatement = None, sm_atomicityStatus = None, sm_validationStatus = None, sm_reviewMethod = None,
     sm_disposition = None, sm_implementationPhase = None, sm_epicIds = None, sm_storyIds = None, sm_acceptanceCriteriaIds = None, sm_testIds = None,
     sm_implementationEvidence = None, sm_notes = None\<rparr>"

text \<open>\<open>value || fallback\<close> on texts and on arrays.\<close>

definition or_text :: "string option \<Rightarrow> string \<Rightarrow> string" where
  "or_text v fallback = (case v of Some (c # cs) \<Rightarrow> c # cs | _ \<Rightarrow> fallback)"

definition or_empty :: "string list option \<Rightarrow> string list" where
  "or_empty v = (case v of None \<Rightarrow> [] | Some xs \<Rightarrow> xs)"

definition mappingById :: "source_mapping list \<Rightarrow> string \<rightharpoonup> source_mapping" where
  "mappingById mappings = map_of (rev (map (\<lambda>m. (sm_requirementId m, m)) mappings))"

record register_requirement =
  rr_requirement :: requirement
  rr_normativeStrength :: string
  rr_reviewMethod :: string
  rr_verificationMethod :: "string option"
  rr_headingPath :: "string list"
  rr_acceptanceCriteriaIds :: "string list"
  rr_notes :: string

definition register_requirement_of :: "string \<Rightarrow> candidate \<Rightarrow> source_mapping \<Rightarrow> register_requirement" where
  "register_requirement_of i c m =
     (let validated = (sm_validationStatus m = Some ''validated''); type = typeFor (ca_sectionNumber c) in
      \<lparr>rr_requirement =
         \<lparr>br_id = i, br_statement = ca_statement c, br_atomicStatement = Some (or_text (sm_atomicStatement m) (ca_statement c)), br_type = type,
          br_horizon = horizonFor (ca_sectionNumber c), br_validationStatus = or_text (sm_validationStatus m) ''unreviewed'',
          br_disposition = or_text (sm_disposition m) (if validated \<and> or_empty (sm_storyIds m) \<noteq> [] then ''accepted'' else ''pending_review''),
          br_atomicityStatus = or_text (sm_atomicityStatus m) (atomicityFor (ca_statement c)),
          br_implementationPhase = or_text (sm_implementationPhase m) (if validated then ''Phase 0'' else ''Unassigned''),
          br_sectionNumber = ca_sectionNumber c, br_sectionTitle = ca_sectionTitle c, br_line = ca_sourceLine c, br_form = ca_sourceForm c,
          br_epicIds = or_empty (sm_epicIds m), br_storyIds = or_empty (sm_storyIds m), br_testIds = or_empty (sm_testIds m),
          br_implementationEvidence = or_empty (sm_implementationEvidence m)\<rparr>,
       rr_normativeStrength = strengthFor (ca_statement c),
       rr_reviewMethod = or_text (sm_reviewMethod m) (if validated then ''curated_review'' else ''pending_review''),
       rr_verificationMethod = verificationFor type, rr_headingPath = ca_headingPath c,
       rr_acceptanceCriteriaIds = or_empty (sm_acceptanceCriteriaIds m), rr_notes = or_text (sm_notes m) ''''\<rparr>)"

definition build_requirements :: "(string \<Rightarrow> string) \<Rightarrow> source_mapping list \<Rightarrow> candidate list \<Rightarrow> register_requirement list" where
  "build_requirements sha256 mappings cs =
     map (\<lambda>(i, c). register_requirement_of i c (case mappingById mappings i of None \<Rightarrow> no_mapping | Some m \<Rightarrow> m)) (zip (requirement_ids sha256 cs) cs)"

definition evidence_entry_of :: "register_requirement \<Rightarrow> register_entry" where
  "evidence_entry_of r = \<lparr>rq_id = br_id (rr_requirement r), rq_disposition = br_disposition (rr_requirement r), rq_testIds = br_testIds (rr_requirement r)\<rparr>"

definition with_evidence :: "(string \<rightharpoonup> string list) \<Rightarrow> register_requirement \<Rightarrow> register_requirement" where
  "with_evidence evidence r = (case evidence (br_id (rr_requirement r)) of
     None \<Rightarrow> r | Some refs \<Rightarrow> r\<lparr>rr_requirement := (rr_requirement r)\<lparr>br_implementationEvidence := refs\<rparr>\<rparr>)"

definition orphan_mappings :: "source_mapping list \<Rightarrow> register_requirement list \<Rightarrow> string list" where
  "orphan_mappings mappings rs = filter (\<lambda>i. i \<notin> set (map (\<lambda>r. br_id (rr_requirement r)) rs)) (map sm_requirementId mappings)"

text \<open>One pass: \<open>normalized\<close> is \<open>None\<close> for the bootstrap pass, which ignores the normalized mappings and validates no evidence.\<close>

definition extract_register :: "(string \<Rightarrow> string) \<Rightarrow> evidence_inputs \<Rightarrow> source_mapping list \<Rightarrow> source_mapping list option \<Rightarrow> candidate list \<Rightarrow>
    string + register_requirement list" where
  "extract_register sha256 inputs curated normalized cs =
     (let mappings = curated @ (case normalized of None \<Rightarrow> [] | Some ms \<Rightarrow> ms);
          requirements = build_requirements sha256 mappings cs
      in case (if normalized = None then Inr Map.empty else loadImplementationEvidence inputs (map evidence_entry_of requirements) None) of
           Inl e \<Rightarrow> Inl e
         | Inr evidence \<Rightarrow>
             if orphan_mappings mappings requirements \<noteq> []
             then Inl (''Mappings reference missing requirement IDs: '' @ join '', '' (orphan_mappings mappings requirements))
             else Inr (map (with_evidence evidence) requirements))"

section \<open>Model: coverage\<close>

record coverage =
  cv_denominator :: nat
  cv_reviewed :: nat
  cv_accepted :: nat
  cv_storyMapped :: nat
  cv_acceptanceCriteriaMapped :: nat
  cv_testMapped :: nat
  cv_implementationEvidence :: nat
  backlogTraceabilityStatus :: string
  implementationCoverageStatus :: string
  honestCoverageStatus :: string

definition reviewed_requirement :: "register_requirement \<Rightarrow> bool" where
  "reviewed_requirement r \<longleftrightarrow> br_validationStatus (rr_requirement r) = ''validated''"

definition accepted_requirement :: "register_requirement \<Rightarrow> bool" where
  "accepted_requirement r \<longleftrightarrow> reviewed_requirement r \<and> br_disposition (rr_requirement r) = ''accepted''"

definition status_when :: "bool \<Rightarrow> string" where
  "status_when holds = (if holds then ''complete'' else ''incomplete'')"

definition coverage_of :: "register_requirement list \<Rightarrow> coverage" where
  "coverage_of rs =
     (let reviewed = length (filter reviewed_requirement rs); accepted = filter accepted_requirement rs;
          mappedStories = length (filter (\<lambda>r. br_storyIds (rr_requirement r) \<noteq> []) accepted);
          mappedAcceptanceCriteria = length (filter (\<lambda>r. rr_acceptanceCriteriaIds r \<noteq> []) accepted);
          mappedTests = length (filter (\<lambda>r. br_testIds (rr_requirement r) \<noteq> []) accepted);
          implemented = length (filter (\<lambda>r. br_implementationEvidence (rr_requirement r) \<noteq> []) accepted)
      in \<lparr>cv_denominator = length rs, cv_reviewed = reviewed, cv_accepted = length accepted, cv_storyMapped = mappedStories,
          cv_acceptanceCriteriaMapped = mappedAcceptanceCriteria, cv_testMapped = mappedTests, cv_implementationEvidence = implemented,
          backlogTraceabilityStatus = status_when (reviewed = length rs \<and> mappedStories = length accepted \<and> mappedAcceptanceCriteria = length accepted \<and>
            mappedTests = length accepted),
          implementationCoverageStatus = status_when (length accepted > 0 \<and> implemented = length accepted),
          honestCoverageStatus = status_when (reviewed = length rs \<and> mappedStories = length accepted \<and> mappedTests = length accepted \<and> implemented = length accepted)\<rparr>)"

section \<open>Model: the three passes\<close>

definition written_mapping :: "requirement_mapping \<Rightarrow> source_mapping" where
  "written_mapping m = \<lparr>sm_requirementId = ma_requirementId m, sm_atomicStatement = Some (ma_atomicStatement m), sm_atomicityStatus = Some (ma_atomicityStatus m),
     sm_validationStatus = Some (ma_validationStatus m), sm_reviewMethod = Some (ma_reviewMethod m), sm_disposition = Some (ma_disposition m),
     sm_implementationPhase = Some (ma_implementationPhase m), sm_epicIds = Some (ma_epicIds m), sm_storyIds = Some (ma_storyIds m),
     sm_acceptanceCriteriaIds = Some (ma_acceptanceCriteriaIds m), sm_testIds = Some (ma_testIds m), sm_implementationEvidence = None, sm_notes = Some (ma_notes m)\<rparr>"

record pipeline_inputs =
  pi_evidence :: evidence_inputs
  pi_curated :: "source_mapping list"
  pi_sections :: "(nat \<times> string) list"
  pi_candidates :: "candidate list"
  pi_epics :: "epic list"

text \<open>The evidence of the last pass is read with the IDs of the backlog just written.\<close>

definition normalize_master_backlog :: "(string \<Rightarrow> string) \<Rightarrow> pipeline_inputs \<Rightarrow> string + (backlog \<times> register_requirement list)" where
  "normalize_master_backlog sha256 p =
     (case extract_register sha256 (pi_evidence p) (pi_curated p) None (pi_candidates p) of
        Inl e \<Rightarrow> Inl e
      | Inr first \<Rightarrow>
         (case generate_backlog (pi_sections p) (map rr_requirement first) (pi_epics p) (ei_repository (pi_evidence p)) (ei_statusOverlay (pi_evidence p)) of
            Inl e \<Rightarrow> Inl e
          | Inr b \<Rightarrow>
             (case extract_register sha256 ((pi_evidence p)\<lparr>ei_generatedTestIds := Some (set (concat (map (map te_id \<circ> bs_tests) (bl_generated b))))\<rparr>)
                 (pi_curated p) (Some (map written_mapping (bl_mappings b))) (pi_candidates p) of
                Inl e \<Rightarrow> Inl e
              | Inr second \<Rightarrow> Inr (b, second))))"

section \<open>Identifiers\<close>

lemma requirement_ids_length [simp]: "length (requirement_ids sha256 cs) = length cs"
  by (simp add: requirement_ids_def)

lemma requirement_ids_nth: "i < length cs \<Longrightarrow> requirement_ids sha256 cs ! i = requirement_id sha256 (map stableKey cs) i (cs ! i)"
  by (simp add: requirement_ids_def nth_enumerate_eq)

lemma digits_val_padded: "digits_val (padStart width n) = n"
proof -
  have "digits_val (replicate k (CHR ''0'') @ s) = digits_val s" for k s
    by (induction k) (simp_all add: digits_val_def digit_val_def)
  then show ?thesis by (simp add: padStart_def Let_def digits_val_nat_str)
qed

lemma padStart_no_dash: "CHR ''-'' \<notin> set (padStart width n)"
  using nat_str_digits [of "CHR ''-''" n] by (auto simp: padStart_def Let_def is_digit_of_char)

lemma upper_char_no_dash:
  assumes "is_lower c"
  shows "char_of (of_char c - 32 :: nat) \<noteq> CHR ''-''"
proof
  assume eq: "char_of (of_char c - 32 :: nat) = CHR ''-''"
  have "97 \<le> (of_char c :: nat)" "(of_char c :: nat) \<le> 122" using assms by (simp_all add: is_lower_def less_eq_char_def)
  then have "of_char (char_of (of_char c - 32 :: nat) :: char) = (of_char c - 32 :: nat)" by (simp add: of_char_of)
  then show False using \<open>97 \<le> (of_char c :: nat)\<close> unfolding eq by simp
qed

lemma uppercase_no_dash: "CHR ''-'' \<notin> set s \<Longrightarrow> CHR ''-'' \<notin> set (uppercase s)"
  unfolding uppercase_def by (induction s) (auto dest: upper_char_no_dash [THEN not_sym] upper_char_no_dash)

text \<open>Two texts split at their first dash.\<close>

lemma split_at_dash:
  assumes "a @ CHR ''-'' # x = b @ CHR ''-'' # y" "CHR ''-'' \<notin> set a" "CHR ''-'' \<notin> set b"
  shows "a = b \<and> x = y"
  using assms
proof (induction a arbitrary: b)
  case Nil
  then show ?case by (cases b) auto
next
  case (Cons c a)
  then show ?case by (cases b) auto
qed

lemma occurrence_less:
  assumes "i < j" "j < length keys" "keys ! i = keys ! j"
  shows "occurrence keys i < occurrence keys j"
proof -
  have "take j keys = take i keys @ drop i (take j keys)" using append_take_drop_id [of i "take j keys"] assms(1) by (simp add: min_def)
  moreover have "keys ! i \<in> set (drop i (take j keys))" using assms by (auto simp: in_set_conv_nth intro: exI [of _ 0])
  ultimately have "length (filter (\<lambda>k. k = keys ! j) (take j keys)) = length (filter (\<lambda>k. k = keys ! j) (take i keys)) + length (filter (\<lambda>k. k = keys ! j) (drop i (take j keys)))"
    by (metis filter_append length_append)
  moreover have "filter (\<lambda>k. k = keys ! j) (drop i (take j keys)) \<noteq> []"
    using \<open>keys ! i \<in> set (drop i (take j keys))\<close> assms(3) by (auto simp: filter_empty_conv)
  ultimately show ?thesis using assms(3) by (simp add: occurrence_def)
qed

lemma requirement_ids_distinct:
  assumes hex: "\<And>k. length (sha256 k) \<ge> 10 \<and> CHR ''-'' \<notin> set (sha256 k)"
    and collision_free: "inj_on (\<lambda>k. uppercase (take 10 (sha256 k))) (set (map stableKey cs))"
  shows "distinct (requirement_ids sha256 cs)"
proof -
  let ?keys = "map stableKey cs"
  let ?short = "\<lambda>k. uppercase (take 10 (sha256 k))"
  have no_dash: "CHR ''-'' \<notin> set (?short k)" for k using hex [of k] by (intro uppercase_no_dash) (auto dest: in_set_takeD)
  have "requirement_id sha256 ?keys i (cs ! i) \<noteq> requirement_id sha256 ?keys j (cs ! j)" if ij: "i < j" "j < length cs" for i j
  proof
    assume eq: "requirement_id sha256 ?keys i (cs ! i) = requirement_id sha256 ?keys j (cs ! j)"
    let ?tail = "duplicateSuffix ?keys"
    have "padStart 3 (ca_sectionNumber (cs ! i)) @ CHR ''-'' # (?short (?keys ! i) @ ?tail i) =
        padStart 3 (ca_sectionNumber (cs ! j)) @ CHR ''-'' # (?short (?keys ! j) @ ?tail j)"
      using eq by (simp only: requirement_id_def append_same_eq append.simps list.inject simp_thms)
    then have "?short (?keys ! i) @ ?tail i = ?short (?keys ! j) @ ?tail j"
      using split_at_dash [OF _ padStart_no_dash padStart_no_dash] by blast
    moreover have "length (?short (?keys ! i)) = length (?short (?keys ! j))" using hex [of "?keys ! i"] hex [of "?keys ! j"] by (simp add: uppercase_def min_absorb2 del: nth_map)
    ultimately have same: "?short (?keys ! i) = ?short (?keys ! j)" "?tail i = ?tail j" by simp_all
    have key: "?keys ! i = ?keys ! j" using inj_onD [OF collision_free same(1)] ij by simp
    have "occurrence ?keys i < occurrence ?keys j" using occurrence_less [of i j ?keys] ij key by simp
    moreover have "length (filter (\<lambda>x. x = ?keys ! j) ?keys) > 1"
    proof -
      have "occurrence ?keys j \<le> length (filter (\<lambda>x. x = ?keys ! j) ?keys)"
      proof -
        have "?keys = take j ?keys @ ?keys ! j # drop (Suc j) ?keys" using ij by (intro id_take_nth_drop) simp
        then have "filter (\<lambda>x. x = ?keys ! j) ?keys = filter (\<lambda>x. x = ?keys ! j) (take j ?keys) @ filter (\<lambda>x. x = ?keys ! j) (?keys ! j # drop (Suc j) ?keys)"
          by (metis filter_append)
        then show ?thesis by (simp add: occurrence_def)
      qed
      then show ?thesis using \<open>occurrence ?keys i < occurrence ?keys j\<close> by (simp add: occurrence_def)
    qed
    ultimately have "padStart 2 (occurrence ?keys i) = padStart 2 (occurrence ?keys j)" using same(2) key by (simp add: duplicateSuffix_def)
    then have "occurrence ?keys i = occurrence ?keys j" by (metis digits_val_padded)
    then show False using \<open>occurrence ?keys i < occurrence ?keys j\<close> by simp
  qed
  then have ne: "requirement_ids sha256 cs ! i \<noteq> requirement_ids sha256 cs ! j" if "i < j" "j < length cs" for i j
    using that by (simp add: requirement_ids_nth)
  show ?thesis unfolding distinct_conv_nth using ne by (metis nat_neq_iff requirement_ids_length)
qed

section \<open>The second pass reads what the first generated\<close>

lemma build_nth:
  assumes "i < length cs"
  shows "build_requirements sha256 mappings cs ! i = register_requirement_of (requirement_ids sha256 cs ! i) (cs ! i)
    (case mappingById mappings (requirement_ids sha256 cs ! i) of None \<Rightarrow> no_mapping | Some m \<Rightarrow> m)"
  using assms by (simp add: build_requirements_def)

lemma build_length [simp]: "length (build_requirements sha256 mappings cs) = length cs"
  by (simp add: build_requirements_def)

lemma register_requirement_id [simp]: "br_id (rr_requirement (register_requirement_of i c m)) = i"
  by (simp add: register_requirement_of_def Let_def)

lemma build_ids: "map (br_id \<circ> rr_requirement) (build_requirements sha256 mappings cs) = requirement_ids sha256 cs"
  by (intro nth_equalityI) (simp_all add: build_nth)

lemma with_evidence_fields [simp]:
  "br_id (rr_requirement (with_evidence e r)) = br_id (rr_requirement r)"
  "br_validationStatus (rr_requirement (with_evidence e r)) = br_validationStatus (rr_requirement r)"
  "br_disposition (rr_requirement (with_evidence e r)) = br_disposition (rr_requirement r)"
  "br_storyIds (rr_requirement (with_evidence e r)) = br_storyIds (rr_requirement r)"
  "br_testIds (rr_requirement (with_evidence e r)) = br_testIds (rr_requirement r)"
  "rr_acceptanceCriteriaIds (with_evidence e r) = rr_acceptanceCriteriaIds r"
  by (simp_all add: with_evidence_def split: option.splits)

lemma extract_register_Inr:
  assumes "extract_register sha256 inputs curated normalized cs = Inr rs"
  shows "\<exists>evidence. rs = map (with_evidence evidence) (build_requirements sha256 (curated @ (case normalized of None \<Rightarrow> [] | Some ms \<Rightarrow> ms)) cs)"
  using assms by (auto simp: extract_register_def Let_def split: sum.splits if_splits)

lemma mappingById_written:
  assumes "map ma_requirementId ms = ids" "distinct ids" "i < length ids"
  shows "mappingById (curated @ map written_mapping ms) (ids ! i) = Some (written_mapping (ms ! i))"
proof -
  let ?ps = "map (\<lambda>m. (sm_requirementId m, m)) (map written_mapping ms)"
  have fsts: "map fst ?ps = ids" using assms(1) by (simp add: o_def written_mapping_def)
  have len: "length ms = length ids" using assms(1) by (metis length_map)
  have "ids ! i = ma_requirementId (ms ! i)" using len assms(1,3) by auto
  then have "?ps ! i = (ids ! i, written_mapping (ms ! i))" using len assms(3) by (simp add: written_mapping_def)
  then have "(ids ! i, written_mapping (ms ! i)) \<in> set ?ps" using len assms(3) by (metis length_map nth_mem)
  then have "map_of (rev ?ps) (ids ! i) = Some (written_mapping (ms ! i))"
    using fsts assms(2) by (intro map_of_is_SomeI) (simp_all add: rev_map [symmetric] del: map_map)
  then show ?thesis by (simp add: mappingById_def map_add_def)
qed

lemma second_pass_fields:
  "br_validationStatus (rr_requirement (register_requirement_of i c (written_mapping (mapping_of n)))) = ''validated''"
  "br_storyIds (rr_requirement (register_requirement_of i c (written_mapping m))) = ma_storyIds m"
  "br_testIds (rr_requirement (register_requirement_of i c (written_mapping m))) = ma_testIds m"
  "rr_acceptanceCriteriaIds (register_requirement_of i c (written_mapping m)) = ma_acceptanceCriteriaIds m"
  by (simp_all add: register_requirement_of_def Let_def written_mapping_def or_text_def or_empty_def mapping_of_def)

lemma second_pass_disposition:
  assumes "ma_disposition m \<noteq> ''accepted'' \<Longrightarrow> ma_storyIds m = []"
  shows "br_disposition (rr_requirement (register_requirement_of i c (written_mapping m))) = ''accepted'' \<longleftrightarrow> ma_disposition m = ''accepted''"
  using assms by (cases "ma_disposition m") (auto simp: register_requirement_of_def Let_def written_mapping_def or_text_def or_empty_def)

lemma final_register:
  assumes "normalize_master_backlog sha256 p = Inr (b, final)" "distinct (requirement_ids sha256 (pi_candidates p))"
  shows "map (br_id \<circ> rr_requirement) final = requirement_ids sha256 (pi_candidates p)" "length final = length (bl_normalized b)"
    "i < length final \<Longrightarrow> reviewed_requirement (final ! i)"
    "i < length final \<Longrightarrow> accepted_requirement (final ! i) \<longleftrightarrow> accepted (bl_normalized b ! i)"
    "i < length final \<Longrightarrow> accepted_requirement (final ! i) \<Longrightarrow>
       br_storyIds (rr_requirement (final ! i)) \<noteq> [] \<and> rr_acceptanceCriteriaIds (final ! i) \<noteq> [] \<and> br_testIds (rr_requirement (final ! i)) \<noteq> []"
proof -
  let ?cs = "pi_candidates p"
  let ?ids = "requirement_ids sha256 ?cs"
  obtain first inputs where first: "extract_register sha256 (pi_evidence p) (pi_curated p) None ?cs = Inr first"
    and gen: "generate_backlog (pi_sections p) (map rr_requirement first) (pi_epics p) (ei_repository (pi_evidence p)) (ei_statusOverlay (pi_evidence p)) = Inr b"
    and second: "extract_register sha256 inputs (pi_curated p) (Some (map written_mapping (bl_mappings b))) ?cs = Inr final"
    using assms(1) by (auto simp: normalize_master_backlog_def split: sum.splits)
  have first_ids: "map br_id (map rr_requirement first) = ?ids"
    using extract_register_Inr [OF first] build_ids [of sha256 _ ?cs] by (auto simp: o_def)
  note traced = mappings_traced [OF gen]
  have ids: "map ma_requirementId (bl_mappings b) = ?ids" using traced first_ids by simp
  obtain ns where ns: "bl_mappings b = map mapping_of ns" "bl_normalized b = ns" using generate_backlog_Inr [OF gen] by metis
  have len: "length ns = length ?cs" using arg_cong [OF ids, of length] by (simp add: ns)
  obtain evidence where final: "final = map (with_evidence evidence) (build_requirements sha256 (pi_curated p @ map written_mapping (bl_mappings b)) ?cs)"
    using extract_register_Inr [OF second] by auto
  have flen: "length final = length ?cs" by (simp add: final)
  then show "length final = length (bl_normalized b)" by (simp add: ns len)
  show "map (br_id \<circ> rr_requirement) final = ?ids" using build_ids [of sha256 _ ?cs] by (simp add: final o_def)
  assume i: "i < length final"
  let ?m = "bl_mappings b ! i"
  have at: "final ! i = with_evidence evidence (register_requirement_of (?ids ! i) (?cs ! i) (written_mapping ?m))"
    using i mappingById_written [OF ids assms(2), of i] by (simp add: final build_nth)
  have m: "?m \<in> set (bl_mappings b)" "?m = mapping_of (ns ! i)" using i len by (simp_all add: ns flen)
  show reviewed: "reviewed_requirement (final ! i)" by (simp add: at m(2) reviewed_requirement_def second_pass_fields)
  have "ma_disposition ?m \<noteq> ''accepted'' \<Longrightarrow> ma_storyIds ?m = []" using traced m(1) by metis
  then have acc: "accepted_requirement (final ! i) \<longleftrightarrow> ma_disposition ?m = ''accepted''"
    using reviewed second_pass_disposition [of ?m] by (simp add: accepted_requirement_def at)
  then show "accepted_requirement (final ! i) \<longleftrightarrow> accepted (bl_normalized b ! i)" by (simp add: m(2) ns(2) accepted_def)
  assume "accepted_requirement (final ! i)"
  then have "ma_storyIds ?m \<noteq> [] \<and> ma_acceptanceCriteriaIds ?m \<noteq> [] \<and> ma_testIds ?m \<noteq> []" using acc traced m(1) by metis
  then show "br_storyIds (rr_requirement (final ! i)) \<noteq> [] \<and> rr_acceptanceCriteriaIds (final ! i) \<noteq> [] \<and> br_testIds (rr_requirement (final ! i)) \<noteq> []"
    by (simp add: at second_pass_fields)
qed

lemma length_filter_nth:
  assumes "length xs = length ys" "\<And>i. i < length xs \<Longrightarrow> P (xs ! i) \<longleftrightarrow> Q (ys ! i)"
  shows "length (filter P xs) = length (filter Q ys)"
proof -
  have "filter (\<lambda>i. P (xs ! i)) [0..<length xs] = filter (\<lambda>i. Q (ys ! i)) [0..<length ys]" using assms by (auto intro: filter_cong)
  then show ?thesis using filter_by_index [of P xs] filter_by_index [of Q ys] by (metis length_map)
qed

section \<open>Properties\<close>

text \<open>Requirement IDs identify candidates. Whatever the specification says, repeated statements included, no two requirements get the same ID,
  as long as the first ten hexadecimal digits of the digest tell the different statements apart.\<close>

theorem requirement_ids_unique:
  assumes "\<And>k. length (sha256 k) \<ge> 10 \<and> CHR ''-'' \<notin> set (sha256 k)"
    and "inj_on (\<lambda>k. uppercase (take 10 (sha256 k))) (set (map stableKey cs))"
  shows "distinct (map (br_id \<circ> rr_requirement) (build_requirements sha256 mappings cs))"
  unfolding build_ids using assms by (rule requirement_ids_distinct)

text \<open>C29: the three passes end in complete traceability. When the normalization succeeds and the requirement IDs are different, the final register lists
  every candidate under its ID, every one is reviewed, every accepted one has a story, a criterion and a test, so the backlog status
  is complete; and the counts of the backlog agree with the denominator and the accepted count of the coverage file.\<close>

theorem normalization_completes_traceability:
  assumes "normalize_master_backlog sha256 p = Inr (b, final)" "distinct (requirement_ids sha256 (pi_candidates p))"
  shows "map (br_id \<circ> rr_requirement) final = requirement_ids sha256 (pi_candidates p) \<and>
    cv_reviewed (coverage_of final) = cv_denominator (coverage_of final) \<and> backlogTraceabilityStatus (coverage_of final) = ''complete'' \<and>
    sourceCandidates (counts_of b) = cv_denominator (coverage_of final) \<and> acceptedRequirements (counts_of b) = cv_accepted (coverage_of final)"
proof -
  note final = final_register [OF assms]
  have mapped: "br_storyIds (rr_requirement r) \<noteq> [] \<and> rr_acceptanceCriteriaIds r \<noteq> [] \<and> br_testIds (rr_requirement r) \<noteq> []"
    if r: "r \<in> set final" "accepted_requirement r" for r
    using r final(5) by (metis in_set_conv_nth)
  have reviewed: "filter reviewed_requirement final = final"
    using final(3) by (intro filter_True) (auto simp: in_set_conv_nth)
  have full: "filter (\<lambda>r. br_storyIds (rr_requirement r) \<noteq> []) (filter accepted_requirement final) = filter accepted_requirement final"
    "filter (\<lambda>r. rr_acceptanceCriteriaIds r \<noteq> []) (filter accepted_requirement final) = filter accepted_requirement final"
    "filter (\<lambda>r. br_testIds (rr_requirement r) \<noteq> []) (filter accepted_requirement final) = filter accepted_requirement final"
    using mapped by (intro filter_True; simp)+
  have "length (filter accepted_requirement final) = length (filter accepted (bl_normalized b))"
    by (rule length_filter_nth) (use final(2,4) in auto)
  then show ?thesis
    unfolding coverage_of_def Let_def reviewed full using final(1,2) by (simp add: counts_of_def status_when_def)
qed

definition example_candidate :: candidate where
  "example_candidate = \<lparr>ca_sectionNumber = 5, ca_sectionTitle = ''PLANS'', ca_headingPath = [''PLANS''], ca_sourceLine = 7, ca_sourceForm = ''bullet'',
     ca_statement = ''seat plans''\<rparr>"

abbreviation example_digest :: "string \<Rightarrow> string" where
  "example_digest k \<equiv> ''0a1b2c3d4e5f''"

theorem requirement_ids_unique_witness:
  "distinct (map (br_id \<circ> rr_requirement) (build_requirements example_digest [] [example_candidate, example_candidate]))"
  by (rule requirement_ids_unique) (simp_all add: inj_on_def)

definition example_pipeline :: pipeline_inputs where
  "example_pipeline = \<lparr>pi_evidence = \<lparr>ei_repository = [], ei_exists = (\<lambda>_. False), ei_roadmap = [], ei_generatedTestIds = None, ei_statusOverlay = None,
       ei_evidenceOverlay = None\<rparr>, pi_curated = [], pi_sections = [], pi_candidates = [example_candidate], pi_epics = []\<rparr>"

lemma example_candidate_pending:
  "is_pending (normalize_requirement (rr_requirement (register_requirement_of i example_candidate no_mapping)))"
  "section_key (normalize_requirement (rr_requirement (register_requirement_of i example_candidate no_mapping))) = (''SUB-E004'', 5)"
  by (simp_all add: is_pending_def accepted_def mapped_by_hand_def section_key_def normalize_requirement_def isParentContext_def register_requirement_of_def
      example_candidate_def no_mapping_def or_text_def or_empty_def sectionEpic_def SECTION_EPICS_def Let_def trim_def is_space_def ends_with_def)

lemma example_pipeline_runs: "\<exists>b final. normalize_master_backlog example_digest example_pipeline = Inr (b, final)"
proof -
  have first: "extract_register example_digest (pi_evidence example_pipeline) [] None [example_candidate] =
      Inr [register_requirement_of (requirement_ids example_digest [example_candidate] ! 0) example_candidate no_mapping]"
    by (simp add: extract_register_def Let_def build_requirements_def mappingById_def orphan_mappings_def with_evidence_def requirement_ids_def)
  moreover have "\<exists>final. extract_register example_digest inputs [] (Some [written_mapping m]) [example_candidate] = Inr final"
    if "ma_requirementId m = requirement_ids example_digest [example_candidate] ! 0" "ei_evidenceOverlay inputs = None" for m inputs
    using that by (simp add: extract_register_def Let_def build_requirements_def orphan_mappings_def loadImplementationEvidence_def requirement_ids_def written_mapping_def)
  moreover obtain b m where b: "generate_backlog [] [rr_requirement (register_requirement_of (requirement_ids example_digest [example_candidate] ! 0) example_candidate no_mapping)] [] [] None = Inr b"
      "bl_mappings b = [m]" "ma_requirementId m = requirement_ids example_digest [example_candidate] ! 0"
    unfolding single_backlog [OF example_candidate_pending] by simp
  ultimately obtain final where "extract_register example_digest ((pi_evidence example_pipeline)\<lparr>ei_generatedTestIds := Some (set (concat (map (map te_id \<circ> bs_tests) (bl_generated b))))\<rparr>)
      [] (Some [written_mapping m]) [example_candidate] = Inr final" by (fastforce simp: example_pipeline_def)
  then show ?thesis using first b by (simp add: normalize_master_backlog_def example_pipeline_def)
qed

theorem normalization_completes_traceability_witness:
  "\<exists>b final. normalize_master_backlog example_digest example_pipeline = Inr (b, final) \<and> backlogTraceabilityStatus (coverage_of final) = ''complete''"
proof -
  obtain b final where run: "normalize_master_backlog example_digest example_pipeline = Inr (b, final)" using example_pipeline_runs by blast
  have "distinct (requirement_ids example_digest (pi_candidates example_pipeline))" by (simp add: requirement_ids_def example_pipeline_def)
  from normalization_completes_traceability [OF run this] run show ?thesis by blast
qed

end
