(* ===== verification/Spec2Isabelle.thy ===== *)
theory Spec2Isabelle
  imports Iso_Time Uuid7 Tenant_Cache Idempotency Problem_Model Approval Tenant_Domain Authorization Audit_Trail Outbox_Progress Outbox_Delivery
    Role_Administration Approval_Commands Api_Composition Telemetry Migrations Requirement_Register
begin

text \<open>
  Verification of the Sintius platform foundation.

  The program is a multi-tenant service: platform packages (\<open>src/platform\<close>), domain modules (\<open>src/modules\<close>), an HTTP
  application (\<open>src/apps/api\<close>), and the delivery tools that gate its releases (\<open>src/tools\<close>). A request enters the HTTP server, is
  authenticated, resolved to a tenant or platform context, and runs a command. A command is idempotent, authorized, and changes its tables, the
  audit trail and the outbox in one transaction. A dispatcher relays the outbox to consumer deliveries in the order of each
  aggregate; consumers record what they have handled in an inbox. The tools derive a backlog and its gates from the specification.

  \<^bold>\<open>How the code is modelled.\<close> A function that may throw is a function into \<open>'a res\<close> (\<open>Inl\<close> the thrown error);
  stateful code is a state transformer \<open>('s, 'a) tx\<close> of \<open>Prelude\<close>, with \<open>runInTransaction\<close> for a database transaction that
  rolls back on an error. Objects whose identity matters (principals, contexts) are references into the lists of a \<open>trust\<close> record. Tables
  are maps or lists of rows, and one SQL statement is one function on them, with the tenant guard of the repository. JavaScript values
  are \<open>js_value\<close>, strings are lists of code units below 256, instants are milliseconds, integers are unbounded except where the code
  rounds or wraps (\<open>js_double\<close>, the digit bounds of decimals, the bytes of identifiers); JSON numbers and the scales of decimals are
  integers, so fractional ones are outside the model. \<open>String(v)\<close> is \<open>js_String\<close>, which throws where the code throws, and an instant read back through
  the text of a \<open>Date\<close> loses its milliseconds (\<open>via_date_text\<close>). Loops are recursion, all of it terminating; no
  definition uses fuel. Definitions keep the names of the source; the head of each theory names its files.

  \<^bold>\<open>Platform packages.\<close>
  \<^item> \<open>Decimal\<close>, \<open>Money\<close>, \<open>Proration\<close> (\<open>platform/money\<close>): exact decimals and their rounding, the text form, settled amounts, the
    largest-remainder allocation, civil dates and proration. Shown: arithmetic is exact or rounded exactly as the mode says, allocations sum
    to the total, stay within one unit of the exact share and do not depend on the order of the shares, parsing inverts printing.
  \<^item> \<open>Tenant_Context\<close>, \<open>Tenant_Cache\<close> (\<open>platform/tenant-context\<close>): issued principals and contexts, the ambient context, jobs, the cache.
    Shown: every context in force descends from an issued principal with membership; cached values never cross tenants.
  \<^item> \<open>Problem_Model\<close>, \<open>Telemetry\<close> (\<open>platform/problem-model\<close>, \<open>platform/observability\<close>): the error boundary; spans, metrics and the attribute filter.
    Shown: observing a program never changes its outcome, and only allow-listed attributes are exported.
  \<^item> \<open>Canonical_Json\<close>, \<open>Idempotency\<close> (\<open>platform/idempotency\<close>): canonical text and the executor over its PostgreSQL store. Shown: the text is injective
    on JSON values; a key runs its work once and replays the stored response.
  \<^item> \<open>Uuid7\<close>, \<open>Event_Envelope\<close>, \<open>Iso_Time\<close>, \<open>Audit_Trail\<close> (\<open>platform/id\<close>, \<open>event-envelope\<close>, \<open>audit\<close>): identifiers, events, evidence. Shown:
    identity comes from the context, evidence is minimal and tampering with it is noticed.
  \<^item> \<open>Outbox_Store\<close>, \<open>Outbox_Relay\<close>, \<open>Outbox_Progress\<close>, \<open>Outbox_Delivery\<close> (\<open>platform/outbox\<close>): rows and leases, dispatcher passes, concurrent workers as a
    step relation over the dispatcher's own functions, transport, inbox and dead letters. Shown: streams are published in order by any number of workers and nothing is marked published unsent, the queue drains,
    effects of a consumer happen once.

  \<^bold>\<open>Modules.\<close>
  \<^item> \<open>Tenant_Domain\<close>, \<open>Authorization\<close>, \<open>Identity_Store\<close>, \<open>Tenant_Commands\<close>, \<open>Role_Administration\<close>, \<open>Authentication\<close>, \<open>Jwt_Verifier\<close>
    (\<open>modules/identity-tenant\<close>). Shown: the aggregate refines its lifecycle automaton; in every run of the service the events tell each tenant's
    state and each provisioned tenant keeps an administrator; exactly which credentials are accepted; the two planes stay separate.
  \<^item> \<open>Approval\<close>, \<open>Approval_Commands\<close> (\<open>modules/audit-governance\<close>). Shown: stored approvals satisfy dual control in every run.
  \<^item> \<open>Foundation_Proof\<close> (\<open>modules/foundation-proof\<close>): the proof command and its atomic record.

  \<^bold>\<open>Application.\<close> \<open>Http_Headers\<close>, \<open>Http_Server\<close>, \<open>Api_Composition\<close> (\<open>apps/api\<close>): headers, routes, error mapping, and the composition over one database.
  Shown: only verified operators change the database, and of it only the rows of one tenant; every run of requests is a run of the identity service, a non-member learns nothing.

  \<^bold>\<open>Delivery tools.\<close>
  \<^item> \<open>Migrations\<close> (\<open>tools/database\<close>): the schema is the outcome of its recorded migrations.
  \<^item> \<open>Test_Inventory\<close>, \<open>Delivery_Gates\<close> (\<open>tools/requirements\<close>): titles and reports, Definition of Done, test strategy, evidence. Shown: what the gates
    accept rests on automated tests reported as passed.
  \<^item> \<open>Csv_Exchange\<close>, \<open>Backlog\<close>, \<open>Backlog_Export\<close>, \<open>Requirement_Register\<close> (\<open>tools/backlog\<close>, \<open>tools/requirements\<close>): the register, the generated
    stories, the CSV files and the coverage gate. Shown: every accepted requirement is traced, the stories partition what was not mapped by
    hand, the written files pass the gate, and the three passes end in complete traceability.

  \<^bold>\<open>Interfaces.\<close> Contracts between components are locales, interpreted on the model's own definitions in the theory that
  provides them: \<open>key_value_store\<close>, the port under the tenant cache (the in-memory store); \<open>idempotency_store\<close>, the store under the
  executor (the PostgreSQL store); \<open>queue_statement\<close>, what the relay relies on in a statement of the queue (leasing, marking, failing and
  resolving); \<open>draining\<close>, why repeated passes come to rest (the dispatcher); \<open>collecting_loop\<close>, the loops of the delivery gates
  that gather every failure before they refuse (the overlays of statuses and of evidence).

  \<^bold>\<open>Parameters and hypotheses.\<close> SHA-256, the signature library, PostgreSQL's execution of a migration file, the collation of file names, the schema validator of
  the web framework, the redaction of free text, random bytes and clock readings are arguments. Where a theorem relies on one, its documented
  behaviour is a hypothesis (a verified payload for an accepted signature, a collation that tells the collected names apart), and a witness
  instantiates it with a concrete function; of SHA-256 nothing is assumed: the exception, that exactly the two texts at hand have one digest, is
  part of the conclusion.

  \<^bold>\<open>Not modelled.\<close> Connection pools, row-level security settings and the wire; the web framework and process start-up and shutdown; propagation of trace contexts
  inside the tracing library and queue gauges; the notification listener, which only shortens polling; the regular expressions of the free-text redaction; key
  generation and the sample tokens of local development; the review table of the persona matrix; the line scan of the Markdown specification, whose
  table rows use a character outside the model's strings; percentages of the coverage file; the roadmap and architecture lints, which assert facts of this repository's own files; data
  files, benchmarks, demonstrations and test support.
\<close>

end
